(* ===== verification/Prelude.thy ===== *)
theory Prelude
  imports
    Main
    "HOL-Library.AList"
    "HOL-Library.Product_Lexorder"
    "HOL-Library.List_Lexorder"
    "HOL-Library.Char_ord"
    "HOL-Library.Multiset"
    "HOL-Library.Sublist"
begin

text \<open>
  The shared vocabulary of the development: Go maps as association lists, the error values and
  the state-and-error operations in which the service layer is written, loops over slices, and
  the generic facts on lists and sorting that the component theories use.

  A Go \<open>map[string]T\<close> is a finite association list with distinct keys. Go visits the entries of
  a map in an unspecified order; the list order stands for one such order, and every definition
  whose result must not depend on it is proved independent of it (see the listing interface in
  the theory \<open>Repository\<close>).
\<close>

section \<open>Collections of rewrite rules\<close>

named_theorems gomap_simps \<open>lookup after the operations of a Go map\<close>
named_theorems op_simps \<open>unfolding of the state-and-error operations\<close>

section \<open>Go maps\<close>

type_synonym 'v gomap = "(string \<times> 'v) list"

abbreviation gm_get :: "'v gomap \<Rightarrow> string \<Rightarrow> 'v option" where
  "gm_get m k \<equiv> map_of m k"

abbreviation gm_set :: "string \<Rightarrow> 'v \<Rightarrow> 'v gomap \<Rightarrow> 'v gomap" where
  "gm_set k v m \<equiv> AList.update k v m"

abbreviation gm_delete :: "string \<Rightarrow> 'v gomap \<Rightarrow> 'v gomap" where
  "gm_delete k m \<equiv> AList.delete k m"

definition gm_values :: "'v gomap \<Rightarrow> 'v list" where
  "gm_values m = map snd m"

text \<open>The value Go reads from a \<open>map[string]string\<close>: the empty string when the key is absent.\<close>

definition gm_string :: "string gomap \<Rightarrow> string \<Rightarrow> string" where
  "gm_string m k = (case gm_get m k of None \<Rightarrow> [] | Some v \<Rightarrow> v)"

definition gm_ok :: "'v gomap \<Rightarrow> bool" where
  "gm_ok m \<longleftrightarrow> distinct (map fst m)"

lemma gm_ok_Nil [simp]: "gm_ok []"
  by (simp add: gm_ok_def)

lemma gm_ok_set [simp, intro]: "gm_ok m \<Longrightarrow> gm_ok (gm_set k v m)"
  by (simp add: gm_ok_def distinct_update)

lemma gm_ok_delete [simp, intro]: "gm_ok m \<Longrightarrow> gm_ok (gm_delete k m)"
  by (simp add: gm_ok_def distinct_delete)

lemma gm_get_set [gomap_simps]: "gm_get (gm_set k v m) k' = (if k = k' then Some v else gm_get m k')"
  by (simp add: update_conv')

lemma gm_get_delete [gomap_simps]: "gm_get (gm_delete k m) k' = (if k = k' then None else gm_get m k')"
  by (simp add: delete_conv')

lemma gm_get_iff_in_set: "gm_ok m \<Longrightarrow> gm_get m k = Some v \<longleftrightarrow> (k, v) \<in> set m"
  by (simp add: gm_ok_def)

lemma set_gm_values: "gm_ok m \<Longrightarrow> set (gm_values m) = {v. \<exists>k. gm_get m k = Some v}"
  by (auto simp: gm_values_def gm_get_iff_in_set image_iff) force+

lemma gm_string_set [gomap_simps]:
  "gm_string (gm_set k v m) k' = (if k = k' then v else gm_string m k')"
  by (simp add: gm_string_def gm_get_set)

section \<open>Errors and operations\<close>

text \<open>
  Go errors: a text built by \<open>fmt.Errorf\<close>, an error wrapped by \<open>%w\<close> behind a text, and the one
  typed error the transports look for, \<open>*service.UnknownRunningOrderError\<close>.
\<close>

datatype go_error =
    Errorf string
  | Wrap string go_error
  | UnknownRunningOrderError (unknown_ROID: string) (unknown_Err: go_error)

text \<open>\<open>errors.As(err, &unknown)\<close>: the first typed error of the wrap chain, with its running order.\<close>

fun errors_As_unknown :: "go_error \<Rightarrow> string option" where
  "errors_As_unknown (Errorf t) = None"
| "errors_As_unknown (Wrap t e) = errors_As_unknown e"
| "errors_As_unknown (UnknownRunningOrderError r e) = Some r"

type_synonym 'a result = "go_error + 'a"

text \<open>
  An operation of type \<open>('s, 'a) op\<close> reads and replaces a state and returns an error or a value.
  The state is returned on the error path as well: what was written before a failure stays
  written.
\<close>

type_synonym ('s, 'a) op = "'s \<Rightarrow> 'a result \<times> 's"

definition op_return :: "'a \<Rightarrow> ('s, 'a) op" where
  "op_return x = (\<lambda>s. (Inr x, s))"

definition op_fail :: "go_error \<Rightarrow> ('s, 'a) op" where
  "op_fail e = (\<lambda>s. (Inl e, s))"

definition op_bind :: "('s, 'a) op \<Rightarrow> ('a \<Rightarrow> ('s, 'b) op) \<Rightarrow> ('s, 'b) op" where
  "op_bind f g = (\<lambda>s. case f s of (Inl e, s') \<Rightarrow> (Inl e, s') | (Inr x, s') \<Rightarrow> g x s')"

text \<open>\<open>if err := f(); err != nil { return fmt.Errorf("t: %w", err) }\<close>\<close>

definition op_wrap :: "string \<Rightarrow> ('s, 'a) op \<Rightarrow> ('s, 'a) op" where
  "op_wrap t f = (\<lambda>s. case f s of (Inl e, s') \<Rightarrow> (Inl (Wrap t e), s') | (Inr x, s') \<Rightarrow> (Inr x, s'))"

text \<open>An operation whose error the caller examines itself.\<close>

definition op_try :: "('s, 'a) op \<Rightarrow> ('s, 'a result) op" where
  "op_try f = (\<lambda>s. case f s of (r, s') \<Rightarrow> (Inr r, s'))"

text \<open>\<open>_ = f()\<close>, and a failure that is only logged.\<close>

definition op_ignore :: "('s, 'a) op \<Rightarrow> ('s, unit) op" where
  "op_ignore f = (\<lambda>s. (Inr (), snd (f s)))"

text \<open>A loop over a slice that returns at the first error.\<close>

fun op_foreach :: "('a \<Rightarrow> ('s, unit) op) \<Rightarrow> 'a list \<Rightarrow> ('s, unit) op" where
  "op_foreach f [] = op_return ()"
| "op_foreach f (x # xs) = op_bind (f x) (\<lambda>_. op_foreach f xs)"

text \<open>The same with the index of \<open>for i, x := range xs\<close>.\<close>

fun op_foreach_from :: "nat \<Rightarrow> (nat \<Rightarrow> 'a \<Rightarrow> ('s, unit) op) \<Rightarrow> 'a list \<Rightarrow> ('s, unit) op" where
  "op_foreach_from i f [] = op_return ()"
| "op_foreach_from i f (x # xs) = op_bind (f i x) (\<lambda>_. op_foreach_from (Suc i) f xs)"

lemma op_return_app [simp, op_simps]: "op_return x s = (Inr x, s)"
  by (simp add: op_return_def)

lemma op_fail_app [simp, op_simps]: "op_fail e s = (Inl e, s)"
  by (simp add: op_fail_def)

lemma op_bind_Inr [op_simps]: "f s = (Inr x, s') \<Longrightarrow> op_bind f g s = g x s'"
  by (simp add: op_bind_def)

lemma op_bind_Inl [op_simps]: "f s = (Inl e, s') \<Longrightarrow> op_bind f g s = (Inl e, s')"
  by (simp add: op_bind_def)

lemma op_bind_return [simp]: "op_bind (op_return x) g = g x"
  by (simp add: op_bind_def fun_eq_iff)

lemma op_bind_fail [simp]: "op_bind (op_fail e) g = op_fail e"
  by (simp add: op_bind_def fun_eq_iff)

lemma op_bind_eq_Inr:
  "op_bind f g s = (Inr y, t) \<longleftrightarrow> (\<exists>x s'. f s = (Inr x, s') \<and> g x s' = (Inr y, t))"
  by (auto simp: op_bind_def split: prod.splits sum.splits)

lemma op_wrap_Inr [op_simps]: "f s = (Inr x, s') \<Longrightarrow> op_wrap t f s = (Inr x, s')"
  by (simp add: op_wrap_def)

lemma op_wrap_Inl [op_simps]: "f s = (Inl e, s') \<Longrightarrow> op_wrap t f s = (Inl (Wrap t e), s')"
  by (simp add: op_wrap_def)

lemma op_wrap_eq_Inr [simp]: "op_wrap t f s = (Inr y, s') \<longleftrightarrow> f s = (Inr y, s')"
  by (auto simp: op_wrap_def split: prod.splits sum.splits)

lemma op_try_app [op_simps]: "op_try f s = (Inr (fst (f s)), snd (f s))"
  by (simp add: op_try_def split: prod.splits)

lemma op_ignore_app [op_simps]: "op_ignore f s = (Inr (), snd (f s))"
  by (simp add: op_ignore_def)

text \<open>
  Loop rules. An invariant of the state kept by every iteration is kept by the loop, on the
  error path too, and a loop none of whose iterations can fail does not fail.
\<close>

lemma op_bind_inv:
  assumes "I s" "\<And>s. I s \<Longrightarrow> I (snd (f s))" "\<And>x s. I s \<Longrightarrow> I (snd (g x s))"
  shows "I (snd (op_bind f g s))"
  using assms(1) assms(2) [of s] assms(3)
  by (auto simp: op_bind_def split: prod.splits sum.splits)

lemma op_foreach_inv:
  assumes "I s" "\<And>x s. x \<in> set xs \<Longrightarrow> I s \<Longrightarrow> I (snd (f x s))"
  shows "I (snd (op_foreach f xs s))"
  using assms
proof (induction xs arbitrary: s)
  case Nil
  then show ?case by simp
next
  case (Cons x xs)
  show ?case
    using Cons.prems(1)
  proof (simp, intro op_bind_inv [where I = I])
    show "\<And>t. I t \<Longrightarrow> I (snd (f x t))" using Cons.prems(2) by simp
    show "\<And>u t. I t \<Longrightarrow> I (snd (op_foreach f xs t))"
      using Cons.IH Cons.prems(2) by simp
  qed
qed

lemma op_foreach_from_inv:
  assumes "I s" "\<And>i x s. x \<in> set xs \<Longrightarrow> I s \<Longrightarrow> I (snd (f i x s))"
  shows "I (snd (op_foreach_from n f xs s))"
  using assms
proof (induction xs arbitrary: s n)
  case Nil
  then show ?case by simp
next
  case (Cons x xs)
  show ?case
    using Cons.prems(1)
  proof (simp, intro op_bind_inv [where I = I])
    show "\<And>t. I t \<Longrightarrow> I (snd (f n x t))" using Cons.prems(2) by simp
    show "\<And>u t. I t \<Longrightarrow> I (snd (op_foreach_from (Suc n) f xs t))"
      using Cons.IH Cons.prems(2) by simp
  qed
qed

section \<open>Lists\<close>

text \<open>\<open>for i, x := range xs { x.Order = i + 1 }\<close>: consecutive numbers from \<open>n\<close>.\<close>

fun number_from :: "(int \<Rightarrow> 'a \<Rightarrow> 'a) \<Rightarrow> int \<Rightarrow> 'a list \<Rightarrow> 'a list" where
  "number_from f n [] = []"
| "number_from f n (x # xs) = f n x # number_from f (n + 1) xs"

lemma length_number_from [simp]: "length (number_from f n xs) = length xs"
  by (induction xs arbitrary: n) auto

lemma nth_number_from: "i < length xs \<Longrightarrow> number_from f n xs ! i = f (n + int i) (xs ! i)"
proof (induction xs arbitrary: n i)
  case Nil
  then show ?case by simp
next
  case (Cons x xs)
  then show ?case by (cases i) (auto simp: algebra_simps)
qed

lemma number_from_append:
  "number_from f n (xs @ ys) = number_from f n xs @ number_from f (n + int (length xs)) ys"
  by (induction xs arbitrary: n) (auto simp: algebra_simps)

lemma map_number_from: "(\<And>n x. g (f n x) = g x) \<Longrightarrow> map g (number_from f n xs) = map g xs"
  by (induction xs arbitrary: n) auto

lemma set_number_from:
  "set (number_from f n xs) = {f (n + int i) (xs ! i) | i. i < length xs}"
  by (auto simp: in_set_conv_nth nth_number_from) (metis nth_number_from)+

text \<open>The text \<open>fmt\<close> gives a slice of strings under \<open>%v\<close>: the elements between brackets, blank-separated.\<close>

fun join_strings :: "string \<Rightarrow> string list \<Rightarrow> string" where
  "join_strings sep [] = []"
| "join_strings sep [x] = x"
| "join_strings sep (x # y # ys) = x @ sep @ join_strings sep (y # ys)"

definition fmt_strings :: "string list \<Rightarrow> string" where
  "fmt_strings xs = ''['' @ join_strings '' '' xs @ '']''"

text \<open>
  A stable sort whose key is injective on the elements depends on the elements alone, not on the
  order in which they were listed.
\<close>

lemma sort_key_perm:
  assumes "mset xs = mset ys" and "distinct (map f xs)"
  shows "sort_key f xs = sort_key f ys"
proof -
  have sets: "set xs = set ys"
    using assms(1) by (rule mset_eq_setD)
  have dys: "distinct (map f ys)"
    using assms by (metis mset_eq_imp_distinct_iff mset_map)
  have inj: "inj_on f (set (sort_key f xs) \<union> set (sort_key f ys))"
    using assms(2) sets by (simp add: distinct_map)
  have dx: "distinct (map f (sort_key f xs))" and dy: "distinct (map f (sort_key f ys))"
    using assms(2) dys by (simp_all add: distinct_map distinct_sort)
  show ?thesis
    by (rule map_sorted_distinct_set_unique [OF inj _ dx _ dy]) (simp_all add: sets)
qed

lemma sort_key_eqI:
  assumes "sorted (map f ys)" "distinct (map f ys)" "set xs = set ys" "distinct xs"
  shows "sort_key f xs = ys"
proof -
  have "distinct ys" using assms(2) by (simp add: distinct_map)
  with assms(3,4) have "mset xs = mset ys" by (simp add: set_eq_iff_mset_eq_distinct)
  moreover have "distinct (map f xs)"
    using assms by (simp add: distinct_map)
  ultimately have "sort_key f xs = sort_key f ys" by (rule sort_key_perm)
  also have "\<dots> = ys" using assms(1) by (simp add: sort_key_id_if_sorted)
  finally show ?thesis .
qed

lemma find_Some_in: "List.find P xs = Some x \<Longrightarrow> x \<in> set xs \<and> P x"
  by (metis find_Some_iff nth_mem)

lemma find_None_notin: "List.find P xs = None \<Longrightarrow> x \<in> set xs \<Longrightarrow> \<not> P x"
  by (metis find_None_iff)

text \<open>Splitting a text at the first occurrence of a separator is unambiguous.\<close>

lemma split_at_separator:
  assumes "xs @ c # ys = xs' @ c # ys'" "c \<notin> set xs" "c \<notin> set xs'"
  shows "xs = xs' \<and> ys = ys'"
proof -
  have "takeWhile (\<lambda>x. x \<noteq> c) (xs @ c # ys) = xs"
    using assms(2) by (induction xs) auto
  moreover have "takeWhile (\<lambda>x. x \<noteq> c) (xs' @ c # ys') = xs'"
    using assms(3) by (induction xs') auto
  ultimately have "xs = xs'" using assms(1) by simp
  with assms(1) show ?thesis by simp
qed

lemma split_at_last_separator:
  assumes "xs @ c # ys = xs' @ c # ys'" "c \<notin> set ys" "c \<notin> set ys'"
  shows "xs = xs' \<and> ys = ys'"
proof -
  have "rev ys @ c # rev xs = rev ys' @ c # rev xs'"
    using arg_cong [OF assms(1), of rev] by simp
  from split_at_separator [OF this] assms(2,3) show ?thesis by simp
qed

end
