(* ===== verification/GoLib.thy ===== *)
theory GoLib
  imports Prelude
begin

text \<open>
  What the program uses of Go's standard library, on byte strings (a Go string is a sequence of
  bytes, and so is a HOL \<open>string\<close>): \<open>strings.TrimSpace\<close>, \<open>strings.ToUpper\<close>, \<open>strconv.ParseInt\<close>,
  \<open>strconv.Atoi\<close>, \<open>strconv.FormatInt\<close>, \<open>url.PathEscape\<close> and the wrap-around of \<open>int\<close>. What rests on
  tables or hardware outside the sources (Unicode case mapping, quoting, IEEE arithmetic, the
  clock) is a field of the environment record \<open>go_env\<close> that the operations take.
\<close>

section \<open>White space\<close>

text \<open>The UTF-8 encodings of the code points \<open>unicode.IsSpace\<close> accepts.\<close>

definition space_encodings :: "string list" where
  "space_encodings =
    [[CHR 0x09], [CHR 0x0A], [CHR 0x0B], [CHR 0x0C], [CHR 0x0D], [CHR 0x20],
     [CHR 0xC2, CHR 0x85], [CHR 0xC2, CHR 0xA0], [CHR 0xE1, CHR 0x9A, CHR 0x80],
     [CHR 0xE2, CHR 0x80, CHR 0x80], [CHR 0xE2, CHR 0x80, CHR 0x81], [CHR 0xE2, CHR 0x80, CHR 0x82],
     [CHR 0xE2, CHR 0x80, CHR 0x83], [CHR 0xE2, CHR 0x80, CHR 0x84], [CHR 0xE2, CHR 0x80, CHR 0x85],
     [CHR 0xE2, CHR 0x80, CHR 0x86], [CHR 0xE2, CHR 0x80, CHR 0x87], [CHR 0xE2, CHR 0x80, CHR 0x88],
     [CHR 0xE2, CHR 0x80, CHR 0x89], [CHR 0xE2, CHR 0x80, CHR 0x8A], [CHR 0xE2, CHR 0x80, CHR 0xA8],
     [CHR 0xE2, CHR 0x80, CHR 0xA9], [CHR 0xE2, CHR 0x80, CHR 0xAF], [CHR 0xE2, CHR 0x81, CHR 0x9F],
     [CHR 0xE3, CHR 0x80, CHR 0x80]]"

text \<open>\<open>find_prefix encs s\<close> is the first non-empty string of \<open>encs\<close> that \<open>s\<close> starts with.\<close>

fun find_prefix :: "string list \<Rightarrow> string \<Rightarrow> string option" where
  "find_prefix [] s = None"
| "find_prefix (e # es) s =
     (if e \<noteq> [] \<and> take (length e) s = e then Some e else find_prefix es s)"

lemma find_prefix_Some: "find_prefix es s = Some e \<Longrightarrow> e \<noteq> [] \<and> e \<in> set es \<and> prefix e s"
  by (induction es) (auto simp: prefix_def split: if_splits dest: sym, metis append_take_drop_id)

function trim_prefixes :: "string list \<Rightarrow> string \<Rightarrow> string" where
  "trim_prefixes encs s =
     (case find_prefix encs s of
        None \<Rightarrow> s
      | Some e \<Rightarrow> trim_prefixes encs (drop (length e) s))"
  by pat_completeness auto
termination
  by (relation "measure (\<lambda>(encs, s). length s)")
    (auto dest!: find_prefix_Some simp: prefix_def)

declare trim_prefixes.simps [simp del]

definition trim_left :: "string \<Rightarrow> string" where
  "trim_left s = trim_prefixes space_encodings s"

definition trim_right :: "string \<Rightarrow> string" where
  "trim_right s = rev (trim_prefixes (map rev space_encodings) (rev s))"

definition TrimSpace :: "string \<Rightarrow> string" where
  "TrimSpace s = trim_right (trim_left s)"

lemma trim_prefixes_suffix: "suffix (trim_prefixes encs s) s"
proof (induction encs s rule: trim_prefixes.induct)
  case (1 encs s)
  show ?case
  proof (cases "find_prefix encs s")
    case None
    then show ?thesis by (simp add: trim_prefixes.simps [of encs s])
  next
    case (Some e)
    from 1 [OF Some] have "suffix (trim_prefixes encs (drop (length e) s)) s"
      by (rule suffix_order.trans) (rule suffix_drop)
    with Some show ?thesis by (simp add: trim_prefixes.simps [of encs s])
  qed
qed

lemma trim_prefixes_Nil [simp]: "trim_prefixes encs [] = []"
  using trim_prefixes_suffix [of encs "[]"] by simp

lemma TrimSpace_Nil [simp]: "TrimSpace [] = []"
  by (simp add: TrimSpace_def trim_left_def trim_right_def)

lemma TrimSpace_nonempty: "TrimSpace s \<noteq> [] \<Longrightarrow> s \<noteq> []"
  by auto


section \<open>Case mapping\<close>

text \<open>
  The environment of an operation: the clock reading it records in the \<open>UpdatedAt\<close> fields (one
  reading per operation), the case mapping of strings that are not ASCII, \<open>strconv.Quote\<close>, the
  floating-point steps of the item timing, \<open>time.Parse\<close> and \<open>Time.Format\<close> by layout, and what
  \<open>crypto/rand\<close> delivers. A rate is named by the bit pattern of its \<open>float64\<close>: \<open>parse_rate\<close> is
  \<open>strconv.ParseFloat\<close> followed by the test for a positive value, \<open>round_rate r\<close> is
  \<open>int(math.Round(r))\<close> and \<open>round_quotient n r\<close> is \<open>int(math.Round(float64(n) / r))\<close>.
\<close>

type_synonym time = int

record go_env =
  now :: time
  unicode_upper :: "string \<Rightarrow> string"
  quote :: "string \<Rightarrow> string"
  parse_rate :: "string \<Rightarrow> int option"
  round_rate :: "int \<Rightarrow> int"
  round_quotient :: "int \<Rightarrow> int \<Rightarrow> int"
  time_Parse :: "string \<Rightarrow> string \<Rightarrow> time option"
  time_Format :: "string \<Rightarrow> time \<Rightarrow> string"
  random_bytes :: "string result"

definition is_ascii :: "string \<Rightarrow> bool" where
  "is_ascii s \<longleftrightarrow> list_all (\<lambda>c. of_char c < (128 :: nat)) s"

definition ascii_upper :: "char \<Rightarrow> char" where
  "ascii_upper c =
     (if 97 \<le> (of_char c :: nat) \<and> (of_char c :: nat) \<le> 122 then char_of (of_char c - 32 :: nat) else c)"

definition ToUpper :: "go_env \<Rightarrow> string \<Rightarrow> string" where
  "ToUpper e s = (if is_ascii s then map ascii_upper s else unicode_upper e s)"

text \<open>
  \<open>strings.EqualFold\<close> against a word of ASCII letters without \<open>K\<close> and \<open>S\<close>, the two letters some
  other code point folds to: equality after upper-casing the ASCII letters.
\<close>

definition EqualFold_word :: "string \<Rightarrow> string \<Rightarrow> bool" where
  "EqualFold_word s word \<longleftrightarrow> map ascii_upper s = map ascii_upper word"

section \<open>Splitting\<close>

text \<open>\<open>strings.Split(s, sep)\<close> for a one-byte separator.\<close>

fun split_char :: "char \<Rightarrow> string \<Rightarrow> string list" where
  "split_char c [] = [[]]"
| "split_char c (x # xs) =
     (if x = c then [] # split_char c xs
      else case split_char c xs of [] \<Rightarrow> [[x]] | y # ys \<Rightarrow> (x # y) # ys)"

text \<open>\<open>strings.Cut(s, sep)\<close> for a one-byte separator: what is before and after it, and whether it was found.\<close>

definition cut_char :: "char \<Rightarrow> string \<Rightarrow> string \<times> string \<times> bool" where
  "cut_char c s = (if c \<in> set s
     then (takeWhile (\<lambda>x. x \<noteq> c) s, tl (dropWhile (\<lambda>x. x \<noteq> c) s), True) else (s, [], False))"

definition TrimPrefix :: "string \<Rightarrow> string \<Rightarrow> string" where
  "TrimPrefix s p = (if take (length p) s = p then drop (length p) s else s)"

lemma split_char_nonempty [simp]: "split_char c s \<noteq> []"
  by (induction s) (auto split: list.splits)

lemma split_char_no_sep: "x \<in> set (split_char c s) \<Longrightarrow> c \<notin> set x"
  by (induction s arbitrary: x) (auto split: list.splits if_splits)

lemma join_split_char: "join_strings [c] (split_char c s) = s"
proof (induction s)
  case (Cons x xs)
  obtain y ys where "split_char c xs = y # ys" using split_char_nonempty [of c xs] by (cases "split_char c xs") auto
  with Cons show ?case by (cases ys) auto
qed simp

section \<open>Integers\<close>

text \<open>The value a 64-bit \<open>int\<close> holds after an arithmetic step.\<close>

definition int64 :: "int \<Rightarrow> int" where
  "int64 x = (x + 2 ^ 63) mod 2 ^ 64 - 2 ^ 63"

lemma int64_bounds: "- (2 ^ 63) \<le> int64 x \<and> int64 x < 2 ^ 63"
  by (simp add: int64_def)

lemma int64_id: "- (2 ^ 63) \<le> x \<Longrightarrow> x < 2 ^ 63 \<Longrightarrow> int64 x = x"
  by (simp add: int64_def)

definition digit_value :: "char \<Rightarrow> nat option" where
  "digit_value c = (let n = (of_char c :: nat) in
     if 48 \<le> n \<and> n \<le> 57 then Some (n - 48)
     else if 97 \<le> n \<and> n \<le> 122 then Some (n - 87)
     else if 65 \<le> n \<and> n \<le> 90 then Some (n - 55)
     else None)"

fun digits_value :: "nat \<Rightarrow> nat \<Rightarrow> string \<Rightarrow> nat option" where
  "digits_value b acc [] = Some acc"
| "digits_value b acc (c # cs) =
     (case digit_value c of
        None \<Rightarrow> None
      | Some d \<Rightarrow> if d < b then digits_value b (acc * b + d) cs else None)"

definition parse_digits :: "nat \<Rightarrow> string \<Rightarrow> nat option" where
  "parse_digits b s = (if s = [] then None else digits_value b 0 s)"

text \<open>\<open>strconv.ParseInt(s, base, bits)\<close> for an explicit base: sign, digits, range.\<close>

definition ParseInt :: "nat \<Rightarrow> nat \<Rightarrow> string \<Rightarrow> int option" where
  "ParseInt b bits s =
     (let neg = (s \<noteq> [] \<and> hd s = CHR ''-'');
          t = (if s \<noteq> [] \<and> (hd s = CHR ''-'' \<or> hd s = CHR ''+'') then tl s else s)
      in case parse_digits b t of
           None \<Rightarrow> None
         | Some n \<Rightarrow> let v = (if neg then - int n else int n)
                     in if - (2 ^ (bits - 1)) \<le> v \<and> v < 2 ^ (bits - 1) then Some v else None)"

definition Atoi :: "string \<Rightarrow> int option" where
  "Atoi s = ParseInt 10 64 s"

lemma ParseInt_bounds:
  "ParseInt b bits s = Some v \<Longrightarrow> - (2 ^ (bits - 1)) \<le> v \<and> v < 2 ^ (bits - 1)"
  by (auto simp: ParseInt_def Let_def split: option.splits if_splits)

definition dec_digit :: "nat \<Rightarrow> char" where
  "dec_digit d = char_of (48 + d)"

fun nat_text :: "nat \<Rightarrow> string" where
  "nat_text n = (if n < 10 then [dec_digit n] else nat_text (n div 10) @ [dec_digit (n mod 10)])"

declare nat_text.simps [simp del]

text \<open>\<open>strconv.FormatInt(n, 10)\<close>, \<open>strconv.Itoa\<close> and \<open>%d\<close>.\<close>

definition FormatInt :: "int \<Rightarrow> string" where
  "FormatInt n = (if n < 0 then CHR ''-'' # nat_text (nat (- n)) else nat_text (nat n))"

lemma of_char_dec_digit: "d < 10 \<Longrightarrow> (of_char (dec_digit d) :: nat) = 48 + d"
  by (simp add: dec_digit_def of_char_of)

lemma digit_value_dec_digit: "d < 10 \<Longrightarrow> digit_value (dec_digit d) = Some d"
  by (simp add: digit_value_def of_char_dec_digit)

lemma digits_value_snoc:
  "digits_value b acc (cs @ [c]) =
     (case digits_value b acc cs of
        None \<Rightarrow> None
      | Some n \<Rightarrow> (case digit_value c of None \<Rightarrow> None | Some d \<Rightarrow> if d < b then Some (n * b + d) else None))"
  by (induction cs arbitrary: acc) (auto split: option.splits)

lemma digits_value_nat_text: "digits_value 10 0 (nat_text n) = Some n"
proof (induction n rule: nat_text.induct)
  case (1 n)
  show ?case
  proof (cases "n < 10")
    case True
    then show ?thesis by (simp add: nat_text.simps [of n] digit_value_dec_digit)
  next
    case False
    with 1 show ?thesis
      by (simp add: nat_text.simps [of n] digits_value_snoc digit_value_dec_digit)
  qed
qed

lemma nat_text_nonempty [simp]: "nat_text n \<noteq> []"
  by (subst nat_text.simps) simp

lemma hd_nat_text_digit: "\<exists>d < 10. hd (nat_text n) = dec_digit d"
proof (induction n rule: nat_text.induct)
  case (1 n)
  then show ?case
    by (cases "n < 10") (auto simp: nat_text.simps [of n] hd_append)
qed

lemma hd_nat_text_no_sign: "hd (nat_text n) \<noteq> CHR ''-'' \<and> hd (nat_text n) \<noteq> CHR ''+''"
proof -
  obtain d where d: "d < 10" "hd (nat_text n) = dec_digit d" using hd_nat_text_digit by blast
  then have "(of_char (hd (nat_text n)) :: nat) = 48 + d" by (simp add: of_char_dec_digit)
  then show ?thesis by auto
qed

lemma ParseInt_FormatInt:
  assumes "- (2 ^ (bits - 1)) \<le> n" "n < 2 ^ (bits - 1)"
  shows "ParseInt 10 bits (FormatInt n) = Some n"
proof (cases "n < 0")
  case True
  then show ?thesis
    using assms by (simp add: ParseInt_def FormatInt_def parse_digits_def digits_value_nat_text)
next
  case False
  with hd_nat_text_no_sign [of "nat n"] show ?thesis
    using assms by (simp add: ParseInt_def FormatInt_def parse_digits_def digits_value_nat_text)
qed

section \<open>Path escaping\<close>

text \<open>\<open>url.PathEscape\<close>: bytes outside the unreserved set and \<open>$&+:=@\<close> become \<open>%XX\<close>.\<close>

definition is_alnum :: "char \<Rightarrow> bool" where
  "is_alnum c = (let n = (of_char c :: nat) in
     48 \<le> n \<and> n \<le> 57 \<or> 65 \<le> n \<and> n \<le> 90 \<or> 97 \<le> n \<and> n \<le> 122)"

definition path_safe :: "char \<Rightarrow> bool" where
  "path_safe c \<longleftrightarrow> is_alnum c \<or> c \<in> set ''-_.~$&+:=@''"

definition hex_digit :: "nat \<Rightarrow> char" where
  "hex_digit d = (if d < 10 then char_of (48 + d) else char_of (55 + d))"

definition escape_byte :: "char \<Rightarrow> string" where
  "escape_byte c = (if path_safe c then [c]
     else [CHR ''%'', hex_digit (of_char c div 16), hex_digit (of_char c mod 16)])"

definition PathEscape :: "string \<Rightarrow> string" where
  "PathEscape s = concat (map escape_byte s)"

text \<open>The inverse on escaped texts, used to show that escaping loses nothing.\<close>

definition unhex :: "char \<Rightarrow> nat" where
  "unhex c = (let n = (of_char c :: nat) in if n < 58 then n - 48 else n - 55)"

fun path_unescape :: "string \<Rightarrow> string" where
  "path_unescape [] = []"
| "path_unescape (c # cs) =
     (if c = CHR ''%'' then
        (case cs of h # l # r \<Rightarrow> char_of (unhex h * 16 + unhex l) # path_unescape r
         | _ \<Rightarrow> [])
      else c # path_unescape cs)"

lemma of_char_hex_digit:
  "d < 16 \<Longrightarrow> (of_char (hex_digit d) :: nat) = (if d < 10 then 48 + d else 55 + d)"
  by (simp add: hex_digit_def of_char_of)

lemma unhex_hex_digit: "d < 16 \<Longrightarrow> unhex (hex_digit d) = d"
  by (simp add: unhex_def of_char_hex_digit)

lemma path_safe_percent [simp]: "\<not> path_safe CHR ''%''"
  by (simp add: path_safe_def is_alnum_def)

lemma char_nibbles: "(of_char c :: nat) div 16 < 16 \<and> (of_char c :: nat) mod 16 < 16"
  using nat_of_char_less_256 [of c] by arith

lemma path_unescape_escape_byte: "path_unescape (escape_byte c @ r) = c # path_unescape r"
proof (cases "path_safe c")
  case True
  then have "c \<noteq> CHR ''%''" by auto
  with True show ?thesis by (simp add: escape_byte_def)
next
  case False
  then have "path_unescape (escape_byte c @ r) =
      char_of ((of_char c :: nat) div 16 * 16 + of_char c mod 16) # path_unescape r"
    by (simp add: escape_byte_def unhex_hex_digit char_nibbles)
  also have "(of_char c :: nat) div 16 * 16 + of_char c mod 16 = of_char c" by simp
  finally show ?thesis by simp
qed

lemma path_unescape_PathEscape: "path_unescape (PathEscape s) = s"
  by (induction s) (simp_all add: PathEscape_def path_unescape_escape_byte)

lemma PathEscape_inject [simp]: "PathEscape s = PathEscape t \<longleftrightarrow> s = t"
  by (metis path_unescape_PathEscape)

lemma PathEscape_Nil [simp]: "PathEscape s = [] \<longleftrightarrow> s = []"
proof
  assume "PathEscape s = []"
  then have "path_unescape (PathEscape s) = []" by simp
  then show "s = []" by (simp add: path_unescape_PathEscape)
qed (simp add: PathEscape_def)

lemma slash_escape_byte: "CHR ''/'' \<notin> set (escape_byte c)"
proof (cases "path_safe c")
  case True
  then show ?thesis by (auto simp: escape_byte_def path_safe_def is_alnum_def)
next
  case False
  have h: "hex_digit d \<noteq> CHR ''/''" if "d < 16" for d
    using of_char_hex_digit [OF that] by (auto split: if_splits)
  with False h [symmetric] show ?thesis by (simp add: escape_byte_def char_nibbles)
qed

lemma slash_PathEscape: "CHR ''/'' \<notin> set (PathEscape s)"
  by (induction s) (auto simp: PathEscape_def slash_escape_byte)

section \<open>An environment for the examples\<close>

definition example_env :: go_env where
  "example_env = \<lparr>now = 1000, unicode_upper = id, quote = (\<lambda>s. CHR 34 # s @ [CHR 34]),
     parse_rate = (\<lambda>s. None), round_rate = id, round_quotient = (\<lambda>a b. a),
     time_Parse = (\<lambda>l v. None), time_Format = (\<lambda>l t. FormatInt t), random_bytes = Inr (replicate 16 (CHR ''a''))\<rparr>"

end
