(* ===== verification/Model.thy ===== *)
theory Model
  imports GoLib
begin

text \<open>
  The storage model of \<open>src/internal/model\<close>: media objects, items, stories, running orders, their
  metadata blocks, cues and media pointers, and the status values. A Go slice is a list, a
  pointer that may be nil an option, a \<open>map[string]string\<close> an association list; the JSON and BSON
  tags have no counterpart.
\<close>

section \<open>Status values\<close>

type_synonym StatusType = string

definition StatusPending :: StatusType where "StatusPending = ''PENDING''"
definition StatusReady :: StatusType where "StatusReady = ''READY''"
definition StatusActive :: StatusType where "StatusActive = ''ACTIVE''"
definition StatusPlaying :: StatusType where "StatusPlaying = ''PLAY''"
definition StatusPaused :: StatusType where "StatusPaused = ''PAUSED''"
definition StatusStopped :: StatusType where "StatusStopped = ''STOPPED''"
definition StatusCompleted :: StatusType where "StatusCompleted = ''COMPLETED''"
definition StatusSkipped :: StatusType where "StatusSkipped = ''SKIPPED''"
definition StatusError :: StatusType where "StatusError = ''ERROR''"

section \<open>Entities\<close>

record ExternalMetadata =
  em_Scope :: string
  em_Schema :: string
  em_Payload :: string

record MOSObject =
  obj_ID :: string
  obj_ObjectType :: string
  obj_Slug :: string
  obj_Duration :: int
  obj_TimeBase :: int
  obj_Status :: StatusType
  obj_ObjectID :: string
  obj_MediaID :: string
  obj_MosAbstract :: string
  obj_Metadata :: "string gomap"
  obj_ExternalMetadata :: "ExternalMetadata list"
  obj_CreatedAt :: time
  obj_UpdatedAt :: time

record MediaPath =
  mp_URL :: string
  mp_TechDescription :: string

record MediaPaths =
  mps_Essence :: "MediaPath list"
  mps_Proxy :: "MediaPath list"
  mps_Metadata :: "MediaPath list"

text \<open>\<open>Empty\<close> tolerates a nil receiver.\<close>

definition MediaPaths_Empty :: "MediaPaths option \<Rightarrow> bool" where
  "MediaPaths_Empty m = (case m of
      None \<Rightarrow> True
    | Some p \<Rightarrow> mps_Essence p = [] \<and> mps_Proxy p = [] \<and> mps_Metadata p = [])"

record Item =
  item_ID :: string
  item_RawID :: string
  item_ObjectID :: string
  item_Slug :: string
  item_Abstract :: string
  item_Duration :: int
  item_EditorialDuration :: int
  item_TimeBase :: int
  item_Media :: "MediaPaths option"
  item_Status :: StatusType
  item_Order :: int
  item_StoryID :: string
  item_Metadata :: "string gomap"
  item_ExternalMetadata :: "ExternalMetadata list"
  item_CreatedAt :: time
  item_UpdatedAt :: time

record StoryCue =
  cue_Kind :: string
  cue_Raw :: string
  cue_Verb :: string
  cue_Target :: string
  cue_Fields :: "string list"
  cue_Params :: "string gomap"
  cue_Order :: int
  cue_Paragraph :: int

record Story =
  story_ID :: string
  story_RawID :: string
  story_RunningOrderID :: string
  story_Slug :: string
  story_Number :: string
  story_Duration :: int
  story_Status :: StatusType
  story_Order :: int
  story_PreviousID :: string
  story_NextID :: string
  story_Presenter :: string
  story_Metadata :: "string gomap"
  story_ExternalMetadata :: "ExternalMetadata list"
  story_Cues :: "StoryCue list"
  story_CreatedAt :: time
  story_UpdatedAt :: time

record RunningOrder =
  ro_ID :: string
  ro_MosID :: string
  ro_Slug :: string
  ro_Status :: StatusType
  ro_Duration :: int
  ro_FirstStoryID :: string
  ro_LastStoryID :: string
  ro_AirTime :: "time option"
  ro_OnAirStoryID :: string
  ro_OnAirSince :: "time option"
  ro_Channel :: string
  ro_Metadata :: "string gomap"
  ro_Version :: int
  ro_CreatedBy :: string
  ro_ExternalMetadata :: "ExternalMetadata list"
  ro_CreatedAt :: time
  ro_UpdatedAt :: time

text \<open>
  The zero values of Go's composite literals: a literal names some fields, the others are zero.
  \<open>zero_time\<close> is \<open>time.Time{}\<close>, the year 1, in nanoseconds relative to 1970.
\<close>

definition zero_time :: time where "zero_time = - 62135596800000000000"

definition zero_Item :: Item where
  "zero_Item = \<lparr>item_ID = [], item_RawID = [], item_ObjectID = [], item_Slug = [], item_Abstract = [],
     item_Duration = 0, item_EditorialDuration = 0, item_TimeBase = 0, item_Media = None,
     item_Status = [], item_Order = 0, item_StoryID = [], item_Metadata = [],
     item_ExternalMetadata = [], item_CreatedAt = zero_time, item_UpdatedAt = zero_time\<rparr>"

definition zero_Story :: Story where
  "zero_Story = \<lparr>story_ID = [], story_RawID = [], story_RunningOrderID = [], story_Slug = [],
     story_Number = [], story_Duration = 0, story_Status = [], story_Order = 0, story_PreviousID = [],
     story_NextID = [], story_Presenter = [], story_Metadata = [], story_ExternalMetadata = [],
     story_Cues = [], story_CreatedAt = zero_time, story_UpdatedAt = zero_time\<rparr>"

definition zero_RunningOrder :: RunningOrder where
  "zero_RunningOrder = \<lparr>ro_ID = [], ro_MosID = [], ro_Slug = [], ro_Status = [], ro_Duration = 0,
     ro_FirstStoryID = [], ro_LastStoryID = [], ro_AirTime = None, ro_OnAirStoryID = [],
     ro_OnAirSince = None, ro_Channel = [], ro_Metadata = [], ro_Version = 0, ro_CreatedBy = [],
     ro_ExternalMetadata = [], ro_CreatedAt = zero_time, ro_UpdatedAt = zero_time\<rparr>"

definition zero_MOSObject :: MOSObject where
  "zero_MOSObject = \<lparr>obj_ID = [], obj_ObjectType = [], obj_Slug = [], obj_Duration = 0,
     obj_TimeBase = 0, obj_Status = [], obj_ObjectID = [], obj_MediaID = [], obj_MosAbstract = [],
     obj_Metadata = [], obj_ExternalMetadata = [], obj_CreatedAt = zero_time, obj_UpdatedAt = zero_time\<rparr>"

end
