(* ===== verification/Repository.thy ===== *)
theory Repository
  imports Model
begin

text \<open>
  The in-memory repositories of \<open>src/internal/repository/memory.go\<close>, behind the interfaces of
  \<open>repository.go\<close>. The definitions are the four repositories' operations; the locales state the
  contract of those interfaces and prove from it, once, what the service layer relies on. The
  interpretations discharge the contract for each repository.

  The clones the code makes on every read and write keep stored values detached from the
  caller's. HOL values are never aliased, so a stored value is its own clone.
\<close>

section \<open>Running orders\<close>

definition MemoryRunningOrder_Create ::
    "RunningOrder gomap \<Rightarrow> RunningOrder \<Rightarrow> (RunningOrder \<times> RunningOrder gomap) result" where
  "MemoryRunningOrder_Create m ro =
     (case gm_get m (ro_ID ro) of
        Some _ \<Rightarrow> Inl (Errorf (''running order '' @ ro_ID ro @ '' already exists''))
      | None \<Rightarrow> Inr (ro, gm_set (ro_ID ro) ro m))"

definition MemoryRunningOrder_Get :: "RunningOrder gomap \<Rightarrow> string \<Rightarrow> RunningOrder result" where
  "MemoryRunningOrder_Get m k =
     (case gm_get m k of
        None \<Rightarrow> Inl (Errorf (''running order '' @ k @ '' not found''))
      | Some ro \<Rightarrow> Inr ro)"

definition MemoryRunningOrder_Update ::
    "RunningOrder gomap \<Rightarrow> RunningOrder \<Rightarrow> RunningOrder gomap result" where
  "MemoryRunningOrder_Update m ro =
     (case gm_get m (ro_ID ro) of
        None \<Rightarrow> Inl (Errorf (''running order '' @ ro_ID ro @ '' not found''))
      | Some _ \<Rightarrow> Inr (gm_set (ro_ID ro) ro m))"

definition MemoryRunningOrder_Delete ::
    "RunningOrder gomap \<Rightarrow> string \<Rightarrow> RunningOrder gomap result" where
  "MemoryRunningOrder_Delete m k = Inr (gm_delete k m)"

definition MemoryRunningOrder_List :: "RunningOrder gomap \<Rightarrow> RunningOrder list result" where
  "MemoryRunningOrder_List m = Inr (gm_values m)"

section \<open>Stories\<close>

definition MemoryStory_Create :: "Story gomap \<Rightarrow> Story \<Rightarrow> (Story \<times> Story gomap) result" where
  "MemoryStory_Create m st =
     (case gm_get m (story_ID st) of
        Some _ \<Rightarrow> Inl (Errorf (''story '' @ story_ID st @ '' already exists''))
      | None \<Rightarrow> Inr (st, gm_set (story_ID st) st m))"

definition MemoryStory_Get :: "Story gomap \<Rightarrow> string \<Rightarrow> Story result" where
  "MemoryStory_Get m k =
     (case gm_get m k of
        None \<Rightarrow> Inl (Errorf (''story '' @ k @ '' not found''))
      | Some st \<Rightarrow> Inr st)"

definition MemoryStory_Update :: "Story gomap \<Rightarrow> Story \<Rightarrow> Story gomap result" where
  "MemoryStory_Update m st =
     (case gm_get m (story_ID st) of
        None \<Rightarrow> Inl (Errorf (''story '' @ story_ID st @ '' not found''))
      | Some _ \<Rightarrow> Inr (gm_set (story_ID st) st m))"

definition MemoryStory_Delete :: "Story gomap \<Rightarrow> string \<Rightarrow> Story gomap result" where
  "MemoryStory_Delete m k = Inr (gm_delete k m)"

definition MemoryStory_DeleteMultiple :: "Story gomap \<Rightarrow> string list \<Rightarrow> Story gomap result" where
  "MemoryStory_DeleteMultiple m ks = Inr (fold gm_delete ks m)"

definition story_less_key :: "Story \<Rightarrow> int \<times> string" where
  "story_less_key st = (story_Order st, story_ID st)"

definition MemoryStory_ListByRunningOrder :: "Story gomap \<Rightarrow> string \<Rightarrow> Story list result" where
  "MemoryStory_ListByRunningOrder m roID =
     Inr (sort_key story_less_key (filter (\<lambda>st. story_RunningOrderID st = roID) (gm_values m)))"

section \<open>Items\<close>

definition MemoryItem_Create :: "Item gomap \<Rightarrow> Item \<Rightarrow> (Item \<times> Item gomap) result" where
  "MemoryItem_Create m it =
     (case gm_get m (item_ID it) of
        Some _ \<Rightarrow> Inl (Errorf (''item '' @ item_ID it @ '' already exists''))
      | None \<Rightarrow> Inr (it, gm_set (item_ID it) it m))"

definition MemoryItem_Get :: "Item gomap \<Rightarrow> string \<Rightarrow> Item result" where
  "MemoryItem_Get m k =
     (case gm_get m k of
        None \<Rightarrow> Inl (Errorf (''item '' @ k @ '' not found''))
      | Some it \<Rightarrow> Inr it)"

definition MemoryItem_Update :: "Item gomap \<Rightarrow> Item \<Rightarrow> Item gomap result" where
  "MemoryItem_Update m it =
     (case gm_get m (item_ID it) of
        None \<Rightarrow> Inl (Errorf (''item '' @ item_ID it @ '' not found''))
      | Some _ \<Rightarrow> Inr (gm_set (item_ID it) it m))"

definition MemoryItem_Delete :: "Item gomap \<Rightarrow> string \<Rightarrow> Item gomap result" where
  "MemoryItem_Delete m k = Inr (gm_delete k m)"

definition MemoryItem_DeleteMultiple :: "Item gomap \<Rightarrow> string list \<Rightarrow> Item gomap result" where
  "MemoryItem_DeleteMultiple m ks = Inr (fold gm_delete ks m)"

definition item_less_key :: "Item \<Rightarrow> int \<times> string" where
  "item_less_key it = (item_Order it, item_ID it)"

definition MemoryItem_ListByStory :: "Item gomap \<Rightarrow> string \<Rightarrow> Item list result" where
  "MemoryItem_ListByStory m storyID =
     Inr (sort_key item_less_key (filter (\<lambda>it. item_StoryID it = storyID) (gm_values m)))"

section \<open>Objects\<close>

definition MemoryObject_Create :: "MOSObject gomap \<Rightarrow> MOSObject \<Rightarrow> (MOSObject \<times> MOSObject gomap) result" where
  "MemoryObject_Create m ob =
     (case gm_get m (obj_ID ob) of
        Some _ \<Rightarrow> Inl (Errorf (''object '' @ obj_ID ob @ '' already exists''))
      | None \<Rightarrow> Inr (ob, gm_set (obj_ID ob) ob m))"

definition MemoryObject_Get :: "MOSObject gomap \<Rightarrow> string \<Rightarrow> MOSObject result" where
  "MemoryObject_Get m k =
     (case gm_get m k of
        None \<Rightarrow> Inl (Errorf (''object '' @ k @ '' not found''))
      | Some ob \<Rightarrow> Inr ob)"

definition MemoryObject_Update :: "MOSObject gomap \<Rightarrow> MOSObject \<Rightarrow> MOSObject gomap result" where
  "MemoryObject_Update m ob =
     (case gm_get m (obj_ID ob) of
        None \<Rightarrow> Inl (Errorf (''object '' @ obj_ID ob @ '' not found''))
      | Some _ \<Rightarrow> Inr (gm_set (obj_ID ob) ob m))"

definition MemoryObject_Delete :: "MOSObject gomap \<Rightarrow> string \<Rightarrow> MOSObject gomap result" where
  "MemoryObject_Delete m k = Inr (gm_delete k m)"

definition MemoryObject_List :: "MOSObject gomap \<Rightarrow> MOSObject list result" where
  "MemoryObject_List m = Inr (gm_values m)"

section \<open>The repository contract\<close>

text \<open>Every entity is stored under its own identifier, and no identifier twice.\<close>

definition repo_ok :: "('v \<Rightarrow> string) \<Rightarrow> 'v gomap \<Rightarrow> bool" where
  "repo_ok key m \<longleftrightarrow> gm_ok m \<and> (\<forall>k v. gm_get m k = Some v \<longrightarrow> key v = k)"

lemma repo_ok_code [code]:
  "repo_ok key m \<longleftrightarrow> distinct (map fst m) \<and> list_all (\<lambda>(k, v). key v = k) m"
  by (auto simp: repo_ok_def gm_ok_def list_all_iff dest: map_of_SomeD)

lemma repo_ok_Nil [simp]: "repo_ok key []"
  by (simp add: repo_ok_def)

lemma repo_ok_set [simp, intro]: "repo_ok key m \<Longrightarrow> repo_ok key (gm_set (key v) v m)"
  by (auto simp: repo_ok_def gomap_simps split: if_splits)

lemma repo_ok_delete [simp, intro]: "repo_ok key m \<Longrightarrow> repo_ok key (gm_delete k m)"
  by (auto simp: repo_ok_def gomap_simps split: if_splits)

lemma repo_ok_fold_delete [simp, intro]: "repo_ok key m \<Longrightarrow> repo_ok key (fold gm_delete ks m)"
  by (induction ks arbitrary: m) auto

lemma repo_ok_keyD: "repo_ok key m \<Longrightarrow> gm_get m k = Some v \<Longrightarrow> key v = k"
  by (simp add: repo_ok_def)

lemma gm_get_fold_delete [gomap_simps]:
  "gm_get (fold gm_delete ks m) k = (if k \<in> set ks then None else gm_get m k)"
  by (induction ks arbitrary: m) (auto simp: gomap_simps)

text \<open>Writing a slice of entities back, one after the other.\<close>

definition put_all :: "('v \<Rightarrow> string) \<Rightarrow> 'v list \<Rightarrow> 'v gomap \<Rightarrow> 'v gomap" where
  "put_all key vs m = fold (\<lambda>v. gm_set (key v) v) vs m"

lemma put_all_Nil [simp]: "put_all key [] m = m"
  by (simp add: put_all_def)

lemma put_all_Cons [simp]: "put_all key (v # vs) m = put_all key vs (gm_set (key v) v m)"
  by (simp add: put_all_def)

lemma repo_ok_put_all [simp, intro]: "repo_ok key m \<Longrightarrow> repo_ok key (put_all key vs m)"
  by (induction vs arbitrary: m) auto

lemma gm_get_put_all_other: "k \<notin> key ` set vs \<Longrightarrow> gm_get (put_all key vs m) k = gm_get m k"
  by (induction vs arbitrary: m) (auto simp: gomap_simps)

lemma gm_get_put_all_in:
  "v \<in> set vs \<Longrightarrow> distinct (map key vs) \<Longrightarrow> gm_get (put_all key vs m) (key v) = Some v"
proof (induction vs arbitrary: m)
  case Nil
  then show ?case by simp
next
  case (Cons w vs)
  show ?case
  proof (cases "v = w")
    case True
    with Cons.prems have "key v \<notin> key ` set vs" by auto
    then show ?thesis using True by (simp add: gm_get_put_all_other gomap_simps)
  next
    case False
    with Cons show ?thesis by simp
  qed
qed

lemma eq_key_imp_eq: "distinct (map key vs) \<Longrightarrow> v \<in> set vs \<Longrightarrow> w \<in> set vs \<Longrightarrow> key v = key w \<Longrightarrow> v = w"
  by (auto simp: distinct_map inj_on_def)

lemma gm_get_put_all:
  "distinct (map key vs) \<Longrightarrow> gm_get (put_all key vs m) k = Some v \<longleftrightarrow>
     (v \<in> set vs \<and> key v = k) \<or> (k \<notin> key ` set vs \<and> gm_get m k = Some v)"
  by (cases "k \<in> key ` set vs")
    (auto simp: gm_get_put_all_in gm_get_put_all_other eq_key_imp_eq)

locale entity_repo =
  fixes key :: "'v \<Rightarrow> string"
    and create :: "'v gomap \<Rightarrow> 'v \<Rightarrow> ('v \<times> 'v gomap) result"
    and get :: "'v gomap \<Rightarrow> string \<Rightarrow> 'v result"
    and update :: "'v gomap \<Rightarrow> 'v \<Rightarrow> 'v gomap result"
    and delete :: "'v gomap \<Rightarrow> string \<Rightarrow> 'v gomap result"
  assumes get_held: "gm_get m k = Some v \<Longrightarrow> get m k = Inr v"
    and get_missing: "gm_get m k = None \<Longrightarrow> \<exists>e. get m k = Inl (Errorf e)"
    and create_new: "gm_get m (key v) = None \<Longrightarrow> create m v = Inr (v, gm_set (key v) v m)"
    and create_dup: "gm_get m (key v) = Some w \<Longrightarrow> \<exists>e. create m v = Inl (Errorf e)"
    and update_held: "gm_get m (key v) = Some w \<Longrightarrow> update m v = Inr (gm_set (key v) v m)"
    and update_missing: "gm_get m (key v) = None \<Longrightarrow> \<exists>e. update m v = Inl (Errorf e)"
    and delete_eq: "delete m k = Inr (gm_delete k m)"
begin

lemma get_Inr_iff: "get m k = Inr v \<longleftrightarrow> gm_get m k = Some v"
  by (cases "gm_get m k") (use get_held [of m k] get_missing [of m k] in auto)

lemma create_Inr_iff:
  "create m v = Inr (w, m') \<longleftrightarrow> gm_get m (key v) = None \<and> w = v \<and> m' = gm_set (key v) v m"
  by (cases "gm_get m (key v)") (use create_new [of m v] create_dup [of m v] in auto)

lemma update_Inr_iff:
  "update m v = Inr m' \<longleftrightarrow> gm_get m (key v) \<noteq> None \<and> m' = gm_set (key v) v m"
  by (cases "gm_get m (key v)") (use update_held [of m v] update_missing [of m v] in auto)

lemma get_after_create: "create m v = Inr (w, m') \<Longrightarrow> get m' (key v) = Inr v"
  by (simp add: create_Inr_iff get_Inr_iff gomap_simps)

lemma get_after_update: "update m v = Inr m' \<Longrightarrow> get m' (key v) = Inr v"
  by (simp add: update_Inr_iff get_Inr_iff gomap_simps)

lemma get_after_delete: "delete m k = Inr m' \<Longrightarrow> get m' k = Inr v \<longleftrightarrow> False"
  by (auto simp: delete_eq get_Inr_iff gomap_simps)

lemma create_keeps_ok: "repo_ok key m \<Longrightarrow> create m v = Inr (w, m') \<Longrightarrow> repo_ok key m'"
  by (auto simp: create_Inr_iff)

lemma update_keeps_ok: "repo_ok key m \<Longrightarrow> update m v = Inr m' \<Longrightarrow> repo_ok key m'"
  by (auto simp: update_Inr_iff)

lemma delete_keeps_ok: "repo_ok key m \<Longrightarrow> delete m k = Inr m' \<Longrightarrow> repo_ok key m'"
  by (auto simp: delete_eq)

end

text \<open>
  The repositories that list the children of a parent promise play order: by \<open>Order\<close>, ties by
  identifier. From it follow the facts the element actions need: the listing does not depend on
  the order in which Go visits the map, and writing back a renumbered listing makes it the
  listing.
\<close>

locale ordered_repo = entity_repo +
  fixes parent :: "'v \<Rightarrow> string"
    and order :: "'v \<Rightarrow> int"
    and list :: "'v gomap \<Rightarrow> string \<Rightarrow> 'v list result"
  assumes list_eq: "list m p = Inr (sort_key (\<lambda>v. (order v, key v)) (filter (\<lambda>v. parent v = p) (gm_values m)))"
begin

definition listing :: "'v gomap \<Rightarrow> string \<Rightarrow> 'v list" where
  "listing m p = sort_key (\<lambda>v. (order v, key v)) (filter (\<lambda>v. parent v = p) (gm_values m))"

lemma list_listing: "list m p = Inr (listing m p)"
  by (simp add: list_eq listing_def)

lemma repo_values_distinct: "repo_ok key m \<Longrightarrow> distinct (map key (gm_values m))"
proof -
  assume ok: "repo_ok key m"
  have "map key (gm_values m) = map fst m"
    using ok by (auto simp: gm_values_def repo_ok_def gm_get_iff_in_set)
  with ok show ?thesis by (simp add: repo_ok_def gm_ok_def)
qed

lemma listing_set: "repo_ok key m \<Longrightarrow> set (listing m p) = {v. gm_get m (key v) = Some v \<and> parent v = p}"
  by (auto simp: listing_def set_gm_values repo_ok_def)

lemma listing_distinct_keys: "repo_ok key m \<Longrightarrow> distinct (map key (listing m p))"
  using repo_values_distinct [of m]
  by (auto simp: listing_def distinct_map inj_on_def)

lemma listing_sorted: "sorted (map (\<lambda>v. (order v, key v)) (listing m p))"
  by (simp add: listing_def)

lemma listing_sorted_order: "sorted (map order (listing m p))"
  using listing_sorted [of m p] by (auto simp: sorted_wrt_map intro: sorted_wrt_mono_rel [rotated])

lemma listing_unique:
  assumes "repo_ok key m" "sorted (map (\<lambda>v. (order v, key v)) ys)" "distinct (map key ys)"
    "set ys = {v. gm_get m (key v) = Some v \<and> parent v = p}"
  shows "listing m p = ys"
proof -
  have d: "distinct (map (\<lambda>v. (order v, key v)) ys)"
    using assms(3) by (auto simp: distinct_map inj_on_def)
  have "set (filter (\<lambda>v. parent v = p) (gm_values m)) = set ys"
    using listing_set [OF assms(1)] assms(4) by (simp add: listing_def)
  moreover have "distinct (filter (\<lambda>v. parent v = p) (gm_values m))"
    using repo_values_distinct [OF assms(1)] by (simp add: distinct_map)
  ultimately show ?thesis
    unfolding listing_def by (intro sort_key_eqI assms(2) d)
qed

text \<open>The listing is a function of the contents, whatever order the map is visited in.\<close>

lemma listing_cong:
  assumes "repo_ok key m" "repo_ok key m'" "\<And>k v. parent v = p \<Longrightarrow> gm_get m k = Some v \<longleftrightarrow> gm_get m' k = Some v"
  shows "listing m p = listing m' p"
proof -
  have "listing m' p = listing m p"
    using assms by (intro listing_unique listing_sorted listing_distinct_keys) (auto simp: listing_set)
  then show ?thesis by simp
qed

text \<open>Writing back a renumbered arrangement of the listing makes it the listing.\<close>

lemma listing_renumber:
  assumes ok: "repo_ok key m" and arr: "set xs = set (listing m p)" "distinct (map key xs)"
    and f: "\<And>n v. order (f n v) = n" "\<And>n v. key (f n v) = key v" "\<And>n v. parent (f n v) = parent v"
  shows "listing (put_all key (number_from f 1 xs) m) p = number_from f 1 xs"
proof (rule listing_unique)
  let ?ys = "number_from f 1 xs"
  have keys: "map key ?ys = map key xs" by (rule map_number_from) (rule f)
  show "repo_ok key (put_all key ?ys m)" using ok by simp
  show d: "distinct (map key ?ys)" using arr(2) keys by simp
  show "sorted (map (\<lambda>v. (order v, key v)) ?ys)"
    by (auto simp: sorted_iff_nth_mono_less nth_number_from f)
  show "set ?ys = {v. gm_get (put_all key ?ys m) (key v) = Some v \<and> parent v = p}"
  proof (intro set_eqI iffI CollectI conjI)
    fix v assume v: "v \<in> set ?ys"
    then show "gm_get (put_all key ?ys m) (key v) = Some v" using d by (rule gm_get_put_all_in)
    from v obtain i where "i < length xs" "v = f (1 + int i) (xs ! i)"
      by (auto simp: set_number_from)
    moreover then have "xs ! i \<in> set (listing m p)" using arr(1) nth_mem by blast
    ultimately show "parent v = p" by (simp add: f listing_set [OF ok])
  next
    fix v assume v: "v \<in> {v. gm_get (put_all key ?ys m) (key v) = Some v \<and> parent v = p}"
    have "v \<in> set ?ys \<or> key v \<notin> key ` set ?ys \<and> gm_get m (key v) = Some v"
      using v d by (simp add: gm_get_put_all)
    moreover have "gm_get m (key v) = Some v \<Longrightarrow> key v \<in> key ` set ?ys"
      using v arr(1) keys listing_set [OF ok, of p] by (metis (mono_tags, lifting) image_eqI list.set_map mem_Collect_eq)
    ultimately show "v \<in> set ?ys" by blast
  qed
qed

text \<open>Writes to entities of other parents do not change the listing.\<close>

lemma listing_put_other:
  assumes "repo_ok key m" "\<forall>v \<in> set vs. parent v \<noteq> p"
    "\<forall>v \<in> set vs. \<forall>w. gm_get m (key v) = Some w \<longrightarrow> parent w \<noteq> p"
  shows "listing (put_all key vs m) p = listing m p"
  using assms
proof (induction vs arbitrary: m)
  case Nil
  then show ?case by simp
next
  case (Cons v vs)
  have "listing (gm_set (key v) v m) p = listing m p"
    using Cons.prems by (intro listing_cong) (auto simp: gomap_simps split: if_splits)
  moreover have "listing (put_all key vs (gm_set (key v) v m)) p = listing (gm_set (key v) v m) p"
    using Cons.prems by (intro Cons.IH) (auto simp: gomap_simps split: if_splits)
  ultimately show ?case by simp
qed

end

interpretation ros: entity_repo ro_ID MemoryRunningOrder_Create MemoryRunningOrder_Get
  MemoryRunningOrder_Update MemoryRunningOrder_Delete
  by unfold_locales
    (auto simp: MemoryRunningOrder_Create_def MemoryRunningOrder_Get_def
      MemoryRunningOrder_Update_def MemoryRunningOrder_Delete_def)

interpretation objs: entity_repo obj_ID MemoryObject_Create MemoryObject_Get
  MemoryObject_Update MemoryObject_Delete
  by unfold_locales
    (auto simp: MemoryObject_Create_def MemoryObject_Get_def MemoryObject_Update_def
      MemoryObject_Delete_def)

interpretation stories: ordered_repo story_ID MemoryStory_Create MemoryStory_Get
  MemoryStory_Update MemoryStory_Delete story_RunningOrderID story_Order MemoryStory_ListByRunningOrder
  by unfold_locales
    (auto simp: MemoryStory_Create_def MemoryStory_Get_def MemoryStory_Update_def
      MemoryStory_Delete_def MemoryStory_ListByRunningOrder_def story_less_key_def [abs_def])

interpretation items: ordered_repo item_ID MemoryItem_Create MemoryItem_Get
  MemoryItem_Update MemoryItem_Delete item_StoryID item_Order MemoryItem_ListByStory
  by unfold_locales
    (auto simp: MemoryItem_Create_def MemoryItem_Get_def MemoryItem_Update_def
      MemoryItem_Delete_def MemoryItem_ListByStory_def item_less_key_def [abs_def])

end
