(* ===== verification/Events.thy ===== *)
theory Events
  imports Prelude
begin

text \<open>
  The event bus of \<open>src/internal/events/bus.go\<close>: a list of buffered channels per event type.
  Publishing offers the event to every channel of its type and skips a channel whose buffer is
  full. A channel is its buffer, oldest event first, with its capacity; a channel of capacity 0
  accepts an event only from a waiting receiver, and no receiver waits inside a publish.
\<close>

datatype payload = PString string | PMap "(string \<times> string) list"

record Event =
  ev_Type :: string
  ev_Payload :: payload
  ev_Source :: string

definition RunningOrderUpdated :: string where "RunningOrderUpdated = ''ro.updated''"
definition StoryModified :: string where "StoryModified = ''story.modified''"
definition ItemChanged :: string where "ItemChanged = ''item.changed''"
definition ObjectCreated :: string where "ObjectCreated = ''object.created''"
definition ObjectUpdated :: string where "ObjectUpdated = ''object.updated''"
definition ItemControlled :: string where "ItemControlled = ''item.controlled''"
definition ItemCued :: string where "ItemCued = ''item.cued''"
definition StoryReceived :: string where "StoryReceived = ''story.received''"
definition ROModificationInitiated :: string where
  "ROModificationInitiated = ''ro.modification_initiated''"

record chan =
  ch_buffer :: "Event list"
  ch_capacity :: nat

type_synonym EventBus = "chan list gomap"

definition NewEventBus :: EventBus where
  "NewEventBus = []"

text \<open>\<open>append(eb.subscribers[t], ch)\<close>; the new channel is the last of its type.\<close>

definition Subscribe :: "EventBus \<Rightarrow> string \<Rightarrow> nat \<Rightarrow> EventBus" where
  "Subscribe eb t bufferSize =
     gm_set t ((case gm_get eb t of None \<Rightarrow> [] | Some chs \<Rightarrow> chs) @
               [\<lparr>ch_buffer = [], ch_capacity = bufferSize\<rparr>]) eb"

text \<open>\<open>select { case ch <- event: default: }\<close>\<close>

definition offer :: "Event \<Rightarrow> chan \<Rightarrow> chan" where
  "offer ev ch =
     (if length (ch_buffer ch) < ch_capacity ch then ch\<lparr>ch_buffer := ch_buffer ch @ [ev]\<rparr> else ch)"

definition Publish :: "EventBus \<Rightarrow> Event \<Rightarrow> EventBus" where
  "Publish eb ev =
     (case gm_get eb (ev_Type ev) of
        None \<Rightarrow> eb
      | Some chs \<Rightarrow> gm_set (ev_Type ev) (map (offer ev) chs) eb)"

text \<open>No buffer ever exceeds its capacity.\<close>

definition bus_ok :: "EventBus \<Rightarrow> bool" where
  "bus_ok eb \<longleftrightarrow> gm_ok eb \<and>
     (\<forall>t chs. gm_get eb t = Some chs \<longrightarrow> (\<forall>ch \<in> set chs. length (ch_buffer ch) \<le> ch_capacity ch))"

lemma bus_ok_new: "bus_ok NewEventBus"
  by (simp add: bus_ok_def NewEventBus_def)

lemma offer_within: "length (ch_buffer ch) \<le> ch_capacity ch \<Longrightarrow>
    length (ch_buffer (offer ev ch)) \<le> ch_capacity (offer ev ch)"
  by (simp add: offer_def)

lemma bus_ok_subscribe: "bus_ok eb \<Longrightarrow> bus_ok (Subscribe eb t n)"
  by (cases "gm_get eb t") (auto simp: bus_ok_def Subscribe_def gomap_simps split: if_splits)

lemma bus_ok_publish: "bus_ok eb \<Longrightarrow> bus_ok (Publish eb ev)"
  by (auto simp: bus_ok_def Publish_def gomap_simps offer_within split: option.splits if_splits)

lemma publish_other_type: "t \<noteq> ev_Type ev \<Longrightarrow> gm_get (Publish eb ev) t = gm_get eb t"
  by (auto simp: Publish_def gomap_simps split: option.splits)

text \<open>
  The subscribers of a type keep their number; each one with room gets the event last, a full one
  is left as it was, whatever the others hold.
\<close>

lemma publish_each:
  assumes "gm_get eb (ev_Type ev) = Some chs" and "i < length chs"
  shows "\<exists>chs'. gm_get (Publish eb ev) (ev_Type ev) = Some chs' \<and> length chs' = length chs \<and>
     chs' ! i = (if length (ch_buffer (chs ! i)) < ch_capacity (chs ! i)
                 then (chs ! i)\<lparr>ch_buffer := ch_buffer (chs ! i) @ [ev]\<rparr> else chs ! i)"
  using assms by (simp add: Publish_def gomap_simps offer_def)

end
