(* ===== verification/Service.thy ===== *)
theory Service
  imports Repository Events
begin

text \<open>
  The state of \<open>MOSService\<close> (\<open>src/internal/service/mos.go\<close>): the four repositories and the event
  bus, nil when events are not wanted. The service's repository calls are lifted here to
  operations on that state; what the operations keep is stated once, as \<open>svc_ok\<close>.
\<close>

record MOSService =
  runningOrderRepo :: "RunningOrder gomap"
  storyRepo :: "Story gomap"
  itemRepo :: "Item gomap"
  objectRepo :: "MOSObject gomap"
  eventBus :: "EventBus option"

definition NewMOSService ::
    "RunningOrder gomap \<Rightarrow> Story gomap \<Rightarrow> Item gomap \<Rightarrow> MOSObject gomap \<Rightarrow> EventBus option \<Rightarrow> MOSService" where
  "NewMOSService r st it ob eb =
     \<lparr>runningOrderRepo = r, storyRepo = st, itemRepo = it, objectRepo = ob, eventBus = eb\<rparr>"

type_synonym 'a svc_op = "(MOSService, 'a) op"

section \<open>Repository calls\<close>

definition ro_Get :: "string \<Rightarrow> RunningOrder svc_op" where
  "ro_Get k = (\<lambda>s. (MemoryRunningOrder_Get (runningOrderRepo s) k, s))"

definition ro_Create :: "RunningOrder \<Rightarrow> unit svc_op" where
  "ro_Create v = (\<lambda>s. case MemoryRunningOrder_Create (runningOrderRepo s) v of
      Inl e \<Rightarrow> (Inl e, s) | Inr (_, m) \<Rightarrow> (Inr (), s\<lparr>runningOrderRepo := m\<rparr>))"

definition ro_Update :: "RunningOrder \<Rightarrow> unit svc_op" where
  "ro_Update v = (\<lambda>s. case MemoryRunningOrder_Update (runningOrderRepo s) v of
      Inl e \<Rightarrow> (Inl e, s) | Inr m \<Rightarrow> (Inr (), s\<lparr>runningOrderRepo := m\<rparr>))"

definition ro_Delete :: "string \<Rightarrow> unit svc_op" where
  "ro_Delete k = (\<lambda>s. case MemoryRunningOrder_Delete (runningOrderRepo s) k of
      Inl e \<Rightarrow> (Inl e, s) | Inr m \<Rightarrow> (Inr (), s\<lparr>runningOrderRepo := m\<rparr>))"

definition ro_List :: "RunningOrder list svc_op" where
  "ro_List = (\<lambda>s. (MemoryRunningOrder_List (runningOrderRepo s), s))"

definition story_Get :: "string \<Rightarrow> Story svc_op" where
  "story_Get k = (\<lambda>s. (MemoryStory_Get (storyRepo s) k, s))"

definition story_Create :: "Story \<Rightarrow> unit svc_op" where
  "story_Create v = (\<lambda>s. case MemoryStory_Create (storyRepo s) v of
      Inl e \<Rightarrow> (Inl e, s) | Inr (_, m) \<Rightarrow> (Inr (), s\<lparr>storyRepo := m\<rparr>))"

definition story_Update :: "Story \<Rightarrow> unit svc_op" where
  "story_Update v = (\<lambda>s. case MemoryStory_Update (storyRepo s) v of
      Inl e \<Rightarrow> (Inl e, s) | Inr m \<Rightarrow> (Inr (), s\<lparr>storyRepo := m\<rparr>))"

definition story_Delete :: "string \<Rightarrow> unit svc_op" where
  "story_Delete k = (\<lambda>s. case MemoryStory_Delete (storyRepo s) k of
      Inl e \<Rightarrow> (Inl e, s) | Inr m \<Rightarrow> (Inr (), s\<lparr>storyRepo := m\<rparr>))"

definition story_DeleteMultiple :: "string list \<Rightarrow> unit svc_op" where
  "story_DeleteMultiple ks = (\<lambda>s. case MemoryStory_DeleteMultiple (storyRepo s) ks of
      Inl e \<Rightarrow> (Inl e, s) | Inr m \<Rightarrow> (Inr (), s\<lparr>storyRepo := m\<rparr>))"

definition story_List :: "string \<Rightarrow> Story list svc_op" where
  "story_List roID = (\<lambda>s. (MemoryStory_ListByRunningOrder (storyRepo s) roID, s))"

definition item_Get :: "string \<Rightarrow> Item svc_op" where
  "item_Get k = (\<lambda>s. (MemoryItem_Get (itemRepo s) k, s))"

definition item_Create :: "Item \<Rightarrow> unit svc_op" where
  "item_Create v = (\<lambda>s. case MemoryItem_Create (itemRepo s) v of
      Inl e \<Rightarrow> (Inl e, s) | Inr (_, m) \<Rightarrow> (Inr (), s\<lparr>itemRepo := m\<rparr>))"

definition item_Update :: "Item \<Rightarrow> unit svc_op" where
  "item_Update v = (\<lambda>s. case MemoryItem_Update (itemRepo s) v of
      Inl e \<Rightarrow> (Inl e, s) | Inr m \<Rightarrow> (Inr (), s\<lparr>itemRepo := m\<rparr>))"

definition item_Delete :: "string \<Rightarrow> unit svc_op" where
  "item_Delete k = (\<lambda>s. case MemoryItem_Delete (itemRepo s) k of
      Inl e \<Rightarrow> (Inl e, s) | Inr m \<Rightarrow> (Inr (), s\<lparr>itemRepo := m\<rparr>))"

definition item_DeleteMultiple :: "string list \<Rightarrow> unit svc_op" where
  "item_DeleteMultiple ks = (\<lambda>s. case MemoryItem_DeleteMultiple (itemRepo s) ks of
      Inl e \<Rightarrow> (Inl e, s) | Inr m \<Rightarrow> (Inr (), s\<lparr>itemRepo := m\<rparr>))"

definition item_List :: "string \<Rightarrow> Item list svc_op" where
  "item_List storyID = (\<lambda>s. (MemoryItem_ListByStory (itemRepo s) storyID, s))"

definition obj_Get :: "string \<Rightarrow> MOSObject svc_op" where
  "obj_Get k = (\<lambda>s. (MemoryObject_Get (objectRepo s) k, s))"

definition obj_Create :: "MOSObject \<Rightarrow> unit svc_op" where
  "obj_Create v = (\<lambda>s. case MemoryObject_Create (objectRepo s) v of
      Inl e \<Rightarrow> (Inl e, s) | Inr (_, m) \<Rightarrow> (Inr (), s\<lparr>objectRepo := m\<rparr>))"

definition obj_Update :: "MOSObject \<Rightarrow> unit svc_op" where
  "obj_Update v = (\<lambda>s. case MemoryObject_Update (objectRepo s) v of
      Inl e \<Rightarrow> (Inl e, s) | Inr m \<Rightarrow> (Inr (), s\<lparr>objectRepo := m\<rparr>))"

definition obj_List :: "MOSObject list svc_op" where
  "obj_List = (\<lambda>s. (MemoryObject_List (objectRepo s), s))"

text \<open>\<open>if s.eventBus != nil { s.eventBus.Publish(...) }\<close>, with the source \<open>"mos_service"\<close>.\<close>

definition publish :: "string \<Rightarrow> payload \<Rightarrow> unit svc_op" where
  "publish t p = (\<lambda>s. (Inr (), s\<lparr>eventBus :=
     map_option (\<lambda>eb. Publish eb \<lparr>ev_Type = t, ev_Payload = p, ev_Source = ''mos_service''\<rparr>) (eventBus s)\<rparr>))"

definition publishROUpdate :: "string \<Rightarrow> unit svc_op" where
  "publishROUpdate roID = publish RunningOrderUpdated (PString roID)"

section \<open>How the calls act\<close>

lemma ro_Get_held [op_simps]: "gm_get (runningOrderRepo s) k = Some v \<Longrightarrow> ro_Get k s = (Inr v, s)"
  by (simp add: ro_Get_def ros.get_held)

lemma story_Get_held [op_simps]: "gm_get (storyRepo s) k = Some v \<Longrightarrow> story_Get k s = (Inr v, s)"
  by (simp add: story_Get_def stories.get_held)

lemma item_Get_held [op_simps]: "gm_get (itemRepo s) k = Some v \<Longrightarrow> item_Get k s = (Inr v, s)"
  by (simp add: item_Get_def items.get_held)

lemma ro_Get_missing: "gm_get (runningOrderRepo s) k = None \<Longrightarrow>
    ro_Get k s = (Inl (Errorf (''running order '' @ k @ '' not found'')), s)"
  by (simp add: ro_Get_def MemoryRunningOrder_Get_def)

lemma story_Get_missing: "gm_get (storyRepo s) k = None \<Longrightarrow>
    story_Get k s = (Inl (Errorf (''story '' @ k @ '' not found'')), s)"
  by (simp add: story_Get_def MemoryStory_Get_def)

lemma item_Get_missing: "gm_get (itemRepo s) k = None \<Longrightarrow>
    item_Get k s = (Inl (Errorf (''item '' @ k @ '' not found'')), s)"
  by (simp add: item_Get_def MemoryItem_Get_def)

lemma ro_Update_held [op_simps]: "gm_get (runningOrderRepo s) (ro_ID v) = Some w \<Longrightarrow>
    ro_Update v s = (Inr (), s\<lparr>runningOrderRepo := gm_set (ro_ID v) v (runningOrderRepo s)\<rparr>)"
  by (simp add: ro_Update_def ros.update_held)

lemma story_Update_held [op_simps]: "gm_get (storyRepo s) (story_ID v) = Some w \<Longrightarrow>
    story_Update v s = (Inr (), s\<lparr>storyRepo := gm_set (story_ID v) v (storyRepo s)\<rparr>)"
  by (simp add: story_Update_def stories.update_held)

lemma item_Update_held [op_simps]: "gm_get (itemRepo s) (item_ID v) = Some w \<Longrightarrow>
    item_Update v s = (Inr (), s\<lparr>itemRepo := gm_set (item_ID v) v (itemRepo s)\<rparr>)"
  by (simp add: item_Update_def items.update_held)

lemma ro_Create_new [op_simps]: "gm_get (runningOrderRepo s) (ro_ID v) = None \<Longrightarrow>
    ro_Create v s = (Inr (), s\<lparr>runningOrderRepo := gm_set (ro_ID v) v (runningOrderRepo s)\<rparr>)"
  by (simp add: ro_Create_def ros.create_new)

lemma story_Create_new [op_simps]: "gm_get (storyRepo s) (story_ID v) = None \<Longrightarrow>
    story_Create v s = (Inr (), s\<lparr>storyRepo := gm_set (story_ID v) v (storyRepo s)\<rparr>)"
  by (simp add: story_Create_def stories.create_new)

lemma item_Create_new [op_simps]: "gm_get (itemRepo s) (item_ID v) = None \<Longrightarrow>
    item_Create v s = (Inr (), s\<lparr>itemRepo := gm_set (item_ID v) v (itemRepo s)\<rparr>)"
  by (simp add: item_Create_def items.create_new)

lemma ro_Delete_app [op_simps]: "ro_Delete k s = (Inr (), s\<lparr>runningOrderRepo := gm_delete k (runningOrderRepo s)\<rparr>)"
  by (simp add: ro_Delete_def ros.delete_eq)

lemma story_Delete_app [op_simps]: "story_Delete k s = (Inr (), s\<lparr>storyRepo := gm_delete k (storyRepo s)\<rparr>)"
  by (simp add: story_Delete_def stories.delete_eq)

lemma item_Delete_app [op_simps]: "item_Delete k s = (Inr (), s\<lparr>itemRepo := gm_delete k (itemRepo s)\<rparr>)"
  by (simp add: item_Delete_def items.delete_eq)

lemma story_DeleteMultiple_app [op_simps]:
  "story_DeleteMultiple ks s = (Inr (), s\<lparr>storyRepo := fold gm_delete ks (storyRepo s)\<rparr>)"
  by (simp add: story_DeleteMultiple_def MemoryStory_DeleteMultiple_def)

lemma item_DeleteMultiple_app [op_simps]:
  "item_DeleteMultiple ks s = (Inr (), s\<lparr>itemRepo := fold gm_delete ks (itemRepo s)\<rparr>)"
  by (simp add: item_DeleteMultiple_def MemoryItem_DeleteMultiple_def)

lemma story_List_app [op_simps]: "story_List roID s = (Inr (stories.listing (storyRepo s) roID), s)"
  by (simp add: story_List_def stories.list_listing)

lemma item_List_app [op_simps]: "item_List storyID s = (Inr (items.listing (itemRepo s) storyID), s)"
  by (simp add: item_List_def items.list_listing)

lemma publish_app [op_simps]: "publish t p s = (Inr (), s\<lparr>eventBus :=
     map_option (\<lambda>eb. Publish eb \<lparr>ev_Type = t, ev_Payload = p, ev_Source = ''mos_service''\<rparr>) (eventBus s)\<rparr>)"
  by (simp add: publish_def)

section \<open>The invariant of the service state\<close>

definition svc_ok :: "MOSService \<Rightarrow> bool" where
  "svc_ok s \<longleftrightarrow> repo_ok ro_ID (runningOrderRepo s) \<and> repo_ok story_ID (storyRepo s) \<and>
     repo_ok item_ID (itemRepo s) \<and> repo_ok obj_ID (objectRepo s)"

named_theorems svc_ok_intros \<open>operations that keep the service invariant\<close>

lemma svc_ok_repoD:
  assumes "svc_ok s"
  shows "repo_ok ro_ID (runningOrderRepo s)" "repo_ok story_ID (storyRepo s)"
    "repo_ok item_ID (itemRepo s)" "repo_ok obj_ID (objectRepo s)"
  using assms by (simp_all add: svc_ok_def)

lemma svc_ok_bus [simp]: "svc_ok (s\<lparr>eventBus := eb\<rparr>) \<longleftrightarrow> svc_ok s"
  by (simp add: svc_ok_def)

lemma svc_ok_reads [svc_ok_intros]:
  assumes "svc_ok s"
  shows "svc_ok (snd (ro_Get k s))" "svc_ok (snd (story_Get k s))" "svc_ok (snd (item_Get k s))"
    "svc_ok (snd (obj_Get k s))" "svc_ok (snd (ro_List s))" "svc_ok (snd (obj_List s))"
    "svc_ok (snd (story_List k s))" "svc_ok (snd (item_List k s))"
  using assms
  by (simp_all add: ro_Get_def story_Get_def item_Get_def obj_Get_def ro_List_def obj_List_def
      story_List_def item_List_def)

lemma svc_ok_creates [svc_ok_intros]:
  assumes "svc_ok s"
  shows "svc_ok (snd (ro_Create r s))" "svc_ok (snd (story_Create st s))"
    "svc_ok (snd (item_Create it s))" "svc_ok (snd (obj_Create ob s))"
  using assms
  by (auto simp: svc_ok_def ro_Create_def story_Create_def item_Create_def obj_Create_def
      ros.create_Inr_iff stories.create_Inr_iff items.create_Inr_iff objs.create_Inr_iff
      split: sum.splits)

lemma svc_ok_updates [svc_ok_intros]:
  assumes "svc_ok s"
  shows "svc_ok (snd (ro_Update r s))" "svc_ok (snd (story_Update st s))"
    "svc_ok (snd (item_Update it s))" "svc_ok (snd (obj_Update ob s))"
  using assms
  by (auto simp: svc_ok_def ro_Update_def story_Update_def item_Update_def obj_Update_def
      ros.update_Inr_iff stories.update_Inr_iff items.update_Inr_iff objs.update_Inr_iff
      split: sum.splits)

lemma svc_ok_deletes [svc_ok_intros]:
  assumes "svc_ok s"
  shows "svc_ok (snd (ro_Delete k s))" "svc_ok (snd (story_Delete k s))"
    "svc_ok (snd (item_Delete k s))" "svc_ok (snd (story_DeleteMultiple ks s))"
    "svc_ok (snd (item_DeleteMultiple ks s))"
  using assms by (simp_all add: svc_ok_def op_simps)

lemma svc_ok_publish [svc_ok_intros]: "svc_ok s \<Longrightarrow> svc_ok (snd (publish t p s))"
  by (simp add: publish_def)

lemma svc_ok_publishROUpdate [svc_ok_intros]: "svc_ok s \<Longrightarrow> svc_ok (snd (publishROUpdate k s))"
  by (simp add: publishROUpdate_def svc_ok_publish)

text \<open>The operation constructors keep the invariant when their parts do.\<close>

definition keeps_ok :: "'a svc_op \<Rightarrow> bool" where
  "keeps_ok f \<longleftrightarrow> (\<forall>s. svc_ok s \<longrightarrow> svc_ok (snd (f s)))"

lemma keeps_okD: "keeps_ok f \<Longrightarrow> svc_ok s \<Longrightarrow> svc_ok (snd (f s))"
  by (simp add: keeps_ok_def)

named_theorems keeps_ok_intros \<open>introduction rules for the invariant of operations\<close>

lemma keeps_ok_prims [keeps_ok_intros]:
  "keeps_ok (ro_Get k)" "keeps_ok (story_Get k)" "keeps_ok (item_Get k)" "keeps_ok (obj_Get k)"
  "keeps_ok ro_List" "keeps_ok obj_List" "keeps_ok (story_List k)" "keeps_ok (item_List k)"
  "keeps_ok (ro_Create r)" "keeps_ok (story_Create st)" "keeps_ok (item_Create it)" "keeps_ok (obj_Create ob)"
  "keeps_ok (ro_Update r)" "keeps_ok (story_Update st)" "keeps_ok (item_Update it)" "keeps_ok (obj_Update ob)"
  "keeps_ok (ro_Delete k)" "keeps_ok (story_Delete k)" "keeps_ok (item_Delete k)"
  "keeps_ok (story_DeleteMultiple ks)" "keeps_ok (item_DeleteMultiple ks)"
  "keeps_ok (publish t p)" "keeps_ok (publishROUpdate k)"
  by (simp_all add: keeps_ok_def svc_ok_intros)

lemma keeps_ok_return [keeps_ok_intros]: "keeps_ok (op_return x)"
  by (simp add: keeps_ok_def)

lemma keeps_ok_fail [keeps_ok_intros]: "keeps_ok (op_fail e)"
  by (simp add: keeps_ok_def)

lemma keeps_ok_Pair [keeps_ok_intros]: "keeps_ok (Pair r)"
  by (simp add: keeps_ok_def)

lemma keeps_ok_bind [keeps_ok_intros]: "keeps_ok f \<Longrightarrow> (\<And>x. keeps_ok (g x)) \<Longrightarrow> keeps_ok (op_bind f g)"
  unfolding keeps_ok_def by (intro allI impI op_bind_inv [where I = svc_ok]) auto

lemma keeps_ok_wrap [keeps_ok_intros]: "keeps_ok f \<Longrightarrow> keeps_ok (op_wrap t f)"
  by (auto simp: keeps_ok_def op_wrap_def split: prod.splits sum.splits)

lemma keeps_ok_try [keeps_ok_intros]: "keeps_ok f \<Longrightarrow> keeps_ok (op_try f)"
  by (auto simp: keeps_ok_def op_try_def split: prod.splits)

lemma keeps_ok_ignore [keeps_ok_intros]: "keeps_ok f \<Longrightarrow> keeps_ok (op_ignore f)"
  by (simp add: keeps_ok_def op_ignore_app)

lemma keeps_ok_foreach [keeps_ok_intros]: "(\<And>x. keeps_ok (f x)) \<Longrightarrow> keeps_ok (op_foreach f xs)"
  unfolding keeps_ok_def by (intro allI impI op_foreach_inv [where I = svc_ok]) auto

lemma keeps_ok_foreach_from [keeps_ok_intros]:
  "(\<And>i x. keeps_ok (f i x)) \<Longrightarrow> keeps_ok (op_foreach_from n f xs)"
  unfolding keeps_ok_def by (intro allI impI op_foreach_from_inv [where I = svc_ok]) auto

lemma keeps_ok_if [keeps_ok_intros]: "(b \<Longrightarrow> keeps_ok f) \<Longrightarrow> (\<not> b \<Longrightarrow> keeps_ok g) \<Longrightarrow> keeps_ok (if b then f else g)"
  by simp

lemma keeps_ok_option [keeps_ok_intros]:
  "keeps_ok f \<Longrightarrow> (\<And>x. keeps_ok (g x)) \<Longrightarrow> keeps_ok (case x of None \<Rightarrow> f | Some y \<Rightarrow> g y)"
  by (cases x) auto

lemma keeps_ok_sum [keeps_ok_intros]:
  "(\<And>e. keeps_ok (f e)) \<Longrightarrow> (\<And>x. keeps_ok (g x)) \<Longrightarrow> keeps_ok (case x of Inl e \<Rightarrow> f e | Inr y \<Rightarrow> g y)"
  by (cases x) auto

section \<open>Writing entities back in a loop\<close>

text \<open>\<open>for _, v := range vs { Update(v) }\<close> with every entity held: all are written, nothing else.\<close>

lemma story_Update_foreach:
  assumes "\<forall>v \<in> set vs. gm_get (storyRepo s) (story_ID v) \<noteq> None"
  shows "op_foreach (\<lambda>v. op_wrap t (story_Update v)) vs s =
     (Inr (), s\<lparr>storyRepo := put_all story_ID vs (storyRepo s)\<rparr>)"
  using assms
proof (induction vs arbitrary: s)
  case Nil
  then show ?case by simp
next
  case (Cons v vs)
  then have u: "op_wrap t (story_Update v) s = (Inr (), s\<lparr>storyRepo := gm_set (story_ID v) v (storyRepo s)\<rparr>)"
    by (auto simp: op_simps)
  have "\<forall>w \<in> set vs. gm_get (gm_set (story_ID v) v (storyRepo s)) (story_ID w) \<noteq> None"
    using Cons.prems by (auto simp: gomap_simps)
  then show ?case using u by (simp add: op_bind_def Cons.IH del: op_wrap_eq_Inr)
qed

lemma item_Update_foreach:
  assumes "\<forall>v \<in> set vs. gm_get (itemRepo s) (item_ID v) \<noteq> None"
  shows "op_foreach (\<lambda>v. op_wrap t (item_Update v)) vs s =
     (Inr (), s\<lparr>itemRepo := put_all item_ID vs (itemRepo s)\<rparr>)"
  using assms
proof (induction vs arbitrary: s)
  case Nil
  then show ?case by simp
next
  case (Cons v vs)
  then have u: "op_wrap t (item_Update v) s = (Inr (), s\<lparr>itemRepo := gm_set (item_ID v) v (itemRepo s)\<rparr>)"
    by (auto simp: op_simps)
  have "\<forall>w \<in> set vs. gm_get (gm_set (item_ID v) v (itemRepo s)) (item_ID w) \<noteq> None"
    using Cons.prems by (auto simp: gomap_simps)
  then show ?case using u by (simp add: op_bind_def Cons.IH del: op_wrap_eq_Inr)
qed

end
