(* ===== verification/Messages.thy ===== *)
theory Messages
  imports Model
begin

text \<open>
  The wire structures of \<open>src/internal/xml\<close> that the service layer consumes, after
  \<open>encoding/xml\<close> has filled them: running orders, stories and items, element actions, control
  messages, story bodies and object messages. A pointer field is an option, a slice a list.
  \<open>XMLName\<close> fields carry no information beyond the type, except in \<open>StoryBody\<close>, where an empty
  name marks a body that was not decoded.
\<close>

section \<open>XML nodes\<close>

text \<open>
  What the decoder's token stream says of a well-formed fragment: character data (its text and the
  bytes it was written with), elements with their attributes, children and bytes, and the tokens no
  consumer of the program reads (comments, processing instructions, directives).
\<close>

datatype xml_node =
    CharData string string
  | Element (el_name: string) (el_attrs: "(string \<times> string) list") (el_children: "xml_node list")
      (el_raw: string)
  | OtherToken string

text \<open>\<open>,chardata\<close>: the character data directly inside an element; \<open>,innerxml\<close>: the bytes of its content.\<close>

fun node_text :: "xml_node \<Rightarrow> string" where
  "node_text (CharData t r) = t"
| "node_text (Element n as cs r) = []"
| "node_text (OtherToken r) = []"

fun node_raw :: "xml_node \<Rightarrow> string" where
  "node_raw (CharData t r) = r"
| "node_raw (Element n as cs r) = r"
| "node_raw (OtherToken r) = r"

definition chardata :: "xml_node list \<Rightarrow> string" where
  "chardata ns = concat (map node_text ns)"

definition innerxml :: "xml_node list \<Rightarrow> string" where
  "innerxml ns = concat (map node_raw ns)"

fun is_element :: "xml_node \<Rightarrow> bool" where
  "is_element (Element n as cs r) = True"
| "is_element _ = False"

section \<open>External metadata and media paths\<close>

record MosExternalMetadata =
  mem_MosScope :: string
  mem_MosSchema :: string
  mem_MosPayload :: string

record ObjPath =
  path_TechDescription :: string
  path_Value :: string

record ObjPaths =
  paths_ObjPath :: "ObjPath list"
  paths_ObjProxyPath :: "ObjPath list"
  paths_ObjMetadataPath :: "ObjPath list"

text \<open>\<open>Empty\<close> on a possibly nil receiver.\<close>

definition ObjPaths_Empty :: "ObjPaths option \<Rightarrow> bool" where
  "ObjPaths_Empty p = (case p of
      None \<Rightarrow> True
    | Some q \<Rightarrow> paths_ObjPath q = [] \<and> paths_ObjProxyPath q = [] \<and> paths_ObjMetadataPath q = [])"

section \<open>Source values of an item\<close>

record SourceMedia =
  sm_Role :: string
  sm_URL :: string
  sm_TechDescription :: "string option"

record SourceItem =
  src_ID :: string
  src_MosID :: "string option"
  src_ObjectID :: "string option"
  src_ObjectType :: "string option"
  src_Label :: "string option"
  src_Abstract :: "string option"
  src_ItemEdDur :: "string option"
  src_ObjDur :: "string option"
  src_ObjTB :: "string option"
  src_Media :: "SourceMedia list option"
  src_Metadata :: "string list option"
  src_err :: "go_error option"

section \<open>Running orders, stories and items\<close>

record ItemInfo =
  ii_Source :: "SourceItem option"
  ii_ID :: string
  ii_Slug :: string
  ii_Abstract :: string
  ii_Duration :: string
  ii_ObjDur :: string
  ii_ObjTB :: string
  ii_ObjectID :: string
  ii_MosID :: string
  ii_ObjPath :: string
  ii_ObjPaths :: "ObjPaths option"
  ii_Channel :: string
  ii_MosExternalMetadata :: "MosExternalMetadata list"

record StoryInfo =
  si_ID :: string
  si_Slug :: string
  si_Number :: string
  si_Duration :: string
  si_MosExternalMetadata :: "MosExternalMetadata list"
  si_Items :: "ItemInfo list"

record RunningOrderInfo =
  roi_RequestID :: string
  roi_Timestamp :: string
  roi_Source :: string
  roi_ID :: string
  roi_Slug :: string
  roi_Channel :: string
  roi_EditTime :: string
  roi_StartTime :: string
  roi_Duration :: string
  roi_MosExternalMetadata :: "MosExternalMetadata list"
  roi_Stories :: "StoryInfo list"

record ROReplace =
  ror_RequestID :: string
  ror_Timestamp :: string
  ror_Source :: string
  ror_ID :: string
  ror_Slug :: string
  ror_Channel :: string
  ror_EdStart :: string
  ror_EdDur :: string
  ror_Trigger :: string
  ror_MacroIn :: string
  ror_MacroOut :: string
  ror_MosExternalMetadata :: "MosExternalMetadata list"
  ror_Stories :: "StoryInfo list"

record ROList =
  rol_ID :: string
  rol_Slug :: string
  rol_Channel :: string
  rol_EdStart :: string
  rol_EdDur :: string
  rol_Trigger :: string
  rol_MacroIn :: string
  rol_MacroOut :: string
  rol_MosExternalMetadata :: "MosExternalMetadata list"
  rol_Stories :: "StoryInfo list"

record ROMetadataReplace =
  rmr_RequestID :: string
  rmr_Timestamp :: string
  rmr_Source :: string
  rmr_ID :: string
  rmr_Slug :: string
  rmr_Channel :: string
  rmr_EdStart :: string
  rmr_EdDur :: string
  rmr_Trigger :: string
  rmr_MacroIn :: string
  rmr_MacroOut :: string
  rmr_MosExternalMetadata :: "MosExternalMetadata list"

record ROListAllItem =
  rla_ID :: string
  rla_Slug :: string
  rla_Channel :: string
  rla_EdStart :: string
  rla_EdDur :: string
  rla_Trigger :: string
  rla_MosExternalMetadata :: "MosExternalMetadata list"

section \<open>Element actions and status reports\<close>

record ElementTarget =
  et_StoryID :: string
  et_ItemID :: string

record ElementSource =
  es_Stories :: "StoryInfo list"
  es_Items :: "ItemInfo list"
  es_StoryIDs :: "string list"
  es_ItemIDs :: "string list"

definition GetSourceType :: "ElementSource \<Rightarrow> string" where
  "GetSourceType es =
     (if es_Stories es \<noteq> [] then ''story''
      else if es_Items es \<noteq> [] then ''item''
      else if es_StoryIDs es \<noteq> [] then ''storyID''
      else if es_ItemIDs es \<noteq> [] then ''itemID''
      else [])"

record ROElementAction =
  rea_Operation :: string
  rea_ROID :: string
  rea_Target :: "ElementTarget option"
  rea_Source :: ElementSource

record ROElementStat =
  res_Element :: string
  res_ROID :: string
  res_StoryID :: string
  res_ItemID :: string
  res_ObjID :: string
  res_ItemChannel :: string
  res_Status :: string
  res_Time :: string

section \<open>Control messages\<close>

record ROCtrl =
  rc_ROID :: string
  rc_StoryID :: string
  rc_ItemID :: string
  rc_Command :: string
  rc_MosExternalMetadata :: "MosExternalMetadata list"

record ROItemCue =
  ric_MosID :: string
  ric_ROID :: string
  ric_StoryID :: string
  ric_ItemID :: string
  ric_ROEventType :: string
  ric_ROEventTime :: string
  ric_MosExternalMetadata :: "MosExternalMetadata list"

section \<open>Stories with a body\<close>

record StoryItemFields =
  sif_ItemID :: string
  sif_ItemSlug :: string
  sif_ObjID :: string
  sif_MosID :: string
  sif_MosAbstract :: string
  sif_ItemEdStart :: int
  sif_ItemEdDur :: int
  sif_ObjDur :: string
  sif_ObjTB :: string
  sif_ObjPaths :: "ObjPaths option"
  sif_ItemUserTimingDur :: int
  sif_ItemChannel :: string
  sif_MacroIn :: string
  sif_MacroOut :: string
  sif_ExternalMeta :: "MosExternalMetadata list"

record StoryItem =
  sti_Source :: "SourceItem option"
  sti_MosItem :: "StoryItemFields option"
  sti_ItemID :: string
  sti_ItemSlug :: string
  sti_MosAbstract :: string
  sti_ObjID :: string
  sti_MosID :: string
  sti_ItemEdStart :: int
  sti_ItemEdDur :: int
  sti_ObjDur :: string
  sti_ObjTB :: string
  sti_ObjPaths :: "ObjPaths option"
  sti_ItemUserTimingDur :: int
  sti_MacroIn :: string
  sti_MacroOut :: string
  sti_ExternalMeta :: "MosExternalMetadata list"

text \<open>The nested form when it carries an identifier, else the flat one; a missing slug borrows the abstract.\<close>

definition ItemFields :: "StoryItem \<Rightarrow> StoryItemFields option" where
  "ItemFields s =
     (let f = (case sti_MosItem s of
                 Some m \<Rightarrow> if sif_ItemID m \<noteq> [] \<or> sif_ObjID m \<noteq> [] then Some m else None
               | None \<Rightarrow> None);
          g = (case f of
                 Some m \<Rightarrow> Some m
               | None \<Rightarrow>
                   if sti_ItemID s \<noteq> [] \<or> sti_ObjID s \<noteq> []
                   then Some \<lparr>sif_ItemID = sti_ItemID s, sif_ItemSlug = sti_ItemSlug s,
                     sif_ObjID = sti_ObjID s, sif_MosID = sti_MosID s,
                     sif_MosAbstract = sti_MosAbstract s, sif_ItemEdStart = sti_ItemEdStart s,
                     sif_ItemEdDur = sti_ItemEdDur s, sif_ObjDur = sti_ObjDur s,
                     sif_ObjTB = sti_ObjTB s, sif_ObjPaths = sti_ObjPaths s,
                     sif_ItemUserTimingDur = sti_ItemUserTimingDur s, sif_ItemChannel = [],
                     sif_MacroIn = sti_MacroIn s, sif_MacroOut = sti_MacroOut s,
                     sif_ExternalMeta = sti_ExternalMeta s\<rparr>
                   else None)
      in map_option (\<lambda>m. if sif_ItemSlug m = [] then m\<lparr>sif_ItemSlug := sif_MosAbstract m\<rparr> else m) g)"

record StoryParagraph =
  sp_Content :: string
  sp_Instructions :: "string list"
  sp_Presenters :: "string list"
  sp_PresenterRRs :: "string list"
  sp_Items :: "StoryItem list"

text \<open>
  \<open>sourceXML\<close> is the body's inner XML, here the nodes a decoder reads from it. The text was taken
  from an element the decoder had read to its end, so it is well-formed.
\<close>

record StoryBody =
  sb_XMLName :: string
  sb_ReadAsBody :: string
  sb_Paragraphs :: "StoryParagraph list"
  sb_Items :: "StoryItem list"
  sb_sourceXML :: "xml_node list option"
  sb_sourceErr :: "go_error option"

definition zero_StoryBody :: StoryBody where
  "zero_StoryBody = \<lparr>sb_XMLName = [], sb_ReadAsBody = [], sb_Paragraphs = [], sb_Items = [],
     sb_sourceXML = None, sb_sourceErr = None\<rparr>"

record ROStorySend =
  rss_ROID :: string
  rss_StoryID :: string
  rss_StorySlug :: string
  rss_StoryNum :: string
  rss_StoryBody :: StoryBody
  rss_ExternalMeta :: "MosExternalMetadata list"

record NCSReqStoryAction =
  nrsa_Operation :: string
  nrsa_LeaseLock :: string
  nrsa_Username :: string
  nrsa_ROStorySend :: ROStorySend

record StoryActionBody =
  sab_ROID :: string
  sab_ElementTarget :: "ElementTarget option"
  sab_ElementSource :: "ElementSource option"
  sab_StoryID :: string
  sab_StorySlug :: string
  sab_StoryNum :: string
  sab_StoryBody :: "StoryBody option"
  sab_ExternalMeta :: "MosExternalMetadata list"

definition AsStorySend :: "StoryActionBody \<Rightarrow> ROStorySend" where
  "AsStorySend b = \<lparr>rss_ROID = sab_ROID b, rss_StoryID = sab_StoryID b,
     rss_StorySlug = sab_StorySlug b, rss_StoryNum = sab_StoryNum b,
     rss_StoryBody = (case sab_StoryBody b of None \<Rightarrow> zero_StoryBody | Some sb \<Rightarrow> sb),
     rss_ExternalMeta = sab_ExternalMeta b\<rparr>"

record ROReqStoryAction =
  rrsa_Operation :: string
  rrsa_LeaseLock :: string
  rrsa_Username :: string
  rrsa_StoryAction :: StoryActionBody

section \<open>Objects\<close>

record MosObj =
  mo_ObjID :: string
  mo_ObjSlug :: string
  mo_MosAbstract :: string
  mo_ObjGroup :: string
  mo_ObjType :: string
  mo_ObjTB :: int
  mo_ObjRev :: int
  mo_ObjDur :: int
  mo_Status :: string
  mo_ObjAir :: string
  mo_ObjPaths :: "ObjPaths option"
  mo_CreatedBy :: string
  mo_Created :: string
  mo_ChangedBy :: string
  mo_Changed :: string
  mo_Description :: string

record MosObjCreate =
  moc_ObjSlug :: string
  moc_ObjGroup :: string
  moc_ObjType :: string
  moc_ObjTB :: int
  moc_ObjDur :: int
  moc_Time :: string
  moc_CreatedBy :: string
  moc_Description :: string
  moc_MosExternalMetadata :: "MosExternalMetadata list"

record MosItemReplItem =
  miri_ItemID :: string
  miri_ItemSlug :: string
  miri_ObjID :: string
  miri_MosID :: string
  miri_MosPlugInID :: string
  miri_MosAbstract :: string
  miri_ObjPaths :: "ObjPaths option"
  miri_ItemChannel :: string
  miri_ItemEdStart :: int
  miri_ItemEdDur :: int
  miri_ItemUserTimingDur :: int
  miri_ItemTrigger :: string
  miri_MacroIn :: string
  miri_MacroOut :: string
  miri_MosExternalMetadata :: "MosExternalMetadata list"

record MosItemReplace =
  mir_ROID :: string
  mir_StoryID :: string
  mir_Item :: MosItemReplItem

section \<open>Values for the examples\<close>

text \<open>The zero value of an item and a story on the wire, from which concrete messages are built.\<close>

definition zero_ItemInfo :: ItemInfo where
  "zero_ItemInfo = \<lparr>ii_Source = None, ii_ID = [], ii_Slug = [], ii_Abstract = [], ii_Duration = [],
     ii_ObjDur = [], ii_ObjTB = [], ii_ObjectID = [], ii_MosID = [], ii_ObjPath = [],
     ii_ObjPaths = None, ii_Channel = [], ii_MosExternalMetadata = []\<rparr>"

definition zero_StoryInfo :: StoryInfo where
  "zero_StoryInfo = \<lparr>si_ID = [], si_Slug = [], si_Number = [], si_Duration = [],
     si_MosExternalMetadata = [], si_Items = []\<rparr>"

text \<open>The source type says which of the four lists is not empty, the first of them in the order of the code.\<close>

lemma GetSourceType_cases:
  obtains "GetSourceType es = ''story''" "es_Stories es \<noteq> []"
  | "GetSourceType es = ''item''" "es_Stories es = []" "es_Items es \<noteq> []"
  | "GetSourceType es = ''storyID''" "es_Stories es = []" "es_Items es = []" "es_StoryIDs es \<noteq> []"
  | "GetSourceType es = ''itemID''" "es_Stories es = []" "es_Items es = []" "es_StoryIDs es = []"
      "es_ItemIDs es \<noteq> []"
  | "GetSourceType es = []" "es_Stories es = []" "es_Items es = []" "es_StoryIDs es = []"
      "es_ItemIDs es = []"
  by (auto simp: GetSourceType_def split: if_splits)

lemma ItemFields_label:
  "ItemFields s = Some f \<Longrightarrow> sif_MosAbstract f \<noteq> [] \<Longrightarrow> sif_ItemSlug f \<noteq> []"
  by (auto simp: ItemFields_def Let_def split: option.splits if_splits)

lemma ItemFields_identified: "ItemFields s = Some f \<Longrightarrow> sif_ItemID f \<noteq> [] \<or> sif_ObjID f \<noteq> []"
  by (auto simp: ItemFields_def Let_def split: option.splits if_splits)

end
