(* ===== verification/Identity.thy ===== *)
theory Identity
  imports Service Messages
begin

text \<open>
  Identity translation between the wire and storage (\<open>src/internal/service/identity.go\<close> and the
  key constructors of \<open>mos.go\<close>): composite storage keys, and the resolution of the bare
  identifiers a peer sends.
\<close>

section \<open>Composite keys\<close>

definition storyPersistenceID :: "string \<Rightarrow> string \<Rightarrow> string" where
  "storyPersistenceID roID storyID = PathEscape roID @ ''/'' @ PathEscape storyID"

definition itemPersistenceID :: "string \<Rightarrow> string \<Rightarrow> string" where
  "itemPersistenceID storyID itemID = storyID @ ''/'' @ PathEscape itemID"

section \<open>Resolving a story\<close>

definition resolveStory :: "string \<Rightarrow> string \<Rightarrow> Story svc_op" where
  "resolveStory roID wireStoryID =
     (if wireStoryID = [] then op_fail (Errorf ''empty storyID'')
      else op_bind (op_try (story_Get (storyPersistenceID roID wireStoryID))) (\<lambda>r.
        case r of
          Inr story \<Rightarrow> op_return story
        | Inl _ \<Rightarrow>
            op_bind (op_wrap (''story '' @ wireStoryID @ '' not found and running order unreadable'')
                       (story_List roID)) (\<lambda>stories.
              case List.find (\<lambda>story. story_RawID story = wireStoryID \<or> story_ID story = wireStoryID) stories of
                Some story \<Rightarrow> op_return story
              | None \<Rightarrow> op_fail (UnknownRunningOrderError roID
                  (Errorf (''story '' @ wireStoryID @ '' is not held in this running order''))))))"

fun resolveStoryKeys :: "string \<Rightarrow> string list \<Rightarrow> (string list \<times> string list) svc_op" where
  "resolveStoryKeys roID [] = op_return ([], [])"
| "resolveStoryKeys roID (wire # wireIDs) =
     op_bind (op_try (resolveStory roID wire)) (\<lambda>r.
       op_bind (resolveStoryKeys roID wireIDs) (\<lambda>(keys, missing).
         case r of
           Inl _ \<Rightarrow> op_return (keys, wire # missing)
         | Inr story \<Rightarrow> op_return (story_ID story # keys, missing)))"

definition storyKeyFor :: "string \<Rightarrow> string \<Rightarrow> string svc_op" where
  "storyKeyFor roID wireStoryID =
     op_bind (resolveStory roID wireStoryID) (\<lambda>story. op_return (story_ID story))"

section \<open>Resolving an item\<close>

definition resolveItem :: "string \<Rightarrow> string \<Rightarrow> Item svc_op" where
  "resolveItem storyKey wireItemID =
     (if wireItemID = [] then op_fail (Errorf ''empty itemID'')
      else op_bind (op_try (item_Get (itemPersistenceID storyKey wireItemID))) (\<lambda>r.
        case r of
          Inr item \<Rightarrow> op_return item
        | Inl _ \<Rightarrow>
            op_bind (op_wrap (''item '' @ wireItemID @ '' not found and story unreadable'')
                       (item_List storyKey)) (\<lambda>items.
              case List.find (\<lambda>item. item_RawID item = wireItemID \<or> item_ID item = wireItemID) items of
                Some item \<Rightarrow> op_return item
              | None \<Rightarrow> op_fail (Errorf (''item '' @ wireItemID @ '' is not held in story '' @ storyKey)))))"

fun resolveItemKeys :: "string \<Rightarrow> string list \<Rightarrow> (string list \<times> string list) svc_op" where
  "resolveItemKeys storyKey [] = op_return ([], [])"
| "resolveItemKeys storyKey (wire # wireIDs) =
     op_bind (op_try (resolveItem storyKey wire)) (\<lambda>r.
       op_bind (resolveItemKeys storyKey wireIDs) (\<lambda>(keys, missing).
         case r of
           Inl _ \<Rightarrow> op_return (keys, wire # missing)
         | Inr item \<Rightarrow> op_return (item_ID item # keys, missing)))"

section \<open>Composite keys are unambiguous\<close>

lemma storyPersistenceID_inject [simp]:
  "storyPersistenceID r s = storyPersistenceID r' s' \<longleftrightarrow> r = r' \<and> s = s'"
proof
  assume "storyPersistenceID r s = storyPersistenceID r' s'"
  then have "PathEscape r @ CHR ''/'' # PathEscape s = PathEscape r' @ CHR ''/'' # PathEscape s'"
    by (simp add: storyPersistenceID_def)
  then have "PathEscape r = PathEscape r' \<and> PathEscape s = PathEscape s'"
    by (rule split_at_separator) (rule slash_PathEscape)+
  then show "r = r' \<and> s = s'" by simp
qed auto

lemma itemPersistenceID_inject [simp]:
  "itemPersistenceID k i = itemPersistenceID k' i' \<longleftrightarrow> k = k' \<and> i = i'"
proof
  assume "itemPersistenceID k i = itemPersistenceID k' i'"
  then have "k @ CHR ''/'' # PathEscape i = k' @ CHR ''/'' # PathEscape i'"
    by (simp add: itemPersistenceID_def)
  then have "k = k' \<and> PathEscape i = PathEscape i'"
    by (rule split_at_last_separator) (rule slash_PathEscape)+
  then show "k = k' \<and> i = i'" by simp
qed auto

lemma count_slash_PathEscape [simp]: "count_list (PathEscape s) CHR ''/'' = 0"
  by (simp add: count_list_0_iff slash_PathEscape)

text \<open>A story key has one separator and an item key under it two, so neither is ever the other.\<close>

lemma story_key_not_item_key: "storyPersistenceID r s \<noteq> itemPersistenceID (storyPersistenceID r' s') i"
proof
  assume "storyPersistenceID r s = itemPersistenceID (storyPersistenceID r' s') i"
  then have "count_list (storyPersistenceID r s) CHR ''/'' =
      count_list (itemPersistenceID (storyPersistenceID r' s') i) CHR ''/''" by simp
  then show False by (simp add: storyPersistenceID_def itemPersistenceID_def)
qed

section \<open>What resolution returns\<close>

text \<open>Resolution reads; it never writes.\<close>

lemma snd_op_bind_read:
  assumes "snd (f s) = s" "\<And>x. snd (g x s) = s"
  shows "snd (op_bind f g s) = s"
  using assms by (cases "f s") (auto simp: op_bind_def split: sum.splits)

lemma resolveStory_def2:
  "resolveStory roID w s =
     (if w = [] then (Inl (Errorf ''empty storyID''), s)
      else case gm_get (storyRepo s) (storyPersistenceID roID w) of
        Some st \<Rightarrow> (Inr st, s)
      | None \<Rightarrow>
         (case List.find (\<lambda>st. story_RawID st = w \<or> story_ID st = w) (stories.listing (storyRepo s) roID) of
            Some st \<Rightarrow> (Inr st, s)
          | None \<Rightarrow> (Inl (UnknownRunningOrderError roID
              (Errorf (''story '' @ w @ '' is not held in this running order''))), s)))"
  by (auto simp: resolveStory_def op_bind_def op_try_def op_wrap_def story_Get_def story_List_app
      MemoryStory_Get_def split: option.splits)

lemma resolveItem_def2:
  "resolveItem k w s =
     (if w = [] then (Inl (Errorf ''empty itemID''), s)
      else case gm_get (itemRepo s) (itemPersistenceID k w) of
        Some it \<Rightarrow> (Inr it, s)
      | None \<Rightarrow>
         (case List.find (\<lambda>it. item_RawID it = w \<or> item_ID it = w) (items.listing (itemRepo s) k) of
            Some it \<Rightarrow> (Inr it, s)
          | None \<Rightarrow> (Inl (Errorf (''item '' @ w @ '' is not held in story '' @ k)), s)))"
  by (auto simp: resolveItem_def op_bind_def op_try_def op_wrap_def item_Get_def item_List_app
      MemoryItem_Get_def split: option.splits)

lemma resolveStory_state [simp]: "snd (resolveStory roID w s) = s"
  by (auto simp: resolveStory_def2 split: option.splits)

lemma resolveItem_state [simp]: "snd (resolveItem k w s) = s"
  by (auto simp: resolveItem_def2 split: option.splits)

lemma storyKeyFor_eq:
  "storyKeyFor roID w s = (map_sum id story_ID (fst (resolveStory roID w s)), s)"
  by (cases "resolveStory roID w s")
    (use resolveStory_state [of roID w s] in \<open>auto simp: storyKeyFor_def op_bind_def split: sum.splits\<close>)

lemma resolveStory_Inr:
  assumes "svc_ok s" "resolveStory roID w s = (Inr st, s')"
  shows "s' = s \<and> gm_get (storyRepo s) (story_ID st) = Some st \<and> w \<noteq> []"
proof (cases "gm_get (storyRepo s) (storyPersistenceID roID w)")
  case None
  with assms(2) show ?thesis
    using svc_ok_repoD(2) [OF assms(1)]
    by (auto simp: resolveStory_def2 stories.listing_set split: if_splits option.splits dest!: find_Some_in)
next
  case (Some v)
  with assms(2) show ?thesis
    using repo_ok_keyD [OF svc_ok_repoD(2) [OF assms(1)] Some]
    by (simp add: resolveStory_def2 split: if_splits)
qed

lemma resolveItem_Inr:
  assumes "svc_ok s" "resolveItem k w s = (Inr it, s')"
  shows "s' = s \<and> gm_get (itemRepo s) (item_ID it) = Some it \<and> w \<noteq> []"
proof (cases "gm_get (itemRepo s) (itemPersistenceID k w)")
  case None
  with assms(2) show ?thesis
    using svc_ok_repoD(3) [OF assms(1)]
    by (auto simp: resolveItem_def2 items.listing_set split: if_splits option.splits dest!: find_Some_in)
next
  case (Some v)
  with assms(2) show ?thesis
    using repo_ok_keyD [OF svc_ok_repoD(3) [OF assms(1)] Some]
    by (simp add: resolveItem_def2 split: if_splits)
qed

text \<open>The keys are those of the resolvable identifiers in the order given, the rest are reported missing.\<close>

lemma resolveStoryKeys_eq:
  "resolveStoryKeys roID ws s =
     (Inr ([story_ID st. Inr st \<leftarrow> map (\<lambda>w. fst (resolveStory roID w s)) ws],
           filter (\<lambda>w. isl (fst (resolveStory roID w s))) ws), s)"
proof (induction ws)
  case (Cons w ws)
  then show ?case
    by (cases "fst (resolveStory roID w s)") (simp_all add: op_bind_def op_try_app)
qed simp

lemma resolveItemKeys_eq:
  "resolveItemKeys k ws s =
     (Inr ([item_ID it. Inr it \<leftarrow> map (\<lambda>w. fst (resolveItem k w s)) ws],
           filter (\<lambda>w. isl (fst (resolveItem k w s))) ws), s)"
proof (induction ws)
  case (Cons w ws)
  then show ?case
    by (cases "fst (resolveItem k w s)") (simp_all add: op_bind_def op_try_app)
qed simp

lemma keeps_ok_resolve [keeps_ok_intros]:
  "keeps_ok (resolveStory roID w)" "keeps_ok (resolveItem k w)" "keeps_ok (storyKeyFor roID w)"
  "keeps_ok (resolveStoryKeys roID ws)" "keeps_ok (resolveItemKeys k ws)"
  by (simp_all add: keeps_ok_def storyKeyFor_eq resolveStoryKeys_eq resolveItemKeys_eq)

end
