(* ===== verification/ElementAction.thy ===== *)
theory ElementAction
  imports Identity
begin

text \<open>
  The \<open>roElementAction\<close> operations of \<open>src/internal/service/element_action.go\<close>: insertion,
  replacement, move, deletion and exchange of stories and items, and the ready-to-air mark. The
  definitions follow the code statement by statement, including the places where a wire
  identifier is used as a storage key.
\<close>

section \<open>Inserting\<close>

text \<open>\<open>if d != "" { if dur, err := strconv.Atoi(d); err == nil { item.Duration = dur } }\<close>\<close>

definition parsed_duration :: "string \<Rightarrow> int" where
  "parsed_duration d = (if d = [] then 0 else case Atoi d of None \<Rightarrow> 0 | Some n \<Rightarrow> n)"

definition inserted_story :: "go_env \<Rightarrow> string \<Rightarrow> int \<Rightarrow> StoryInfo \<Rightarrow> Story" where
  "inserted_story e roID order info = zero_Story
     \<lparr>story_ID := storyPersistenceID roID (si_ID info), story_RawID := si_ID info,
      story_RunningOrderID := roID, story_Slug := si_Slug info, story_Number := si_Number info,
      story_Status := StatusPending, story_Order := order,
      story_CreatedAt := now e, story_UpdatedAt := now e\<rparr>"

text \<open>The items of an inserted or replacing story; a failed creation is logged and skipped.\<close>

definition story_item :: "go_env \<Rightarrow> string \<Rightarrow> StoryInfo \<Rightarrow> nat \<Rightarrow> ItemInfo \<Rightarrow> Item" where
  "story_item e roID info j itemInfo = zero_Item
     \<lparr>item_ID := itemPersistenceID (storyPersistenceID roID (si_ID info)) (ii_ID itemInfo),
      item_RawID := ii_ID itemInfo, item_StoryID := storyPersistenceID roID (si_ID info),
      item_Slug := ii_Slug itemInfo, item_ObjectID := ii_ObjectID itemInfo,
      item_Order := int j + 1, item_Status := StatusPending,
      item_CreatedAt := now e, item_UpdatedAt := now e,
      item_Duration := parsed_duration (ii_Duration itemInfo)\<rparr>"

definition insert_story_items :: "go_env \<Rightarrow> string \<Rightarrow> StoryInfo \<Rightarrow> unit svc_op" where
  "insert_story_items e roID info =
     op_foreach_from 0 (\<lambda>j itemInfo. op_ignore (item_Create (story_item e roID info j itemInfo))) (si_Items info)"

definition shift_stories :: "go_env \<Rightarrow> int \<Rightarrow> int \<Rightarrow> Story list \<Rightarrow> unit svc_op" where
  "shift_stories e after by existingStories =
     op_foreach (\<lambda>existing.
       if story_Order existing > after
       then op_wrap ''failed to shift story order''
              (story_Update (existing\<lparr>story_Order := story_Order existing + by, story_UpdatedAt := now e\<rparr>))
       else op_return ()) existingStories"

definition shift_items :: "go_env \<Rightarrow> int \<Rightarrow> int \<Rightarrow> Item list \<Rightarrow> unit svc_op" where
  "shift_items e after by existingItems =
     op_foreach (\<lambda>existing.
       if item_Order existing > after
       then op_wrap ''failed to shift item order''
              (item_Update (existing\<lparr>item_Order := item_Order existing + by, item_UpdatedAt := now e\<rparr>))
       else op_return ()) existingItems"

text \<open>The order after which stories are inserted: that of the target story, 0 without a target.\<close>

definition insert_position :: "string \<Rightarrow> ElementTarget option \<Rightarrow> int svc_op" where
  "insert_position roID target = (case target of
       Some t \<Rightarrow> if et_StoryID t \<noteq> []
         then op_bind (op_wrap ''target story not found'' (resolveStory roID (et_StoryID t)))
                (\<lambda>targetStory. op_return (story_Order targetStory))
         else op_return 0
     | None \<Rightarrow> op_return 0)"

definition InsertStories :: "go_env \<Rightarrow> string \<Rightarrow> ElementTarget option \<Rightarrow> StoryInfo list \<Rightarrow> unit svc_op" where
  "InsertStories e roID target infos =
     op_bind (insert_position roID target) (\<lambda>insertAfterOrder.
     op_bind (op_wrap ''failed to list stories'' (story_List roID)) (\<lambda>existingStories.
     op_bind (shift_stories e insertAfterOrder (int (length infos)) existingStories) (\<lambda>_.
     op_bind (op_foreach_from 0 (\<lambda>i info.
         op_bind (op_wrap (''failed to insert story '' @ si_ID info)
                    (story_Create (inserted_story e roID (insertAfterOrder + int i + 1) info))) (\<lambda>_.
           insert_story_items e roID info)) infos) (\<lambda>_.
     publishROUpdate roID))))"

definition inserted_item :: "go_env \<Rightarrow> string \<Rightarrow> int \<Rightarrow> ItemInfo \<Rightarrow> Item" where
  "inserted_item e storyID order info = zero_Item
     \<lparr>item_ID := ii_ID info, item_StoryID := storyID, item_Slug := ii_Slug info,
      item_ObjectID := ii_ObjectID info, item_Order := order, item_Status := StatusPending,
      item_CreatedAt := now e, item_UpdatedAt := now e,
      item_Duration := parsed_duration (ii_Duration info)\<rparr>"

definition InsertItems :: "go_env \<Rightarrow> string \<Rightarrow> string \<Rightarrow> string \<Rightarrow> ItemInfo list \<Rightarrow> unit svc_op" where
  "InsertItems e roID wireStoryID beforeItemID infos =
     op_bind (storyKeyFor roID wireStoryID) (\<lambda>storyID.
     op_bind (if beforeItemID \<noteq> []
              then op_bind (op_wrap ''target item not found'' (resolveItem storyID beforeItemID))
                     (\<lambda>targetItem. op_return (item_Order targetItem))
              else op_return 0) (\<lambda>insertAfterOrder.
     op_bind (op_wrap ''failed to list items'' (item_List storyID)) (\<lambda>existingItems.
     op_bind (shift_items e insertAfterOrder (int (length infos)) existingItems) (\<lambda>_.
     op_bind (op_foreach_from 0 (\<lambda>i info.
         op_wrap (''failed to insert item '' @ ii_ID info)
           (item_Create (inserted_item e storyID (insertAfterOrder + int i + 1) info))) infos) (\<lambda>_.
     publishROUpdate roID)))))"

section \<open>Replacing\<close>

definition ReplaceStories :: "go_env \<Rightarrow> string \<Rightarrow> ElementTarget option \<Rightarrow> StoryInfo list \<Rightarrow> unit svc_op" where
  "ReplaceStories e roID target infos =
     (case target of
        None \<Rightarrow> op_fail (Errorf ''REPLACE story requires element_target with storyID'')
      | Some t \<Rightarrow>
        if et_StoryID t = [] then op_fail (Errorf ''REPLACE story requires element_target with storyID'')
        else
     op_bind (op_wrap ''target story not found'' (resolveStory roID (et_StoryID t))) (\<lambda>targetStory.
     let replaceOrder = story_Order targetStory in
     op_bind (op_try (item_List (story_ID targetStory))) (\<lambda>r.
     op_bind (case r of
         Inr held \<Rightarrow> op_foreach (\<lambda>item. op_ignore (item_Delete (item_ID item))) held
       | Inl _ \<Rightarrow> op_return ()) (\<lambda>_.
     op_bind (op_wrap ''failed to delete target story'' (story_Delete (et_StoryID t))) (\<lambda>_.
     op_bind (if length infos > 1
              then op_bind (op_wrap ''failed to list stories'' (story_List roID))
                     (shift_stories e replaceOrder (int (length infos) - 1))
              else op_return ()) (\<lambda>_.
     op_bind (op_foreach_from 0 (\<lambda>i info.
         let story = inserted_story e roID (replaceOrder + int i) info in
         op_bind (op_try (story_Get (story_ID story))) (\<lambda>g.
         op_bind (case g of
             Inr existing \<Rightarrow> op_wrap (''failed to update replacement story '' @ si_ID info)
               (story_Update (story\<lparr>story_CreatedAt := story_CreatedAt existing\<rparr>))
           | Inl _ \<Rightarrow> op_wrap (''failed to create replacement story '' @ si_ID info)
               (story_Create story)) (\<lambda>_.
         insert_story_items e roID info))) infos) (\<lambda>_.
     publishROUpdate roID)))))))"

definition ReplaceItems :: "go_env \<Rightarrow> string \<Rightarrow> string \<Rightarrow> string \<Rightarrow> ItemInfo list \<Rightarrow> unit svc_op" where
  "ReplaceItems e roID wireStoryID targetItemID infos =
     op_bind (storyKeyFor roID wireStoryID) (\<lambda>storyID.
     if targetItemID = [] then op_fail (Errorf ''REPLACE item requires target itemID'') else
     op_bind (op_wrap ''target item not found'' (resolveItem storyID targetItemID)) (\<lambda>targetItem.
     let replaceOrder = item_Order targetItem in
     op_bind (op_wrap ''failed to delete target item'' (item_Delete targetItemID)) (\<lambda>_.
     op_bind (if length infos > 1
              then op_bind (op_wrap ''failed to list items'' (item_List storyID))
                     (shift_items e replaceOrder (int (length infos) - 1))
              else op_return ()) (\<lambda>_.
     op_bind (op_foreach_from 0 (\<lambda>i info.
         op_wrap (''failed to create replacement item '' @ ii_ID info)
           (item_Create (inserted_item e storyID (replaceOrder + int i) info))) infos) (\<lambda>_.
     publishROUpdate roID)))))"

section \<open>Moving\<close>

text \<open>\<open>story.Order = n; story.UpdatedAt = time.Now()\<close>\<close>

definition renumber_story :: "go_env \<Rightarrow> int \<Rightarrow> Story \<Rightarrow> Story" where
  "renumber_story e n story = story\<lparr>story_Order := n, story_UpdatedAt := now e\<rparr>"

definition renumber_item :: "go_env \<Rightarrow> int \<Rightarrow> Item \<Rightarrow> Item" where
  "renumber_item e n item = item\<lparr>item_Order := n, item_UpdatedAt := now e\<rparr>"

text \<open>The index of the first element that satisfies the test, or the length of the list.\<close>

fun index_of :: "('a \<Rightarrow> bool) \<Rightarrow> 'a list \<Rightarrow> nat" where
  "index_of P [] = 0"
| "index_of P (x # xs) = (if P x then 0 else Suc (index_of P xs))"

text \<open>\<open>targetKey\<close>: the storage key of the target story, empty without a target.\<close>

definition move_target :: "string \<Rightarrow> ElementTarget option \<Rightarrow> string svc_op" where
  "move_target roID target = (case target of
       Some t \<Rightarrow> if et_StoryID t \<noteq> []
         then op_bind (op_wrap ''target story not found'' (resolveStory roID (et_StoryID t)))
                (\<lambda>targetStory. op_return (story_ID targetStory))
         else op_return []
     | None \<Rightarrow> op_return [])"

definition MoveStories :: "go_env \<Rightarrow> string \<Rightarrow> ElementTarget option \<Rightarrow> string list \<Rightarrow> unit svc_op" where
  "MoveStories e roID target storyIDs =
     op_bind (move_target roID target) (\<lambda>targetKey.
     op_bind (op_wrap ''failed to list stories'' (story_List roID)) (\<lambda>allStories.
     op_bind (resolveStoryKeys roID storyIDs) (\<lambda>(keys, missing).
     if missing \<noteq> []
     then op_fail (UnknownRunningOrderError roID (Errorf (''stories not held by this device: '' @ fmt_strings missing)))
     else
     let remaining = filter (\<lambda>story. story_ID story \<notin> set keys) allStories;
         moving = filter (\<lambda>story. story_ID story \<in> set keys) allStories;
         insertIdx = (if targetKey \<noteq> [] then index_of (\<lambda>story. story_ID story = targetKey) remaining
                      else length remaining);
         newOrder = take insertIdx remaining @ moving @ drop insertIdx remaining in
     op_bind (op_foreach (\<lambda>story. op_wrap ''failed to update story order'' (story_Update story))
                (number_from (renumber_story e) 1 newOrder)) (\<lambda>_.
     publishROUpdate roID))))"

text \<open>\<open>for i, item := range remaining { if item.Order <= targetOrder { insertIdx = i + 1 } }\<close>\<close>

fun last_index_upto :: "int \<Rightarrow> nat \<Rightarrow> nat \<Rightarrow> Item list \<Rightarrow> nat" where
  "last_index_upto targetOrder i insertIdx [] = insertIdx"
| "last_index_upto targetOrder i insertIdx (item # rest) =
     last_index_upto targetOrder (Suc i) (if item_Order item \<le> targetOrder then Suc i else insertIdx) rest"

definition MoveItems :: "go_env \<Rightarrow> string \<Rightarrow> string \<Rightarrow> string \<Rightarrow> string list \<Rightarrow> unit svc_op" where
  "MoveItems e roID storyID targetItemID itemIDs =
     op_bind (if targetItemID \<noteq> []
              then op_bind (op_wrap ''target item not found'' (resolveItem storyID targetItemID))
                     (\<lambda>targetItem. op_return (item_Order targetItem))
              else op_return 0) (\<lambda>targetOrder.
     op_bind (op_wrap ''failed to list items'' (item_List storyID)) (\<lambda>allItems.
     op_bind (storyKeyFor roID storyID) (\<lambda>storyKey.
     op_bind (resolveItemKeys storyKey itemIDs) (\<lambda>(itemKeys, missingItems).
     if missingItems \<noteq> []
     then op_fail (UnknownRunningOrderError roID
            (Errorf (''items not held in story '' @ storyID @ '': '' @ fmt_strings missingItems)))
     else
     let remaining = filter (\<lambda>item. item_ID item \<notin> set itemKeys) allItems;
         moving = filter (\<lambda>item. item_ID item \<in> set itemKeys) allItems;
         insertIdx = last_index_upto targetOrder 0 0 remaining;
         newOrder = take insertIdx remaining @ moving @ drop insertIdx remaining in
     op_bind (op_foreach (\<lambda>item. op_wrap ''failed to update item order'' (item_Update item))
                (number_from (renumber_item e) 1 newOrder)) (\<lambda>_.
     publishROUpdate roID)))))"

section \<open>Deleting\<close>

text \<open>The items of the stories that can be resolved; the others are logged and skipped.\<close>

fun collect_item_ids :: "string \<Rightarrow> string list \<Rightarrow> string list svc_op" where
  "collect_item_ids roID [] = op_return []"
| "collect_item_ids roID (wireStoryID # rest) =
     op_bind (op_try (storyKeyFor roID wireStoryID)) (\<lambda>r.
       case r of
         Inl _ \<Rightarrow> collect_item_ids roID rest
       | Inr storyID \<Rightarrow>
           op_bind (op_try (item_List storyID)) (\<lambda>l.
           op_bind (collect_item_ids roID rest) (\<lambda>ids.
             op_return ((case l of Inr held \<Rightarrow> map item_ID held | Inl _ \<Rightarrow> []) @ ids))))"

definition DeleteStories :: "go_env \<Rightarrow> string \<Rightarrow> string list \<Rightarrow> unit svc_op" where
  "DeleteStories e roID storyIDs =
     op_bind (collect_item_ids roID storyIDs) (\<lambda>allItemIDs.
     op_bind (if allItemIDs \<noteq> []
              then op_wrap ''failed to delete items for stories'' (item_DeleteMultiple allItemIDs)
              else op_return ()) (\<lambda>_.
     op_bind (op_wrap ''failed to delete stories'' (story_DeleteMultiple storyIDs)) (\<lambda>_.
     op_bind (op_try (story_List roID)) (\<lambda>r.
     op_bind (case r of
         Inr remainingStories \<Rightarrow>
           op_foreach (\<lambda>story. op_ignore (story_Update story)) (number_from (renumber_story e) 1 remainingStories)
       | Inl _ \<Rightarrow> op_return ()) (\<lambda>_.
     publishROUpdate roID)))))"

definition DeleteItems :: "go_env \<Rightarrow> string \<Rightarrow> string \<Rightarrow> string list \<Rightarrow> unit svc_op" where
  "DeleteItems e roID wireStoryID itemIDs =
     op_bind (storyKeyFor roID wireStoryID) (\<lambda>storyID.
     op_bind (resolveItemKeys storyID itemIDs) (\<lambda>(itemKeys, missing).
     op_bind (op_wrap ''failed to delete items'' (item_DeleteMultiple itemKeys)) (\<lambda>_.
     op_bind (op_try (item_List storyID)) (\<lambda>r.
     op_bind (case r of
         Inr remainingItems \<Rightarrow>
           op_foreach (\<lambda>item. op_ignore (item_Update item)) (number_from (renumber_item e) 1 remainingItems)
       | Inl _ \<Rightarrow> op_return ()) (\<lambda>_.
     publishROUpdate roID)))))"

section \<open>Exchanging\<close>

definition SwapStories :: "go_env \<Rightarrow> string \<Rightarrow> string \<Rightarrow> string \<Rightarrow> unit svc_op" where
  "SwapStories e roID storyID1 storyID2 =
     op_bind (op_wrap (''story '' @ storyID1 @ '' not found'') (resolveStory roID storyID1)) (\<lambda>story1.
     op_bind (op_wrap (''story '' @ storyID2 @ '' not found'') (resolveStory roID storyID2)) (\<lambda>story2.
     op_bind (op_wrap (''failed to update story '' @ storyID1)
                (story_Update (renumber_story e (story_Order story2) story1))) (\<lambda>_.
     op_bind (op_wrap (''failed to update story '' @ storyID2)
                (story_Update (renumber_story e (story_Order story1) story2))) (\<lambda>_.
     publishROUpdate roID))))"

definition SwapItems :: "go_env \<Rightarrow> string \<Rightarrow> string \<Rightarrow> string \<Rightarrow> string \<Rightarrow> unit svc_op" where
  "SwapItems e roID wireStoryID itemID1 itemID2 =
     op_bind (storyKeyFor roID wireStoryID) (\<lambda>storyID.
     op_bind (op_wrap (''item '' @ itemID1 @ '' not found'') (resolveItem storyID itemID1)) (\<lambda>item1.
     op_bind (op_wrap (''item '' @ itemID2 @ '' not found'') (resolveItem storyID itemID2)) (\<lambda>item2.
     op_bind (op_wrap (''failed to update item '' @ itemID1)
                (item_Update (renumber_item e (item_Order item2) item1))) (\<lambda>_.
     op_bind (op_wrap (''failed to update item '' @ itemID2)
                (item_Update (renumber_item e (item_Order item1) item2))) (\<lambda>_.
     publishROUpdate roID)))))"

section \<open>Ready to air\<close>

definition SetReadyToAir :: "go_env \<Rightarrow> string \<Rightarrow> string \<Rightarrow> unit svc_op" where
  "SetReadyToAir e roID roAir =
     op_bind (op_wrap ''running order not found'' (ro_Get roID)) (\<lambda>ro.
     op_bind (op_wrap ''failed to update running order''
       (ro_Update (ro\<lparr>ro_Metadata := gm_set ''roAir'' roAir (ro_Metadata ro), ro_UpdatedAt := now e\<rparr>))) (\<lambda>_.
     publishROUpdate roID))"

section \<open>Dispatch\<close>

text \<open>\<open>action.Target == nil || action.Target.StoryID == ""\<close>\<close>

definition target_story :: "ElementTarget option \<Rightarrow> string" where
  "target_story t = (case t of None \<Rightarrow> [] | Some x \<Rightarrow> et_StoryID x)"

definition target_item :: "ElementTarget option \<Rightarrow> string" where
  "target_item t = (case t of None \<Rightarrow> [] | Some x \<Rightarrow> et_ItemID x)"

definition processInsert :: "go_env \<Rightarrow> ROElementAction \<Rightarrow> unit svc_op" where
  "processInsert e action =
     (let source = rea_Source action; t = rea_Target action in
      if GetSourceType source = ''story'' then InsertStories e (rea_ROID action) t (es_Stories source)
      else if GetSourceType source = ''item'' then
        (if target_story t = [] then op_fail (Errorf ''INSERT item requires element_target with storyID'')
         else InsertItems e (rea_ROID action) (target_story t) (target_item t) (es_Items source))
      else op_fail (Errorf ''INSERT operation requires stories or items in element_source''))"

definition processReplace :: "go_env \<Rightarrow> ROElementAction \<Rightarrow> unit svc_op" where
  "processReplace e action =
     (let source = rea_Source action; t = rea_Target action in
      if GetSourceType source = ''story'' then ReplaceStories e (rea_ROID action) t (es_Stories source)
      else if GetSourceType source = ''item'' then
        (if target_story t = [] then op_fail (Errorf ''REPLACE item requires element_target with storyID'')
         else ReplaceItems e (rea_ROID action) (target_story t) (target_item t) (es_Items source))
      else op_fail (Errorf ''REPLACE operation requires stories or items in element_source''))"

definition processMove :: "go_env \<Rightarrow> ROElementAction \<Rightarrow> unit svc_op" where
  "processMove e action =
     (let source = rea_Source action; t = rea_Target action in
      if GetSourceType source = ''storyID'' then MoveStories e (rea_ROID action) t (es_StoryIDs source)
      else if GetSourceType source = ''itemID'' then
        (if target_story t = [] then op_fail (Errorf ''MOVE item requires element_target with storyID'')
         else MoveItems e (rea_ROID action) (target_story t) (target_item t) (es_ItemIDs source))
      else op_fail (Errorf ''MOVE operation requires storyIDs or itemIDs in element_source''))"

definition processDelete :: "go_env \<Rightarrow> ROElementAction \<Rightarrow> unit svc_op" where
  "processDelete e action =
     (let source = rea_Source action; t = rea_Target action in
      if GetSourceType source = ''storyID'' then DeleteStories e (rea_ROID action) (es_StoryIDs source)
      else if GetSourceType source = ''itemID'' then
        (if target_story t = [] then op_fail (Errorf ''DELETE item requires element_target with storyID'')
         else DeleteItems e (rea_ROID action) (target_story t) (es_ItemIDs source))
      else op_fail (Errorf ''DELETE operation requires storyIDs or itemIDs in element_source''))"

definition processSwap :: "go_env \<Rightarrow> ROElementAction \<Rightarrow> unit svc_op" where
  "processSwap e action =
     (let source = rea_Source action; t = rea_Target action in
      if GetSourceType source = ''storyID'' then
        (case es_StoryIDs source of
           [a, b] \<Rightarrow> SwapStories e (rea_ROID action) a b
         | _ \<Rightarrow> op_fail (Errorf ''SWAP operation requires exactly 2 storyIDs''))
      else if GetSourceType source = ''itemID'' then
        (case es_ItemIDs source of
           [a, b] \<Rightarrow>
             (if target_story t = [] then op_fail (Errorf ''SWAP item requires element_target with storyID'')
              else SwapItems e (rea_ROID action) (target_story t) a b)
         | _ \<Rightarrow> op_fail (Errorf ''SWAP operation requires exactly 2 itemIDs''))
      else op_fail (Errorf ''SWAP operation requires storyIDs or itemIDs in element_source''))"

definition ProcessElementAction :: "go_env \<Rightarrow> ROElementAction \<Rightarrow> unit svc_op" where
  "ProcessElementAction e action =
     (if rea_Operation action = ''INSERT'' then processInsert e action
      else if rea_Operation action = ''REPLACE'' then processReplace e action
      else if rea_Operation action = ''MOVE'' then processMove e action
      else if rea_Operation action = ''DELETE'' then processDelete e action
      else if rea_Operation action = ''SWAP'' then processSwap e action
      else op_fail (Errorf (''unsupported roElementAction operation: '' @ rea_Operation action)))"

section \<open>Every action keeps the service invariant\<close>

lemma keeps_ok_shift [keeps_ok_intros]: "keeps_ok (shift_stories e a b xs)" "keeps_ok (shift_items e a b ys)"
  unfolding shift_stories_def shift_items_def by (intro keeps_ok_intros)+

lemma keeps_ok_insert_story_items [keeps_ok_intros]: "keeps_ok (insert_story_items e roID info)"
  unfolding insert_story_items_def by (intro keeps_ok_intros)

lemma keeps_ok_collect_item_ids [keeps_ok_intros]: "keeps_ok (collect_item_ids roID ids)"
  by (induction ids) (auto intro!: keeps_ok_intros)

lemma keeps_ok_pair [keeps_ok_intros]: "(\<And>a b. keeps_ok (f a b)) \<Longrightarrow> keeps_ok (case p of (a, b) \<Rightarrow> f a b)"
  by (cases p) simp

lemma keeps_ok_actions [keeps_ok_intros]:
  "keeps_ok (InsertStories e roID t infos)" "keeps_ok (InsertItems e roID k b iinfos)"
  "keeps_ok (ReplaceStories e roID t infos)" "keeps_ok (ReplaceItems e roID k b iinfos)"
  "keeps_ok (MoveStories e roID t ids)" "keeps_ok (MoveItems e roID k b ids)"
  "keeps_ok (DeleteStories e roID ids)" "keeps_ok (DeleteItems e roID k ids)"
  "keeps_ok (SwapStories e roID a c)" "keeps_ok (SwapItems e roID k a c)"
  "keeps_ok (SetReadyToAir e roID air)"
  unfolding insert_position_def move_target_def InsertStories_def InsertItems_def ReplaceStories_def ReplaceItems_def MoveStories_def
    MoveItems_def DeleteStories_def DeleteItems_def SwapStories_def SwapItems_def SetReadyToAir_def Let_def
  by (intro keeps_ok_intros)+

lemma keeps_ok_list_case:
  "keeps_ok f \<Longrightarrow> (\<And>x xs. keeps_ok (g x xs)) \<Longrightarrow> keeps_ok (case l of [] \<Rightarrow> f | x # xs \<Rightarrow> g x xs)"
  by (cases l) auto

lemma keeps_ok_ProcessElementAction [keeps_ok_intros]: "keeps_ok (ProcessElementAction e action)"
  unfolding ProcessElementAction_def processInsert_def processReplace_def processMove_def
    processDelete_def processSwap_def Let_def
  by (intro keeps_ok_intros keeps_ok_list_case)+

end
