(* ===== verification/Moves.thy ===== *)
theory Moves
  imports ElementAction
begin

text \<open>
  What the element actions do to the play order of a running order and of a story: moves,
  deletions and exchanges rearrange the listing and renumber it from 1; a move that names a
  story the device does not hold changes nothing and asks for recovery.
\<close>

section \<open>Renumbering a listing\<close>

lemma renumber_story_simps [simp]:
  "story_ID (renumber_story e n st) = story_ID st" "story_Order (renumber_story e n st) = n"
  "story_RunningOrderID (renumber_story e n st) = story_RunningOrderID st"
  by (simp_all add: renumber_story_def)

lemma renumber_item_simps [simp]:
  "item_ID (renumber_item e n it) = item_ID it" "item_Order (renumber_item e n it) = n"
  "item_StoryID (renumber_item e n it) = item_StoryID it"
  by (simp_all add: renumber_item_def)

lemma listed_held:
  assumes "svc_ok s" "set xs \<subseteq> set (stories.listing (storyRepo s) roID)"
    "v \<in> set (number_from (renumber_story e) n xs)"
  shows "gm_get (storyRepo s) (story_ID v) \<noteq> None"
  using assms svc_ok_repoD(2) [OF assms(1)]
  by (auto simp: set_number_from stories.listing_set subset_iff)

lemma listed_item_held:
  assumes "svc_ok s" "set xs \<subseteq> set (items.listing (itemRepo s) k)"
    "v \<in> set (number_from (renumber_item e) n xs)"
  shows "gm_get (itemRepo s) (item_ID v) \<noteq> None"
  using assms svc_ok_repoD(3) [OF assms(1)]
  by (auto simp: set_number_from items.listing_set subset_iff)

lemma write_back_stories:
  fixes e :: go_env
  assumes ok: "svc_ok s" and xs: "set xs = set (stories.listing (storyRepo s) roID)"
    "distinct (map story_ID xs)"
  defines "ys \<equiv> number_from (renumber_story e) 1 xs"
  shows "op_foreach (\<lambda>story. op_wrap t (story_Update story)) ys s =
      (Inr (), s\<lparr>storyRepo := put_all story_ID ys (storyRepo s)\<rparr>)"
    and "stories.listing (put_all story_ID ys (storyRepo s)) roID = ys"
proof -
  show "op_foreach (\<lambda>story. op_wrap t (story_Update story)) ys s =
      (Inr (), s\<lparr>storyRepo := put_all story_ID ys (storyRepo s)\<rparr>)"
    unfolding ys_def using listed_held [OF ok] xs(1) by (intro story_Update_foreach) blast
  show "stories.listing (put_all story_ID ys (storyRepo s)) roID = ys"
    unfolding ys_def using svc_ok_repoD(2) [OF ok] xs by (intro stories.listing_renumber) auto
qed

text \<open>The same where a failed update would be ignored.\<close>

lemma ignored_story_updates:
  assumes "\<forall>v \<in> set vs. gm_get (storyRepo s) (story_ID v) \<noteq> None"
  shows "op_foreach (\<lambda>v. op_ignore (story_Update v)) vs s =
     (Inr (), s\<lparr>storyRepo := put_all story_ID vs (storyRepo s)\<rparr>)"
  using assms
proof (induction vs arbitrary: s)
  case (Cons v vs)
  then have u: "op_ignore (story_Update v) s = (Inr (), s\<lparr>storyRepo := gm_set (story_ID v) v (storyRepo s)\<rparr>)"
    by (auto simp: op_simps)
  have "\<forall>w \<in> set vs. gm_get (gm_set (story_ID v) v (storyRepo s)) (story_ID w) \<noteq> None"
    using Cons.prems by (auto simp: gomap_simps)
  then show ?case by (simp add: op_bind_def u Cons.IH)
qed simp

lemma ignored_item_updates:
  assumes "\<forall>v \<in> set vs. gm_get (itemRepo s) (item_ID v) \<noteq> None"
  shows "op_foreach (\<lambda>v. op_ignore (item_Update v)) vs s =
     (Inr (), s\<lparr>itemRepo := put_all item_ID vs (itemRepo s)\<rparr>)"
  using assms
proof (induction vs arbitrary: s)
  case (Cons v vs)
  then have u: "op_ignore (item_Update v) s = (Inr (), s\<lparr>itemRepo := gm_set (item_ID v) v (itemRepo s)\<rparr>)"
    by (auto simp: op_simps)
  have "\<forall>w \<in> set vs. gm_get (gm_set (item_ID v) v (itemRepo s)) (item_ID w) \<noteq> None"
    using Cons.prems by (auto simp: gomap_simps)
  then show ?case by (simp add: op_bind_def u Cons.IH)
qed simp

section \<open>Moving stories\<close>

lemma index_of_takeWhile: "take (index_of P xs) xs = takeWhile (\<lambda>x. \<not> P x) xs"
  by (induction xs) auto

lemma index_of_dropWhile: "drop (index_of P xs) xs = dropWhile (\<lambda>x. \<not> P x) xs"
  by (induction xs) auto

text \<open>The reference rearrangement: the moved stories, in play order, in front of the target.\<close>

definition moved_before :: "string \<Rightarrow> string list \<Rightarrow> Story list \<Rightarrow> Story list" where
  "moved_before targetKey keys xs =
     (let rest = filter (\<lambda>st. story_ID st \<notin> set keys) xs in
      takeWhile (\<lambda>st. story_ID st \<noteq> targetKey) rest @
      filter (\<lambda>st. story_ID st \<in> set keys) xs @
      dropWhile (\<lambda>st. story_ID st \<noteq> targetKey) rest)"

lemma rearranged_set:
  "set (take i (filter (\<lambda>x. \<not> P x) xs) @ filter P xs @ drop i (filter (\<lambda>x. \<not> P x) xs)) = set xs"
proof -
  let ?r = "filter (\<lambda>x. \<not> P x) xs"
  have "set (take i ?r) \<union> set (drop i ?r) = set ?r"
    by (metis append_take_drop_id set_append)
  then show ?thesis by auto
qed

lemma rearranged_distinct:
  assumes "distinct (map f xs)"
  shows "distinct (map f (take i (filter (\<lambda>x. \<not> P x) xs) @ filter P xs @ drop i (filter (\<lambda>x. \<not> P x) xs)))"
proof -
  let ?r = "filter (\<lambda>x. \<not> P x) xs"
  let ?ys = "take i ?r @ filter P xs @ drop i ?r"
  have "mset ?ys = mset (take i ?r @ drop i ?r) + mset (filter P xs)"
    by (simp del: append_take_drop_id)
  also have "\<dots> = mset xs" by (simp add: add.commute multiset_partition [of "mset xs" P, symmetric])
  finally have "mset (map f ?ys) = mset (map f xs)" by (metis mset_map)
  then show ?thesis using assms by (metis mset_eq_imp_distinct_iff)
qed

lemma MoveStories_run:
  fixes s :: MOSService
  assumes ok: "svc_ok s"
    and rk: "resolveStoryKeys roID ids s = (Inr (keys, []), s)"
    and L: "L = stories.listing (storyRepo s) roID"
    and tgt: "move_target roID T s = (Inr k, s)"
    and i: "i = (if k \<noteq> [] then index_of (\<lambda>st. story_ID st = k) (filter (\<lambda>st. story_ID st \<notin> set keys) L)
                 else length (filter (\<lambda>st. story_ID st \<notin> set keys) L))"
    and ys: "ys = number_from (renumber_story e) 1 (take i (filter (\<lambda>st. story_ID st \<notin> set keys) L) @
                filter (\<lambda>st. story_ID st \<in> set keys) L @ drop i (filter (\<lambda>st. story_ID st \<notin> set keys) L))"
  shows "\<exists>eb. MoveStories e roID T ids s =
            (Inr (), s\<lparr>storyRepo := put_all story_ID ys (storyRepo s), eventBus := eb\<rparr>)"
    and "stories.listing (put_all story_ID ys (storyRepo s)) roID = ys"
proof -
  have dist: "distinct (map story_ID L)"
    using svc_ok_repoD(2) [OF ok] L by (simp add: stories.listing_distinct_keys)
  have wb: "op_foreach (\<lambda>story. op_wrap ''failed to update story order'' (story_Update story)) ys s =
      (Inr (), s\<lparr>storyRepo := put_all story_ID ys (storyRepo s)\<rparr>)"
    "stories.listing (put_all story_ID ys (storyRepo s)) roID = ys"
    unfolding ys using ok rearranged_set [of i "\<lambda>st. story_ID st \<in> set keys" L]
      rearranged_distinct [OF dist, of i "\<lambda>st. story_ID st \<in> set keys"]
    by (auto simp: L intro!: write_back_stories)
  show "stories.listing (put_all story_ID ys (storyRepo s)) roID = ys" by (rule wb)
  have mv: "MoveStories e roID T ids s =
      op_bind (op_foreach (\<lambda>story. op_wrap ''failed to update story order'' (story_Update story)) ys)
        (\<lambda>_. publishROUpdate roID) s"
    unfolding MoveStories_def ys i
    by (simp add: op_bind_def op_wrap_def [of _ "story_List roID"] tgt story_List_app rk Let_def L)
  show "\<exists>eb. MoveStories e roID T ids s =
            (Inr (), s\<lparr>storyRepo := put_all story_ID ys (storyRepo s), eventBus := eb\<rparr>)"
    unfolding mv by (auto simp: op_bind_def wb(1) publishROUpdate_def publish_app)
qed


section \<open>A running order of three stories\<close>

text \<open>The examples below act on this state: running order R with the stories A, B and C and two items in A.\<close>

definition example_story :: "string \<Rightarrow> int \<Rightarrow> string \<times> Story" where
  "example_story w n = (storyPersistenceID ''R'' w, zero_Story
     \<lparr>story_ID := storyPersistenceID ''R'' w, story_RawID := w, story_RunningOrderID := ''R'',
      story_Slug := w, story_Status := StatusPending, story_Order := n\<rparr>)"

definition example_item :: "string \<Rightarrow> string \<Rightarrow> int \<Rightarrow> string \<times> Item" where
  "example_item w i n = (itemPersistenceID (storyPersistenceID ''R'' w) i, zero_Item
     \<lparr>item_ID := itemPersistenceID (storyPersistenceID ''R'' w) i, item_RawID := i,
      item_StoryID := storyPersistenceID ''R'' w, item_Status := StatusPending, item_Order := n\<rparr>)"

definition example_service :: MOSService where
  "example_service = NewMOSService
     [(''R'', zero_RunningOrder\<lparr>ro_ID := ''R'', ro_Slug := ''Six'', ro_Status := StatusPending, ro_Version := 1\<rparr>)]
     [example_story ''B'' 2, example_story ''A'' 1, example_story ''C'' 3]
     [example_item ''A'' ''1'' 1, example_item ''A'' ''2'' 2] [] None"

lemma example_service_ok: "svc_ok example_service"
  by code_simp

lemma example_resolves:
  "resolveStory ''R'' ''A'' example_service = (Inr (snd (example_story ''A'' 1)), example_service)"
  "resolveStory ''R'' ''C'' example_service = (Inr (snd (example_story ''C'' 3)), example_service)"
  "resolveStoryKeys ''R'' [''C''] example_service = (Inr ([storyPersistenceID ''R'' ''C''], []), example_service)"
  by code_simp+

lemma example_listing: "MemoryStory_ListByRunningOrder (storyRepo example_service) ''R'' =
    Inr (map snd [example_story ''A'' 1, example_story ''B'' 2, example_story ''C'' 3])"
  by code_simp


end
