(* ===== verification/Actions.thy ===== *)
theory Actions
  imports Moves
begin

text \<open>
  Refusals, deletions, exchanges and insertions: what the remaining element actions do to the
  play order, and where the code acts on a wire identifier instead of the storage key.
\<close>

section \<open>Refusing what is not held\<close>

lemma resolveStory_Inl_unknown:
  "resolveStory roID w s = (Inl er, s') \<Longrightarrow> w \<noteq> [] \<Longrightarrow> errors_As_unknown er = Some roID"
  by (auto simp: resolveStory_def2 split: option.splits if_splits)

lemma move_target_cases:
  obtains k where "move_target roID T s = (Inr k, s)"
  | er where "move_target roID T s = (Inl er, s)" "errors_As_unknown er = Some roID"
proof (cases T)
  case None
  then show ?thesis using that(1) by (simp add: move_target_def)
next
  case (Some t)
  obtain r where r: "resolveStory roID (et_StoryID t) s = (r, s)"
    using resolveStory_state [of roID "et_StoryID t" s] by (metis prod.collapse)
  show ?thesis
  proof (cases "et_StoryID t = []")
    case True
    with Some show ?thesis using that(1) by (simp add: move_target_def)
  next
    case False
    with Some r that resolveStory_Inl_unknown [of roID "et_StoryID t" s] show ?thesis
      by (cases r) (simp_all add: move_target_def op_bind_def op_wrap_def)
  qed
qed

text \<open>
  A MOVE that names a story the device does not hold is refused as lost synchronisation of
  that running order, and nothing is written: the state after the refusal is the state before.
\<close>

theorem move_unknown_story_refused:
  assumes "w \<in> set ids" and "resolveStory roID w s = (Inl er, s)"
  shows "\<exists>er'. MoveStories e roID T ids s = (Inl er', s) \<and> errors_As_unknown er' = Some roID"
proof -
  let ?missing = "filter (\<lambda>w. isl (fst (resolveStory roID w s))) ids"
  have "w \<in> set ?missing" using assms by simp
  then have m: "?missing \<noteq> []" by (metis empty_iff empty_set)
  show ?thesis
  proof (cases rule: move_target_cases [of roID T s])
    case (1 k)
    with m show ?thesis
      by (simp add: MoveStories_def op_bind_def op_wrap_def [of _ "story_List roID"] story_List_app
          resolveStoryKeys_eq)
  next
    case (2 er)
    then show ?thesis by (simp add: MoveStories_def op_bind_def)
  qed
qed

theorem move_unknown_story_refused_witness:
  "\<exists>er'. MoveStories example_env ''R'' None [''A'', ''Z''] example_service = (Inl er', example_service) \<and>
     errors_As_unknown er' = Some ''R''"
proof (rule move_unknown_story_refused)
  show "''Z'' \<in> set [''A'', ''Z'']" by simp
  show "resolveStory ''R'' ''Z'' example_service = (Inl (UnknownRunningOrderError ''R''
      (Errorf ''story Z is not held in this running order'')), example_service)"
    by code_simp
qed

section \<open>Exchanging two stories\<close>

lemma SwapStories_run:
  fixes e :: go_env
  assumes ok: "svc_ok s" and r: "resolveStory roID a s = (Inr sta, s)" "resolveStory roID b s = (Inr stb, s)"
  defines "ys \<equiv> [renumber_story e (story_Order stb) sta, renumber_story e (story_Order sta) stb]"
  shows "\<exists>s'. SwapStories e roID a b s = (Inr (), s') \<and>
     storyRepo s' = put_all story_ID ys (storyRepo s) \<and> itemRepo s' = itemRepo s"
proof -
  have h: "gm_get (storyRepo s) (story_ID sta) = Some sta" "gm_get (storyRepo s) (story_ID stb) = Some stb"
    using resolveStory_Inr [OF ok r(1)] resolveStory_Inr [OF ok r(2)] by auto
  let ?s1 = "s\<lparr>storyRepo := gm_set (story_ID sta) (renumber_story e (story_Order stb) sta) (storyRepo s)\<rparr>"
  have u1: "story_Update (renumber_story e (story_Order stb) sta) s = (Inr (), ?s1)"
    using h(1) by (simp add: story_Update_held)
  have "gm_get (storyRepo ?s1) (story_ID stb) \<noteq> None" using h(2) by (auto simp: gomap_simps)
  then have u2: "story_Update (renumber_story e (story_Order sta) stb) ?s1 =
      (Inr (), ?s1\<lparr>storyRepo := gm_set (story_ID stb) (renumber_story e (story_Order sta) stb) (storyRepo ?s1)\<rparr>)"
    by (auto simp: story_Update_held)
  show ?thesis
    unfolding SwapStories_def
    by (simp add: op_bind_def op_wrap_def r u1 u2 [simplified] publishROUpdate_def publish_app ys_def)
qed

text \<open>Two entries of a list exchanged, each taking the other's place number.\<close>

definition exchanged :: "go_env \<Rightarrow> nat \<Rightarrow> nat \<Rightarrow> Story list \<Rightarrow> Story list" where
  "exchanged e i j L = L[i := renumber_story e (story_Order (L ! i)) (L ! j),
                         j := renumber_story e (story_Order (L ! j)) (L ! i)]"

lemma exchanged_orders:
  "i < length L \<Longrightarrow> j < length L \<Longrightarrow> map story_Order (exchanged e i j L) = map story_Order L"
  by (rule nth_equalityI) (auto simp: exchanged_def nth_list_update)

lemma exchanged_ids:
  "i < length L \<Longrightarrow> j < length L \<Longrightarrow>
   map story_ID (exchanged e i j L) = (map story_ID L)[i := story_ID (L ! j), j := story_ID (L ! i)]"
  by (simp add: exchanged_def map_update)

lemma distinct_swap_ids:
  "distinct xs \<Longrightarrow> i < length xs \<Longrightarrow> j < length xs \<Longrightarrow> distinct (xs[i := xs ! j, j := xs ! i])"
  using mset_swap [of j xs i] by (metis mset_eq_imp_distinct_iff)

lemma sorted_pairs:
  assumes "sorted (map f xs)" "distinct (map f xs)"
  shows "sorted (map (\<lambda>x. (f x, g x)) xs)"
  unfolding sorted_wrt_map
proof (rule sorted_wrt_mono_rel)
  have "sorted_wrt (<) (map f xs)" using assms by (simp add: strict_sorted_iff)
  then show "sorted_wrt (\<lambda>x y. f x < f y) xs" by (simp add: sorted_wrt_map)
qed (simp add: less_eq_prod_def)

lemma set_exchanged:
  assumes "distinct L" "i < length L" "j < length L"
  shows "set (exchanged e i j L) = {renumber_story e (story_Order (L ! i)) (L ! j),
      renumber_story e (story_Order (L ! j)) (L ! i)} \<union> {L ! n | n. n < length L \<and> n \<noteq> i \<and> n \<noteq> j}"
  (is "?l = ?r")
proof
  show "?l \<subseteq> ?r"
    using assms by (auto simp: exchanged_def in_set_conv_nth nth_list_update split: if_splits)
  show "?r \<subseteq> ?l"
  proof (cases "i = j")
    case True
    then show ?thesis using assms
      by (auto simp: exchanged_def in_set_conv_nth nth_list_update intro: exI [of _ j])
  next
    case False
    have "renumber_story e (story_Order (L ! i)) (L ! j) \<in> ?l"
      using assms False by (auto simp: exchanged_def in_set_conv_nth nth_list_update intro!: exI [of _ i])
    moreover have "renumber_story e (story_Order (L ! j)) (L ! i) \<in> ?l"
      using assms by (auto simp: exchanged_def in_set_conv_nth intro!: exI [of _ j])
    moreover have "L ! n \<in> ?l" if "n < length L" "n \<noteq> i" "n \<noteq> j" for n
      using that assms by (auto simp: exchanged_def in_set_conv_nth intro!: exI [of _ n])
    ultimately show ?thesis by auto
  qed
qed

lemma listing_exchanged:
  fixes e :: go_env
  assumes ok: "repo_ok story_ID m" and L: "L = stories.listing m roID"
    and ij: "i < length L" "j < length L" "i \<noteq> j" and d: "distinct (map story_Order L)"
  defines "ys \<equiv> [renumber_story e (story_Order (L ! j)) (L ! i), renumber_story e (story_Order (L ! i)) (L ! j)]"
  shows "stories.listing (put_all story_ID ys m) roID = exchanged e i j L"
proof (rule stories.listing_unique)
  have dk: "distinct (map story_ID L)" using stories.listing_distinct_keys [OF ok] L by simp
  then have dL: "distinct L" by (simp add: distinct_map)
  have ne: "story_ID (L ! i) \<noteq> story_ID (L ! j)"
    using dk ij by (metis length_map nth_eq_iff_index_eq nth_map)
  show "repo_ok story_ID (put_all story_ID ys m)" using ok by simp
  show "distinct (map story_ID (exchanged e i j L))"
    using distinct_swap_ids [OF dk, of i j] ij by (simp add: exchanged_ids)
  have "sorted (map story_Order L)" using stories.listing_sorted_order L by simp
  then show "sorted (map (\<lambda>v. (story_Order v, story_ID v)) (exchanged e i j L))"
    using d ij by (intro sorted_pairs) (simp_all add: exchanged_orders)
  have mem: "v \<in> set L \<longleftrightarrow> gm_get m (story_ID v) = Some v \<and> story_RunningOrderID v = roID" for v
    using stories.listing_set [OF ok, of roID] L by auto
  have dys: "distinct (map story_ID ys)" using ne by (simp add: ys_def)
  have in_i: "L ! i \<in> set L" and in_j: "L ! j \<in> set L" using ij by auto
  have other: "v \<in> set L \<and> story_ID v \<noteq> story_ID (L ! i) \<and> story_ID v \<noteq> story_ID (L ! j) \<longleftrightarrow>
      (\<exists>n. v = L ! n \<and> n < length L \<and> n \<noteq> i \<and> n \<noteq> j)" for v
    using dk ij by (auto simp: in_set_conv_nth) (metis length_map nth_eq_iff_index_eq nth_map)+
  show "set (exchanged e i j L) =
      {v. gm_get (put_all story_ID ys m) (story_ID v) = Some v \<and> story_RunningOrderID v = roID}"
    (is "_ = ?R")
  proof -
    have par: "\<forall>v \<in> set ys. story_RunningOrderID v = roID"
      using in_i in_j unfolding mem by (simp add: ys_def)
    have ks: "story_ID ` set ys = {story_ID (L ! i), story_ID (L ! j)}" by (simp add: ys_def)
    have "v \<in> ?R \<longleftrightarrow> v \<in> set ys \<or> (\<exists>n. v = L ! n \<and> n < length L \<and> n \<noteq> i \<and> n \<noteq> j)" for v
      unfolding other [symmetric] mem using par by (auto simp: gm_get_put_all [OF dys] ks)
    then show ?thesis by (auto simp: set_exchanged [OF dL ij(1,2)] ys_def)
  qed
qed

text \<open>
  SWAP exchanges the two stories and nothing else: in the new listing each stands where the
  other stood, every other story keeps its place, and the place numbers are unchanged.
\<close>

theorem swap_stories_exchanges:
  assumes ok: "svc_ok s"
    and L: "MemoryStory_ListByRunningOrder (storyRepo s) roID = Inr L" "distinct (map story_Order L)"
    and ij: "i < length L" "j < length L" "i \<noteq> j"
    and r: "resolveStory roID a s = (Inr (L ! i), s)" "resolveStory roID b s = (Inr (L ! j), s)"
  shows "\<exists>s' L'. SwapStories e roID a b s = (Inr (), s') \<and>
      MemoryStory_ListByRunningOrder (storyRepo s') roID = Inr L' \<and>
      map story_ID L' = (map story_ID L)[i := story_ID (L ! j), j := story_ID (L ! i)] \<and>
      map story_Order L' = map story_Order L \<and> itemRepo s' = itemRepo s"
proof -
  have "L = stories.listing (storyRepo s) roID" using L(1) by (simp add: stories.list_listing)
  note ex = listing_exchanged [OF svc_ok_repoD(2) [OF ok] this ij L(2), of e]
  from SwapStories_run [OF ok r, of e] obtain s' where
    "SwapStories e roID a b s = (Inr (), s')" "itemRepo s' = itemRepo s"
    "stories.listing (storyRepo s') roID = exchanged e i j L"
    unfolding ex [symmetric] by metis
  with ij show ?thesis
    by (intro exI [of _ s'] exI [of _ "exchanged e i j L"])
      (simp add: stories.list_listing exchanged_orders exchanged_ids)
qed

theorem swap_stories_exchanges_witness:
  "\<exists>s' L'. SwapStories example_env ''R'' ''A'' ''C'' example_service = (Inr (), s') \<and>
      MemoryStory_ListByRunningOrder (storyRepo s') ''R'' = Inr L' \<and>
      map story_ID L' = map (storyPersistenceID ''R'') [''C'', ''B'', ''A''] \<and> map story_Order L' = [1, 2, 3]"
proof -
  let ?L = "map snd [example_story ''A'' 1, example_story ''B'' 2, example_story ''C'' 3]"
  have d: "distinct (map story_Order ?L)" by code_simp
  have r: "resolveStory ''R'' ''A'' example_service = (Inr (?L ! 0), example_service)"
    "resolveStory ''R'' ''C'' example_service = (Inr (?L ! 2), example_service)"
    using example_resolves by simp_all
  have v: "(map story_ID ?L)[0 := story_ID (?L ! 2), 2 := story_ID (?L ! 0)] =
      map (storyPersistenceID ''R'') [''C'', ''B'', ''A'']" "map story_Order ?L = [1, 2, 3]"
    by code_simp+
  show ?thesis
    using swap_stories_exchanges [OF example_service_ok example_listing d _ _ _ r, of example_env]
    by (simp only: v) auto
qed

end
