(* ===== verification/Deletions.thy ===== *)
theory Deletions
  imports Actions
begin

text \<open>
  Deletions: the items a DELETE names are removed and the rest of the story renumbered; a DELETE
  of stories removes their items but not the stories, because it hands the wire identifiers to a
  store keyed by composite ones.
\<close>

section \<open>Items\<close>

lemma listing_delete_items:
  assumes ok: "repo_ok item_ID m"
  shows "items.listing (fold gm_delete ks m) p = filter (\<lambda>it. item_ID it \<notin> set ks) (items.listing m p)"
proof (rule items.listing_unique)
  let ?L = "items.listing m p"
  show "repo_ok item_ID (fold gm_delete ks m)" using ok by simp
  show "distinct (map item_ID (filter (\<lambda>it. item_ID it \<notin> set ks) ?L))"
    using items.listing_distinct_keys [OF ok, of p] by (simp add: distinct_map_filter)
  show "sorted (map (\<lambda>v. (item_Order v, item_ID v)) (filter (\<lambda>it. item_ID it \<notin> set ks) ?L))"
    using items.listing_sorted by (rule sorted_filter)
  show "set (filter (\<lambda>it. item_ID it \<notin> set ks) ?L) =
      {v. gm_get (fold gm_delete ks m) (item_ID v) = Some v \<and> item_StoryID v = p}"
    by (auto simp: items.listing_set [OF ok] gomap_simps)
qed

lemma listing_renumber_items:
  "repo_ok item_ID m \<Longrightarrow> items.listing (put_all item_ID (number_from (renumber_item e) 1 (items.listing m k)) m) k =
     number_from (renumber_item e) 1 (items.listing m k)"
  by (intro items.listing_renumber items.listing_distinct_keys) auto

text \<open>
  DELETE of items answers OK, removes exactly the items it resolves, keeps the others of the
  story in their order and numbers them from 1; identifiers the story does not hold are skipped.
\<close>

theorem delete_items_renumbers:
  assumes ok: "svc_ok s"
    and key: "storyKeyFor roID w s = (Inr k, s)"
    and keys: "resolveItemKeys k ids s = (Inr (keys, missing), s)"
    and L: "MemoryItem_ListByStory (itemRepo s) k = Inr L"
  shows "\<exists>s'. DeleteItems e roID w ids s = (Inr (), s') \<and>
      MemoryItem_ListByStory (itemRepo s') k =
        Inr (number_from (renumber_item e) 1 (filter (\<lambda>it. item_ID it \<notin> set keys) L)) \<and>
      storyRepo s' = storyRepo s \<and> runningOrderRepo s' = runningOrderRepo s"
proof -
  let ?s1 = "s\<lparr>itemRepo := fold gm_delete keys (itemRepo s)\<rparr>"
  let ?L1 = "items.listing (itemRepo ?s1) k"
  have ok1: "svc_ok ?s1" using ok by (simp add: svc_ok_def)
  have L1: "?L1 = filter (\<lambda>it. item_ID it \<notin> set keys) L"
    using L svc_ok_repoD(3) [OF ok] by (simp add: items.list_listing listing_delete_items)
  have held: "\<forall>v \<in> set (number_from (renumber_item e) 1 ?L1). gm_get (itemRepo ?s1) (item_ID v) \<noteq> None"
    using listed_item_held [OF ok1 subset_refl] by blast
  note upd = ignored_item_updates [OF held, unfolded L1]
  show ?thesis
    using listing_renumber_items [OF svc_ok_repoD(3) [OF ok1], of e k] L1
    by (simp add: DeleteItems_def op_bind_def op_wrap_def key keys item_DeleteMultiple_app op_try_app
        item_List_app upd publishROUpdate_def publish_app items.list_listing)
qed

theorem delete_items_renumbers_witness:
  "\<exists>s'. DeleteItems example_env ''R'' ''A'' [''1'', ''9''] example_service = (Inr (), s') \<and>
     map_sum id (map (\<lambda>it. (item_RawID it, item_Order it)))
       (MemoryItem_ListByStory (itemRepo s') (storyPersistenceID ''R'' ''A'')) = Inr [(''2'', 1)]"
proof -
  let ?k = "storyPersistenceID ''R'' ''A''"
  let ?L = "map snd [example_item ''A'' ''1'' 1, example_item ''A'' ''2'' 2]"
  have h: "storyKeyFor ''R'' ''A'' example_service = (Inr ?k, example_service)"
    "resolveItemKeys ?k [''1'', ''9''] example_service = (Inr ([itemPersistenceID ?k ''1''], [''9'']), example_service)"
    "MemoryItem_ListByStory (itemRepo example_service) ?k = Inr ?L"
    by code_simp+
  have v: "map (\<lambda>it. (item_RawID it, item_Order it)) (number_from (renumber_item example_env) 1
      (filter (\<lambda>it. item_ID it \<notin> set [itemPersistenceID ?k ''1'']) ?L)) = [(''2'', 1)]"
    by code_simp
  from delete_items_renumbers [OF example_service_ok h] obtain s' where
    "DeleteItems example_env ''R'' ''A'' [''1'', ''9''] example_service = (Inr (), s')"
    "MemoryItem_ListByStory (itemRepo s') ?k = Inr (number_from (renumber_item example_env) 1
      (filter (\<lambda>it. item_ID it \<notin> set [itemPersistenceID ?k ''1'']) ?L))" by blast
  then show ?thesis by (intro exI [of _ s']) (simp only: map_sum.simps v simp_thms)
qed

section \<open>Stories\<close>

lemma storyPersistenceID_not_wire: "storyPersistenceID roID w \<noteq> w"
proof -
  have "length w \<le> length (PathEscape w)"
    by (induction w) (auto simp: PathEscape_def escape_byte_def)
  then have "length w < length (storyPersistenceID roID w)" by (simp add: storyPersistenceID_def)
  then show ?thesis by auto
qed

text \<open>
  DELETE of a story held under its composite key answers OK and deletes the story's items, but
  the story itself stays in the running order: the batch deletion is given the wire identifier,
  which is never the storage key.
\<close>

theorem delete_story_leaves_story:
  assumes ok: "svc_ok s" and w: "w \<noteq> []"
    and held: "gm_get (storyRepo s) (storyPersistenceID roID w) = Some st" "story_RunningOrderID st = roID"
  shows "\<exists>s' st'. DeleteStories e roID [w] s = (Inr (), s') \<and>
      gm_get (storyRepo s') (storyPersistenceID roID w) = Some st' \<and>
      (st' = st \<or> (\<exists>n. st' = renumber_story e n st)) \<and>
      MemoryItem_ListByStory (itemRepo s') (storyPersistenceID roID w) = Inr []"
proof -
  let ?k = "storyPersistenceID roID w"
  let ?ids = "map item_ID (items.listing (itemRepo s) ?k)"
  have kid: "story_ID st = ?k" using repo_ok_keyD [OF svc_ok_repoD(2) [OF ok] held(1)] .
  have key: "storyKeyFor roID w s = (Inr ?k, s)"
    using w held(1) kid by (simp add: storyKeyFor_eq resolveStory_def2)
  have coll: "collect_item_ids roID [w] s = (Inr ?ids, s)"
    by (simp add: op_bind_def op_try_app key item_List_app)
  let ?s1 = "s\<lparr>itemRepo := fold gm_delete ?ids (itemRepo s), storyRepo := gm_delete w (storyRepo s)\<rparr>"
  have ok1: "svc_ok ?s1" using ok by (simp add: svc_ok_def)
  have st1: "gm_get (storyRepo ?s1) ?k = Some st"
    using held(1) storyPersistenceID_not_wire [of roID w] by (auto simp: gomap_simps)
  let ?L1 = "stories.listing (storyRepo ?s1) roID"
  let ?ys = "number_from (renumber_story e) 1 ?L1"
  have h: "\<forall>v \<in> set ?ys. gm_get (storyRepo ?s1) (story_ID v) \<noteq> None"
    using listed_held [OF ok1 subset_refl] by blast
  have upd: "op_foreach (\<lambda>v. op_ignore (story_Update v)) ?ys t =
      (Inr (), t\<lparr>storyRepo := put_all story_ID ?ys (storyRepo t)\<rparr>)" if "storyRepo t = gm_delete w (storyRepo s)" for t
    using h that by (intro ignored_story_updates) simp
  have empty: "items.listing (fold gm_delete ?ids (itemRepo s)) ?k = []"
    using svc_ok_repoD(3) [OF ok] by (auto simp: listing_delete_items filter_empty_conv)
  have run: "\<exists>s'. DeleteStories e roID [w] s = (Inr (), s') \<and>
      storyRepo s' = put_all story_ID ?ys (storyRepo ?s1) \<and> itemRepo s' = fold gm_delete ?ids (itemRepo s)"
    unfolding DeleteStories_def
    by (cases "?ids = []")
      (simp_all add: op_bind_def coll op_wrap_def item_DeleteMultiple_app story_DeleteMultiple_app
        op_try_app story_List_app upd [simplified] publishROUpdate_def publish_app del: collect_item_ids.simps)
  have "st \<in> set ?L1" using stories.listing_set [OF svc_ok_repoD(2) [OF ok1], of roID] st1 held(2) kid by simp
  then obtain n where n: "renumber_story e n st \<in> set ?ys"
    by (auto simp: set_number_from in_set_conv_nth)
  have "distinct (map story_ID ?ys)"
    using stories.listing_distinct_keys [OF svc_ok_repoD(2) [OF ok1], of roID]
    by (subst map_number_from) simp_all
  then have "gm_get (put_all story_ID ?ys (storyRepo ?s1)) ?k = Some (renumber_story e n st)"
    using gm_get_put_all_in [OF n, of story_ID "storyRepo ?s1"] kid by simp
  with run empty show ?thesis by (auto simp: items.list_listing)
qed

theorem delete_story_leaves_story_witness:
  "\<exists>s' st'. DeleteStories example_env ''R'' [''A''] example_service = (Inr (), s') \<and>
      gm_get (storyRepo s') (storyPersistenceID ''R'' ''A'') = Some st' \<and>
      MemoryItem_ListByStory (itemRepo s') (storyPersistenceID ''R'' ''A'') = Inr []"
proof -
  have h: "gm_get (storyRepo example_service) (storyPersistenceID ''R'' ''A'') = Some (snd (example_story ''A'' 1))"
    "story_RunningOrderID (snd (example_story ''A'' 1)) = ''R''"
    by code_simp+
  show ?thesis
    using delete_story_leaves_story [OF example_service_ok _ h, of example_env] by blast
qed

end
