(* ===== verification/Insertions.thy ===== *)
theory Insertions
  imports Deletions
begin

text \<open>
  Insertion of stories: the stories after the target are shifted by the number of new ones, which
  fill the gap in the order of the message.
\<close>

section \<open>The loops of an insertion\<close>

definition shifted :: "go_env \<Rightarrow> int \<Rightarrow> int \<Rightarrow> Story \<Rightarrow> Story" where
  "shifted e after by st = (if story_Order st > after
     then st\<lparr>story_Order := story_Order st + by, story_UpdatedAt := now e\<rparr> else st)"

lemma shifted_simps [simp]:
  "story_ID (shifted e a b st) = story_ID st" "story_RunningOrderID (shifted e a b st) = story_RunningOrderID st"
  "story_Order (shifted e a b st) = (if story_Order st > a then story_Order st + b else story_Order st)"
  by (simp_all add: shifted_def)

lemma shift_stories_run:
  assumes "\<forall>v \<in> set vs. gm_get (storyRepo s) (story_ID v) \<noteq> None"
  shows "shift_stories e a b vs s = (Inr (), s\<lparr>storyRepo := put_all story_ID
     (map (shifted e a b) (filter (\<lambda>st. story_Order st > a) vs)) (storyRepo s)\<rparr>)"
  using assms
proof (induction vs arbitrary: s)
  case Nil
  then show ?case by (simp add: shift_stories_def)
next
  case (Cons v vs)
  show ?case
  proof (cases "story_Order v > a")
    case False
    with Cons show ?thesis by (simp add: shift_stories_def op_bind_def)
  next
    case True
    then have u: "op_wrap ''failed to shift story order'' (story_Update
        (v\<lparr>story_Order := story_Order v + b, story_UpdatedAt := now e\<rparr>)) s =
        (Inr (), s\<lparr>storyRepo := gm_set (story_ID v) (shifted e a b v) (storyRepo s)\<rparr>)"
      using Cons.prems by (auto simp: op_wrap_def story_Update_held shifted_def)
    have "\<forall>w \<in> set vs. gm_get (gm_set (story_ID v) (shifted e a b v) (storyRepo s)) (story_ID w) \<noteq> None"
      using Cons.prems by (auto simp: gomap_simps)
    with True u Cons.IH show ?thesis
      by (simp add: shift_stories_def op_bind_def del: op_wrap_eq_Inr)
  qed
qed

lemma insert_story_items_run:
  "\<exists>m. insert_story_items e roID info s = (Inr (), s\<lparr>itemRepo := m\<rparr>)"
proof -
  have "\<exists>m. op_foreach_from n (\<lambda>j itemInfo. op_ignore (item_Create (story_item e roID info j itemInfo))) xs s =
      (Inr (), s\<lparr>itemRepo := m\<rparr>)" for n xs
  proof (induction xs arbitrary: n s)
    case Nil
    then show ?case by (auto intro: exI [of _ "itemRepo s"])
  next
    case (Cons x xs)
    have "\<exists>m. op_ignore (item_Create (story_item e roID info n x)) s = (Inr (), s\<lparr>itemRepo := m\<rparr>)"
      by (auto simp: op_ignore_app item_Create_def split: sum.splits intro: exI [of _ "itemRepo s"])
    then obtain m where m: "op_ignore (item_Create (story_item e roID info n x)) s = (Inr (), s\<lparr>itemRepo := m\<rparr>)" ..
    from Cons.IH [of "Suc n" "s\<lparr>itemRepo := m\<rparr>"] show ?case by (auto simp: op_bind_def m)
  qed
  then show ?thesis by (simp add: insert_story_items_def)
qed

text \<open>The new stories with their place numbers.\<close>

fun numbered_stories :: "go_env \<Rightarrow> string \<Rightarrow> int \<Rightarrow> StoryInfo list \<Rightarrow> Story list" where
  "numbered_stories e roID n [] = []"
| "numbered_stories e roID n (info # infos) = inserted_story e roID n info # numbered_stories e roID (n + 1) infos"

lemma numbered_stories_ids:
  "map story_ID (numbered_stories e roID n infos) = map (\<lambda>i. storyPersistenceID roID (si_ID i)) infos"
  by (induction infos arbitrary: n) (simp_all add: inserted_story_def)

lemma numbered_stories_orders:
  "map story_Order (numbered_stories e roID n infos) = map (\<lambda>i. n + int i) [0..<length infos]"
proof (induction infos arbitrary: n)
  case (Cons info infos)
  have "[0..<length (info # infos)] = 0 # map Suc [0..<length infos]"
    unfolding map_Suc_upt by (simp add: upt_conv_Cons del: upt_Suc)
  with Cons show ?case by (simp add: inserted_story_def algebra_simps)
qed simp

lemma numbered_stories_parent: "v \<in> set (numbered_stories e roID n infos) \<Longrightarrow> story_RunningOrderID v = roID"
  by (induction infos arbitrary: n) (auto simp: inserted_story_def)

definition insert_step :: "go_env \<Rightarrow> string \<Rightarrow> int \<Rightarrow> nat \<Rightarrow> StoryInfo \<Rightarrow> unit svc_op" where
  "insert_step e roID a i info =
     op_bind (op_wrap (''failed to insert story '' @ si_ID info)
                (story_Create (inserted_story e roID (a + int i + 1) info))) (\<lambda>_.
       insert_story_items e roID info)"

lemma create_stories_run:
  assumes "\<forall>info \<in> set infos. gm_get (storyRepo s) (storyPersistenceID roID (si_ID info)) = None"
    "distinct (map si_ID infos)"
  shows "\<exists>m. op_foreach_from k (insert_step e roID a) infos s =
     (Inr (), s\<lparr>storyRepo := put_all story_ID (numbered_stories e roID (a + int k + 1) infos) (storyRepo s),
        itemRepo := m\<rparr>)"
  using assms
proof (induction infos arbitrary: s k)
  case Nil
  then show ?case by (auto intro!: exI [of _ "itemRepo s"])
next
  case (Cons info infos)
  let ?st = "inserted_story e roID (a + int k + 1) info"
  have id: "story_ID ?st = storyPersistenceID roID (si_ID info)" by (simp add: inserted_story_def)
  let ?s1 = "s\<lparr>storyRepo := gm_set (story_ID ?st) ?st (storyRepo s)\<rparr>"
  have c: "story_Create ?st s = (Inr (), ?s1)"
    using Cons.prems(1) id by (simp add: story_Create_new)
  obtain m where m: "insert_story_items e roID info ?s1 = (Inr (), ?s1\<lparr>itemRepo := m\<rparr>)"
    using insert_story_items_run by blast
  have step: "insert_step e roID a k info s = (Inr (), ?s1\<lparr>itemRepo := m\<rparr>)"
    by (simp add: insert_step_def op_bind_def op_wrap_def c m)
  have "\<forall>i \<in> set infos. gm_get (storyRepo (?s1\<lparr>itemRepo := m\<rparr>)) (storyPersistenceID roID (si_ID i)) = None"
    using Cons.prems by (auto simp: gomap_simps id)
  moreover have "a + int (Suc k) + 1 = a + int k + 1 + 1" by simp
  ultimately obtain m' where "op_foreach_from (Suc k) (insert_step e roID a) infos (?s1\<lparr>itemRepo := m\<rparr>) =
      (Inr (), ?s1\<lparr>itemRepo := m, storyRepo := put_all story_ID (numbered_stories e roID (a + int k + 1 + 1) infos)
        (storyRepo ?s1), itemRepo := m'\<rparr>)"
    using Cons.IH [of "?s1\<lparr>itemRepo := m\<rparr>" "Suc k"] Cons.prems(2) by fastforce
  then show ?case by (simp add: op_bind_def step) (rule exI, rule refl)
qed

section \<open>The new play order\<close>

lemma InsertStories_run:
  assumes ok: "svc_ok s" and pos: "insert_position roID T s = (Inr a, s)"
    and L: "L = stories.listing (storyRepo s) roID"
    and fresh: "\<forall>info \<in> set infos. gm_get (storyRepo s) (storyPersistenceID roID (si_ID info)) = None"
      "distinct (map si_ID infos)"
    and sh: "sh = map (shifted e a (int (length infos))) (filter (\<lambda>st. story_Order st > a) L)"
  shows "\<exists>s'. InsertStories e roID T infos s = (Inr (), s') \<and>
     storyRepo s' = put_all story_ID (numbered_stories e roID (a + 1) infos) (put_all story_ID sh (storyRepo s))"
proof -
  have held: "\<forall>v \<in> set L. gm_get (storyRepo s) (story_ID v) \<noteq> None"
    using L svc_ok_repoD(2) [OF ok] by (auto simp: stories.listing_set)
  then have run: "shift_stories e a (int (length infos)) L s =
      (Inr (), s\<lparr>storyRepo := put_all story_ID sh (storyRepo s)\<rparr>)"
    unfolding sh by (rule shift_stories_run)
  let ?s1 = "s\<lparr>storyRepo := put_all story_ID sh (storyRepo s)\<rparr>"
  have "story_ID ` set sh \<subseteq> story_ID ` set L" by (auto simp: sh)
  moreover have "storyPersistenceID roID (si_ID info) \<notin> story_ID ` set L" if "info \<in> set infos" for info
    using bspec [OF fresh(1) that] held by (metis imageE)
  ultimately have "storyPersistenceID roID (si_ID info) \<notin> story_ID ` set sh" if "info \<in> set infos" for info
    using that by blast
  then have "\<forall>info \<in> set infos. gm_get (storyRepo ?s1) (storyPersistenceID roID (si_ID info)) = None"
    using fresh(1) by (simp add: gm_get_put_all_other)
  from create_stories_run [OF this fresh(2), of 0 e a] obtain m where
    m: "op_foreach_from 0 (insert_step e roID a) infos ?s1 =
     (Inr (), ?s1\<lparr>storyRepo := put_all story_ID (numbered_stories e roID (a + 1) infos) (storyRepo ?s1),
        itemRepo := m\<rparr>)" by auto
  show ?thesis
    unfolding InsertStories_def insert_step_def [symmetric]
    by (simp add: op_bind_def pos op_wrap_def [of _ "story_List _"] story_List_app L [symmetric] run
        m [simplified] publishROUpdate_def publish_app)
qed

lemma listing_after_insert:
  assumes ok: "repo_ok story_ID m" and L: "L = stories.listing m roID"
    and num: "map story_Order L = map (\<lambda>i. 1 + int i) [0..<length L]"
    and p: "p \<le> length L"
    and fresh: "\<forall>info \<in> set infos. gm_get m (storyPersistenceID roID (si_ID info)) = None"
      "distinct (map si_ID infos)"
    and sh: "sh = map (shifted e (int p) (int (length infos))) (filter (\<lambda>st. story_Order st > int p) L)"
    and new: "new = numbered_stories e roID (int p + 1) infos"
  shows "stories.listing (put_all story_ID new (put_all story_ID sh m)) roID = take p L @ new @ sh"
    and "map story_ID sh = map story_ID (drop p L)"
    and "map story_Order (take p L @ new @ sh) = map (\<lambda>i. 1 + int i) [0..<length L + length infos]"
proof -
  have ord: "story_Order (L ! i) = 1 + int i" if "i < length L" for i
    using arg_cong [OF num, of "\<lambda>l. l ! i"] that by simp
  have fl: "filter (\<lambda>st. story_Order st > int p) L = drop p L"
  proof -
    have "filter (\<lambda>st. story_Order st > int p) (take p L) = []"
      using p by (auto simp: filter_empty_conv in_set_conv_nth ord)
    moreover have "filter (\<lambda>st. story_Order st > int p) (drop p L) = drop p L"
      using p by (auto simp: filter_id_conv in_set_conv_nth ord)
    ultimately show ?thesis by (metis append_Nil append_take_drop_id filter_append)
  qed
  have sh_ids: "map story_ID sh = map story_ID (drop p L)" by (simp add: sh fl o_def)
  have dk: "distinct (map story_ID L)" using stories.listing_distinct_keys [OF ok] L by simp
  have new_ids: "map story_ID new = map (\<lambda>i. storyPersistenceID roID (si_ID i)) infos"
    by (simp add: new numbered_stories_ids)
  have dn: "distinct (map story_ID new)"
    unfolding new_ids using fresh(2) by (simp add: distinct_map inj_on_def)
  have mem: "v \<in> set L \<longleftrightarrow> gm_get m (story_ID v) = Some v \<and> story_RunningOrderID v = roID" for v
    using stories.listing_set [OF ok, of roID] L by auto
  have disj: "story_ID ` set new \<inter> story_ID ` set L = {}"
  proof -
    have "gm_get m k = None" if "k \<in> story_ID ` set new" for k
      using that arg_cong [OF new_ids, of set] fresh(1) by auto
    moreover have "gm_get m k \<noteq> None" if "k \<in> story_ID ` set L" for k
      using that by (auto simp: mem)
    ultimately show ?thesis by blast
  qed
  have dsplit: "distinct (map story_ID (take p L) @ map story_ID (drop p L))"
    using dk by (metis append_take_drop_id map_append)
  have ok': "repo_ok story_ID (put_all story_ID new (put_all story_ID sh m))" using ok by simp
  have sub: "set (take p L) \<subseteq> set L" "set (drop p L) \<subseteq> set L" by (auto dest: in_set_takeD in_set_dropD)
  have dids: "distinct (map story_ID (take p L @ new @ sh))"
    using dsplit dn disj sub unfolding map_append sh_ids distinct_append set_append set_map by blast
  have no: "map story_Order new = map (\<lambda>i. int p + 1 + int i) [0..<length infos]"
    by (simp add: new numbered_stories_orders)
  have len: "length new = length infos" using arg_cong [OF new_ids, of length] by simp
  show orders: "map story_Order (take p L @ new @ sh) = map (\<lambda>i. 1 + int i) [0..<length L + length infos]"
  proof (rule nth_equalityI)
    show "length (map story_Order (take p L @ new @ sh)) = length (map (\<lambda>i. 1 + int i) [0..<length L + length infos])"
      using p by (simp add: sh fl len)
    fix i assume i: "i < length (map story_Order (take p L @ new @ sh))"
    have nn: "story_Order (new ! k) = int p + 1 + int k" if "k < length infos" for k
      using arg_cong [OF no, of "\<lambda>l. l ! k"] that len by simp
    show "map story_Order (take p L @ new @ sh) ! i = map (\<lambda>i. 1 + int i) [0..<length L + length infos] ! i"
      using i p by (auto simp: nth_append sh fl len ord nn)
  qed
  have so: "sorted (map story_Order (take p L @ new @ sh))" "distinct (map story_Order (take p L @ new @ sh))"
    unfolding orders by (simp_all add: sorted_iff_nth_mono distinct_map inj_on_def)
  have srt: "sorted (map (\<lambda>v. (story_Order v, story_ID v)) (take p L @ new @ sh))"
    using so by (rule sorted_pairs)
  have dsh: "distinct (map story_ID sh)" using dsplit sh_ids by simp
  have shp: "\<forall>v \<in> set sh. story_RunningOrderID v = roID" using mem sub by (auto simp: sh)
  have ids_sh: "story_ID ` set sh = story_ID ` set (drop p L)" using arg_cong [OF sh_ids, of set] by simp
  have keep: "v \<in> set (take p L) \<longleftrightarrow> v \<in> set L \<and> story_ID v \<notin> story_ID ` set (drop p L)" for v
  proof -
    have "set L = set (take p L) \<union> set (drop p L)" by (metis append_take_drop_id set_append)
    with dsplit show ?thesis by auto
  qed
  have newp: "\<forall>v \<in> set new. story_RunningOrderID v = roID" using numbered_stories_parent by (auto simp: new)
  have "v \<in> set (take p L @ new @ sh) \<longleftrightarrow>
      gm_get (put_all story_ID new (put_all story_ID sh m)) (story_ID v) = Some v \<and> story_RunningOrderID v = roID" for v
  proof -
    have "gm_get (put_all story_ID new (put_all story_ID sh m)) (story_ID v) = Some v \<longleftrightarrow>
        v \<in> set new \<or> story_ID v \<notin> story_ID ` set new \<and>
          (v \<in> set sh \<or> story_ID v \<notin> story_ID ` set sh \<and> gm_get m (story_ID v) = Some v)"
      by (simp add: gm_get_put_all [OF dn] gm_get_put_all [OF dsh])
    moreover have "v \<in> set L \<Longrightarrow> story_ID v \<notin> story_ID ` set new" using disj by blast
    moreover have "v \<in> set sh \<Longrightarrow> story_ID v \<notin> story_ID ` set new"
      using disj sub(2) ids_sh by blast
    ultimately show ?thesis
      using newp shp keep [of v] mem [of v] ids_sh by auto
  qed
  then have "set (take p L @ new @ sh) =
      {v. gm_get (put_all story_ID new (put_all story_ID sh m)) (story_ID v) = Some v \<and> story_RunningOrderID v = roID}"
    by blast
  with ok' srt dids show "stories.listing (put_all story_ID new (put_all story_ID sh m)) roID = take p L @ new @ sh"
    by (rule stories.listing_unique)
  show "map story_ID sh = map story_ID (drop p L)" by (rule sh_ids)
qed

text \<open>
  INSERT of stories into a running order numbered from 1, with fresh and distinct storyIDs,
  puts them in the order of the message directly after the target story and numbers the running
  order from 1 again; the stories in front of them keep their numbers.
\<close>

theorem insert_stories_after_target:
  assumes ok: "svc_ok s"
    and L: "MemoryStory_ListByRunningOrder (storyRepo s) roID = Inr L"
    and num: "map story_Order L = map (\<lambda>i. 1 + int i) [0..<length L]"
    and target: "p < length L" "resolveStory roID (et_StoryID t) s = (Inr (L ! p), s)"
    and fresh: "\<forall>info \<in> set infos. gm_get (storyRepo s) (storyPersistenceID roID (si_ID info)) = None"
      "distinct (map si_ID infos)"
  shows "\<exists>s' L'. InsertStories e roID (Some t) infos s = (Inr (), s') \<and>
      MemoryStory_ListByRunningOrder (storyRepo s') roID = Inr L' \<and>
      map story_ID L' = map story_ID (take (Suc p) L) @ map (\<lambda>i. storyPersistenceID roID (si_ID i)) infos @
        map story_ID (drop (Suc p) L) \<and>
      map story_Order L' = map (\<lambda>i. 1 + int i) [0..<length L + length infos]"
proof -
  have L': "L = stories.listing (storyRepo s) roID" using L by (simp add: stories.list_listing)
  have ord: "story_Order (L ! p) = int (Suc p)"
    using arg_cong [OF num, of "\<lambda>l. l ! p"] target(1) by simp
  have w: "et_StoryID t \<noteq> []" using resolveStory_Inr [OF ok target(2)] by simp
  have pos: "insert_position roID (Some t) s = (Inr (int (Suc p)), s)"
    using w target(2) ord by (simp add: insert_position_def op_bind_def op_wrap_def)
  let ?new = "numbered_stories e roID (int (Suc p) + 1) infos"
  let ?sh = "map (shifted e (int (Suc p)) (int (length infos))) (filter (\<lambda>st. story_Order st > int (Suc p)) L)"
  have "Suc p \<le> length L" using target(1) by simp
  note la = listing_after_insert [OF svc_ok_repoD(2) [OF ok] L' num this fresh refl refl, of e]
  from InsertStories_run [OF ok pos L' fresh refl, of e] obtain s' where
    "InsertStories e roID (Some t) infos s = (Inr (), s')"
    "storyRepo s' = put_all story_ID ?new (put_all story_ID ?sh (storyRepo s))" by blast
  then show ?thesis
    by (intro exI [of _ s'] exI [of _ "take (Suc p) L @ ?new @ ?sh"])
      (simp only: la(1,2) la(3) [unfolded map_append] stories.list_listing map_append numbered_stories_ids simp_thms)
qed

theorem insert_stories_after_target_witness:
  "\<exists>s' L'. InsertStories example_env ''R'' (Some \<lparr>et_StoryID = ''A'', et_ItemID = []\<rparr>)
       [zero_StoryInfo\<lparr>si_ID := ''X''\<rparr>] example_service = (Inr (), s') \<and>
      MemoryStory_ListByRunningOrder (storyRepo s') ''R'' = Inr L' \<and>
      map story_ID L' = map (storyPersistenceID ''R'') [''A'', ''X'', ''B'', ''C'']"
proof -
  let ?L = "map snd [example_story ''A'' 1, example_story ''B'' 2, example_story ''C'' 3]"
  let ?t = "\<lparr>et_StoryID = ''A'', et_ItemID = []\<rparr>"
  let ?infos = "[zero_StoryInfo\<lparr>si_ID := ''X''\<rparr>]"
  have num: "map story_Order ?L = map (\<lambda>i. 1 + int i) [0..<length ?L]" by code_simp
  have tgt: "resolveStory ''R'' (et_StoryID ?t) example_service = (Inr (?L ! 0), example_service)"
    using example_resolves(1) by simp
  have fr: "\<forall>info \<in> set ?infos. gm_get (storyRepo example_service) (storyPersistenceID ''R'' (si_ID info)) = None"
    by code_simp
  have v: "map story_ID (take (Suc 0) ?L) @ map (\<lambda>i. storyPersistenceID ''R'' (si_ID i)) ?infos @
        map story_ID (drop (Suc 0) ?L) = map (storyPersistenceID ''R'') [''A'', ''X'', ''B'', ''C'']"
    by code_simp
  have lens: "0 < length ?L" "distinct (map si_ID ?infos)" by simp_all
  show ?thesis
    using insert_stories_after_target [OF example_service_ok example_listing num lens(1) tgt fr lens(2), of example_env]
    unfolding v by (elim exE conjE) (intro exI conjI, assumption+)
qed

end
