(* ===== verification/Timing.thy ===== *)
theory Timing
  imports Messages
begin

text \<open>
  Item timing and media pointers (\<open>src/internal/service/timing.go\<close>), durations of running orders
  (\<open>durationSeconds\<close> of \<open>mos.go\<close>) and external metadata blocks (\<open>resync.go\<close>).
\<close>

section \<open>Samples and rates\<close>

record itemTiming =
  tm_Seconds :: int
  tm_Samples :: int
  tm_TimeBase :: int
  tm_Known :: bool

definition parseSamples :: "string \<Rightarrow> int \<times> bool" where
  "parseSamples raw =
     (let value = TrimSpace raw in
      if value = [] then (0, False)
      else case Atoi value of
        Some n \<Rightarrow> if n \<ge> 0 then (n, True) else
          (let trimmed = TrimPrefix (TrimPrefix value ''0x'') ''x'' in
           if trimmed \<noteq> value
           then (case ParseInt 16 64 trimmed of Some h \<Rightarrow> if h \<ge> 0 then (h, True) else (0, False) | None \<Rightarrow> (0, False))
           else (0, False))
      | None \<Rightarrow>
          (let trimmed = TrimPrefix (TrimPrefix value ''0x'') ''x'' in
           if trimmed \<noteq> value
           then (case ParseInt 16 64 trimmed of Some h \<Rightarrow> if h \<ge> 0 then (h, True) else (0, False) | None \<Rightarrow> (0, False))
           else (0, False)))"

definition parseTimeBase :: "go_env \<Rightarrow> string \<Rightarrow> int option" where
  "parseTimeBase e raw = (let value = TrimSpace raw in if value = [] then None else parse_rate e value)"

definition resolveItemTiming :: "go_env \<Rightarrow> string \<Rightarrow> string \<Rightarrow> string \<Rightarrow> itemTiming" where
  "resolveItemTiming e itemEdDur objDur objTB =
     (let (samples, haveSamples) =
            (case parseSamples itemEdDur of (n, True) \<Rightarrow> (n, True) | (n, False) \<Rightarrow> parseSamples objDur)
      in case parseTimeBase e objTB of
           None \<Rightarrow> \<lparr>tm_Seconds = 0, tm_Samples = samples, tm_TimeBase = 0, tm_Known = False\<rparr>
         | Some rate \<Rightarrow>
             if \<not> haveSamples
             then \<lparr>tm_Seconds = 0, tm_Samples = samples, tm_TimeBase = round_rate e rate, tm_Known = False\<rparr>
             else \<lparr>tm_Seconds = round_quotient e samples rate, tm_Samples = samples,
                    tm_TimeBase = round_rate e rate, tm_Known = True\<rparr>)"

section \<open>Media pointers\<close>

definition convertPaths :: "ObjPath list \<Rightarrow> MediaPath list" where
  "convertPaths ps =
     map (\<lambda>p. \<lparr>mp_URL = TrimSpace (path_Value p), mp_TechDescription = TrimSpace (path_TechDescription p)\<rparr>)
       (filter (\<lambda>p. TrimSpace (path_Value p) \<noteq> []) ps)"

definition mediaPathsFrom :: "ObjPaths option \<Rightarrow> string \<Rightarrow> MediaPaths option" where
  "mediaPathsFrom paths bare =
     (let out = (case paths of
            None \<Rightarrow> \<lparr>mps_Essence = [], mps_Proxy = [], mps_Metadata = []\<rparr>
          | Some p \<Rightarrow> \<lparr>mps_Essence = convertPaths (paths_ObjPath p), mps_Proxy = convertPaths (paths_ObjProxyPath p),
                        mps_Metadata = convertPaths (paths_ObjMetadataPath p)\<rparr>);
          out' = (if TrimSpace bare \<noteq> []
                  then out\<lparr>mps_Essence := mps_Essence out @ [\<lparr>mp_URL = TrimSpace bare, mp_TechDescription = []\<rparr>]\<rparr>
                  else out)
      in if mps_Essence out' = [] \<and> mps_Proxy out' = [] \<and> mps_Metadata out' = [] then None else Some out')"

section \<open>Durations of running orders\<close>

text \<open>\<open>hours*3600 + minutes*60 + seconds\<close> is computed in 64 bits.\<close>

definition durationSeconds :: "string \<Rightarrow> int" where
  "durationSeconds value =
     (case Atoi value of
        Some n \<Rightarrow> if n \<ge> 0 then n else 0
      | None \<Rightarrow>
          (case split_char CHR '':'' value of
             [h, m, s] \<Rightarrow>
               (case (Atoi h, Atoi m, Atoi s) of
                  (Some hours, Some minutes, Some seconds) \<Rightarrow>
                    if hours < 0 \<or> minutes < 0 \<or> minutes > 59 \<or> seconds < 0 \<or> seconds > 59 then 0
                    else int64 (int64 (int64 (hours * 3600) + minutes * 60) + seconds)
                | _ \<Rightarrow> 0)
           | _ \<Rightarrow> 0))"

section \<open>External metadata\<close>

definition preserveExternalMetadata :: "MosExternalMetadata list \<Rightarrow> ExternalMetadata list" where
  "preserveExternalMetadata blocks =
     map (\<lambda>b. \<lparr>em_Scope = mem_MosScope b, em_Schema = mem_MosSchema b, em_Payload = mem_MosPayload b\<rparr>) blocks"

definition ExternalMetadataToWire :: "ExternalMetadata list \<Rightarrow> MosExternalMetadata list" where
  "ExternalMetadataToWire blocks =
     map (\<lambda>b. \<lparr>mem_MosScope = em_Scope b, mem_MosSchema = em_Schema b, mem_MosPayload = em_Payload b\<rparr>) blocks"

section \<open>Properties\<close>

text \<open>
  External metadata survives storage: a block list written to the store and read back for the
  wire is the list that arrived, block for block, and the other way round.
\<close>

theorem external_metadata_roundtrip:
  "ExternalMetadataToWire (preserveExternalMetadata ws) = ws \<and>
   preserveExternalMetadata (ExternalMetadataToWire ms) = ms"
  by (induction ws; induction ms) (simp_all add: preserveExternalMetadata_def ExternalMetadataToWire_def)

lemma parseSamples_nonneg: "0 \<le> fst (parseSamples v)"
  by (auto simp: parseSamples_def Let_def split: option.splits)

lemma parseSamples_unknown: "\<not> snd (parseSamples v) \<Longrightarrow> fst (parseSamples v) = 0"
  by (auto simp: parseSamples_def Let_def split: option.splits if_splits)

text \<open>
  A duration in seconds is reported as known exactly when a sample count (the item's own, or
  else the object's) and a sampling rate were both given; otherwise the seconds stay 0 and only the
  sample count is kept. The item's own count, when readable, takes precedence.
\<close>

theorem timing_known_iff:
  "(tm_Known (resolveItemTiming e ed od tb) \<longleftrightarrow>
     (snd (parseSamples ed) \<or> snd (parseSamples od)) \<and> parseTimeBase e tb \<noteq> None) \<and>
   (tm_Known (resolveItemTiming e ed od tb) \<or> tm_Seconds (resolveItemTiming e ed od tb) = 0) \<and>
   tm_Samples (resolveItemTiming e ed od tb) =
     (if snd (parseSamples ed) then fst (parseSamples ed) else fst (parseSamples od))"
  by (auto simp: resolveItemTiming_def Let_def split: prod.splits bool.splits option.splits)

lemma mediaPathsFrom_not_empty: "mediaPathsFrom p b = Some m \<Longrightarrow> \<not> MediaPaths_Empty (Some m)"
  by (auto simp: mediaPathsFrom_def MediaPaths_Empty_def Let_def split: if_splits)

lemma convertPaths_usable: "m \<in> set (convertPaths ps) \<Longrightarrow> mp_URL m \<noteq> []"
  by (auto simp: convertPaths_def)

end
