(* ===== verification/RunningOrders.thy ===== *)
theory RunningOrders
  imports Timing Insertions
begin

text \<open>
  The running-order operations of \<open>src/internal/service/mos.go\<close> and \<open>resync.go\<close>: objects,
  \<open>roCreate\<close>, \<open>roReplace\<close>, \<open>roList\<close>, \<open>roDelete\<close>, \<open>roMetadataReplace\<close>, the compact listing,
  object creation and item replacement.
\<close>

section \<open>Queries\<close>

definition ListRunningOrders :: "RunningOrder list svc_op" where
  "ListRunningOrders = ro_List"

definition GetRunningOrderWithStories :: "string \<Rightarrow> (RunningOrder \<times> Story list) svc_op" where
  "GetRunningOrderWithStories roID =
     op_bind (ro_Get roID) (\<lambda>ro.
     op_bind (op_wrap ''failed to get stories'' (story_List roID)) (\<lambda>stories. op_return (ro, stories)))"

definition GetItemsForStory :: "string \<Rightarrow> Item list svc_op" where
  "GetItemsForStory storyID = item_List storyID"

definition RFC3339 :: string where
  "RFC3339 = ''2006-01-02T15:04:05Z07:00''"

definition object_to_wire :: "go_env \<Rightarrow> MOSObject \<Rightarrow> MosObj" where
  "object_to_wire e obj = \<lparr>mo_ObjID = obj_ID obj, mo_ObjSlug = obj_Slug obj,
     mo_MosAbstract = obj_MosAbstract obj, mo_ObjGroup = [], mo_ObjType = obj_ObjectType obj,
     mo_ObjTB = obj_TimeBase obj, mo_ObjRev = 0, mo_ObjDur = obj_Duration obj,
     mo_Status = obj_Status obj, mo_ObjAir = [], mo_ObjPaths = None,
     mo_CreatedBy = gm_string (obj_Metadata obj) ''createdBy'',
     mo_Created = time_Format e RFC3339 (obj_CreatedAt obj),
     mo_ChangedBy = gm_string (obj_Metadata obj) ''changedBy'',
     mo_Changed = time_Format e RFC3339 (obj_UpdatedAt obj),
     mo_Description = gm_string (obj_Metadata obj) ''description''\<rparr>"

definition GetObject :: "go_env \<Rightarrow> string \<Rightarrow> MosObj svc_op" where
  "GetObject e objID =
     op_bind (op_wrap ''failed to get object'' (obj_Get objID)) (\<lambda>obj. op_return (object_to_wire e obj))"

definition GetAllObjects :: "go_env \<Rightarrow> MosObj list svc_op" where
  "GetAllObjects e =
     op_bind (op_wrap ''failed to list objects'' obj_List) (\<lambda>objects. op_return (map (object_to_wire e) objects))"

section \<open>Objects\<close>

text \<open>\<open>if v != "" { m[k] = v }\<close>\<close>

definition set_nonempty :: "string \<Rightarrow> string \<Rightarrow> string gomap \<Rightarrow> string gomap" where
  "set_nonempty k v m = (if v \<noteq> [] then gm_set k v m else m)"

definition StoreObject :: "go_env \<Rightarrow> MosObj \<Rightarrow> unit svc_op" where
  "StoreObject e mosObj =
     op_bind (op_try (obj_Get (mo_ObjID mosObj))) (\<lambda>r.
     case r of
       Inl _ \<Rightarrow>
         op_bind (op_wrap ''failed to create object'' (obj_Create (zero_MOSObject
           \<lparr>obj_ID := mo_ObjID mosObj, obj_Slug := mo_ObjSlug mosObj, obj_MosAbstract := mo_MosAbstract mosObj,
            obj_ObjectType := mo_ObjType mosObj, obj_TimeBase := mo_ObjTB mosObj, obj_Duration := mo_ObjDur mosObj,
            obj_Status := mo_Status mosObj,
            obj_Metadata := [(''createdBy'', mo_CreatedBy mosObj), (''changedBy'', mo_ChangedBy mosObj),
              (''description'', mo_Description mosObj), (''objGroup'', mo_ObjGroup mosObj), (''objAir'', mo_ObjAir mosObj)],
            obj_CreatedAt := now e, obj_UpdatedAt := now e\<rparr>))) (\<lambda>_.
         publish ObjectCreated (PString (mo_ObjID mosObj)))
     | Inr existing \<Rightarrow>
         op_bind (op_wrap ''failed to update object'' (obj_Update (existing
           \<lparr>obj_Slug := mo_ObjSlug mosObj, obj_MosAbstract := mo_MosAbstract mosObj,
            obj_ObjectType := mo_ObjType mosObj, obj_TimeBase := mo_ObjTB mosObj, obj_Duration := mo_ObjDur mosObj,
            obj_UpdatedAt := now e,
            obj_Status := (if mo_Status mosObj \<noteq> [] then mo_Status mosObj else obj_Status existing),
            obj_Metadata := set_nonempty ''objGroup'' (mo_ObjGroup mosObj)
              (set_nonempty ''description'' (mo_Description mosObj)
                (set_nonempty ''changedBy'' (mo_ChangedBy mosObj) (obj_Metadata existing)))\<rparr>))) (\<lambda>_.
         publish ObjectUpdated (PString (mo_ObjID mosObj))))"

section \<open>Validation\<close>

fun validate_items :: "nat \<Rightarrow> nat \<Rightarrow> ItemInfo list \<Rightarrow> unit result" where
  "validate_items si ii [] = Inr ()"
| "validate_items si ii (item # items) =
     (let here = ''story '' @ FormatInt (int si + 1) @ '' item '' @ FormatInt (int ii + 1) @ '': '' in
      if TrimSpace (ii_ID item) = [] then Inl (Errorf (here @ ''itemID is required''))
      else if TrimSpace (ii_ObjectID item) = [] then Inl (Errorf (here @ ''objID is required''))
      else if TrimSpace (ii_MosID item) = [] then Inl (Errorf (here @ ''mosID is required''))
      else validate_items si (Suc ii) items)"

fun validate_stories :: "nat \<Rightarrow> StoryInfo list \<Rightarrow> unit result" where
  "validate_stories si [] = Inr ()"
| "validate_stories si (story # stories) =
     (if TrimSpace (si_ID story) = [] then Inl (Errorf (''story '' @ FormatInt (int si + 1) @ '': storyID is required''))
      else case validate_items si 0 (si_Items story) of
        Inl er \<Rightarrow> Inl er
      | Inr _ \<Rightarrow> validate_stories (Suc si) stories)"

definition validateRunningOrder :: "string \<Rightarrow> string \<Rightarrow> StoryInfo list \<Rightarrow> unit result" where
  "validateRunningOrder roID roSlug stories =
     (if TrimSpace roID = [] then Inl (Errorf ''roID is required'')
      else if TrimSpace roSlug = [] then Inl (Errorf ''roSlug is required'')
      else validate_stories 0 stories)"

text \<open>A check whose error is returned as it is.\<close>

definition op_check :: "'a result \<Rightarrow> 'a svc_op" where
  "op_check r = (\<lambda>s. (r, s))"

section \<open>Items of a story\<close>

definition new_item :: "go_env \<Rightarrow> string \<Rightarrow> nat \<Rightarrow> ItemInfo \<Rightarrow> Item" where
  "new_item e storyID order info =
     (let timing = resolveItemTiming e (ii_Duration info) (ii_ObjDur info) (ii_ObjTB info) in
      zero_Item\<lparr>item_ID := itemPersistenceID storyID (ii_ID info), item_RawID := ii_ID info,
        item_StoryID := storyID, item_Slug := ii_Slug info, item_Abstract := TrimSpace (ii_Abstract info),
        item_ObjectID := ii_ObjectID info, item_Status := StatusPending, item_Order := int order + 1,
        item_CreatedAt := now e, item_UpdatedAt := now e,
        item_ExternalMetadata := preserveExternalMetadata (ii_MosExternalMetadata info),
        item_EditorialDuration := tm_Samples timing, item_TimeBase := tm_TimeBase timing,
        item_Duration := (if tm_Known timing then tm_Seconds timing else 0),
        item_Media := mediaPathsFrom (ii_ObjPaths info) (ii_ObjPath info),
        item_Metadata := set_nonempty ''mosID'' (ii_MosID info) (set_nonempty ''objTB'' (TrimSpace (ii_ObjTB info)) [])\<rparr>)"

definition merged_item :: "Item \<Rightarrow> ItemInfo \<Rightarrow> Item \<Rightarrow> Item" where
  "merged_item item info existing = existing
     \<lparr>item_StoryID := item_StoryID item, item_RawID := item_RawID item, item_Slug := item_Slug item,
      item_Abstract := (if item_Abstract item \<noteq> [] then item_Abstract item else item_Abstract existing),
      item_ObjectID := item_ObjectID item, item_Duration := item_Duration item,
      item_EditorialDuration := item_EditorialDuration item, item_TimeBase := item_TimeBase item,
      item_Media := (if \<not> MediaPaths_Empty (item_Media item) then item_Media item else item_Media existing),
      item_Order := item_Order item,
      item_ExternalMetadata := (if item_ExternalMetadata item \<noteq> [] then item_ExternalMetadata item
                                else item_ExternalMetadata existing),
      item_Metadata := set_nonempty ''objTB'' (gm_string (item_Metadata item) ''objTB'')
        (set_nonempty ''mosID'' (ii_MosID info) (item_Metadata existing))\<rparr>"

definition storeItem :: "go_env \<Rightarrow> string \<Rightarrow> nat \<Rightarrow> ItemInfo \<Rightarrow> unit svc_op" where
  "storeItem e storyID order info =
     (let item = new_item e storyID order info in
      op_bind (op_try (item_Get (item_ID item))) (\<lambda>r.
      case r of
        Inl _ \<Rightarrow> op_wrap (''failed to create item '' @ ii_ID info) (item_Create item)
      | Inr existing \<Rightarrow> op_wrap (''failed to update item '' @ ii_ID info) (item_Update (merged_item item info existing))))"

definition storeItems :: "go_env \<Rightarrow> string \<Rightarrow> ItemInfo list \<Rightarrow> unit svc_op" where
  "storeItems e storyID infos = op_foreach_from 0 (storeItem e storyID) infos"

section \<open>Creating and updating a running order\<close>

definition created_story :: "go_env \<Rightarrow> string \<Rightarrow> nat \<Rightarrow> StoryInfo \<Rightarrow> Story" where
  "created_story e roID i info = zero_Story
     \<lparr>story_ID := storyPersistenceID roID (si_ID info), story_RawID := si_ID info, story_RunningOrderID := roID,
      story_Slug := si_Slug info, story_Number := si_Number info, story_Status := StatusPending,
      story_Order := int i + 1,
      story_ExternalMetadata := preserveExternalMetadata (si_MosExternalMetadata info),
      story_CreatedAt := now e, story_UpdatedAt := now e,
      story_Duration := parsed_duration (si_Duration info)\<rparr>"

definition storeStory :: "go_env \<Rightarrow> string \<Rightarrow> nat \<Rightarrow> StoryInfo \<Rightarrow> unit svc_op" where
  "storeStory e roID i info =
     (let story = created_story e roID i info in
      op_bind (op_try (story_Get (story_ID story))) (\<lambda>r.
      op_bind (case r of
          Inl _ \<Rightarrow> op_wrap ''failed to create story'' (story_Create story)
        | Inr existing \<Rightarrow> op_wrap ''failed to update story'' (story_Update (existing
            \<lparr>story_RawID := story_RawID story, story_RunningOrderID := story_RunningOrderID story,
             story_Slug := si_Slug info, story_Number := si_Number info, story_Order := int i + 1,
             story_UpdatedAt := now e,
             story_Duration := (case (if si_Duration info = [] then None else Atoi (si_Duration info)) of
                Some d \<Rightarrow> d | None \<Rightarrow> story_Duration existing)\<rparr>))) (\<lambda>_.
      storeItems e (story_ID story) (si_Items info))))"

definition ro_duration :: "string \<Rightarrow> int" where
  "ro_duration d = (if d = [] then 0 else durationSeconds d)"

definition storeRO :: "go_env \<Rightarrow> RunningOrderInfo \<Rightarrow> string \<Rightarrow> unit svc_op" where
  "storeRO e roInfo mosID =
     op_bind (op_try (ro_Get (roi_ID roInfo))) (\<lambda>r.
     case r of
       Inl _ \<Rightarrow> op_wrap ''failed to create running order'' (ro_Create (zero_RunningOrder
         \<lparr>ro_ID := roi_ID roInfo, ro_MosID := mosID, ro_Slug := roi_Slug roInfo, ro_Status := StatusPending,
          ro_Duration := ro_duration (roi_Duration roInfo), ro_Channel := roi_Channel roInfo, ro_Version := 1,
          ro_CreatedAt := now e, ro_UpdatedAt := now e,
          ro_ExternalMetadata := preserveExternalMetadata (roi_MosExternalMetadata roInfo)\<rparr>))
     | Inr existing \<Rightarrow> op_wrap ''failed to update running order'' (ro_Update (existing
         \<lparr>ro_Slug := roi_Slug roInfo, ro_Channel := roi_Channel roInfo,
          ro_Duration := ro_duration (roi_Duration roInfo),
          ro_ExternalMetadata := preserveExternalMetadata (roi_MosExternalMetadata roInfo),
          ro_UpdatedAt := now e,
          ro_MosID := (if mosID \<noteq> [] then mosID else ro_MosID existing)\<rparr>)))"

definition ProcessRunningOrderInfo :: "go_env \<Rightarrow> RunningOrderInfo \<Rightarrow> string \<Rightarrow> unit svc_op" where
  "ProcessRunningOrderInfo e roInfo mosID =
     op_bind (op_check (validateRunningOrder (roi_ID roInfo) (roi_Slug roInfo) (roi_Stories roInfo))) (\<lambda>_.
     op_bind (storeRO e roInfo mosID) (\<lambda>_.
     op_bind (op_foreach_from 0 (storeStory e (roi_ID roInfo)) (roi_Stories roInfo)) (\<lambda>_.
     publishROUpdate (roi_ID roInfo))))"

section \<open>Deleting and replacing\<close>

definition delete_story_items :: "Story \<Rightarrow> unit svc_op" where
  "delete_story_items story =
     op_bind (op_wrap (''failed to list items for story '' @ story_ID story) (item_List (story_ID story))) (\<lambda>items.
     op_bind (op_foreach (\<lambda>item. op_wrap (''failed to delete item '' @ item_ID item) (item_Delete (item_ID item))) items) (\<lambda>_.
     op_wrap (''failed to delete story '' @ story_ID story) (story_Delete (story_ID story))))"

definition replacementStory :: "go_env \<Rightarrow> string \<Rightarrow> nat \<Rightarrow> StoryInfo \<Rightarrow> unit svc_op" where
  "replacementStory e roID i info =
     op_bind (op_wrap ''failed to create replacement story'' (story_Create (created_story e roID i info))) (\<lambda>_.
     storeItems e (storyPersistenceID roID (si_ID info)) (si_Items info))"

definition replaceRO :: "go_env \<Rightarrow> ROReplace \<Rightarrow> unit svc_op" where
  "replaceRO e m =
     op_bind (op_try (ro_Get (ror_ID m))) (\<lambda>r.
     case r of
       Inl _ \<Rightarrow> op_wrap ''failed to create running order'' (ro_Create (zero_RunningOrder
         \<lparr>ro_ID := ror_ID m, ro_Slug := ror_Slug m, ro_Status := StatusPending,
          ro_Duration := ro_duration (ror_EdDur m), ro_Channel := ror_Channel m, ro_Version := 1,
          ro_CreatedAt := now e, ro_UpdatedAt := now e,
          ro_ExternalMetadata := preserveExternalMetadata (ror_MosExternalMetadata m)\<rparr>))
     | Inr existing \<Rightarrow> op_wrap ''failed to update running order'' (ro_Update (existing
         \<lparr>ro_Slug := ror_Slug m, ro_Channel := ror_Channel m, ro_Duration := ro_duration (ror_EdDur m),
          ro_ExternalMetadata := preserveExternalMetadata (ror_MosExternalMetadata m),
          ro_Version := ro_Version existing + 1, ro_UpdatedAt := now e\<rparr>)))"

definition ReplaceRunningOrder :: "go_env \<Rightarrow> ROReplace \<Rightarrow> unit svc_op" where
  "ReplaceRunningOrder e m =
     op_bind (op_check (validateRunningOrder (ror_ID m) (ror_Slug m) (ror_Stories m))) (\<lambda>_.
     op_bind (op_wrap ''failed to list existing stories'' (story_List (ror_ID m))) (\<lambda>existingStories.
     op_bind (op_foreach delete_story_items existingStories) (\<lambda>_.
     op_bind (replaceRO e m) (\<lambda>_.
     op_bind (op_foreach_from 0 (replacementStory e (ror_ID m)) (ror_Stories m)) (\<lambda>_.
     publishROUpdate (ror_ID m))))))"

definition DeleteRunningOrder :: "string \<Rightarrow> unit svc_op" where
  "DeleteRunningOrder roID =
     (if TrimSpace roID = [] then op_fail (Errorf ''roID is required'') else
     op_bind (op_wrap ''failed to list stories for running order'' (story_List roID)) (\<lambda>stories.
     op_bind (op_foreach delete_story_items stories) (\<lambda>_.
     op_bind (op_wrap ''failed to delete running order'' (ro_Delete roID)) (\<lambda>_.
     publishROUpdate roID))))"

definition ReplaceMetadata :: "go_env \<Rightarrow> ROMetadataReplace \<Rightarrow> unit svc_op" where
  "ReplaceMetadata e m =
     op_bind (op_wrap ''running order not found'' (ro_Get (rmr_ID m))) (\<lambda>ro.
     op_bind (op_wrap ''failed to update running order metadata'' (ro_Update (ro
       \<lparr>ro_ExternalMetadata := preserveExternalMetadata (rmr_MosExternalMetadata m),
        ro_Slug := (if rmr_Slug m \<noteq> [] then rmr_Slug m else ro_Slug ro),
        ro_Channel := (if rmr_Channel m \<noteq> [] then rmr_Channel m else ro_Channel ro),
        ro_Metadata := set_nonempty ''macroOut'' (rmr_MacroOut m) (set_nonempty ''macroIn'' (rmr_MacroIn m)
          (set_nonempty ''trigger'' (rmr_Trigger m) (set_nonempty ''edDur'' (rmr_EdDur m)
            (set_nonempty ''edStart'' (rmr_EdStart m) (ro_Metadata ro))))),
        ro_Duration := (case (if rmr_EdDur m = [] then None else Atoi (rmr_EdDur m)) of
           Some d \<Rightarrow> d | None \<Rightarrow> ro_Duration ro),
        ro_UpdatedAt := now e\<rparr>))) (\<lambda>_.
     publishROUpdate (rmr_ID m)))"

definition compact_ro :: "RunningOrder \<Rightarrow> ROListAllItem" where
  "compact_ro ro = \<lparr>rla_ID = ro_ID ro, rla_Slug = ro_Slug ro, rla_Channel = ro_Channel ro,
     rla_EdStart = gm_string (ro_Metadata ro) ''edStart'', rla_EdDur = gm_string (ro_Metadata ro) ''edDur'',
     rla_Trigger = gm_string (ro_Metadata ro) ''trigger'', rla_MosExternalMetadata = []\<rparr>"

definition ListAllRunningOrdersCompact :: "ROListAllItem list svc_op" where
  "ListAllRunningOrdersCompact =
     op_bind (op_wrap ''failed to list running orders'' ro_List) (\<lambda>ros. op_return (map compact_ro ros))"

section \<open>Recovery from a list\<close>

definition list_as_info :: "ROList \<Rightarrow> RunningOrderInfo" where
  "list_as_info l = \<lparr>roi_RequestID = [], roi_Timestamp = [], roi_Source = [], roi_ID = rol_ID l,
     roi_Slug = rol_Slug l, roi_Channel = rol_Channel l, roi_EditTime = rol_EdStart l, roi_StartTime = [],
     roi_Duration = rol_EdDur l, roi_MosExternalMetadata = rol_MosExternalMetadata l,
     roi_Stories = rol_Stories l\<rparr>"

definition ApplyROList :: "go_env \<Rightarrow> ROList \<Rightarrow> string \<Rightarrow> unit svc_op" where
  "ApplyROList e l mosID =
     (if rol_ID l = [] then op_fail (Errorf ''roList carried no roID'')
      else op_wrap (''failed to apply roList for '' @ quote e (rol_ID l))
             (ProcessRunningOrderInfo e (list_as_info l) mosID))"

section \<open>Profile 3\<close>

text \<open>\<open>utils.GenerateID\<close>: sixteen random bytes in lower-case hexadecimal behind the prefix.\<close>

definition lower_hex :: "nat \<Rightarrow> char" where
  "lower_hex d = (if d < 10 then char_of (48 + d) else char_of (87 + d))"

definition hex_encode :: "string \<Rightarrow> string" where
  "hex_encode s = concat (map (\<lambda>c. [lower_hex (of_char c div 16), lower_hex (of_char c mod 16)]) s)"

definition GenerateID :: "go_env \<Rightarrow> string \<Rightarrow> string result" where
  "GenerateID e pre = (case random_bytes e of
      Inl er \<Rightarrow> Inl (Wrap ''failed to generate random bytes'' er)
    | Inr bytes \<Rightarrow> Inr (if pre \<noteq> [] then pre @ ''_'' @ hex_encode bytes else hex_encode bytes))"

definition CreateObjectFromNCS :: "go_env \<Rightarrow> MosObjCreate \<Rightarrow> string svc_op" where
  "CreateObjectFromNCS e m =
     op_bind (op_wrap ''failed to generate object ID'' (op_check (GenerateID e ''OBJ''))) (\<lambda>objID.
     op_bind (op_wrap ''failed to create object'' (obj_Create (zero_MOSObject
       \<lparr>obj_ID := objID, obj_Slug := moc_ObjSlug m, obj_ObjectType := moc_ObjType m, obj_TimeBase := moc_ObjTB m,
        obj_Duration := moc_ObjDur m, obj_Status := StatusPending,
        obj_Metadata := [(''createdBy'', moc_CreatedBy m), (''description'', moc_Description m), (''objGroup'', moc_ObjGroup m)],
        obj_CreatedAt := now e, obj_UpdatedAt := now e\<rparr>))) (\<lambda>_.
     op_bind (publish ObjectCreated (PString objID)) (\<lambda>_. op_return objID)))"

definition ReplaceItemInStory :: "go_env \<Rightarrow> MosItemReplace \<Rightarrow> unit svc_op" where
  "ReplaceItemInStory e m =
     (let it = mir_Item m in
     op_bind (op_wrap ''story not found'' (story_Get (mir_StoryID m))) (\<lambda>_.
     op_bind (op_try (item_Get (miri_ItemID it))) (\<lambda>r.
     op_bind (case r of
         Inl _ \<Rightarrow> op_wrap ''failed to create replacement item'' (item_Create (zero_Item
           \<lparr>item_ID := miri_ItemID it, item_StoryID := mir_StoryID m, item_Slug := miri_ItemSlug it,
            item_ObjectID := miri_ObjID it, item_Duration := miri_ItemEdDur it, item_Status := StatusPending,
            item_CreatedAt := now e, item_UpdatedAt := now e\<rparr>))
       | Inr existing \<Rightarrow> op_wrap ''failed to update item'' (item_Update (existing
           \<lparr>item_Slug := miri_ItemSlug it, item_ObjectID := miri_ObjID it, item_Duration := miri_ItemEdDur it,
            item_UpdatedAt := now e,
            item_Metadata := set_nonempty ''itemChannel'' (miri_ItemChannel it)
              (set_nonempty ''mosID'' (miri_MosID it) (item_Metadata existing))\<rparr>))) (\<lambda>_.
     publish ItemChanged (PString (miri_ItemID it))))))"

section \<open>The service invariant\<close>

lemma keeps_ok_check [keeps_ok_intros]: "keeps_ok (op_check r)"
  by (simp add: keeps_ok_def op_check_def)

lemma keeps_ok_storeItem [keeps_ok_intros]: "keeps_ok (storeItem e k i info)"
  unfolding storeItem_def Let_def by (intro keeps_ok_intros)

lemma keeps_ok_storeItems [keeps_ok_intros]: "keeps_ok (storeItems e k infos)"
  unfolding storeItems_def by (intro keeps_ok_intros)

lemma keeps_ok_story_steps [keeps_ok_intros]:
  "keeps_ok (storeStory e r i info)" "keeps_ok (replacementStory e r i info)" "keeps_ok (delete_story_items st)"
  unfolding storeStory_def replacementStory_def delete_story_items_def Let_def by (intro keeps_ok_intros)+

lemma keeps_ok_running_orders [keeps_ok_intros]:
  "keeps_ok (ProcessRunningOrderInfo e ri mosID)" "keeps_ok (ReplaceRunningOrder e rr)"
  "keeps_ok (DeleteRunningOrder r)" "keeps_ok (ReplaceMetadata e rm)"
  "keeps_ok (StoreObject e ob)" "keeps_ok (CreateObjectFromNCS e oc)" "keeps_ok (ReplaceItemInStory e ir)"
  unfolding storeRO_def replaceRO_def ProcessRunningOrderInfo_def ReplaceRunningOrder_def DeleteRunningOrder_def ReplaceMetadata_def
    StoreObject_def CreateObjectFromNCS_def ReplaceItemInStory_def Let_def
  by (intro keeps_ok_intros)+

lemma keeps_ok_ApplyROList [keeps_ok_intros]: "keeps_ok (ApplyROList e l mosID)"
  unfolding ApplyROList_def by (intro keeps_ok_intros)

end
