(* ===== verification/Replacing.thy ===== *)
theory Replacing
  imports RunningOrders
begin

text \<open>
  What storing, deleting and replacing a running order leaves behind: storing items cannot fail on
  a consistent store and keeps what a message omits, a deletion removes the running order with its
  stories and their items and nothing else, a replacement leaves exactly the stories of the
  message in their order.
\<close>

section \<open>Storing items\<close>

lemma new_item_id [simp]: "item_ID (new_item e k i info) = itemPersistenceID k (ii_ID info)"
  by (simp add: new_item_def Let_def)

lemma merged_item_id [simp]: "item_ID (merged_item it info ex) = item_ID ex"
  by (simp add: merged_item_def)

lemma storeItem_run:
  assumes "svc_ok s" and item_def: "item = new_item e k i info"
  shows "storeItem e k i info s = (Inr (), s\<lparr>itemRepo := gm_set (item_ID item)
     (case gm_get (itemRepo s) (item_ID item) of None \<Rightarrow> item | Some ex \<Rightarrow> merged_item item info ex) (itemRepo s)\<rparr>)"
proof (cases "gm_get (itemRepo s) (item_ID item)")
  case None
  then show ?thesis
    by (simp add: storeItem_def Let_def op_bind_def op_try_app item_Get_missing item_Create_new op_wrap_def item_def)
next
  case (Some ex)
  then have "item_ID ex = item_ID item" using repo_ok_keyD [OF svc_ok_repoD(3) [OF assms(1)]] by blast
  with Some show ?thesis
    by (simp add: storeItem_def Let_def op_bind_def op_try_app item_Get_held item_Update_held op_wrap_def item_def)
qed

lemma storeItems_run:
  assumes "svc_ok s"
  shows "\<exists>m. storeItems e k infos s = (Inr (), s\<lparr>itemRepo := m\<rparr>) \<and> repo_ok item_ID m"
proof -
  have "\<exists>m. op_foreach_from n (storeItem e k) infos s = (Inr (), s\<lparr>itemRepo := m\<rparr>)" for n
    using assms
  proof (induction infos arbitrary: n s)
    case Nil
    then show ?case by (auto intro!: exI [of _ "itemRepo s"])
  next
    case (Cons info infos)
    obtain m where m: "storeItem e k n info s = (Inr (), s\<lparr>itemRepo := m\<rparr>)"
      using storeItem_run [OF Cons.prems refl] by blast
    have "svc_ok (s\<lparr>itemRepo := m\<rparr>)"
      using keeps_okD [OF keeps_ok_storeItem Cons.prems, of e k n info] m by simp
    from Cons.IH [OF this, of "Suc n"] show ?case by (auto simp: op_bind_def m)
  qed
  then obtain m where m: "storeItems e k infos s = (Inr (), s\<lparr>itemRepo := m\<rparr>)" by (auto simp: storeItems_def)
  with keeps_okD [OF keeps_ok_storeItems assms, of e k infos] show ?thesis by (auto simp: svc_ok_def)
qed

text \<open>
  An item that is sent again keeps its abstract, its media pointers and its external metadata
  when the new message omits them; the position, label, object and timing are the message's.
\<close>

theorem stored_item_keeps_omitted:
  assumes ok: "svc_ok s"
    and held: "gm_get (itemRepo s) (itemPersistenceID k (ii_ID info)) = Some ex"
    and omitted: "TrimSpace (ii_Abstract info) = []" "mediaPathsFrom (ii_ObjPaths info) (ii_ObjPath info) = None"
      "ii_MosExternalMetadata info = []"
  shows "\<exists>s' it. storeItem e k i info s = (Inr (), s') \<and>
      gm_get (itemRepo s') (itemPersistenceID k (ii_ID info)) = Some it \<and>
      item_Abstract it = item_Abstract ex \<and> item_Media it = item_Media ex \<and>
      item_ExternalMetadata it = item_ExternalMetadata ex \<and>
      item_Slug it = ii_Slug info \<and> item_ObjectID it = ii_ObjectID info \<and> item_Order it = int i + 1 \<and>
      item_EditorialDuration it = tm_Samples (resolveItemTiming e (ii_Duration info) (ii_ObjDur info) (ii_ObjTB info))"
  using omitted
  by (simp add: storeItem_run [OF ok refl] held gomap_simps merged_item_def new_item_def Let_def
      MediaPaths_Empty_def preserveExternalMetadata_def)

theorem stored_item_keeps_omitted_witness:
  "\<exists>s' it. storeItem example_env (storyPersistenceID ''R'' ''A'') 4 (zero_ItemInfo\<lparr>ii_ID := ''1''\<rparr>)
      example_service = (Inr (), s') \<and>
      gm_get (itemRepo s') (itemPersistenceID (storyPersistenceID ''R'' ''A'') ''1'') = Some it \<and> item_Order it = 5"
proof -
  let ?info = "zero_ItemInfo\<lparr>ii_ID := ''1''\<rparr>"
  have h: "gm_get (itemRepo example_service) (itemPersistenceID (storyPersistenceID ''R'' ''A'') (ii_ID ?info)) =
      Some (snd (example_item ''A'' ''1'' 1))" by code_simp
  have o: "TrimSpace (ii_Abstract ?info) = []" "mediaPathsFrom (ii_ObjPaths ?info) (ii_ObjPath ?info) = None"
    "ii_MosExternalMetadata ?info = []"
    by (simp_all add: zero_ItemInfo_def mediaPathsFrom_def)
  from stored_item_keeps_omitted [OF example_service_ok h o, of example_env 4] show ?thesis by auto
qed

section \<open>Deleting the stories of a running order\<close>

definition without_stories :: "string set \<Rightarrow> Item gomap \<Rightarrow> Item gomap \<Rightarrow> bool" where
  "without_stories ks m m' \<longleftrightarrow> (\<forall>k. gm_get m' k =
     (case gm_get m k of None \<Rightarrow> None | Some it \<Rightarrow> if item_StoryID it \<in> ks then None else Some it))"

lemma delete_items_loop:
  "op_foreach (\<lambda>item. op_wrap (t item) (item_Delete (item_ID item))) its s =
     (Inr (), s\<lparr>itemRepo := fold gm_delete (map item_ID its) (itemRepo s)\<rparr>)"
  by (induction its arbitrary: s) (simp_all add: op_bind_def op_wrap_def item_Delete_app)

lemma without_stories_listing:
  assumes "repo_ok item_ID m"
  shows "without_stories {k} m (fold gm_delete (map item_ID (items.listing m k)) m)"
  unfolding without_stories_def
proof
  fix x
  show "gm_get (fold gm_delete (map item_ID (items.listing m k)) m) x =
     (case gm_get m x of None \<Rightarrow> None | Some it \<Rightarrow> if item_StoryID it \<in> {k} then None else Some it)"
  proof (cases "gm_get m x")
    case (Some it)
    then have id: "item_ID it = x" using assms by (rule repo_ok_keyD [rotated])
    have "x \<in> item_ID ` set (items.listing m k) \<longleftrightarrow> item_StoryID it = k"
    proof
      assume "x \<in> item_ID ` set (items.listing m k)"
      then obtain v where "item_ID v = x" "gm_get m (item_ID v) = Some v" "item_StoryID v = k"
        unfolding items.listing_set [OF assms] by blast
      with Some show "item_StoryID it = k" by simp
    next
      assume "item_StoryID it = k"
      then have "it \<in> set (items.listing m k)" unfolding items.listing_set [OF assms] using Some id by simp
      then show "x \<in> item_ID ` set (items.listing m k)" using id by blast
    qed
    with Some show ?thesis by (simp add: gomap_simps)
  qed (simp add: gomap_simps)
qed

lemma without_stories_trans:
  assumes "without_stories A m m'" "without_stories B m' m''"
  shows "without_stories (A \<union> B) m m''"
  unfolding without_stories_def
proof
  fix k
  show "gm_get m'' k = (case gm_get m k of None \<Rightarrow> None | Some it \<Rightarrow> if item_StoryID it \<in> A \<union> B then None else Some it)"
    using assms [unfolded without_stories_def, THEN spec, of k] by (cases "gm_get m k") auto
qed

lemma delete_stories_loop:
  assumes "svc_ok s"
  shows "\<exists>m. op_foreach delete_story_items sts s =
     (Inr (), s\<lparr>storyRepo := fold gm_delete (map story_ID sts) (storyRepo s), itemRepo := m\<rparr>) \<and>
     repo_ok item_ID m \<and> without_stories (story_ID ` set sts) (itemRepo s) m"
  using assms
proof (induction sts arbitrary: s)
  case Nil
  then show ?case
    by (auto intro!: exI [of _ "itemRepo s"] simp: without_stories_def svc_ok_def split: option.splits)
next
  case (Cons st sts)
  let ?m = "fold gm_delete (map item_ID (items.listing (itemRepo s) (story_ID st))) (itemRepo s)"
  let ?s1 = "s\<lparr>itemRepo := ?m, storyRepo := gm_delete (story_ID st) (storyRepo s)\<rparr>"
  have step: "delete_story_items st s = (Inr (), ?s1)"
    by (simp add: delete_story_items_def op_bind_def op_wrap_def [of _ "item_List _"] item_List_app
        delete_items_loop op_wrap_def [of _ "story_Delete _"] story_Delete_app)
  have "svc_ok ?s1" using Cons.prems by (simp add: svc_ok_def)
  from Cons.IH [OF this] obtain m where m: "op_foreach delete_story_items sts ?s1 =
      (Inr (), ?s1\<lparr>storyRepo := fold gm_delete (map story_ID sts) (storyRepo ?s1), itemRepo := m\<rparr>)"
    "repo_ok item_ID m" "without_stories (story_ID ` set sts) ?m m" by auto
  have "without_stories ({story_ID st} \<union> story_ID ` set sts) (itemRepo s) m"
    using without_stories_trans [OF without_stories_listing [OF svc_ok_repoD(3) [OF Cons.prems]] m(3)] .
  with m(1,2) show ?case by (auto simp: op_bind_def step)
qed

lemma listing_delete_stories:
  assumes ok: "repo_ok story_ID m"
  shows "stories.listing (fold gm_delete ks m) p = filter (\<lambda>st. story_ID st \<notin> set ks) (stories.listing m p)"
proof (rule stories.listing_unique)
  let ?L = "stories.listing m p"
  show "repo_ok story_ID (fold gm_delete ks m)" using ok by simp
  show "distinct (map story_ID (filter (\<lambda>st. story_ID st \<notin> set ks) ?L))"
    using stories.listing_distinct_keys [OF ok, of p] by (simp add: distinct_map_filter)
  show "sorted (map (\<lambda>v. (story_Order v, story_ID v)) (filter (\<lambda>st. story_ID st \<notin> set ks) ?L))"
    using stories.listing_sorted by (rule sorted_filter)
  show "set (filter (\<lambda>st. story_ID st \<notin> set ks) ?L) =
      {v. gm_get (fold gm_delete ks m) (story_ID v) = Some v \<and> story_RunningOrderID v = p}"
    by (auto simp: stories.listing_set [OF ok] gomap_simps)
qed

lemma listing_without_own:
  assumes ok: "repo_ok story_ID m"
  shows "stories.listing (fold gm_delete (map story_ID (stories.listing m r)) m) r = []"
    and "r' \<noteq> r \<Longrightarrow> stories.listing (fold gm_delete (map story_ID (stories.listing m r)) m) r' = stories.listing m r'"
proof -
  show "stories.listing (fold gm_delete (map story_ID (stories.listing m r)) m) r = []"
    by (auto simp: listing_delete_stories [OF ok] filter_empty_conv)
  assume ne: "r' \<noteq> r"
  have "story_ID st \<notin> set (map story_ID (stories.listing m r))" if "st \<in> set (stories.listing m r')" for st
    using that ne stories.listing_set [OF ok] by (auto simp: stories.listing_set [OF ok])
  then show "stories.listing (fold gm_delete (map story_ID (stories.listing m r)) m) r' = stories.listing m r'"
    by (simp add: listing_delete_stories [OF ok] filter_id_conv)
qed

text \<open>
  A deletion removes the running order, all its stories and every item of those stories, and
  nothing else: the other running orders, their listings and the items of other stories are what
  they were.
\<close>

theorem delete_running_order_removes:
  assumes ok: "svc_ok s" and id: "TrimSpace roID \<noteq> []"
    and L: "MemoryStory_ListByRunningOrder (storyRepo s) roID = Inr L"
  shows "\<exists>s'. DeleteRunningOrder roID s = (Inr (), s') \<and>
      gm_get (runningOrderRepo s') = (gm_get (runningOrderRepo s))(roID := None) \<and>
      MemoryStory_ListByRunningOrder (storyRepo s') roID = Inr [] \<and>
      without_stories (story_ID ` set L) (itemRepo s) (itemRepo s') \<and>
      (\<forall>r. r = roID \<or> MemoryStory_ListByRunningOrder (storyRepo s') r = MemoryStory_ListByRunningOrder (storyRepo s) r)"
proof -
  have L': "L = stories.listing (storyRepo s) roID" using L by (simp add: stories.list_listing)
  obtain m where m: "op_foreach delete_story_items L s =
      (Inr (), s\<lparr>storyRepo := fold gm_delete (map story_ID L) (storyRepo s), itemRepo := m\<rparr>)"
    "without_stories (story_ID ` set L) (itemRepo s) m"
    using delete_stories_loop [OF ok] by blast
  note own = listing_without_own(1) [OF svc_ok_repoD(2) [OF ok], where r = roID, folded L']
    listing_without_own(2) [OF svc_ok_repoD(2) [OF ok], where r = roID, folded L']
  show ?thesis
    using id m(2) own(2)
    by (auto simp: DeleteRunningOrder_def op_bind_def op_wrap_def [of _ "story_List _"] story_List_app L' [symmetric]
        m(1) op_wrap_def [of _ "ro_Delete _"] ro_Delete_app publishROUpdate_def publish_app gomap_simps
        stories.list_listing own(1) fun_eq_iff)
qed

theorem delete_running_order_removes_witness:
  "\<exists>s'. DeleteRunningOrder ''R'' example_service = (Inr (), s') \<and>
      gm_get (runningOrderRepo s') ''R'' = None \<and> MemoryStory_ListByRunningOrder (storyRepo s') ''R'' = Inr []"
proof -
  have "TrimSpace ''R'' \<noteq> []" by code_simp
  from delete_running_order_removes [OF example_service_ok this example_listing] show ?thesis by auto
qed

section \<open>Replacing a running order\<close>

text \<open>The stories of a message as they are stored.\<close>

definition message_stories :: "go_env \<Rightarrow> string \<Rightarrow> nat \<Rightarrow> StoryInfo list \<Rightarrow> Story list" where
  "message_stories e roID n infos = map (\<lambda>(i, info). created_story e roID i info) (enumerate n infos)"

lemma message_stories_simps [simp]:
  "message_stories e roID n [] = []"
  "message_stories e roID n (info # infos) = created_story e roID n info # message_stories e roID (Suc n) infos"
  by (simp_all add: message_stories_def)

lemma created_story_simps [simp]:
  "story_ID (created_story e roID i info) = storyPersistenceID roID (si_ID info)"
  "story_RunningOrderID (created_story e roID i info) = roID" "story_Order (created_story e roID i info) = int i + 1"
  by (simp_all add: created_story_def)

lemma message_stories_ids:
  "map story_ID (message_stories e roID n infos) = map (\<lambda>i. storyPersistenceID roID (si_ID i)) infos"
  by (induction infos arbitrary: n) simp_all

lemma message_stories_orders:
  "sorted (map story_Order (message_stories e roID n infos)) \<and> distinct (map story_Order (message_stories e roID n infos)) \<and>
   (\<forall>v \<in> set (message_stories e roID n infos). int n < story_Order v \<and> story_RunningOrderID v = roID)"
  by (induction infos arbitrary: n) fastforce+

lemma replacement_loop:
  assumes "svc_ok s" "\<forall>info \<in> set infos. gm_get (storyRepo s) (storyPersistenceID roID (si_ID info)) = None"
    "distinct (map si_ID infos)"
  shows "\<exists>m. op_foreach_from n (replacementStory e roID) infos s =
     (Inr (), s\<lparr>storyRepo := put_all story_ID (message_stories e roID n infos) (storyRepo s), itemRepo := m\<rparr>)"
  using assms
proof (induction infos arbitrary: n s)
  case Nil
  then show ?case by (auto intro!: exI [of _ "itemRepo s"])
next
  case (Cons info infos)
  let ?st = "created_story e roID n info"
  let ?s1 = "s\<lparr>storyRepo := gm_set (story_ID ?st) ?st (storyRepo s)\<rparr>"
  have c: "story_Create ?st s = (Inr (), ?s1)"
    using story_Create_new [of s ?st] Cons.prems(2) by simp
  have "svc_ok ?s1" using Cons.prems(1) repo_ok_set [of story_ID "storyRepo s" ?st] by (simp add: svc_ok_def)
  then obtain m where m: "storeItems e (storyPersistenceID roID (si_ID info)) (si_Items info) ?s1 = (Inr (), ?s1\<lparr>itemRepo := m\<rparr>)"
    "repo_ok item_ID m" using storeItems_run by blast
  let ?s2 = "?s1\<lparr>itemRepo := m\<rparr>"
  have step: "replacementStory e roID n info s = (Inr (), ?s2)"
    using c m(1) by (simp add: replacementStory_def op_bind_def op_wrap_def)
  have "svc_ok ?s2" using \<open>svc_ok ?s1\<close> m(2) by (simp add: svc_ok_def)
  moreover have "\<forall>i \<in> set infos. gm_get (storyRepo ?s2) (storyPersistenceID roID (si_ID i)) = None"
    using Cons.prems(2,3) by (auto simp: gomap_simps)
  ultimately obtain m' where "op_foreach_from (Suc n) (replacementStory e roID) infos ?s2 =
      (Inr (), ?s2\<lparr>storyRepo := put_all story_ID (message_stories e roID (Suc n) infos) (storyRepo ?s2), itemRepo := m'\<rparr>)"
    using Cons.IH [of ?s2 "Suc n"] Cons.prems(3) by auto
  then show ?case by (auto simp: op_bind_def step)
qed

lemma listing_all_new:
  assumes ok: "repo_ok story_ID m" and none: "stories.listing m roID = []"
    and vs: "sorted (map story_Order vs)" "distinct (map story_Order vs)" "distinct (map story_ID vs)"
      "\<forall>v \<in> set vs. story_RunningOrderID v = roID"
  shows "stories.listing (put_all story_ID vs m) roID = vs"
proof (rule stories.listing_unique)
  show "repo_ok story_ID (put_all story_ID vs m)" using ok by simp
  show "sorted (map (\<lambda>v. (story_Order v, story_ID v)) vs)" using vs(1,2) by (rule sorted_pairs)
  show "distinct (map story_ID vs)" by fact
  have "\<not> (gm_get m (story_ID v) = Some v \<and> story_RunningOrderID v = roID)" for v
    using stories.listing_set [OF ok, of roID] none by auto
  then show "set vs = {v. gm_get (put_all story_ID vs m) (story_ID v) = Some v \<and> story_RunningOrderID v = roID}"
    using vs(3,4) by (auto simp: gm_get_put_all)
qed

lemma replaceRO_run:
  assumes "svc_ok s"
  shows "\<exists>rm. replaceRO e m s = (Inr (), s\<lparr>runningOrderRepo := rm\<rparr>) \<and> gm_get rm (ror_ID m) \<noteq> None"
proof (cases "gm_get (runningOrderRepo s) (ror_ID m)")
  case None
  then show ?thesis
    by (simp add: replaceRO_def op_bind_def op_try_app ro_Get_missing op_wrap_def ro_Create_def
        MemoryRunningOrder_Create_def gomap_simps) (rule exI, rule conjI, rule refl, simp add: gomap_simps)
next
  case (Some ro)
  then have "ro_ID ro = ror_ID m" using repo_ok_keyD [OF svc_ok_repoD(1) [OF assms]] by blast
  with Some show ?thesis
    by (simp add: replaceRO_def op_bind_def op_try_app ro_Get_held op_wrap_def ro_Update_def
        MemoryRunningOrder_Update_def gomap_simps) (rule exI, rule conjI, rule refl, simp add: gomap_simps)
qed

text \<open>
  C28. A valid \<open>roReplace\<close> with distinct storyIDs leaves exactly the stories of the message in the
  running order, in the order of the message and numbered from 1; none of the earlier stories is
  left. The only thing asked of the store is that no story of another running order sits under
  one of the new keys.
\<close>

theorem replace_running_order_exact:
  assumes ok: "svc_ok s" and valid: "validateRunningOrder (ror_ID m) (ror_Slug m) (ror_Stories m) = Inr ()"
    and dist: "distinct (map si_ID (ror_Stories m))"
    and own: "\<forall>info \<in> set (ror_Stories m). \<forall>st. gm_get (storyRepo s) (storyPersistenceID (ror_ID m) (si_ID info)) = Some st \<longrightarrow>
       story_RunningOrderID st = ror_ID m"
  shows "\<exists>s'. ReplaceRunningOrder e m s = (Inr (), s') \<and>
      MemoryStory_ListByRunningOrder (storyRepo s') (ror_ID m) = Inr (message_stories e (ror_ID m) 0 (ror_Stories m)) \<and>
      gm_get (runningOrderRepo s') (ror_ID m) \<noteq> None"
proof -
  let ?r = "ror_ID m" and ?infos = "ror_Stories m"
  let ?L = "stories.listing (storyRepo s) ?r"
  obtain im where im: "op_foreach delete_story_items ?L s =
      (Inr (), s\<lparr>storyRepo := fold gm_delete (map story_ID ?L) (storyRepo s), itemRepo := im\<rparr>)" "repo_ok item_ID im"
    using delete_stories_loop [OF ok] by blast
  let ?s1 = "s\<lparr>storyRepo := fold gm_delete (map story_ID ?L) (storyRepo s), itemRepo := im\<rparr>"
  have ok1: "svc_ok ?s1" using ok im(2) by (simp add: svc_ok_def)
  obtain rm where rm: "replaceRO e m ?s1 = (Inr (), ?s1\<lparr>runningOrderRepo := rm\<rparr>)" "gm_get rm ?r \<noteq> None"
    using replaceRO_run [OF ok1] by blast
  let ?s2 = "?s1\<lparr>runningOrderRepo := rm\<rparr>"
  have "keeps_ok (replaceRO e m)" unfolding replaceRO_def by (intro keeps_ok_intros)
  then have "svc_ok ?s2" using keeps_okD [OF _ ok1] rm(1) by fastforce
  moreover have fresh: "\<forall>info \<in> set ?infos. gm_get (storyRepo ?s2) (storyPersistenceID ?r (si_ID info)) = None"
  proof
    fix info assume info: "info \<in> set ?infos"
    show "gm_get (storyRepo ?s2) (storyPersistenceID ?r (si_ID info)) = None"
    proof (cases "gm_get (storyRepo s) (storyPersistenceID ?r (si_ID info))")
      case (Some st)
      then have "st \<in> set ?L" "story_ID st = storyPersistenceID ?r (si_ID info)"
        using own info svc_ok_repoD(2) [OF ok] by (auto simp: stories.listing_set repo_ok_keyD)
      then show ?thesis by (auto simp: gomap_simps image_iff)
    qed (simp add: gomap_simps)
  qed
  ultimately obtain m' where m': "op_foreach_from 0 (replacementStory e ?r) ?infos ?s2 =
     (Inr (), ?s2\<lparr>storyRepo := put_all story_ID (message_stories e ?r 0 ?infos) (storyRepo ?s2), itemRepo := m'\<rparr>)"
    using replacement_loop [OF _ _ dist] by blast
  have lst: "stories.listing (put_all story_ID (message_stories e ?r 0 ?infos) (storyRepo ?s2)) ?r = message_stories e ?r 0 ?infos"
    using message_stories_orders [of e ?r 0 ?infos] svc_ok_repoD(2) [OF ok1] dist
      listing_without_own(1) [OF svc_ok_repoD(2) [OF ok], of ?r]
    by (intro listing_all_new) (auto simp: message_stories_ids distinct_map inj_on_def)
  show ?thesis
    using rm(2) lst
    by (simp add: ReplaceRunningOrder_def op_bind_def op_check_def valid op_wrap_def [of _ "story_List _"] story_List_app
        im(1) rm(1) m' [simplified] publishROUpdate_def publish_app stories.list_listing)
qed

theorem replace_running_order_exact_witness:
  "\<exists>s'. ReplaceRunningOrder example_env \<lparr>ror_RequestID = [], ror_Timestamp = [], ror_Source = [], ror_ID = ''R'',
       ror_Slug = ''Ten'', ror_Channel = [], ror_EdStart = [], ror_EdDur = [], ror_Trigger = [], ror_MacroIn = [],
       ror_MacroOut = [], ror_MosExternalMetadata = [],
       ror_Stories = [zero_StoryInfo\<lparr>si_ID := ''C''\<rparr>, zero_StoryInfo\<lparr>si_ID := ''X''\<rparr>]\<rparr> example_service = (Inr (), s') \<and>
      map_sum id (map story_ID) (MemoryStory_ListByRunningOrder (storyRepo s') ''R'') =
        Inr (map (storyPersistenceID ''R'') [''C'', ''X''])"
proof -
  let ?infos = "[zero_StoryInfo\<lparr>si_ID := ''C''\<rparr>, zero_StoryInfo\<lparr>si_ID := ''X''\<rparr>]"
  let ?m = "\<lparr>ror_RequestID = [], ror_Timestamp = [], ror_Source = [], ror_ID = ''R'',
       ror_Slug = ''Ten'', ror_Channel = [], ror_EdStart = [], ror_EdDur = [], ror_Trigger = [], ror_MacroIn = [],
       ror_MacroOut = [], ror_MosExternalMetadata = [], ror_Stories = ?infos\<rparr>"
  have v: "validateRunningOrder (ror_ID ?m) (ror_Slug ?m) (ror_Stories ?m) = Inr ()" by code_simp
  have d: "distinct (map si_ID (ror_Stories ?m))" by simp
  have "gm_get (storyRepo example_service) (storyPersistenceID ''R'' ''C'') = Some (snd (example_story ''C'' 3))"
    "story_RunningOrderID (snd (example_story ''C'' 3)) = ''R''"
    "gm_get (storyRepo example_service) (storyPersistenceID ''R'' ''X'') = None" by code_simp+
  then have o: "\<forall>info \<in> set (ror_Stories ?m). \<forall>st. gm_get (storyRepo example_service)
      (storyPersistenceID (ror_ID ?m) (si_ID info)) = Some st \<longrightarrow> story_RunningOrderID st = ror_ID ?m" by auto
  from replace_running_order_exact [OF example_service_ok v d o] obtain s' where
    s': "ReplaceRunningOrder example_env ?m example_service = (Inr (), s')"
    "MemoryStory_ListByRunningOrder (storyRepo s') (ror_ID ?m) = Inr (message_stories example_env (ror_ID ?m) 0 (ror_Stories ?m))"
    by blast
  then show ?thesis by (intro exI [of _ s']) (simp add: message_stories_ids)
qed

end
