(* ===== verification/OnAir.thy ===== *)
theory OnAir
  imports Replacing
begin

text \<open>
  On-air tracking from status reports (\<open>src/internal/service/onair.go\<close>) and MOS times
  (\<open>src/internal/xml/mostime.go\<close>).
\<close>

section \<open>Times\<close>

definition mosTimeLayouts :: "string list" where
  "mosTimeLayouts = [''2006-01-02T15:04:05.999999999Z07:00'', ''2006-01-02T15:04:05Z07:00'',
     ''2006-01-02T15:04:05.999999999'', ''2006-01-02T15:04:05'', ''2006-01-02 15:04:05'', ''2006-01-02'']"

text \<open>\<open>strings.Replace(s, old, new, 1)\<close> for one-byte texts.\<close>

fun replace_first :: "char \<Rightarrow> char \<Rightarrow> string \<Rightarrow> string" where
  "replace_first a b [] = []"
| "replace_first a b (c # cs) = (if c = a then b # cs else c # replace_first a b cs)"

fun first_layout :: "go_env \<Rightarrow> string list \<Rightarrow> string \<Rightarrow> time option" where
  "first_layout e [] v = None"
| "first_layout e (l # ls) v = (case time_Parse e l v of Some t \<Rightarrow> Some t | None \<Rightarrow> first_layout e ls v)"

definition ParseMOSTime :: "go_env \<Rightarrow> string \<Rightarrow> time result" where
  "ParseMOSTime e value =
     (let txt = TrimSpace value in
      if txt = [] then Inl (Errorf ''empty MOS time'')
      else case first_layout e mosTimeLayouts (replace_first CHR '','' CHR ''.'' txt) of
        Some t \<Rightarrow> Inr t
      | None \<Rightarrow> Inl (Errorf (''invalid MOS time '' @ quote e value @ '': want YYYY-MM-DDThh:mm:ss[,ddd][Z]'')))"

definition FormatMOSTime :: "go_env \<Rightarrow> time \<Rightarrow> string" where
  "FormatMOSTime e t = replace_first CHR ''.'' CHR '','' (time_Format e ''2006-01-02T15:04:05.000Z07:00'' t)"

definition statusTime :: "go_env \<Rightarrow> string \<Rightarrow> time option" where
  "statusTime e raw0 =
     (let raw = TrimSpace raw0 in
      if raw = [] then None else case ParseMOSTime e raw of Inl _ \<Rightarrow> None | Inr t \<Rightarrow> Some t)"

section \<open>Status reports\<close>

definition statusPlay :: string where "statusPlay = ''PLAY''"
definition statusStop :: string where "statusStop = ''STOP''"

definition on_air_update :: "go_env \<Rightarrow> string \<Rightarrow> string \<Rightarrow> string \<Rightarrow> RunningOrder \<Rightarrow> RunningOrder" where
  "on_air_update e status when storyID ro =
     (if status = statusPlay then
        ro\<lparr>ro_OnAirStoryID := storyID,
           ro_OnAirSince := Some (case statusTime e when of Some t \<Rightarrow> t | None \<Rightarrow> now e)\<rparr>
      else if status = statusStop \<and> ro_OnAirStoryID ro = storyID then
        ro\<lparr>ro_OnAirStoryID := [], ro_OnAirSince := None\<rparr>
      else ro)"

definition report_status :: "go_env \<Rightarrow> ROElementStat \<Rightarrow> string" where
  "report_status e stat = ToUpper e (TrimSpace (res_Status stat))"

definition applyStoryStatus :: "go_env \<Rightarrow> ROElementStat \<Rightarrow> unit svc_op" where
  "applyStoryStatus e stat =
     op_bind (resolveStory (res_ROID stat) (res_StoryID stat)) (\<lambda>story.
     let status = report_status e stat in
     op_bind (story_Update (story\<lparr>story_Status := status, story_UpdatedAt := now e,
         story_Metadata := set_nonempty ''lastStatusTime'' (res_Time stat) (story_Metadata story)\<rparr>)) (\<lambda>_.
     op_bind (ro_Get (res_ROID stat)) (\<lambda>ro.
     op_bind (ro_Update ((on_air_update e status (res_Time stat) (story_ID story) ro)\<lparr>ro_UpdatedAt := now e\<rparr>)) (\<lambda>_.
     publish StoryModified (PString (story_ID story))))))"

definition applyROStatus :: "go_env \<Rightarrow> ROElementStat \<Rightarrow> unit svc_op" where
  "applyROStatus e stat =
     op_bind (ro_Get (res_ROID stat)) (\<lambda>ro.
     ro_Update (ro\<lparr>ro_Status := report_status e stat, ro_UpdatedAt := now e,
       ro_Metadata := set_nonempty ''lastStatusTime'' (res_Time stat) (ro_Metadata ro)\<rparr>))"

definition applyItemStatus :: "go_env \<Rightarrow> ROElementStat \<Rightarrow> unit svc_op" where
  "applyItemStatus e stat =
     op_bind (storyKeyFor (res_ROID stat) (res_StoryID stat)) (\<lambda>storyKey.
     op_bind (resolveItem storyKey (res_ItemID stat)) (\<lambda>item.
     op_bind (item_Update (item\<lparr>item_Status := report_status e stat, item_UpdatedAt := now e,
         item_Metadata := set_nonempty ''itemChannel'' (res_ItemChannel stat)
           (set_nonempty ''lastStatusTime'' (res_Time stat) (item_Metadata item))\<rparr>)) (\<lambda>_.
     publish ItemChanged (PString (item_ID item)))))"

definition status_level :: "go_env \<Rightarrow> ROElementStat \<Rightarrow> string" where
  "status_level e stat =
     (let level = ToUpper e (TrimSpace (res_Element stat)) in
      if level \<noteq> [] then level
      else if TrimSpace (res_ItemID stat) \<noteq> [] then ''ITEM''
      else if TrimSpace (res_StoryID stat) \<noteq> [] then ''STORY''
      else ''RO'')"

definition ProcessElementStatus :: "go_env \<Rightarrow> ROElementStat \<Rightarrow> unit svc_op" where
  "ProcessElementStatus e stat =
     (if status_level e stat = ''ITEM'' then applyItemStatus e stat
      else if status_level e stat = ''STORY'' then applyStoryStatus e stat
      else applyROStatus e stat)"

definition OnAirStory :: "string \<Rightarrow> (Story \<times> time option) option svc_op" where
  "OnAirStory roID =
     op_bind (ro_Get roID) (\<lambda>ro.
     if ro_OnAirStoryID ro = [] then op_return None
     else op_bind (story_Get (ro_OnAirStoryID ro)) (\<lambda>story. op_return (Some (story, ro_OnAirSince ro))))"

lemma keeps_ok_status [keeps_ok_intros]: "keeps_ok (ProcessElementStatus e stat)"
  unfolding ProcessElementStatus_def applyItemStatus_def applyStoryStatus_def applyROStatus_def Let_def
  by (intro keeps_ok_intros)+

section \<open>What a story report does\<close>

lemma on_air_update_id [simp]: "ro_ID (on_air_update e st w k ro) = ro_ID ro"
  by (simp add: on_air_update_def)

lemma applyStoryStatus_run:
  assumes ok: "svc_ok s" and story: "resolveStory (res_ROID stat) (res_StoryID stat) s = (Inr story, s)"
    and ro: "gm_get (runningOrderRepo s) (res_ROID stat) = Some ro"
  shows "\<exists>s'. applyStoryStatus e stat s = (Inr (), s') \<and>
     runningOrderRepo s' = gm_set (res_ROID stat)
       ((on_air_update e (report_status e stat) (res_Time stat) (story_ID story) ro)\<lparr>ro_UpdatedAt := now e\<rparr>)
       (runningOrderRepo s) \<and>
     storyRepo s' = gm_set (story_ID story) (story\<lparr>story_Status := report_status e stat, story_UpdatedAt := now e,
         story_Metadata := set_nonempty ''lastStatusTime'' (res_Time stat) (story_Metadata story)\<rparr>) (storyRepo s) \<and>
     itemRepo s' = itemRepo s"
proof -
  let ?st = "story\<lparr>story_Status := report_status e stat, story_UpdatedAt := now e,
         story_Metadata := set_nonempty ''lastStatusTime'' (res_Time stat) (story_Metadata story)\<rparr>"
  have h: "gm_get (storyRepo s) (story_ID story) = Some story" using resolveStory_Inr [OF ok story] by simp
  have id: "ro_ID ro = res_ROID stat" using repo_ok_keyD [OF svc_ok_repoD(1) [OF ok] ro] .
  have u: "story_Update ?st s = (Inr (), s\<lparr>storyRepo := gm_set (story_ID story) ?st (storyRepo s)\<rparr>)"
    using h by (simp add: story_Update_held)
  show ?thesis
    using id ro
    by (simp add: applyStoryStatus_def op_bind_def story Let_def u ro_Get_held ro_Update_held publish_app)
qed

definition on_air :: "MOSService \<Rightarrow> string \<Rightarrow> string option" where
  "on_air s roID = map_option ro_OnAirStoryID (gm_get (runningOrderRepo s) roID)"

text \<open>
  The on-air pointer follows the reports: a PLAY sets it to the reported story, a STOP clears
  it only when it names that story, every other status leaves it alone, and reports about one
  running order never move the pointer of another.
\<close>

theorem story_report_moves_pointer:
  assumes ok: "svc_ok s" and story: "resolveStory (res_ROID stat) (res_StoryID stat) s = (Inr story, s)"
    and ro: "gm_get (runningOrderRepo s) (res_ROID stat) = Some ro"
  shows "\<exists>s'. applyStoryStatus e stat s = (Inr (), s') \<and>
     on_air s' (res_ROID stat) = Some
       (if report_status e stat = statusPlay then story_ID story
        else if report_status e stat = statusStop \<and> ro_OnAirStoryID ro = story_ID story then []
        else ro_OnAirStoryID ro) \<and>
     (\<forall>r. r = res_ROID stat \<or> on_air s' r = on_air s r)"
proof -
  obtain s' where "applyStoryStatus e stat s = (Inr (), s')"
    "runningOrderRepo s' = gm_set (res_ROID stat)
       ((on_air_update e (report_status e stat) (res_Time stat) (story_ID story) ro)\<lparr>ro_UpdatedAt := now e\<rparr>)
       (runningOrderRepo s)"
    using applyStoryStatus_run [OF assms] by blast
  then show ?thesis
    by (intro exI [of _ s']) (auto simp: on_air_def gomap_simps on_air_update_def statusPlay_def statusStop_def)
qed

definition example_report :: "string \<Rightarrow> string \<Rightarrow> ROElementStat" where
  "example_report w status = \<lparr>res_Element = ''STORY'', res_ROID = ''R'', res_StoryID = w, res_ItemID = [],
     res_ObjID = [], res_ItemChannel = [], res_Status = status, res_Time = []\<rparr>"

lemma example_ro: "gm_get (runningOrderRepo example_service) ''R'' =
    Some (zero_RunningOrder\<lparr>ro_ID := ''R'', ro_Slug := ''Six'', ro_Status := StatusPending, ro_Version := 1\<rparr>)"
  by (simp add: example_service_def NewMOSService_def)

theorem story_report_moves_pointer_witness:
  "\<exists>s'. applyStoryStatus example_env (example_report ''C'' '' play '') example_service = (Inr (), s') \<and>
     on_air s' ''R'' = Some (storyPersistenceID ''R'' ''C'')"
proof -
  let ?r = "example_report ''C'' '' play ''"
  have r: "res_ROID ?r = ''R''" "res_StoryID ?r = ''C''" by (simp_all add: example_report_def)
  have st: "report_status example_env ?r = statusPlay" "story_ID (snd (example_story ''C'' 3)) = storyPersistenceID ''R'' ''C''"
    by code_simp+
  show ?thesis
    using story_report_moves_pointer [of example_service ?r, unfolded r, OF example_service_ok example_resolves(2) example_ro,
      of example_env] st by auto
qed

section \<open>The pair of a move\<close>

text \<open>Two reports one after the other.\<close>

definition two_reports :: "go_env \<Rightarrow> ROElementStat \<Rightarrow> ROElementStat \<Rightarrow> unit svc_op" where
  "two_reports e a b = op_bind (applyStoryStatus e a) (\<lambda>_. applyStoryStatus e b)"

lemma story_report_composite:
  assumes ok: "svc_ok s" and w: "res_StoryID stat \<noteq> []"
    and st: "gm_get (storyRepo s) (storyPersistenceID (res_ROID stat) (res_StoryID stat)) = Some story"
    and ro: "gm_get (runningOrderRepo s) (res_ROID stat) = Some ro"
  shows "\<exists>s' ro'. applyStoryStatus e stat s = (Inr (), s') \<and> svc_ok s' \<and>
     gm_get (runningOrderRepo s') (res_ROID stat) = Some ro' \<and>
     ro_OnAirStoryID ro' = ro_OnAirStoryID (on_air_update e (report_status e stat) (res_Time stat)
        (storyPersistenceID (res_ROID stat) (res_StoryID stat)) ro) \<and>
     (\<forall>k. gm_get (storyRepo s') k = None \<longleftrightarrow> gm_get (storyRepo s) k = None)"
proof -
  have r: "resolveStory (res_ROID stat) (res_StoryID stat) s = (Inr story, s)"
    using w st by (simp add: resolveStory_def2)
  have id: "story_ID story = storyPersistenceID (res_ROID stat) (res_StoryID stat)"
    using repo_ok_keyD [OF svc_ok_repoD(2) [OF ok] st] .
  obtain s' where s': "applyStoryStatus e stat s = (Inr (), s')"
    "runningOrderRepo s' = gm_set (res_ROID stat)
       ((on_air_update e (report_status e stat) (res_Time stat) (story_ID story) ro)\<lparr>ro_UpdatedAt := now e\<rparr>)
       (runningOrderRepo s)"
    "storyRepo s' = gm_set (story_ID story) (story\<lparr>story_Status := report_status e stat, story_UpdatedAt := now e,
         story_Metadata := set_nonempty ''lastStatusTime'' (res_Time stat) (story_Metadata story)\<rparr>) (storyRepo s)"
    using applyStoryStatus_run [OF ok r ro] by blast
  have "keeps_ok (applyStoryStatus e stat)"
    unfolding applyStoryStatus_def Let_def by (intro keeps_ok_intros)
  then have "svc_ok s'" using keeps_okD [OF _ ok] s'(1) by fastforce
  with s' st id show ?thesis
    by (intro exI [of _ s'] exI [of _ "(on_air_update e (report_status e stat) (res_Time stat)
        (story_ID story) ro)\<lparr>ro_UpdatedAt := now e\<rparr>"] conjI) (auto simp: gomap_simps)
qed



end
