(* ===== verification/StoryCues.thy ===== *)
theory StoryCues
  imports Messages
begin

text \<open>
  Instructions carried as text in a story body (\<open>src/internal/xml/story_cues.go\<close>): bracketed
  commands, braced prompter markers, their grammar and their paragraph.
\<close>

definition CueProduction :: string where "CueProduction = ''PRODUCTION''"
definition CueSerialCG :: string where "CueSerialCG = ''SERIAL_CG''"
definition CuePrompter :: string where "CuePrompter = ''PROMPTER''"

record BodyCue =
  bc_Kind :: string
  bc_Raw :: string
  bc_Verb :: string
  bc_Target :: string
  bc_Fields :: "string list"
  bc_Params :: "string gomap"
  bc_Paragraph :: int

definition zero_BodyCue :: BodyCue where
  "zero_BodyCue = \<lparr>bc_Kind = [], bc_Raw = [], bc_Verb = [], bc_Target = [], bc_Fields = [], bc_Params = [],
     bc_Paragraph = 0\<rparr>"

section \<open>The command grammar\<close>

definition newline :: char where "newline = CHR 0x0A"
definition backslash :: char where "backslash = CHR 0x5C"

fun parse_params :: "go_env \<Rightarrow> string list \<Rightarrow> string gomap \<Rightarrow> string gomap" where
  "parse_params e [] ps = ps"
| "parse_params e (line # lines) ps =
     (case cut_char CHR '':'' (TrimSpace line) of
        (key, value, ok) \<Rightarrow>
          let k = ToUpper e (TrimSpace key) in
          if \<not> ok \<or> k = [] then parse_params e lines ps
          else parse_params e lines (gm_set k (TrimSpace value) ps))"

definition parseCommand :: "go_env \<Rightarrow> BodyCue \<Rightarrow> BodyCue" where
  "parseCommand e c =
     (let lines = split_char newline (bc_Raw c);
          head = TrimSpace (hd lines);
          c1 = c\<lparr>bc_Params := parse_params e (tl lines) (bc_Params c)\<rparr>;
          (averb, arest, aok) = cut_char CHR '':'' head
      in if aok \<and> EqualFold_word (TrimSpace averb) ''AUTOMATION'' then
           (let parts = split_char backslash arest; target = TrimSpace (hd parts) in
            c1\<lparr>bc_Verb := ''AUTOMATION'', bc_Target := target, bc_Fields := tl parts,
               bc_Kind := (if EqualFold_word target ''CG'' then CueSerialCG else CueProduction)\<rparr>)
         else
           (let (verb, rest0, _) = cut_char CHR '' '' head; rest = TrimSpace rest0;
                c2 = c1\<lparr>bc_Verb := ToUpper e (TrimSpace verb)\<rparr>
            in if backslash \<in> set rest then
                 (let parts = split_char backslash rest in
                  c2\<lparr>bc_Target := TrimSpace (hd parts), bc_Fields := tl parts, bc_Kind := CueSerialCG\<rparr>)
               else c2\<lparr>bc_Target := rest, bc_Kind := CueProduction\<rparr>))"

section \<open>Scanning\<close>

text \<open>\<open>strings.Trim(s, "*")\<close>\<close>

definition trim_stars :: "string \<Rightarrow> string" where
  "trim_stars s = rev (dropWhile (\<lambda>c. c = CHR ''*'') (rev (dropWhile (\<lambda>c. c = CHR ''*'') s)))"

definition scan_closer :: "char \<Rightarrow> (char \<times> bool) option" where
  "scan_closer c = (if c = CHR ''['' then Some (CHR '']'', False)
     else if c = CHR ''{'' then Some (CHR ''}'', True) else None)"

definition scanned_cue :: "go_env \<Rightarrow> bool \<Rightarrow> string \<Rightarrow> BodyCue" where
  "scanned_cue e prompter raw =
     (let c = zero_BodyCue\<lparr>bc_Raw := raw\<rparr> in
      if prompter then c\<lparr>bc_Kind := CuePrompter, bc_Target := TrimSpace (trim_stars (TrimSpace raw))\<rparr>
      else parseCommand e c)"

text \<open>\<open>scan_from e i text\<close> lists what \<open>scanBodyCues\<close> emits for the text from offset \<open>i\<close> on: start, end, cue.\<close>

function scan_from :: "go_env \<Rightarrow> nat \<Rightarrow> string \<Rightarrow> (nat \<times> nat \<times> BodyCue) list" where
  "scan_from e i [] = []"
| "scan_from e i (c # cs) =
     (case scan_closer c of
        None \<Rightarrow> scan_from e (Suc i) cs
      | Some (closer, prompter) \<Rightarrow>
          if closer \<notin> set cs then scan_from e (Suc i) cs
          else let rel = length (takeWhile (\<lambda>x. x \<noteq> closer) cs) in
               (i, i + rel + 2, scanned_cue e prompter (take rel cs)) # scan_from e (i + rel + 2) (drop (Suc rel) cs))"
  by pat_completeness auto
termination by (relation "measure (\<lambda>(e, i, t). length t)") auto

definition scanBodyCues :: "go_env \<Rightarrow> string \<Rightarrow> (nat \<times> nat \<times> BodyCue) list" where
  "scanBodyCues e text = scan_from e 0 text"

section \<open>The cues of a body\<close>

fun paragraph_starts :: "nat \<Rightarrow> string list \<Rightarrow> nat list" where
  "paragraph_starts n [] = []"
| "paragraph_starts n (p # ps) = n # paragraph_starts (n + length p + 1) ps"

fun paragraph_at :: "nat \<Rightarrow> nat \<Rightarrow> nat \<Rightarrow> nat list \<Rightarrow> nat" where
  "paragraph_at offset i idx [] = idx"
| "paragraph_at offset i idx (start # starts) =
     (if start > offset then idx else paragraph_at offset (Suc i) i starts)"

definition Cues :: "go_env \<Rightarrow> StoryBody \<Rightarrow> BodyCue list" where
  "Cues e b =
     (let contents = map sp_Content (sb_Paragraphs b);
          text = join_strings [newline] contents;
          starts = paragraph_starts 0 contents
      in if sb_Paragraphs b = [] then []
         else map (\<lambda>(start, _, cue). cue\<lparr>bc_Paragraph := int (paragraph_at start 0 0 starts)\<rparr>) (scanBodyCues e text))"

section \<open>What the scan emits\<close>

lemma parseCommand_raw [simp]: "bc_Raw (parseCommand e c) = bc_Raw c"
  by (simp add: parseCommand_def Let_def split: prod.splits)

lemma scanned_cue_raw [simp]: "bc_Raw (scanned_cue e p raw) = raw"
  by (simp add: scanned_cue_def Let_def)

text \<open>A piece of the text: it opens and closes with a matching pair and the closer occurs nowhere inside.\<close>

definition is_cue_at :: "string \<Rightarrow> nat \<Rightarrow> nat \<Rightarrow> string \<Rightarrow> bool" where
  "is_cue_at text start end raw \<longleftrightarrow> (\<exists>opener closer.
     (opener, closer) \<in> {(CHR ''['', CHR '']''), (CHR ''{'', CHR ''}'')} \<and>
     closer \<notin> set raw \<and> end \<le> length text \<and> start \<le> end \<and>
     take (end - start) (drop start text) = [opener] @ raw @ [closer])"

lemma scan_closer_pair: "scan_closer c = Some (cl, p) \<Longrightarrow> (c, cl) \<in> {(CHR ''['', CHR '']''), (CHR ''{'', CHR ''}'')}"
  by (auto simp: scan_closer_def split: if_splits)

lemma split_at_closer:
  assumes "cl \<in> set cs"
  defines "rel \<equiv> length (takeWhile (\<lambda>x. x \<noteq> cl) cs)"
  shows "cs = take rel cs @ cl # drop (Suc rel) cs" "cl \<notin> set (take rel cs)" "rel < length cs"
proof -
  have d: "dropWhile (\<lambda>x. x \<noteq> cl) cs \<noteq> []" using assms(1) by auto
  have t: "take rel cs = takeWhile (\<lambda>x. x \<noteq> cl) cs" unfolding rel_def by (rule takeWhile_eq_take [symmetric])
  have dr: "drop rel cs = dropWhile (\<lambda>x. x \<noteq> cl) cs" unfolding rel_def by (rule dropWhile_eq_drop [symmetric])
  have "hd (dropWhile (\<lambda>x. x \<noteq> cl) cs) = cl" using hd_dropWhile [OF d] by simp
  then obtain r where r: "drop rel cs = cl # r" using d dr by (cases "dropWhile (\<lambda>x. x \<noteq> cl) cs") auto
  then show "rel < length cs" by (metis drop_all list.distinct(1) not_le)
  moreover have "drop (Suc rel) cs = r" using r by (metis drop_Suc tl_drop list.sel(3))
  ultimately show "cs = take rel cs @ cl # drop (Suc rel) cs" using r by (metis append_take_drop_id)
  show "cl \<notin> set (take rel cs)" unfolding t by (auto dest: set_takeWhileD)
qed

lemma scan_from_sound:
  "i \<le> length text \<Longrightarrow> rest = drop i text \<Longrightarrow>
   (s, n, cue) \<in> set (scan_from e i rest) \<Longrightarrow> i \<le> s \<and> is_cue_at text s n (bc_Raw cue)"
proof (induction e i rest rule: scan_from.induct)
  case (1 e i)
  then show ?case by simp
next
  case (2 e i c cs)
  have len: "Suc i \<le> length text" using arg_cong [OF "2.prems"(2), of length] by simp
  have cs: "cs = drop (Suc i) text"
    using arg_cong [OF "2.prems"(2), of tl] by (simp add: drop_Suc tl_drop)
  show ?case
  proof (cases "scan_closer c")
    case None
    from "2.IH"(1) [OF None len cs] "2.prems"(3) None show ?thesis by auto
  next
    case (Some pq)
    obtain closer prompter where pq: "pq = (closer, prompter)" by (cases pq)
    show ?thesis
    proof (cases "closer \<in> set cs")
      case False
      from "2.IH"(2) [OF Some pq [symmetric] False len cs] "2.prems"(3) Some pq False show ?thesis by auto
    next
      case True
      define rel where "rel = length (takeWhile (\<lambda>x. x \<noteq> closer) cs)"
      note sp = split_at_closer [OF True, folded rel_def]
      have lc: "length cs = length text - Suc i" using cs by simp
      have n2: "i + rel + 2 \<le> length text" using sp(3) lc by simp
      have dr: "drop (Suc rel) cs = drop (i + rel + 2) text" using cs by (simp add: add.commute)
      have here: "is_cue_at text i (i + rel + 2) (take rel cs)"
      proof -
        have "take (i + rel + 2 - i) (drop i text) = take (Suc (Suc rel)) (c # cs)" using "2.prems"(2) by simp
        also have "\<dots> = [c] @ take rel cs @ [closer]"
          using sp(1,3) by (metis append_Cons append_Nil append_take_drop_id list.sel(1) hd_drop_conv_nth nth_append_length
              length_take min.absorb4 take_Suc_Cons take_Suc_conv_app_nth)
        finally show ?thesis
          unfolding is_cue_at_def using scan_closer_pair [of c closer prompter] Some pq sp(2) n2 by auto
      qed
      have "(s, n, cue) = (i, i + rel + 2, scanned_cue e prompter (take rel cs)) \<or>
          (s, n, cue) \<in> set (scan_from e (i + rel + 2) (drop (Suc rel) cs))"
        using "2.prems"(3) Some pq True by (simp add: Let_def rel_def)
      then show ?thesis
      proof
        assume "(s, n, cue) = (i, i + rel + 2, scanned_cue e prompter (take rel cs))"
        with here show ?thesis by simp
      next
        assume "(s, n, cue) \<in> set (scan_from e (i + rel + 2) (drop (Suc rel) cs))"
        from "2.IH"(3) [OF Some pq [symmetric] _ rel_def n2 dr this] True show ?thesis by auto
      qed
    qed
  qed
qed

lemma scan_from_lower: "(s, n, cue) \<in> set (scan_from e i rest) \<Longrightarrow> i \<le> s"
  by (induction e i rest rule: scan_from.induct) (fastforce split: option.splits if_splits simp: Let_def)+

lemma scan_from_ordered: "sorted_wrt (\<lambda>(s, n, c) (s', n', c'). n \<le> s') (scan_from e i rest)"
  by (induction e i rest rule: scan_from.induct)
    (auto split: option.splits simp: Let_def dest: scan_from_lower)

text \<open>
  The scan of a story body emits exact pieces of the text: each cue is a bracketed or braced
  piece with the matching closer and no closer inside, its raw text is what stands between them,
  and the pieces follow each other without overlap in document order.
\<close>

theorem cues_are_ordered_pieces:
  "list_all (\<lambda>(start, end, cue). is_cue_at text start end (bc_Raw cue)) (scanBodyCues e text) \<and>
   sorted_wrt (\<lambda>(s, n, c) (s', n', c'). n \<le> s') (scanBodyCues e text)"
  using scan_from_sound [of 0 "text" "text"] by (auto simp: list_all_iff scanBodyCues_def scan_from_ordered)

end
