(* ===== verification/SourceContent.thy ===== *)
theory SourceContent
  imports StoryCues
begin

text \<open>
  Source content of items and story bodies (\<open>src/internal/xml/source_content.go\<close> and
  \<open>item_shapes.go\<close>): what a wire item supplied, value by value, the flattening of the two item
  shapes, and the order of items and cues in a story body.
\<close>

section \<open>Reading fields of an element\<close>

text \<open>How \<open>encoding/xml\<close> fills a string field: the text of the last child element of that name.\<close>

definition children_named :: "string \<Rightarrow> xml_node list \<Rightarrow> xml_node list" where
  "children_named n ns = filter (\<lambda>x. is_element x \<and> el_name x = n) ns"

definition field :: "string \<Rightarrow> xml_node list \<Rightarrow> string" where
  "field n ns = (case rev (children_named n ns) of [] \<Rightarrow> [] | x # _ \<Rightarrow> chardata (el_children x))"

definition attr_value :: "string \<Rightarrow> xml_node \<Rightarrow> string" where
  "attr_value n x = (case map_of (rev (el_attrs x)) n of None \<Rightarrow> [] | Some v \<Rightarrow> v)"

definition decode_paths :: "string \<Rightarrow> xml_node list \<Rightarrow> ObjPath list" where
  "decode_paths n ns = map (\<lambda>x. \<lparr>path_TechDescription = attr_value ''techDescription'' x,
      path_Value = chardata (el_children x)\<rparr>) (children_named n ns)"

text \<open>A repeated container is decoded into the same struct, so its lists accumulate.\<close>

definition decode_ObjPaths :: "xml_node list \<Rightarrow> ObjPaths option" where
  "decode_ObjPaths ns = (let cs = concat (map el_children (children_named ''objPaths'' ns)) in
     if children_named ''objPaths'' ns = [] then None
     else Some \<lparr>paths_ObjPath = decode_paths ''objPath'' cs, paths_ObjProxyPath = decode_paths ''objProxyPath'' cs,
            paths_ObjMetadataPath = decode_paths ''objMetadataPath'' cs\<rparr>)"

definition decode_metadata :: "xml_node list \<Rightarrow> MosExternalMetadata list" where
  "decode_metadata ns = map (\<lambda>x. let cs = el_children x in
      \<lparr>mem_MosScope = field ''mosScope'' cs, mem_MosSchema = field ''mosSchema'' cs,
       mem_MosPayload = (case rev (children_named ''mosPayload'' cs) of [] \<Rightarrow> [] | p # _ \<Rightarrow> innerxml (el_children p))\<rparr>)
     (children_named ''mosExternalMetadata'' ns)"

section \<open>Source items\<close>

record sourceItemWire =
  siw_values :: "string gomap"
  siw_media :: "SourceMedia list option"
  siw_metadata :: "string list option"

definition source_fields :: "string list" where
  "source_fields = [''itemID'', ''mosID'', ''objID'', ''objType'', ''itemSlug'', ''mosAbstract'', ''itemEdDur'',
     ''objDur'', ''objTB'']"

definition sourceChildren :: "xml_node list \<Rightarrow> xml_node list" where
  "sourceChildren ns = filter is_element ns"

definition has_children :: "xml_node \<Rightarrow> bool" where
  "has_children x \<longleftrightarrow> list_ex is_element (el_children x)"

fun tech_description :: "(string \<times> string) list \<Rightarrow> string option \<Rightarrow> string option result" where
  "tech_description [] d = Inr d"
| "tech_description ((n, v) # as) d =
     (if n = ''techDescription''
      then (if d \<noteq> None then Inl (Errorf ''duplicate source media description'') else tech_description as (Some v))
      else tech_description as d)"

fun read_media :: "xml_node list \<Rightarrow> SourceMedia list result" where
  "read_media [] = Inr []"
| "read_media (path # paths) =
     (if el_name path \<notin> {''objPath'', ''objProxyPath'', ''objMetadataPath''} \<or> has_children path
      then Inl (Errorf ''unsupported source media representation'')
      else case tech_description (el_attrs path) None of
        Inl er \<Rightarrow> Inl er
      | Inr d \<Rightarrow> (case read_media paths of
          Inl er \<Rightarrow> Inl er
        | Inr ms \<Rightarrow> Inr (\<lparr>sm_Role = el_name path, sm_URL = chardata (el_children path), sm_TechDescription = d\<rparr> # ms)))"

text \<open>
  The loop over the children. \<open>sub\<close> reads a nested \<open>mosItem\<close>; \<open>None\<close> where nesting is not allowed.
  The wire read so far is returned with the error, as in the code.
\<close>

fun read_source_nodes :: "(xml_node list \<Rightarrow> sourceItemWire \<times> go_error option) option \<Rightarrow> xml_node list \<Rightarrow>
    sourceItemWire \<Rightarrow> sourceItemWire option \<Rightarrow> sourceItemWire \<times> sourceItemWire option \<times> go_error option" where
  "read_source_nodes sub [] wire nested = (wire, nested, None)"
| "read_source_nodes sub (node # nodes) wire nested =
     (let name = el_name node in
      if name \<in> set source_fields then
        (if gm_get (siw_values wire) name \<noteq> None \<or> has_children node
         then (wire, nested, Some (Errorf (''ambiguous source field '' @ name)))
         else read_source_nodes sub nodes
           (wire\<lparr>siw_values := gm_set name (chardata (el_children node)) (siw_values wire)\<rparr>) nested)
      else if name = ''mosItem'' then
        (case sub of
           None \<Rightarrow> (wire, nested, Some (Errorf ''ambiguous nested source item''))
         | Some f \<Rightarrow>
             if nested \<noteq> None then (wire, nested, Some (Errorf ''ambiguous nested source item''))
             else (case f (el_children node) of
               (flds, Some er) \<Rightarrow> (wire, nested, Some er)
             | (flds, None) \<Rightarrow> read_source_nodes sub nodes wire (Some flds)))
      else if name = ''objPaths'' \<or> name = ''objPath'' then
        (if siw_media wire \<noteq> None then (wire, nested, Some (Errorf ''ambiguous source media containers''))
         else if name = ''objPaths'' \<and> TrimSpace (chardata (el_children node)) \<noteq> []
         then (wire, nested, Some (Errorf ''unsupported source media container text''))
         else (case read_media (if name = ''objPaths'' then sourceChildren (el_children node) else [node]) of
             Inl er \<Rightarrow> (wire, nested, Some er)
           | Inr media \<Rightarrow> read_source_nodes sub nodes (wire\<lparr>siw_media := Some media\<rparr>) nested))
      else if name = ''mosExternalMetadata'' then
        read_source_nodes sub nodes (wire\<lparr>siw_metadata :=
          Some ((case siw_metadata wire of None \<Rightarrow> [] | Some bs \<Rightarrow> bs) @ [el_raw node])\<rparr>) nested
      else read_source_nodes sub nodes wire nested)"

fun merge_values :: "string gomap \<Rightarrow> string gomap \<Rightarrow> string gomap \<times> go_error option" where
  "merge_values outer [] = (outer, None)"
| "merge_values outer ((name, v) # inner) =
     (case gm_get outer name of
        Some ov \<Rightarrow> if ov \<noteq> v then (outer, Some (Errorf (''conflicting source field '' @ name)))
                  else merge_values (gm_set name v outer) inner
      | None \<Rightarrow> merge_values (gm_set name v outer) inner)"

definition merge_nested :: "sourceItemWire \<Rightarrow> sourceItemWire \<Rightarrow> sourceItemWire \<times> go_error option" where
  "merge_nested wire nested =
     (case merge_values (siw_values wire) (siw_values nested) of
        (vs, Some er) \<Rightarrow> (wire\<lparr>siw_values := vs\<rparr>, Some er)
      | (vs, None) \<Rightarrow>
          let w1 = wire\<lparr>siw_values := vs\<rparr> in
          if siw_media w1 \<noteq> None \<and> siw_media nested \<noteq> None \<and> siw_media w1 \<noteq> siw_media nested
          then (w1, Some (Errorf ''conflicting source media containers''))
          else let w2 = (if siw_media w1 = None then w1\<lparr>siw_media := siw_media nested\<rparr> else w1) in
          if siw_metadata w2 \<noteq> None \<and> siw_metadata nested \<noteq> None \<and> siw_metadata w2 \<noteq> siw_metadata nested
          then (w2, Some (Errorf ''conflicting source metadata''))
          else (if siw_metadata w2 = None then w2\<lparr>siw_metadata := siw_metadata nested\<rparr> else w2, None))"

definition empty_wire :: sourceItemWire where
  "empty_wire = \<lparr>siw_values = [], siw_media = None, siw_metadata = None\<rparr>"

definition read_wire ::
    "(xml_node list \<Rightarrow> sourceItemWire \<times> go_error option) option \<Rightarrow> xml_node list \<Rightarrow> sourceItemWire \<times> go_error option" where
  "read_wire sub ns =
     (case read_source_nodes sub (sourceChildren ns) empty_wire None of
        (wire, _, Some er) \<Rightarrow> (wire, Some er)
      | (wire, None, None) \<Rightarrow> (wire, None)
      | (wire, Some nested, None) \<Rightarrow> merge_nested wire nested)"

definition readSourceItem :: "xml_node list \<Rightarrow> bool \<Rightarrow> sourceItemWire \<times> go_error option" where
  "readSourceItem ns allowNested = read_wire (if allowNested then Some (read_wire None) else None) ns"

definition decodeSourceItem :: "xml_node list \<Rightarrow> SourceItem" where
  "decodeSourceItem ns =
     (let (wire, er) = readSourceItem ns True; v = gm_get (siw_values wire) in
      \<lparr>src_ID = gm_string (siw_values wire) ''itemID'', src_MosID = v ''mosID'', src_ObjectID = v ''objID'',
       src_ObjectType = v ''objType'', src_Label = v ''itemSlug'', src_Abstract = v ''mosAbstract'',
       src_ItemEdDur = v ''itemEdDur'', src_ObjDur = v ''objDur'', src_ObjTB = v ''objTB'',
       src_Media = siw_media wire, src_Metadata = siw_metadata wire, src_err = er\<rparr>)"

definition SourceItem_Validate :: "SourceItem option \<Rightarrow> unit result" where
  "SourceItem_Validate s = (case s of
      None \<Rightarrow> Inl (Errorf ''item source is unavailable'')
    | Some i \<Rightarrow> (case src_err i of
        Some er \<Rightarrow> Inl er
      | None \<Rightarrow> if src_ID i = [] then Inl (Errorf ''source item has no itemID'') else Inr ()))"

section \<open>The two shapes of an item\<close>

definition flat_item :: "xml_node list \<Rightarrow> ItemInfo" where
  "flat_item ns = \<lparr>ii_Source = None, ii_ID = field ''itemID'' ns, ii_Slug = field ''itemSlug'' ns,
     ii_Abstract = field ''mosAbstract'' ns, ii_Duration = field ''itemEdDur'' ns, ii_ObjDur = field ''objDur'' ns,
     ii_ObjTB = field ''objTB'' ns, ii_ObjectID = field ''objID'' ns, ii_MosID = field ''mosID'' ns,
     ii_ObjPath = field ''objPath'' ns, ii_ObjPaths = decode_ObjPaths ns, ii_Channel = field ''itemChannel'' ns,
     ii_MosExternalMetadata = decode_metadata ns\<rparr>"

definition or_else :: "'a list \<Rightarrow> 'a list \<Rightarrow> 'a list" where
  "or_else a b = (if a = [] then b else a)"

definition ItemInfo_UnmarshalXML :: "xml_node list \<Rightarrow> ItemInfo" where
  "ItemInfo_UnmarshalXML ns =
     (let i = (flat_item ns)\<lparr>ii_Source := Some (decodeSourceItem ns)\<rparr> in
      if children_named ''mosItem'' ns = [] then i
      else let n = flat_item (concat (map el_children (children_named ''mosItem'' ns))) in
        i\<lparr>ii_ID := or_else (ii_ID i) (ii_ID n),
          ii_Slug := or_else (or_else (ii_Slug i) (ii_Slug n)) (TrimSpace (ii_Abstract n)),
          ii_Abstract := or_else (ii_Abstract i) (ii_Abstract n),
          ii_Duration := or_else (ii_Duration i) (ii_Duration n),
          ii_ObjDur := or_else (ii_ObjDur i) (ii_ObjDur n),
          ii_ObjTB := or_else (ii_ObjTB i) (ii_ObjTB n),
          ii_ObjectID := or_else (ii_ObjectID i) (ii_ObjectID n),
          ii_MosID := or_else (ii_MosID i) (ii_MosID n),
          ii_ObjPath := or_else (ii_ObjPath i) (ii_ObjPath n),
          ii_ObjPaths := (if ObjPaths_Empty (ii_ObjPaths i) then ii_ObjPaths n else ii_ObjPaths i),
          ii_Channel := or_else (ii_Channel i) (ii_Channel n),
          ii_MosExternalMetadata := or_else (ii_MosExternalMetadata i) (ii_MosExternalMetadata n)\<rparr>)"

text \<open>
  C31. Both item shapes decode alike: an item wrapped in a \<open>mosItem\<close> element reads as the flat item
  with the same content, field for field, except that a missing label borrows the abstract.
\<close>

theorem nested_item_reads_as_flat:
  assumes "children_named ''mosItem'' ns = []"
  shows "(ItemInfo_UnmarshalXML [Element ''mosItem'' as ns r])\<lparr>ii_Source := None\<rparr> =
     (ItemInfo_UnmarshalXML ns)\<lparr>ii_Source := None,
        ii_Slug := or_else (ii_Slug (ItemInfo_UnmarshalXML ns)) (TrimSpace (ii_Abstract (ItemInfo_UnmarshalXML ns)))\<rparr>"
  using assms
  by (simp add: ItemInfo_UnmarshalXML_def Let_def flat_item_def or_else_def children_named_def field_def
      decode_ObjPaths_def decode_metadata_def ObjPaths_Empty_def)

theorem nested_item_reads_as_flat_witness:
  "ii_ObjectID (ItemInfo_UnmarshalXML [Element ''mosItem'' [] [Element ''objID'' [] [CharData ''O7'' ''O7''] []] []]) = ''O7''"
proof -
  let ?ns = "[Element ''objID'' [] [CharData ''O7'' ''O7''] []]"
  have h: "children_named ''mosItem'' ?ns = []" by (simp add: children_named_def)
  have "ii_ObjectID (ItemInfo_UnmarshalXML ?ns) = ''O7''" by code_simp
  with arg_cong [OF nested_item_reads_as_flat [OF h, of "[]" "[]"], of ii_ObjectID] show ?thesis by simp
qed

section \<open>The order of a story body\<close>

datatype SourceElement = SItem ItemInfo | SCue BodyCue

definition sourceFormatting :: "string \<Rightarrow> bool" where
  "sourceFormatting name \<longleftrightarrow> name \<in> {''b'', ''i'', ''u'', ''strong'', ''em'', ''span''}"

fun sourceInstructionText :: "xml_node list \<Rightarrow> string result" where
  "sourceInstructionText [] = Inr []"
| "sourceInstructionText (CharData t r # ns) =
     (case sourceInstructionText ns of Inl er \<Rightarrow> Inl er | Inr u \<Rightarrow> Inr (t @ u))"
| "sourceInstructionText (OtherToken r # ns) = sourceInstructionText ns"
| "sourceInstructionText (Element n as cs r # ns) =
     (if n \<noteq> ''br'' \<and> \<not> sourceFormatting n then Inl (Errorf ''unsupported source instruction element'')
      else case sourceInstructionText cs of
        Inl er \<Rightarrow> Inl er
      | Inr t \<Rightarrow> (case sourceInstructionText ns of
          Inl er \<Rightarrow> Inl er
        | Inr u \<Rightarrow> Inr ((if n = ''br'' then [newline] else []) @ t @ u)))"

record source_state =
  ss_elements :: "(nat \<times> SourceElement) list"
  ss_paragraphs :: "(nat \<times> nat \<times> nat) list"
  ss_script :: string
  ss_seen :: "string list"
  ss_count :: nat

definition anchor :: "SourceElement \<Rightarrow> source_state \<Rightarrow> source_state" where
  "anchor el st = st\<lparr>ss_elements := ss_elements st @ [(length (ss_script st), el)],
                    ss_script := ss_script st @ [CHR 0x00]\<rparr>"

definition write_script :: "string \<Rightarrow> source_state \<Rightarrow> source_state" where
  "write_script t st = st\<lparr>ss_script := ss_script st @ t\<rparr>"

definition instruction_cue :: "go_env \<Rightarrow> int \<Rightarrow> string \<Rightarrow> BodyCue" where
  "instruction_cue e paragraph raw =
     (let cue = parseCommand e (zero_BodyCue\<lparr>bc_Raw := raw, bc_Paragraph := paragraph\<rparr>); trimmed = TrimSpace raw in
      fold (\<lambda>(start, end, parsed) c. if start = 0 \<and> end = length trimmed then parsed\<lparr>bc_Paragraph := paragraph\<rparr> else c)
        (scanBodyCues e trimmed) cue)"

text \<open>
  \<open>read_body e outer paragraph pending nodes st\<close> is the rest of one call of the recursive reader:
  \<open>outer\<close> where \<open>end == ""\<close>, \<open>paragraph\<close> the index of the open paragraph or -1, \<open>pending\<close> the
  blank text not yet written.
\<close>

fun read_body :: "go_env \<Rightarrow> bool \<Rightarrow> int \<Rightarrow> string \<Rightarrow> xml_node list \<Rightarrow> source_state \<Rightarrow> source_state result" where
  "read_body e outer paragraph pending [] st = Inr st"
| "read_body e outer paragraph pending (CharData t r # ns) st =
     (if outer \<and> TrimSpace t = [] then read_body e outer paragraph (pending @ t) ns st
      else read_body e outer paragraph [] ns (write_script (pending @ t) st))"
| "read_body e outer paragraph pending (OtherToken r # ns) st = read_body e outer paragraph pending ns st"
| "read_body e outer paragraph pending (Element name as cs r # ns) st =
     (if name = ''p'' then
        (if paragraph \<ge> 0 then Inl (Errorf ''nested source paragraphs'')
         else let st1 = (if ss_count st > 0 then write_script [newline] st else st);
                  start = length (ss_script st1); index = ss_count st1 in
              case read_body e False (int index) [] cs (st1\<lparr>ss_count := ss_count st1 + 1\<rparr>) of
                Inl er \<Rightarrow> Inl er
              | Inr st2 \<Rightarrow> read_body e outer paragraph [] ns
                  (st2\<lparr>ss_paragraphs := ss_paragraphs st2 @ [(start, length (ss_script st2), index)]\<rparr>))
      else if name = ''storyItem'' then
        (let item = ItemInfo_UnmarshalXML cs in
         case SourceItem_Validate (ii_Source item) of
           Inl er \<Rightarrow> Inl er
         | Inr _ \<Rightarrow>
             let sid = (case ii_Source item of None \<Rightarrow> [] | Some src \<Rightarrow> src_ID src) in
             if sid \<in> set (ss_seen st) then Inl (Errorf ''duplicate source itemID'')
             else read_body e outer paragraph [] ns (anchor (SItem item) (st\<lparr>ss_seen := sid # ss_seen st\<rparr>)))
      else if name = ''pi'' then
        (case sourceInstructionText cs of
           Inl er \<Rightarrow> Inl er
         | Inr raw \<Rightarrow> read_body e outer paragraph [] ns (anchor (SCue (instruction_cue e paragraph raw)) st))
      else if name = ''storyPresenter'' \<or> name = ''storyPresenterRR'' then
        read_body e outer paragraph pending ns st
      else if name = ''br'' then read_body e outer paragraph pending ns (write_script [newline] st)
      else if \<not> sourceFormatting name then Inl (Errorf (''unsupported story-body source element '' @ name))
      else case read_body e False paragraph [] cs (write_script pending st) of
        Inl er \<Rightarrow> Inl er
      | Inr st2 \<Rightarrow> read_body e outer paragraph [] ns st2)"

definition paragraph_of :: "(nat \<times> nat \<times> nat) list \<Rightarrow> nat \<Rightarrow> int" where
  "paragraph_of spans start = (case List.find (\<lambda>(a, b, i). a \<le> start \<and> start < b) spans of
      None \<Rightarrow> -1 | Some (a, b, i) \<Rightarrow> int i)"

definition empty_source :: source_state where
  "empty_source = \<lparr>ss_elements = [], ss_paragraphs = [], ss_script = [], ss_seen = [], ss_count = 0\<rparr>"

definition OrderedSource :: "go_env \<Rightarrow> StoryBody \<Rightarrow> SourceElement list result" where
  "OrderedSource e b =
     (case sb_sourceErr b of
        Some er \<Rightarrow> Inl er
      | None \<Rightarrow>
     (case (sb_XMLName b, sb_sourceXML b) of
        ([], _) \<Rightarrow> Inl (Errorf ''story body source order is unavailable'')
      | (_, None) \<Rightarrow> Inl (Errorf ''story body source order is unavailable'')
      | (_, Some nodes) \<Rightarrow>
     (case read_body e True (-1) [] nodes empty_source of
        Inl er \<Rightarrow> Inl er
      | Inr st \<Rightarrow>
          let cues = scanBodyCues e (ss_script st) in
          if list_ex (\<lambda>(s, n, cue). CHR 0x00 \<in> set (bc_Raw cue)) cues
          then Inl (Errorf ''source cue crosses an item or instruction boundary'')
          else Inr (map snd (sort_key fst (ss_elements st @
                 map (\<lambda>(s, n, cue). (s, SCue (cue\<lparr>bc_Paragraph := paragraph_of (ss_paragraphs st) s\<rparr>))) cues))))))"

section \<open>Items keep their document order\<close>

text \<open>The item elements of a body in document order, looking into paragraphs and formatting.\<close>

fun document_items :: "xml_node list \<Rightarrow> ItemInfo list" where
  "document_items [] = []"
| "document_items (CharData t r # ns) = document_items ns"
| "document_items (OtherToken r # ns) = document_items ns"
| "document_items (Element name as cs r # ns) =
     (if name = ''storyItem'' then ItemInfo_UnmarshalXML cs # document_items ns
      else if name = ''p'' \<or> sourceFormatting name then document_items cs @ document_items ns
      else document_items ns)"

fun source_items :: "SourceElement list \<Rightarrow> ItemInfo list" where
  "source_items [] = []"
| "source_items (SItem i # es) = i # source_items es"
| "source_items (SCue c # es) = source_items es"

lemma source_items_append [simp]: "source_items (xs @ ys) = source_items xs @ source_items ys"
  by (induction xs rule: source_items.induct) auto

definition source_id :: "ItemInfo \<Rightarrow> string" where
  "source_id i = (case ii_Source i of None \<Rightarrow> [] | Some src \<Rightarrow> src_ID src)"

text \<open>Anchors stand at increasing offsets inside the script, and the seen identifiers are those of the items.\<close>

definition source_ok :: "source_state \<Rightarrow> bool" where
  "source_ok st \<longleftrightarrow> sorted_wrt (<) (map fst (ss_elements st)) \<and>
     (\<forall>x \<in> set (ss_elements st). fst x < length (ss_script st)) \<and>
     ss_seen st = rev (map source_id (source_items (map snd (ss_elements st)))) \<and> distinct (ss_seen st)"

lemma source_ok_write: "source_ok st \<Longrightarrow> source_ok (write_script t st)"
  by (auto simp: source_ok_def write_script_def)

lemma source_ok_counters: "source_ok (st\<lparr>ss_count := n\<rparr>) = source_ok st" "source_ok (st\<lparr>ss_paragraphs := p\<rparr>) = source_ok st"
  by (simp_all add: source_ok_def)

lemma source_ok_anchor_cue: "source_ok st \<Longrightarrow> source_ok (anchor (SCue c) st)"
  by (auto simp: source_ok_def anchor_def sorted_wrt_append)

lemma source_ok_anchor_item:
  "source_ok st \<Longrightarrow> source_id i \<notin> set (ss_seen st) \<Longrightarrow> source_ok (anchor (SItem i) (st\<lparr>ss_seen := source_id i # ss_seen st\<rparr>))"
  by (auto simp: source_ok_def anchor_def sorted_wrt_append)

lemma elements_simps [simp]:
  "ss_elements (write_script t st) = ss_elements st"
  "ss_elements (anchor el st) = ss_elements st @ [(length (ss_script st), el)]"
  by (simp_all add: write_script_def anchor_def)

definition items_of :: "source_state \<Rightarrow> ItemInfo list" where
  "items_of st = source_items (map snd (ss_elements st))"

lemma items_of_simps [simp]:
  "items_of (write_script t st) = items_of st" "items_of (st\<lparr>ss_count := n\<rparr>) = items_of st"
  "items_of (st\<lparr>ss_paragraphs := p\<rparr>) = items_of st" "items_of (st\<lparr>ss_seen := q\<rparr>) = items_of st"
  "items_of (anchor (SItem i) st) = items_of st @ [i]" "items_of (anchor (SCue c) st) = items_of st"
  by (simp_all add: items_of_def)

lemma read_body_items:
  "read_body e outer par pend ns st = Inr st' \<Longrightarrow> source_ok st \<Longrightarrow>
     source_ok st' \<and> items_of st' = items_of st @ document_items ns"
proof (induction e outer par pend ns st arbitrary: st' rule: read_body.induct)
  case (1 e outer para pending st)
  then show ?case by simp
next
  case (2 e outer para pending t r ns st)
  show ?case
  proof (cases "outer \<and> TrimSpace t = []")
    case True
    with 2 show ?thesis by simp
  next
    case False
    with 2(3) have "read_body e outer para [] ns (write_script (pending @ t) st) = Inr st'" by (simp only: read_body.simps if_False)
    from 2(2) [OF False this] 2(4) source_ok_write show ?thesis by simp
  qed
next
  case (3 e outer para pending r ns st)
  then show ?case by simp
next
  case (4 e outer para pending name as cs r ns st)
  note IH = "4.IH" and prem = "4.prems"(1) and ok = "4.prems"(2)
  consider (p) "name = ''p''" | (item) "name = ''storyItem''" | (instr) "name = ''pi''"
    | (presenter) "name = ''storyPresenter'' \<or> name = ''storyPresenterRR''" | (br) "name = ''br''"
    | (formatting) "name \<notin> {''p'', ''storyItem'', ''pi'', ''storyPresenter'', ''storyPresenterRR'', ''br''}" "sourceFormatting name"
    | (other) "name \<notin> {''p'', ''storyItem'', ''pi'', ''storyPresenter'', ''storyPresenterRR'', ''br''}" "\<not> sourceFormatting name"
    by blast
  then show ?case
  proof cases
    case p
    define st1 where "st1 = (if ss_count st > 0 then write_script [newline] st else st)"
    have st1: "source_ok (st1\<lparr>ss_count := ss_count st1 + 1\<rparr>)" "items_of (st1\<lparr>ss_count := ss_count st1 + 1\<rparr>) = items_of st"
      using ok source_ok_write by (auto simp: st1_def source_ok_counters)
    have par: "\<not> para \<ge> 0" using prem p by (auto split: if_splits)
    from prem p par obtain st2 where st2: "read_body e False (int (ss_count st1)) [] cs (st1\<lparr>ss_count := ss_count st1 + 1\<rparr>) = Inr st2"
      "read_body e outer para [] ns (st2\<lparr>ss_paragraphs := ss_paragraphs st2 @
          [(length (ss_script st1), length (ss_script st2), ss_count st1)]\<rparr>) = Inr st'"
      by (auto simp: Let_def st1_def [symmetric] split: sum.splits)
    from IH(1) [OF p par st1_def refl refl st2(1) st1(1)] have "source_ok st2" "items_of st2 = items_of st @ document_items cs"
      using st1(2) by simp_all
    with IH(2) [OF p par st1_def refl refl st2(1) st2(2)] p show ?thesis by (simp add: source_ok_counters)
  next
    case item
    then have np: "name \<noteq> ''p''" by simp
    let ?i = "ItemInfo_UnmarshalXML cs"
    have sid: "(case ii_Source ?i of None \<Rightarrow> [] | Some src \<Rightarrow> src_ID src) = source_id ?i" by (simp add: source_id_def)
    from prem item obtain u where v: "SourceItem_Validate (ii_Source ?i) = Inr u" "source_id ?i \<notin> set (ss_seen st)"
      "read_body e outer para [] ns (anchor (SItem ?i) (st\<lparr>ss_seen := source_id ?i # ss_seen st\<rparr>)) = Inr st'"
      by (auto simp: Let_def sid split: sum.splits if_splits)
    from IH(3) [OF np item refl v(1) refl] v(2,3) source_ok_anchor_item [OF ok v(2)] item show ?thesis
      by (simp add: sid)
  next
    case instr
    then have n: "name \<noteq> ''p''" "name \<noteq> ''storyItem''" by auto
    from prem instr obtain raw where raw: "sourceInstructionText cs = Inr raw"
      "read_body e outer para [] ns (anchor (SCue (instruction_cue e para raw)) st) = Inr st'"
      by (auto split: sum.splits)
    from IH(4) [OF n instr raw(1) raw(2) source_ok_anchor_cue [OF ok]] instr show ?thesis
      by (simp add: sourceFormatting_def)
  next
    case presenter
    then have n: "name \<noteq> ''p''" "name \<noteq> ''storyItem''" "name \<noteq> ''pi''" by auto
    with prem presenter have "read_body e outer para pending ns st = Inr st'" by auto
    from IH(5) [OF n presenter this ok] presenter show ?thesis by (auto simp: sourceFormatting_def)
  next
    case br
    then have n: "name \<noteq> ''p''" "name \<noteq> ''storyItem''" "name \<noteq> ''pi''"
      "\<not> (name = ''storyPresenter'' \<or> name = ''storyPresenterRR'')" by auto
    with prem br have "read_body e outer para pending ns (write_script [newline] st) = Inr st'" by auto
    from IH(6) [OF n br this source_ok_write [OF ok]] br show ?thesis by (auto simp: sourceFormatting_def)
  next
    case formatting
    then have n: "name \<noteq> ''p''" "name \<noteq> ''storyItem''" "name \<noteq> ''pi''"
      "\<not> (name = ''storyPresenter'' \<or> name = ''storyPresenterRR'')" "name \<noteq> ''br''" "\<not> \<not> sourceFormatting name" by auto
    from prem n obtain st2 where st2: "read_body e False para [] cs (write_script pending st) = Inr st2"
      "read_body e outer para [] ns st2 = Inr st'"
      by (auto split: sum.splits)
    from IH(7) [OF n st2(1) source_ok_write [OF ok]] have "source_ok st2" "items_of st2 = items_of st @ document_items cs"
      by simp_all
    with IH(8) [OF n st2(1) st2(2)] n show ?thesis by simp
  next
    case other
    with prem show ?thesis by auto
  qed
qed

lemma source_items_snd_filter:
  "source_items (map snd xs) = source_items (map snd (filter (\<lambda>x. case snd x of SItem i \<Rightarrow> True | SCue c \<Rightarrow> False) xs))"
proof (induction xs)
  case (Cons x xs)
  then show ?case by (cases "snd x") simp_all
qed simp

lemma sort_keeps_items:
  fixes els cues :: "(nat \<times> SourceElement) list"
  assumes "sorted_wrt (<) (map fst els)" "\<forall>x \<in> set cues. \<exists>c. snd x = SCue c"
  shows "source_items (map snd (sort_key fst (els @ cues))) = source_items (map snd els)"
proof -
  let ?P = "\<lambda>x :: nat \<times> SourceElement. case snd x of SItem i \<Rightarrow> True | SCue c \<Rightarrow> False"
  have "filter ?P cues = []" using assms(2) by (auto simp: filter_empty_conv)
  then have "filter ?P (sort_key fst (els @ cues)) = sort_key fst (filter ?P els)" by (simp add: filter_sort)
  also have "\<dots> = filter ?P els"
    using assms(1) by (intro sort_key_id_if_sorted sorted_filter) (simp add: strict_sorted_imp_sorted)
  finally show ?thesis by (metis source_items_snd_filter)
qed

text \<open>
  The ordered source of a story body lists every item of the body exactly once and in document
  order, whatever cues lie between them, and no two items of it share an itemID.
\<close>

theorem ordered_source_items:
  assumes "OrderedSource e b = Inr els" "sb_sourceXML b = Some nodes"
  shows "source_items els = document_items nodes \<and> distinct (map source_id (source_items els))"
proof -
  from assms obtain st where st: "read_body e True (-1) [] nodes empty_source = Inr st"
    and els: "els = map snd (sort_key fst (ss_elements st @ map (\<lambda>(s, n, cue). (s, SCue (cue\<lparr>bc_Paragraph :=
      paragraph_of (ss_paragraphs st) s\<rparr>))) (scanBodyCues e (ss_script st))))"
    by (auto simp: OrderedSource_def Let_def split: option.splits list.splits sum.splits if_splits)
  have "source_ok empty_source" "items_of empty_source = []"
    by (simp_all add: source_ok_def empty_source_def items_of_def)
  with read_body_items [OF st] have ok: "source_ok st" and its: "items_of st = document_items nodes" by simp_all
  have "source_items els = items_of st"
    unfolding els items_of_def using ok by (intro sort_keeps_items) (auto simp: source_ok_def)
  with ok its show ?thesis by (auto simp: source_ok_def items_of_def)
qed

definition example_item_node :: "string \<Rightarrow> xml_node" where
  "example_item_node i = Element ''storyItem'' [] [Element ''itemID'' [] [CharData i i] []] []"

definition example_body :: StoryBody where
  "example_body = zero_StoryBody\<lparr>sb_XMLName := ''storyBody'', sb_sourceXML := Some
     [Element ''p'' [] [CharData ''[TAKE VO]'' ''[TAKE VO]'', example_item_node ''1''] [], example_item_node ''2'']\<rparr>"

theorem ordered_source_items_witness:
  "\<exists>els. OrderedSource example_env example_body = Inr els \<and> map source_id (source_items els) = [''1'', ''2'']"
proof -
  have "\<not> isl (OrderedSource example_env example_body)" by code_simp
  then obtain els where els: "OrderedSource example_env example_body = Inr els" by (cases "OrderedSource example_env example_body") auto
  have "map source_id (document_items (the (sb_sourceXML example_body))) = [''1'', ''2'']" by code_simp
  moreover have "sb_sourceXML example_body = Some (the (sb_sourceXML example_body))" by (simp add: example_body_def)
  ultimately show ?thesis using ordered_source_items [OF els] els by force
qed

end
