(* ===== verification/StoryOps.thy ===== *)
theory StoryOps
  imports OnAir SourceContent
begin

text \<open>
  Item control, story delivery and story actions (\<open>src/internal/service/control.go\<close>, \<open>story.go\<close>
  and the events of \<open>profile7.go\<close>), and the service as a whole: a step relation whose labels are
  the messages, with the invariant that every reachable store satisfies.
\<close>

section \<open>Control\<close>

definition command_status :: "string \<Rightarrow> StatusType option" where
  "command_status c =
     (if c = ''READY'' then Some StatusReady else if c = ''EXECUTE'' then Some StatusPlaying
      else if c = ''PAUSE'' then Some StatusPaused else if c = ''STOP'' then Some StatusStopped
      else if c = ''SIGNAL'' then Some ''SIGNAL'' else None)"

definition ProcessROCtrl :: "go_env \<Rightarrow> ROCtrl \<Rightarrow> unit svc_op" where
  "ProcessROCtrl e ctrl =
     (case command_status (rc_Command ctrl) of
        None \<Rightarrow> op_fail (Errorf (''unsupported roCtrl command: '' @ rc_Command ctrl))
      | Some newStatus \<Rightarrow>
     op_bind (if rc_ItemID ctrl \<noteq> [] then
         op_bind (op_wrap (''item '' @ rc_ItemID ctrl @ '' not found for roCtrl command '' @ rc_Command ctrl)
                    (item_Get (rc_ItemID ctrl))) (\<lambda>item.
         op_wrap ''failed to update item status'' (item_Update (item
           \<lparr>item_Status := newStatus, item_UpdatedAt := now e,
            item_Metadata := gm_set ''lastCommandTime'' (time_Format e RFC3339 (now e))
              (gm_set ''lastCommand'' (rc_Command ctrl) (item_Metadata item))\<rparr>)))
       else op_return ()) (\<lambda>_.
     publish ItemControlled (PMap [(''roID'', rc_ROID ctrl), (''storyID'', rc_StoryID ctrl),
       (''itemID'', rc_ItemID ctrl), (''command'', rc_Command ctrl)])))"

definition ProcessROItemCue :: "go_env \<Rightarrow> ROItemCue \<Rightarrow> unit svc_op" where
  "ProcessROItemCue e cue =
     op_bind (if ric_ItemID cue \<noteq> [] then
         op_bind (op_try (item_Get (ric_ItemID cue))) (\<lambda>r.
         case r of
           Inl _ \<Rightarrow> op_return ()
         | Inr item \<Rightarrow> op_ignore (item_Update (item
             \<lparr>item_Metadata := gm_set ''lastCueEventTime'' (ric_ROEventTime cue)
                (gm_set ''lastCueEventType'' (ric_ROEventType cue) (item_Metadata item)),
              item_UpdatedAt := now e\<rparr>)))
       else op_return ()) (\<lambda>_.
     publish ItemCued (PMap [(''mosID'', ric_MosID cue), (''roID'', ric_ROID cue), (''storyID'', ric_StoryID cue),
       (''itemID'', ric_ItemID cue), (''roEventType'', ric_ROEventType cue), (''roEventTime'', ric_ROEventTime cue)]))"

section \<open>Story bodies\<close>

definition collectCues :: "go_env \<Rightarrow> StoryBody \<Rightarrow> StoryCue list" where
  "collectCues e b = map (\<lambda>(i, c). \<lparr>cue_Kind = bc_Kind c, cue_Raw = bc_Raw c, cue_Verb = bc_Verb c,
     cue_Target = bc_Target c, cue_Fields = bc_Fields c, cue_Params = bc_Params c, cue_Order = int i,
     cue_Paragraph = bc_Paragraph c\<rparr>) (enumerate 0 (Cues e b))"

definition item_from_fields :: "StoryItemFields \<Rightarrow> ItemInfo" where
  "item_from_fields f = zero_ItemInfo\<lparr>ii_ID := sif_ItemID f, ii_Slug := sif_ItemSlug f, ii_Abstract := sif_MosAbstract f,
     ii_ObjectID := sif_ObjID f, ii_MosID := sif_MosID f, ii_Channel := sif_ItemChannel f,
     ii_MosExternalMetadata := sif_ExternalMeta f,
     ii_Duration := (if sif_ItemEdDur f > 0 then FormatInt (sif_ItemEdDur f) else []),
     ii_ObjDur := sif_ObjDur f, ii_ObjTB := sif_ObjTB f, ii_ObjPaths := sif_ObjPaths f\<rparr>"

definition body_items :: "go_env \<Rightarrow> StoryBody \<Rightarrow> ItemInfo list" where
  "body_items e b =
     (case OrderedSource e b of
        Inr ordered \<Rightarrow> map (\<lambda>i. if ii_Slug i = [] then i\<lparr>ii_Slug := ii_Abstract i\<rparr> else i) (source_items ordered)
      | Inl _ \<Rightarrow> map item_from_fields (List.map_filter ItemFields
          (sb_Items b @ concat (map sp_Items (sb_Paragraphs b)))))"

text \<open>The story with the cues of the body; its items are stored on the way.\<close>

definition processStoryBody :: "go_env \<Rightarrow> Story \<Rightarrow> StoryBody \<Rightarrow> Story svc_op" where
  "processStoryBody e story b =
     (let story' = story\<lparr>story_Cues := collectCues e b\<rparr>; infos = body_items e b in
      if infos = [] then op_return story'
      else op_bind (op_wrap (''failed to store items for story '' @ story_ID story) (storeItems e (story_ID story) infos))
             (\<lambda>_. op_return story'))"

section \<open>Story delivery\<close>

definition sent_story :: "go_env \<Rightarrow> ROStorySend \<Rightarrow> string \<Rightarrow> Story result \<Rightarrow> Story" where
  "sent_story e m storyID r = (case r of
      Inl _ \<Rightarrow> zero_Story\<lparr>story_ID := storyID, story_RawID := rss_StoryID m, story_RunningOrderID := rss_ROID m,
        story_Slug := rss_StorySlug m, story_Number := rss_StoryNum m, story_Status := StatusPending,
        story_CreatedAt := now e, story_UpdatedAt := now e\<rparr>
    | Inr story \<Rightarrow> story\<lparr>story_RawID := rss_StoryID m, story_RunningOrderID := rss_ROID m,
        story_Slug := (if rss_StorySlug m \<noteq> [] then rss_StorySlug m else story_Slug story),
        story_Number := (if rss_StoryNum m \<noteq> [] then rss_StoryNum m else story_Number story),
        story_UpdatedAt := now e\<rparr>)"

definition unknown_ro_check :: "string \<Rightarrow> unit svc_op" where
  "unknown_ro_check roID = op_bind (op_try (ro_Get roID)) (\<lambda>r. case r of
      Inl er \<Rightarrow> op_fail (UnknownRunningOrderError roID er)
    | Inr _ \<Rightarrow> op_return ())"

definition ProcessROStorySend :: "go_env \<Rightarrow> ROStorySend \<Rightarrow> unit svc_op" where
  "ProcessROStorySend e m =
     (if TrimSpace (rss_ROID m) = [] then op_fail (Errorf ''roID is required'')
      else if TrimSpace (rss_StoryID m) = [] then op_fail (Errorf ''storyID is required'')
      else
     op_bind (unknown_ro_check (rss_ROID m)) (\<lambda>_.
     let storyID = storyPersistenceID (rss_ROID m) (rss_StoryID m) in
     op_bind (op_try (story_Get storyID)) (\<lambda>r.
     op_bind (op_wrap ''failed to persist story items''
                (processStoryBody e (sent_story e m storyID r) (rss_StoryBody m))) (\<lambda>story.
     op_bind (if isl r then op_wrap ''failed to create story from roStorySend'' (story_Create story)
              else op_wrap ''failed to update story from roStorySend'' (story_Update story)) (\<lambda>_.
     publish StoryReceived (PString (rss_StoryID m)))))))"

definition ProcessROReqStoryAction :: "go_env \<Rightarrow> ROReqStoryAction \<Rightarrow> unit svc_op" where
  "ProcessROReqStoryAction e req =
     (let storySend = AsStorySend (rrsa_StoryAction req) in
     op_bind (op_wrap ''failed to process story in roReqStoryAction'' (ProcessROStorySend e storySend)) (\<lambda>_.
     publish StoryModified (PMap [(''roID'', rss_ROID storySend), (''storyID'', rss_StoryID storySend),
       (''operation'', rrsa_Operation req), (''username'', rrsa_Username req)])))"

section \<open>Story actions\<close>

definition createNewStory :: "go_env \<Rightarrow> ROStorySend \<Rightarrow> unit svc_op" where
  "createNewStory e m =
     (if rss_ROID m = [] then op_fail (Errorf ''no running order ID specified'') else
     op_bind (op_wrap (''roStorySend for unknown running order '' @ quote e (rss_ROID m) @ '': send roCreate first'')
                (ro_Get (rss_ROID m))) (\<lambda>ro.
     op_bind (op_wrap ''failed to list stories'' (story_List (ro_ID ro))) (\<lambda>stories.
     op_bind (op_wrap ''failed to process story body'' (processStoryBody e (zero_Story
         \<lparr>story_ID := (if rss_StoryID m = [] then ''S'' @ FormatInt (now e) else rss_StoryID m),
          story_RunningOrderID := ro_ID ro, story_Slug := rss_StorySlug m, story_Number := rss_StoryNum m,
          story_Status := StatusPending, story_CreatedAt := now e, story_UpdatedAt := now e,
          story_Order := int (length stories) + 1\<rparr>) (rss_StoryBody m))) (\<lambda>story.
     op_bind (op_wrap ''failed to create story'' (story_Create story)) (\<lambda>_.
     publish StoryModified (PString (story_ID story)))))))"

definition updateStory :: "go_env \<Rightarrow> ROStorySend \<Rightarrow> unit svc_op" where
  "updateStory e m =
     op_bind (op_wrap ''story not found'' (story_Get (rss_StoryID m))) (\<lambda>held.
     op_bind (op_wrap ''failed to process story body'' (processStoryBody e (held
         \<lparr>story_Slug := rss_StorySlug m, story_Number := rss_StoryNum m, story_UpdatedAt := now e\<rparr>)
         (rss_StoryBody m))) (\<lambda>story.
     op_bind (op_wrap ''failed to update story'' (story_Update story)) (\<lambda>_.
     publish StoryModified (PString (story_ID story)))))"

definition replaceStory :: "go_env \<Rightarrow> ROStorySend \<Rightarrow> unit svc_op" where
  "replaceStory e m =
     op_bind (op_wrap ''failed to delete existing story'' (story_Delete (rss_StoryID m))) (\<lambda>_. createNewStory e m)"

definition ProcessStoryAction :: "go_env \<Rightarrow> NCSReqStoryAction \<Rightarrow> unit svc_op" where
  "ProcessStoryAction e action =
     (let operation = ToUpper e (nrsa_Operation action) in
      if operation = ''NEW'' then createNewStory e (nrsa_ROStorySend action)
      else if operation = ''UPDATE'' then updateStory e (nrsa_ROStorySend action)
      else if operation = ''REPLACE'' then replaceStory e (nrsa_ROStorySend action)
      else op_fail (Errorf (''unsupported story operation: '' @ nrsa_Operation action)))"

section \<open>Every operation keeps the invariant\<close>

lemma keeps_ok_body [keeps_ok_intros]: "keeps_ok (processStoryBody e st b)"
  unfolding processStoryBody_def Let_def by (intro keeps_ok_intros)

lemma keeps_ok_story_ops [keeps_ok_intros]:
  "keeps_ok (ProcessROCtrl e c)" "keeps_ok (ProcessROItemCue e q)" "keeps_ok (unknown_ro_check r)"
  "keeps_ok (createNewStory e m)" "keeps_ok (updateStory e m)"
  unfolding ProcessROCtrl_def ProcessROItemCue_def unknown_ro_check_def createNewStory_def updateStory_def
  by (intro keeps_ok_intros)+

lemma keeps_ok_story_messages [keeps_ok_intros]:
  "keeps_ok (ProcessROStorySend e m)" "keeps_ok (replaceStory e m)"
  unfolding ProcessROStorySend_def replaceStory_def Let_def by (intro keeps_ok_intros)+

lemma keeps_ok_story_actions [keeps_ok_intros]:
  "keeps_ok (ProcessROReqStoryAction e rq)" "keeps_ok (ProcessStoryAction e a)"
  unfolding ProcessROReqStoryAction_def ProcessStoryAction_def Let_def by (intro keeps_ok_intros)+

section \<open>The service as a state machine\<close>

datatype svc_message =
    RoCreate RunningOrderInfo string
  | RoReplace ROReplace
  | RoDelete string
  | RoList ROList string
  | RoMetadataReplace ROMetadataReplace
  | RoElementAction ROElementAction
  | RoReadyToAir string string
  | RoElementStat ROElementStat
  | RoCtrl ROCtrl
  | RoItemCue ROItemCue
  | RoStorySend ROStorySend
  | RoReqStoryAction ROReqStoryAction
  | NcsReqStoryAction NCSReqStoryAction
  | MosObject MosObj
  | MosObjectCreate MosObjCreate
  | MosItemReplacement MosItemReplace

definition handle_message :: "go_env \<Rightarrow> svc_message \<Rightarrow> unit svc_op" where
  "handle_message e m = (case m of
      RoCreate i mosID \<Rightarrow> ProcessRunningOrderInfo e i mosID
    | RoReplace r \<Rightarrow> ReplaceRunningOrder e r
    | RoDelete r \<Rightarrow> DeleteRunningOrder r
    | RoList l mosID \<Rightarrow> ApplyROList e l mosID
    | RoMetadataReplace r \<Rightarrow> ReplaceMetadata e r
    | RoElementAction a \<Rightarrow> ProcessElementAction e a
    | RoReadyToAir r air \<Rightarrow> SetReadyToAir e r air
    | RoElementStat s \<Rightarrow> ProcessElementStatus e s
    | RoCtrl c \<Rightarrow> ProcessROCtrl e c
    | RoItemCue c \<Rightarrow> ProcessROItemCue e c
    | RoStorySend s \<Rightarrow> ProcessROStorySend e s
    | RoReqStoryAction a \<Rightarrow> ProcessROReqStoryAction e a
    | NcsReqStoryAction a \<Rightarrow> ProcessStoryAction e a
    | MosObject ob \<Rightarrow> StoreObject e ob
    | MosObjectCreate ob \<Rightarrow> op_bind (CreateObjectFromNCS e ob) (\<lambda>_. op_return ())
    | MosItemReplacement r \<Rightarrow> ReplaceItemInStory e r)"

text \<open>One message is handled, in whatever environment, with success or with an error.\<close>

inductive svc_step :: "MOSService \<Rightarrow> svc_message \<Rightarrow> MOSService \<Rightarrow> bool" where
  handle: "svc_step s m (snd (handle_message e m s))"

inductive svc_reach :: "MOSService \<Rightarrow> bool" where
  start: "svc_reach (NewMOSService [] [] [] [] eb)"
| more: "svc_reach s \<Longrightarrow> svc_step s m s' \<Longrightarrow> svc_reach s'"

inductive_cases svc_stepE: "svc_step s m s'"

lemma keeps_ok_handle: "keeps_ok (handle_message e m)"
  unfolding handle_message_def
  by (cases m) (simp_all, (intro keeps_ok_intros)+)

text \<open>
  Whatever messages arrive, in whatever order and with whatever failures, every record of the
  store stays under its own identifier and no identifier is stored twice: every reachable state
  of the service satisfies the store invariant.
\<close>

theorem reachable_store_ok:
  assumes "svc_reach s"
  shows "svc_ok s"
  using assms
proof induction
  case (start eb)
  then show ?case by (simp add: svc_ok_def NewMOSService_def)
next
  case (more s m s')
  then show ?case by (auto elim!: svc_stepE intro: keeps_okD [OF keeps_ok_handle])
qed

theorem reachable_store_ok_witness:
  "\<exists>s. svc_reach s \<and> gm_get (runningOrderRepo s) ''R'' \<noteq> None \<and> svc_ok s"
proof -
  let ?m = "RoList \<lparr>rol_ID = ''R'', rol_Slug = ''Six'', rol_Channel = [], rol_EdStart = [], rol_EdDur = [],
     rol_Trigger = [], rol_MacroIn = [], rol_MacroOut = [], rol_MosExternalMetadata = [], rol_Stories = []\<rparr> ''mos''"
  let ?s = "snd (handle_message example_env ?m (NewMOSService [] [] [] [] None))"
  have r: "svc_reach ?s" by (rule svc_reach.more [OF svc_reach.start svc_step.handle])
  have "gm_get (runningOrderRepo ?s) ''R'' \<noteq> None" by code_simp
  with r reachable_store_ok [OF r] show ?thesis by blast
qed

section \<open>Deliveries for unknown running orders\<close>

lemma story_send_unknown_run:
  assumes "TrimSpace (rss_ROID m) \<noteq> []" "TrimSpace (rss_StoryID m) \<noteq> []"
    and "gm_get (runningOrderRepo s) (rss_ROID m) = None"
  shows "ProcessROStorySend e m s =
    (Inl (UnknownRunningOrderError (rss_ROID m) (Errorf (''running order '' @ rss_ROID m @ '' not found''))), s)"
  using assms
  by (simp add: ProcessROStorySend_def unknown_ro_check_def op_bind_def op_try_app ro_Get_missing)

text \<open>
  A story delivered for a running order the device does not hold is refused as lost
  synchronisation naming that running order, and nothing is stored: no story, no item, no event.
\<close>

theorem story_send_unknown_ro:
  assumes "TrimSpace (rss_ROID m) \<noteq> []" "TrimSpace (rss_StoryID m) \<noteq> []"
    and "gm_get (runningOrderRepo s) (rss_ROID m) = None"
  shows "\<exists>er. ProcessROStorySend e m s = (Inl er, s) \<and> errors_As_unknown er = Some (rss_ROID m)"
  by (simp add: story_send_unknown_run [OF assms])

theorem story_send_unknown_ro_witness:
  "\<exists>er. ProcessROStorySend example_env \<lparr>rss_ROID = ''Q'', rss_StoryID = ''A'', rss_StorySlug = [], rss_StoryNum = [],
     rss_StoryBody = example_body, rss_ExternalMeta = []\<rparr> example_service = (Inl er, example_service) \<and>
     errors_As_unknown er = Some ''Q''"
proof -
  let ?m = "\<lparr>rss_ROID = ''Q'', rss_StoryID = ''A'', rss_StorySlug = [], rss_StoryNum = [],
     rss_StoryBody = example_body, rss_ExternalMeta = []\<rparr>"
  have "TrimSpace (rss_ROID ?m) \<noteq> []" "TrimSpace (rss_StoryID ?m) \<noteq> []"
    "gm_get (runningOrderRepo example_service) (rss_ROID ?m) = None" by code_simp+
  from story_send_unknown_ro [OF this, of example_env] show ?thesis by simp
qed

lemma processStoryBody_run:
  assumes "svc_ok s"
  shows "\<exists>m. processStoryBody e st b s = (Inr (st\<lparr>story_Cues := collectCues e b\<rparr>), s\<lparr>itemRepo := m\<rparr>)"
proof (cases "body_items e b = []")
  case True
  then show ?thesis by (auto simp: processStoryBody_def Let_def intro: exI [of _ "itemRepo s"])
next
  case False
  obtain m where "storeItems e (story_ID st) (body_items e b) s = (Inr (), s\<lparr>itemRepo := m\<rparr>)"
    using storeItems_run [OF assms] by blast
  with False show ?thesis by (auto simp: processStoryBody_def Let_def op_bind_def op_wrap_def)
qed

text \<open>
  A story delivered to a running order the device holds is acknowledged only after it is
  stored: the story is held under its composite key with the wire identifier, the running order
  and the cues of the body it came with. On a consistent store the delivery cannot fail.
\<close>

theorem story_send_stored:
  assumes ok: "svc_ok s" and ids: "TrimSpace (rss_ROID m) \<noteq> []" "TrimSpace (rss_StoryID m) \<noteq> []"
    and ro: "gm_get (runningOrderRepo s) (rss_ROID m) = Some ro"
  shows "\<exists>s' st. ProcessROStorySend e m s = (Inr (), s') \<and>
     gm_get (storyRepo s') (storyPersistenceID (rss_ROID m) (rss_StoryID m)) = Some st \<and>
     story_RawID st = rss_StoryID m \<and> story_RunningOrderID st = rss_ROID m \<and>
     story_Cues st = collectCues e (rss_StoryBody m)"
proof -
  let ?k = "storyPersistenceID (rss_ROID m) (rss_StoryID m)"
  let ?r = "MemoryStory_Get (storyRepo s) ?k"
  let ?st = "(sent_story e m ?k ?r)\<lparr>story_Cues := collectCues e (rss_StoryBody m)\<rparr>"
  obtain im where im: "processStoryBody e (sent_story e m ?k ?r) (rss_StoryBody m) s = (Inr ?st, s\<lparr>itemRepo := im\<rparr>)"
    using processStoryBody_run [OF ok] by blast
  let ?s1 = "s\<lparr>itemRepo := im\<rparr>"
  have id: "story_ID ?st = ?k"
    using repo_ok_keyD [OF svc_ok_repoD(2) [OF ok]]
    by (cases "gm_get (storyRepo s) ?k") (simp_all add: sent_story_def MemoryStory_Get_def)
  have store: "(if isl ?r then op_wrap ''failed to create story from roStorySend'' (story_Create ?st)
              else op_wrap ''failed to update story from roStorySend'' (story_Update ?st)) ?s1 =
      (Inr (), ?s1\<lparr>storyRepo := gm_set ?k ?st (storyRepo s)\<rparr>)"
  proof (cases "gm_get (storyRepo s) ?k")
    case None
    then show ?thesis using story_Create_new [of ?s1 ?st] id by (simp add: MemoryStory_Get_def)
  next
    case (Some w)
    then show ?thesis using story_Update_held [of ?s1 ?st w] id by (simp add: MemoryStory_Get_def)
  qed
  have "ProcessROStorySend e m s =
      publish StoryReceived (PString (rss_StoryID m)) (?s1\<lparr>storyRepo := gm_set ?k ?st (storyRepo s)\<rparr>)"
    using ids ro store
    by (simp add: ProcessROStorySend_def unknown_ro_check_def op_bind_def op_try_app ro_Get_held Let_def
        op_wrap_def [of _ "processStoryBody _ _ _"] im story_Get_def split del: if_split)
  then show ?thesis by (auto simp: publish_app gomap_simps sent_story_def split: sum.splits)
qed

theorem story_send_stored_witness:
  "\<exists>s' st. ProcessROStorySend example_env \<lparr>rss_ROID = ''R'', rss_StoryID = ''D'', rss_StorySlug = [], rss_StoryNum = [],
     rss_StoryBody = example_body, rss_ExternalMeta = []\<rparr> example_service = (Inr (), s') \<and>
     gm_get (storyRepo s') (storyPersistenceID ''R'' ''D'') = Some st \<and> story_RawID st = ''D''"
proof -
  let ?m = "\<lparr>rss_ROID = ''R'', rss_StoryID = ''D'', rss_StorySlug = [], rss_StoryNum = [],
     rss_StoryBody = example_body, rss_ExternalMeta = []\<rparr>"
  have i: "TrimSpace (rss_ROID ?m) \<noteq> []" "TrimSpace (rss_StoryID ?m) \<noteq> []" by code_simp+
  have r: "rss_ROID ?m = ''R''" "rss_StoryID ?m = ''D''" by simp_all
  from story_send_stored [OF example_service_ok i, of _ example_env, unfolded r, OF example_ro] show ?thesis by auto
qed

end
