(* ===== verification/Dedup.thy ===== *)
theory Dedup
  imports Prelude
begin

text \<open>
  Deduplication of retried messages in memory (\<open>src/internal/server/dedup.go\<close>). The code keeps a
  map from keys to elements of a linked list, oldest first, and updates an entry through the map.
  The sharing is modelled: a list element has an identity and the map holds identities. The
  abstract store is one bounded queue of entries, and every operation refines its abstract
  counterpart.

  \<open>contentHash\<close> is SHA-256 in hexadecimal. It is the argument \<open>hash\<close> of the operations: nothing
  depends on which function it is.
\<close>

section \<open>The store\<close>

datatype DedupResult = DedupNew | DedupDuplicate | DedupConflict

record dedupEntry =
  de_key :: string
  de_hash :: string
  de_response :: "string option"

record MemoryDedupStore =
  ds_capacity :: nat
  ds_entries :: "nat gomap"
  ds_order :: "(nat \<times> dedupEntry) list"
  ds_fresh :: nat

definition defaultDedupCapacity :: nat where
  "defaultDedupCapacity = 4096"

definition NewMemoryDedupStoreWithCapacity :: "int \<Rightarrow> MemoryDedupStore" where
  "NewMemoryDedupStoreWithCapacity capacity =
     \<lparr>ds_capacity = (if capacity \<le> 0 then defaultDedupCapacity else nat capacity),
      ds_entries = [], ds_order = [], ds_fresh = 0\<rparr>"

definition NewMemoryDedupStore :: MemoryDedupStore where
  "NewMemoryDedupStore = NewMemoryDedupStoreWithCapacity (int defaultDedupCapacity)"

definition nul :: char where "nul = CHR 0x00"

definition dedupKey :: "string \<Rightarrow> string \<Rightarrow> string \<Rightarrow> string" where
  "dedupKey scope ncsID messageID = scope @ [nul] @ ncsID @ [nul] @ messageID"

text \<open>\<open>for len(d.entries) >= d.capacity { oldest := d.order.Front() ... }\<close>\<close>

function evict :: "MemoryDedupStore \<Rightarrow> MemoryDedupStore" where
  "evict d =
     (if length (ds_entries d) \<ge> ds_capacity d then
        (case ds_order d of
           [] \<Rightarrow> d
         | (_, oldest) # rest \<Rightarrow>
             evict (d\<lparr>ds_order := rest, ds_entries := gm_delete (de_key oldest) (ds_entries d)\<rparr>))
      else d)"
  by pat_completeness auto
termination by (relation "measure (\<lambda>d. length (ds_order d))") auto

declare evict.simps [simp del]

definition insertLocked :: "dedupEntry \<Rightarrow> MemoryDedupStore \<Rightarrow> MemoryDedupStore" where
  "insertLocked entry d0 =
     (let d = evict d0 in
      d\<lparr>ds_order := ds_order d @ [(ds_fresh d, entry)],
        ds_entries := gm_set (de_key entry) (ds_fresh d) (ds_entries d), ds_fresh := Suc (ds_fresh d)\<rparr>)"

text \<open>Reading and writing an entry through the element the map points to.\<close>

definition element_value :: "MemoryDedupStore \<Rightarrow> nat \<Rightarrow> dedupEntry" where
  "element_value d i = the (map_of (ds_order d) i)"

definition set_element :: "nat \<Rightarrow> (dedupEntry \<Rightarrow> dedupEntry) \<Rightarrow> MemoryDedupStore \<Rightarrow> MemoryDedupStore" where
  "set_element i f d = d\<lparr>ds_order := map (\<lambda>(j, en). (j, if j = i then f en else en)) (ds_order d)\<rparr>"

definition dedup_Check :: "(string \<Rightarrow> string) \<Rightarrow> string \<Rightarrow> string \<Rightarrow> string \<Rightarrow> string \<Rightarrow> MemoryDedupStore \<Rightarrow>
    DedupResult \<times> MemoryDedupStore" where
  "dedup_Check hash scope ncsID messageID content d =
     (let key = dedupKey scope ncsID messageID; h = hash content in
      case gm_get (ds_entries d) key of
        Some i \<Rightarrow> (if de_hash (element_value d i) = h then DedupDuplicate else DedupConflict, d)
      | None \<Rightarrow> (DedupNew, insertLocked \<lparr>de_key = key, de_hash = h, de_response = None\<rparr> d))"

definition dedup_Remember :: "string \<Rightarrow> string \<Rightarrow> string \<Rightarrow> string \<Rightarrow> MemoryDedupStore \<Rightarrow> MemoryDedupStore" where
  "dedup_Remember scope ncsID messageID response d =
     (let key = dedupKey scope ncsID messageID in
      case gm_get (ds_entries d) key of
        Some i \<Rightarrow> set_element i (\<lambda>en. en\<lparr>de_response := Some response\<rparr>) d
      | None \<Rightarrow> insertLocked \<lparr>de_key = key, de_hash = [], de_response = Some response\<rparr> d)"

definition dedup_Response :: "string \<Rightarrow> string \<Rightarrow> string \<Rightarrow> MemoryDedupStore \<Rightarrow> string option" where
  "dedup_Response scope ncsID messageID d =
     (case gm_get (ds_entries d) (dedupKey scope ncsID messageID) of
        None \<Rightarrow> None
      | Some i \<Rightarrow> de_response (element_value d i))"

definition dedup_Len :: "MemoryDedupStore \<Rightarrow> nat" where
  "dedup_Len d = length (ds_entries d)"

definition hashFor :: "string \<Rightarrow> MemoryDedupStore \<Rightarrow> string option" where
  "hashFor key d = map_option (\<lambda>i. de_hash (element_value d i)) (gm_get (ds_entries d) key)"

definition restore :: "string \<Rightarrow> string \<Rightarrow> string option \<Rightarrow> MemoryDedupStore \<Rightarrow> MemoryDedupStore" where
  "restore key h response d =
     (case gm_get (ds_entries d) key of
        Some i \<Rightarrow> set_element i (\<lambda>en. en\<lparr>de_hash := (if h \<noteq> [] then h else de_hash en),
           de_response := (case response of Some (c # cs) \<Rightarrow> Some (c # cs) | _ \<Rightarrow> de_response en)\<rparr>) d
      | None \<Rightarrow> insertLocked \<lparr>de_key = key, de_hash = h, de_response = response\<rparr> d)"

definition snapshot :: "MemoryDedupStore \<Rightarrow> dedupEntry list" where
  "snapshot d = map snd (ds_order d)"

section \<open>The abstract store\<close>

text \<open>A queue of entries with distinct keys, oldest first, with at most \<open>cap\<close> of them.\<close>

definition q_find :: "string \<Rightarrow> dedupEntry list \<Rightarrow> dedupEntry option" where
  "q_find k q = List.find (\<lambda>en. de_key en = k) q"

definition q_insert :: "nat \<Rightarrow> dedupEntry \<Rightarrow> dedupEntry list \<Rightarrow> dedupEntry list" where
  "q_insert cap en q = drop (length q + 1 - cap) q @ [en]"

definition q_update :: "string \<Rightarrow> (dedupEntry \<Rightarrow> dedupEntry) \<Rightarrow> dedupEntry list \<Rightarrow> dedupEntry list" where
  "q_update k f q = map (\<lambda>en. if de_key en = k then f en else en) q"

section \<open>Consistency of map and list\<close>

definition dedup_ok :: "MemoryDedupStore \<Rightarrow> bool" where
  "dedup_ok d \<longleftrightarrow> 0 < ds_capacity d \<and> distinct (map fst (ds_order d)) \<and>
     distinct (map (\<lambda>x. de_key (snd x)) (ds_order d)) \<and> gm_ok (ds_entries d) \<and>
     (\<forall>k i. gm_get (ds_entries d) k = Some i \<longleftrightarrow> (\<exists>en. (i, en) \<in> set (ds_order d) \<and> de_key en = k)) \<and>
     (\<forall>i \<in> set (map fst (ds_order d)). i < ds_fresh d) \<and> length (ds_order d) \<le> ds_capacity d"

lemma dedup_okD:
  assumes "dedup_ok d"
  shows "distinct (map fst (ds_order d))" "distinct (map (\<lambda>x. de_key (snd x)) (ds_order d))" "gm_ok (ds_entries d)"
    "gm_get (ds_entries d) k = Some i \<longleftrightarrow> (\<exists>en. (i, en) \<in> set (ds_order d) \<and> de_key en = k)"
    "0 < ds_capacity d" "length (ds_order d) \<le> ds_capacity d"
  using assms by (simp_all add: dedup_ok_def)

lemma dedup_ok_new: "dedup_ok (NewMemoryDedupStoreWithCapacity c)"
  by (simp add: dedup_ok_def NewMemoryDedupStoreWithCapacity_def defaultDedupCapacity_def)

lemma entries_length:
  assumes "dedup_ok d"
  shows "length (ds_entries d) = length (ds_order d)"
proof -
  have ks: "set (map fst (ds_entries d)) = set (map (\<lambda>x. de_key (snd x)) (ds_order d))"
  proof (intro set_eqI iffI)
    fix k assume "k \<in> set (map fst (ds_entries d))"
    then obtain i where "gm_get (ds_entries d) k = Some i" by (metis dom_map_of_conv_image_fst domD list.set_map)
    then show "k \<in> set (map (\<lambda>x. de_key (snd x)) (ds_order d))" using dedup_okD(4) [OF assms] by force
  next
    fix k assume "k \<in> set (map (\<lambda>x. de_key (snd x)) (ds_order d))"
    then obtain i en where "(i, en) \<in> set (ds_order d)" "de_key en = k" by auto
    then have "gm_get (ds_entries d) k = Some i" using dedup_okD(4) [OF assms] by blast
    then show "k \<in> set (map fst (ds_entries d))" by (force dest: map_of_SomeD)
  qed
  have "length (map fst (ds_entries d)) = card (set (map fst (ds_entries d)))"
    using dedup_okD(3) [OF assms] unfolding gm_ok_def by (rule distinct_card [symmetric])
  also have "\<dots> = length (map (\<lambda>x. de_key (snd x)) (ds_order d))"
    unfolding ks using dedup_okD(2) [OF assms] by (rule distinct_card)
  finally show ?thesis by simp
qed

lemma element_value_in: "dedup_ok d \<Longrightarrow> (i, en) \<in> set (ds_order d) \<Longrightarrow> element_value d i = en"
  by (simp add: element_value_def dedup_okD(1))

lemma q_find_distinct:
  assumes "en \<in> set q" "distinct (map de_key q)"
  shows "q_find (de_key en) q = Some en"
proof (cases "q_find (de_key en) q")
  case None
  with assms(1) show ?thesis by (auto simp: q_find_def dest: find_None_notin)
next
  case (Some x)
  then have "x \<in> set q" "de_key x = de_key en" by (auto simp: q_find_def dest: find_Some_in)
  with assms have "x = en" by (auto simp: distinct_map inj_on_def)
  with Some show ?thesis by simp
qed

lemma lookup_cases:
  assumes "dedup_ok d"
  obtains (held) i en where "gm_get (ds_entries d) k = Some i" "(i, en) \<in> set (ds_order d)" "de_key en = k"
      "element_value d i = en" "q_find k (snapshot d) = Some en"
  | (absent) "gm_get (ds_entries d) k = None" "q_find k (snapshot d) = None" "\<forall>x \<in> set (ds_order d). de_key (snd x) \<noteq> k"
proof (cases "gm_get (ds_entries d) k")
  case None
  then have no: "\<forall>x \<in> set (ds_order d). de_key (snd x) \<noteq> k"
    using dedup_okD(4) [OF assms] by (metis option.distinct(1) prod.collapse)
  then have "q_find k (snapshot d) = None" by (auto simp: q_find_def snapshot_def find_None_iff)
  from None this no show ?thesis by (rule absent)
next
  case (Some i)
  then obtain en where en: "(i, en) \<in> set (ds_order d)" "de_key en = k" using dedup_okD(4) [OF assms] by blast
  have "en \<in> set (snapshot d)" using en(1) by (force simp: snapshot_def)
  moreover have "distinct (map de_key (snapshot d))" using dedup_okD(2) [OF assms] by (simp add: snapshot_def o_def)
  ultimately have "q_find k (snapshot d) = Some en" using q_find_distinct en(2) by blast
  from Some en element_value_in [OF assms en(1)] this show ?thesis by (rule held)
qed

section \<open>Every operation refines the bounded queue\<close>

lemma evict_ok:
  assumes ok: "dedup_ok d"
  shows "dedup_ok (evict d)" "length (ds_order (evict d)) < ds_capacity d"
    "snapshot (evict d) = drop (length (snapshot d) + 1 - ds_capacity d) (snapshot d)"
    "ds_capacity (evict d) = ds_capacity d"
proof -
  have "dedup_ok (evict d) \<and> length (ds_order (evict d)) < ds_capacity d \<and>
    snapshot (evict d) = drop (length (snapshot d) + 1 - ds_capacity d) (snapshot d) \<and> ds_capacity (evict d) = ds_capacity d"
  proof (cases "ds_capacity d \<le> length (ds_entries d)")
    case False
    then have "evict d = d" by (simp add: evict.simps [of d])
    with False ok entries_length [OF ok] show ?thesis by (simp add: snapshot_def)
  next
    case True
    then have full: "length (ds_order d) = ds_capacity d" using entries_length [OF ok] dedup_okD(6) [OF ok] by simp
    then obtain i old rest where order: "ds_order d = (i, old) # rest"
      using dedup_okD(5) [OF ok] by (cases "ds_order d") auto
    define d1 where "d1 = d\<lparr>ds_order := rest, ds_entries := gm_delete (de_key old) (ds_entries d)\<rparr>"
    have "gm_get (ds_entries d1) k = Some j \<longleftrightarrow> (\<exists>en. (j, en) \<in> set rest \<and> de_key en = k)" for k j
    proof (cases "k = de_key old")
      case True
      have "de_key old \<notin> (\<lambda>x. de_key (snd x)) ` set rest" using dedup_okD(2) [OF ok] order by simp
      then have "\<not> (\<exists>en. (j, en) \<in> set rest \<and> de_key en = k)" using True by force
      with True show ?thesis by (simp add: d1_def gm_get_delete)
    next
      case False
      then show ?thesis using dedup_okD(4) [OF ok, of k j] order by (auto simp: d1_def gm_get_delete)
    qed
    then have ok1: "dedup_ok d1" using ok order full unfolding dedup_ok_def by (simp add: d1_def)
    have "length (ds_entries d1) < ds_capacity d1" using entries_length [OF ok1] full order by (simp add: d1_def)
    then have "evict d1 = d1" by (simp add: evict.simps [of d1])
    moreover have "evict d = evict d1" using True order by (simp add: evict.simps [of d] d1_def)
    ultimately have "evict d = d1" by simp
    with ok1 full order show ?thesis by (simp add: d1_def snapshot_def)
  qed
  then show "dedup_ok (evict d)" "length (ds_order (evict d)) < ds_capacity d"
    "snapshot (evict d) = drop (length (snapshot d) + 1 - ds_capacity d) (snapshot d)"
    "ds_capacity (evict d) = ds_capacity d" by simp_all
qed

lemma insertLocked_refines:
  assumes ok: "dedup_ok d" and new: "\<forall>x \<in> set (ds_order d). de_key (snd x) \<noteq> de_key en"
  shows "dedup_ok (insertLocked en d)" "snapshot (insertLocked en d) = q_insert (ds_capacity d) en (snapshot d)"
    "ds_capacity (insertLocked en d) = ds_capacity d"
proof -
  define d1 where "d1 = evict d"
  note ev = evict_ok [OF ok, folded d1_def]
  have sub: "set (snapshot d1) \<subseteq> set (snapshot d)" unfolding ev(3) by (rule set_drop_subset)
  have new1: "\<forall>x \<in> set (ds_order d1). de_key (snd x) \<noteq> de_key en"
  proof
    fix x assume "x \<in> set (ds_order d1)"
    then have "snd x \<in> set (snapshot d1)" by (simp add: snapshot_def)
    then have "snd x \<in> set (snapshot d)" using sub by blast
    then show "de_key (snd x) \<noteq> de_key en" using new by (auto simp: snapshot_def)
  qed
  have fresh: "\<forall>i \<in> set (map fst (ds_order d1)). i < ds_fresh d1" using ev(1) by (simp add: dedup_ok_def)
  have "gm_get (gm_set (de_key en) (ds_fresh d1) (ds_entries d1)) k = Some j \<longleftrightarrow>
      (\<exists>e. (j, e) \<in> set (ds_order d1 @ [(ds_fresh d1, en)]) \<and> de_key e = k)" for k j
    using new1 dedup_okD(4) [OF ev(1), of k j] by (auto simp: gm_get_set)
  moreover have "ds_fresh d1 \<notin> fst ` set (ds_order d1)" using fresh by fastforce
  moreover have "de_key en \<notin> (\<lambda>x. de_key (snd x)) ` set (ds_order d1)" using new1 by force
  ultimately show "dedup_ok (insertLocked en d)"
    using ev(1,2,4) fresh unfolding dedup_ok_def insertLocked_def d1_def [symmetric] Let_def
    by (auto simp: less_Suc_eq)
  show "snapshot (insertLocked en d) = q_insert (ds_capacity d) en (snapshot d)"
    using ev(3) by (simp add: insertLocked_def d1_def [symmetric] snapshot_def q_insert_def Let_def)
  show "ds_capacity (insertLocked en d) = ds_capacity d"
    using ev(4) by (simp add: insertLocked_def d1_def [symmetric] Let_def)
qed

lemma set_element_refines:
  assumes ok: "dedup_ok d" and i: "(i, en) \<in> set (ds_order d)" and keep: "\<And>x. de_key (f x) = de_key x"
  shows "dedup_ok (set_element i f d)" "snapshot (set_element i f d) = q_update (de_key en) f (snapshot d)"
    "ds_capacity (set_element i f d) = ds_capacity d"
proof -
  have ids: "map fst (ds_order (set_element i f d)) = map fst (ds_order d)"
    by (auto simp: set_element_def)
  have keys: "map (\<lambda>x. de_key (snd x)) (ds_order (set_element i f d)) = map (\<lambda>x. de_key (snd x)) (ds_order d)"
    by (auto simp: set_element_def keep)
  have "(\<exists>e. (j, e) \<in> set (ds_order (set_element i f d)) \<and> de_key e = k) \<longleftrightarrow>
      (\<exists>e. (j, e) \<in> set (ds_order d) \<and> de_key e = k)" for j k
    by (force simp: set_element_def keep image_iff)
  moreover have rest: "ds_entries (set_element i f d) = ds_entries d" "ds_fresh (set_element i f d) = ds_fresh d"
      "ds_capacity (set_element i f d) = ds_capacity d" "length (ds_order (set_element i f d)) = length (ds_order d)"
    by (simp_all add: set_element_def)
  ultimately show "dedup_ok (set_element i f d)"
    using ok unfolding dedup_ok_def ids keys rest by blast
  have "(j = i) = (de_key e = de_key en)" if "(j, e) \<in> set (ds_order d)" for j e
    using that i dedup_okD(1,2) [OF ok] unfolding distinct_map inj_on_def by (metis fst_conv snd_conv)
  then show "snapshot (set_element i f d) = q_update (de_key en) f (snapshot d)"
    by (auto simp: set_element_def snapshot_def q_update_def)
  show "ds_capacity (set_element i f d) = ds_capacity d" by (simp add: set_element_def)
qed

text \<open>The operations of the abstract queue.\<close>

definition q_check :: "nat \<Rightarrow> string \<Rightarrow> string \<Rightarrow> dedupEntry list \<Rightarrow> DedupResult \<times> dedupEntry list" where
  "q_check cap k h q =
     (case q_find k q of
        Some en \<Rightarrow> (if de_hash en = h then DedupDuplicate else DedupConflict, q)
      | None \<Rightarrow> (DedupNew, q_insert cap \<lparr>de_key = k, de_hash = h, de_response = None\<rparr> q))"

definition q_remember :: "nat \<Rightarrow> string \<Rightarrow> string \<Rightarrow> dedupEntry list \<Rightarrow> dedupEntry list" where
  "q_remember cap k r q =
     (case q_find k q of
        Some en \<Rightarrow> q_update k (\<lambda>en. en\<lparr>de_response := Some r\<rparr>) q
      | None \<Rightarrow> q_insert cap \<lparr>de_key = k, de_hash = [], de_response = Some r\<rparr> q)"

definition q_response :: "string \<Rightarrow> dedupEntry list \<Rightarrow> string option" where
  "q_response k q = Option.bind (q_find k q) de_response"

definition q_restore :: "nat \<Rightarrow> string \<Rightarrow> string \<Rightarrow> string option \<Rightarrow> dedupEntry list \<Rightarrow> dedupEntry list" where
  "q_restore cap k h response q =
     (case q_find k q of
        Some en \<Rightarrow> q_update k (\<lambda>en. en\<lparr>de_hash := (if h \<noteq> [] then h else de_hash en),
           de_response := (case response of Some (c # cs) \<Rightarrow> Some (c # cs) | _ \<Rightarrow> de_response en)\<rparr>) q
      | None \<Rightarrow> q_insert cap \<lparr>de_key = k, de_hash = h, de_response = response\<rparr> q)"

lemma dedup_Check_refines:
  assumes ok: "dedup_ok d"
  shows "fst (dedup_Check hash s n m c d) = fst (q_check (ds_capacity d) (dedupKey s n m) (hash c) (snapshot d))"
    "snapshot (snd (dedup_Check hash s n m c d)) = snd (q_check (ds_capacity d) (dedupKey s n m) (hash c) (snapshot d))"
    "dedup_ok (snd (dedup_Check hash s n m c d))" "ds_capacity (snd (dedup_Check hash s n m c d)) = ds_capacity d"
  by (cases rule: lookup_cases [OF ok, of "dedupKey s n m"];
      simp add: dedup_Check_def q_check_def ok insertLocked_refines [OF ok] Let_def)+

lemma dedup_Remember_refines:
  assumes ok: "dedup_ok d"
  shows "snapshot (dedup_Remember s n m r d) = q_remember (ds_capacity d) (dedupKey s n m) r (snapshot d)"
    "dedup_ok (dedup_Remember s n m r d)" "ds_capacity (dedup_Remember s n m r d) = ds_capacity d"
  by (cases rule: lookup_cases [OF ok, of "dedupKey s n m"];
      simp add: dedup_Remember_def q_remember_def ok insertLocked_refines [OF ok] set_element_refines [OF ok])+

lemma dedup_Response_refines:
  assumes ok: "dedup_ok d"
  shows "dedup_Response s n m d = q_response (dedupKey s n m) (snapshot d)"
  by (cases rule: lookup_cases [OF ok, of "dedupKey s n m"]) (simp_all add: dedup_Response_def q_response_def)

lemma hashFor_refines:
  assumes ok: "dedup_ok d"
  shows "hashFor k d = map_option de_hash (q_find k (snapshot d))"
  by (cases rule: lookup_cases [OF ok, of k]) (simp_all add: hashFor_def)

lemma restore_refines:
  assumes ok: "dedup_ok d"
  shows "snapshot (restore k h r d) = q_restore (ds_capacity d) k h r (snapshot d)"
    "dedup_ok (restore k h r d)" "ds_capacity (restore k h r d) = ds_capacity d"
  by (cases rule: lookup_cases [OF ok, of k];
      simp add: restore_def q_restore_def ok insertLocked_refines [OF ok] set_element_refines [OF ok])+

section \<open>Histories of calls\<close>

text \<open>The calls that change a store; \<open>run\<close> is any sequence of them.\<close>

datatype dedup_op = CheckOp string string string string | RememberOp string string string string

fun op_key :: "dedup_op \<Rightarrow> string" where
  "op_key (CheckOp s n m c) = dedupKey s n m"
| "op_key (RememberOp s n m r) = dedupKey s n m"

fun is_remember :: "dedup_op \<Rightarrow> bool" where
  "is_remember (RememberOp s n m r) = True"
| "is_remember (CheckOp s n m c) = False"

fun q_exec :: "nat \<Rightarrow> (string \<Rightarrow> string) \<Rightarrow> dedup_op \<Rightarrow> dedupEntry list \<Rightarrow> dedupEntry list" where
  "q_exec cap hash (CheckOp s n m c) q = snd (q_check cap (dedupKey s n m) (hash c) q)"
| "q_exec cap hash (RememberOp s n m r) q = q_remember cap (dedupKey s n m) r q"

text \<open>The calls on any store, each with what its environment answers (\<open>unit\<close> for the memory store).\<close>

fun store_exec :: "('x \<Rightarrow> string \<Rightarrow> string \<Rightarrow> string \<Rightarrow> string \<Rightarrow> 's \<Rightarrow> DedupResult \<times> 's) \<Rightarrow>
    ('x \<Rightarrow> string \<Rightarrow> string \<Rightarrow> string \<Rightarrow> string \<Rightarrow> 's \<Rightarrow> 's) \<Rightarrow> 'x \<times> dedup_op \<Rightarrow> 's \<Rightarrow> 's" where
  "store_exec check remember (x, CheckOp s n m c) st = snd (check x s n m c st)"
| "store_exec check remember (x, RememberOp s n m r) st = remember x s n m r st"

definition dedup_run :: "(string \<Rightarrow> string) \<Rightarrow> dedup_op list \<Rightarrow> MemoryDedupStore \<Rightarrow> MemoryDedupStore" where
  "dedup_run hash ops d =
     fold (store_exec (\<lambda>_ :: unit. dedup_Check hash) (\<lambda>_. dedup_Remember)) (map (Pair ()) ops) d"

lemma snapshot_new: "snapshot (NewMemoryDedupStoreWithCapacity c) = []"
  by (simp add: snapshot_def NewMemoryDedupStoreWithCapacity_def)

section \<open>How long an entry is kept\<close>

text \<open>
  \<open>kept_within j k q\<close>: the queue holds the key and at most \<open>j\<close> entries are newer. An insertion of
  another key makes one more entry newer, and evicts the key only when the store is full of newer
  ones.
\<close>

definition kept_within :: "nat \<Rightarrow> dedupEntry \<Rightarrow> dedupEntry list \<Rightarrow> bool" where
  "kept_within j en q \<longleftrightarrow> (\<exists>older newer. q = older @ en # newer \<and> length newer \<le> j \<and>
     distinct (map de_key q))"

lemma q_find_kept: "kept_within j en q \<Longrightarrow> q_find (de_key en) q = Some en"
  by (rule q_find_distinct) (auto simp: kept_within_def)

lemma kept_insert:
  assumes kept: "kept_within j en q" and j: "Suc j < cap" and len: "length q \<le> cap"
    and new: "q_find (de_key new) q = None"
  shows "kept_within (Suc j) en (q_insert cap new q)"
proof -
  obtain older newer where q: "q = older @ en # newer" "length newer \<le> j" "distinct (map de_key q)"
    using kept by (auto simp: kept_within_def)
  have few: "length q + 1 - cap \<le> length older" using q(1,2) j len by auto
  have nk: "de_key new \<notin> de_key ` set q" using new by (auto simp: q_find_def find_None_iff)
  have split: "q_insert cap new q = drop (length q + 1 - cap) older @ en # (newer @ [new])"
    using few q(1) by (simp add: q_insert_def)
  have "distinct (map de_key (q_insert cap new q))"
  proof -
    have "distinct (map de_key (drop (length q + 1 - cap) q))" using q(3) by (simp add: drop_map [symmetric])
    moreover have "de_key new \<notin> de_key ` set (drop (length q + 1 - cap) q)"
      using nk set_drop_subset by fastforce
    ultimately show ?thesis by (simp add: q_insert_def)
  qed
  then show ?thesis unfolding kept_within_def using split q(2) by fastforce
qed

lemma kept_mono: "kept_within i en q \<Longrightarrow> i \<le> j \<Longrightarrow> kept_within j en q"
  unfolding kept_within_def by (metis le_trans)

lemma kept_update:
  assumes kept: "kept_within j en q" and keep: "\<And>x. de_key (f x) = de_key x"
  shows "kept_within j (if de_key en = k then f en else en) (q_update k f q)"
proof -
  obtain older newer where q: "q = older @ en # newer" "length newer \<le> j" "distinct (map de_key q)"
    using kept by (auto simp: kept_within_def)
  have "map de_key (q_update k f q) = map de_key q" by (simp add: q_update_def keep)
  moreover have "q_update k f q = q_update k f older @ (if de_key en = k then f en else en) # q_update k f newer"
    by (simp add: q_update_def q(1))
  ultimately show ?thesis unfolding kept_within_def using q(2,3) by (metis length_map q_update_def)
qed

lemma q_insert_length: "0 < cap \<Longrightarrow> length (q_insert cap en q) \<le> cap"
  by (simp add: q_insert_def)

lemma q_exec_length: "0 < cap \<Longrightarrow> length q \<le> cap \<Longrightarrow> length (q_exec cap hash op q) \<le> cap"
  by (cases op) (auto simp: q_check_def q_remember_def q_update_def q_insert_length split: option.splits)

fun remembered :: "dedup_op \<Rightarrow> dedupEntry \<Rightarrow> dedupEntry" where
  "remembered (RememberOp s n m r) en = (if dedupKey s n m = de_key en then en\<lparr>de_response := Some r\<rparr> else en)"
| "remembered (CheckOp s n m c) en = en"

lemma remembered_keeps [simp]: "de_key (remembered op en) = de_key en" "de_hash (remembered op en) = de_hash en"
  by (cases op; simp)+

lemma q_exec_kept:
  assumes kept: "kept_within j en q" and j: "Suc j < cap" and len: "length q \<le> cap"
  shows "kept_within (Suc j) (remembered op en) (q_exec cap hash op q)"
proof (cases op)
  case (CheckOp s n m c)
  then show ?thesis using kept_insert [OF kept j len] kept_mono [OF kept]
    by (simp add: q_check_def split: option.split)
next
  case (RememberOp s n m r)
  show ?thesis
  proof (cases "q_find (dedupKey s n m) q")
    case None
    then have "de_key en \<noteq> dedupKey s n m" using q_find_kept [OF kept] by auto
    then show ?thesis using RememberOp None kept_insert [OF kept j len] by (simp add: q_remember_def)
  next
    case (Some x)
    then show ?thesis
      using RememberOp kept_mono [OF kept_update [OF kept, of "\<lambda>en. en\<lparr>de_response := Some r\<rparr>" "dedupKey s n m"], of "Suc j"]
      by (auto simp: q_remember_def)
  qed
qed

lemma q_run_kept:
  assumes "kept_within j en q" "j + length ops < cap" "length q \<le> cap"
  shows "kept_within (j + length ops) (fold remembered ops en) (fold (q_exec cap hash) ops q)"
  using assms
proof (induction ops arbitrary: j en q)
  case (Cons op ops)
  have "kept_within (Suc j) (remembered op en) (q_exec cap hash op q)"
    using Cons.prems by (intro q_exec_kept) auto
  from Cons.IH [OF this] Cons.prems q_exec_length [of cap q hash op] show ?case by simp
qed simp

lemma fold_remembered_keeps [simp]: "de_key (fold remembered ops en) = de_key en" "de_hash (fold remembered ops en) = de_hash en"
  by (induction ops arbitrary: en) simp_all

lemma remembered_other: "(is_remember op \<longrightarrow> op_key op \<noteq> de_key en) \<Longrightarrow> remembered op en = en"
  by (cases op) simp_all

lemma fold_remembered_other:
  "\<forall>op \<in> set ops. is_remember op \<longrightarrow> op_key op \<noteq> de_key en \<Longrightarrow> fold remembered ops en = en"
  by (induction ops arbitrary: en) (simp_all add: remembered_other)

section \<open>The interface of a store\<close>

text \<open>
  \<open>DedupStore\<close> of the code, as both transports use it: \<open>Check\<close>, \<open>Remember\<close> and \<open>Response\<close>. The laws say
  that the calls act on the store's view, the entries oldest first, as on the bounded queue.
\<close>

locale dedup_store =
  fixes hash :: "string \<Rightarrow> string"
    and check :: "'x \<Rightarrow> string \<Rightarrow> string \<Rightarrow> string \<Rightarrow> string \<Rightarrow> 's \<Rightarrow> DedupResult \<times> 's"
    and remember :: "'x \<Rightarrow> string \<Rightarrow> string \<Rightarrow> string \<Rightarrow> string \<Rightarrow> 's \<Rightarrow> 's"
    and response :: "string \<Rightarrow> string \<Rightarrow> string \<Rightarrow> 's \<Rightarrow> string option"
    and view :: "'s \<Rightarrow> dedupEntry list" and cap :: "'s \<Rightarrow> nat" and ok :: "'s \<Rightarrow> bool"
  assumes view_ok: "ok st \<Longrightarrow> distinct (map de_key (view st)) \<and> length (view st) \<le> cap st"
    and check_verdict: "ok st \<Longrightarrow> fst (check x s n m c st) = fst (q_check (cap st) (dedupKey s n m) (hash c) (view st))"
    and check_view: "ok st \<Longrightarrow> view (snd (check x s n m c st)) = snd (q_check (cap st) (dedupKey s n m) (hash c) (view st))"
    and check_ok: "ok st \<Longrightarrow> ok (snd (check x s n m c st)) \<and> cap (snd (check x s n m c st)) = cap st"
    and remember_view: "ok st \<Longrightarrow> view (remember x s n m r st) = q_remember (cap st) (dedupKey s n m) r (view st)"
    and remember_ok: "ok st \<Longrightarrow> ok (remember x s n m r st) \<and> cap (remember x s n m r st) = cap st"
    and response_view: "ok st \<Longrightarrow> response s n m st = q_response (dedupKey s n m) (view st)"
begin

lemma exec_view:
  assumes "ok st"
  shows "view (store_exec check remember xop st) = q_exec (cap st) hash (snd xop) (view st)"
    "ok (store_exec check remember xop st)" "cap (store_exec check remember xop st) = cap st"
proof -
  obtain x op where "xop = (x, op)" by (cases xop)
  then show "view (store_exec check remember xop st) = q_exec (cap st) hash (snd xop) (view st)"
    "ok (store_exec check remember xop st)" "cap (store_exec check remember xop st) = cap st"
    using check_view [OF assms] check_ok [OF assms] remember_view [OF assms] remember_ok [OF assms]
    by (cases op; simp)+
qed

lemma run_view:
  assumes "ok st"
  shows "view (fold (store_exec check remember) ops st) = fold (q_exec (cap st) hash) (map snd ops) (view st) \<and>
    ok (fold (store_exec check remember) ops st) \<and> cap (fold (store_exec check remember) ops st) = cap st"
  using assms
proof (induction ops arbitrary: st)
  case (Cons op ops)
  from Cons.IH [OF exec_view(2) [OF Cons.prems, of op]] show ?case
    by (simp add: exec_view [OF Cons.prems])
qed simp

lemma new_kept:
  assumes st: "ok st" and new: "fst (check x s n m c st) = DedupNew"
  shows "kept_within 0 \<lparr>de_key = dedupKey s n m, de_hash = hash c, de_response = None\<rparr> (view (snd (check x s n m c st)))"
proof -
  have "q_find (dedupKey s n m) (view st) = None"
    using new check_verdict [OF st] by (auto simp: q_check_def split: option.splits if_splits)
  then have "view (snd (check x s n m c st)) =
      q_insert (cap st) \<lparr>de_key = dedupKey s n m, de_hash = hash c, de_response = None\<rparr> (view st)"
    using check_view [OF st] by (simp add: q_check_def)
  moreover have "distinct (map de_key (view (snd (check x s n m c st))))"
    using view_ok check_ok [OF st] by blast
  ultimately show ?thesis unfolding kept_within_def by (auto simp: q_insert_def)
qed

lemma retry_answered:
  assumes st: "ok st" and new: "check x s n m c st = (DedupNew, st1)"
    and fresh: "length before + length after + 1 < cap st"
    and last: "\<forall>op \<in> set after. is_remember (snd op) \<longrightarrow> op_key (snd op) \<noteq> dedupKey s n m"
    and st2: "st2 = fold (store_exec check remember) (before @ (y, RememberOp s n m r) # after) st1"
  shows "response s n m st2 = Some r \<and>
    fst (check z s n m c' st2) = (if hash c' = hash c then DedupDuplicate else DedupConflict)"
proof -
  define k where "k = dedupKey s n m"
  define ops where "ops = map snd before @ RememberOp s n m r # map snd after"
  define en where "en = \<lparr>de_key = k, de_hash = hash c, de_response = None\<rparr>"
  have ok1: "ok st1" "cap st1 = cap st" using check_ok [OF st, of x s n m c] new by simp_all
  have st1: "ok st1" "cap st1 = cap st" "kept_within 0 en (view st1)" "length (view st1) \<le> cap st"
    using ok1 view_ok [OF ok1(1)] new_kept [OF st, of x s n m c] new by (simp_all add: k_def en_def)
  have st2': "ok st2" "view st2 = fold (q_exec (cap st) hash) ops (view st1)"
    using run_view [OF st1(1), of "before @ (y, RememberOp s n m r) # after"] st1(2)
    unfolding st2 [symmetric] by (simp_all add: ops_def)
  define e1 where "e1 = fold remembered (map snd before) en"
  have e1: "de_key e1 = k" "de_hash e1 = hash c" by (simp_all add: e1_def en_def)
  have "fold remembered ops en = fold remembered (map snd after) (e1\<lparr>de_response := Some r\<rparr>)"
    using e1 by (simp add: ops_def e1_def k_def)
  also have "\<dots> = e1\<lparr>de_response := Some r\<rparr>" using last e1 by (intro fold_remembered_other) (simp add: k_def)
  finally have "kept_within (0 + length ops) (e1\<lparr>de_response := Some r\<rparr>) (view st2)"
    using q_run_kept [OF st1(3), of ops "cap st" hash] fresh st1(4) by (simp add: st2'(2) ops_def)
  from q_find_kept [OF this] e1 have find: "q_find k (view st2) = Some (e1\<lparr>de_response := Some r\<rparr>)" by simp
  then show ?thesis using e1(2) response_view [OF st2'(1)] check_verdict [OF st2'(1)]
    by (simp add: q_response_def q_check_def k_def)
qed

end

lemma snapshot_ok: "dedup_ok d \<Longrightarrow> distinct (map de_key (snapshot d)) \<and> length (snapshot d) \<le> ds_capacity d"
  using dedup_okD(2,6) [of d] by (simp add: snapshot_def o_def)

interpretation mem_store: dedup_store hash "\<lambda>_ :: unit. dedup_Check hash" "\<lambda>_. dedup_Remember" dedup_Response
    snapshot ds_capacity dedup_ok
  for hash
  by unfold_locales (simp_all add: snapshot_ok dedup_Check_refines dedup_Remember_refines dedup_Response_refines)

lemma dedup_run_refines:
  assumes "dedup_ok d"
  shows "snapshot (dedup_run hash ops d) = fold (q_exec (ds_capacity d) hash) ops (snapshot d) \<and>
    dedup_ok (dedup_run hash ops d) \<and> ds_capacity (dedup_run hash ops d) = ds_capacity d"
  using mem_store.run_view [OF assms, of hash "map (Pair ()) ops"] by (simp add: dedup_run_def o_def)

lemmas run_snapshot = dedup_run_refines [THEN conjunct1]
lemmas run_ok = dedup_run_refines [THEN conjunct2, THEN conjunct1]
lemmas run_capacity = dedup_run_refines [THEN conjunct2, THEN conjunct2]

lemma append_split_first:
  "x \<notin> set xs \<Longrightarrow> x \<notin> set ys \<Longrightarrow> xs @ x # zs = ys @ x # ws \<longleftrightarrow> xs = ys \<and> zs = ws"
proof (induction xs arbitrary: ys)
  case Nil
  then show ?case by (cases ys) auto
next
  case (Cons a xs)
  then show ?case by (cases ys) auto
qed

lemma dedupKey_inject:
  assumes "nul \<notin> set s" "nul \<notin> set s'" "nul \<notin> set n" "nul \<notin> set n'"
  shows "dedupKey s n m = dedupKey s' n' m' \<longleftrightarrow> s = s' \<and> n = n' \<and> m = m'"
  using assms by (simp add: dedupKey_def append_split_first)

section \<open>Properties\<close>

text \<open>
  C25. Refinement: after any sequence of calls, the map of list elements of \<open>MemoryDedupStore\<close> behaves
  as one queue of at most \<open>capacity\<close> entries with first-in first-out eviction: its content, the
  verdict of the next \<open>Check\<close>, the answer of \<open>Response\<close> and the bound on \<open>Len\<close> are those of the queue.
\<close>

theorem dedup_store_refines_queue:
  "\<exists>q. snapshot (dedup_run hash ops (NewMemoryDedupStoreWithCapacity cap)) = q \<and>
     q = fold (q_exec (if cap \<le> 0 then 4096 else nat cap) hash) ops [] \<and>
     fst (dedup_Check hash scope ncsID messageID content (dedup_run hash ops (NewMemoryDedupStoreWithCapacity cap))) =
       fst (q_check (if cap \<le> 0 then 4096 else nat cap) (dedupKey scope ncsID messageID) (hash content) q) \<and>
     dedup_Response scope ncsID messageID (dedup_run hash ops (NewMemoryDedupStoreWithCapacity cap)) =
       q_response (dedupKey scope ncsID messageID) q \<and>
     dedup_Len (dedup_run hash ops (NewMemoryDedupStoreWithCapacity cap)) = length q \<and>
     length q \<le> (if cap \<le> 0 then 4096 else nat cap)"
proof -
  define n where "n = (if cap \<le> 0 then 4096 else nat cap)"
  define d where "d = dedup_run hash ops (NewMemoryDedupStoreWithCapacity cap)"
  have cap: "ds_capacity (NewMemoryDedupStoreWithCapacity cap) = n"
    by (simp add: n_def NewMemoryDedupStoreWithCapacity_def defaultDedupCapacity_def)
  have ok: "dedup_ok d" and dcap: "ds_capacity d = n" unfolding d_def
    using run_ok [OF dedup_ok_new] run_capacity [OF dedup_ok_new] cap by auto
  have "snapshot d = fold (q_exec n hash) ops []"
    using run_snapshot [OF dedup_ok_new, of hash ops cap] by (simp add: d_def cap snapshot_new)
  moreover have "fst (dedup_Check hash scope ncsID messageID content d) =
      fst (q_check n (dedupKey scope ncsID messageID) (hash content) (snapshot d))"
    using dedup_Check_refines(1) [OF ok] by (simp add: dcap)
  moreover have "dedup_Len d = length (snapshot d)" "length (snapshot d) \<le> n"
    using entries_length [OF ok] dedup_okD(6) [OF ok] dcap by (auto simp: dedup_Len_def snapshot_def)
  ultimately show ?thesis unfolding n_def [symmetric] d_def [symmetric]
    using dedup_Response_refines [OF ok, of scope ncsID messageID] by metis
qed

text \<open>
  C21. A retry is recognised and answered with the original bytes: when a message was new after any
  history, and then fewer calls than the capacity were made, among them one \<open>Remember\<close> of its
  response \<open>r\<close> with no later \<open>Remember\<close> for the same message, then \<open>Response\<close> returns \<open>r\<close>, the same
  content checks as a duplicate, and content with another hash checks as a conflict.
\<close>

theorem retry_replays_response:
  assumes new: "dedup_Check hash s n m c (dedup_run hash ops (NewMemoryDedupStoreWithCapacity cap)) = (DedupNew, d1)"
    and fresh: "length before + length after + 1 < (if cap \<le> 0 then 4096 else nat cap)"
    and last: "\<forall>op \<in> set after. is_remember op \<longrightarrow> op_key op \<noteq> dedupKey s n m"
    and d2: "d2 = dedup_run hash (before @ RememberOp s n m r # after) d1"
  shows "dedup_Response s n m d2 = Some r \<and>
    fst (dedup_Check hash s n m c' d2) = (if hash c' = hash c then DedupDuplicate else DedupConflict)"
proof (rule mem_store.retry_answered [OF run_ok [OF dedup_ok_new] new])
  show "length (map (Pair ()) before) + length (map (Pair ()) after) + 1 <
      ds_capacity (dedup_run hash ops (NewMemoryDedupStoreWithCapacity cap))"
    using fresh run_capacity [OF dedup_ok_new]
    by (simp add: NewMemoryDedupStoreWithCapacity_def defaultDedupCapacity_def split: if_splits)
  show "d2 = fold (store_exec (\<lambda>_ :: unit. dedup_Check hash) (\<lambda>_. dedup_Remember))
      (map (Pair ()) before @ ((), RememberOp s n m r) # map (Pair ()) after) d1"
    using d2 by (simp add: dedup_run_def)
qed (use last in auto)

theorem retry_replays_response_witness:
  shows "dedup_Response ''ro'' ''ncs'' ''7'' (dedup_run id [CheckOp ''ro'' ''ncs'' ''8'' ''b'', RememberOp ''ro'' ''ncs'' ''7'' ''ack'']
        (snd (dedup_Check id ''ro'' ''ncs'' ''7'' ''a'' (dedup_run id [] (NewMemoryDedupStoreWithCapacity 3))))) = Some ''ack''"
proof -
  define d1 where "d1 = snd (dedup_Check id ''ro'' ''ncs'' ''7'' ''a'' (dedup_run id [] (NewMemoryDedupStoreWithCapacity 3)))"
  have "dedup_Check id ''ro'' ''ncs'' ''7'' ''a'' (dedup_run id [] (NewMemoryDedupStoreWithCapacity 3)) = (DedupNew, d1)"
    by (simp add: d1_def dedup_Check_def dedup_run_def NewMemoryDedupStoreWithCapacity_def Let_def)
  from retry_replays_response [OF this, where before = "[CheckOp ''ro'' ''ncs'' ''8'' ''b'']" and after = "[]"]
  show ?thesis unfolding d1_def by simp
qed

end
