(* ===== verification/DedupFile.thy ===== *)
theory DedupFile
  imports Dedup
begin

text \<open>
  The durable deduplication store (\<open>src/internal/server/dedup_file.go\<close>): an append-only log beside
  the memory store, replayed when the store is opened and compacted from the memory store.

  The log is modelled as its complete lines and an unterminated tail, which is what a crash in the
  middle of an append leaves. A line is a record, or text that is not one. The base64 text of the
  response is modelled by the bytes it encodes: it is empty exactly when they are. \<open>too_long\<close> says of
  a record that its line exceeds the scanner's 4 MB buffer. What the file system answers is the
  argument \<open>io\<close> of each call.
\<close>

section \<open>The log\<close>

record dedupRecord =
  rec_Key :: string
  rec_Hash :: string
  rec_Response :: string

datatype log_line = Record dedupRecord | Unreadable

record log_file =
  lf_lines :: "log_line list"
  lf_tail :: "log_line option"

definition log_append :: "dedupRecord \<Rightarrow> log_file \<Rightarrow> log_file" where
  "log_append rec f =
     f\<lparr>lf_lines := lf_lines f @ [case lf_tail f of None \<Rightarrow> Record rec | Some _ \<Rightarrow> Unreadable], lf_tail := None\<rparr>"

definition log_scan :: "log_file \<Rightarrow> log_line list" where
  "log_scan f = lf_lines f @ (case lf_tail f of None \<Rightarrow> [] | Some l \<Rightarrow> [l])"

record io_outcome =
  io_mkdir :: bool
  io_open :: bool
  io_write :: bool
  io_partial :: "log_line option"
  io_create_tmp :: bool
  io_write_tmp :: bool
  io_rename :: bool
  io_reopen :: bool

definition io_ok :: io_outcome where
  "io_ok = \<lparr>io_mkdir = True, io_open = True, io_write = True, io_partial = None,
     io_create_tmp = True, io_write_tmp = True, io_rename = True, io_reopen = True\<rparr>"

section \<open>The store\<close>

text \<open>\<open>fd_log\<close> is the content of \<open>dedup.log\<close>, \<open>None\<close> when the file does not exist; \<open>fd_writer\<close> says that
  the handle is open.\<close>

record FileDedupStore =
  fd_mem :: MemoryDedupStore
  fd_log :: "log_file option"
  fd_writer :: bool
  fd_appends :: nat
  fd_compactA :: nat
  fd_degraded :: bool

definition replay_line :: "log_line \<Rightarrow> MemoryDedupStore \<Rightarrow> MemoryDedupStore" where
  "replay_line line mem =
     (case line of
        Unreadable \<Rightarrow> mem
      | Record rec \<Rightarrow>
          if rec_Key rec = [] then mem
          else restore (rec_Key rec) (rec_Hash rec) (if rec_Response rec \<noteq> [] then Some (rec_Response rec) else None) mem)"

fun fits :: "(dedupRecord \<Rightarrow> bool) \<Rightarrow> log_line \<Rightarrow> bool" where
  "fits too_long (Record rec) = (\<not> too_long rec)"
| "fits too_long Unreadable = True"

definition replay :: "(dedupRecord \<Rightarrow> bool) \<Rightarrow> log_file option \<Rightarrow> MemoryDedupStore \<Rightarrow> MemoryDedupStore" where
  "replay too_long file mem =
     (case file of
        None \<Rightarrow> mem
      | Some f \<Rightarrow> fold replay_line (takeWhile (fits too_long) (log_scan f)) mem)"

definition OpenFileDedupStore :: "(dedupRecord \<Rightarrow> bool) \<Rightarrow> io_outcome \<Rightarrow> string \<Rightarrow> int \<Rightarrow> log_file option \<Rightarrow> FileDedupStore" where
  "OpenFileDedupStore too_long io dir capacity file =
     (let mem = NewMemoryDedupStoreWithCapacity capacity;
          s = \<lparr>fd_mem = mem, fd_log = file, fd_writer = False, fd_appends = 0,
               fd_compactA = ds_capacity mem * 4, fd_degraded = False\<rparr> in
      if dir = [] then s\<lparr>fd_degraded := True\<rparr>
      else if \<not> io_mkdir io then s\<lparr>fd_degraded := True\<rparr>
      else
        let s = s\<lparr>fd_mem := replay too_long file mem\<rparr> in
        if \<not> io_open io then s\<lparr>fd_degraded := True\<rparr>
        else s\<lparr>fd_writer := True, fd_log := Some (case file of None \<Rightarrow> \<lparr>lf_lines = [], lf_tail = None\<rparr> | Some f \<Rightarrow> f)\<rparr>)"

definition entry_record :: "dedupEntry \<Rightarrow> dedupRecord" where
  "entry_record en = \<lparr>rec_Key = de_key en, rec_Hash = de_hash en,
     rec_Response = (case de_response en of Some r \<Rightarrow> r | None \<Rightarrow> [])\<rparr>"

definition compactLocked :: "io_outcome \<Rightarrow> FileDedupStore \<Rightarrow> FileDedupStore" where
  "compactLocked io s =
     (let entries = snapshot (fd_mem s) in
      if \<not> io_create_tmp io then s\<lparr>fd_appends := 0\<rparr>
      else if \<not> io_write_tmp io then s\<lparr>fd_appends := 0\<rparr>
      else if \<not> io_rename io then s\<lparr>fd_degraded := True\<rparr>
      else
        let s = s\<lparr>fd_log := Some \<lparr>lf_lines = map (\<lambda>en. Record (entry_record en)) entries, lf_tail = None\<rparr>\<rparr> in
        if \<not> io_reopen io then s\<lparr>fd_degraded := True\<rparr>
        else s\<lparr>fd_writer := True, fd_appends := 0\<rparr>)"

definition fd_append :: "io_outcome \<Rightarrow> dedupRecord \<Rightarrow> FileDedupStore \<Rightarrow> FileDedupStore" where
  "fd_append io rec s =
     (if fd_degraded s \<or> \<not> fd_writer s then s
      else if \<not> io_write io then
        s\<lparr>fd_degraded := True,
          fd_log := map_option (\<lambda>f. case io_partial io of None \<Rightarrow> f
            | Some l \<Rightarrow> f\<lparr>lf_tail := Some (case lf_tail f of None \<Rightarrow> l | Some _ \<Rightarrow> Unreadable)\<rparr>) (fd_log s)\<rparr>
      else
        let s = s\<lparr>fd_log := map_option (log_append rec) (fd_log s), fd_appends := fd_appends s + 1\<rparr> in
        if fd_appends s \<ge> fd_compactA s then compactLocked io s else s)"

definition fd_Check :: "(string \<Rightarrow> string) \<Rightarrow> io_outcome \<Rightarrow> string \<Rightarrow> string \<Rightarrow> string \<Rightarrow> string \<Rightarrow> FileDedupStore \<Rightarrow>
    DedupResult \<times> FileDedupStore" where
  "fd_Check hash io scope ncsID messageID content s =
     (let (result, mem) = dedup_Check hash scope ncsID messageID content (fd_mem s);
          s = s\<lparr>fd_mem := mem\<rparr> in
      if result = DedupNew then
        (result, fd_append io \<lparr>rec_Key = dedupKey scope ncsID messageID, rec_Hash = hash content, rec_Response = []\<rparr> s)
      else (result, s))"

definition fd_Remember :: "io_outcome \<Rightarrow> string \<Rightarrow> string \<Rightarrow> string \<Rightarrow> string \<Rightarrow> FileDedupStore \<Rightarrow> FileDedupStore" where
  "fd_Remember io scope ncsID messageID response s0 =
     (let s = s0\<lparr>fd_mem := dedup_Remember scope ncsID messageID response (fd_mem s0)\<rparr>;
          key = dedupKey scope ncsID messageID;
          h = (case hashFor key (fd_mem s) of Some x \<Rightarrow> x | None \<Rightarrow> []) in
      fd_append io \<lparr>rec_Key = key, rec_Hash = h, rec_Response = response\<rparr> s)"

definition fd_Response :: "string \<Rightarrow> string \<Rightarrow> string \<Rightarrow> FileDedupStore \<Rightarrow> string option" where
  "fd_Response scope ncsID messageID s = dedup_Response scope ncsID messageID (fd_mem s)"

definition fd_Len :: "FileDedupStore \<Rightarrow> nat" where
  "fd_Len s = dedup_Len (fd_mem s)"

section \<open>The store implements the interface\<close>

text \<open>Whatever the file system answers: persistence never changes what a running process answers.\<close>

lemma append_mem [simp]: "fd_mem (fd_append io rec s) = fd_mem s"
  by (simp add: fd_append_def compactLocked_def Let_def)

lemma fd_Check_mem:
  "fst (fd_Check hash io s n m c st) = fst (dedup_Check hash s n m c (fd_mem st))"
  "fd_mem (snd (fd_Check hash io s n m c st)) = snd (dedup_Check hash s n m c (fd_mem st))"
  by (simp_all add: fd_Check_def Let_def split: prod.split)

lemma fd_Remember_mem: "fd_mem (fd_Remember io s n m r st) = dedup_Remember s n m r (fd_mem st)"
  by (simp add: fd_Remember_def Let_def)

interpretation file_store: dedup_store hash "fd_Check hash" fd_Remember fd_Response
    "\<lambda>st. snapshot (fd_mem st)" "\<lambda>st. ds_capacity (fd_mem st)" "\<lambda>st. dedup_ok (fd_mem st)"
  for hash
  by unfold_locales (simp_all add: snapshot_ok fd_Check_mem fd_Remember_mem fd_Response_def
      dedup_Check_refines dedup_Remember_refines dedup_Response_refines)

section \<open>Replay on the abstract queue\<close>

definition q_replay_line :: "nat \<Rightarrow> log_line \<Rightarrow> dedupEntry list \<Rightarrow> dedupEntry list" where
  "q_replay_line cap line q =
     (case line of
        Unreadable \<Rightarrow> q
      | Record rec \<Rightarrow>
          if rec_Key rec = [] then q
          else q_restore cap (rec_Key rec) (rec_Hash rec) (if rec_Response rec \<noteq> [] then Some (rec_Response rec) else None) q)"

lemma replay_line_refines:
  assumes "dedup_ok d"
  shows "snapshot (replay_line l d) = q_replay_line (ds_capacity d) l (snapshot d)"
    "dedup_ok (replay_line l d)" "ds_capacity (replay_line l d) = ds_capacity d"
  by (cases l; simp add: replay_line_def q_replay_line_def assms restore_refines [OF assms])+

lemma replay_fold_refines:
  assumes "dedup_ok d"
  shows "snapshot (fold replay_line ls d) = fold (q_replay_line (ds_capacity d)) ls (snapshot d) \<and>
    dedup_ok (fold replay_line ls d) \<and> ds_capacity (fold replay_line ls d) = ds_capacity d"
  using assms
proof (induction ls arbitrary: d)
  case (Cons l ls)
  from Cons.IH [OF replay_line_refines(2) [OF Cons.prems, of l]] show ?case
    by (simp add: replay_line_refines [OF Cons.prems])
qed simp

lemma replay_ok:
  assumes "dedup_ok d"
  shows "dedup_ok (replay too_long f d)" "ds_capacity (replay too_long f d) = ds_capacity d"
  using assms replay_fold_refines [OF assms] by (auto simp: replay_def split: option.split)

lemma q_find_None: "q_find k q = None \<longleftrightarrow> k \<notin> de_key ` set q"
  by (auto simp: q_find_def find_None_iff)

text \<open>The records of a compacted log give back the queue they were taken from.\<close>

definition answered :: "dedupEntry list \<Rightarrow> bool" where
  "answered q \<longleftrightarrow> (\<forall>en \<in> set q. de_key en \<noteq> [] \<and> de_response en \<noteq> Some [])"

lemma q_replay_compacted:
  assumes "distinct (map de_key (p @ q))" "length (p @ q) \<le> cap" "answered q"
  shows "fold (q_replay_line cap) (map (\<lambda>en. Record (entry_record en)) q) p = p @ q"
  using assms
proof (induction q arbitrary: p)
  case (Cons en q)
  have none: "q_find (de_key en) p = None" using Cons.prems(1) by (auto simp: q_find_None)
  have resp: "(if rec_Response (entry_record en) \<noteq> [] then Some (rec_Response (entry_record en)) else None) = de_response en"
    using Cons.prems(3) by (cases "de_response en") (simp_all add: entry_record_def answered_def)
  have key: "rec_Key (entry_record en) = de_key en" "rec_Hash (entry_record en) = de_hash en" "de_key en \<noteq> []"
    using Cons.prems(3) by (simp_all add: entry_record_def answered_def)
  have "length p + 1 - cap = 0" using Cons.prems(2) by simp
  then have "q_replay_line cap (Record (entry_record en)) p = p @ [en]"
    by (simp add: q_replay_line_def key resp q_restore_def none q_insert_def del: One_nat_def)
  with Cons.IH [of "p @ [en]"] Cons.prems show ?case by (simp add: answered_def)
qed simp

section \<open>Histories with restarts\<close>

text \<open>A restart drops the memory and the handle and opens the log again.\<close>

datatype file_event = FCheck string string string string | FRemember string string string string | FRestart

fun file_exec :: "(dedupRecord \<Rightarrow> bool) \<Rightarrow> (string \<Rightarrow> string) \<Rightarrow> string \<Rightarrow> int \<Rightarrow> file_event \<Rightarrow> FileDedupStore \<Rightarrow> FileDedupStore" where
  "file_exec too_long hash dir cap (FCheck s n m c) st = snd (fd_Check hash io_ok s n m c st)"
| "file_exec too_long hash dir cap (FRemember s n m r) st = fd_Remember io_ok s n m r st"
| "file_exec too_long hash dir cap FRestart st = OpenFileDedupStore too_long io_ok dir cap (fd_log st)"

definition file_run :: "(dedupRecord \<Rightarrow> bool) \<Rightarrow> (string \<Rightarrow> string) \<Rightarrow> string \<Rightarrow> int \<Rightarrow> file_event list \<Rightarrow> FileDedupStore" where
  "file_run too_long hash dir cap evs =
     fold (file_exec too_long hash dir cap) evs (OpenFileDedupStore too_long io_ok dir cap None)"

fun answers :: "file_event \<Rightarrow> bool" where
  "answers (FRemember s n m r) = (r \<noteq> [])"
| "answers _ = True"

fun memory_ops :: "file_event list \<Rightarrow> dedup_op list" where
  "memory_ops [] = []"
| "memory_ops (FCheck s n m c # evs) = CheckOp s n m c # memory_ops evs"
| "memory_ops (FRemember s n m r # evs) = RememberOp s n m r # memory_ops evs"
| "memory_ops (FRestart # evs) = memory_ops evs"

text \<open>The log replays to the memory.\<close>

definition cap_of :: "int \<Rightarrow> nat" where
  "cap_of cap = (if cap \<le> 0 then 4096 else nat cap)"

definition log_ok :: "(dedupRecord \<Rightarrow> bool) \<Rightarrow> int \<Rightarrow> FileDedupStore \<Rightarrow> bool" where
  "log_ok too_long cap st \<longleftrightarrow> dedup_ok (fd_mem st) \<and> ds_capacity (fd_mem st) = cap_of cap \<and>
     answered (snapshot (fd_mem st)) \<and> fd_writer st \<and> \<not> fd_degraded st \<and>
     (\<exists>ls. fd_log st = Some \<lparr>lf_lines = ls, lf_tail = None\<rparr> \<and> list_all (fits too_long) ls \<and>
        fold (q_replay_line (cap_of cap)) ls [] = snapshot (fd_mem st))"

lemma capacity_new [simp]: "ds_capacity (NewMemoryDedupStoreWithCapacity cap) = cap_of cap"
  by (simp add: cap_of_def NewMemoryDedupStoreWithCapacity_def defaultDedupCapacity_def)

lemma replay_log:
  assumes "list_all (fits too_long) ls"
  shows "snapshot (replay too_long (Some \<lparr>lf_lines = ls, lf_tail = None\<rparr>) (NewMemoryDedupStoreWithCapacity cap)) =
    fold (q_replay_line (cap_of cap)) ls []"
proof -
  have all: "takeWhile (fits too_long) ls = ls" using assms by (simp add: list_all_iff takeWhile_eq_all_conv)
  show ?thesis using replay_fold_refines [OF dedup_ok_new, of ls cap]
    by (simp add: replay_def log_scan_def snapshot_new all)
qed

lemma restart_log_ok:
  assumes ok: "log_ok too_long cap st" and dir: "dir \<noteq> []"
  shows "log_ok too_long cap (OpenFileDedupStore too_long io_ok dir cap (fd_log st)) \<and>
    snapshot (fd_mem (OpenFileDedupStore too_long io_ok dir cap (fd_log st))) = snapshot (fd_mem st)"
proof -
  obtain ls where ls: "fd_log st = Some \<lparr>lf_lines = ls, lf_tail = None\<rparr>" "list_all (fits too_long) ls"
    "fold (q_replay_line (cap_of cap)) ls [] = snapshot (fd_mem st)"
    using ok by (auto simp: log_ok_def)
  show ?thesis using ok dir ls
    by (simp add: log_ok_def OpenFileDedupStore_def io_ok_def Let_def replay_log replay_ok [OF dedup_ok_new])
qed

lemma open_log_ok: "dir \<noteq> [] \<Longrightarrow> log_ok too_long cap (OpenFileDedupStore too_long io_ok dir cap None)"
  by (simp add: log_ok_def OpenFileDedupStore_def io_ok_def Let_def replay_def dedup_ok_new snapshot_new answered_def)

text \<open>The parts of which the records of a history are made.\<close>

definition record_parts :: "string set \<Rightarrow> string set \<Rightarrow> string set \<Rightarrow> dedupEntry list \<Rightarrow> bool" where
  "record_parts K H R q \<longleftrightarrow> (\<forall>en \<in> set q. de_key en \<in> K \<and> de_hash en \<in> H \<and>
     (case de_response en of None \<Rightarrow> True | Some r \<Rightarrow> r \<in> R))"

definition all_fit :: "(dedupRecord \<Rightarrow> bool) \<Rightarrow> string set \<Rightarrow> string set \<Rightarrow> string set \<Rightarrow> bool" where
  "all_fit too_long K H R \<longleftrightarrow> [] \<in> H \<and> [] \<in> R \<and>
     (\<forall>k \<in> K. \<forall>h \<in> H. \<forall>r \<in> R. \<not> too_long \<lparr>rec_Key = k, rec_Hash = h, rec_Response = r\<rparr>)"

lemma all_fitD: "all_fit too_long K H R \<Longrightarrow> k \<in> K \<Longrightarrow> h \<in> H \<Longrightarrow> r \<in> R \<Longrightarrow>
    \<not> too_long \<lparr>rec_Key = k, rec_Hash = h, rec_Response = r\<rparr>"
  by (simp add: all_fit_def)

lemma compacted_fit:
  assumes "all_fit too_long K H R" "record_parts K H R q" "en \<in> set q"
  shows "\<not> too_long (entry_record en)"
proof -
  have "de_key en \<in> K" "de_hash en \<in> H" "(case de_response en of None \<Rightarrow> [] | Some r \<Rightarrow> r) \<in> R"
    using assms by (auto simp: record_parts_def all_fit_def split: option.splits)
  from all_fitD [OF assms(1) this] show ?thesis by (simp add: entry_record_def)
qed

lemma record_parts_insert:
  "record_parts K H R q \<Longrightarrow> record_parts K H R [en] \<Longrightarrow> record_parts K H R (q_insert cap en q)"
  using set_drop_subset [of "length q + 1 - cap" q] by (auto simp: record_parts_def q_insert_def simp del: One_nat_def)

lemma record_parts_find: "record_parts K H R q \<Longrightarrow> q_find k q = Some en \<Longrightarrow> record_parts K H R [en]"
  by (auto simp: record_parts_def q_find_def dest: find_Some_in)

lemma append_log_ok:
  assumes old: "log_ok too_long cap st" and mem: "dedup_ok mem" "ds_capacity mem = cap_of cap" "answered (snapshot mem)"
    and short: "all_fit too_long K H R" "record_parts K H R (snapshot mem)" "\<not> too_long rec"
    and step: "q_replay_line (cap_of cap) (Record rec) (snapshot (fd_mem st)) = snapshot mem"
  shows "log_ok too_long cap (fd_append io_ok rec (st\<lparr>fd_mem := mem\<rparr>)) \<and> fd_mem (fd_append io_ok rec (st\<lparr>fd_mem := mem\<rparr>)) = mem"
proof -
  have fit: "\<And>en. en \<in> set (snapshot mem) \<Longrightarrow> \<not> too_long (entry_record en)" by (rule compacted_fit [OF short(1,2)])
  obtain ls where ls: "fd_log st = Some \<lparr>lf_lines = ls, lf_tail = None\<rparr>" "\<forall>l \<in> set ls. fits too_long l"
    "fold (q_replay_line (cap_of cap)) ls [] = snapshot (fd_mem st)" and open_st: "fd_writer st" "\<not> fd_degraded st"
    using old by (auto simp: log_ok_def list_all_iff)
  have compacted: "fold (q_replay_line (cap_of cap)) (map (\<lambda>en. Record (entry_record en)) (snapshot mem)) [] = snapshot mem"
    using q_replay_compacted [of "[]" "snapshot mem" "cap_of cap"] mem dedup_okD(2,6) [OF mem(1)]
    by (simp add: snapshot_def o_def)
  show ?thesis
    using mem ls open_st step compacted short(3)
    by (simp add: log_ok_def fd_append_def compactLocked_def io_ok_def Let_def log_append_def list_all_iff fit)
qed

lemma dedupKey_not_Nil [simp]: "dedupKey s n m \<noteq> []"
  by (simp add: dedupKey_def)

lemma answered_insert: "answered q \<Longrightarrow> de_key en \<noteq> [] \<Longrightarrow> de_response en \<noteq> Some [] \<Longrightarrow> answered (q_insert cap en q)"
  using set_drop_subset [of "length q + 1 - cap" q] by (auto simp: answered_def q_insert_def simp del: One_nat_def)

lemma q_update_cong:
  assumes "\<And>x. x \<in> set q \<Longrightarrow> de_key x = k \<Longrightarrow> f x = g x"
  shows "q_update k f q = q_update k g q"
  using assms by (simp add: q_update_def)

lemma q_find_unique:
  assumes "distinct (map de_key q)" "q_find k q = Some en" "x \<in> set q" "de_key x = k"
  shows "x = en"
  using q_find_distinct [OF assms(3,1)] assms(2,4) by simp

lemma check_log_ok:
  assumes ok: "log_ok too_long cap st" and short: "all_fit too_long K H R" "record_parts K H R (snapshot (fd_mem st))"
    and parts: "dedupKey s n m \<in> K" "hash c \<in> H"
  shows "log_ok too_long cap (snd (fd_Check hash io_ok s n m c st)) \<and>
    record_parts K H R (snapshot (fd_mem (snd (fd_Check hash io_ok s n m c st)))) \<and>
    fd_mem (snd (fd_Check hash io_ok s n m c st)) = snd (dedup_Check hash s n m c (fd_mem st))"
proof -
  have mem: "dedup_ok (fd_mem st)" "ds_capacity (fd_mem st) = cap_of cap" "answered (snapshot (fd_mem st))"
    using ok by (simp_all add: log_ok_def)
  from mem(1) show ?thesis
  proof (cases rule: lookup_cases [where k = "dedupKey s n m"])
    case (held i en)
    then show ?thesis using ok short(2) by (simp add: fd_Check_def dedup_Check_def Let_def log_ok_def)
  next
    case absent
    define en where "en = \<lparr>de_key = dedupKey s n m, de_hash = hash c, de_response = None\<rparr>"
    define mem' where "mem' = insertLocked en (fd_mem st)"
    have new: "dedup_Check hash s n m c (fd_mem st) = (DedupNew, mem')"
      using absent by (simp add: dedup_Check_def mem'_def en_def Let_def)
    have k: "\<forall>x \<in> set (ds_order (fd_mem st)). de_key (snd x) \<noteq> de_key en" using absent by (simp add: en_def)
    note ins = insertLocked_refines [OF mem(1) k, folded mem'_def]
    have parts': "record_parts K H R (snapshot mem')"
      unfolding ins by (rule record_parts_insert [OF short(2)]) (simp add: record_parts_def en_def parts)
    have "log_ok too_long cap (fd_append io_ok \<lparr>rec_Key = dedupKey s n m, rec_Hash = hash c, rec_Response = []\<rparr> (st\<lparr>fd_mem := mem'\<rparr>)) \<and>
        fd_mem (fd_append io_ok \<lparr>rec_Key = dedupKey s n m, rec_Hash = hash c, rec_Response = []\<rparr> (st\<lparr>fd_mem := mem'\<rparr>)) = mem'"
    proof (rule append_log_ok [OF ok _ _ _ short(1) parts'])
      show "answered (snapshot mem')" unfolding ins by (rule answered_insert) (simp_all add: mem en_def)
      show "\<not> too_long \<lparr>rec_Key = dedupKey s n m, rec_Hash = hash c, rec_Response = []\<rparr>"
        using short(1) parts by (simp add: all_fit_def)
    qed (use absent ins mem in \<open>simp_all add: q_replay_line_def q_restore_def en_def\<close>)
    then show ?thesis using parts' by (simp add: fd_Check_def new)
  qed
qed

lemma remember_log_ok:
  assumes ok: "log_ok too_long cap st" and short: "all_fit too_long K H R" "record_parts K H R (snapshot (fd_mem st))"
    and parts: "dedupKey s n m \<in> K" "r \<in> R" and r: "r \<noteq> []"
  shows "log_ok too_long cap (fd_Remember io_ok s n m r st) \<and>
    record_parts K H R (snapshot (fd_mem (fd_Remember io_ok s n m r st))) \<and>
    fd_mem (fd_Remember io_ok s n m r st) = dedup_Remember s n m r (fd_mem st)"
proof -
  define k where "k = dedupKey s n m"
  define mem' where "mem' = dedup_Remember s n m r (fd_mem st)"
  define h where "h = (case hashFor k mem' of Some x \<Rightarrow> x | None \<Rightarrow> [])"
  have mem: "dedup_ok (fd_mem st)" "ds_capacity (fd_mem st) = cap_of cap" "answered (snapshot (fd_mem st))"
    using ok by (simp_all add: log_ok_def)
  note ref = dedup_Remember_refines [OF mem(1), of s n m r, folded mem'_def k_def]
  have dist: "distinct (map de_key (snapshot (fd_mem st)))" using dedup_okD(2) [OF mem(1)] by (simp add: snapshot_def o_def)
  have step: "q_replay_line (cap_of cap) (Record \<lparr>rec_Key = k, rec_Hash = h, rec_Response = r\<rparr>) (snapshot (fd_mem st)) = snapshot mem'"
  proof (cases "q_find k (snapshot (fd_mem st))")
    case None
    then have "snapshot mem' = q_insert (cap_of cap) \<lparr>de_key = k, de_hash = [], de_response = Some r\<rparr> (snapshot (fd_mem st))"
      using ref(1) mem(2) by (simp add: q_remember_def)
    moreover then have "hashFor k mem' = Some []"
    proof -
      have "\<lparr>de_key = k, de_hash = [], de_response = Some r\<rparr> \<in> set (snapshot mem')"
        using calculation by (simp add: q_insert_def)
      moreover have "distinct (map de_key (snapshot mem'))" using dedup_okD(2) [OF ref(2)] by (simp add: snapshot_def o_def)
      ultimately have "q_find k (snapshot mem') = Some \<lparr>de_key = k, de_hash = [], de_response = Some r\<rparr>"
        using q_find_distinct by fastforce
      then show ?thesis by (simp add: hashFor_refines [OF ref(2)])
    qed
    ultimately show ?thesis using None r by (simp add: q_replay_line_def q_restore_def h_def k_def)
  next
    case (Some en)
    define f where "f = (\<lambda>e :: dedupEntry. e\<lparr>de_response := Some r\<rparr>)"
    have upd: "snapshot mem' = q_update k f (snapshot (fd_mem st))"
      using ref(1) Some by (simp add: q_remember_def f_def)
    have en: "en \<in> set (snapshot (fd_mem st))" "de_key en = k" using Some by (auto simp: q_find_def dest: find_Some_in)
    then have "f en \<in> set (snapshot mem')" by (force simp: upd q_update_def)
    moreover have "distinct (map de_key (snapshot mem'))" using dedup_okD(2) [OF ref(2)] by (simp add: snapshot_def o_def)
    moreover have "de_key (f en) = k" using en by (simp add: f_def)
    ultimately have "q_find k (snapshot mem') = Some (f en)" using q_find_distinct [of "f en"] by simp
    then have h: "h = de_hash en" by (simp add: h_def hashFor_refines [OF ref(2)] f_def)
    have "snapshot mem' = q_update k (\<lambda>e. e\<lparr>de_hash := (if h \<noteq> [] then h else de_hash e), de_response := Some r\<rparr>) (snapshot (fd_mem st))"
      unfolding upd by (rule q_update_cong) (auto simp: f_def h dest: q_find_unique [OF dist Some])
    then show ?thesis using Some r by (cases r) (simp_all add: q_replay_line_def q_restore_def k_def)
  qed
  have parts': "record_parts K H R (snapshot mem')"
    using short parts unfolding ref(1)
    by (auto simp: q_remember_def k_def record_parts_insert record_parts_def [of _ _ _ "[_]"] all_fit_def split: option.split)
      (auto simp: record_parts_def q_update_def)
  have "h \<in> H"
    using short(1) record_parts_find [OF parts', of k]
    by (auto simp: h_def hashFor_refines [OF ref(2)] record_parts_def all_fit_def split: option.split)
  with all_fitD [OF short(1)] parts have fit: "\<not> too_long \<lparr>rec_Key = k, rec_Hash = h, rec_Response = r\<rparr>"
    by (simp add: k_def)
  have "answered (snapshot mem')"
    using mem(3) r unfolding ref(1) by (auto simp: q_remember_def k_def answered_insert split: option.split)
      (auto simp: answered_def q_update_def)
  from append_log_ok [OF ok ref(2) _ this short(1) parts' fit step] ref(3) mem(2) parts' show ?thesis
    by (simp add: fd_Remember_def Let_def k_def h_def mem'_def)
qed

definition event_parts :: "(string \<Rightarrow> string) \<Rightarrow> string set \<Rightarrow> string set \<Rightarrow> string set \<Rightarrow> file_event \<Rightarrow> bool" where
  "event_parts hash K H R ev =
     (case ev of
        FCheck s n m c \<Rightarrow> dedupKey s n m \<in> K \<and> hash c \<in> H
      | FRemember s n m r \<Rightarrow> dedupKey s n m \<in> K \<and> r \<in> R \<and> r \<noteq> []
      | FRestart \<Rightarrow> True)"

lemma file_exec_log_ok:
  assumes ok: "log_ok too_long cap st" and fit: "all_fit too_long K H R" "record_parts K H R (snapshot (fd_mem st))"
    and ev: "event_parts hash K H R ev" and dir: "dir \<noteq> []"
  shows "log_ok too_long cap (file_exec too_long hash dir cap ev st) \<and>
    record_parts K H R (snapshot (fd_mem (file_exec too_long hash dir cap ev st))) \<and>
    snapshot (fd_mem (file_exec too_long hash dir cap ev st)) =
      fold (q_exec (cap_of cap) hash) (memory_ops [ev]) (snapshot (fd_mem st))"
proof -
  have mem: "dedup_ok (fd_mem st)" "ds_capacity (fd_mem st) = cap_of cap" using ok by (simp_all add: log_ok_def)
  show ?thesis
  proof (cases ev)
    case (FCheck s n m c)
    with check_log_ok [OF ok fit, of s n m hash c] ev show ?thesis
      using dedup_Check_refines(2) [OF mem(1), of hash s n m c] by (auto simp: event_parts_def mem(2))
  next
    case (FRemember s n m r)
    with remember_log_ok [OF ok fit, of s n m r] ev show ?thesis
      using dedup_Remember_refines(1) [OF mem(1), of s n m r] by (auto simp: event_parts_def mem(2))
  next
    case FRestart
    with restart_log_ok [OF ok dir] fit show ?thesis by simp
  qed
qed

lemma memory_ops_Cons: "memory_ops (ev # evs) = memory_ops [ev] @ memory_ops evs"
  by (cases ev) simp_all

lemma file_fold_log_ok:
  assumes "log_ok too_long cap st" "all_fit too_long K H R" "record_parts K H R (snapshot (fd_mem st))"
    "\<forall>ev \<in> set evs. event_parts hash K H R ev" "dir \<noteq> []"
  shows "log_ok too_long cap (fold (file_exec too_long hash dir cap) evs st) \<and>
    snapshot (fd_mem (fold (file_exec too_long hash dir cap) evs st)) =
      fold (q_exec (cap_of cap) hash) (memory_ops evs) (snapshot (fd_mem st))"
  using assms
proof (induction evs arbitrary: st)
  case (Cons ev evs)
  then have "event_parts hash K H R ev" by simp
  note step = file_exec_log_ok [OF Cons.prems(1-3) this Cons.prems(5)]
  from Cons.IH [OF step [THEN conjunct1] Cons.prems(2) step [THEN conjunct2, THEN conjunct1] _ Cons.prems(5)] Cons.prems(4)
  show ?case using step [THEN conjunct2, THEN conjunct2] by (simp add: memory_ops_Cons [of ev evs])
qed simp

text \<open>Everything a history writes fits the scanner, and no remembered response is empty.\<close>

definition event_keys :: "file_event list \<Rightarrow> string set" where
  "event_keys evs = set (map op_key (memory_ops evs))"

fun event_hashes :: "(string \<Rightarrow> string) \<Rightarrow> file_event \<Rightarrow> string list" where
  "event_hashes hash (FCheck s n m c) = [hash c]"
| "event_hashes hash _ = []"

fun event_responses :: "file_event \<Rightarrow> string list" where
  "event_responses (FRemember s n m r) = [r]"
| "event_responses _ = []"

definition history_fits :: "(dedupRecord \<Rightarrow> bool) \<Rightarrow> (string \<Rightarrow> string) \<Rightarrow> file_event list \<Rightarrow> bool" where
  "history_fits too_long hash evs \<longleftrightarrow>
     (\<forall>k \<in> event_keys evs. \<forall>h \<in> set ([] # concat (map (event_hashes hash) evs)).
        \<forall>r \<in> set ([] # concat (map event_responses evs)).
          \<not> too_long \<lparr>rec_Key = k, rec_Hash = h, rec_Response = r\<rparr>)"

lemma event_parts_of:
  assumes "\<forall>ev \<in> set evs. answers ev" "ev \<in> set evs"
  shows "event_parts hash (event_keys evs) (set ([] # concat (map (event_hashes hash) evs)))
    (set ([] # concat (map event_responses evs))) ev"
proof -
  have "set (memory_ops [ev]) \<subseteq> set (memory_ops evs)"
    using assms(2)
  proof (induction evs)
    case (Cons x evs)
    then show ?case unfolding memory_ops_Cons [of x evs] by auto
  qed simp
  then have "op_key ` set (memory_ops [ev]) \<subseteq> event_keys evs" by (auto simp: event_keys_def)
  with assms show ?thesis by (cases ev) (force simp: event_parts_def)+
qed

lemma file_run_log_ok:
  assumes dir: "dir \<noteq> []" and fits: "history_fits too_long hash evs" and ans: "\<forall>ev \<in> set evs. answers ev"
  shows "log_ok too_long cap (file_run too_long hash dir cap evs) \<and>
    snapshot (fd_mem (file_run too_long hash dir cap evs)) =
      snapshot (dedup_run hash (memory_ops evs) (NewMemoryDedupStoreWithCapacity cap))"
proof -
  have new: "snapshot (fd_mem (OpenFileDedupStore too_long io_ok dir cap None)) = []"
    using dir by (simp add: OpenFileDedupStore_def io_ok_def replay_def snapshot_new Let_def)
  have all: "all_fit too_long (event_keys evs) (set ([] # concat (map (event_hashes hash) evs)))
      (set ([] # concat (map event_responses evs)))"
    using fits unfolding all_fit_def history_fits_def by simp
  have "\<forall>ev \<in> set evs. event_parts hash (event_keys evs) (set ([] # concat (map (event_hashes hash) evs)))
      (set ([] # concat (map event_responses evs))) ev"
    using event_parts_of [OF ans] by blast
  from file_fold_log_ok [OF open_log_ok [OF dir] all _ this dir] new show ?thesis
    by (simp add: file_run_def record_parts_def run_snapshot [OF dedup_ok_new] snapshot_new)
qed

section \<open>Properties\<close>

text \<open>
  C16. Restarts are invisible: after any history of \<open>Check\<close>, \<open>Remember\<close> and restarts, in which every
  write succeeds, every written line fits the scanner and no remembered response is empty, the durable
  store holds exactly what a memory store that was never restarted holds after the same calls. So a
  retry after a restart gets the same verdict and the same response, also when the log was compacted
  in between.
\<close>

theorem durable_store_survives_restarts:
  assumes dir: "dir \<noteq> []" and fits: "history_fits too_long hash evs" and ans: "\<forall>ev \<in> set evs. answers ev"
  shows "snapshot (fd_mem (file_run too_long hash dir cap evs)) =
      snapshot (dedup_run hash (memory_ops evs) (NewMemoryDedupStoreWithCapacity cap)) \<and>
    fst (fd_Check hash io_ok scope ncsID messageID content (file_run too_long hash dir cap evs)) =
      fst (dedup_Check hash scope ncsID messageID content (dedup_run hash (memory_ops evs) (NewMemoryDedupStoreWithCapacity cap))) \<and>
    fd_Response scope ncsID messageID (file_run too_long hash dir cap evs) =
      dedup_Response scope ncsID messageID (dedup_run hash (memory_ops evs) (NewMemoryDedupStoreWithCapacity cap))"
proof -
  define st where "st = file_run too_long hash dir cap evs"
  define d where "d = dedup_run hash (memory_ops evs) (NewMemoryDedupStoreWithCapacity cap)"
  have st: "log_ok too_long cap st" "snapshot (fd_mem st) = snapshot d"
    using file_run_log_ok [OF dir fits ans] by (simp_all add: st_def d_def)
  have mem: "dedup_ok (fd_mem st)" "ds_capacity (fd_mem st) = cap_of cap" using st(1) by (simp_all add: log_ok_def)
  have d: "dedup_ok d" "ds_capacity d = cap_of cap"
    using run_ok [OF dedup_ok_new] run_capacity [OF dedup_ok_new] by (auto simp: d_def)
  have "fst (fd_Check hash io_ok scope ncsID messageID content st) = fst (dedup_Check hash scope ncsID messageID content (fd_mem st))"
    by (simp add: fd_Check_def Let_def split: prod.split)
  then show ?thesis unfolding st_def [symmetric] d_def [symmetric]
    using st(2) mem(2) d(2) by (simp add: dedup_Check_refines(1) [OF mem(1)] dedup_Check_refines(1) [OF d(1)]
        fd_Response_def dedup_Response_refines [OF mem(1)] dedup_Response_refines [OF d(1)])
qed

theorem durable_store_survives_restarts_witness:
  "fd_Response ''ro'' ''ncs'' ''7'' (file_run (\<lambda>r. length (rec_Response r) > 9) id ''state'' 1
     [FCheck ''ro'' ''ncs'' ''7'' ''a'', FRestart, FRemember ''ro'' ''ncs'' ''7'' ''ack'', FRestart]) = Some ''ack''"
proof -
  let ?evs = "[FCheck ''ro'' ''ncs'' ''7'' ''a'', FRestart, FRemember ''ro'' ''ncs'' ''7'' ''ack'', FRestart]"
  have "history_fits (\<lambda>r. length (rec_Response r) > 9) id ?evs" "\<forall>ev \<in> set ?evs. answers ev"
    by (simp_all add: history_fits_def)
  from durable_store_survives_restarts [OF _ this, of "''state''" 1 "''ro''" "''ncs''" "''7''"]
  have "fd_Response ''ro'' ''ncs'' ''7'' (file_run (\<lambda>r. length (rec_Response r) > 9) id ''state'' 1 ?evs) =
      dedup_Response ''ro'' ''ncs'' ''7'' (dedup_run id (memory_ops ?evs) (NewMemoryDedupStoreWithCapacity 1))"
    by (metis list.distinct(1))
  also have "\<dots> = Some ''ack''" by code_simp
  finally show ?thesis .
qed

text \<open>
  A failing disk does not touch deduplication: whatever the file system answers to each call, also
  when the directory cannot be made or a write, a rename or a compaction fails, a message that was new
  and whose response was remembered is, within the next calls up to the capacity, recognised as a
  duplicate and answered with the same bytes.
\<close>

theorem durable_store_answers_retry:
  assumes new: "fd_Check hash x s n m c (OpenFileDedupStore too_long io dir cap file) = (DedupNew, st1)"
    and fresh: "length before + length after + 1 < (if cap \<le> 0 then 4096 else nat cap)"
    and last: "\<forall>op \<in> set after. is_remember (snd op) \<longrightarrow> op_key (snd op) \<noteq> dedupKey s n m"
    and st2: "st2 = fold (store_exec (fd_Check hash) fd_Remember) (before @ (y, RememberOp s n m r) # after) st1"
  shows "fd_Response s n m st2 = Some r \<and>
    fst (fd_Check hash z s n m c' st2) = (if hash c' = hash c then DedupDuplicate else DedupConflict)"
proof -
  have open_mem: "dedup_ok (fd_mem (OpenFileDedupStore too_long io dir cap file))"
    "ds_capacity (fd_mem (OpenFileDedupStore too_long io dir cap file)) = cap_of cap"
    by (simp_all add: OpenFileDedupStore_def Let_def dedup_ok_new replay_ok [OF dedup_ok_new])
  show ?thesis
    by (rule file_store.retry_answered [OF open_mem(1) new _ last st2]) (use fresh in \<open>simp add: open_mem(2) cap_of_def\<close>)
qed

theorem durable_store_answers_retry_witness:
  "fd_Response ''ro'' ''ncs'' ''7'' (fd_Remember (io_ok\<lparr>io_write := False\<rparr>) ''ro'' ''ncs'' ''7'' ''ack''
     (snd (fd_Check id io_ok ''ro'' ''ncs'' ''7'' ''a'' (OpenFileDedupStore (\<lambda>_. False) io_ok ''state'' 8 None)))) = Some ''ack''"
proof -
  define st where "st = OpenFileDedupStore (\<lambda>_. False) io_ok ''state'' 8 None"
  have "fst (fd_Check id io_ok ''ro'' ''ncs'' ''7'' ''a'' st) = DedupNew" unfolding st_def by code_simp
  then have new: "fd_Check id io_ok ''ro'' ''ncs'' ''7'' ''a'' st = (DedupNew, snd (fd_Check id io_ok ''ro'' ''ncs'' ''7'' ''a'' st))"
    by (metis prod.collapse)
  from durable_store_answers_retry [OF new [unfolded st_def], where before = "[]" and after = "[]" and y = "io_ok\<lparr>io_write := False\<rparr>"]
  show ?thesis by simp
qed

text \<open>
  What the log loses: when the last append before a crash left an unterminated fragment, the first
  receipt written after the restart continues that line and is unreadable at the following restart, so
  its message checks as new again although it was checked before.
\<close>

theorem receipt_after_fragment_is_lost:
  assumes dir: "dir \<noteq> []" and ls: "\<forall>x \<in> set ls. fits too_long x"
    and st: "st = OpenFileDedupStore too_long io_ok dir cap (Some \<lparr>lf_lines = ls, lf_tail = Some Unreadable\<rparr>)"
    and new: "fd_Check hash io_ok s n m c st = (DedupNew, st1)"
  shows "fst (fd_Check hash io_ok s n m c (OpenFileDedupStore too_long io_ok dir cap (fd_log st1))) = DedupNew"
proof -
  have cap: "0 < cap_of cap" by (simp add: cap_of_def)
  define mem where "mem = fold replay_line ls (NewMemoryDedupStoreWithCapacity cap)"
  have all: "takeWhile (fits too_long) ls = ls" "takeWhile (fits too_long) (ls @ [Unreadable]) = ls @ [Unreadable]"
    using ls by (simp_all add: takeWhile_eq_all_conv)
  have mem: "fd_mem st = mem" "fd_log st = Some \<lparr>lf_lines = ls, lf_tail = Some Unreadable\<rparr>"
    "fd_compactA st = cap_of cap * 4" "fd_appends st = 0" "fd_writer st" "\<not> fd_degraded st"
    using dir by (simp_all add: st OpenFileDedupStore_def io_ok_def Let_def replay_def log_scan_def all mem_def replay_line_def)
  have ck: "fst (dedup_Check hash s n m c mem) = DedupNew"
    using new by (auto simp: fd_Check_def mem(1) Let_def split: prod.splits if_splits)
  have "fd_log st1 = Some \<lparr>lf_lines = ls @ [Unreadable], lf_tail = None\<rparr>"
    using new ck mem cap by (auto simp: fd_Check_def Let_def fd_append_def io_ok_def log_append_def split: prod.splits if_splits)
  then have "fd_mem (OpenFileDedupStore too_long io_ok dir cap (fd_log st1)) = mem"
    using dir by (simp add: OpenFileDedupStore_def io_ok_def Let_def replay_def log_scan_def all mem_def replay_line_def)
  then show ?thesis using ck by (auto simp: fd_Check_def Let_def split: prod.splits)
qed

theorem receipt_after_fragment_is_lost_witness:
  "\<exists>st1. fd_Check id io_ok ''ro'' ''ncs'' ''7'' ''a''
      (OpenFileDedupStore (\<lambda>_. False) io_ok ''state'' 8 (Some \<lparr>lf_lines = [], lf_tail = Some Unreadable\<rparr>)) = (DedupNew, st1) \<and>
     fst (fd_Check id io_ok ''ro'' ''ncs'' ''7'' ''a'' (OpenFileDedupStore (\<lambda>_. False) io_ok ''state'' 8 (fd_log st1))) = DedupNew"
proof -
  define st where "st = OpenFileDedupStore (\<lambda>_. False) io_ok ''state'' 8 (Some \<lparr>lf_lines = [], lf_tail = Some Unreadable\<rparr>)"
  have "fst (fd_Check id io_ok ''ro'' ''ncs'' ''7'' ''a'' st) = DedupNew" unfolding st_def by code_simp
  then have new: "fd_Check id io_ok ''ro'' ''ncs'' ''7'' ''a'' st = (DedupNew, snd (fd_Check id io_ok ''ro'' ''ncs'' ''7'' ''a'' st))"
    by (metis prod.collapse)
  from receipt_after_fragment_is_lost [OF _ _ st_def new] new show ?thesis unfolding st_def by auto
qed

end
