(* ===== verification/MessageID.thy ===== *)
theory MessageID
  imports GoLib
begin

text \<open>
  The durable sequence of message identifiers (\<open>src/internal/messageid/sequence.go\<close>) and the format
  of an identifier (\<open>src/internal/xml/envelope_validate.go\<close>).

  The state of the file system is the map from paths to contents. A write goes to a temporary file
  that is then renamed; \<open>seq_io\<close> says what the system answers. \<open>filepath.Join\<close> is the argument
  \<open>join\<close>. The counters are \<open>int64\<close> in the code and stay within \<open>MaxInt32 + 100\<close>, which
  the invariant shows, so they are integers here.
\<close>

section \<open>The format of an identifier\<close>

definition MaxInt32 :: int where "MaxInt32 = 2147483647"

definition ParseMessageID :: "string \<Rightarrow> int option" where
  "ParseMessageID raw =
     (let (text', base) =
        (if take 2 raw = ''0x'' \<or> take 2 raw = ''0X'' then (drop 2 raw, 16)
         else if take 1 raw = ''x'' \<or> take 1 raw = ''X'' then (drop 1 raw, 16)
         else (raw, 10)) in
      case ParseInt base 32 text' of
        None \<Rightarrow> None
      | Some v \<Rightarrow> if v < 1 then None else Some v)"

definition ValidateOutboundMessageID :: "string \<Rightarrow> bool" where
  "ValidateOutboundMessageID raw \<longleftrightarrow> raw = [] \<or> ParseMessageID raw \<noteq> None"

definition FormatMessageID :: "int \<Rightarrow> string" where
  "FormatMessageID n =
     (if n < 1 then ''1''
      else FormatInt (if n > MaxInt32 then (n - 1) mod MaxInt32 + 1 else n))"

section \<open>The sequence\<close>

definition maxID :: int where "maxID = MaxInt32"

definition defaultBlock :: int where "defaultBlock = 100"

record Sequence =
  seq_next :: int
  seq_reservedTo :: int
  seq_path :: string
  seq_block :: int
  seq_degraded :: bool

type_synonym fs = "string gomap"

datatype seq_io = WriteOk | WriteFails | RenameFails

definition NewInMemory :: Sequence where
  "NewInMemory = \<lparr>seq_next = 1, seq_reservedTo = maxID, seq_path = [], seq_block = defaultBlock, seq_degraded = True\<rparr>"

text \<open>Whether the mark was recorded, and the new state.\<close>

definition reserve :: "seq_io \<Rightarrow> int \<Rightarrow> Sequence \<times> fs \<Rightarrow> bool \<times> Sequence \<times> fs" where
  "reserve io upTo0 = (\<lambda>(s, files).
     if seq_path s = [] then (True, s\<lparr>seq_reservedTo := maxID\<rparr>, files)
     else
       let upTo = (if upTo0 > maxID then maxID else upTo0);
           tmp = seq_path s @ ''.tmp'' in
       case io of
         WriteFails \<Rightarrow> (False, s, files)
       | RenameFails \<Rightarrow> (False, s, gm_delete tmp files)
       | WriteOk \<Rightarrow> (True, s\<lparr>seq_reservedTo := upTo, seq_degraded := False\<rparr>,
           gm_set (seq_path s) (FormatInt upTo) (gm_delete tmp files)))"

definition readMark :: "fs \<Rightarrow> string \<Rightarrow> int" where
  "readMark files path =
     (case gm_get files path of
        None \<Rightarrow> 0
      | Some raw \<Rightarrow>
          (case ParseInt 10 64 (TrimSpace raw) of
             None \<Rightarrow> 0
           | Some v \<Rightarrow> if v < 0 then 0 else if v > maxID then maxID else v))"

definition replaced_in_name :: "char list" where
  "replaced_in_name = ''/'' @ [CHR 0x5C] @ '':*?'' @ [CHR 0x22] @ ''<>|''"

definition safeName :: "string \<Rightarrow> string" where
  "safeName owner =
     map (\<lambda>c. if c \<in> set replaced_in_name then CHR ''_'' else c)
       (if TrimSpace owner = [] then ''default'' else owner) @ ''.messageid''"

text \<open>
  \<open>Open\<close>: \<open>None\<close> is the error return with no sequence; the flag says that an error came with the
  sequence.
\<close>

definition Open :: "(string \<Rightarrow> string \<Rightarrow> string) \<Rightarrow> bool \<Rightarrow> seq_io \<Rightarrow> string \<Rightarrow> string \<Rightarrow> fs \<Rightarrow> (bool \<times> Sequence \<times> fs) option" where
  "Open join mkdir io dir owner files =
     (if TrimSpace dir = [] then Some (True, NewInMemory, files)
      else if \<not> mkdir then None
      else
        let path = join dir (safeName owner);
            next0 = readMark files path + 1;
            s = \<lparr>seq_next = (if next0 < 1 \<or> next0 > maxID then 1 else next0), seq_reservedTo = 0,
                 seq_path = path, seq_block = defaultBlock, seq_degraded = False\<rparr>;
            (ok, s, files) = reserve io (seq_next s + seq_block s - 1) (s, files) in
        if ok then Some (True, s, files)
        else Some (False, s\<lparr>seq_degraded := True, seq_reservedTo := maxID\<rparr>, files))"

definition seq_Next :: "seq_io \<Rightarrow> Sequence \<times> fs \<Rightarrow> string \<times> Sequence \<times> fs" where
  "seq_Next io = (\<lambda>(s0, files).
     let s1 = (if seq_next s0 > maxID then s0\<lparr>seq_next := 1, seq_reservedTo := 0\<rparr> else s0);
         val = seq_next s1;
         s2 = s1\<lparr>seq_next := val + 1\<rparr> in
     if val > seq_reservedTo s2 then
       let (ok, s3, files) = reserve io (val + seq_block s2 - 1) (s2, files) in
       (FormatInt val, if ok then s3 else s3\<lparr>seq_degraded := True, seq_reservedTo := maxID\<rparr>, files)
     else (FormatInt val, s2, files))"

section \<open>Marks on disk\<close>

lemma find_prefix_None:
  assumes "\<forall>e \<in> set es. e \<noteq> [] \<and> hd e \<noteq> c"
  shows "find_prefix es (c # s) = None"
  using assms
proof (induction es)
  case (Cons e es)
  then show ?case by (cases e) auto
qed simp

definition is_digit :: "char \<Rightarrow> bool" where
  "is_digit c = (\<exists>d < 10. c = dec_digit d)"

lemma digits_no_space:
  assumes "is_digit c"
  shows "\<forall>e \<in> set space_encodings. e \<noteq> [] \<and> hd e \<noteq> c" "\<forall>e \<in> set (map rev space_encodings). e \<noteq> [] \<and> hd e \<noteq> c"
proof -
  have "48 \<le> (of_char c :: nat) \<and> (of_char c :: nat) < 58" using assms by (auto simp: is_digit_def of_char_dec_digit)
  moreover have "list_all (\<lambda>e. e \<noteq> [] \<and> \<not> (48 \<le> (of_char (hd e) :: nat) \<and> (of_char (hd e) :: nat) < 58)) (space_encodings @ map rev space_encodings)"
    by code_simp
  ultimately show "\<forall>e \<in> set space_encodings. e \<noteq> [] \<and> hd e \<noteq> c" "\<forall>e \<in> set (map rev space_encodings). e \<noteq> [] \<and> hd e \<noteq> c"
    by (auto simp only: list_all_iff set_append Un_iff)
qed

lemma trim_prefixes_digit:
  "is_digit (hd s) \<Longrightarrow> trim_prefixes space_encodings s = s \<and> trim_prefixes (map rev space_encodings) s = s"
  using find_prefix_None [OF digits_no_space(1)] find_prefix_None [OF digits_no_space(2)]
  by (cases s) (simp_all add: trim_prefixes.simps [of _ "_ # _"])

lemma nat_text_digits: "\<forall>c \<in> set (nat_text n). is_digit c"
proof (induction n rule: nat_text.induct)
  case (1 n)
  show ?case
  proof (cases "n < 10")
    case True
    then show ?thesis by (auto simp: nat_text.simps [of n] is_digit_def)
  next
    case False
    then have "is_digit (dec_digit (n mod 10))" unfolding is_digit_def by (intro exI [of _ "n mod 10"]) simp
    with 1 False show ?thesis by (simp add: nat_text.simps [of n])
  qed
qed

lemma TrimSpace_nat_text: "TrimSpace (nat_text n) = nat_text n"
  using nat_text_digits [of n] trim_prefixes_digit [of "nat_text n"] trim_prefixes_digit [of "rev (nat_text n)"]
  by (simp add: TrimSpace_def trim_left_def trim_right_def hd_rev)

lemma readMark_written:
  assumes "0 \<le> v" "v \<le> maxID"
  shows "readMark (gm_set p (FormatInt v) files) p = v"
proof -
  have "ParseInt 10 64 (FormatInt v) = Some v"
    using assms by (intro ParseInt_FormatInt) (simp_all add: maxID_def MaxInt32_def)
  moreover have "TrimSpace (FormatInt v) = FormatInt v" using assms(1) by (simp add: FormatInt_def TrimSpace_nat_text)
  ultimately show ?thesis using assms by (simp add: readMark_def gm_get_set)
qed

lemma ParseInt_id:
  assumes "1 \<le> v" "v \<le> MaxInt32"
  shows "ParseInt 10 32 (FormatInt v) = Some v"
  using assms by (intro ParseInt_FormatInt) (simp_all add: MaxInt32_def)

lemma FormatInt_inject:
  assumes "1 \<le> v" "v \<le> MaxInt32" "1 \<le> w" "w \<le> MaxInt32" "FormatInt v = FormatInt w"
  shows "v = w"
  using ParseInt_id [OF assms(1,2)] ParseInt_id [OF assms(3,4)] assms(5) by (metis option.inject)

lemma FormatInt_digit_start:
  assumes "0 \<le> v"
  shows "FormatInt v \<noteq> []" "is_digit (hd (FormatInt v))"
  using assms nat_text_digits [of "nat v"] by (simp_all add: FormatInt_def)

lemma nat_text_no_x:
  assumes "c \<in> set (nat_text n)"
  shows "c \<noteq> CHR ''x'' \<and> c \<noteq> CHR ''X''"
proof -
  obtain d where d: "d < 10" "c = dec_digit d" using nat_text_digits assms by (auto simp: is_digit_def)
  then have "(of_char c :: nat) < 58" by (simp add: of_char_dec_digit)
  then show ?thesis by auto
qed

lemma ParseMessageID_FormatInt:
  assumes "1 \<le> v" "v \<le> MaxInt32"
  shows "ParseMessageID (FormatInt v) = Some v"
proof -
  have dec: "FormatInt v = nat_text (nat v)" using assms by (simp add: FormatInt_def)
  have no: "CHR ''x'' \<notin> set (FormatInt v)" "CHR ''X'' \<notin> set (FormatInt v)" unfolding dec using nat_text_no_x by blast+
  have "take k (FormatInt v) \<noteq> cs @ [x]" if "x \<notin> set (FormatInt v)" for k cs x
    using that in_set_takeD [of x k "FormatInt v"] by auto
  from this [of _ 2 "[_]"] this [of _ 1 "[]"] no
  have "take 2 (FormatInt v) \<noteq> ''0x''" "take 2 (FormatInt v) \<noteq> ''0X''" "take 1 (FormatInt v) \<noteq> ''x''" "take 1 (FormatInt v) \<noteq> ''X''"
    by simp_all
  then show ?thesis using assms(1) ParseInt_id [OF assms] by (simp add: ParseMessageID_def)
qed

section \<open>Runs with restarts\<close>

text \<open>Events whose writes succeed: a request for the next identifier, and a restart of the process.\<close>

datatype seq_event = NextEv | RestartEv

definition seq_restart :: "(string \<Rightarrow> string \<Rightarrow> string) \<Rightarrow> string \<Rightarrow> string \<Rightarrow> Sequence \<times> fs \<Rightarrow> Sequence \<times> fs" where
  "seq_restart join dir owner st =
     (case Open join True WriteOk dir owner (snd st) of Some (_, st') \<Rightarrow> st' | None \<Rightarrow> st)"

fun seq_run :: "(string \<Rightarrow> string \<Rightarrow> string) \<Rightarrow> string \<Rightarrow> string \<Rightarrow> seq_event list \<Rightarrow> Sequence \<times> fs \<Rightarrow> string list" where
  "seq_run join dir owner [] st = []"
| "seq_run join dir owner (NextEv # evs) st = fst (seq_Next WriteOk st) # seq_run join dir owner evs (snd (seq_Next WriteOk st))"
| "seq_run join dir owner (RestartEv # evs) st = seq_run join dir owner evs (seq_restart join dir owner st)"

text \<open>
  How many identifiers a run uses up at most: one per request, and the rest of a block per restart.
\<close>

fun ids_used :: "seq_event list \<Rightarrow> nat" where
  "ids_used [] = 0"
| "ids_used (NextEv # evs) = 1 + ids_used evs"
| "ids_used (RestartEv # evs) = 100 + ids_used evs"

text \<open>The counter that does not wrap: \<open>u\<close> identifiers have been used up before the next one.\<close>

definition ring :: nat where "ring = 2147483647"

definition id_at :: "nat \<Rightarrow> string" where
  "id_at u = FormatInt (int (u mod ring) + 1)"

definition seq_at :: "string \<Rightarrow> nat \<Rightarrow> Sequence \<times> fs \<Rightarrow> bool" where
  "seq_at path u = (\<lambda>(s, files). seq_path s = path \<and> seq_block s = 100 \<and> 1 \<le> seq_next s \<and> seq_next s \<le> maxID + 1 \<and>
     seq_next s - 1 \<le> seq_reservedTo s \<and> seq_reservedTo s \<le> maxID \<and> seq_reservedTo s \<le> seq_next s + 99 \<and>
     readMark files path = seq_reservedTo s \<and> int (u mod ring) = (if seq_next s > maxID then 0 else seq_next s - 1))"

lemma ring_pos: "0 < ring" "int ring = maxID"
  by (simp_all add: ring_def maxID_def MaxInt32_def)

lemma reserve_ok:
  assumes "seq_path s \<noteq> []"
  shows "reserve WriteOk v (s, files) = (True, s\<lparr>seq_reservedTo := min v maxID, seq_degraded := False\<rparr>,
     gm_set (seq_path s) (FormatInt (min v maxID)) (gm_delete (seq_path s @ ''.tmp'') files))"
  using assms by (simp add: reserve_def min_def)

lemma Next_at:
  assumes at: "seq_at path u st" and path: "path \<noteq> []"
  shows "fst (seq_Next WriteOk st) = id_at u \<and> seq_at path (Suc u) (snd (seq_Next WriteOk st))"
proof -
  obtain s files where st: "st = (s, files)" by (cases st)
  define v where "v = int (u mod ring) + 1"
  note inv = at [unfolded st seq_at_def split_conv]
  have v: "1 \<le> v" "v \<le> maxID" using ring_pos mod_less_divisor [OF ring_pos(1), of u] by (auto simp: v_def)
  have M: "100 \<le> maxID" by (simp add: maxID_def MaxInt32_def)
  have nxt: "int (Suc u mod ring) = (if v + 1 > maxID then 0 else v)"
    using ring_pos mod_less_divisor [OF ring_pos(1), of u] by (auto simp: v_def mod_Suc)
  define s1 where "s1 = (if seq_next s > maxID then s\<lparr>seq_next := 1, seq_reservedTo := 0\<rparr> else s)"
  have s1: "seq_next s1 = v" "seq_path s1 = path" "seq_block s1 = 100"
    "v - 1 \<le> seq_reservedTo s1" "seq_reservedTo s1 \<le> maxID" "seq_reservedTo s1 \<le> v + 99"
    "v \<le> seq_reservedTo s1 \<longrightarrow> s1 = s"
    using inv M by (auto simp: s1_def v_def split: if_splits)
  show ?thesis
  proof (cases "v \<le> seq_reservedTo s1")
    case True
    then have "seq_Next WriteOk st = (FormatInt v, s1\<lparr>seq_next := v + 1\<rparr>, files)"
      by (simp add: seq_Next_def st s1_def [symmetric] s1(1) Let_def)
    then show ?thesis using True inv s1 v nxt by (simp add: seq_at_def id_at_def v_def [symmetric])
  next
    case False
    then have "seq_Next WriteOk st = (FormatInt v, s1\<lparr>seq_next := v + 1, seq_reservedTo := min (v + 99) maxID, seq_degraded := False\<rparr>,
        gm_set path (FormatInt (min (v + 99) maxID)) (gm_delete (path @ ''.tmp'') files))"
      using s1 path by (simp add: seq_Next_def st s1_def [symmetric] Let_def reserve_ok add.commute)
    then show ?thesis using v nxt s1(2,3) readMark_written [of "min (v + 99) maxID"]
      by (simp add: seq_at_def id_at_def v_def [symmetric] min_le_iff_disj)
  qed
qed

lemma Open_at:
  assumes dir: "TrimSpace dir \<noteq> []" and path: "join dir (safeName owner) \<noteq> []"
    and u: "int (u mod ring) = (if readMark files (join dir (safeName owner)) = maxID then 0 else readMark files (join dir (safeName owner)))"
  shows "\<exists>st. Open join True WriteOk dir owner files = Some (True, st) \<and> seq_at (join dir (safeName owner)) u st"
proof -
  define path where "path = join dir (safeName owner)"
  define m where "m = readMark files path"
  have m: "0 \<le> m" "m \<le> maxID"
    by (auto simp: m_def readMark_def maxID_def MaxInt32_def split: option.split)
  define k where "k = (if m + 1 < 1 \<or> m + 1 > maxID then 1 else m + 1)"
  have k: "1 \<le> k" "k \<le> maxID" "int (u mod ring) = k - 1"
    using m u by (auto simp: k_def maxID_def MaxInt32_def m_def path_def)
  define st where "st = (\<lparr>seq_next = k, seq_reservedTo = min (k + 99) maxID, seq_path = path, seq_block = 100, seq_degraded = False\<rparr>,
      gm_set path (FormatInt (min (k + 99) maxID)) (gm_delete (path @ ''.tmp'') files))"
  have "Open join True WriteOk dir owner files = Some (True, st)"
    using dir path by (auto simp: Open_def Let_def path_def [symmetric] m_def [symmetric] k_def reserve_ok st_def defaultBlock_def add.commute)
  moreover have "seq_at path u st"
    using k readMark_written [of "min (k + 99) maxID"] by (simp add: seq_at_def st_def)
  ultimately show ?thesis by (auto simp: path_def)
qed

lemma restart_at:
  assumes at: "seq_at (join dir (safeName owner)) u st" and dir: "TrimSpace dir \<noteq> []" and path: "join dir (safeName owner) \<noteq> []"
  shows "\<exists>u' \<ge> u. u' \<le> u + 100 \<and> seq_at (join dir (safeName owner)) u' (seq_restart join dir owner st)"
proof -
  obtain s files where st: "st = (s, files)" by (cases st)
  note inv = at [unfolded st seq_at_def split_conv]
  define d where "d = nat (seq_reservedTo s - (seq_next s - 1))"
  have d: "int d = seq_reservedTo s - (seq_next s - 1)" "d \<le> 100" using inv by (auto simp: d_def)
  have "int ((u + d) mod ring) = (if seq_reservedTo s = maxID then 0 else seq_reservedTo s)"
  proof -
    have sum: "int (u mod ring + d) = (if seq_next s > maxID then 0 else seq_reservedTo s)" using inv d by auto
    have "(u + d) mod ring = (u mod ring + d) mod ring" by (simp add: mod_add_left_eq)
    also have "int \<dots> = int (u mod ring + d) mod maxID" by (simp add: ring_pos(2) [symmetric] zmod_int)
    also have "\<dots> = (if seq_reservedTo s = maxID then 0 else seq_reservedTo s)"
      unfolding sum using inv by (auto simp: maxID_def MaxInt32_def)
    finally show ?thesis .
  qed
  moreover have "readMark files (join dir (safeName owner)) = seq_reservedTo s" using inv by simp
  ultimately have "int ((u + d) mod ring) = (if readMark files (join dir (safeName owner)) = maxID then 0
      else readMark files (join dir (safeName owner)))" by simp
  then obtain st' where "Open join True WriteOk dir owner files = Some (True, st')" "seq_at (join dir (safeName owner)) (u + d) st'"
    using Open_at [where join = join and dir = dir and owner = owner and u = "u + d" and files = files, OF dir path] by blast
  with d(2) st show ?thesis by (intro exI [of _ "u + d"]) (simp add: seq_restart_def)
qed

lemma seq_run_ids:
  assumes "seq_at (join dir (safeName owner)) u st" "TrimSpace dir \<noteq> []" "join dir (safeName owner) \<noteq> []"
  shows "\<exists>us. seq_run join dir owner evs st = map id_at us \<and> sorted_wrt (<) us \<and> (\<forall>v \<in> set us. u \<le> v \<and> v < u + ids_used evs)"
  using assms
proof (induction evs arbitrary: u st)
  case Nil
  then show ?case by (intro exI [of _ "[]"]) simp
next
  case (Cons ev evs)
  show ?case
  proof (cases ev)
    case NextEv
    note nx = Next_at [OF Cons.prems(1,3)]
    from Cons.IH [OF nx [THEN conjunct2] Cons.prems(2,3)] obtain us where us:
      "seq_run join dir owner evs (snd (seq_Next WriteOk st)) = map id_at us" "sorted_wrt (<) us"
      "\<forall>v \<in> set us. Suc u \<le> v \<and> v < Suc u + ids_used evs" by blast
    show ?thesis using us nx NextEv by (intro exI [of _ "u # us"]) auto
  next
    case RestartEv
    from restart_at [where join = join and dir = dir and owner = owner, OF Cons.prems] obtain u' where u': "u \<le> u'" "u' \<le> u + 100"
      "seq_at (join dir (safeName owner)) u' (seq_restart join dir owner st)" by auto
    from Cons.IH [OF u'(3) Cons.prems(2,3)] obtain us where us:
      "seq_run join dir owner evs (seq_restart join dir owner st) = map id_at us" "sorted_wrt (<) us"
      "\<forall>v \<in> set us. u' \<le> v \<and> v < u' + ids_used evs" by blast
    show ?thesis using us u' RestartEv by (intro exI [of _ us]) fastforce
  qed
qed

lemma id_at_valid: "ParseMessageID (id_at u) = Some (int (u mod ring) + 1)"
  using ring_pos mod_less_divisor [OF ring_pos(1), of u]
  unfolding id_at_def by (intro ParseMessageID_FormatInt) (auto simp: maxID_def)

lemma id_at_inject:
  assumes "id_at u = id_at v" "u < v"
  shows "ring \<le> v - u"
proof -
  have "u mod ring = v mod ring" using assms(1) id_at_valid [of u] id_at_valid [of v] by simp
  then have "ring dvd v - u" using assms(2) by (metis mod_eq_dvd_iff_nat less_imp_le_nat)
  then show ?thesis using assms(2) by (simp add: dvd_imp_le)
qed

section \<open>Properties\<close>

text \<open>
  C22. No identifier is issued twice: from any content of the state directory, through requests and
  restarts in any order whose writes succeed, the identifiers are pairwise distinct as long as the
  requests and the 100 identifiers each restart may skip do not exhaust the range, and each of them is
  a valid message identifier (a 32-bit signed integer of at least 1).
\<close>

theorem issued_ids_never_repeat:
  assumes dir: "TrimSpace dir \<noteq> []" and path: "join dir (safeName owner) \<noteq> []"
    and few: "ids_used evs \<le> 2147483647"
  shows "distinct (seq_run join dir owner (RestartEv # evs) (NewInMemory, files)) \<and>
    list_all (\<lambda>i. ParseMessageID i \<noteq> None) (seq_run join dir owner (RestartEv # evs) (NewInMemory, files))"
proof -
  define m where "m = readMark files (join dir (safeName owner))"
  have m: "0 \<le> m" "m \<le> maxID" by (auto simp: m_def readMark_def maxID_def MaxInt32_def split: option.split)
  define u where "u = (if m = maxID then 0 else nat m)"
  have "int (u mod ring) = (if m = maxID then 0 else m)"
    using m ring_pos by (auto simp: u_def nat_less_iff)
  from Open_at [where join = join and dir = dir and owner = owner, OF dir path this [unfolded m_def]]
  have at: "seq_at (join dir (safeName owner)) u (seq_restart join dir owner (NewInMemory, files))"
    by (auto simp: seq_restart_def)
  from seq_run_ids [where join = join and dir = dir and owner = owner and evs = evs, OF this dir path]
  obtain us where us: "seq_run join dir owner (RestartEv # evs) (NewInMemory, files) = map id_at us" "sorted_wrt (<) us"
    "\<forall>v \<in> set us. u \<le> v \<and> v < u + ids_used evs" by auto
  have "inj_on id_at (set us)"
  proof (rule linorder_inj_onI')
    fix i j assume ij: "i \<in> set us" "j \<in> set us" "i < j"
    have "u \<le> i" "j < u + ids_used evs" using us(3) ij by auto
    then have "j - i < ring" using few by (simp add: ring_def)
    then show "id_at i \<noteq> id_at j" using id_at_inject [of i j] ij(3) by auto
  qed
  then show ?thesis using us(1,2) id_at_valid by (simp add: distinct_map strict_sorted_iff list_all_iff)
qed

theorem issued_ids_never_repeat_witness:
  "distinct (seq_run (\<lambda>d n. d @ ''/'' @ n) ''state'' ''a.mos'' [RestartEv, NextEv, NextEv, RestartEv, NextEv] (NewInMemory, [])) \<and>
   seq_run (\<lambda>d n. d @ ''/'' @ n) ''state'' ''a.mos'' [RestartEv, NextEv, NextEv, RestartEv, NextEv] (NewInMemory, []) = [''1'', ''2'', ''101'']"
proof (rule conjI)
  have "TrimSpace ''state'' \<noteq> []" by code_simp
  from issued_ids_never_repeat [OF this, where join = "\<lambda>d n. d @ ''/'' @ n" and owner = "''a.mos''" and evs = "[NextEv, NextEv, RestartEv, NextEv]"]
  show "distinct (seq_run (\<lambda>d n. d @ ''/'' @ n) ''state'' ''a.mos'' [RestartEv, NextEv, NextEv, RestartEv, NextEv] (NewInMemory, []))"
    by simp
  show "seq_run (\<lambda>d n. d @ ''/'' @ n) ''state'' ''a.mos'' [RestartEv, NextEv, NextEv, RestartEv, NextEv] (NewInMemory, []) = [''1'', ''2'', ''101'']"
    by code_simp
qed

text \<open>
  C33. Every rendered counter is a valid identifier, and rendering and parsing are inverse: the value
  parsed from \<open>FormatMessageID n\<close> is \<open>n\<close> itself within the range, and the position in the cycle
  \<open>1..MaxInt32\<close> beyond it.
\<close>

theorem format_parse_message_id:
  "ParseMessageID (FormatMessageID n) = Some (if n < 1 then 1 else (n - 1) mod 2147483647 + 1)"
proof -
  have one: "''1'' = FormatInt 1" by code_simp
  have "(n - 1) mod 2147483647 + 1 = n" if "1 \<le> n" "n \<le> MaxInt32" using that by (simp add: MaxInt32_def)
  moreover have "0 \<le> (n - 1) mod 2147483647" "(n - 1) mod 2147483647 < 2147483647" by simp_all
  ultimately show ?thesis
    using ParseMessageID_FormatInt [of 1] ParseMessageID_FormatInt [of n] ParseMessageID_FormatInt [of "(n - 1) mod MaxInt32 + 1"]
    unfolding FormatMessageID_def one by (auto simp: MaxInt32_def)
qed

end
