(* ===== verification/Scope.thy ===== *)
theory Scope
  imports Timing
begin

text \<open>
  Where external metadata may be emitted (\<open>src/internal/xml/scope.go\<close>).
\<close>

datatype MetadataLevel = LevelRunningOrder | LevelStory | LevelItem

definition ScopePermitsLevel :: "go_env \<Rightarrow> string \<Rightarrow> MetadataLevel \<Rightarrow> bool" where
  "ScopePermitsLevel e scope level =
     (let v = ToUpper e (TrimSpace scope) in
      if v = ''OBJECT'' then False
      else if v = ''STORY'' then level = LevelStory \<or> level = LevelItem
      else if v = ''PLAYLIST'' then True
      else True)"

text \<open>A nil slice and an empty one are the same list.\<close>

definition FilterMetadataForLevel :: "go_env \<Rightarrow> MosExternalMetadata list \<Rightarrow> MetadataLevel \<Rightarrow> MosExternalMetadata list" where
  "FilterMetadataForLevel e blocks level = filter (\<lambda>b. ScopePermitsLevel e (mem_MosScope b) level) blocks"

lemma Filter_twice [simp]:
  "FilterMetadataForLevel e (FilterMetadataForLevel e bs l) l = FilterMetadataForLevel e bs l"
  by (simp add: FilterMetadataForLevel_def conj_commute)

text \<open>The levels widen: what may stand at the running order may stand at a story, and stories and items
  carry the same blocks.\<close>

lemma scope_widens:
  "ScopePermitsLevel e sc LevelRunningOrder \<Longrightarrow> ScopePermitsLevel e sc l"
  "ScopePermitsLevel e sc LevelStory = ScopePermitsLevel e sc LevelItem"
  by (auto simp: ScopePermitsLevel_def Let_def split: if_splits)

end
