(* ===== verification/Discovery.thy ===== *)
theory Discovery
  imports Prelude
begin

text \<open>
  The recovery walk of a transport (\<open>src/internal/server/discovery.go\<close>) and the rate limit on
  recovery requests (\<open>src/internal/server/resync.go\<close>).

  A request is identified by its pointer in the code; here the walk holds the current request with a
  number, and callers hold numbers. Every operation takes the clock reading \<open>now\<close> and \<open>io\<close>, which
  says whether the state file can be replaced. A nil walk answers every call with the zero result and
  is not modelled.
\<close>

section \<open>State\<close>

record discoveryRequest =
  dr_rundownID :: string
  dr_scope :: string
  dr_session :: string
  dr_messageID :: string
  dr_native :: bool
  dr_replying :: bool
  dr_expired :: bool

definition zero_request :: discoveryRequest where
  "zero_request = \<lparr>dr_rundownID = [], dr_scope = [], dr_session = [], dr_messageID = [],
     dr_native = False, dr_replying = False, dr_expired = False\<rparr>"

record walkState =
  ws_Pending :: "string list"
  ws_CataloguePending :: bool

record discoveryWalk =
  dw_pending :: "string list"
  dw_inFlight :: string
  dw_cataloguePending :: bool
  dw_catalogueInFlight :: bool
  dw_request :: "(nat \<times> discoveryRequest) option"
  dw_deadline :: int
  dw_timeout :: int
  dw_max :: nat
  dw_path :: string
  dw_degraded :: bool
  dw_fresh :: nat
  dw_file :: "walkState option"

text \<open>Times and durations are nanoseconds; the queue is bounded by \<open>repository.MaxSourceMembers\<close>.\<close>

definition defaultWalkTimeout :: int where "defaultWalkTimeout = 15 * 10 ^ 9"

definition MaxSourceMembers :: nat where "MaxSourceMembers = 512"

definition defaultWalkMax :: nat where "defaultWalkMax = MaxSourceMembers"

definition catalogueFits :: "discoveryWalk \<Rightarrow> nat \<Rightarrow> bool" where
  "catalogueFits w n \<longleftrightarrow> n \<le> dw_max w"

definition newDiscoveryWalk :: discoveryWalk where
  "newDiscoveryWalk = \<lparr>dw_pending = [], dw_inFlight = [], dw_cataloguePending = False, dw_catalogueInFlight = False,
     dw_request = None, dw_deadline = 0, dw_timeout = defaultWalkTimeout, dw_max = defaultWalkMax, dw_path = [],
     dw_degraded = True, dw_fresh = 0, dw_file = None\<rparr>"

text \<open>\<open>path\<close> is the joined path of the state file, \<open>file\<close> what it holds: \<open>None\<close> when it is missing or
  unreadable.\<close>

definition openDiscoveryWalk :: "bool \<Rightarrow> string \<Rightarrow> string \<Rightarrow> walkState option \<Rightarrow> discoveryWalk" where
  "openDiscoveryWalk mkdir dir path file =
     (let w = newDiscoveryWalk\<lparr>dw_file := file\<rparr> in
      if dir = [] then w
      else if \<not> mkdir then w
      else
        let w = w\<lparr>dw_path := path, dw_degraded := False\<rparr> in
        case file of
          None \<Rightarrow> w
        | Some st \<Rightarrow> w\<lparr>dw_pending := take (dw_max w) (ws_Pending st), dw_cataloguePending := ws_CataloguePending st\<rparr>)"

section \<open>Operations\<close>

definition persistLocked :: "bool \<Rightarrow> discoveryWalk \<Rightarrow> discoveryWalk" where
  "persistLocked io w =
     (if dw_degraded w \<or> dw_path w = [] then w
      else
        let pending = (if dw_inFlight w \<noteq> [] then dw_inFlight w # dw_pending w else dw_pending w) in
        if io then w\<lparr>dw_file := Some \<lparr>ws_Pending = pending,
          ws_CataloguePending = (dw_cataloguePending w \<or> dw_catalogueInFlight w)\<rparr>\<rparr>
        else w\<lparr>dw_degraded := True\<rparr>)"

definition set_request :: "discoveryRequest \<Rightarrow> discoveryWalk \<Rightarrow> discoveryWalk" where
  "set_request r w = w\<lparr>dw_request := Some (dw_fresh w, r), dw_fresh := Suc (dw_fresh w)\<rparr>"

definition takeLocked :: "bool \<Rightarrow> int \<Rightarrow> discoveryWalk \<Rightarrow> (string \<times> bool) \<times> discoveryWalk" where
  "takeLocked io now w =
     (if dw_inFlight w \<noteq> [] \<or> dw_catalogueInFlight w then (([], False), w)
      else if dw_cataloguePending w then
        (([], True), persistLocked io
          ((set_request zero_request (w\<lparr>dw_cataloguePending := False, dw_catalogueInFlight := True\<rparr>))
             \<lparr>dw_deadline := now + dw_timeout w\<rparr>))
      else
        case dw_pending w of
          [] \<Rightarrow> (([], False), w)
        | next # rest \<Rightarrow>
            ((next, True), persistLocked io
              ((set_request (zero_request\<lparr>dr_rundownID := next\<rparr>) (w\<lparr>dw_pending := rest, dw_inFlight := next\<rparr>))
                 \<lparr>dw_deadline := now + dw_timeout w\<rparr>)))"

text \<open>\<open>next, ok = w.takeLocked(); if !ok { w.persistLocked() }\<close>\<close>

definition take_or_persist :: "bool \<Rightarrow> int \<Rightarrow> discoveryWalk \<Rightarrow> (string \<times> bool) \<times> discoveryWalk" where
  "take_or_persist io now w =
     (let (r, w) = takeLocked io now w in (r, if snd r then w else persistLocked io w))"

text \<open>One pass over the identifiers: those still listed are queued once.\<close>

fun queue_listed :: "string list \<Rightarrow> string list \<Rightarrow> string list" where
  "queue_listed listed [] = []"
| "queue_listed listed (i # ids) =
     (if i \<in> set listed then i # queue_listed (removeAll i listed) ids else queue_listed listed ids)"

definition walk_begin :: "bool \<Rightarrow> int \<Rightarrow> string list \<Rightarrow> discoveryWalk \<Rightarrow> (string \<times> bool \<times> nat) \<times> discoveryWalk" where
  "walk_begin io now roIDs w0 =
     (let w = w0\<lparr>dw_cataloguePending := False\<rparr>;
          w = (if dw_catalogueInFlight w then w\<lparr>dw_catalogueInFlight := False, dw_request := None\<rparr> else w);
          listed = filter (\<lambda>i. i \<noteq> [] \<and> i \<noteq> dw_inFlight w) roIDs;
          queue = queue_listed listed (dw_pending w @ roIDs);
          dropped = (if length queue > dw_max w then length queue - dw_max w else 0);
          w = w\<lparr>dw_pending := take (dw_max w) queue\<rparr>;
          ((next, ok), w) = take_or_persist io now w in
      ((next, ok, dropped), w))"

definition requestCatalogue :: "bool \<Rightarrow> int \<Rightarrow> discoveryWalk \<Rightarrow> (string \<times> bool) \<times> discoveryWalk" where
  "requestCatalogue io now w =
     (if dw_catalogueInFlight w then
        (([], case dw_request w of None \<Rightarrow> False | Some (_, r) \<Rightarrow> dr_expired r), w)
      else take_or_persist io now (w\<lparr>dw_cataloguePending := True\<rparr>))"

definition registerRequest :: "int \<Rightarrow> string \<Rightarrow> string \<Rightarrow> string \<Rightarrow> string \<Rightarrow> bool \<Rightarrow> discoveryWalk \<Rightarrow>
    nat option \<times> discoveryWalk" where
  "registerRequest now rundownID scope session messageID native w0 =
     (if scope = [] \<or> session = [] \<or> \<not> native \<and> messageID = [] then (None, w0)
      else
        case dw_request w0 of
          None \<Rightarrow> (None, w0)
        | Some (_, r0) \<Rightarrow>
            if dr_rundownID r0 \<noteq> rundownID then (None, w0)
            else
              let w = (if dr_expired r0 \<and> dr_native r0 \<and> dr_session r0 \<noteq> session
                       then set_request (zero_request\<lparr>dr_rundownID := rundownID\<rparr>) w0 else w0) in
              case dw_request w of
                None \<Rightarrow> (None, w)
              | Some (n, r) \<Rightarrow>
                  if dr_session r \<noteq> [] then (None, w)
                  else (Some n, w\<lparr>dw_request := Some (n, r\<lparr>dr_scope := scope, dr_session := session,
                          dr_messageID := messageID, dr_native := native\<rparr>), dw_deadline := now + dw_timeout w\<rparr>))"

definition claimRequest :: "int \<Rightarrow> string \<Rightarrow> string \<Rightarrow> string \<Rightarrow> string \<Rightarrow> discoveryWalk \<Rightarrow> nat option \<times> discoveryWalk" where
  "claimRequest now rundownID scope session messageID w =
     (case dw_request w of
        None \<Rightarrow> (None, w)
      | Some (n, r) \<Rightarrow>
          if dr_rundownID r \<noteq> rundownID \<or> dr_session r = [] \<or> dr_scope r \<noteq> scope \<or> dr_session r \<noteq> session \<or>
             dr_expired r \<or> dr_replying r \<or> \<not> now < dw_deadline w \<or> \<not> dr_native r \<and> dr_messageID r \<noteq> messageID
          then (None, w)
          else (Some n, w\<lparr>dw_request := Some (n, r\<lparr>dr_replying := True\<rparr>)\<rparr>))"

definition releaseRequest :: "nat \<Rightarrow> discoveryWalk \<Rightarrow> discoveryWalk" where
  "releaseRequest n w =
     (case dw_request w of
        Some (n', r) \<Rightarrow> if n' = n then w\<lparr>dw_request := Some (n', r\<lparr>dr_replying := False\<rparr>)\<rparr> else w
      | None \<Rightarrow> w)"

definition failedRequest :: "bool \<Rightarrow> int \<Rightarrow> nat \<Rightarrow> discoveryWalk \<Rightarrow> bool \<times> discoveryWalk" where
  "failedRequest io now n w =
     (case dw_request w of
        None \<Rightarrow> (False, w)
      | Some (n', r) \<Rightarrow>
          if n' \<noteq> n \<or> dr_replying r then (False, w)
          else
            (True, persistLocked io
              (if dr_native r then w\<lparr>dw_request := Some (n', r\<lparr>dr_expired := True\<rparr>), dw_deadline := now\<rparr>
               else if dw_catalogueInFlight w then
                 w\<lparr>dw_catalogueInFlight := False, dw_cataloguePending := True, dw_request := None\<rparr>
               else w\<lparr>dw_pending := dw_inFlight w # dw_pending w, dw_inFlight := [], dw_request := None\<rparr>)))"

definition enqueueUrgent :: "bool \<Rightarrow> int \<Rightarrow> string \<Rightarrow> discoveryWalk \<Rightarrow> (string \<times> bool) \<times> discoveryWalk" where
  "enqueueUrgent io now roID w =
     (if roID = [] then (([], False), w)
      else if dw_inFlight w = roID then (([], False), w)
      else if roID \<in> set (dw_pending w) then (([], False), w)
      else if length (dw_pending w) \<ge> dw_max w then (([], False), w)
      else takeLocked io now (w\<lparr>dw_pending := roID # dw_pending w\<rparr>))"

definition resolved :: "bool \<Rightarrow> int \<Rightarrow> string \<Rightarrow> discoveryWalk \<Rightarrow> (string \<times> bool) \<times> discoveryWalk" where
  "resolved io now roID w =
     (if roID = [] then (([], False), w)
      else if dw_inFlight w \<noteq> roID then (([], False), w)
      else take_or_persist io now (w\<lparr>dw_inFlight := [], dw_request := None\<rparr>))"

definition nudge :: "bool \<Rightarrow> int \<Rightarrow> discoveryWalk \<Rightarrow> (string \<times> bool) \<times> discoveryWalk" where
  "nudge io now w =
     (if dw_inFlight w = [] \<and> \<not> dw_catalogueInFlight w then takeLocked io now w
      else if (case dw_request w of Some (_, r) \<Rightarrow> dr_replying r | None \<Rightarrow> False) \<or> now < dw_deadline w then (([], False), w)
      else
        case dw_request w of
          Some (n, r) \<Rightarrow>
            if dr_native r then ((dw_inFlight w, True), w\<lparr>dw_request := Some (n, r\<lparr>dr_expired := True\<rparr>)\<rparr>)
            else take_or_persist io now (w\<lparr>dw_inFlight := [], dw_request := None, dw_catalogueInFlight := False,
                   dw_cataloguePending := (dw_catalogueInFlight w \<or> dw_cataloguePending w)\<rparr>)
        | None \<Rightarrow> take_or_persist io now (w\<lparr>dw_inFlight := [], dw_request := None, dw_catalogueInFlight := False,
                   dw_cataloguePending := (dw_catalogueInFlight w \<or> dw_cataloguePending w)\<rparr>))"

definition timedOut :: "int \<Rightarrow> discoveryWalk \<Rightarrow> string \<times> bool" where
  "timedOut now w =
     (if (case dw_request w of Some (_, r) \<Rightarrow> dr_replying r \<or> dr_expired r | None \<Rightarrow> False) then ([], False)
      else if dw_inFlight w \<noteq> [] \<and> \<not> now < dw_deadline w then (dw_inFlight w, True)
      else if dw_catalogueInFlight w \<and> \<not> now < dw_deadline w then ([], True)
      else ([], False))"

definition remaining :: "discoveryWalk \<Rightarrow> nat" where
  "remaining w = length (dw_pending w)"

section \<open>The invariant\<close>

text \<open>
  At most one request is outstanding, it is for what is in flight, no running order is queued twice,
  and the walk is bounded. The bound is one above \<open>max\<close>: a failed request returns to a full queue.
\<close>

definition walk_ok :: "discoveryWalk \<Rightarrow> bool" where
  "walk_ok w \<longleftrightarrow> \<not> (dw_inFlight w \<noteq> [] \<and> dw_catalogueInFlight w) \<and>
     distinct (dw_pending w) \<and> [] \<notin> set (dw_pending w) \<and> dw_inFlight w \<notin> set (dw_pending w) \<and>
     length (dw_pending w) + (if dw_inFlight w \<noteq> [] then 1 else 0) \<le> Suc (dw_max w) \<and>
     map_option (\<lambda>r. dr_rundownID (snd r)) (dw_request w) =
       (if dw_inFlight w \<noteq> [] \<or> dw_catalogueInFlight w then Some (dw_inFlight w) else None)"

definition file_ok :: "discoveryWalk \<Rightarrow> bool" where
  "file_ok w \<longleftrightarrow> (case dw_file w of None \<Rightarrow> True | Some st \<Rightarrow> distinct (ws_Pending st) \<and> [] \<notin> set (ws_Pending st))"

lemma persist_fields [simp]:
  "dw_pending (persistLocked io w) = dw_pending w" "dw_inFlight (persistLocked io w) = dw_inFlight w"
  "dw_cataloguePending (persistLocked io w) = dw_cataloguePending w"
  "dw_catalogueInFlight (persistLocked io w) = dw_catalogueInFlight w"
  "dw_request (persistLocked io w) = dw_request w" "dw_max (persistLocked io w) = dw_max w"
  "dw_path (persistLocked io w) = dw_path w" "dw_timeout (persistLocked io w) = dw_timeout w"
  "dw_deadline (persistLocked io w) = dw_deadline w" "dw_fresh (persistLocked io w) = dw_fresh w"
  by (simp_all add: persistLocked_def Let_def)

lemma persist_ok: "walk_ok w \<Longrightarrow> file_ok w \<Longrightarrow> walk_ok (persistLocked io w) \<and> file_ok (persistLocked io w)"
  by (auto simp: walk_ok_def) (auto simp: persistLocked_def file_ok_def Let_def)

lemma set_request_ok:
  assumes "walk_ok w" "file_ok w" "dw_inFlight w = []" "\<not> dw_catalogueInFlight w"
  shows "walk_ok ((set_request zero_request (w\<lparr>dw_cataloguePending := False, dw_catalogueInFlight := True\<rparr>))\<lparr>dw_deadline := t\<rparr>)"
    "dw_pending w = next # rest \<Longrightarrow>
      walk_ok ((set_request (zero_request\<lparr>dr_rundownID := next\<rparr>) (w\<lparr>dw_pending := rest, dw_inFlight := next\<rparr>))\<lparr>dw_deadline := t\<rparr>)"
  using assms by (auto simp: walk_ok_def set_request_def zero_request_def)

lemma take_ok:
  assumes ok: "walk_ok w" "file_ok w"
  shows "walk_ok (snd (takeLocked io now w)) \<and> file_ok (snd (takeLocked io now w))"
proof (cases "dw_inFlight w \<noteq> [] \<or> dw_catalogueInFlight w")
  case True
  with ok show ?thesis by (auto simp: takeLocked_def)
next
  case False
  then have idle: "dw_inFlight w = []" "\<not> dw_catalogueInFlight w" by simp_all
  have "walk_ok (persistLocked io v) \<and> file_ok (persistLocked io v)" if "walk_ok v" "dw_file v = dw_file w" for v
    using that ok(2) by (intro persist_ok) (simp_all add: file_ok_def)
  from this [OF set_request_ok(1) [OF ok idle]] this [OF set_request_ok(2) [OF ok idle]] show ?thesis
    using ok idle by (cases "dw_pending w") (simp_all add: takeLocked_def set_request_def)
qed

lemma take_or_persist_ok:
  assumes "walk_ok w" "file_ok w"
  shows "walk_ok (snd (take_or_persist io now w)) \<and> file_ok (snd (take_or_persist io now w))"
proof -
  obtain r w' where t: "takeLocked io now w = (r, w')" by (cases "takeLocked io now w")
  then show ?thesis using take_ok [OF assms, of io now] persist_ok [of w' io]
    by (simp add: take_or_persist_def)
qed

lemma queue_listed_props:
  "set (queue_listed listed ids) = set listed \<inter> set ids \<and> distinct (queue_listed listed ids)"
  by (induction listed ids rule: queue_listed.induct) auto

text \<open>The walk as \<open>begin\<close> leaves it before it takes the next identifier.\<close>

definition begin_state :: "string list \<Rightarrow> discoveryWalk \<Rightarrow> discoveryWalk" where
  "begin_state roIDs w =
     (let w1 = (if dw_catalogueInFlight w then w\<lparr>dw_cataloguePending := False, dw_catalogueInFlight := False, dw_request := None\<rparr>
                else w\<lparr>dw_cataloguePending := False\<rparr>) in
      w1\<lparr>dw_pending := take (dw_max w)
        (queue_listed (filter (\<lambda>i. i \<noteq> [] \<and> i \<noteq> dw_inFlight w) roIDs) (dw_pending w @ roIDs))\<rparr>)"

lemma walk_begin_state:
  "snd (walk_begin io now ids w) = snd (take_or_persist io now (begin_state ids w))"
  "fst (fst (walk_begin io now ids w)) = fst (fst (take_or_persist io now (begin_state ids w)))"
  "fst (snd (fst (walk_begin io now ids w))) = snd (fst (take_or_persist io now (begin_state ids w)))"
  by (simp_all add: walk_begin_def begin_state_def Let_def split: prod.split)

lemma begin_ok:
  assumes "walk_ok w" "file_ok w"
  shows "walk_ok (snd (walk_begin io now ids w)) \<and> file_ok (snd (walk_begin io now ids w))"
proof -
  define queue where "queue = take (dw_max w) (queue_listed (filter (\<lambda>i. i \<noteq> [] \<and> i \<noteq> dw_inFlight w) ids) (dw_pending w @ ids))"
  have q: "distinct queue" "[] \<notin> set queue" "dw_inFlight w \<notin> set queue" "length queue \<le> dw_max w"
    using queue_listed_props by (auto simp: queue_def dest!: in_set_takeD)
  have "walk_ok (begin_state ids w)"
    unfolding begin_state_def queue_def [symmetric] Let_def using assms(1) q by (auto simp: walk_ok_def)
  moreover have "file_ok (begin_state ids w)" using assms(2) by (simp add: file_ok_def begin_state_def Let_def)
  ultimately show ?thesis using take_or_persist_ok by (simp add: walk_begin_state)
qed

lemma requestCatalogue_ok:
  assumes "walk_ok w" "file_ok w"
  shows "walk_ok (snd (requestCatalogue io now w)) \<and> file_ok (snd (requestCatalogue io now w))"
  using assms take_or_persist_ok [of "w\<lparr>dw_cataloguePending := True\<rparr>"]
  by (auto simp: requestCatalogue_def walk_ok_def file_ok_def)

text \<open>What only marks the current request, or replaces it by one for the same target, keeps the invariant.\<close>

lemma same_walk_ok:
  assumes "walk_ok w" "dw_pending v = dw_pending w" "dw_inFlight v = dw_inFlight w"
    "dw_catalogueInFlight v = dw_catalogueInFlight w" "dw_max v = dw_max w" "dw_file v = dw_file w"
    "map_option (\<lambda>r. dr_rundownID (snd r)) (dw_request v) = map_option (\<lambda>r. dr_rundownID (snd r)) (dw_request w)"
    "file_ok w"
  shows "walk_ok v \<and> file_ok v"
  using assms by (simp add: walk_ok_def file_ok_def)

lemma register_same:
  assumes v: "v = snd (registerRequest now i sc se m ntv w)"
  shows "dw_pending v = dw_pending w" "dw_inFlight v = dw_inFlight w"
    "dw_catalogueInFlight v = dw_catalogueInFlight w" "dw_max v = dw_max w" "dw_file v = dw_file w"
    "map_option (\<lambda>r. dr_rundownID (snd r)) (dw_request v) = map_option (\<lambda>r. dr_rundownID (snd r)) (dw_request w)"
  unfolding v registerRequest_def Let_def
  by (auto simp: set_request_def zero_request_def split: option.split)

lemma register_ok:
  assumes "walk_ok w" "file_ok w"
  shows "walk_ok (snd (registerRequest now i sc se m ntv w)) \<and> file_ok (snd (registerRequest now i sc se m ntv w))"
  by (rule same_walk_ok [OF assms(1) register_same [OF refl] assms(2)])

lemma claim_ok:
  assumes "walk_ok w" "file_ok w"
  shows "walk_ok (snd (claimRequest now i sc se m w)) \<and> file_ok (snd (claimRequest now i sc se m w))"
  by (rule same_walk_ok [OF assms(1) _ _ _ _ _ _ assms(2)]) (auto simp: claimRequest_def split: option.split)

lemma release_ok:
  assumes "walk_ok w" "file_ok w"
  shows "walk_ok (releaseRequest n w) \<and> file_ok (releaseRequest n w)"
  by (rule same_walk_ok [OF assms(1) _ _ _ _ _ _ assms(2)]) (auto simp: releaseRequest_def split: option.split)

lemma failed_ok:
  assumes "walk_ok w" "file_ok w"
  shows "walk_ok (snd (failedRequest io now n w)) \<and> file_ok (snd (failedRequest io now n w))"
proof (cases "dw_request w")
  case None
  with assms show ?thesis by (simp add: failedRequest_def)
next
  case (Some nr)
  then obtain n' r where r: "dw_request w = Some (n', r)" by (cases nr) simp
  define w1 where "w1 = (if dr_native r then w\<lparr>dw_request := Some (n', r\<lparr>dr_expired := True\<rparr>), dw_deadline := now\<rparr>
     else if dw_catalogueInFlight w then w\<lparr>dw_catalogueInFlight := False, dw_cataloguePending := True, dw_request := None\<rparr>
     else w\<lparr>dw_pending := dw_inFlight w # dw_pending w, dw_inFlight := [], dw_request := None\<rparr>)"
  have "walk_ok w1" "file_ok w1" using assms r by (auto simp: w1_def walk_ok_def file_ok_def split: if_splits)
  from persist_ok [OF this, of io] assms r show ?thesis
    by (simp add: failedRequest_def w1_def [symmetric])
qed

lemma urgent_ok:
  assumes "walk_ok w" "file_ok w"
  shows "walk_ok (snd (enqueueUrgent io now i w)) \<and> file_ok (snd (enqueueUrgent io now i w))"
  using assms take_ok [of "w\<lparr>dw_pending := i # dw_pending w\<rparr>" io now]
  by (auto simp: enqueueUrgent_def walk_ok_def file_ok_def split: option.splits)

lemma resolved_ok:
  assumes "walk_ok w" "file_ok w"
  shows "walk_ok (snd (resolved io now i w)) \<and> file_ok (snd (resolved io now i w))"
  using assms take_or_persist_ok [of "w\<lparr>dw_inFlight := [], dw_request := None\<rparr>" io now]
  by (auto simp: resolved_def walk_ok_def file_ok_def split: option.splits)

lemma nudge_ok:
  assumes "walk_ok w" "file_ok w"
  shows "walk_ok (snd (nudge io now w)) \<and> file_ok (snd (nudge io now w))"
proof -
  define w1 where "w1 = w\<lparr>dw_inFlight := [], dw_request := None, dw_catalogueInFlight := False,
      dw_cataloguePending := (dw_catalogueInFlight w \<or> dw_cataloguePending w)\<rparr>"
  have "walk_ok w1" "file_ok w1" using assms by (auto simp: walk_ok_def file_ok_def w1_def)
  note restarted = take_or_persist_ok [OF this, of io now]
  have expired: "walk_ok (w\<lparr>dw_request := Some (n, r\<lparr>dr_expired := True\<rparr>)\<rparr>) \<and> file_ok (w\<lparr>dw_request := Some (n, r\<lparr>dr_expired := True\<rparr>)\<rparr>)"
    if "dw_request w = Some (n, r)" for n r
    by (rule same_walk_ok [OF assms(1) _ _ _ _ _ _ assms(2)]) (simp_all add: that)
  show ?thesis
    unfolding nudge_def w1_def [symmetric] using assms take_ok [OF assms, of io now] restarted expired
    by (simp split: option.split)
qed

section \<open>Runs\<close>

datatype walk_op =
    BeginOp "string list" | CatalogueOp | RegisterOp string string string string bool
  | ClaimOp string string string string | ReleaseOp nat | FailedOp nat
  | UrgentOp string | ResolvedOp string | NudgeOp

fun walk_exec :: "bool \<Rightarrow> int \<Rightarrow> walk_op \<Rightarrow> discoveryWalk \<Rightarrow> discoveryWalk" where
  "walk_exec io now (BeginOp ids) w = snd (walk_begin io now ids w)"
| "walk_exec io now CatalogueOp w = snd (requestCatalogue io now w)"
| "walk_exec io now (RegisterOp i sc se m ntv) w = snd (registerRequest now i sc se m ntv w)"
| "walk_exec io now (ClaimOp i sc se m) w = snd (claimRequest now i sc se m w)"
| "walk_exec io now (ReleaseOp n) w = releaseRequest n w"
| "walk_exec io now (FailedOp n) w = snd (failedRequest io now n w)"
| "walk_exec io now (UrgentOp i) w = snd (enqueueUrgent io now i w)"
| "walk_exec io now (ResolvedOp i) w = snd (resolved io now i w)"
| "walk_exec io now NudgeOp w = snd (nudge io now w)"

text \<open>A call with what the file system answers and the clock shows, or a restart of the process.\<close>

datatype walk_event = Call bool int walk_op | Restart

fun walk_event_exec :: "string \<Rightarrow> string \<Rightarrow> walk_event \<Rightarrow> discoveryWalk \<Rightarrow> discoveryWalk" where
  "walk_event_exec dir path (Call io now op) w = walk_exec io now op w"
| "walk_event_exec dir path Restart w = openDiscoveryWalk True dir path (dw_file w)"

definition walk_run :: "string \<Rightarrow> string \<Rightarrow> walk_event list \<Rightarrow> discoveryWalk \<Rightarrow> discoveryWalk" where
  "walk_run dir path evs w = fold (walk_event_exec dir path) evs w"

lemma open_ok:
  assumes "case file of None \<Rightarrow> True | Some st \<Rightarrow> distinct (ws_Pending st) \<and> [] \<notin> set (ws_Pending st)"
  shows "walk_ok (openDiscoveryWalk mkdir dir path file) \<and> file_ok (openDiscoveryWalk mkdir dir path file)"
  using assms
  by (auto simp: walk_ok_def file_ok_def openDiscoveryWalk_def newDiscoveryWalk_def Let_def dest: in_set_takeD split: option.splits)

lemma walk_exec_ok:
  assumes "walk_ok w" "file_ok w"
  shows "walk_ok (walk_exec io now op w) \<and> file_ok (walk_exec io now op w)"
  using begin_ok [OF assms] requestCatalogue_ok [OF assms] register_ok [OF assms] claim_ok [OF assms]
    release_ok [OF assms] failed_ok [OF assms] urgent_ok [OF assms] resolved_ok [OF assms] nudge_ok [OF assms]
  by (cases op) simp_all

lemma walk_event_ok:
  assumes "walk_ok w" "file_ok w"
  shows "walk_ok (walk_event_exec dir path ev w) \<and> file_ok (walk_event_exec dir path ev w)"
  using walk_exec_ok [OF assms] open_ok assms(2) by (cases ev) (simp_all add: file_ok_def)

lemma walk_run_ok:
  "walk_ok w \<Longrightarrow> file_ok w \<Longrightarrow> walk_ok (walk_run dir path evs w) \<and> file_ok (walk_run dir path evs w)"
proof (induction evs arbitrary: w)
  case (Cons ev evs)
  from walk_event_ok [OF Cons.prems] Cons.IH show ?case by (simp add: walk_run_def)
qed (simp add: walk_run_def)

section \<open>What is on disk\<close>

definition outstanding :: "discoveryWalk \<Rightarrow> string list \<times> bool" where
  "outstanding w = (if dw_inFlight w \<noteq> [] then dw_inFlight w # dw_pending w else dw_pending w,
     dw_cataloguePending w \<or> dw_catalogueInFlight w)"

definition synced :: "discoveryWalk \<Rightarrow> bool" where
  "synced w \<longleftrightarrow> \<not> dw_degraded w \<and> dw_path w \<noteq> [] \<and>
     (case dw_file w of None \<Rightarrow> ([], False) | Some st \<Rightarrow> (ws_Pending st, ws_CataloguePending st)) = outstanding w"

definition writable :: "discoveryWalk \<Rightarrow> bool" where
  "writable w \<longleftrightarrow> \<not> dw_degraded w \<and> dw_path w \<noteq> []"

lemma persist_synced: "writable w \<Longrightarrow> synced (persistLocked True w)"
  by (simp add: writable_def synced_def persistLocked_def outstanding_def Let_def)

lemma take_synced: "writable w \<Longrightarrow> snd (fst (takeLocked True now w)) \<Longrightarrow> synced (snd (takeLocked True now w))"
  by (auto simp: takeLocked_def set_request_def intro!: persist_synced split: list.split if_splits) (auto simp: writable_def)

lemma take_not: "\<not> snd (fst (takeLocked io now w)) \<Longrightarrow> snd (takeLocked io now w) = w"
  by (auto simp: takeLocked_def split: list.split if_splits)

lemma take_or_persist_synced: "writable w \<Longrightarrow> synced (snd (take_or_persist True now w))"
proof -
  assume w: "writable w"
  obtain n k w' where t: "takeLocked True now w = ((n, k), w')" by (metis prod.collapse)
  show ?thesis using take_synced [OF w, of now] take_not [of True now w] persist_synced [OF w] t
    by (cases k) (simp_all add: take_or_persist_def)
qed

lemma synced_writable: "synced w \<Longrightarrow> writable w"
  by (simp add: synced_def writable_def)

lemma synced_same:
  assumes "synced w" "dw_pending v = dw_pending w" "dw_inFlight v = dw_inFlight w" "dw_file v = dw_file w"
    "dw_cataloguePending v = dw_cataloguePending w" "dw_catalogueInFlight v = dw_catalogueInFlight w"
    "dw_degraded v = dw_degraded w" "dw_path v = dw_path w"
  shows "synced v"
  using assms by (simp add: synced_def outstanding_def)

fun is_urgent :: "walk_op \<Rightarrow> bool" where
  "is_urgent (UrgentOp i) = True"
| "is_urgent _ = False"

lemma walk_exec_synced:
  assumes s: "synced w" and op: "\<not> is_urgent op"
  shows "synced (walk_exec True now op w)"
proof (cases op)
  case (BeginOp ids)
  have "writable (begin_state ids w)" using s by (simp add: synced_def writable_def begin_state_def Let_def)
  from take_or_persist_synced [OF this] BeginOp show ?thesis by (simp add: walk_begin_state)
next
  case CatalogueOp
  have "writable (w\<lparr>dw_cataloguePending := True\<rparr>)" using s by (simp add: synced_def writable_def)
  from take_or_persist_synced [OF this] CatalogueOp s show ?thesis by (simp add: requestCatalogue_def)
next
  case (RegisterOp i sc se m ntv)
  have "synced (snd (registerRequest now i sc se m ntv w))"
    by (rule synced_same [OF s]) (auto simp: registerRequest_def set_request_def Let_def split: option.split)
  with RegisterOp show ?thesis by simp
next
  case (ClaimOp i sc se m)
  have "synced (snd (claimRequest now i sc se m w))"
    by (rule synced_same [OF s]) (auto simp: claimRequest_def split: option.split)
  with ClaimOp show ?thesis by simp
next
  case (ReleaseOp n)
  have "synced (releaseRequest n w)"
    by (rule synced_same [OF s]) (auto simp: releaseRequest_def split: option.split)
  with ReleaseOp show ?thesis by simp
next
  case (FailedOp n)
  have "synced (snd (failedRequest True now n w))"
    using s by (auto simp: failedRequest_def split: option.split intro!: persist_synced) (simp_all add: synced_def writable_def)
  with FailedOp show ?thesis by simp
next
  case (ResolvedOp i)
  have "writable (w\<lparr>dw_inFlight := [], dw_request := None\<rparr>)" using s by (simp add: synced_def writable_def)
  from take_or_persist_synced [OF this] ResolvedOp s show ?thesis by (simp add: resolved_def)
next
  case NudgeOp
  define w1 where "w1 = w\<lparr>dw_inFlight := [], dw_request := None, dw_catalogueInFlight := False,
      dw_cataloguePending := (dw_catalogueInFlight w \<or> dw_cataloguePending w)\<rparr>"
  have "writable w1" using s by (simp add: synced_def writable_def w1_def)
  note restarted = take_or_persist_synced [OF this, of now]
  have expired: "synced (w\<lparr>dw_request := x\<rparr>)" for x by (rule synced_same [OF s]) simp_all
  have idle: "synced (snd (takeLocked True now w))"
    using take_synced [OF synced_writable [OF s], of now] take_not [of True now w] s by fastforce
  have "synced (snd (nudge True now w))"
    unfolding nudge_def w1_def [symmetric] using restarted expired idle s by (simp split: option.split)
  with NudgeOp show ?thesis by simp
qed (use op in simp)

section \<open>The order of the requests\<close>

text \<open>The requests that follow when every answer arrives before the next call.\<close>

fun walk_drain :: "nat \<Rightarrow> bool \<Rightarrow> int \<Rightarrow> (string \<times> bool) \<times> discoveryWalk \<Rightarrow> string list" where
  "walk_drain 0 io now r = []"
| "walk_drain (Suc n) io now r =
     (if snd (fst r) then fst (fst r) # walk_drain n io now (resolved io now (fst (fst r)) (snd r)) else [])"

definition first_occurrences :: "string list \<Rightarrow> string list" where
  "first_occurrences xs = rev (remdups (rev xs))"

lemma remdups_snoc: "remdups (ys @ [x]) = filter ((\<noteq>) x) (remdups ys) @ [x]"
  by (induction ys) auto

lemma first_occurrences_Cons: "first_occurrences (x # xs) = x # removeAll x (first_occurrences xs)"
  by (simp add: first_occurrences_def remdups_snoc removeAll_filter_not_eq rev_filter)

lemma take_idle:
  assumes "dw_inFlight w = []" "\<not> dw_catalogueInFlight w" "\<not> dw_cataloguePending w"
  shows "dw_pending w = [] \<Longrightarrow> takeLocked io now w = (([], False), w)"
    and "dw_pending w = i # is \<Longrightarrow> fst (takeLocked io now w) = (i, True) \<and>
      dw_pending (snd (takeLocked io now w)) = is \<and> dw_inFlight (snd (takeLocked io now w)) = i \<and>
      \<not> dw_catalogueInFlight (snd (takeLocked io now w)) \<and> \<not> dw_cataloguePending (snd (takeLocked io now w))"
  using assms by (simp_all add: takeLocked_def set_request_def)

lemma drain_take:
  assumes "dw_inFlight w = []" "\<not> dw_catalogueInFlight w" "\<not> dw_cataloguePending w" "[] \<notin> set (dw_pending w)"
    "length (dw_pending w) \<le> n"
  shows "walk_drain n io now (take_or_persist io now w) = dw_pending w"
  using assms
proof (induction n arbitrary: w)
  case (Suc n)
  show ?case
  proof (cases "dw_pending w")
    case Nil
    then show ?thesis using take_idle(1) [OF Suc.prems(1-3)] by (simp add: take_or_persist_def)
  next
    case (Cons i ids)
    obtain w1 where t: "takeLocked io now w = ((i, True), w1)" "dw_pending w1 = ids" "dw_inFlight w1 = i"
      "\<not> dw_catalogueInFlight w1" "\<not> dw_cataloguePending w1"
      using take_idle(2) [OF Suc.prems(1-3) Cons, of io now] by (metis prod.collapse)
    have "resolved io now i w1 = take_or_persist io now (w1\<lparr>dw_inFlight := [], dw_request := None\<rparr>)"
      using t(3) Suc.prems(4) Cons by (auto simp: resolved_def)
    with Suc.IH [of "w1\<lparr>dw_inFlight := [], dw_request := None\<rparr>"] t Suc.prems Cons show ?thesis
      by (simp add: take_or_persist_def)
  qed
qed simp

lemma queue_listed_filter:
  "distinct p \<Longrightarrow> queue_listed L (p @ ids) =
     filter (\<lambda>i. i \<in> set L) p @ filter (\<lambda>i. i \<in> set L \<and> i \<notin> set p) (first_occurrences ids)"
proof (induction p arbitrary: L)
  case Nil
  have "queue_listed L ids = filter (\<lambda>i. i \<in> set L) (first_occurrences ids)"
  proof (induction ids arbitrary: L)
    case (Cons i ids)
    show ?case using Cons.IH [of "removeAll i L"] Cons.IH [of L]
      by (auto simp: first_occurrences_Cons removeAll_filter_not_eq intro!: filter_cong)
  qed (simp add: first_occurrences_def)
  then show ?case by simp
next
  case (Cons a p)
  have "filter (\<lambda>i. i \<in> set (removeAll a L)) p = filter (\<lambda>i. i \<in> set L) p"
    using Cons.prems by (intro filter_cong) auto
  with Cons show ?case by (auto intro!: filter_cong)
qed

section \<open>Properties\<close>

text \<open>
  C23. One request at a time: whatever calls, failing writes and restarts a walk goes through, at most
  one of a running-order request and a catalogue request is outstanding, the outstanding request is
  for exactly what is in flight, no running order is queued twice or both queued and in flight, and
  the queue stays within its bound (one above \<open>max\<close>).
\<close>

theorem walk_one_request_at_a_time:
  fixes evs :: "walk_event list"
  shows "\<exists>w. w = walk_run dir path evs (openDiscoveryWalk mkdir dir path None) \<and>
     \<not> (dw_inFlight w \<noteq> [] \<and> dw_catalogueInFlight w) \<and>
     (dw_request w = None \<longleftrightarrow> dw_inFlight w = [] \<and> \<not> dw_catalogueInFlight w) \<and>
     (\<nexists>n r. dw_request w = Some (n, r) \<and> dr_rundownID r \<noteq> dw_inFlight w) \<and>
     distinct (dw_inFlight w # dw_pending w) \<and> [] \<notin> set (dw_pending w) \<and> length (dw_pending w) \<le> Suc (dw_max w)"
proof -
  define w where "w = walk_run dir path evs (openDiscoveryWalk mkdir dir path None)"
  have ok: "walk_ok w" using walk_run_ok [of "openDiscoveryWalk mkdir dir path None"] open_ok [of None]
    by (simp add: w_def)
  then have "(dw_request w = None \<longleftrightarrow> dw_inFlight w = [] \<and> \<not> dw_catalogueInFlight w) \<and>
      (\<nexists>n r. dw_request w = Some (n, r) \<and> dr_rundownID r \<noteq> dw_inFlight w)"
    by (cases "dw_request w") (auto simp: walk_ok_def split: if_splits)
  with ok show ?thesis unfolding w_def [symmetric] by (auto simp: walk_ok_def split: if_splits)
qed

text \<open>
  C36. Every advertised running order is requested: from an idle walk, the list of a \<open>roListAll\<close> leads,
  when each answer arrives, to requests for the unfinished orders that are still advertised, in their
  old order, followed by the other advertised orders in the order of the list, each once, up to the
  bound.
\<close>

theorem walk_requests_all:
  assumes idle: "dw_inFlight w = []" "\<not> dw_catalogueInFlight w" and old: "distinct (dw_pending w)"
  shows "\<exists>next ok dropped w'. walk_begin io now ids w = ((next, ok, dropped), w') \<and>
    walk_drain (dw_max w) io now ((next, ok), w') =
      take (dw_max w) (filter (\<lambda>i. i \<noteq> [] \<and> i \<in> set ids) (dw_pending w) @
        filter (\<lambda>i. i \<noteq> [] \<and> i \<notin> set (dw_pending w)) (first_occurrences ids))"
proof -
  define q where "q = take (dw_max w) (queue_listed (filter (\<lambda>i. i \<noteq> [] \<and> i \<noteq> dw_inFlight w) ids) (dw_pending w @ ids))"
  have ids: "set (first_occurrences ids) = set ids" by (simp add: first_occurrences_def)
  have "queue_listed (filter (\<lambda>i. i \<noteq> [] \<and> i \<noteq> dw_inFlight w) ids) (dw_pending w @ ids) =
      filter (\<lambda>i. i \<noteq> [] \<and> i \<in> set ids) (dw_pending w) @ filter (\<lambda>i. i \<noteq> [] \<and> i \<notin> set (dw_pending w)) (first_occurrences ids)"
    unfolding queue_listed_filter [OF old] using idle ids by (auto intro!: filter_cong arg_cong2 [where f = "(@)"])
  moreover have "walk_drain (dw_max w) io now (take_or_persist io now (begin_state ids w)) = dw_pending (begin_state ids w)"
    using idle queue_listed_props
    by (intro drain_take) (auto simp: begin_state_def Let_def dest!: in_set_takeD)
  moreover have "dw_pending (begin_state ids w) = q" by (simp add: begin_state_def q_def Let_def)
  moreover obtain next' ok dropped w' where b: "walk_begin io now ids w = ((next', ok, dropped), w')" by (metis prod.collapse)
  moreover then have "take_or_persist io now (begin_state ids w) = ((next', ok), w')"
    using walk_begin_state [of io now ids w] by (simp add: prod_eq_iff)
  ultimately show ?thesis by (simp add: q_def)
qed

theorem walk_requests_all_witness:
  "\<exists>next ok dropped w'. walk_begin True 0 [''b'', ''a'', ''b''] (newDiscoveryWalk\<lparr>dw_pending := [''z'', ''a'']\<rparr>) = ((next, ok, dropped), w') \<and>
    walk_drain 512 True 0 ((next, ok), w') = [''a'', ''b'']"
  using walk_requests_all [of "newDiscoveryWalk\<lparr>dw_pending := [''z'', ''a'']\<rparr>" True 0 "[''b'', ''a'', ''b'']"]
  by (simp add: newDiscoveryWalk_def defaultWalkMax_def MaxSourceMembers_def first_occurrences_def)

text \<open>
  C27. A restart resumes the walk: after any calls whose writes succeed, none of them \<open>enqueueUrgent\<close>,
  opening the walk again gives exactly the outstanding work: the order in flight first, then the
  queue, and the pending catalogue request, as long as the work is within the bound.
\<close>

theorem restart_resumes_walk:
  assumes dir: "dir \<noteq> []" "path \<noteq> []"
    and calls: "\<forall>c \<in> set calls. \<not> is_urgent (snd c)"
    and w: "w = walk_run dir path (map (\<lambda>(now, op). Call True now op) calls) (openDiscoveryWalk True dir path None)"
    and bound: "length (fst (outstanding w)) \<le> 512"
  shows "outstanding (openDiscoveryWalk True dir path (dw_file w)) = outstanding w"
proof -
  have "synced (walk_run dir path (map (\<lambda>(now, op). Call True now op) calls) v)" if "synced v" for v
    using that calls
  proof (induction calls arbitrary: v)
    case (Cons c calls)
    then show ?case using walk_exec_synced [of v "snd c" "fst c"] by (cases c) (simp add: walk_run_def)
  qed (simp add: walk_run_def)
  moreover have "synced (openDiscoveryWalk True dir path None)"
    using dir by (simp add: synced_def outstanding_def openDiscoveryWalk_def newDiscoveryWalk_def Let_def)
  ultimately have "synced w" by (simp add: w)
  then show ?thesis using dir bound
    by (cases "dw_file w") (auto simp: synced_def outstanding_def openDiscoveryWalk_def newDiscoveryWalk_def Let_def
        defaultWalkMax_def MaxSourceMembers_def split: if_splits)
qed

theorem restart_resumes_walk_witness:
  "outstanding (openDiscoveryWalk True ''d'' ''p''
     (dw_file (walk_run ''d'' ''p'' [Call True 0 (BeginOp [''a'', ''b''])] (openDiscoveryWalk True ''d'' ''p'' None)))) =
   ([''a'', ''b''], False)"
proof -
  define w where "w = walk_run ''d'' ''p'' (map (\<lambda>(now, op). Call True now op) [(0, BeginOp [''a'', ''b''])]) (openDiscoveryWalk True ''d'' ''p'' None)"
  have out: "outstanding w = ([''a'', ''b''], False)" unfolding w_def by code_simp
  from restart_resumes_walk [OF _ _ _ w_def] out
  have "outstanding (openDiscoveryWalk True ''d'' ''p'' (dw_file w)) = ([''a'', ''b''], False)" by simp
  then show ?thesis by (simp add: w_def)
qed

text \<open>
  C39. An urgent recovery queued behind an outstanding request is not saved: \<open>enqueueUrgent\<close> puts the
  order at the front of the queue and leaves the state file as it was, so a restart at that point
  forgets it.
\<close>

theorem urgent_request_not_saved:
  assumes busy: "dw_inFlight w \<noteq> [] \<or> dw_catalogueInFlight w" and new: "roID \<noteq> []" "dw_inFlight w \<noteq> roID" "roID \<notin> set (dw_pending w)"
    and room: "length (dw_pending w) < dw_max w"
  shows "dw_pending (snd (enqueueUrgent True now roID w)) = roID # dw_pending w \<and>
    dw_file (snd (enqueueUrgent True now roID w)) = dw_file w"
  using assms by (auto simp: enqueueUrgent_def takeLocked_def)

theorem urgent_request_not_saved_witness:
  "dw_pending (snd (enqueueUrgent True 5 ''u'' (newDiscoveryWalk\<lparr>dw_inFlight := ''a''\<rparr>))) = [''u''] \<and>
   dw_file (snd (enqueueUrgent True 5 ''u'' (newDiscoveryWalk\<lparr>dw_inFlight := ''a''\<rparr>))) = None"
  using urgent_request_not_saved [of "newDiscoveryWalk\<lparr>dw_inFlight := ''a''\<rparr>" "''u''" 5]
  by (simp add: newDiscoveryWalk_def defaultWalkMax_def MaxSourceMembers_def)

end
