(* ===== verification/Resync.thy ===== *)
theory Resync
  imports Prelude
begin

text \<open>
  The rate limit on recovery requests (\<open>src/internal/server/resync.go\<close>). The map from running orders
  to the time of the last request is the state; times are nanoseconds. A nil guard refuses every
  request and is not modelled.
\<close>

record resyncGuard =
  rg_requested :: "int gomap"
  rg_interval :: int
  rg_max :: nat

definition defaultResyncInterval :: int where "defaultResyncInterval = 30 * 10 ^ 9"

definition defaultResyncTracked :: nat where "defaultResyncTracked = 256"

definition newResyncGuard :: resyncGuard where
  "newResyncGuard = \<lparr>rg_requested = [], rg_interval = defaultResyncInterval, rg_max = defaultResyncTracked\<rparr>"

definition drop_aged :: "int \<Rightarrow> int \<Rightarrow> int gomap \<Rightarrow> int gomap" where
  "drop_aged interval now m = filter (\<lambda>(_, at). \<not> now - at \<ge> interval) m"

definition shouldRequest :: "int \<Rightarrow> string \<Rightarrow> resyncGuard \<Rightarrow> bool \<times> resyncGuard" where
  "shouldRequest now roID g =
     (if roID = [] then (False, g)
      else if (case gm_get (rg_requested g) roID of Some at \<Rightarrow> now - at < rg_interval g | None \<Rightarrow> False) then (False, g)
      else
        let m = drop_aged (rg_interval g) now (rg_requested g) in
        if length m \<ge> rg_max g \<and> gm_get m roID = None then (False, g\<lparr>rg_requested := m\<rparr>)
        else (True, g\<lparr>rg_requested := gm_set roID now m\<rparr>))"

definition forget :: "string \<Rightarrow> resyncGuard \<Rightarrow> resyncGuard" where
  "forget roID g = g\<lparr>rg_requested := gm_delete roID (rg_requested g)\<rparr>"

section \<open>Histories\<close>

datatype guard_op = Ask int string | Forget string

fun guard_exec :: "guard_op \<Rightarrow> resyncGuard \<Rightarrow> resyncGuard" where
  "guard_exec (Ask now i) g = snd (shouldRequest now i g)"
| "guard_exec (Forget i) g = forget i g"

definition guard_run :: "guard_op list \<Rightarrow> resyncGuard \<Rightarrow> resyncGuard" where
  "guard_run ops g = fold guard_exec ops g"

definition guard_ok :: "resyncGuard \<Rightarrow> bool" where
  "guard_ok g \<longleftrightarrow> gm_ok (rg_requested g) \<and> length (rg_requested g) \<le> rg_max g \<and> 0 < rg_max g"

lemma drop_aged_ok: "gm_ok m \<Longrightarrow> gm_ok (drop_aged d now m)"
  by (simp add: gm_ok_def drop_aged_def distinct_map_filter)

lemma drop_aged_get:
  assumes "gm_ok m"
  shows "gm_get (drop_aged d now m) k = (case gm_get m k of Some at \<Rightarrow> if now - at \<ge> d then None else Some at | None \<Rightarrow> None)"
  using assms
proof (induction m)
  case (Cons x m)
  obtain k' a where x: "x = (k', a)" by (cases x)
  have no: "gm_get m k' = None" using Cons.prems x by (simp add: gm_ok_def map_of_eq_None_iff)
  show ?case using Cons x no by (auto simp: drop_aged_def gm_ok_def split: option.split)
qed (simp add: drop_aged_def)

lemma drop_aged_length: "length (drop_aged d now m) \<le> length m"
  by (simp add: drop_aged_def)

lemma gm_set_length: "length (gm_set k v m) = (if k \<in> fst ` set m then length m else Suc (length m))"
  by (induction m) auto

lemma guard_exec_ok:
  assumes "guard_ok g"
  shows "guard_ok (guard_exec op g) \<and> rg_interval (guard_exec op g) = rg_interval g \<and> rg_max (guard_exec op g) = rg_max g"
proof (cases op)
  case (Ask now i)
  define m where "m = drop_aged (rg_interval g) now (rg_requested g)"
  have m: "gm_ok m" "length m \<le> rg_max g"
    using assms drop_aged_ok drop_aged_length [of "rg_interval g" now "rg_requested g"] by (auto simp: guard_ok_def m_def)
  have set: "length (gm_set i now m) \<le> rg_max g" if "\<not> (rg_max g \<le> length m \<and> gm_get m i = None)"
    using that m(2) by (auto simp: gm_set_length map_of_eq_None_iff)
  then show ?thesis
    unfolding Ask using assms m by (auto simp: shouldRequest_def m_def [symmetric] guard_ok_def Let_def)
next
  case (Forget i)
  then show ?thesis using assms length_delete_le [of i "rg_requested g"] by (simp add: forget_def guard_ok_def)
qed

lemma guard_run_ok:
  "guard_ok g \<Longrightarrow> guard_ok (guard_run ops g) \<and> rg_interval (guard_run ops g) = rg_interval g \<and> rg_max (guard_run ops g) = rg_max g"
proof (induction ops arbitrary: g)
  case (Cons op ops)
  from guard_exec_ok [OF Cons.prems, of op] Cons.IH show ?case by (simp add: guard_run_def)
qed (simp add: guard_run_def)

lemma guard_new_ok: "guard_ok newResyncGuard"
  by (simp add: guard_ok_def newResyncGuard_def defaultResyncTracked_def)

text \<open>A recorded request stays recorded while it is not older than the interval.\<close>

fun keeps_record :: "int \<Rightarrow> string \<Rightarrow> guard_op \<Rightarrow> bool" where
  "keeps_record limit i (Ask now j) = (now < limit)"
| "keeps_record limit i (Forget j) = (j \<noteq> i)"

lemma guard_exec_keeps:
  assumes ok: "guard_ok g" and rec: "gm_get (rg_requested g) i = Some t" and op: "keeps_record (t + rg_interval g) i op"
  shows "gm_get (rg_requested (guard_exec op g)) i = Some t"
proof (cases op)
  case (Ask now j)
  then have "now - t < rg_interval g" using op by simp
  then show ?thesis using Ask rec ok
    by (auto simp: shouldRequest_def Let_def drop_aged_get guard_ok_def gm_get_set split: option.splits if_splits)
next
  case (Forget j)
  then show ?thesis using rec op by (simp add: forget_def gm_get_delete)
qed

lemma guard_run_keeps:
  assumes "guard_ok g" "gm_get (rg_requested g) i = Some t" "\<forall>op \<in> set ops. keeps_record (t + rg_interval g) i op"
  shows "gm_get (rg_requested (guard_run ops g)) i = Some t"
  using assms
proof (induction ops arbitrary: g)
  case (Cons op ops)
  from guard_exec_keeps [OF Cons.prems(1,2), of op] Cons.prems guard_exec_ok [OF Cons.prems(1), of op]
  have "gm_get (rg_requested (guard_exec op g)) i = Some t" "guard_ok (guard_exec op g)"
    "\<forall>op' \<in> set ops. keeps_record (t + rg_interval (guard_exec op g)) i op'" by simp_all
  from Cons.IH [OF this(2,1,3)] show ?case by (simp add: guard_run_def)
qed (simp add: guard_run_def)

section \<open>Property\<close>

text \<open>
  C29. Recovery cannot loop: once a request for a running order was granted at time \<open>t\<close> (after any
  history), then, whatever other calls follow before \<open>t + 30 s\<close>, every further request for it before
  \<open>t + 30 s\<close> is refused unless a successful recovery was recorded with \<open>forget\<close>; and at most 256
  running orders are ever tracked.
\<close>

theorem no_repeat_within_interval:
  assumes granted: "shouldRequest t roID (guard_run before newResyncGuard) = (True, g)"
    and between: "\<forall>op \<in> set ops. keeps_record (t + 30 * 10 ^ 9) roID op"
    and soon: "now < t + 30 * 10 ^ 9"
  shows "fst (shouldRequest now roID (guard_run ops g)) = False \<and> length (rg_requested (guard_run ops g)) \<le> 256"
proof -
  have g0: "guard_ok (guard_run before newResyncGuard)" "rg_interval (guard_run before newResyncGuard) = 30 * 10 ^ 9"
    "rg_max (guard_run before newResyncGuard) = 256"
    using guard_run_ok [OF guard_new_ok, of before]
    by (simp_all add: newResyncGuard_def defaultResyncInterval_def defaultResyncTracked_def)
  have g: "guard_ok g" "rg_interval g = 30 * 10 ^ 9" "rg_max g = 256"
    using guard_exec_ok [OF g0(1), of "Ask t roID"] granted g0(2,3) by simp_all
  have "gm_get (rg_requested g) roID = Some t"
    using granted by (auto simp: shouldRequest_def Let_def gm_get_set split: if_splits)
  from guard_run_keeps [OF g(1) this] between g(2)
  have "gm_get (rg_requested (guard_run ops g)) roID = Some t" by simp
  with soon guard_run_ok [OF g(1), of ops] g(2,3) show ?thesis by (simp add: shouldRequest_def guard_ok_def)
qed

theorem no_repeat_within_interval_witness:
  "fst (shouldRequest 7 ''R'' (guard_run [Ask 6 ''S''] (snd (shouldRequest 5 ''R'' (guard_run [] newResyncGuard))))) = False"
proof -
  have "fst (shouldRequest 5 ''R'' (guard_run [] newResyncGuard)) = True" by code_simp
  then have "shouldRequest 5 ''R'' (guard_run [] newResyncGuard) = (True, snd (shouldRequest 5 ''R'' (guard_run [] newResyncGuard)))"
    by (metis prod.collapse)
  from no_repeat_within_interval [OF this, of "[Ask 6 ''S'']" 7] show ?thesis by simp
qed

end
