(* ===== verification/Dispatch.thy ===== *)
theory Dispatch
  imports StoryOps Scope Discovery Resync
begin

text \<open>
  The dispatcher both transports share (\<open>src/internal/server/dispatch_ro.go\<close>) without a committed
  source: it applies a message to the service, answers the peer, and drives pull recovery through
  the resync guard and the discovery walk.

  A handler maps the state to the messages it sends, in order, and the new state; the flag says that
  it returned no error. \<open>lane\<close> is what the transport can do: whether an answer is written without an
  error, whether the lane carries requests, and whether there is a request lane and it is ready.
  The guard and the walk are present, as in every transport of the program.
\<close>

section \<open>Messages and state\<close>

datatype out_message =
    ROAckMsg string string
  | ROListMsg ROList
  | ROListAllMsg "ROListAllItem list"
  | ROReqMsg string
  | ROReqAllMsg

datatype sent = Respond out_message | Originate out_message | OriginateVia out_message

record lane =
  ln_responds :: bool
  ln_canOriginate :: bool
  ln_origin :: "bool option"

record dispatcher =
  dp_service :: MOSService
  dp_resync :: resyncGuard
  dp_walk :: discoveryWalk
  dp_mosID :: string

type_synonym handler = "dispatcher \<Rightarrow> bool \<times> sent list \<times> dispatcher"

section \<open>Errors as status texts\<close>

fun err_Error :: "go_env \<Rightarrow> go_error \<Rightarrow> string" where
  "err_Error e (Errorf t) = t"
| "err_Error e (Wrap t er) = t @ '': '' @ err_Error e er"
| "err_Error e (UnknownRunningOrderError r er) =
     ''roStorySend for unknown running order '' @ quote e r @
     '': the NCS believes this device holds it, so recover with roReq for this roID or roReqAll ('' @
     err_Error e er @ '')''"

definition firstLine :: "go_env \<Rightarrow> go_error \<Rightarrow> string" where
  "firstLine e er =
     (let t = takeWhile (\<lambda>c. c \<noteq> CHR 0x0A) (err_Error e er) in
      if length t > 100 then take 100 t @ ''...'' else t)"

section \<open>Sending\<close>

definition respond :: "lane \<Rightarrow> out_message \<Rightarrow> handler" where
  "respond ln msg d = (ln_responds ln, [Respond msg], d)"

definition sendRequest :: "lane \<Rightarrow> out_message \<Rightarrow> sent list" where
  "sendRequest ln msg =
     (if ln_canOriginate ln then [Originate msg]
      else case ln_origin ln of
        None \<Rightarrow> []
      | Some ready \<Rightarrow> if \<not> ready then [] else [OriginateVia msg])"

definition sendDiscoveryReq :: "lane \<Rightarrow> string \<Rightarrow> sent list" where
  "sendDiscoveryReq ln roID = sendRequest ln (if roID = [] then ROReqAllMsg else ROReqMsg roID)"

definition advanceWalk :: "go_env \<Rightarrow> bool \<Rightarrow> lane \<Rightarrow> dispatcher \<Rightarrow> sent list \<times> dispatcher" where
  "advanceWalk e io ln d =
     (let ((next, ok), w) = nudge io (now e) (dp_walk d) in
      (if ok then sendDiscoveryReq ln next else [], d\<lparr>dp_walk := w\<rparr>))"

definition requestResync :: "go_env \<Rightarrow> bool \<Rightarrow> lane \<Rightarrow> string \<Rightarrow> dispatcher \<Rightarrow> sent list \<times> dispatcher" where
  "requestResync e io ln roID d =
     (let (granted, g) = shouldRequest (now e) roID (dp_resync d);
          d = d\<lparr>dp_resync := g\<rparr> in
      if \<not> granted then ([], d)
      else
        let ((next, ok), w) = enqueueUrgent io (now e) roID (dp_walk d);
            d = d\<lparr>dp_walk := w\<rparr> in
        if \<not> ok then ([], d) else (sendDiscoveryReq ln next, d))"

section \<open>Handlers\<close>

definition svc_call :: "'a svc_op \<Rightarrow> dispatcher \<Rightarrow> 'a result \<times> dispatcher" where
  "svc_call f d = (let (r, s) = f (dp_service d) in (r, d\<lparr>dp_service := s\<rparr>))"

text \<open>Apply, then answer with OK or a NACK carrying the error.\<close>

definition answer_result :: "go_env \<Rightarrow> lane \<Rightarrow> string \<Rightarrow> unit svc_op \<Rightarrow> handler" where
  "answer_result e ln roID f d =
     (let (r, d) = svc_call f d in
      case r of
        Inl er \<Rightarrow> respond ln (ROAckMsg roID (''NACK: '' @ firstLine e er)) d
      | Inr _ \<Rightarrow> respond ln (ROAckMsg roID ''OK'') d)"

text \<open>The same with recovery: on an unknown running order the refusal goes first, then the request.\<close>

definition answer_or_recover :: "go_env \<Rightarrow> bool \<Rightarrow> lane \<Rightarrow> string \<Rightarrow> string \<Rightarrow> unit svc_op \<Rightarrow> handler" where
  "answer_or_recover e io ln roID refusal f d =
     (let (r, d) = svc_call f d in
      case r of
        Inr _ \<Rightarrow> respond ln (ROAckMsg roID ''OK'') d
      | Inl er \<Rightarrow>
          (case errors_As_unknown er of
             Some unknown \<Rightarrow>
               let (ok, sent, d) = respond ln (ROAckMsg roID refusal) d in
               if \<not> ok then (False, sent, d)
               else let (more, d) = requestResync e io ln unknown d in (True, sent @ more, d)
           | None \<Rightarrow> respond ln (ROAckMsg roID (''NACK: '' @ firstLine e er)) d))"

definition handleReplace :: "go_env \<Rightarrow> lane \<Rightarrow> ROReplace \<Rightarrow> handler" where
  "handleReplace e ln m = answer_result e ln (ror_ID m) (ReplaceRunningOrder e m)"

definition handleDelete :: "go_env \<Rightarrow> lane \<Rightarrow> string \<Rightarrow> handler" where
  "handleDelete e ln roID = answer_result e ln roID (DeleteRunningOrder roID)"

definition handleMetadataReplace :: "go_env \<Rightarrow> lane \<Rightarrow> ROMetadataReplace \<Rightarrow> handler" where
  "handleMetadataReplace e ln m = answer_result e ln (rmr_ID m) (ReplaceMetadata e m)"

definition handleStorySend :: "go_env \<Rightarrow> bool \<Rightarrow> lane \<Rightarrow> ROStorySend \<Rightarrow> handler" where
  "handleStorySend e io ln m = answer_or_recover e io ln (rss_ROID m)
     ''NACK: running order not held by this device, requesting resync'' (ProcessROStorySend e m)"

definition handleReadyToAir :: "go_env \<Rightarrow> lane \<Rightarrow> string \<Rightarrow> string \<Rightarrow> handler" where
  "handleReadyToAir e ln roID air = answer_result e ln roID (SetReadyToAir e roID air)"

definition handleElementAction :: "go_env \<Rightarrow> bool \<Rightarrow> lane \<Rightarrow> ROElementAction \<Rightarrow> handler" where
  "handleElementAction e io ln m = answer_or_recover e io ln (rea_ROID m)
     ''NACK: running order not held by this device, requesting resync'' (ProcessElementAction e m)"

definition handleElementStat :: "go_env \<Rightarrow> bool \<Rightarrow> lane \<Rightarrow> ROElementStat \<Rightarrow> handler" where
  "handleElementStat e io ln m = answer_or_recover e io ln (res_ROID m)
     ''NACK: element not held by this device, requesting resync'' (ProcessElementStatus e m)"

definition handleCreate :: "go_env \<Rightarrow> lane \<Rightarrow> RunningOrderInfo \<Rightarrow> handler" where
  "handleCreate e ln m d = answer_result e ln (roi_ID m) (ProcessRunningOrderInfo e m (dp_mosID d)) d"

definition item_info :: "go_env \<Rightarrow> Item \<Rightarrow> ItemInfo" where
  "item_info e it = zero_ItemInfo\<lparr>ii_ID := (if item_RawID it = [] then item_ID it else item_RawID it),
     ii_Slug := item_Slug it, ii_Duration := FormatInt (item_Duration it), ii_ObjectID := item_ObjectID it,
     ii_MosExternalMetadata := FilterMetadataForLevel e (ExternalMetadataToWire (item_ExternalMetadata it)) LevelItem\<rparr>"

definition story_info :: "go_env \<Rightarrow> Story \<Rightarrow> Item list \<Rightarrow> StoryInfo" where
  "story_info e st its = \<lparr>si_ID = (if story_RawID st = [] then story_ID st else story_RawID st),
     si_Slug = story_Slug st, si_Number = story_Number st, si_Duration = FormatInt (story_Duration st),
     si_MosExternalMetadata = FilterMetadataForLevel e (ExternalMetadataToWire (story_ExternalMetadata st)) LevelStory,
     si_Items = map (item_info e) its\<rparr>"

fun storyInfosFor :: "go_env \<Rightarrow> Story list \<Rightarrow> StoryInfo list svc_op" where
  "storyInfosFor e [] = op_return []"
| "storyInfosFor e (st # sts) =
     op_bind (op_wrap (''failed to get items for story '' @ story_ID st) (GetItemsForStory (story_ID st))) (\<lambda>its.
     op_bind (storyInfosFor e sts) (\<lambda>infos. op_return (story_info e st its # infos)))"

text \<open>\<open>CreateROList(ROListEntry{...})\<close> with the metadata filtered at the call and again inside.\<close>

definition ro_list :: "go_env \<Rightarrow> RunningOrder \<Rightarrow> StoryInfo list \<Rightarrow> ROList" where
  "ro_list e ro infos = \<lparr>rol_ID = ro_ID ro, rol_Slug = ro_Slug ro, rol_Channel = ro_Channel ro, rol_EdStart = [],
     rol_EdDur = FormatInt (ro_Duration ro), rol_Trigger = [], rol_MacroIn = [], rol_MacroOut = [],
     rol_MosExternalMetadata = FilterMetadataForLevel e (FilterMetadataForLevel e
       (ExternalMetadataToWire (ro_ExternalMetadata ro)) LevelRunningOrder) LevelRunningOrder,
     rol_Stories = infos\<rparr>"

definition handleReq :: "go_env \<Rightarrow> lane \<Rightarrow> string \<Rightarrow> handler" where
  "handleReq e ln roID d =
     (if TrimSpace roID = [] then respond ln (ROAckMsg [] ''NACK: roReq requires a roID'') d
      else
        let (r, d) = svc_call (GetRunningOrderWithStories roID) d in
        case r of
          Inl _ \<Rightarrow> respond ln (ROAckMsg roID ''NACK: running order not available'') d
        | Inr (ro, stories) \<Rightarrow>
            let (r, d) = svc_call (storyInfosFor e stories) d in
            (case r of
               Inl er \<Rightarrow> respond ln (ROAckMsg roID (''NACK: '' @ firstLine e er)) d
             | Inr infos \<Rightarrow> respond ln (ROListMsg (ro_list e ro infos)) d))"

definition summary :: "RunningOrder \<Rightarrow> ROListAllItem" where
  "summary ro = \<lparr>rla_ID = ro_ID ro, rla_Slug = ro_Slug ro, rla_Channel = ro_Channel ro, rla_EdStart = [],
     rla_EdDur = FormatInt (ro_Duration ro), rla_Trigger = [], rla_MosExternalMetadata = []\<rparr>"

definition handleReqAll :: "go_env \<Rightarrow> lane \<Rightarrow> handler" where
  "handleReqAll e ln d =
     (let (r, d) = svc_call ListRunningOrders d in
      case r of
        Inl er \<Rightarrow> respond ln (ROAckMsg [] (''NACK: '' @ firstLine e er)) d
      | Inr ros \<Rightarrow> respond ln (ROListAllMsg (map summary ros)) d)"

definition handleList :: "go_env \<Rightarrow> bool \<Rightarrow> lane \<Rightarrow> ROList \<Rightarrow> handler" where
  "handleList e io ln m d =
     (let (r, d) = svc_call (ApplyROList e m (dp_mosID d)) d in
      case r of
        Inl _ \<Rightarrow> (True, [], d)
      | Inr _ \<Rightarrow>
          let d = d\<lparr>dp_resync := forget (rol_ID m) (dp_resync d)\<rparr>;
              ((next, ok), w) = resolved io (now e) (rol_ID m) (dp_walk d) in
          (True, if ok then sendDiscoveryReq ln next else [], d\<lparr>dp_walk := w\<rparr>))"

definition handleListAll :: "go_env \<Rightarrow> bool \<Rightarrow> lane \<Rightarrow> ROListAllItem list \<Rightarrow> handler" where
  "handleListAll e io ln ros d =
     (let roIDs = map rla_ID ros;
          ((next, ok, dropped), w) = walk_begin io (now e) roIDs (dp_walk d);
          d = d\<lparr>dp_walk := w\<rparr> in
      if roIDs = [] then (True, [], d)
      else if \<not> ok then (True, [], d)
      else (True, sendDiscoveryReq ln next, d))"

section \<open>Dispatch\<close>

datatype inbound =
    InReplace ROReplace | InDelete string | InMetadataReplace ROMetadataReplace | InStorySend ROStorySend
  | InReadyToAir string string | InElementAction ROElementAction | InElementStat ROElementStat
  | InReq string | InReqAll | InList ROList | InListAll "ROListAllItem list" | InCreate RunningOrderInfo
  | InOther

definition handle_inbound :: "go_env \<Rightarrow> bool \<Rightarrow> lane \<Rightarrow> inbound \<Rightarrow> handler" where
  "handle_inbound e io ln m = (case m of
      InReplace r \<Rightarrow> handleReplace e ln r
    | InDelete r \<Rightarrow> handleDelete e ln r
    | InMetadataReplace r \<Rightarrow> handleMetadataReplace e ln r
    | InStorySend r \<Rightarrow> handleStorySend e io ln r
    | InReadyToAir r air \<Rightarrow> handleReadyToAir e ln r air
    | InElementAction r \<Rightarrow> handleElementAction e io ln r
    | InElementStat r \<Rightarrow> handleElementStat e io ln r
    | InReq r \<Rightarrow> handleReq e ln r
    | InReqAll \<Rightarrow> handleReqAll e ln
    | InList r \<Rightarrow> handleList e io ln r
    | InListAll r \<Rightarrow> handleListAll e io ln r
    | InCreate r \<Rightarrow> handleCreate e ln r
    | InOther \<Rightarrow> (\<lambda>d. (True, [], d)))"

text \<open>Whether the message was recognised, whether no error came back, what was sent, the new state.\<close>

definition dispatchRunningOrder :: "go_env \<Rightarrow> bool \<Rightarrow> lane \<Rightarrow> inbound \<Rightarrow> dispatcher \<Rightarrow> bool \<times> bool \<times> sent list \<times> dispatcher" where
  "dispatchRunningOrder e io ln m d =
     (let (walked, d) = advanceWalk e io ln d;
          (ok, sent, d) = handle_inbound e io ln m d in
      (m \<noteq> InOther, ok, walked @ sent, d))"

end
