(* ===== verification/Dispatching.thy ===== *)
theory Dispatching
  imports Dispatch
begin

text \<open>
  What dispatching keeps, what it answers, and that recovery cannot loop.
\<close>

section \<open>The invariant of the dispatcher\<close>

definition dispatcher_ok :: "dispatcher \<Rightarrow> bool" where
  "dispatcher_ok d \<longleftrightarrow> svc_ok (dp_service d) \<and> walk_ok (dp_walk d) \<and> file_ok (dp_walk d) \<and> guard_ok (dp_resync d)"

definition state_of :: "bool \<times> sent list \<times> dispatcher \<Rightarrow> dispatcher" where
  "state_of r = snd (snd r)"

definition sent_of :: "bool \<times> sent list \<times> dispatcher \<Rightarrow> sent list" where
  "sent_of r = fst (snd r)"

lemma respond_fields [simp]: "state_of (respond ln m d) = d" "sent_of (respond ln m d) = [Respond m]" "fst (respond ln m d) = ln_responds ln"
  by (simp_all add: respond_def state_of_def sent_of_def)

lemma svc_call_fields [simp]:
  "fst (svc_call f d) = fst (f (dp_service d))" "dp_service (snd (svc_call f d)) = snd (f (dp_service d))"
  "dp_walk (snd (svc_call f d)) = dp_walk d" "dp_resync (snd (svc_call f d)) = dp_resync d"
  "dp_mosID (snd (svc_call f d)) = dp_mosID d"
  by (simp_all add: svc_call_def split: prod.split)

lemma svc_call_ok: "keeps_ok f \<Longrightarrow> dispatcher_ok d \<Longrightarrow> dispatcher_ok (snd (svc_call f d))"
  by (simp add: dispatcher_ok_def keeps_ok_def)

lemma answer_result_eq:
  "answer_result e ln roID f d = respond ln (ROAckMsg roID (case fst (f (dp_service d)) of
      Inl er \<Rightarrow> ''NACK: '' @ firstLine e er | Inr _ \<Rightarrow> ''OK'')) (snd (svc_call f d))"
  unfolding answer_result_def Let_def
  by (cases "svc_call f d") (auto simp flip: svc_call_fields(1) split: sum.split)

lemma should_ok: "guard_ok g \<Longrightarrow> guard_ok (snd (shouldRequest t i g))"
  using guard_exec_ok [of g "Ask t i"] by simp

lemma requestResync_ok:
  assumes "dispatcher_ok d"
  shows "dispatcher_ok (snd (requestResync e io ln i d))"
  using assms should_ok [of "dp_resync d" "now e" i] urgent_ok [of "dp_walk d" io "now e" i]
  by (auto simp: requestResync_def dispatcher_ok_def Let_def split: prod.split)

lemma advanceWalk_ok:
  assumes "dispatcher_ok d"
  shows "dispatcher_ok (snd (advanceWalk e io ln d))"
  using assms nudge_ok [of "dp_walk d" io "now e"]
  by (auto simp: advanceWalk_def dispatcher_ok_def Let_def split: prod.split)

text \<open>The three ways an applied message ends.\<close>

lemma answer_or_recover_cases:
  obtains (applied) "fst (f (dp_service d)) = Inr ()"
      "answer_or_recover e io ln roID ref f d = respond ln (ROAckMsg roID ''OK'') (snd (svc_call f d))"
  | (unknown) er u where "fst (f (dp_service d)) = Inl er" "errors_As_unknown er = Some u"
      "answer_or_recover e io ln roID ref f d =
        (if ln_responds ln then (True, Respond (ROAckMsg roID ref) # fst (requestResync e io ln u (snd (svc_call f d))),
           snd (requestResync e io ln u (snd (svc_call f d))))
         else (False, [Respond (ROAckMsg roID ref)], snd (svc_call f d)))"
  | (refused) er where "fst (f (dp_service d)) = Inl er" "errors_As_unknown er = None"
      "answer_or_recover e io ln roID ref f d = respond ln (ROAckMsg roID (''NACK: '' @ firstLine e er)) (snd (svc_call f d))"
proof (cases "fst (f (dp_service d))")
  case (Inr u)
  moreover have "fst (svc_call f d) = Inr ()" using Inr by simp
  ultimately show ?thesis
    by (intro applied) (simp_all add: answer_or_recover_def case_prod_beta)
next
  case (Inl er)
  moreover have "fst (svc_call f d) = Inl er" using Inl by simp
  ultimately show ?thesis
    using unknown [OF Inl] refused [OF Inl]
    by (cases "errors_As_unknown er") (simp_all add: answer_or_recover_def case_prod_beta Let_def respond_def)
qed

lemma answer_or_recover_ok:
  assumes f: "keeps_ok f" and d: "dispatcher_ok d"
  shows "dispatcher_ok (state_of (answer_or_recover e io ln roID ref f d))"
  using svc_call_ok [OF f d] requestResync_ok [OF svc_call_ok [OF f d]]
  by (cases rule: answer_or_recover_cases [of f d e io ln roID ref]) (simp_all add: state_of_def [of "(_, _, _)"])

lemma answer_result_ok:
  assumes "keeps_ok f" "dispatcher_ok d"
  shows "dispatcher_ok (state_of (answer_result e ln roID f d))"
  by (simp add: answer_result_eq svc_call_ok [OF assms])

lemma keeps_ok_infos [keeps_ok_intros]: "keeps_ok (storyInfosFor e sts)"
proof (induction sts)
  case Nil
  then show ?case by (simp only: storyInfosFor.simps) (intro keeps_ok_intros)
next
  case (Cons st sts)
  have "keeps_ok (GetItemsForStory (story_ID st))" unfolding GetItemsForStory_def by (intro keeps_ok_intros)
  then show ?case using Cons by (simp only: storyInfosFor.simps) (intro keeps_ok_intros)
qed

lemma keeps_ok_queries [keeps_ok_intros]: "keeps_ok (GetRunningOrderWithStories roID)" "keeps_ok ListRunningOrders"
  unfolding GetRunningOrderWithStories_def ListRunningOrders_def by (intro keeps_ok_intros)+

lemma handleReq_ok:
  assumes d: "dispatcher_ok d"
  shows "dispatcher_ok (state_of (handleReq e ln roID d))"
proof (cases "TrimSpace roID = []")
  case True
  then show ?thesis using d by (simp add: handleReq_def)
next
  case False
  define d1 where "d1 = snd (svc_call (GetRunningOrderWithStories roID) d)"
  have d1: "dispatcher_ok d1" unfolding d1_def by (rule svc_call_ok [OF _ d]) (intro keeps_ok_intros)
  have "dispatcher_ok (snd (svc_call (storyInfosFor e sts) d1))" for sts
    by (rule svc_call_ok [OF _ d1]) (intro keeps_ok_intros)
  with False d1 show ?thesis
    by (auto simp: handleReq_def case_prod_beta Let_def d1_def [symmetric] split: sum.split)
qed

lemma handleReqAll_ok: "dispatcher_ok d \<Longrightarrow> dispatcher_ok (state_of (handleReqAll e ln d))"
  using svc_call_ok [OF keeps_ok_queries(2), of d]
  by (auto simp: handleReqAll_def case_prod_beta Let_def split: sum.split)

lemma forget_ok: "guard_ok g \<Longrightarrow> guard_ok (forget i g)"
  using guard_exec_ok [of g "Forget i"] by simp

lemma handleList_ok:
  assumes d: "dispatcher_ok d"
  shows "dispatcher_ok (state_of (handleList e io ln m d))"
proof -
  define d1 where "d1 = snd (svc_call (ApplyROList e m (dp_mosID d)) d)"
  have d1: "dispatcher_ok d1" unfolding d1_def by (rule svc_call_ok [OF _ d]) (intro keeps_ok_intros)
  then have "walk_ok (dp_walk d1)" "file_ok (dp_walk d1)" by (simp_all add: dispatcher_ok_def)
  from resolved_ok [OF this, of io "now e" "rol_ID m"] d1 show ?thesis
    by (auto simp: handleList_def case_prod_beta Let_def d1_def [symmetric] state_of_def dispatcher_ok_def forget_ok split: sum.split)
qed

lemma handleListAll_ok:
  assumes d: "dispatcher_ok d"
  shows "dispatcher_ok (state_of (handleListAll e io ln ros d))"
  using begin_ok [of "dp_walk d" io "now e" "map rla_ID ros"] d
  by (auto simp: handleListAll_def case_prod_beta Let_def state_of_def dispatcher_ok_def)

lemmas handler_defs = handleReplace_def handleDelete_def handleMetadataReplace_def handleStorySend_def
  handleReadyToAir_def handleElementAction_def handleElementStat_def handleCreate_def

lemma handle_inbound_ok:
  assumes d: "dispatcher_ok d"
  shows "dispatcher_ok (state_of (handle_inbound e io ln m d))"
proof -
  have apply_ok: "dispatcher_ok (state_of (answer_result e ln r f d))" "dispatcher_ok (state_of (answer_or_recover e io ln r q f d))"
    if "keeps_ok f" for f r q
    using answer_result_ok [OF that d] answer_or_recover_ok [OF that d] by simp_all
  show ?thesis
    using handleReq_ok [OF d] handleReqAll_ok [OF d] handleList_ok [OF d] handleListAll_ok [OF d] d
    by (cases m) (simp_all add: handle_inbound_def handler_defs state_of_def [of "(_, _, _)"],
        (rule apply_ok, intro keeps_ok_intros)+)
qed

lemma dispatch_ok:
  assumes "dispatcher_ok d"
  shows "dispatcher_ok (snd (snd (snd (dispatchRunningOrder e io ln m d))))"
  using handle_inbound_ok [OF advanceWalk_ok [OF assms, of e io ln], of e io ln m]
  by (simp add: dispatchRunningOrder_def case_prod_beta Let_def state_of_def)

text \<open>Any sequence of messages, each with its environment.\<close>

type_synonym arrival = "go_env \<times> bool \<times> lane \<times> inbound"

definition dispatch_step :: "arrival \<Rightarrow> dispatcher \<Rightarrow> dispatcher" where
  "dispatch_step a d = (case a of (e, io, ln, m) \<Rightarrow> snd (snd (snd (dispatchRunningOrder e io ln m d))))"

definition dispatch_run :: "arrival list \<Rightarrow> dispatcher \<Rightarrow> dispatcher" where
  "dispatch_run as d = fold dispatch_step as d"

definition new_dispatcher :: "EventBus option \<Rightarrow> string \<Rightarrow> string \<Rightarrow> string \<Rightarrow> dispatcher" where
  "new_dispatcher eb mosID dir path = \<lparr>dp_service = NewMOSService [] [] [] [] eb, dp_resync = newResyncGuard,
     dp_walk = openDiscoveryWalk True dir path None, dp_mosID = mosID\<rparr>"

lemma new_dispatcher_ok: "dispatcher_ok (new_dispatcher eb mosID dir path)"
  using open_ok [of None True dir path]
  by (simp add: dispatcher_ok_def new_dispatcher_def guard_new_ok svc_ok_def NewMOSService_def)

lemma dispatch_run_ok: "dispatcher_ok d \<Longrightarrow> dispatcher_ok (dispatch_run as d)"
proof (induction as arbitrary: d)
  case (Cons a as)
  then show ?case using dispatch_ok [OF Cons.prems] by (cases a) (simp add: dispatch_run_def dispatch_step_def)
qed (simp add: dispatch_run_def)

section \<open>Answers\<close>

text \<open>The service operation of a message, with the running order its answer names.\<close>

fun applied_by :: "go_env \<Rightarrow> string \<Rightarrow> inbound \<Rightarrow> (string \<times> unit svc_op) option" where
  "applied_by e mosID (InReplace r) = Some (ror_ID r, ReplaceRunningOrder e r)"
| "applied_by e mosID (InDelete r) = Some (r, DeleteRunningOrder r)"
| "applied_by e mosID (InMetadataReplace r) = Some (rmr_ID r, ReplaceMetadata e r)"
| "applied_by e mosID (InStorySend r) = Some (rss_ROID r, ProcessROStorySend e r)"
| "applied_by e mosID (InReadyToAir r air) = Some (r, SetReadyToAir e r air)"
| "applied_by e mosID (InElementAction r) = Some (rea_ROID r, ProcessElementAction e r)"
| "applied_by e mosID (InElementStat r) = Some (res_ROID r, ProcessElementStatus e r)"
| "applied_by e mosID (InCreate r) = Some (roi_ID r, ProcessRunningOrderInfo e r mosID)"
| "applied_by e mosID _ = None"

fun is_answer :: "sent \<Rightarrow> bool" where
  "is_answer (Respond m) = True"
| "is_answer _ = False"

lemma discovery_no_answer [simp]: "filter is_answer (sendDiscoveryReq ln i) = []"
  by (simp add: sendDiscoveryReq_def sendRequest_def split: option.split)

lemma resync_no_answer [simp]: "filter is_answer (fst (requestResync e io ln i d)) = []"
  by (simp add: requestResync_def Let_def split: prod.split)

lemma resync_service [simp]: "dp_service (snd (requestResync e io ln i d)) = dp_service d"
  by (simp add: requestResync_def Let_def split: prod.split)

lemma advance_no_answer [simp]: "filter is_answer (fst (advanceWalk e io ln d)) = []"
  by (simp add: advanceWalk_def Let_def split: prod.split)

lemma advance_fields [simp]: "dp_service (snd (advanceWalk e io ln d)) = dp_service d"
  "dp_mosID (snd (advanceWalk e io ln d)) = dp_mosID d" "dp_resync (snd (advanceWalk e io ln d)) = dp_resync d"
  by (simp_all add: advanceWalk_def Let_def split: prod.split)

definition acks_result :: "string \<Rightarrow> unit result \<Rightarrow> sent list \<Rightarrow> bool" where
  "acks_result roID r sent \<longleftrightarrow> (\<exists>status. filter is_answer sent = [Respond (ROAckMsg roID status)] \<and> (status = ''OK'' \<longleftrightarrow> r = Inr ()))"

lemma answer_result_acks:
  "acks_result roID (fst (f (dp_service d))) (sent_of (answer_result e ln roID f d)) \<and>
   dp_service (state_of (answer_result e ln roID f d)) = snd (f (dp_service d))"
  by (simp add: answer_result_eq acks_result_def split: sum.split)

lemma answer_or_recover_acks:
  assumes "take 4 ref = ''NACK''"
  shows "acks_result roID (fst (f (dp_service d))) (sent_of (answer_or_recover e io ln roID ref f d)) \<and>
   dp_service (state_of (answer_or_recover e io ln roID ref f d)) = snd (f (dp_service d))"
proof -
  have "ref \<noteq> ''OK''" using assms by auto
  then show ?thesis
    by (cases rule: answer_or_recover_cases [of f d e io ln roID ref])
      (simp_all add: acks_result_def sent_of_def [of "(_, _, _)"] state_of_def [of "(_, _, _)"])
qed

lemma handle_inbound_acks:
  assumes "applied_by e (dp_mosID d) m = Some (roID, f)"
  shows "acks_result roID (fst (f (dp_service d))) (sent_of (handle_inbound e io ln m d)) \<and>
    dp_service (state_of (handle_inbound e io ln m d)) = snd (f (dp_service d))"
  using assms
  by (cases m) (auto simp: handle_inbound_def handler_defs answer_result_acks answer_or_recover_acks)

section \<open>Properties\<close>




section \<open>Recovery does not loop\<close>

text \<open>What a message does to the guard.\<close>

lemma resync_guard: "dp_resync (snd (requestResync e io ln u d)) = guard_exec (Ask (now e) u) (dp_resync d)"
  by (simp add: requestResync_def Let_def split: prod.split)

definition guard_moves :: "go_env \<Rightarrow> inbound \<Rightarrow> resyncGuard \<Rightarrow> resyncGuard \<Rightarrow> bool" where
  "guard_moves e m g g' \<longleftrightarrow> g' = g \<or> (\<exists>u. g' = guard_exec (Ask (now e) u) g) \<or>
     (\<exists>l. m = InList l \<and> g' = guard_exec (Forget (rol_ID l)) g)"

lemma answer_or_recover_guard: "guard_moves e m (dp_resync d) (dp_resync (state_of (answer_or_recover e io ln roID ref f d)))"
  by (cases rule: answer_or_recover_cases [of f d e io ln roID ref])
    (auto simp: guard_moves_def state_of_def [of "(_, _, _)"] resync_guard)

lemma query_guard:
  "dp_resync (state_of (handleReq e ln r d)) = dp_resync d" "dp_resync (state_of (handleReqAll e ln d)) = dp_resync d"
  "dp_resync (state_of (handleListAll e io ln ros d)) = dp_resync d"
  by (auto simp: handleReq_def handleReqAll_def handleListAll_def case_prod_beta Let_def state_of_def [of "(_, _, _)"] split: sum.split)

lemma list_guard: "guard_moves e (InList l) (dp_resync d) (dp_resync (state_of (handleList e io ln l d)))"
  by (auto simp: handleList_def case_prod_beta Let_def state_of_def guard_moves_def split: sum.split)

lemma dispatch_guard:
  "guard_moves e m (dp_resync d) (dp_resync (snd (snd (snd (dispatchRunningOrder e io ln m d)))))"
proof -
  define d1 where "d1 = snd (advanceWalk e io ln d)"
  have same: "guard_moves e m (dp_resync d1) (dp_resync d1)" by (simp add: guard_moves_def)
  have "guard_moves e m (dp_resync d1) (dp_resync (state_of (handle_inbound e io ln m d1)))"
    using same answer_or_recover_guard query_guard list_guard
    by (cases m) (simp_all add: handle_inbound_def handler_defs answer_result_eq state_of_def [of "(_, _, _)"])
  then show ?thesis
    by (simp add: dispatchRunningOrder_def case_prod_beta Let_def state_of_def d1_def)
qed

definition quiet_about :: "string \<Rightarrow> int \<Rightarrow> arrival \<Rightarrow> bool" where
  "quiet_about u limit a = (case a of (e, io, ln, m) \<Rightarrow>
     now e < limit \<and> (case m of InList l \<Rightarrow> rol_ID l \<noteq> u | _ \<Rightarrow> True))"

lemma guard_moves_keeps:
  assumes "guard_moves e m g g'" "quiet_about u (t + rg_interval g) (e, io, ln, m)" "guard_ok g" "gm_get (rg_requested g) u = Some t"
  shows "gm_get (rg_requested g') u = Some t" "rg_interval g' = rg_interval g" "guard_ok g'"
  using assms guard_exec_keeps [OF assms(3,4)] guard_exec_ok [OF assms(3)]
  by (auto simp: guard_moves_def quiet_about_def simp del: guard_exec.simps)

lemma dispatch_run_guard:
  assumes "guard_ok (dp_resync d)" "gm_get (rg_requested (dp_resync d)) u = Some t"
    "\<forall>a \<in> set as. quiet_about u (t + rg_interval (dp_resync d)) a"
  shows "gm_get (rg_requested (dp_resync (dispatch_run as d))) u = Some t \<and>
    rg_interval (dp_resync (dispatch_run as d)) = rg_interval (dp_resync d)"
  using assms
proof (induction as arbitrary: d)
  case (Cons a as)
  obtain e io ln m where a: "a = (e, io, ln, m)" by (cases a)
  have q: "quiet_about u (t + rg_interval (dp_resync d)) (e, io, ln, m)" using Cons.prems(3) a by simp
  note step = guard_moves_keeps [OF dispatch_guard [of e m d io ln] q Cons.prems(1,2)]
  from Cons.IH [of "dispatch_step a d"] step Cons.prems(3) a show ?case
    by (simp add: dispatch_run_def dispatch_step_def)
qed (simp add: dispatch_run_def)

lemma refused_quietly:
  assumes ok: "guard_ok (dp_resync d)" "rg_interval (dp_resync d) = 30 * 10 ^ 9"
    and granted: "fst (shouldRequest (now e) u (dp_resync d))"
    and d1: "dp_resync d1 = guard_exec (Ask (now e) u) (dp_resync d)"
    and quiet: "\<forall>a \<in> set as. quiet_about u (now e + 30 * 10 ^ 9) a"
    and soon: "now e' < now e + 30 * 10 ^ 9"
    and d2: "d2 = dispatch_run as d1"
    and unknown: "fst (f (dp_service d2)) = Inl er" "errors_As_unknown er = Some u"
  shows "sent_of (answer_or_recover e' io' ln' roID refusal f d2) = [Respond (ROAckMsg roID refusal)]"
proof -
  have g1: "guard_ok (dp_resync d1)" "rg_interval (dp_resync d1) = 30 * 10 ^ 9"
    using guard_exec_ok [OF ok(1), of "Ask (now e) u"] ok(2) by (simp_all add: d1)
  have "gm_get (rg_requested (dp_resync d1)) u = Some (now e)"
    using granted unfolding d1 by (auto simp: shouldRequest_def Let_def gm_get_set split: if_splits)
  from dispatch_run_guard [OF g1(1) this] quiet g1(2)
  have "gm_get (rg_requested (dp_resync d2)) u = Some (now e)" "rg_interval (dp_resync d2) = 30 * 10 ^ 9"
    by (simp_all add: d2)
  with soon have "fst (shouldRequest (now e') u (dp_resync (snd (svc_call f d2)))) = False"
    by (simp add: shouldRequest_def)
  then have none: "fst (requestResync e' io' ln' u (snd (svc_call f d2))) = []"
    by (simp add: requestResync_def case_prod_beta Let_def)
  show ?thesis
    by (cases rule: answer_or_recover_cases [of f d2 e' io' ln' roID refusal])
      (use unknown none in \<open>simp_all add: sent_of_def [of "(_, _, _)"]\<close>)
qed

definition unheld_send :: "string \<Rightarrow> ROStorySend \<Rightarrow> dispatcher \<Rightarrow> bool" where
  "unheld_send u m d \<longleftrightarrow> rss_ROID m = u \<and> TrimSpace u \<noteq> [] \<and> TrimSpace (rss_StoryID m) \<noteq> [] \<and>
     gm_get (runningOrderRepo (dp_service d)) u = None"

lemma send_unheld:
  assumes "unheld_send u m d"
  obtains er where "fst (ProcessROStorySend e m (dp_service d)) = Inl er" "errors_As_unknown er = Some u"
  using story_send_unknown_run [of m "dp_service d" e] assms by (auto simp: unheld_send_def)

text \<open>
  C30. A burst of stories causes one request: when a story for a running order \<open>u\<close> the device does not
  hold was refused over a working lane and the guard let its recovery request pass at time \<open>t\<close>, then,
  after whatever messages arrive before \<open>t + 30 s\<close> except a list for \<open>u\<close>, a further story for \<open>u\<close>
  before \<open>t + 30 s\<close> is answered with a refusal and causes no request at all.
\<close>

theorem refusals_cause_one_request:
  assumes ok: "guard_ok (dp_resync d)" "rg_interval (dp_resync d) = 30 * 10 ^ 9"
    and first: "unheld_send u m d" "ln_responds ln" "fst (shouldRequest (now e) u (dp_resync d))"
    and quiet: "\<forall>a \<in> set as. quiet_about u (now e + 30 * 10 ^ 9) a"
    and d2: "d2 = dispatch_run as (state_of (handleStorySend e io ln m d))"
    and second: "unheld_send u m' d2" "now e' < now e + 30 * 10 ^ 9"
  shows "sent_of (handleStorySend e' io' ln' m' d2) =
    [Respond (ROAckMsg u ''NACK: running order not held by this device, requesting resync'')]"
proof -
  obtain er where er: "fst (ProcessROStorySend e m (dp_service d)) = Inl er" "errors_As_unknown er = Some u"
    using send_unheld [OF first(1)] by blast
  have d1: "dp_resync (state_of (handleStorySend e io ln m d)) = guard_exec (Ask (now e) u) (dp_resync d)"
    unfolding handleStorySend_def
    by (cases rule: answer_or_recover_cases [of "ProcessROStorySend e m" d e io ln "rss_ROID m"
          "''NACK: running order not held by this device, requesting resync''"])
      (use er first(2) in \<open>simp_all add: state_of_def [of "(_, _, _)"] resync_guard\<close>)
  obtain er' where er': "fst (ProcessROStorySend e' m' (dp_service d2)) = Inl er'" "errors_As_unknown er' = Some u"
    using send_unheld [OF second(1)] by blast
  have "rss_ROID m' = u" using second(1) by (simp add: unheld_send_def)
  then show ?thesis
    using refused_quietly [where f = "ProcessROStorySend e' m'", OF ok first(3) d1 quiet second(2) d2 er'] by (simp add: handleStorySend_def)
qed

definition example_lane :: lane where
  "example_lane = \<lparr>ln_responds = True, ln_canOriginate = True, ln_origin = None\<rparr>"

definition example_send :: ROStorySend where
  "example_send = \<lparr>rss_ROID = ''Q'', rss_StoryID = ''A'', rss_StorySlug = [], rss_StoryNum = [],
     rss_StoryBody = zero_StoryBody, rss_ExternalMeta = []\<rparr>"

theorem refusals_cause_one_request_witness:
  "sent_of (handleStorySend example_env True example_lane example_send
     (dispatch_run [] (state_of (handleStorySend example_env True example_lane example_send (new_dispatcher None ''m'' ''d'' ''p''))))) =
   [Respond (ROAckMsg ''Q'' ''NACK: running order not held by this device, requesting resync'')]"
proof -
  define d where "d = new_dispatcher None ''m'' ''d'' ''p''"
  define d2 where "d2 = dispatch_run [] (state_of (handleStorySend example_env True example_lane example_send d))"
  have g: "guard_ok (dp_resync d)" "rg_interval (dp_resync d) = 30 * 10 ^ 9"
    using new_dispatcher_ok by (simp_all add: d_def dispatcher_ok_def) (simp add: new_dispatcher_def newResyncGuard_def defaultResyncInterval_def)
  have first: "unheld_send ''Q'' example_send d" "ln_responds example_lane" "fst (shouldRequest (now example_env) ''Q'' (dp_resync d))"
    unfolding d_def by code_simp+
  have second: "unheld_send ''Q'' example_send d2" unfolding d2_def d_def by code_simp
  have "sent_of (handleStorySend example_env True example_lane example_send d2) =
      [Respond (ROAckMsg ''Q'' ''NACK: running order not held by this device, requesting resync'')]"
    by (rule refusals_cause_one_request [OF g first _ d2_def second]) simp_all
  then show ?thesis by (simp add: d2_def d_def)
qed

section \<open>The answer to a request\<close>

lemma storyInfosFor_run:
  "storyInfosFor e sts s = (Inr (map (\<lambda>st. story_info e st (items.listing (itemRepo s) (story_ID st))) sts), s)"
  by (induction sts) (simp_all add: op_bind_def op_wrap_def GetItemsForStory_def item_List_def items.list_listing)

text \<open>
  C33. A \<open>roReq\<close> is answered with what the device holds: one \<open>roList\<close> with the running order's stories in
  running order, each with its items in order, all under the identifiers the NCS gave them; no block
  of metadata leaves its scope, and the store is not changed.
\<close>

theorem ro_req_lists_the_store:
  assumes id: "TrimSpace roID \<noteq> []" and ro: "gm_get (runningOrderRepo (dp_service d)) roID = Some ro"
    and L: "MemoryStory_ListByRunningOrder (storyRepo (dp_service d)) roID = Inr L"
  shows "\<exists>l. handleReq e ln roID d = (ln_responds ln, [Respond (ROListMsg l)], d) \<and> rol_ID l = ro_ID ro \<and>
    map si_ID (rol_Stories l) = map (\<lambda>st. if story_RawID st = [] then story_ID st else story_RawID st) L \<and>
    map (\<lambda>st. map ii_ID (si_Items st)) (rol_Stories l) =
      map (\<lambda>st. map (\<lambda>it. if item_RawID it = [] then item_ID it else item_RawID it)
        (items.listing (itemRepo (dp_service d)) (story_ID st))) L \<and>
    list_all (\<lambda>b. ScopePermitsLevel e (mem_MosScope b) LevelRunningOrder) (rol_MosExternalMetadata l) \<and>
    list_all (\<lambda>st. list_all (\<lambda>b. ScopePermitsLevel e (mem_MosScope b) LevelStory) (si_MosExternalMetadata st)) (rol_Stories l)"
proof -
  let ?infos = "map (\<lambda>st. story_info e st (items.listing (itemRepo (dp_service d)) (story_ID st))) L"
  have get: "GetRunningOrderWithStories roID (dp_service d) = (Inr (ro, L), dp_service d)"
    by (simp add: GetRunningOrderWithStories_def op_bind_def op_wrap_def ro_Get_held [OF ro] story_List_def L)
  have "handleReq e ln roID d = (ln_responds ln, [Respond (ROListMsg (ro_list e ro ?infos))], d)"
    using id by (simp add: handleReq_def svc_call_def get storyInfosFor_run respond_def)
  then show ?thesis
    by (auto simp: ro_list_def story_info_def item_info_def FilterMetadataForLevel_def list_all_iff)
qed

theorem ro_req_lists_the_store_witness:
  "\<exists>l. handleReq example_env example_lane ''R'' ((new_dispatcher None ''m'' ''d'' ''p'')\<lparr>dp_service := example_service\<rparr>) =
     (True, [Respond (ROListMsg l)], (new_dispatcher None ''m'' ''d'' ''p'')\<lparr>dp_service := example_service\<rparr>) \<and>
     map si_ID (rol_Stories l) = [''A'', ''B'', ''C'']"
proof -
  let ?d = "(new_dispatcher None ''m'' ''d'' ''p'')\<lparr>dp_service := example_service\<rparr>"
  have id: "TrimSpace ''R'' \<noteq> []" by code_simp
  have ro: "gm_get (runningOrderRepo (dp_service ?d)) ''R'' = Some (zero_RunningOrder\<lparr>ro_ID := ''R'', ro_Slug := ''Six'', ro_Status := StatusPending, ro_Version := 1\<rparr>)"
    by (simp add: example_service_def NewMOSService_def)
  have L: "MemoryStory_ListByRunningOrder (storyRepo (dp_service ?d)) ''R'' =
      Inr [snd (example_story ''A'' 1), snd (example_story ''B'' 2), snd (example_story ''C'' 3)]" by code_simp
  from ro_req_lists_the_store [OF id ro L, of example_env example_lane] show ?thesis
    by (auto simp: example_lane_def example_story_def)
qed

end
