(* ===== verification/Wire.thy ===== *)
theory Wire
  imports Prelude "HOL-Library.Word"
begin

text \<open>
  Framing and encoding of the MOS 2.x socket (\<open>src/internal/xml/wire.go\<close>): UCS-2BE bytes to MOS
  frames and back.

  Text is the list of its runes, which is how the code iterates over a string; the patterns the code
  looks for are ASCII, the byte order mark and white space, so prefix tests, searches and trimming act
  on runes. Bytes are 8-bit words. \<open>maxMOSFrameBytes\<close> is an argument of \<open>Append\<close>, so that examples
  can use a small limit; the code's value is \<open>4 << 20\<close>.
\<close>

section \<open>Text\<close>

type_synonym rune = nat
type_synonym byte = "8 word"

definition runes :: "string \<Rightarrow> rune list" where
  "runes s = map of_char s"

text \<open>\<open>unicode.IsSpace\<close>\<close>

definition IsSpace :: "rune \<Rightarrow> bool" where
  "IsSpace r \<longleftrightarrow> r \<in> set [9, 10, 11, 12, 13, 32, 0x85, 0xA0, 0x1680, 0x2000, 0x2001, 0x2002, 0x2003, 0x2004,
     0x2005, 0x2006, 0x2007, 0x2008, 0x2009, 0x200A, 0x2028, 0x2029, 0x202F, 0x205F, 0x3000]"

text \<open>\<open>strings.Index(s, pat)\<close> from position 0: the first occurrence.\<close>

fun find_sub :: "'a list \<Rightarrow> 'a list \<Rightarrow> nat option" where
  "find_sub pat [] = (if pat = [] then Some 0 else None)"
| "find_sub pat (x # xs) =
     (if take (length pat) (x # xs) = pat then Some 0 else map_option Suc (find_sub pat xs))"

definition decl_open :: "rune list" where "decl_open = runes ''<?xml''"
definition decl_close :: "rune list" where "decl_close = runes ''?>''"

definition stripXMLDeclaration :: "rune list \<Rightarrow> rune list" where
  "stripXMLDeclaration v =
     (let v = dropWhile IsSpace v in
      if take 5 v = decl_open then
        (case find_sub decl_close v of Some end \<Rightarrow> drop (end + 2) v | None \<Rightarrow> v)
      else v)"

definition trim_bom :: "rune list \<Rightarrow> rune list" where
  "trim_bom v = (case v of r # rs \<Rightarrow> if r = 0xFEFF then rs else v | [] \<Rightarrow> [])"

section \<open>UCS-2BE\<close>

datatype wire_error = ErrFrameTooLarge | ErrInvalidUCS2 | ErrEnvelopeRequired

definition bad_unit :: "rune \<Rightarrow> bool" where
  "bad_unit u \<longleftrightarrow> 0xD800 \<le> u \<and> u \<le> 0xDFFF \<or> u = 0xFFFE"

fun units :: "byte list \<Rightarrow> rune list" where
  "units (a # b # bs) = (unat a * 256 + unat b) # units bs"
| "units _ = []"

definition unit_bytes :: "rune \<Rightarrow> byte list" where
  "unit_bytes r = [word_of_nat (r div 256), word_of_nat r]"

definition mustEncodeUCS2BE :: "rune list \<Rightarrow> byte list" where
  "mustEncodeUCS2BE v = concat (map unit_bytes v)"

definition DecodeUCS2BE :: "byte list \<Rightarrow> wire_error + rune list" where
  "DecodeUCS2BE data =
     (if odd (length data) then Inl ErrInvalidUCS2
      else if list_ex bad_unit (units data) then Inl ErrInvalidUCS2
      else Inr (stripXMLDeclaration (trim_bom (units data))))"

definition xml_declaration :: "rune list" where
  "xml_declaration = runes (''<?xml version='' @ [CHR 0x22] @ ''1.0'' @ [CHR 0x22] @ '' encoding='' @ [CHR 0x22] @
     ''UTF-16'' @ [CHR 0x22] @ ''?>'' @ [CHR 0x0A])"

definition EncodeUCS2BE :: "rune list \<Rightarrow> wire_error + byte list" where
  "EncodeUCS2BE data =
     (let v = xml_declaration @ stripXMLDeclaration data in
      if list_ex (\<lambda>r. r > 0xFFFF \<or> 0xD800 \<le> r \<and> r \<le> 0xDFFF) v then Inl ErrInvalidUCS2
      else Inr (mustEncodeUCS2BE v))"

section \<open>The framer\<close>

definition ucs2CloseMOS :: "byte list" where
  "ucs2CloseMOS = mustEncodeUCS2BE (runes ''</mos>'')"

record UCS2BEFramer =
  fr_buffer :: "byte list"
  fr_rootChecked :: bool
  fr_searchFrom :: nat

definition NewUCS2BEFramer :: UCS2BEFramer where
  "NewUCS2BEFramer = \<lparr>fr_buffer = [], fr_rootChecked = False, fr_searchFrom = 0\<rparr>"

definition maxMOSFrameBytes :: nat where "maxMOSFrameBytes = 4 * 2 ^ 20"

definition framer_Append :: "nat \<Rightarrow> byte list \<Rightarrow> UCS2BEFramer \<Rightarrow> (wire_error + UCS2BEFramer)" where
  "framer_Append limit data f =
     (if length (fr_buffer f) + length data > limit then Inl ErrFrameTooLarge
      else Inr (f\<lparr>fr_buffer := fr_buffer f @ data\<rparr>))"

text \<open>\<open>Some\<close> the name when the start tag is complete.\<close>

definition name_end :: "rune \<Rightarrow> bool" where
  "name_end r \<longleftrightarrow> r \<in> set (runes (''  /'' @ [CHR 0x09, CHR 0x0D, CHR 0x0A] @ ''>''))"

definition start_name :: "rune list \<Rightarrow> wire_error + rune list option" where
  "start_name v =
     (case v of
        [] \<Rightarrow> Inr None
      | r # rs \<Rightarrow>
          if r \<noteq> of_char CHR ''<'' then Inl ErrInvalidUCS2
          else if list_ex name_end rs then Inr (Some (takeWhile (\<lambda>r. \<not> name_end r) rs))
          else Inr None)"

definition root_name :: "rune list \<Rightarrow> wire_error + rune list option" where
  "root_name us =
     (let v = dropWhile IsSpace (trim_bom us) in
      if take 5 v = decl_open then
        (case find_sub decl_close v of
           None \<Rightarrow> Inr None
         | Some end \<Rightarrow> start_name (dropWhile IsSpace (drop (end + 2) v)))
      else start_name v)"

definition ucs2RootName :: "byte list \<Rightarrow> wire_error + rune list option" where
  "ucs2RootName data = (if list_ex bad_unit (units data) then Inl ErrInvalidUCS2 else root_name (units data))"

text \<open>
  The search of \<open>Next\<close> for the first closing tag at an even offset: the new \<open>searchFrom\<close> and the offset
  when there is one.
\<close>

lemma find_sub_length: "find_sub pat xs = Some i \<Longrightarrow> i + length pat \<le> length xs"
  by (induction xs arbitrary: i) (auto split: if_splits dest: arg_cong [where f = length])

lemma ucs2CloseMOS_length [simp]: "length ucs2CloseMOS = 12"
  by (simp add: ucs2CloseMOS_def mustEncodeUCS2BE_def unit_bytes_def runes_def)

function search_close :: "byte list \<Rightarrow> nat \<Rightarrow> nat \<times> nat option" where
  "search_close buf start =
     (case find_sub ucs2CloseMOS (drop start buf) of
        None \<Rightarrow> (length buf + 1 - length ucs2CloseMOS, None)
      | Some i \<Rightarrow> if odd (i + start) then search_close buf (i + start + 1) else (start, Some (i + start)))"
  by pat_completeness auto
termination
proof (relation "measure (\<lambda>(buf, start). length buf - start)", goal_cases)
  case (2 buf start i)
  then have "i + 12 \<le> length (drop start buf)" using find_sub_length [of ucs2CloseMOS] by fastforce
  then show ?case by simp
qed simp

declare search_close.simps [simp del]

text \<open>\<open>Inr (Some v)\<close> is a frame, \<open>Inr None\<close> that more bytes are needed.\<close>

definition check_root :: "UCS2BEFramer \<Rightarrow> wire_error + bool" where
  "check_root f =
     (if fr_rootChecked f then Inr True
      else case ucs2RootName (fr_buffer f) of
        Inl e \<Rightarrow> Inl e
      | Inr None \<Rightarrow> Inr False
      | Inr (Some root) \<Rightarrow> if root \<noteq> runes ''mos'' then Inl ErrEnvelopeRequired else Inr True)"

definition framer_Next :: "UCS2BEFramer \<Rightarrow> (wire_error + rune list option) \<times> UCS2BEFramer" where
  "framer_Next f =
     (case check_root f of
        Inl e \<Rightarrow> (Inl e, f)
      | Inr checked \<Rightarrow>
          (let f = f\<lparr>fr_rootChecked := checked\<rparr> in
           case search_close (fr_buffer f) (fr_searchFrom f) of
             (start, None) \<Rightarrow> (Inr None, f\<lparr>fr_searchFrom := start\<rparr>)
           | (start, Some index) \<Rightarrow>
               (case DecodeUCS2BE (take (index + length ucs2CloseMOS) (fr_buffer f)) of
                  Inl e \<Rightarrow> (Inl e, f\<lparr>fr_searchFrom := start\<rparr>)
                | Inr frame \<Rightarrow> (Inr (Some frame),
                    \<lparr>fr_buffer = drop (index + length ucs2CloseMOS) (fr_buffer f), fr_rootChecked = False,
                     fr_searchFrom = 0\<rparr>))))"

text \<open>
  The read loop of a socket connection (\<open>server/client.go\<close>, \<open>Start\<close>) as far as the framer is concerned:
  every complete frame is taken before the next read, and an error ends the connection.
\<close>

lemma search_close_bound: "search_close buf start = (s, Some i) \<Longrightarrow> i + 12 \<le> length buf"
proof (induction buf start rule: search_close.induct)
  case (1 buf start)
  then show ?case
    using find_sub_length [of ucs2CloseMOS "drop start buf"]
    by (subst (asm) (2) search_close.simps) (fastforce split: option.splits if_splits)
qed

lemma framer_Next_shorter:
  "framer_Next f = (Inr (Some v), f') \<Longrightarrow> length (fr_buffer f') < length (fr_buffer f)"
  by (auto simp: framer_Next_def Let_def split: sum.splits prod.splits option.splits dest!: search_close_bound)

function drain :: "UCS2BEFramer \<Rightarrow> rune list list \<times> (wire_error + UCS2BEFramer)" where
  "drain f =
     (case framer_Next f of
        (Inl e, _) \<Rightarrow> ([], Inl e)
      | (Inr None, f) \<Rightarrow> ([], Inr f)
      | (Inr (Some v), f) \<Rightarrow> (case drain f of (vs, r) \<Rightarrow> (v # vs, r)))"
  by pat_completeness auto
termination
  by (relation "measure (\<lambda>f. length (fr_buffer f))") (auto dest: framer_Next_shorter [OF sym])

declare drain.simps [simp del]

fun read_chunks :: "nat \<Rightarrow> byte list list \<Rightarrow> UCS2BEFramer \<Rightarrow> rune list list \<times> (wire_error + UCS2BEFramer)" where
  "read_chunks limit [] f = ([], Inr f)"
| "read_chunks limit (c # cs) f =
     (if c = [] then read_chunks limit cs f
      else case framer_Append limit c f of
        Inl e \<Rightarrow> ([], Inl e)
      | Inr f \<Rightarrow>
          (case drain f of
             (vs, Inl e) \<Rightarrow> (vs, Inl e)
           | (vs, Inr f) \<Rightarrow> (case read_chunks limit cs f of (ws, r) \<Rightarrow> (vs @ ws, r))))"

section \<open>Searching\<close>

definition occurs_at :: "'a list \<Rightarrow> 'a list \<Rightarrow> nat \<Rightarrow> bool" where
  "occurs_at pat xs i \<longleftrightarrow> i \<le> length xs \<and> take (length pat) (drop i xs) = pat"

lemma occurs_at_0: "occurs_at pat xs 0 \<longleftrightarrow> take (length pat) xs = pat"
  by (simp add: occurs_at_def)

lemma occurs_at_Cons_Suc: "occurs_at pat (x # xs) (Suc i) \<longleftrightarrow> occurs_at pat xs i"
  by (simp add: occurs_at_def)

lemma occurs_at_drop: "n \<le> length xs \<Longrightarrow> occurs_at pat (drop n xs) i \<longleftrightarrow> occurs_at pat xs (n + i)"
  by (auto simp: occurs_at_def add.commute)

lemma occurs_at_length: "occurs_at pat xs i \<Longrightarrow> i + length pat \<le> length xs"
  by (auto simp: occurs_at_def dest!: arg_cong [where f = length])

lemma occurs_at_append:
  assumes "occurs_at pat xs i"
  shows "occurs_at pat (xs @ ys) i"
  using occurs_at_length [OF assms] assms by (simp add: occurs_at_def)

lemma occurs_at_append_iff:
  assumes "i + length pat \<le> length xs"
  shows "occurs_at pat (xs @ ys) i \<longleftrightarrow> occurs_at pat xs i"
  using assms by (simp add: occurs_at_def)

lemma find_sub_SomeD: "find_sub pat xs = Some i \<Longrightarrow> occurs_at pat xs i \<and> (\<forall>j<i. \<not> occurs_at pat xs j)"
  by (induction xs arbitrary: i)
    (auto simp: occurs_at_0 occurs_at_Cons_Suc less_Suc_eq_0_disj split: if_splits)

lemma find_sub_NoneD: "find_sub pat xs = None \<Longrightarrow> \<not> occurs_at pat xs i"
proof (induction xs arbitrary: i)
  case (Cons x xs)
  then show ?case by (cases i) (auto simp: occurs_at_0 occurs_at_Cons_Suc split: if_splits)
qed (auto simp: occurs_at_def split: if_splits)

lemma find_sub_Some_iff:
  "find_sub pat xs = Some i \<longleftrightarrow> occurs_at pat xs i \<and> (\<forall>j<i. \<not> occurs_at pat xs j)"
proof (cases "find_sub pat xs")
  case None
  then show ?thesis using find_sub_NoneD [OF None] by simp
next
  case (Some k)
  then show ?thesis using find_sub_SomeD [OF Some] by (auto intro: linorder_cases [of i k])
qed

lemma find_sub_None_iff: "find_sub pat xs = None \<longleftrightarrow> (\<forall>i. \<not> occurs_at pat xs i)"
  by (cases "find_sub pat xs") (auto dest: find_sub_NoneD find_sub_SomeD)

lemma find_sub_append:
  assumes "find_sub pat xs = Some i"
  shows "find_sub pat (xs @ ys) = Some i"
  using assms occurs_at_length [of pat xs i]
  by (auto simp: find_sub_Some_iff occurs_at_append occurs_at_append_iff)

lemma find_sub_prefix:
  assumes "find_sub pat (xs @ ys) = Some i" "find_sub pat xs = Some j"
  shows "j = i"
  using assms find_sub_append [OF assms(2), of ys] by simp

lemma find_sub_skip:
  "p \<notin> set xs \<Longrightarrow> find_sub (p # ps) (xs @ v) = map_option ((+) (length xs)) (find_sub (p # ps) v)"
  by (induction xs) (auto simp: option.map_comp comp_def map_option_case split: option.splits)

lemma find_sub_after_head:
  assumes "take (length ps) xs \<noteq> ps" "length ps \<le> length xs" "p \<notin> set xs"
  shows "find_sub (p # ps) (p # xs @ v) = map_option ((+) (length (p # xs))) (find_sub (p # ps) v)"
  using assms find_sub_skip [OF assms(3), of ps v] by (simp add: map_option_case split: option.splits)

section \<open>Code units\<close>

lemma units_length [simp]: "length (units bs) = length bs div 2"
  by (induction bs rule: units.induct) auto

lemma mustEncode_Cons [simp]: "mustEncodeUCS2BE (r # rs) = unit_bytes r @ mustEncodeUCS2BE rs"
  by (simp add: mustEncodeUCS2BE_def)

lemma mustEncode_Nil [simp]: "mustEncodeUCS2BE [] = []"
  by (simp add: mustEncodeUCS2BE_def)

lemma mustEncode_append [simp]: "mustEncodeUCS2BE (v @ w) = mustEncodeUCS2BE v @ mustEncodeUCS2BE w"
  by (simp add: mustEncodeUCS2BE_def)

lemma mustEncode_length [simp]: "length (mustEncodeUCS2BE v) = 2 * length v"
  by (induction v) (auto simp: unit_bytes_def)

lemma unit_bytes_unit:
  fixes a b :: byte
  shows "unit_bytes (unat a * 256 + unat b) = [a, b]"
proof -
  have "unat b < 256" using unsigned_less [of b] by simp
  then have "(unat a * 256 + unat b) div 256 = unat a" by simp
  moreover have "(256 :: byte) = 0" by (rule word_unat_eq_iff [THEN iffD2]) (simp add: unsigned_numeral)
  then have "a * 256 = 0" by (metis mult_zero_right)
  then have "word_of_nat (unat a * 256 + unat b) = b" by simp
  ultimately show ?thesis by (simp add: unit_bytes_def)
qed

lemma units_unit_bytes: "r < 65536 \<Longrightarrow> units (unit_bytes r @ bs) = r # units bs"
  by (simp add: unit_bytes_def unat_of_nat)

lemma units_mustEncode: "\<forall>r\<in>set v. r < 65536 \<Longrightarrow> units (mustEncodeUCS2BE v @ bs) = v @ units bs"
  by (induction v) (auto simp: units_unit_bytes)

lemma mustEncode_units: "even (length bs) \<Longrightarrow> mustEncodeUCS2BE (units bs) = bs"
  by (induction bs rule: units.induct) (auto simp: unit_bytes_unit)

lemma units_append: "even (length as) \<Longrightarrow> units (as @ bs) = units as @ units bs"
  by (induction as rule: units.induct) auto

lemma units_drop: "units (drop (2 * k) bs) = drop k (units bs)"
proof (induction bs arbitrary: k rule: units.induct)
  case (1 a b bs)
  then show ?case by (cases k) auto
qed (auto simp: drop_Cons split: nat.splits)

lemma units_take: "units (take (2 * k) bs) = take k (units bs)"
proof (induction bs arbitrary: k rule: units.induct)
  case (1 a b bs)
  then show ?case by (cases k) auto
qed (auto simp: take_Cons split: nat.splits)

lemma units_prefix: "\<exists>w. units (as @ bs) = units as @ w"
  by (induction as rule: units.induct) auto

section \<open>The search of the framer\<close>

definition close_mos :: "rune list" where "close_mos = runes ''</mos>''"

lemma close_mos_length [simp]: "length close_mos = 6"
  by (simp add: close_mos_def runes_def)

lemma units_ucs2CloseMOS: "units ucs2CloseMOS = close_mos"
  using units_mustEncode [of "runes ''</mos>''" "[]"]
  by (simp add: ucs2CloseMOS_def close_mos_def runes_def)

lemma aligned_occurrence: "occurs_at ucs2CloseMOS buf (2 * k) \<longleftrightarrow> occurs_at close_mos (units buf) k"
proof
  assume l: "occurs_at ucs2CloseMOS buf (2 * k)"
  then have "units (take (2 * 6) (drop (2 * k) buf)) = close_mos"
    by (simp add: occurs_at_def units_ucs2CloseMOS)
  then have "take 6 (drop k (units buf)) = close_mos" by (simp only: units_take units_drop)
  then show "occurs_at close_mos (units buf) k"
    using l by (auto simp: occurs_at_def)
next
  assume r: "occurs_at close_mos (units buf) k"
  let ?b = "take (2 * 6) (drop (2 * k) buf)"
  have len: "k + 6 \<le> length buf div 2" using occurs_at_length [OF r] by simp
  then have "even (length ?b)" by simp
  then have "?b = mustEncodeUCS2BE (units ?b)" by (rule mustEncode_units [symmetric])
  also have "units ?b = close_mos" using r by (simp only: units_take units_drop) (simp add: occurs_at_def)
  also have "mustEncodeUCS2BE close_mos = ucs2CloseMOS" by (simp only: ucs2CloseMOS_def close_mos_def)
  finally show "occurs_at ucs2CloseMOS buf (2 * k)" using len by (simp add: occurs_at_def)
qed

text \<open>No closing tag starts at an even offset before \<open>searchFrom\<close>.\<close>

definition search_ok :: "byte list \<Rightarrow> nat \<Rightarrow> bool" where
  "search_ok buf start \<longleftrightarrow> start \<le> length buf \<and> (\<forall>k. 2 * k < start \<longrightarrow> \<not> occurs_at close_mos (units buf) k)"

lemma search_step:
  assumes ok: "search_ok buf start" and found: "find_sub ucs2CloseMOS (drop start buf) = Some i" and "odd (i + start)"
  shows "search_ok buf (i + start + 1)"
proof -
  have le: "start \<le> length buf" using ok by (simp add: search_ok_def)
  note f = find_sub_SomeD [OF found]
  have "\<not> occurs_at close_mos (units buf) k" if k: "2 * k < i + start + 1" for k
  proof (cases "2 * k < start")
    case False
    moreover have "2 * k \<noteq> i + start" using \<open>odd (i + start)\<close> by (metis dvd_triv_left)
    ultimately have "2 * k - start < i" using k by linarith
    then have "\<not> occurs_at ucs2CloseMOS buf (start + (2 * k - start))"
      using f occurs_at_drop [OF le] by metis
    then show ?thesis using False by (simp add: aligned_occurrence)
  qed (use ok in \<open>simp add: search_ok_def\<close>)
  moreover have "i + start + 12 \<le> length buf" using find_sub_length [OF found] le by simp
  ultimately show ?thesis by (simp add: search_ok_def)
qed

lemma search_close_correct:
  assumes "search_ok buf start"
  shows "snd (search_close buf start) = map_option ((*) 2) (find_sub close_mos (units buf))
    \<and> (snd (search_close buf start) = None \<longrightarrow> fst (search_close buf start) = length buf - 11)"
  using assms
proof (induction buf start rule: search_close.induct)
  case (1 buf start)
  have le: "start \<le> length buf" using 1(2) by (simp add: search_ok_def)
  show ?case
  proof (cases "find_sub ucs2CloseMOS (drop start buf)")
    case None
    have "\<not> occurs_at close_mos (units buf) k" for k
    proof (cases "2 * k < start")
      case False
      have "\<not> occurs_at ucs2CloseMOS (drop start buf) (2 * k - start)" by (rule find_sub_NoneD [OF None])
      then show ?thesis using False le by (simp add: occurs_at_drop aligned_occurrence)
    qed (use 1(2) in \<open>simp add: search_ok_def\<close>)
    then have "find_sub close_mos (units buf) = None" by (simp add: find_sub_None_iff)
    then show ?thesis using None by (simp add: search_close.simps [of buf start])
  next
    case (Some i)
    show ?thesis
    proof (cases "odd (i + start)")
      case True
      then show ?thesis using 1(1) [OF Some True search_step [OF 1(2) Some True]] Some
        by (simp add: search_close.simps [of buf start])
    next
      case False
      then obtain k where k: "i + start = 2 * k" by (metis evenE)
      have "occurs_at ucs2CloseMOS buf (start + i)" using find_sub_SomeD [OF Some] by (simp add: occurs_at_drop le)
      then have "occurs_at close_mos (units buf) k" using k by (simp add: aligned_occurrence add.commute)
      moreover have "\<not> occurs_at close_mos (units buf) j" if j: "j < k" for j
      proof (cases "2 * j < start")
        case False
        then have "\<not> occurs_at ucs2CloseMOS (drop start buf) (2 * j - start)"
          using find_sub_SomeD [OF Some] j k by (metis add_diff_cancel_right' diff_less_mono linorder_not_less mult_less_mono2 zero_less_numeral)
        then show ?thesis using False le by (simp add: occurs_at_drop aligned_occurrence)
      qed (use 1(2) in \<open>simp add: search_ok_def\<close>)
      ultimately have "find_sub close_mos (units buf) = Some k" by (simp add: find_sub_Some_iff)
      then show ?thesis using Some False k by (simp add: search_close.simps [of buf start])
    qed
  qed
qed

section \<open>The root element\<close>

lemma dropWhile_append_cases:
  obtains (spaces) "dropWhile P u = []" | (rest) "dropWhile P u \<noteq> []" "dropWhile P (u @ w) = dropWhile P u @ w"
  by (cases "dropWhile P u = []") (auto simp: dropWhile_append1)

lemma start_name_extend:
  "start_name u = Inr (Some n) \<Longrightarrow> start_name (u @ w) = Inr (Some n)"
  by (auto simp: start_name_def list_ex_iff takeWhile_append split: list.splits if_splits)

lemma start_name_prefix:
  "start_name (u @ w) = Inr (Some n) \<Longrightarrow> start_name u = Inr None \<or> start_name u = Inr (Some n)"
  by (cases u) (auto simp: start_name_def takeWhile_append list_ex_iff split: if_splits)

lemma start_name_decl_fragment:
  assumes "take 5 (u @ w) = decl_open" "take 5 u \<noteq> decl_open"
  shows "start_name u = Inr None"
proof -
  have "length u < 5" using assms by (cases "length u < 5") auto
  then have "decl_open = u @ take (5 - length u) w" using assms(1) [symmetric] by simp
  then have "u = take (length u) decl_open" by (metis append_eq_conv_conj)
  moreover have "start_name (take n decl_open) = Inr None" for n
    by (auto simp: start_name_def decl_open_def runes_def name_end_def take_Cons list_ex_iff split: nat.splits)
  ultimately show ?thesis by metis
qed

definition after_space :: "rune list \<Rightarrow> wire_error + rune list option" where
  "after_space v =
     (if take 5 v = decl_open then
        (case find_sub decl_close v of
           None \<Rightarrow> Inr None
         | Some end \<Rightarrow> start_name (dropWhile IsSpace (drop (end + 2) v)))
      else start_name v)"

lemma root_name_after_space: "root_name us = after_space (dropWhile IsSpace (trim_bom us))"
  by (simp add: root_name_def after_space_def Let_def)

lemma after_space_Nil [simp]: "after_space [] = Inr None"
  by (simp add: after_space_def start_name_def decl_open_def runes_def)

lemma trim_bom_append: "u \<noteq> [] \<Longrightarrow> trim_bom (u @ w) = trim_bom u @ w"
  by (cases u) (auto simp: trim_bom_def)

lemma drop_found:
  assumes "find_sub pat u = Some e"
  shows "drop (e + length pat) (u @ w) = drop (e + length pat) u @ w"
  using find_sub_length [OF assms] by simp

lemma start_name_Nil: "start_name [] = Inr None"
  by (simp add: start_name_def)

lemma start_name_spaces_extend:
  "start_name (dropWhile IsSpace u) = Inr (Some n) \<Longrightarrow> start_name (dropWhile IsSpace (u @ w)) = Inr (Some n)"
  by (rule dropWhile_append_cases [where P = IsSpace and u = u and w = w]) (auto simp only: start_name_extend start_name_Nil)

lemma start_name_spaces_prefix:
  "start_name (dropWhile IsSpace (u @ w)) = Inr (Some n) \<Longrightarrow>
   start_name (dropWhile IsSpace u) = Inr None \<or> start_name (dropWhile IsSpace u) = Inr (Some n)"
  by (rule dropWhile_append_cases [where P = IsSpace and u = u and w = w]) (simp_all only: start_name_prefix start_name_Nil simp_thms)

lemma decl_close_length [simp]: "length decl_close = 2" "length decl_open = 5"
  by (simp_all add: decl_close_def decl_open_def runes_def)

lemma take_decl_append: "take 5 u = decl_open \<Longrightarrow> take 5 (u @ w) = decl_open"
  by (metis append_Nil2 decl_close_length(2) diff_is_0_eq length_take min.cobounded1 take_0 take_append)

lemma after_space_decl:
  assumes "take 5 u = decl_open" "find_sub decl_close u = Some e"
  shows "after_space (u @ w) = start_name (dropWhile IsSpace (drop (e + 2) u @ w))"
  using take_decl_append [OF assms(1), of w] find_sub_append [OF assms(2), of w]
    drop_found [OF assms(2), of w]
  by (simp add: after_space_def del: take_append drop_append)

lemma after_space_extend:
  assumes "after_space u = Inr (Some n)"
  shows "after_space (u @ w) = Inr (Some n)"
proof (cases "take 5 u = decl_open")
  case True
  then obtain e where e: "find_sub decl_close u = Some e"
    using assms by (auto simp: after_space_def split: option.splits)
  then have "start_name (dropWhile IsSpace (drop (e + 2) u)) = Inr (Some n)"
    using assms True by (simp add: after_space_def)
  then show ?thesis by (simp only: after_space_decl [OF True e] start_name_spaces_extend)
next
  case False
  then have "take 5 (u @ w) \<noteq> decl_open"
    using assms start_name_decl_fragment [of u w] by (auto simp: after_space_def simp del: take_append)
  then show ?thesis using assms False by (simp add: after_space_def start_name_extend del: take_append)
qed

lemma after_space_prefix:
  assumes "after_space (u @ w) = Inr (Some n)"
  shows "after_space u = Inr None \<or> after_space u = Inr (Some n)"
proof (cases "take 5 u = decl_open")
  case True
  show ?thesis
  proof (cases "find_sub decl_close u")
    case None
    then show ?thesis using True by (simp add: after_space_def)
  next
    case (Some e)
    have "start_name (dropWhile IsSpace (drop (e + 2) u @ w)) = Inr (Some n)"
      using assms by (simp only: after_space_decl [OF True Some])
    then show ?thesis using True Some start_name_spaces_prefix by (simp add: after_space_def)
  qed
next
  case False
  then show ?thesis using assms start_name_decl_fragment [of u w] start_name_prefix [of u w]
    by (cases "take 5 (u @ w) = decl_open") (auto simp: after_space_def simp del: take_append)
qed

lemma root_name_extend:
  assumes "root_name u = Inr (Some n)"
  shows "root_name (u @ w) = Inr (Some n)"
proof -
  have "u \<noteq> []" using assms by (auto simp: root_name_after_space trim_bom_def)
  then have t: "trim_bom (u @ w) = trim_bom u @ w" by (rule trim_bom_append)
  show ?thesis
  proof (cases rule: dropWhile_append_cases [where P = IsSpace and u = "trim_bom u" and w = w])
    case spaces
    then show ?thesis using assms by (simp only: root_name_after_space after_space_Nil) simp
  next
    case rest
    then show ?thesis using assms after_space_extend by (simp only: root_name_after_space t)
  qed
qed

lemma root_name_prefix:
  assumes "root_name (u @ w) = Inr (Some n)"
  shows "root_name u = Inr None \<or> root_name u = Inr (Some n)"
proof (cases rule: dropWhile_append_cases [where P = IsSpace and u = "trim_bom u" and w = w])
  case spaces
  then show ?thesis by (simp only: root_name_after_space after_space_Nil) simp
next
  case rest
  then have "u \<noteq> []" by (auto simp: trim_bom_def)
  then have t: "trim_bom (u @ w) = trim_bom u @ w" by (rule trim_bom_append)
  show ?thesis using assms rest after_space_prefix by (simp only: root_name_after_space t)
qed

section \<open>Frames\<close>

text \<open>
  A frame as a peer sends it: valid code units, a \<open>mos\<close> root element, and its only closing tag at the end.
\<close>

definition valid_frame :: "byte list \<Rightarrow> bool" where
  "valid_frame fr \<longleftrightarrow> even (length fr) \<and> \<not> list_ex bad_unit (units fr)
     \<and> root_name (units fr) = Inr (Some (runes ''mos''))
     \<and> find_sub close_mos (units fr) = Some (length (units fr) - 6)"

definition frame_text :: "byte list \<Rightarrow> rune list" where
  "frame_text fr = stripXMLDeclaration (trim_bom (units fr))"

lemma valid_frame_length: "valid_frame fr \<Longrightarrow> 12 \<le> length fr"
  using find_sub_length [of close_mos "units fr"] by (auto simp: valid_frame_def elim!: evenE)

lemma decode_valid_frame: "valid_frame fr \<Longrightarrow> DecodeUCS2BE fr = Inr (frame_text fr)"
  by (simp add: valid_frame_def DecodeUCS2BE_def frame_text_def)

text \<open>The buffer between reads: a proper prefix of the next frame, searched up to its last eleven bytes.\<close>

definition waiting :: "byte list \<Rightarrow> UCS2BEFramer \<Rightarrow> bool" where
  "waiting fr f \<longleftrightarrow> (\<exists>rest. fr = fr_buffer f @ rest \<and> rest \<noteq> []) \<and> fr_searchFrom f = length (fr_buffer f) - 11"

lemma search_ok_extend:
  assumes ok: "search_ok buf start" and le: "start \<le> length buf - 11"
  shows "search_ok (buf @ ext) start"
proof -
  obtain w where w: "units (buf @ ext) = units buf @ w" using units_prefix by blast
  have "\<not> occurs_at close_mos (units (buf @ ext)) k" if k: "2 * k < start" for k
  proof -
    have "k + 6 \<le> length (units buf)" using k le by simp
    then show ?thesis using ok k by (simp add: w occurs_at_append_iff search_ok_def)
  qed
  then show ?thesis using ok by (simp add: search_ok_def)
qed

lemma frame_first_close:
  assumes "valid_frame fr" "fr @ ext = buf @ rest" "length buf < length fr"
  shows "find_sub close_mos (units buf) = None"
proof (cases "find_sub close_mos (units buf)")
  case (Some k)
  obtain v where v: "fr = buf @ v" using assms(2,3) by (auto simp: append_eq_append_conv2)
  then obtain w where "units fr = units buf @ w" using units_prefix by blast
  then have "find_sub close_mos (units fr) = Some k" using Some by (simp add: find_sub_append)
  then have "k = length fr div 2 - 6" using assms(1) by (simp add: valid_frame_def)
  moreover have "k + 6 \<le> length buf div 2" using find_sub_length [OF Some] by simp
  ultimately have "length fr div 2 \<le> length buf div 2" by simp
  then show ?thesis using assms(1,3) by (auto simp: valid_frame_def elim!: evenE)
qed

lemma check_root_prefix:
  assumes "root_name (units fr) = Inr (Some (runes ''mos''))" "even (length fr)"
    and "\<not> list_ex bad_unit (units (fr_buffer f))" and "fr_buffer f @ rest = fr @ ext"
  shows "\<exists>c. check_root f = Inr c"
proof -
  let ?u = "units (fr_buffer f)"
  have "root_name (units fr @ units ext) = Inr (Some (runes ''mos''))" by (rule root_name_extend [OF assms(1)])
  moreover obtain w where "units fr @ units ext = ?u @ w"
    using units_prefix [of "fr_buffer f" rest] assms(2,4) by (auto simp: units_append)
  ultimately have "root_name ?u = Inr None \<or> root_name ?u = Inr (Some (runes ''mos''))"
    using root_name_prefix by metis
  then show ?thesis using assms(3) by (auto simp: check_root_def ucs2RootName_def)
qed

lemma stream_units_ok:
  assumes "\<forall>fr\<in>set frs. valid_frame fr" "buf @ fut = concat frs"
  shows "\<not> list_ex bad_unit (units buf)"
proof -
  have "\<not> list_ex bad_unit (units (concat frs))"
    using assms(1) by (induction frs) (auto simp: units_append valid_frame_def)
  moreover obtain w where "units (concat frs) = units buf @ w" using units_prefix assms(2) by metis
  ultimately show ?thesis by simp
qed

lemma next_incomplete:
  assumes "check_root f = Inr c" "search_ok (fr_buffer f) (fr_searchFrom f)"
    and "find_sub close_mos (units (fr_buffer f)) = None"
  shows "framer_Next f = (Inr None, f\<lparr>fr_rootChecked := c, fr_searchFrom := length (fr_buffer f) - 11\<rparr>)"
proof -
  have "search_close (fr_buffer f) (fr_searchFrom f) = (length (fr_buffer f) - 11, None)"
    using search_close_correct [OF assms(2)] assms(3) by (auto intro: prod_eqI)
  then show ?thesis using assms(1) by (simp add: framer_Next_def)
qed

lemma next_complete:
  assumes "check_root f = Inr c" "search_ok (fr_buffer f) (fr_searchFrom f)"
    and v: "valid_frame fr" and buf: "fr_buffer f = fr @ ext"
  shows "framer_Next f = (Inr (Some (frame_text fr)), NewUCS2BEFramer\<lparr>fr_buffer := ext\<rparr>)"
proof -
  have "find_sub close_mos (units (fr_buffer f)) = Some (length fr div 2 - 6)"
    using v by (simp add: valid_frame_def units_append buf find_sub_append)
  then obtain start where "search_close (fr @ ext) (fr_searchFrom f) = (start, Some (2 * (length fr div 2 - 6)))"
    using search_close_correct [OF assms(2)] by (cases "search_close (fr @ ext) (fr_searchFrom f)") (simp add: buf)
  moreover have "2 * (length fr div 2 - 6) + 12 = length fr"
    using v valid_frame_length [OF v] by (auto simp: valid_frame_def elim!: evenE)
  ultimately show ?thesis using assms(1) decode_valid_frame [OF v]
    by (simp add: framer_Next_def buf NewUCS2BEFramer_def Let_def)
qed

text \<open>Between two reads: the frames that are not complete yet, with the received part of the first in the buffer.\<close>

definition between_reads :: "byte list list \<Rightarrow> UCS2BEFramer \<Rightarrow> bool" where
  "between_reads frs f \<longleftrightarrow> fr_searchFrom f = length (fr_buffer f) - 11
     \<and> (case frs of [] \<Rightarrow> fr_buffer f = [] | fr # _ \<Rightarrow> \<exists>rest. fr = fr_buffer f @ rest \<and> rest \<noteq> [])"

lemma drain_step:
  assumes "\<forall>fr\<in>set frs. valid_frame fr" "fr_buffer f @ fut = concat frs"
    and "search_ok (fr_buffer f) (fr_searchFrom f)"
  shows "\<exists>taken todo f'. frs = taken @ todo \<and> drain f = (map frame_text taken, Inr f')
     \<and> fr_buffer f' @ fut = concat todo \<and> between_reads todo f'"
  using assms
proof (induction frs arbitrary: f)
  case Nil
  then have "fr_buffer f = []" by simp
  moreover from this have "check_root f = Inr (fr_rootChecked f)"
    by (simp add: check_root_def ucs2RootName_def root_name_after_space trim_bom_def)
  moreover have "find_sub close_mos (units []) = None" by (simp add: close_mos_def runes_def)
  ultimately show ?case
    using Nil next_incomplete [of f] by (auto simp: drain.simps [of f] between_reads_def)
next
  case (Cons fr frs)
  have v: "valid_frame fr" using Cons.prems(1) by simp
  obtain c where c: "check_root f = Inr c"
    using check_root_prefix [of fr f fut "concat frs"] stream_units_ok [OF Cons.prems(1,2)] v Cons.prems(2)
    by (auto simp: valid_frame_def)
  show ?case
  proof (cases "length (fr_buffer f) < length fr")
    case True
    have "find_sub close_mos (units (fr_buffer f)) = None"
      using frame_first_close [OF v _ True, of "concat frs" fut] Cons.prems(2) by simp
    moreover obtain rest where "fr = fr_buffer f @ rest"
      using Cons.prems(2) True by (auto simp: append_eq_append_conv2)
    ultimately show ?thesis using next_incomplete [OF c Cons.prems(3)] True Cons.prems(2)
      by (intro exI [of _ "[]"] exI [of _ "fr # frs"]) (auto simp: drain.simps [of f] between_reads_def)
  next
    case False
    then obtain ext where ext: "fr_buffer f = fr @ ext"
      using Cons.prems(2) by (auto simp: append_eq_append_conv2)
    let ?f = "NewUCS2BEFramer\<lparr>fr_buffer := ext\<rparr>"
    have "search_ok (fr_buffer ?f) (fr_searchFrom ?f)" by (simp add: NewUCS2BEFramer_def search_ok_def)
    then obtain taken todo f' where "frs = taken @ todo" "drain ?f = (map frame_text taken, Inr f')"
      "fr_buffer f' @ fut = concat todo" "between_reads todo f'"
      using Cons.IH [of ?f] Cons.prems(1,2) ext by (auto simp: NewUCS2BEFramer_def)
    then show ?thesis using next_complete [OF c Cons.prems(3) v ext]
      by (intro exI [of _ "fr # taken"] exI [of _ todo]) (auto simp: drain.simps [of f])
  qed
qed

lemma between_reads_search_ok:
  assumes "between_reads frs f" "\<forall>fr\<in>set frs. valid_frame fr"
  shows "search_ok (fr_buffer f @ c) (fr_searchFrom f)"
proof (cases frs)
  case Nil
  then show ?thesis using assms(1) by (simp add: between_reads_def search_ok_def)
next
  case (Cons fr frs')
  then obtain rest where "fr = fr_buffer f @ rest" "rest \<noteq> []" using assms(1) by (auto simp: between_reads_def)
  then have "find_sub close_mos (units (fr_buffer f)) = None"
    using frame_first_close [of fr "[]" "fr_buffer f" rest] assms(2) Cons by simp
  then have "search_ok (fr_buffer f) (fr_searchFrom f)"
    using assms(1) by (simp add: search_ok_def find_sub_None_iff between_reads_def)
  then show ?thesis using assms(1) by (intro search_ok_extend) (simp_all add: between_reads_def)
qed

lemma read_chunks_frames:
  assumes "\<forall>fr\<in>set frs. valid_frame fr \<and> (\<forall>c\<in>set chunks. length fr + length c \<le> limit)"
    and "between_reads frs f" "fr_buffer f @ concat chunks = concat frs"
  shows "\<exists>f'. read_chunks limit chunks f = (map frame_text frs, Inr f') \<and> fr_buffer f' = []"
  using assms
proof (induction chunks arbitrary: frs f)
  case Nil
  have "frs = []"
  proof (rule ccontr)
    assume "frs \<noteq> []"
    then obtain fr frs' where "frs = fr # frs'" by (cases frs) auto
    then show False using Nil by (auto simp: between_reads_def)
  qed
  then show ?case using Nil by (auto simp: between_reads_def)
next
  case (Cons c cs)
  show ?case
  proof (cases "c = []")
    case False
    then obtain fr frs' where frs: "frs = fr # frs'" using Cons.prems(3) by (cases frs) auto
    have "length (fr_buffer f) < length fr" using Cons.prems(2) by (auto simp: between_reads_def frs)
    then have app: "framer_Append limit c f = Inr (f\<lparr>fr_buffer := fr_buffer f @ c\<rparr>)"
      using Cons.prems(1) by (fastforce simp: framer_Append_def frs)
    let ?f = "f\<lparr>fr_buffer := fr_buffer f @ c\<rparr>"
    obtain taken todo f' where d: "frs = taken @ todo" "drain ?f = (map frame_text taken, Inr f')"
      "fr_buffer f' @ concat cs = concat todo" "between_reads todo f'"
      using drain_step [of frs ?f "concat cs"] Cons.prems between_reads_search_ok [OF Cons.prems(2), of c] by auto
    then obtain g where "read_chunks limit cs f' = (map frame_text todo, Inr g)" "fr_buffer g = []"
      using Cons.IH [of todo f'] Cons.prems(1) by auto
    then show ?thesis using False app d by simp
  qed (use Cons in simp)
qed

section \<open>Messages sent by \<open>EncodeUCS2BE\<close>\<close>

lemma find_declaration_close: "find_sub decl_close (xml_declaration @ v) = Some 37"
  by (simp add: xml_declaration_def decl_close_def runes_def)

lemma IsSpace_lt: "\<not> IsSpace 60"
  by (simp add: IsSpace_def)

lemma xml_declaration_decl: "take 5 (xml_declaration @ v) = decl_open"
  "dropWhile IsSpace (xml_declaration @ v) = xml_declaration @ v"
  "drop 39 (xml_declaration @ v) = 10 # v" "trim_bom (xml_declaration @ v) = xml_declaration @ v"
  by (simp_all add: xml_declaration_def decl_open_def runes_def IsSpace_lt trim_bom_def)

lemma strip_declaration: "stripXMLDeclaration (xml_declaration @ v) = 10 # v"
  unfolding stripXMLDeclaration_def Let_def
  by (simp add: xml_declaration_decl find_declaration_close del: take_append drop_append)

lemma declaration_runes: "r \<in> set xml_declaration \<Longrightarrow> r < 128"
  by (auto simp: xml_declaration_def runes_def)

lemma find_close_declaration: "find_sub close_mos (xml_declaration @ v) = map_option ((+) 40) (find_sub close_mos v)"
proof -
  obtain ps xs where cut: "close_mos = 60 # ps" "xml_declaration = 60 # xs" "length xs = 39"
    and "take (length ps) xs \<noteq> ps" "length ps = 5" "60 \<notin> set xs"
    by (simp add: xml_declaration_def close_mos_def runes_def)
  then show ?thesis using find_sub_after_head [of ps xs 60 v] by (simp add: cut del: find_sub.simps)
qed

lemma encode_units:
  assumes "EncodeUCS2BE d = Inr b"
  shows "b = mustEncodeUCS2BE (xml_declaration @ stripXMLDeclaration d)"
    and "units b = xml_declaration @ stripXMLDeclaration d"
    and "list_ex bad_unit (units b) \<longleftrightarrow> 0xFFFE \<in> set (stripXMLDeclaration d)"
proof -
  show b: "b = mustEncodeUCS2BE (xml_declaration @ stripXMLDeclaration d)"
    using assms by (auto simp: EncodeUCS2BE_def Let_def split: if_splits)
  have small: "\<not> (r > 0xFFFF \<or> 0xD800 \<le> r \<and> r \<le> 0xDFFF)" if "r \<in> set (xml_declaration @ stripXMLDeclaration d)" for r
    using assms that unfolding EncodeUCS2BE_def Let_def list_ex_iff by (metis Inl_Inr_False)
  then have "\<forall>r\<in>set (xml_declaration @ stripXMLDeclaration d). r < 65536" by fastforce
  then show u: "units b = xml_declaration @ stripXMLDeclaration d"
    using units_mustEncode [of "xml_declaration @ stripXMLDeclaration d" "[]"] b by simp
  have "0xFFFE \<notin> set xml_declaration" using declaration_runes [of "0xFFFE"] by auto
  then show "list_ex bad_unit (units b) \<longleftrightarrow> 0xFFFE \<in> set (stripXMLDeclaration d)"
    using small unfolding u by (auto simp: list_ex_iff bad_unit_def)
qed

text \<open>A document the peer's parser accepts as one MOS message.\<close>

definition mos_document :: "rune list \<Rightarrow> bool" where
  "mos_document d \<longleftrightarrow>
     (let v = stripXMLDeclaration d in
      0xFFFE \<notin> set v \<and> start_name (dropWhile IsSpace v) = Inr (Some (runes ''mos''))
      \<and> find_sub close_mos v = Some (length v - 6))"

lemma encoded_valid_frame:
  assumes e: "EncodeUCS2BE d = Inr b" and m: "mos_document d"
  shows "valid_frame b \<and> frame_text b = 10 # stripXMLDeclaration d"
proof -
  let ?v = "stripXMLDeclaration d"
  have "root_name (units b) = start_name (dropWhile IsSpace (10 # ?v))"
    unfolding encode_units(2) [OF e] root_name_after_space after_space_def
    by (simp add: xml_declaration_decl find_declaration_close del: take_append drop_append dropWhile.simps)
  also have "\<dots> = start_name (dropWhile IsSpace ?v)" by (simp add: IsSpace_def)
  finally have root: "root_name (units b) = Inr (Some (runes ''mos''))" using m by (simp add: mos_document_def Let_def)
  have close: "find_sub close_mos ?v = Some (length ?v - 6)" using m by (simp add: mos_document_def Let_def)
  have "length xml_declaration = 40" by (simp add: xml_declaration_def runes_def)
  then have "find_sub close_mos (units b) = Some (length (units b) - 6)"
    using find_sub_length [OF close] close unfolding encode_units(2) [OF e] by (simp add: find_close_declaration)
  then show ?thesis using root m encode_units [OF e]
    by (simp add: valid_frame_def frame_text_def mos_document_def Let_def xml_declaration_decl strip_declaration)
qed

text \<open>
  C35. What \<open>EncodeUCS2BE\<close> produces, \<open>DecodeUCS2BE\<close> reads back: the document without its declaration, after
  the line break the encoder puts behind its own. The one exception is U+FFFE, which the encoder lets
  through and the decoder refuses.
\<close>

theorem encode_decode_ucs2:
  assumes "EncodeUCS2BE d = Inr b"
  shows "DecodeUCS2BE b =
    (if 0xFFFE \<in> set (stripXMLDeclaration d) then Inl ErrInvalidUCS2 else Inr (10 # stripXMLDeclaration d))"
  using encode_units [OF assms]
  by (simp add: DecodeUCS2BE_def xml_declaration_decl strip_declaration)

theorem encode_decode_ucs2_witness:
  "DecodeUCS2BE (mustEncodeUCS2BE (xml_declaration @ [60, 0x20AC])) = Inr [10, 60, 0x20AC]"
  using encode_decode_ucs2 [of "[60, 0x20AC]" "mustEncodeUCS2BE (xml_declaration @ [60, 0x20AC])"]
  by (simp add: EncodeUCS2BE_def stripXMLDeclaration_def IsSpace_def decl_open_def runes_def xml_declaration_def)

lemma sent_messages_read:
  assumes sent: "list_all2 (\<lambda>d b. EncodeUCS2BE d = Inr b \<and> mos_document d) msgs encoded"
    and reads: "concat reads = concat encoded"
    and fits: "\<forall>b\<in>set encoded. \<forall>c\<in>set reads. length b + length c \<le> limit"
  shows "\<exists>f. read_chunks limit reads NewUCS2BEFramer = (map (\<lambda>d. 10 # stripXMLDeclaration d) msgs, Inr f)
    \<and> fr_buffer f = []"
proof -
  have ok: "map frame_text encoded = map (\<lambda>d. 10 # stripXMLDeclaration d) msgs \<and> (\<forall>fr\<in>set encoded. valid_frame fr)"
    using sent by (induction) (auto simp: encoded_valid_frame)
  have "between_reads encoded NewUCS2BEFramer"
    using ok valid_frame_length [of "[]"] by (cases encoded) (auto simp: between_reads_def NewUCS2BEFramer_def)
  then show ?thesis
    using read_chunks_frames [of encoded reads limit NewUCS2BEFramer] ok fits reads by (simp add: NewUCS2BEFramer_def)
qed

text \<open>
  C17. Messages that are encoded one after the other and arrive cut into reads of any sizes are taken from the
  connection exactly as they were sent, in order, and nothing stays behind; the buffer limit is never
  reached as long as a frame and one read fit in it, however long the stream is.
\<close>

theorem sent_messages_arrive:
  assumes sent: "list_all2 (\<lambda>d b. EncodeUCS2BE d = Inr b \<and> mos_document d) msgs encoded"
    and reads: "concat reads = concat encoded"
    and fits: "\<forall>b\<in>set encoded. \<forall>c\<in>set reads. length b + length c \<le> limit"
  shows "\<exists>f. read_chunks limit reads NewUCS2BEFramer = (map (\<lambda>d. 10 # stripXMLDeclaration d) msgs, Inr f)
    \<and> fr_buffer f = []"
  by (rule sent_messages_read [OF sent reads fits])

text \<open>Two messages, the second read starting in the middle of the first closing tag.\<close>

definition example_document :: "rune list" where "example_document = runes ''<mos></mos>''"

lemma example_document_ok: "EncodeUCS2BE example_document = Inr (mustEncodeUCS2BE (xml_declaration @ example_document))"
  "mos_document example_document" "stripXMLDeclaration example_document = example_document"
  by (simp_all add: EncodeUCS2BE_def mos_document_def stripXMLDeclaration_def IsSpace_def decl_open_def runes_def
      xml_declaration_def example_document_def start_name_def name_end_def close_mos_def)

theorem sent_messages_arrive_witness:
  "\<exists>f. read_chunks maxMOSFrameBytes
     (let b = mustEncodeUCS2BE (xml_declaration @ example_document) in [take 91 (b @ b), drop 91 (b @ b)])
     NewUCS2BEFramer = ([10 # example_document, 10 # example_document], Inr f) \<and> fr_buffer f = []"
proof -
  let ?b = "mustEncodeUCS2BE (xml_declaration @ example_document)"
  have len: "length ?b = 102" by (subst mustEncode_length) (simp add: xml_declaration_def example_document_def runes_def)
  have "list_all2 (\<lambda>d b. EncodeUCS2BE d = Inr b \<and> mos_document d) [example_document, example_document] [?b, ?b]"
    using example_document_ok by (simp del: mustEncode_append)
  moreover have "concat [take 91 (?b @ ?b), drop 91 (?b @ ?b)] = concat [?b, ?b]"
    by (simp del: take_append drop_append mustEncode_append)
  moreover have "\<forall>b\<in>set [?b, ?b]. \<forall>c\<in>set [take 91 (?b @ ?b), drop 91 (?b @ ?b)]. length b + length c \<le> maxMOSFrameBytes"
    using len by (simp add: maxMOSFrameBytes_def del: take_append drop_append mustEncode_append)
  ultimately show ?thesis
    using sent_messages_arrive [of "[example_document, example_document]" "[?b, ?b]"
        "[take 91 (?b @ ?b), drop 91 (?b @ ?b)]" maxMOSFrameBytes]
    by (simp add: Let_def example_document_ok(3) del: take_append drop_append mustEncode_append)
qed

end
