(* ===== verification/Durable.thy ===== *)
theory Durable
  imports Service
begin

text \<open>
  File-backed running orders (\<open>src/internal/repository/durable.go\<close>) and the types of the committed
  checkpoint (\<open>checkpoint.go\<close>) that share the struct \<open>Durable\<close>.

  The four repositories of a \<open>Durable\<close> are those of the service state, without event bus. A file holds a
  decoded value: encoding it to JSON and back is the identity on the values the model has. The state and the
  pending payload of a checkpoint are opaque to the repository, so they are type parameters. The lock file and
  the paths have no counterpart beyond \<open>dur_path\<close>.
\<close>

section \<open>Checkpoint types\<close>

record SourceBinding =
  bnd_SourceID :: string
  bnd_RundownID :: string
  bnd_MosID :: string
  bnd_NCSID :: string
  bnd_Transport :: string
  bnd_Destination :: string

record InputReceipt =
  rcp_Scope :: string
  rcp_NCSID :: string
  rcp_MessageID :: string
  rcp_Hash :: string
  rcp_Response :: string

record ('st, 'p) SourceCheckpoint =
  cp_Revision :: nat
  cp_State :: "'st option"
  cp_Pending :: "'p option"
  cp_AcceptedRevision :: nat
  cp_Receipts :: "InputReceipt list"

text \<open>The slices hold pointers, which a file may contain as \<open>null\<close>.\<close>

record snapshot =
  snap_RunningOrders :: "RunningOrder option list"
  snap_Stories :: "Story option list"
  snap_Items :: "Item option list"

record ('st, 'p) checkpointFile =
  cf_Version :: nat
  cf_Binding :: SourceBinding
  cf_Snapshot :: snapshot
  cf_Source :: "('st, 'p) SourceCheckpoint"
  cf_Digest :: string

text \<open>A file that is absent, that does not decode, or that decodes to a value.\<close>

datatype 'a disk = Absent | Unreadable | Holds 'a

record ('st, 'p) Durable =
  dur_repos :: MOSService
  dur_path :: bool
  dur_degraded :: bool
  dur_committed :: bool
  dur_binding :: SourceBinding
  dur_checkpoint :: "('st, 'p) SourceCheckpoint option"
  dur_openErr :: "go_error option"

definition newMemoryRepos :: MOSService where
  "newMemoryRepos = NewMOSService [] [] [] [] None"

definition empty_binding :: SourceBinding where
  "empty_binding = \<lparr>bnd_SourceID = [], bnd_RundownID = [], bnd_MosID = [], bnd_NCSID = [], bnd_Transport = [],
     bnd_Destination = []\<rparr>"

definition newMemoryDurable :: "('st, 'p) Durable" where
  "newMemoryDurable = \<lparr>dur_repos = newMemoryRepos, dur_path = False, dur_degraded = False, dur_committed = False,
     dur_binding = empty_binding, dur_checkpoint = None, dur_openErr = None\<rparr>"

section \<open>Snapshots\<close>

fun snapshot_items :: "Story list \<Rightarrow> Item list svc_op" where
  "snapshot_items [] = op_return []"
| "snapshot_items (st # sts) =
     op_bind (item_List (story_ID st)) (\<lambda>its. op_bind (snapshot_items sts) (\<lambda>rest. op_return (its @ rest)))"

fun snapshot_stories :: "RunningOrder list \<Rightarrow> (Story list \<times> Item list) svc_op" where
  "snapshot_stories [] = op_return ([], [])"
| "snapshot_stories (ro # ros) =
     op_bind (story_List (ro_ID ro)) (\<lambda>sts.
     op_bind (snapshot_items sts) (\<lambda>its.
     op_bind (snapshot_stories ros) (\<lambda>(sts', its'). op_return (sts @ sts', its @ its'))))"

definition takeSnapshot :: "snapshot svc_op" where
  "takeSnapshot =
     op_bind ro_List (\<lambda>ros.
     op_bind (snapshot_stories ros) (\<lambda>(sts, its).
     op_return \<lparr>snap_RunningOrders = map Some ros, snap_Stories = map Some sts, snap_Items = map Some its\<rparr>))"

definition restore_one :: "string \<Rightarrow> ('v \<Rightarrow> string) \<Rightarrow> ('v \<Rightarrow> unit svc_op) \<Rightarrow> 'v option \<Rightarrow> unit svc_op" where
  "restore_one what key create v = (case v of
      None \<Rightarrow> op_fail (Errorf (''nil '' @ what @ '' in snapshot''))
    | Some v \<Rightarrow> op_wrap (''restore '' @ what @ '' '' @ key v) (create v))"

definition restoreSnapshot :: "snapshot \<Rightarrow> unit svc_op" where
  "restoreSnapshot snap =
     op_bind (op_foreach (restore_one ''running order'' ro_ID ro_Create) (snap_RunningOrders snap)) (\<lambda>_.
     op_bind (op_foreach (restore_one ''story'' story_ID story_Create) (snap_Stories snap)) (\<lambda>_.
     op_foreach (restore_one ''item'' item_ID item_Create) (snap_Items snap)))"

section \<open>Opening and writing through\<close>

text \<open>A failed restore leaves what was restored before it; the caller only logs.\<close>

definition load :: "snapshot disk \<Rightarrow> MOSService" where
  "load f = (case f of Holds snap \<Rightarrow> snd (restoreSnapshot snap newMemoryRepos) | _ \<Rightarrow> newMemoryRepos)"

datatype directory = NoDirectory | CannotInspect | HoldsCheckpoint | CannotCreate | Usable

definition OpenDurable :: "directory \<Rightarrow> snapshot disk \<Rightarrow> ('st, 'p) Durable" where
  "OpenDurable dir f = (case dir of
      HoldsCheckpoint \<Rightarrow> newMemoryDurable\<lparr>dur_degraded := True,
        dur_openErr := Some (Errorf ''committed source state present; source mode is required'')\<rparr>
    | CannotInspect \<Rightarrow> newMemoryDurable\<lparr>dur_degraded := True,
        dur_openErr := Some (Errorf ''inspect committed source state'')\<rparr>
    | NoDirectory \<Rightarrow> newMemoryDurable\<lparr>dur_degraded := True\<rparr>
    | CannotCreate \<Rightarrow> newMemoryDurable\<lparr>dur_degraded := True\<rparr>
    | Usable \<Rightarrow> newMemoryDurable\<lparr>dur_path := True, dur_repos := load f\<rparr>)"

definition allowEntityWrite :: "('st, 'p) Durable \<Rightarrow> unit result" where
  "allowEntityWrite d =
     (if dur_committed d then Inl (Errorf ''committed source requires a message transaction'')
      else case dur_openErr d of Some e \<Rightarrow> Inl e | None \<Rightarrow> Inr ())"

text \<open>\<open>persist\<close>: the snapshot replaces the file, or the write or the rename fails and the file stays.\<close>

definition persist :: "bool \<Rightarrow> ('st, 'p) Durable \<times> snapshot disk \<Rightarrow> ('st, 'p) Durable \<times> snapshot disk" where
  "persist io df =
     (let (d, f) = df in
      if dur_degraded d \<or> \<not> dur_path d then (d, f)
      else case takeSnapshot (dur_repos d) of
        (Inl _, _) \<Rightarrow> (d, f)
      | (Inr snap, _) \<Rightarrow> if io then (d, Holds snap) else (d\<lparr>dur_degraded := True\<rparr>, f))"

definition write_through ::
    "bool \<Rightarrow> 'a svc_op \<Rightarrow> ('st, 'p) Durable \<times> snapshot disk \<Rightarrow> 'a result \<times> ('st, 'p) Durable \<times> snapshot disk" where
  "write_through io f df =
     (case allowEntityWrite (fst df) of
        Inl e \<Rightarrow> (Inl e, df)
      | Inr _ \<Rightarrow>
          (case f (dur_repos (fst df)) of
             (Inl e, s) \<Rightarrow> (Inl e, (fst df)\<lparr>dur_repos := s\<rparr>, snd df)
           | (Inr x, s) \<Rightarrow> (Inr x, persist io ((fst df)\<lparr>dur_repos := s\<rparr>, snd df))))"

definition read_through :: "'a svc_op \<Rightarrow> ('st, 'p) Durable \<Rightarrow> 'a result" where
  "read_through f d = fst (f (dur_repos d))"

text \<open>The repositories a \<open>Durable\<close> hands out.\<close>

datatype durable_write =
    CreateRunningOrder RunningOrder | UpdateRunningOrder RunningOrder | DeleteRunningOrderRecord string
  | CreateStoryRecord Story | UpdateStoryRecord Story | DeleteStoryRecord string | DeleteStoryRecords "string list"
  | CreateItemRecord Item | UpdateItemRecord Item | DeleteItemRecord string | DeleteItemRecords "string list"

fun memory_write :: "durable_write \<Rightarrow> unit svc_op" where
  "memory_write (CreateRunningOrder v) = ro_Create v"
| "memory_write (UpdateRunningOrder v) = ro_Update v"
| "memory_write (DeleteRunningOrderRecord k) = ro_Delete k"
| "memory_write (CreateStoryRecord v) = story_Create v"
| "memory_write (UpdateStoryRecord v) = story_Update v"
| "memory_write (DeleteStoryRecord k) = story_Delete k"
| "memory_write (DeleteStoryRecords ks) = story_DeleteMultiple ks"
| "memory_write (CreateItemRecord v) = item_Create v"
| "memory_write (UpdateItemRecord v) = item_Update v"
| "memory_write (DeleteItemRecord k) = item_Delete k"
| "memory_write (DeleteItemRecords ks) = item_DeleteMultiple ks"

definition durable_do ::
    "bool \<Rightarrow> durable_write \<Rightarrow> ('st, 'p) Durable \<times> snapshot disk \<Rightarrow> unit result \<times> ('st, 'p) Durable \<times> snapshot disk" where
  "durable_do io w = write_through io (memory_write w)"

section \<open>What a snapshot restores\<close>

definition held_stories :: "MOSService \<Rightarrow> Story list" where
  "held_stories s = concat (map (\<lambda>ro. stories.listing (storyRepo s) (ro_ID ro)) (gm_values (runningOrderRepo s)))"

definition held_items :: "MOSService \<Rightarrow> Item list" where
  "held_items s = concat (map (\<lambda>st. items.listing (itemRepo s) (story_ID st)) (held_stories s))"

lemma snapshot_items_app:
  "snapshot_items sts s = (Inr (concat (map (\<lambda>st. items.listing (itemRepo s) (story_ID st)) sts)), s)"
  by (induction sts) (simp_all add: op_bind_def item_List_app)

lemma snapshot_stories_app:
  "snapshot_stories ros s =
     (let sts = concat (map (\<lambda>ro. stories.listing (storyRepo s) (ro_ID ro)) ros) in
      (Inr (sts, concat (map (\<lambda>st. items.listing (itemRepo s) (story_ID st)) sts)), s))"
  by (induction ros) (simp_all add: op_bind_def story_List_app snapshot_items_app Let_def)

lemma takeSnapshot_app:
  "takeSnapshot s = (Inr \<lparr>snap_RunningOrders = map Some (gm_values (runningOrderRepo s)),
     snap_Stories = map Some (held_stories s), snap_Items = map Some (held_items s)\<rparr>, s)"
  by (simp add: takeSnapshot_def op_bind_def ro_List_def MemoryRunningOrder_List_def snapshot_stories_app Let_def
      held_stories_def held_items_def)

text \<open>Entities created one after the other in an empty repository.\<close>

definition keyed :: "('v \<Rightarrow> string) \<Rightarrow> 'v list \<Rightarrow> 'v gomap" where
  "keyed key vs = map (\<lambda>v. (key v, v)) vs"

lemma keyed_append [simp]: "keyed key (vs @ ws) = keyed key vs @ keyed key ws"
  by (simp add: keyed_def)

lemma gm_set_new: "k \<notin> fst ` set m \<Longrightarrow> gm_set k v m = m @ [(k, v)]"
  by (induction m) auto

lemma keyed_fresh: "k \<notin> key ` set vs \<Longrightarrow> gm_get (keyed key vs) k = None"
  by (auto simp: keyed_def map_of_eq_None_iff)

lemma keyed_snoc: "key v \<notin> key ` set vs \<Longrightarrow> gm_set (key v) v (keyed key vs) = keyed key (vs @ [v])"
  by (simp add: keyed_def gm_set_new image_image)

lemma restore_loop:
  assumes create: "\<And>v t. gm_get (get t) (key v) = None \<Longrightarrow> create v t = (Inr (), put (gm_set (key v) v (get t)) t)"
    and laws: "\<And>m t. get (put m t) = m" "\<And>m n t. put m (put n t) = put m t" "\<And>t. put (get t) t = t"
    and "distinct (map key (us @ vs))" "get t = keyed key us"
  shows "op_foreach (restore_one what key create) (map Some vs) t = (Inr (), put (keyed key (us @ vs)) t)"
  using assms(5-)
proof (induction vs arbitrary: us t)
  case Nil
  then show ?case using laws(3) [of t] by simp
next
  case (Cons v vs)
  have new: "gm_get (get t) (key v) = None" using Cons.prems by (simp add: keyed_fresh)
  have "op_foreach (restore_one what key create) (map Some vs) (put (keyed key (us @ [v])) t) =
    (Inr (), put (keyed key ((us @ [v]) @ vs)) (put (keyed key (us @ [v])) t))"
    using Cons.prems by (intro Cons.IH) (auto simp: laws)
  moreover have "create v t = (Inr (), put (keyed key (us @ [v])) t)"
    using create [OF new] Cons.prems by (simp add: keyed_snoc del: keyed_append)
  ultimately show ?case
    by (simp add: restore_one_def [of _ _ _ "Some v"] op_bind_def op_wrap_def laws del: keyed_append)
qed

lemma restore_distinct:
  assumes "distinct (map ro_ID ros)" "distinct (map story_ID sts)" "distinct (map item_ID its)"
  shows "restoreSnapshot \<lparr>snap_RunningOrders = map Some ros, snap_Stories = map Some sts, snap_Items = map Some its\<rparr>
     newMemoryRepos = (Inr (), newMemoryRepos\<lparr>runningOrderRepo := keyed ro_ID ros, storyRepo := keyed story_ID sts,
       itemRepo := keyed item_ID its\<rparr>)"
proof -
  let ?s = "newMemoryRepos\<lparr>runningOrderRepo := keyed ro_ID ros\<rparr>"
  have empty: "runningOrderRepo newMemoryRepos = keyed ro_ID []" "storyRepo ?s = keyed story_ID []"
    "itemRepo (?s\<lparr>storyRepo := keyed story_ID sts\<rparr>) = keyed item_ID []"
    by (simp_all add: newMemoryRepos_def NewMOSService_def keyed_def)
  have "op_foreach (restore_one ''running order'' ro_ID ro_Create) (map Some ros) newMemoryRepos = (Inr (), ?s)"
    using restore_loop [where get = runningOrderRepo and put = "\<lambda>m t. t\<lparr>runningOrderRepo := m\<rparr>" and us = "[]"
        and t = newMemoryRepos and create = ro_Create and key = ro_ID and vs = ros and what = "''running order''"]
      empty(1) assms(1) by (simp add: op_simps)
  moreover have "op_foreach (restore_one ''story'' story_ID story_Create) (map Some sts) ?s =
      (Inr (), ?s\<lparr>storyRepo := keyed story_ID sts\<rparr>)"
    using restore_loop [where get = storyRepo and put = "\<lambda>m t. t\<lparr>storyRepo := m\<rparr>" and us = "[]" and t = ?s
        and create = story_Create and key = story_ID and vs = sts and what = "''story''"]
      empty(2) assms(2) by (simp add: op_simps)
  moreover have "op_foreach (restore_one ''item'' item_ID item_Create) (map Some its) (?s\<lparr>storyRepo := keyed story_ID sts\<rparr>) =
      (Inr (), ?s\<lparr>storyRepo := keyed story_ID sts, itemRepo := keyed item_ID its\<rparr>)"
    using restore_loop [where get = itemRepo and put = "\<lambda>m t. t\<lparr>itemRepo := m\<rparr>" and us = "[]"
        and t = "?s\<lparr>storyRepo := keyed story_ID sts\<rparr>" and create = item_Create and key = item_ID and vs = its
        and what = "''item''"]
      empty(3) assms(3) by (simp add: op_simps)
  ultimately show ?thesis by (simp add: restoreSnapshot_def op_bind_def)
qed

lemma distinct_concat_listing:
  assumes "\<And>p. distinct (map key (listing p))" "\<And>p v. v \<in> set (listing p) \<Longrightarrow> parent v = p" "distinct ps"
    and inj: "\<And>v w p q. v \<in> set (listing p) \<Longrightarrow> w \<in> set (listing q) \<Longrightarrow> key v = key w \<Longrightarrow> v = w"
  shows "distinct (map key (concat (map listing ps)))"
  using assms(3)
proof (induction ps)
  case (Cons p ps)
  have "key ` set (listing p) \<inter> key ` set (concat (map listing ps)) = {}"
  proof (intro equals0I)
    fix k assume "k \<in> key ` set (listing p) \<inter> key ` set (concat (map listing ps))"
    then obtain v w q where "v \<in> set (listing p)" "w \<in> set (listing q)" "q \<in> set ps" "key v = key w" by auto
    then show False using inj assms(2) Cons.prems by (metis distinct.simps(2))
  qed
  then show ?case using Cons assms(1) by simp
qed simp

lemma ro_values: "repo_ok ro_ID m \<Longrightarrow> keyed ro_ID (gm_values m) = m"
  by (auto simp: keyed_def gm_values_def repo_ok_def gm_get_iff_in_set intro!: map_idI)

lemma values_distinct: "repo_ok key m \<Longrightarrow> distinct (map key (gm_values m))"
proof -
  assume ok: "repo_ok key m"
  then have "map key (gm_values m) = map fst m" by (auto simp: gm_values_def repo_ok_def gm_get_iff_in_set)
  with ok show ?thesis by (simp add: repo_ok_def gm_ok_def)
qed

lemma gm_get_keyed: "distinct (map key vs) \<Longrightarrow> gm_get (keyed key vs) k = Some v \<longleftrightarrow> v \<in> set vs \<and> key v = k"
proof -
  assume "distinct (map key vs)"
  then have "distinct (map fst (keyed key vs))" by (simp add: keyed_def comp_def)
  then show ?thesis by (auto simp: keyed_def)
qed

lemma repo_ok_keyed: "distinct (map key vs) \<Longrightarrow> repo_ok key (keyed key vs)"
  by (auto simp: repo_ok_def gm_get_keyed) (simp add: gm_ok_def keyed_def comp_def)

lemma held_stories_distinct:
  assumes "svc_ok s"
  shows "distinct (map story_ID (held_stories s))"
proof -
  note ok = svc_ok_repoD [OF assms]
  have "distinct (map story_ID (concat (map (stories.listing (storyRepo s)) (map ro_ID (gm_values (runningOrderRepo s))))))"
    using stories.listing_set [OF ok(2)]
    by (intro distinct_concat_listing [where parent = story_RunningOrderID] stories.listing_distinct_keys ok
        values_distinct) auto
  then show ?thesis by (simp add: held_stories_def comp_def)
qed

lemma held_items_distinct:
  assumes "svc_ok s"
  shows "distinct (map item_ID (held_items s))"
proof -
  note ok = svc_ok_repoD [OF assms]
  have "distinct (map item_ID (concat (map (items.listing (itemRepo s)) (map story_ID (held_stories s)))))"
    using items.listing_set [OF ok(3)]
    by (intro distinct_concat_listing [where parent = item_StoryID] items.listing_distinct_keys ok
        held_stories_distinct assms) auto
  then show ?thesis by (simp add: held_items_def comp_def)
qed

text \<open>
  A snapshot walks from the running orders down, so it holds exactly the stories of held running orders and
  the items of those stories.
\<close>

definition closed_store :: "MOSService \<Rightarrow> bool" where
  "closed_store s \<longleftrightarrow>
     (\<forall>k st. gm_get (storyRepo s) k = Some st \<longrightarrow> gm_get (runningOrderRepo s) (story_RunningOrderID st) \<noteq> None) \<and>
     (\<forall>k it. gm_get (itemRepo s) k = Some it \<longrightarrow> gm_get (storyRepo s) (item_StoryID it) \<noteq> None)"

lemma closed_store_code [code]:
  "closed_store s \<longleftrightarrow>
     list_all (\<lambda>(k, st). gm_get (storyRepo s) k = Some st \<longrightarrow> gm_get (runningOrderRepo s) (story_RunningOrderID st) \<noteq> None)
       (storyRepo s) \<and>
     list_all (\<lambda>(k, it). gm_get (itemRepo s) k = Some it \<longrightarrow> gm_get (storyRepo s) (item_StoryID it) \<noteq> None) (itemRepo s)"
  by (auto simp: closed_store_def list_all_iff dest: map_of_SomeD)

definition restored :: "MOSService \<Rightarrow> MOSService" where
  "restored s = newMemoryRepos\<lparr>runningOrderRepo := runningOrderRepo s, storyRepo := keyed story_ID (held_stories s),
     itemRepo := keyed item_ID (held_items s)\<rparr>"

lemma restore_take:
  assumes "svc_ok s" "takeSnapshot s = (Inr snap, s')"
  shows "restoreSnapshot snap newMemoryRepos = (Inr (), restored s)"
proof -
  note ok = svc_ok_repoD [OF assms(1)]
  have snap: "snap = \<lparr>snap_RunningOrders = map Some (gm_values (runningOrderRepo s)),
     snap_Stories = map Some (held_stories s), snap_Items = map Some (held_items s)\<rparr>"
    using assms(2) by (auto simp: takeSnapshot_app)
  show ?thesis unfolding snap restored_def
    by (subst restore_distinct [OF values_distinct [OF ok(1)] held_stories_distinct [OF assms(1)] held_items_distinct [OF assms(1)]])
      (simp add: ro_values [OF ok(1)])
qed

lemma svc_ok_restored: "svc_ok s \<Longrightarrow> svc_ok (restored s)"
  by (simp add: svc_ok_def restored_def newMemoryRepos_def NewMOSService_def repo_ok_keyed held_stories_distinct
      held_items_distinct)

lemma restored_story:
  assumes "svc_ok s"
  shows "gm_get (storyRepo (restored s)) k = Some st \<longleftrightarrow>
    gm_get (storyRepo s) k = Some st \<and> gm_get (runningOrderRepo s) (story_RunningOrderID st) \<noteq> None"
proof -
  note ok = svc_ok_repoD [OF assms]
  have "st \<in> set (held_stories s) \<longleftrightarrow> gm_get (storyRepo s) (story_ID st) = Some st \<and>
     (\<exists>ro. gm_get (runningOrderRepo s) (story_RunningOrderID st) = Some ro)"
    using repo_ok_keyD [OF ok(1)] ok(1)
    by (force simp: held_stories_def stories.listing_set [OF ok(2)] set_gm_values repo_ok_def)
  then show ?thesis
    using gm_get_keyed [OF held_stories_distinct [OF assms], of k st] repo_ok_keyD [OF ok(2), of k st]
    by (auto simp: restored_def)
qed

lemma restored_item:
  assumes "svc_ok s"
  shows "gm_get (itemRepo (restored s)) k = Some it \<longleftrightarrow>
    gm_get (itemRepo s) k = Some it \<and> gm_get (storyRepo (restored s)) (item_StoryID it) \<noteq> None"
proof -
  note ok = svc_ok_repoD [OF assms]
  have "it \<in> set (held_items s) \<longleftrightarrow> gm_get (itemRepo s) (item_ID it) = Some it \<and>
     (\<exists>st\<in>set (held_stories s). story_ID st = item_StoryID it)"
    by (auto simp: held_items_def items.listing_set [OF ok(3)] intro: sym)
  moreover have "(\<exists>st\<in>set (held_stories s). story_ID st = item_StoryID it) \<longleftrightarrow>
      gm_get (storyRepo (restored s)) (item_StoryID it) \<noteq> None"
    using gm_get_keyed [OF held_stories_distinct [OF assms], of "item_StoryID it"] by (auto simp: restored_def)
  ultimately show ?thesis
    using gm_get_keyed [OF held_items_distinct [OF assms], of k it] repo_ok_keyD [OF ok(3), of k it]
    by (auto simp: restored_def)
qed

text \<open>Two stores that answer every read alike.\<close>

definition same_answers :: "MOSService \<Rightarrow> MOSService \<Rightarrow> bool" where
  "same_answers s t \<longleftrightarrow> (\<forall>k. fst (ro_Get k s) = fst (ro_Get k t) \<and> fst (story_Get k s) = fst (story_Get k t)
      \<and> fst (item_Get k s) = fst (item_Get k t) \<and> fst (story_List k s) = fst (story_List k t)
      \<and> fst (item_List k s) = fst (item_List k t)) \<and> fst (ro_List s) = fst (ro_List t)"

lemma same_answers_refl: "same_answers s s"
  by (simp add: same_answers_def)

lemma same_answersI:
  assumes "svc_ok s" "svc_ok t" "runningOrderRepo s = runningOrderRepo t"
    and st: "gm_get (storyRepo s) = gm_get (storyRepo t)" and it: "gm_get (itemRepo s) = gm_get (itemRepo t)"
  shows "same_answers s t"
proof -
  have "stories.listing (storyRepo s) k = stories.listing (storyRepo t) k" for k
    using svc_ok_repoD [OF assms(1)] svc_ok_repoD [OF assms(2)] by (intro stories.listing_cong) (auto simp: st)
  moreover have "items.listing (itemRepo s) k = items.listing (itemRepo t) k" for k
    using svc_ok_repoD [OF assms(1)] svc_ok_repoD [OF assms(2)] by (intro items.listing_cong) (auto simp: it)
  ultimately show ?thesis
    by (simp add: same_answers_def ro_Get_def story_Get_def item_Get_def story_List_app item_List_app ro_List_def
        assms(3) MemoryStory_Get_def MemoryItem_Get_def st it)
qed

lemma gm_get_eqI: "(\<And>k v. gm_get m k = Some v \<longleftrightarrow> gm_get m' k = Some v) \<Longrightarrow> gm_get m = gm_get m'"
  by (metis (no_types, lifting) ext option.exhaust)

lemma restored_same_answers:
  assumes "svc_ok s" "closed_store s"
  shows "same_answers (restored s) s"
proof (rule same_answersI)
  have "gm_get (storyRepo (restored s)) k = Some v \<longleftrightarrow> gm_get (storyRepo s) k = Some v" for k v
    using restored_story [OF assms(1)] assms(2) by (auto simp: closed_store_def)
  then show st: "gm_get (storyRepo (restored s)) = gm_get (storyRepo s)" by (rule gm_get_eqI)
  have "gm_get (itemRepo (restored s)) k = Some v \<longleftrightarrow> gm_get (itemRepo s) k = Some v" for k v
    using restored_item [OF assms(1)] assms(2) by (auto simp: closed_store_def st)
  then show "gm_get (itemRepo (restored s)) = gm_get (itemRepo s)" by (rule gm_get_eqI)
qed (use assms svc_ok_restored in \<open>simp_all add: restored_def\<close>)

section \<open>Restarts\<close>

fun durable_run ::
    "(bool \<times> durable_write) list \<Rightarrow> ('st, 'p) Durable \<times> snapshot disk \<Rightarrow> ('st, 'p) Durable \<times> snapshot disk" where
  "durable_run [] df = df"
| "durable_run ((io, w) # ws) df = durable_run ws (snd (durable_do io w df))"

lemma memory_write_keeps_ok: "keeps_ok (memory_write w)"
  by (cases w) (simp_all add: keeps_ok_intros)

lemma memory_write_error: "memory_write w s = (Inl e, s') \<Longrightarrow> s' = s"
  by (cases w)
    (auto simp: ro_Create_def ro_Update_def story_Create_def story_Update_def item_Create_def item_Update_def
      ro_Delete_app story_Delete_app item_Delete_app story_DeleteMultiple_app item_DeleteMultiple_app
      split: sum.splits)

lemma restoreSnapshot_keeps_ok: "keeps_ok (restoreSnapshot snap)"
  unfolding restoreSnapshot_def restore_one_def by (intro keeps_ok_intros)

lemma svc_ok_load: "svc_ok (load f)"
proof -
  have "svc_ok newMemoryRepos" by (simp add: svc_ok_def newMemoryRepos_def NewMOSService_def)
  then show ?thesis using keeps_okD [OF restoreSnapshot_keeps_ok] by (simp add: load_def split: disk.splits)
qed

text \<open>The file holds a snapshot of the memory, or what the memory was loaded from.\<close>

definition durable_inv :: "('st, 'p) Durable \<times> snapshot disk \<Rightarrow> bool" where
  "durable_inv df \<longleftrightarrow> svc_ok (dur_repos (fst df)) \<and>
     (\<not> dur_degraded (fst df) \<longrightarrow> load (snd df) \<in> {dur_repos (fst df), restored (dur_repos (fst df))})"

lemma durable_inv_open: "durable_inv (OpenDurable dir f, f)"
  by (cases dir) (simp_all add: durable_inv_def OpenDurable_def newMemoryDurable_def svc_ok_load [of Absent, unfolded load_def, simplified]
      svc_ok_load)

lemma load_snapshot: "svc_ok s \<Longrightarrow> takeSnapshot s = (Inr snap, s') \<Longrightarrow> load (Holds snap) = restored s"
  by (simp add: load_def restore_take)

lemma durable_inv_do:
  assumes "durable_inv df" "dur_path (fst df)"
  shows "durable_inv (snd (durable_do io w df)) \<and> dur_path (fst (snd (durable_do io w df)))"
proof (cases "allowEntityWrite (fst df)")
  case (Inl e)
  then show ?thesis using assms by (simp add: durable_do_def write_through_def)
next
  case (Inr u)
  obtain r s where run: "memory_write w (dur_repos (fst df)) = (r, s)" by (cases "memory_write w (dur_repos (fst df))")
  have ok: "svc_ok s" using keeps_okD [OF memory_write_keeps_ok, of "dur_repos (fst df)" w] assms(1) run
    by (simp add: durable_inv_def)
  show ?thesis
  proof (cases r)
    case (Inl e)
    then show ?thesis using memory_write_error run assms Inr
      by (auto simp: durable_do_def write_through_def durable_inv_def)
  next
    case (Inr x)
    obtain snap s' where "takeSnapshot s = (Inr snap, s')" by (simp add: takeSnapshot_app)
    with load_snapshot [OF ok this] show ?thesis
      using run assms Inr \<open>allowEntityWrite (fst df) = Inr u\<close> ok
      by (simp add: durable_do_def write_through_def durable_inv_def persist_def split: prod.splits)
  qed
qed



end
