(* ===== verification/Checkpoint.thy ===== *)
theory Checkpoint
  imports Durable
begin

text \<open>
  The committed checkpoint (\<open>src/internal/repository/checkpoint.go\<close>): one message is staged in detached
  repositories, validated together with the source's revision and receipts, and replaces the checkpoint file as
  a whole.

  What depends on the encoding is a parameter: the size of the encoded pending payload, the header fields
  read back from it and the digest of an encoded file. The content store of version 2 destinations
  (\<open>checkpoint_content.go\<close>, theory Content) changes how the same value lies on disk, not the value.
\<close>

section \<open>UTF-8\<close>

definition cont_byte :: "nat \<Rightarrow> bool" where "cont_byte b \<longleftrightarrow> 0x80 \<le> b \<and> b \<le> 0xBF"

definition utf8_second :: "nat \<Rightarrow> nat \<Rightarrow> bool" where
  "utf8_second a b \<longleftrightarrow>
     (if a = 0xE0 then 0xA0 \<le> b \<and> b \<le> 0xBF
      else if a = 0xED then 0x80 \<le> b \<and> b \<le> 0x9F
      else if a = 0xF0 then 0x90 \<le> b \<and> b \<le> 0xBF
      else if a = 0xF4 then 0x80 \<le> b \<and> b \<le> 0x8F
      else cont_byte b)"

text \<open>The number of runes, when the bytes are valid UTF-8.\<close>

fun utf8_count :: "nat list \<Rightarrow> nat option" where
  "utf8_count [] = Some 0"
| "utf8_count (a # bs) =
     (if a < 0x80 then map_option Suc (utf8_count bs)
      else case bs of
        [] \<Rightarrow> None
      | b # cs \<Rightarrow>
          if 0xC2 \<le> a \<and> a \<le> 0xDF \<and> cont_byte b then map_option Suc (utf8_count cs)
          else (case cs of
             [] \<Rightarrow> None
           | c # ds \<Rightarrow>
               if 0xE0 \<le> a \<and> a \<le> 0xEF \<and> utf8_second a b \<and> cont_byte c then map_option Suc (utf8_count ds)
               else (case ds of
                  [] \<Rightarrow> None
                | d # es \<Rightarrow>
                    if 0xF0 \<le> a \<and> a \<le> 0xF4 \<and> utf8_second a b \<and> cont_byte c \<and> cont_byte d
                    then map_option Suc (utf8_count es) else None)))"

text \<open>\<open>utf8.ValidString(s) && utf8.RuneCountInString(s) <= limit\<close>\<close>

definition bounded_text :: "string \<Rightarrow> nat \<Rightarrow> bool" where
  "bounded_text s limit = (case utf8_count (map of_char s) of None \<Rightarrow> False | Some n \<Rightarrow> n \<le> limit)"

definition valid_utf8 :: "string \<Rightarrow> bool" where
  "valid_utf8 s \<longleftrightarrow> utf8_count (map of_char s) \<noteq> None"

text \<open>\<open>hex.DecodeString\<close> succeeds and gives \<open>n\<close> bytes.\<close>

definition hex_bytes :: "nat \<Rightarrow> string \<Rightarrow> bool" where
  "hex_bytes n s \<longleftrightarrow> length s = 2 * n \<and> list_all (\<lambda>c. c \<in> set (''0123456789abcdefABCDEF'')) s"

section \<open>Validation\<close>

definition MaxSourceRevision :: nat where "MaxSourceRevision = 9007199254740991"
definition MaxSourceSnapshotBytes :: nat where "MaxSourceSnapshotBytes = 128 * 1024"

record ('st, 'p) codec =
  pending_version :: "'p \<Rightarrow> nat"
  pending_sourceID :: "'p \<Rightarrow> string"
  pending_rundownID :: "'p \<Rightarrow> string"
  pending_revision :: "'p \<Rightarrow> nat"
  pending_size :: "'p \<Rightarrow> nat"
  file_digest :: "('st, 'p) checkpointFile \<Rightarrow> string"

definition has_suffix :: "string \<Rightarrow> string \<Rightarrow> bool" where
  "has_suffix s t \<longleftrightarrow> suffix t s"

lemma has_suffix_code [code]: "has_suffix s t \<longleftrightarrow> (length t \<le> length s \<and> drop (length s - length t) s = t)"
  by (auto simp: has_suffix_def suffix_def) (metis append_take_drop_id)

definition wire_version :: "SourceBinding \<Rightarrow> nat" where
  "wire_version b = (if has_suffix (bnd_Destination b) ''/v2/source-sync'' then 2 else 1)"

definition receipt_key :: "InputReceipt \<Rightarrow> string \<times> string \<times> string \<times> bool" where
  "receipt_key r = (rcp_Scope r, rcp_NCSID r, rcp_MessageID r, rcp_Response r = [])"

definition receipt_ok :: "SourceBinding \<Rightarrow> InputReceipt \<Rightarrow> bool" where
  "receipt_ok b r \<longleftrightarrow> rcp_Scope r \<noteq> [] \<and> bounded_text (rcp_Scope r) 512 \<and> rcp_NCSID r = bnd_NCSID b
     \<and> rcp_MessageID r \<noteq> [] \<and> bounded_text (rcp_MessageID r) (4 * 2 ^ 20) \<and> hex_bytes 32 (rcp_Hash r)
     \<and> length (rcp_Response r) \<le> 8 * 2 ^ 20 \<and> valid_utf8 (rcp_Response r)"

definition pending_matches :: "('st, 'p) codec \<Rightarrow> SourceBinding \<Rightarrow> nat \<Rightarrow> 'p \<Rightarrow> bool" where
  "pending_matches c b n p \<longleftrightarrow> \<not> (wire_version b = 1 \<and> pending_size c p > MaxSourceSnapshotBytes)
     \<and> pending_version c p = wire_version b \<and> pending_sourceID c p = bnd_SourceID b
     \<and> pending_rundownID c p = bnd_RundownID b \<and> pending_revision c p = n"

definition validateCheckpoint :: "('st, 'p) codec \<Rightarrow> ('st, 'p) SourceCheckpoint \<Rightarrow> SourceBinding \<Rightarrow> unit result" where
  "validateCheckpoint c s b =
     (if cp_Revision s > MaxSourceRevision \<or> cp_AcceptedRevision s > cp_Revision s
      then Inl (Errorf ''invalid committed source counter or receipt bound'')
      else if cp_Revision s = 0 then
        (if cp_Pending s \<noteq> None \<or> cp_State s \<noteq> None \<or> cp_Receipts s \<noteq> []
         then Inl (Errorf ''invalid unstarted source checkpoint'') else Inr ())
      else if cp_State s = None \<or> (case cp_Pending s of None \<Rightarrow> True | Some p \<Rightarrow> \<not> pending_matches c b (cp_Revision s) p)
      then Inl (Errorf ''committed source payload does not match its binding and revision'')
      else if \<not> (distinct (map receipt_key (cp_Receipts s)) \<and> list_all (receipt_ok b) (cp_Receipts s))
      then Inl (Errorf ''invalid committed source input receipt'')
      else Inr ())"

section \<open>Writing and opening the file\<close>

definition new_file :: "('st, 'p) codec \<Rightarrow> SourceBinding \<Rightarrow> snapshot \<Rightarrow> ('st, 'p) SourceCheckpoint \<Rightarrow> ('st, 'p) checkpointFile" where
  "new_file c b snap s =
     (let f = \<lparr>cf_Version = 1, cf_Binding = b, cf_Snapshot = snap, cf_Source = s, cf_Digest = []\<rparr> in
      f\<lparr>cf_Digest := file_digest c f\<rparr>)"

text \<open>
  How replacing the file can end: written, failed before the rename, or failed after it, when the directory
  could not be synced.
\<close>

datatype save_outcome = Saved | NotReplaced | ReplacedUnsynced

definition saveCheckpoint ::
    "('st, 'p) codec \<Rightarrow> save_outcome \<Rightarrow> SourceBinding \<Rightarrow> snapshot \<Rightarrow> ('st, 'p) SourceCheckpoint \<Rightarrow>
     ('st, 'p) checkpointFile disk \<Rightarrow> unit result \<times> ('st, 'p) checkpointFile disk" where
  "saveCheckpoint c io b snap s f = (case io of
      Saved \<Rightarrow> (Inr (), Holds (new_file c b snap s))
    | NotReplaced \<Rightarrow> (Inl (Errorf ''replace checkpoint''), f)
    | ReplacedUnsynced \<Rightarrow> (Inl (Errorf ''sync checkpoint directory''), Holds (new_file c b snap s)))"

definition empty_checkpoint :: "('st, 'p) SourceCheckpoint" where
  "empty_checkpoint = \<lparr>cp_Revision = 0, cp_State = None, cp_Pending = None, cp_AcceptedRevision = 0, cp_Receipts = []\<rparr>"

definition empty_snapshot :: snapshot where
  "empty_snapshot = \<lparr>snap_RunningOrders = [], snap_Stories = [], snap_Items = []\<rparr>"

definition committed_durable :: "SourceBinding \<Rightarrow> MOSService \<Rightarrow> ('st, 'p) SourceCheckpoint \<Rightarrow> ('st, 'p) Durable" where
  "committed_durable b repos s = newMemoryDurable\<lparr>dur_path := True, dur_binding := b, dur_committed := True,
     dur_checkpoint := Some s, dur_repos := repos\<rparr>"

record source_dir =
  sd_given :: bool
  sd_created :: bool
  sd_locked :: bool
  sd_catalogue :: bool
  sd_legacy :: bool

definition directory_check :: "source_dir \<Rightarrow> bool \<Rightarrow> unit result" where
  "directory_check sd initialize =
     (if \<not> sd_given sd then Inl (Errorf ''committed source requires a state directory'')
      else if initialize \<and> \<not> sd_created sd then Inl (Errorf ''create state directory'')
      else if \<not> sd_locked sd then Inl (Errorf ''source state already owned or cannot be locked'')
      else if sd_catalogue sd then Inl (Errorf ''catalogue state present; rundown state requires a separate directory'')
      else if sd_legacy sd then Inl (Errorf ''legacy running-order state present; automatic migration is unsupported'')
      else Inr ())"

definition read_checkpoint ::
    "('st, 'p) codec \<Rightarrow> SourceBinding \<Rightarrow> ('st, 'p) checkpointFile \<Rightarrow> ('st, 'p) Durable result" where
  "read_checkpoint c b file =
     (if cf_Version file \<noteq> 1 \<or> cf_Binding file \<noteq> b
      then Inl (Errorf ''committed source version or binding mismatch; reset is unsupported'')
      else if cf_Digest file \<noteq> file_digest c (file\<lparr>cf_Digest := []\<rparr>)
      then Inl (Errorf ''committed source integrity mismatch'')
      else case validateCheckpoint c (cf_Source file) b of
        Inl e \<Rightarrow> Inl e
      | Inr _ \<Rightarrow>
          (case restoreSnapshot (cf_Snapshot file) newMemoryRepos of
             (Inl e, _) \<Rightarrow> Inl e
           | (Inr _, repos) \<Rightarrow> Inr (committed_durable b repos (cf_Source file))))"

definition OpenCommitted ::
    "('st, 'p) codec \<Rightarrow> save_outcome \<Rightarrow> source_dir \<Rightarrow> SourceBinding \<Rightarrow> bool \<Rightarrow> ('st, 'p) checkpointFile disk \<Rightarrow>
     ('st, 'p) Durable result \<times> ('st, 'p) checkpointFile disk" where
  "OpenCommitted c io sd b initialize f =
     (case directory_check sd initialize of
        Inl e \<Rightarrow> (Inl e, f)
      | Inr _ \<Rightarrow>
          (case f of
             Absent \<Rightarrow>
               if initialize then
                 (case saveCheckpoint c io b empty_snapshot empty_checkpoint f of
                    (Inl e, f) \<Rightarrow> (Inl e, f)
                  | (Inr _, f) \<Rightarrow> (Inr (committed_durable b newMemoryRepos empty_checkpoint), f))
               else (Inl (Errorf ''read committed source state (initialize only a new source)''), f)
           | Unreadable \<Rightarrow>
               (Inl (Errorf (if initialize then ''source state already initialized; reset is unsupported''
                  else ''decode committed source'')), f)
           | Holds file \<Rightarrow>
               if initialize then (Inl (Errorf ''source state already initialized; reset is unsupported''), f)
               else (read_checkpoint c b file, f)))"

definition close_durable :: "('st, 'p) Durable \<Rightarrow> ('st, 'p) Durable" where
  "close_durable d = d\<lparr>dur_degraded := True\<rparr>"

section \<open>Commit\<close>

definition available :: "('st, 'p) Durable \<Rightarrow> ('st, 'p) SourceCheckpoint result" where
  "available d = (case dur_checkpoint d of
      Some s \<Rightarrow> if dur_degraded d then Inl (Errorf ''committed source storage is unavailable'') else Inr s
    | None \<Rightarrow> Inl (Errorf ''committed source storage is unavailable''))"

text \<open>\<open>Checkpoint\<close>; the clone it returns is the value itself.\<close>

definition Checkpoint :: "('st, 'p) Durable \<Rightarrow> ('st, 'p) SourceCheckpoint result" where
  "Checkpoint d = available d"

definition Delivery :: "('st, 'p) Durable \<Rightarrow> ('st, 'p) SourceCheckpoint result" where
  "Delivery d = (case available d of
      Inl e \<Rightarrow> Inl e
    | Inr s \<Rightarrow> Inr (s\<lparr>cp_Receipts := []\<rparr>))"

type_synonym ('st, 'p, 'a) stage = "('st, 'p) SourceCheckpoint \<Rightarrow> MOSService \<Rightarrow> ('a \<times> ('st, 'p) SourceCheckpoint) result \<times> MOSService"

text \<open>
  The callback gets the staged repositories and the staged checkpoint. \<open>cancelled\<close> is \<open>ctx.Err() != nil\<close>
  after staging.
\<close>

definition Commit ::
    "('st, 'p) codec \<Rightarrow> bool \<Rightarrow> save_outcome \<Rightarrow> ('st, 'p, 'a) stage \<Rightarrow> ('st, 'p) Durable \<times> ('st, 'p) checkpointFile disk \<Rightarrow>
     'a result \<times> ('st, 'p) Durable \<times> ('st, 'p) checkpointFile disk" where
  "Commit c cancelled io apply df =
     (let (d, f) = df in
      case available d of
        Inl e \<Rightarrow> (Inl e, df)
      | Inr cp \<Rightarrow>
      (case takeSnapshot (dur_repos d) of
        (Inl e, _) \<Rightarrow> (Inl e, df)
      | (Inr snap, _) \<Rightarrow>
      (case restoreSnapshot snap newMemoryRepos of
        (Inl e, _) \<Rightarrow> (Inl e, df)
      | (Inr _, staged) \<Rightarrow>
      (case apply cp staged of
        (Inl e, _) \<Rightarrow> (Inl e, df)
      | (Inr (x, cp'), staged) \<Rightarrow>
          if cp_Revision cp' < cp_Revision cp \<or> cp_Revision cp' > cp_Revision cp + 1
          then (Inl (Errorf ''source revision must stay unchanged or advance once''), df)
          else
      (case validateCheckpoint c cp' (dur_binding d) of
        Inl e \<Rightarrow> (Inl e, df)
      | Inr _ \<Rightarrow>
      (case takeSnapshot staged of
        (Inl e, _) \<Rightarrow> (Inl e, df)
      | (Inr snap, _) \<Rightarrow>
          if cancelled then (Inl (Errorf ''context canceled''), df)
          else
      (case saveCheckpoint c io (dur_binding d) snap cp' f of
        (Inl e, f) \<Rightarrow> (Inl e, d\<lparr>dur_degraded := True\<rparr>, f)
      | (Inr _, f) \<Rightarrow> (Inr x, d\<lparr>dur_repos := (dur_repos d)\<lparr>runningOrderRepo := runningOrderRepo staged,
            storyRepo := storyRepo staged, itemRepo := itemRepo staged\<rparr>, dur_checkpoint := Some cp'\<rparr>, f))))))))"

section \<open>Atomicity\<close>

definition reads_as :: "('st, 'p) codec \<Rightarrow> SourceBinding \<Rightarrow> ('st, 'p) checkpointFile disk \<Rightarrow> MOSService \<Rightarrow> ('st, 'p) SourceCheckpoint \<Rightarrow> bool" where
  "reads_as c b f repos cp \<longleftrightarrow> (\<exists>file. f = Holds file \<and> read_checkpoint c b file = Inr (committed_durable b repos cp))"

text \<open>
  An available store holds a valid checkpoint, and its file reads back as that checkpoint with the
  repositories, as a snapshot keeps them.
\<close>

definition committed_inv :: "('st, 'p) codec \<Rightarrow> ('st, 'p) Durable \<times> ('st, 'p) checkpointFile disk \<Rightarrow> bool" where
  "committed_inv c df \<longleftrightarrow> svc_ok (dur_repos (fst df)) \<and>
     (\<forall>cp. available (fst df) = Inr cp \<longrightarrow> validateCheckpoint c cp (dur_binding (fst df)) = Inr () \<and>
        (\<exists>repos \<in> {dur_repos (fst df), restored (dur_repos (fst df))}. reads_as c (dur_binding (fst df)) (snd df) repos cp))"

lemma read_new_file:
  assumes "validateCheckpoint c cp b = Inr ()" "svc_ok s" "takeSnapshot s = (Inr snap, s')"
  shows "read_checkpoint c b (new_file c b snap cp) = Inr (committed_durable b (restored s) cp)"
  using assms(1) restore_take [OF assms(2,3)] by (simp add: read_checkpoint_def new_file_def Let_def)

definition staged_keeps_ok :: "('st, 'p, 'a) stage \<Rightarrow> bool" where
  "staged_keeps_ok apply \<longleftrightarrow> (\<forall>cp. keeps_ok (apply cp))"

text \<open>A commit without its error-free plumbing.\<close>

definition stage_ok :: "('st, 'p) codec \<Rightarrow> SourceBinding \<Rightarrow> ('st, 'p) SourceCheckpoint \<Rightarrow> ('st, 'p) SourceCheckpoint \<Rightarrow> bool" where
  "stage_ok c b cp cp' \<longleftrightarrow> cp_Revision cp \<le> cp_Revision cp' \<and> cp_Revision cp' \<le> cp_Revision cp + 1
     \<and> validateCheckpoint c cp' b = Inr ()"

text \<open>The errors of a commit itself, as opposed to those of its callback.\<close>

definition commit_errors :: "go_error set" where
  "commit_errors = Errorf ` {''committed source storage is unavailable'', ''source revision must stay unchanged or advance once'',
     ''context canceled'', ''invalid committed source counter or receipt bound'', ''invalid unstarted source checkpoint'',
     ''committed source payload does not match its binding and revision'', ''invalid committed source input receipt''}"

definition save_errors :: "go_error set" where
  "save_errors = {Errorf ''replace checkpoint'', Errorf ''sync checkpoint directory''}"

lemma commit_errors_own:
  "Errorf ''source revision must stay unchanged or advance once'' \<in> commit_errors" "Errorf ''context canceled'' \<in> commit_errors"
  by (simp_all add: commit_errors_def)

lemma available_error: "available d = Inl e \<Longrightarrow> e \<in> commit_errors"
  by (auto simp: available_def commit_errors_def split: option.splits if_splits)

lemma validate_error: "validateCheckpoint c cp b = Inl e \<Longrightarrow> e \<in> commit_errors"
  by (auto simp: validateCheckpoint_def commit_errors_def split: if_splits)

lemma Commit_cases:
  assumes ok: "svc_ok (dur_repos d)" and run: "Commit c cancelled io apply (d, f) = (r, d', f')"
  obtains
    (refused) e where "r = Inl e" "d' = d" "f' = f"
      "e \<in> commit_errors \<or> (\<exists>cp t. available d = Inr cp \<and> apply cp (restored (dur_repos d)) = (Inl e, t))"
  | (unsaved) e cp x cp' staged snap where "available d = Inr cp" "apply cp (restored (dur_repos d)) = (Inr (x, cp'), staged)"
      "stage_ok c (dur_binding d) cp cp'" "fst (takeSnapshot staged) = Inr snap" "r = Inl e" "d' = d\<lparr>dur_degraded := True\<rparr>"
      "io = NotReplaced \<and> f' = f \<or> io = ReplacedUnsynced \<and> f' = Holds (new_file c (dur_binding d) snap cp')"
      "e \<in> save_errors"
  | (saved) cp x cp' staged snap where "available d = Inr cp" "apply cp (restored (dur_repos d)) = (Inr (x, cp'), staged)"
      "stage_ok c (dur_binding d) cp cp'" "fst (takeSnapshot staged) = Inr snap" "r = Inr x" "\<not> cancelled" "io = Saved"
      "d' = d\<lparr>dur_repos := (dur_repos d)\<lparr>runningOrderRepo := runningOrderRepo staged,
            storyRepo := storyRepo staged, itemRepo := itemRepo staged\<rparr>, dur_checkpoint := Some cp'\<rparr>"
      "f' = Holds (new_file c (dur_binding d) snap cp')"
proof -
  obtain snap0 where t: "takeSnapshot (dur_repos d) = (Inr snap0, dur_repos d)" by (simp add: takeSnapshot_app)
  note restore = restore_take [OF ok t]
  show thesis
  proof (cases "available d")
    case (Inl e)
    then show thesis using run refused [of e] available_error [OF Inl] by (auto simp: Commit_def)
  next
    case (Inr cp)
    note avail = this
    show thesis
    proof (cases "apply cp (restored (dur_repos d))")
      case (Pair ar staged)
      show thesis
      proof (cases ar)
        case (Inl e)
        then show thesis using run refused [of e] avail t restore Pair by (auto simp: Commit_def)
      next
        case (Inr xc)
        obtain x cp' where xc: "xc = (x, cp')" by (cases xc)
        obtain snap where snap: "takeSnapshot staged = (Inr snap, staged)" by (simp add: takeSnapshot_app)
        show thesis
        proof (cases "validateCheckpoint c cp' (dur_binding d)")
          case (Inl e)
          then show thesis using run refused avail t restore Pair \<open>ar = Inr xc\<close> xc validate_error [OF Inl]
            by (auto simp: Commit_def commit_errors_own split: if_splits)
        next
          case (Inr u)
          have "Commit c cancelled io apply (d, f) =
            (if cp_Revision cp' < cp_Revision cp \<or> cp_Revision cp' > cp_Revision cp + 1
             then (Inl (Errorf ''source revision must stay unchanged or advance once''), d, f)
             else if cancelled then (Inl (Errorf ''context canceled''), d, f)
             else case saveCheckpoint c io (dur_binding d) snap cp' f of
               (Inl e, f) \<Rightarrow> (Inl e, d\<lparr>dur_degraded := True\<rparr>, f)
             | (Inr _, f) \<Rightarrow> (Inr x, d\<lparr>dur_repos := (dur_repos d)\<lparr>runningOrderRepo := runningOrderRepo staged,
                 storyRepo := storyRepo staged, itemRepo := itemRepo staged\<rparr>, dur_checkpoint := Some cp'\<rparr>, f))"
            using Inr by (simp add: Commit_def avail t restore Pair \<open>ar = Inr xc\<close> xc snap)
          then show thesis
            using run Pair \<open>ar = Inr xc\<close> xc avail snap Inr
              unsaved [of cp x cp' staged snap] saved [of cp x cp' staged snap]
            by (cases io) (auto simp: saveCheckpoint_def stage_ok_def commit_errors_own save_errors_def intro: refused split: if_splits)
        qed
      qed
    qed
  qed
qed

lemma restored_repos:
  "restored ((dur_repos d)\<lparr>runningOrderRepo := runningOrderRepo s, storyRepo := storyRepo s, itemRepo := itemRepo s\<rparr>) =
   restored s"
  by (simp add: restored_def held_stories_def held_items_def)

lemma takeSnapshot_fst: "fst (takeSnapshot s) = Inr snap \<Longrightarrow> takeSnapshot s = (Inr snap, s)"
  by (simp add: takeSnapshot_app)

lemma staged_svc_ok:
  assumes "svc_ok (dur_repos d)" "staged_keeps_ok apply" "apply cp (restored (dur_repos d)) = (r, staged)"
  shows "svc_ok staged"
  using keeps_okD [of "apply cp" "restored (dur_repos d)"] assms svc_ok_restored [OF assms(1)]
  by (simp add: staged_keeps_ok_def)

lemma saved_reads_as:
  assumes "svc_ok (dur_repos d)" "staged_keeps_ok apply" "apply cp (restored (dur_repos d)) = (Inr (x, cp'), staged)"
    and "stage_ok c b cp cp'" "fst (takeSnapshot staged) = Inr snap"
  shows "reads_as c b (Holds (new_file c b snap cp')) (restored staged) cp'"
proof -
  have "validateCheckpoint c cp' b = Inr ()" using assms(4) by (simp add: stage_ok_def)
  from read_new_file [OF this staged_svc_ok [OF assms(1,2,3)] takeSnapshot_fst [OF assms(5)]]
  show ?thesis by (simp add: reads_as_def)
qed

lemma Commit_keeps_inv:
  assumes inv: "committed_inv c (d, f)" and keeps: "staged_keeps_ok apply"
    and run: "Commit c cancelled io apply (d, f) = (r, d', f')"
  shows "committed_inv c (d', f')"
proof -
  have ok: "svc_ok (dur_repos d)" using inv by (simp add: committed_inv_def)
  from ok run show ?thesis
  proof (cases rule: Commit_cases)
    case refused
    then show ?thesis using inv by simp
  next
    case (unsaved e cp x cp' staged snap)
    then show ?thesis using ok by (simp add: committed_inv_def available_def split: option.splits)
  next
    case (saved cp x cp' staged snap)
    have "svc_ok staged" by (rule staged_svc_ok [OF ok keeps saved(2)])
    then have "svc_ok (dur_repos d')" using ok saved(8) by (simp add: svc_ok_def)
    moreover have "available d' = Inr cp'" "dur_binding d' = dur_binding d" "restored (dur_repos d') = restored staged"
      using saved(1,8) by (auto simp: available_def restored_repos split: option.splits if_splits)
    moreover have "validateCheckpoint c cp' (dur_binding d) = Inr ()" using saved(3) by (simp add: stage_ok_def)
    ultimately show ?thesis
      using saved_reads_as [OF ok keeps saved(2,3,4)] saved(9) by (simp add: committed_inv_def)
  qed
qed

text \<open>
  C4. A message is committed as a whole or not at all, in memory and on disk. If \<open>Commit\<close> succeeds, memory is
  what the callback produced and so is the file. If it fails, memory is what it was, the file reads as the
  state before the message or, when only the final sync failed, as the complete state after it, and in the
  second case the store refuses to serve until it is reopened. The revision never goes back.
\<close>

theorem commit_all_or_nothing:
  assumes inv: "committed_inv c (d, f)" and avail: "available d = Inr cp" and keeps: "staged_keeps_ok apply"
    and run: "Commit c cancelled io apply (d, f) = (r, d', f')"
  shows "(case r of
      Inr x \<Rightarrow> \<exists>cp' staged. apply cp (restored (dur_repos d)) = (Inr (x, cp'), staged)
        \<and> available d' = Inr cp' \<and> restored (dur_repos d') = restored staged
        \<and> reads_as c (dur_binding d) f' (restored staged) cp'
        \<and> cp_Revision cp' \<in> {cp_Revision cp, cp_Revision cp + 1}
    | Inl e \<Rightarrow> dur_repos d' = dur_repos d \<and> dur_checkpoint d' = Some cp
        \<and> ((\<exists>repos \<in> {dur_repos d, restored (dur_repos d)}. reads_as c (dur_binding d) f' repos cp)
          \<or> (\<exists>x cp' staged. apply cp (restored (dur_repos d)) = (Inr (x, cp'), staged)
              \<and> reads_as c (dur_binding d) f' (restored staged) cp' \<and> (\<exists>e. available d' = Inl e))))"
proof -
  have ok: "svc_ok (dur_repos d)" using inv by (simp add: committed_inv_def)
  have cp: "dur_checkpoint d = Some cp" using avail by (auto simp: available_def split: option.splits if_splits)
  have before: "\<exists>repos \<in> {dur_repos d, restored (dur_repos d)}. reads_as c (dur_binding d) f repos cp"
    using inv avail by (simp add: committed_inv_def)
  from ok run show ?thesis
  proof (cases rule: Commit_cases)
    case refused
    then show ?thesis using before cp by simp
  next
    case (unsaved e cp1 x cp' staged snap)
    then show ?thesis using before cp avail saved_reads_as [OF ok keeps unsaved(2,3,4)]
      by (auto simp: available_def)
  next
    case (saved cp1 x cp' staged snap)
    have "available d' = Inr cp'" "restored (dur_repos d') = restored staged"
      using saved(1,8) by (auto simp: available_def restored_repos split: option.splits if_splits)
    then show ?thesis using saved avail saved_reads_as [OF ok keeps saved(2,3,4)]
      by (auto simp: stage_ok_def)
  qed
qed

text \<open>The first message of a new source.\<close>

definition example_codec :: "(unit, unit) codec" where
  "example_codec = \<lparr>pending_version = (\<lambda>_. 1), pending_sourceID = (\<lambda>_. ''S''), pending_rundownID = (\<lambda>_. ''R''),
     pending_revision = (\<lambda>_. 1), pending_size = (\<lambda>_. 0), file_digest = (\<lambda>_. ''d'')\<rparr>"

definition first_binding :: SourceBinding where
  "first_binding = \<lparr>bnd_SourceID = ''S'', bnd_RundownID = ''R'', bnd_MosID = ''M'', bnd_NCSID = ''N'', bnd_Transport = ''tcp'',
     bnd_Destination = ''http://127.0.0.1/''\<rparr>"

definition first_store :: "(unit, unit) Durable" where
  "first_store = committed_durable first_binding newMemoryRepos empty_checkpoint"

definition first_file :: "(unit, unit) checkpointFile disk" where
  "first_file = Holds (new_file example_codec first_binding empty_snapshot empty_checkpoint)"

definition first_checkpoint :: "(unit, unit) SourceCheckpoint" where
  "first_checkpoint = empty_checkpoint\<lparr>cp_Revision := 1, cp_State := Some (), cp_Pending := Some ()\<rparr>"

definition first_stage :: "(unit, unit, string) stage" where
  "first_stage cp s = (Inr (''stored'', first_checkpoint), s)"

lemma first_stage_keeps: "staged_keeps_ok first_stage"
  by (simp add: staged_keeps_ok_def keeps_ok_def first_stage_def)

lemma new_repos_ok: "svc_ok newMemoryRepos" "restored newMemoryRepos = newMemoryRepos"
  by (simp_all add: svc_ok_def restored_def newMemoryRepos_def NewMOSService_def held_stories_def held_items_def keyed_def gm_values_def)

lemma empty_snapshot_taken: "takeSnapshot newMemoryRepos = (Inr empty_snapshot, newMemoryRepos)"
  by code_simp

lemma first_store_inv: "committed_inv example_codec (first_store, first_file)"
proof -
  have valid: "validateCheckpoint example_codec empty_checkpoint first_binding = Inr ()"
    by (simp add: validateCheckpoint_def empty_checkpoint_def)
  from read_new_file [OF valid new_repos_ok(1) empty_snapshot_taken] show ?thesis
    using valid new_repos_ok
    by (simp add: committed_inv_def first_store_def first_file_def reads_as_def available_def committed_durable_def newMemoryDurable_def)
qed

theorem commit_all_or_nothing_witness:
  "fst (Commit example_codec False Saved first_stage (first_store, first_file)) = Inr ''stored''
   \<and> reads_as example_codec first_binding (snd (snd (Commit example_codec False Saved first_stage (first_store, first_file))))
       (restored newMemoryRepos) first_checkpoint"
proof -
  let ?c = "Commit example_codec False Saved first_stage (first_store, first_file)"
  have avail: "available first_store = Inr empty_checkpoint" and binding: "dur_binding first_store = first_binding"
    and repos: "dur_repos first_store = newMemoryRepos"
    by (simp_all add: first_store_def available_def committed_durable_def newMemoryDurable_def)
  have "restoreSnapshot empty_snapshot newMemoryRepos = (Inr (), newMemoryRepos)"
    using restore_take [OF new_repos_ok(1) empty_snapshot_taken] new_repos_ok(2) by simp
  moreover have "validateCheckpoint example_codec first_checkpoint first_binding = Inr ()"
    by (simp add: validateCheckpoint_def first_checkpoint_def empty_checkpoint_def MaxSourceRevision_def pending_matches_def
        example_codec_def first_binding_def wire_version_def has_suffix_code)
  ultimately have out: "fst ?c = Inr ''stored''"
    by (simp add: Commit_def avail binding repos empty_snapshot_taken first_stage_def first_checkpoint_def empty_checkpoint_def
        saveCheckpoint_def)
  have run: "?c = (fst ?c, fst (snd ?c), snd (snd ?c))" by simp
  from commit_all_or_nothing [OF first_store_inv avail first_stage_keeps run]
  show ?thesis unfolding out binding repos new_repos_ok(2) by (auto simp: first_stage_def new_repos_ok(2))
qed

end
