(* ===== verification/SourceState.thy ===== *)
theory SourceState
  imports Checkpoint StoryOps SourceContent
begin

text \<open>
  What a committed source retains and publishes (\<open>src/internal/service/source.go\<close> and
  \<open>source_snapshot.go\<close>): the roster with its story bodies, the identities of anonymous cues, and the neutral
  snapshot with its limits.

  The standard library's part is the argument \<open>source_env\<close>: SHA-256 in hexadecimal, the content of the
  operation's root element as XML nodes, the length of an encoded snapshot and the digest of an encoded checkpoint. A nil slice behind a non-nil
  pointer does not occur, because the code allocates every such slice.
\<close>

section \<open>Data\<close>

record SourceOccurrence =
  occ_ID :: string
  occ_Kind :: string
  occ_MosID :: "string option"
  occ_ObjectID :: "string option"
  occ_ObjectType :: "string option"
  occ_Label :: "string option"
  occ_Abstract :: "string option"
  occ_ItemEdDur :: "string option"
  occ_ObjDur :: "string option"
  occ_ObjTB :: "string option"
  occ_Media :: "SourceMedia list option"
  occ_Metadata :: "string list option"
  occ_CueType :: string
  occ_Target :: "string option"
  occ_Raw :: "string option"
  occ_Verb :: "string option"
  occ_Fields :: "string list option"
  occ_Params :: "string gomap option"

definition zero_SourceOccurrence :: SourceOccurrence where
  "zero_SourceOccurrence = \<lparr>occ_ID = [], occ_Kind = [], occ_MosID = None, occ_ObjectID = None, occ_ObjectType = None,
     occ_Label = None, occ_Abstract = None, occ_ItemEdDur = None, occ_ObjDur = None, occ_ObjTB = None,
     occ_Media = None, occ_Metadata = None, occ_CueType = [], occ_Target = None, occ_Raw = None, occ_Verb = None,
     occ_Fields = None, occ_Params = None\<rparr>"

record SourceStory =
  sst_ID :: string
  sst_Page :: "string option"
  sst_Slug :: "string option"
  sst_Occurrences :: "SourceOccurrence list"

record SourceSnapshot =
  sn_Version :: nat
  sn_SourceID :: string
  sn_RundownID :: string
  sn_Revision :: nat
  sn_Active :: bool
  sn_Complete :: bool
  sn_Metadata :: "string list option"
  sn_Stories :: "SourceStory list"

record heldSourceStory =
  hs_ID :: string
  hs_Fresh :: bool
  hs_Ambiguous :: bool
  hs_Occurrences :: "SourceOccurrence list"
  hs_Raw :: string

record sourceState =
  src_Active :: bool
  src_RosterFresh :: bool
  src_Stories :: "heldSourceStory list"
  src_NextCue :: nat
  src_Halted :: bool
  src_RawRoster :: string
  src_RunMetadata :: "string list option"
  src_Problem :: string

definition zero_sourceState :: sourceState where
  "zero_sourceState = \<lparr>src_Active = False, src_RosterFresh = False, src_Stories = [], src_NextCue = 0,
     src_Halted = False, src_RawRoster = [], src_RunMetadata = None, src_Problem = []\<rparr>"

record source_env =
  se_go :: go_env
  se_sha256 :: "string \<Rightarrow> string"
  se_children :: "string \<Rightarrow> xml_node list result"
  se_json_length :: "SourceSnapshot \<Rightarrow> nat"
  se_digest :: "(sourceState, SourceSnapshot) checkpointFile \<Rightarrow> string"

section \<open>The limits of a snapshot\<close>

definition sourceText :: "string \<Rightarrow> nat \<Rightarrow> bool \<Rightarrow> bool" where
  "sourceText s limit required \<longleftrightarrow> (required \<longrightarrow> s \<noteq> []) \<and> bounded_text s limit"

definition optional_text :: "string option \<Rightarrow> nat \<Rightarrow> bool" where
  "optional_text v limit = (case v of None \<Rightarrow> True | Some s \<Rightarrow> sourceText s limit False)"

definition sourceStrings :: "string list option \<Rightarrow> nat \<Rightarrow> unit result" where
  "sourceStrings values limit = (case values of
      None \<Rightarrow> Inr ()
    | Some vs \<Rightarrow>
        if length vs > 32 then Inl (Errorf ''source array limit is invalid'')
        else if \<not> list_all (\<lambda>v. sourceText v limit False) vs then Inl (Errorf ''source array value exceeds its limit'')
        else Inr ())"

definition media_ok :: "SourceMedia \<Rightarrow> bool" where
  "media_ok m \<longleftrightarrow> sourceText (sm_Role m) 512 True \<and> sourceText (sm_URL m) 2048 False
     \<and> optional_text (sm_TechDescription m) 512"

definition occurrence_fields :: "SourceOccurrence \<Rightarrow> unit result" where
  "occurrence_fields x =
     (if occ_Kind x \<noteq> ''mos_item'' \<and> occ_Kind x \<noteq> ''cue'' then Inl (Errorf ''source occurrence kind is invalid'')
      else if occ_Kind x = ''cue'' \<and> \<not> sourceText (occ_CueType x) 512 True then Inl (Errorf ''source cue type is invalid'')
      else if \<not> list_all (\<lambda>v. optional_text v 512)
          [occ_MosID x, occ_ObjectID x, occ_ObjectType x, occ_Label x, occ_ItemEdDur x, occ_ObjDur x, occ_ObjTB x,
           occ_Target x, occ_Verb x]
      then Inl (Errorf ''source field exceeds 512 characters'')
      else if \<not> optional_text (occ_Abstract x) 2048 \<or> \<not> optional_text (occ_Raw x) 16384
      then Inl (Errorf ''source text exceeds its limit'')
      else case sourceStrings (occ_Metadata x) 16384 of Inl e \<Rightarrow> Inl e | Inr _ \<Rightarrow>
      (case sourceStrings (occ_Fields x) 2048 of Inl e \<Rightarrow> Inl e | Inr _ \<Rightarrow>
        if (case occ_Media x of None \<Rightarrow> False | Some ms \<Rightarrow> length ms > 32) then Inl (Errorf ''source media limit is invalid'')
        else if (case occ_Media x of None \<Rightarrow> False | Some ms \<Rightarrow> \<not> list_all media_ok ms)
        then Inl (Errorf ''source media field is invalid'')
        else if (case occ_Params x of None \<Rightarrow> False | Some ps \<Rightarrow> length ps > 32)
        then Inl (Errorf ''source cue parameter limit is invalid'')
        else if (case occ_Params x of None \<Rightarrow> False
          | Some ps \<Rightarrow> \<not> list_all (\<lambda>(k, v). sourceText k 512 True \<and> sourceText v 2048 False) ps)
        then Inl (Errorf ''source cue parameter is invalid'')
        else Inr ()))"

fun marshal_occurrences :: "nat \<Rightarrow> string list \<Rightarrow> nat \<Rightarrow> SourceOccurrence list \<Rightarrow> nat result" where
  "marshal_occurrences version ids n [] = Inr n"
| "marshal_occurrences version ids n (x # xs) =
     (if \<not> sourceText (occ_ID x) 512 True \<or> occ_ID x \<in> set ids \<or> version = 1 \<and> Suc n > 200
      then Inl (Errorf ''source occurrence identity or count is invalid'')
      else case occurrence_fields x of
        Inl e \<Rightarrow> Inl e
      | Inr _ \<Rightarrow> marshal_occurrences version (occ_ID x # ids) (Suc n) xs)"

fun marshal_stories :: "nat \<Rightarrow> string list \<Rightarrow> nat \<Rightarrow> SourceStory list \<Rightarrow> unit result" where
  "marshal_stories version ids n [] = Inr ()"
| "marshal_stories version ids n (st # sts) =
     (if \<not> sourceText (sst_ID st) 512 True \<or> sst_ID st \<in> set ids
      then Inl (Errorf ''source story identity or occurrences are invalid'')
      else if \<not> optional_text (sst_Page st) 512 \<or> \<not> optional_text (sst_Slug st) 512
      then Inl (Errorf ''source story display field exceeds 512 characters'')
      else case marshal_occurrences version [] n (sst_Occurrences st) of
        Inl e \<Rightarrow> Inl e
      | Inr n \<Rightarrow> marshal_stories version (sst_ID st # ids) n sts)"

text \<open>The encoded snapshot is the snapshot itself.\<close>

definition marshalSource :: "source_env \<Rightarrow> SourceSnapshot \<Rightarrow> SourceSnapshot result" where
  "marshalSource se s =
     (if sn_Version s \<noteq> 1 \<and> sn_Version s \<noteq> 2 \<or> sn_Revision s = 0 \<or> sn_Revision s > MaxSourceRevision
        \<or> \<not> sourceText (sn_SourceID s) 512 True \<or> \<not> sourceText (sn_RundownID s) 512 True
        \<or> sn_Version s = 1 \<and> length (sn_Stories s) > 100
      then Inl (Errorf ''source header or story limit is invalid'')
      else case sourceStrings (sn_Metadata s) 16384 of
        Inl e \<Rightarrow> Inl e
      | Inr _ \<Rightarrow>
      (case marshal_stories (sn_Version s) [] 0 (sn_Stories s) of
        Inl e \<Rightarrow> Inl e
      | Inr _ \<Rightarrow>
          if sn_Version s = 1 \<and> se_json_length se s > MaxSourceSnapshotBytes
          then Inl (Errorf ''source snapshot exceeds 128 KiB'')
          else Inr s))"

section \<open>Display fields\<close>

definition pointer_field :: "string \<Rightarrow> xml_node list \<Rightarrow> string option" where
  "pointer_field n ns = (case rev (children_named n ns) of [] \<Rightarrow> None | x # _ \<Rightarrow> Some (chardata (el_children x)))"

record storyDisplay =
  sd_Page :: "string option"
  sd_Slug :: "string option"

definition read_display :: "xml_node list \<Rightarrow> storyDisplay" where
  "read_display ns = \<lparr>sd_Page = pointer_field ''storyNum'' ns, sd_Slug = pointer_field ''storySlug'' ns\<rparr>"

definition display_of :: "storyDisplay gomap \<Rightarrow> string \<Rightarrow> storyDisplay" where
  "display_of m k = (case gm_get m k of None \<Rightarrow> \<lparr>sd_Page = None, sd_Slug = None\<rparr> | Some d \<Rightarrow> d)"

fun merge_display :: "source_env \<Rightarrow> heldSourceStory list \<Rightarrow> storyDisplay gomap \<Rightarrow> storyDisplay gomap result" where
  "merge_display se [] m = Inr m"
| "merge_display se (st # sts) m =
     (case se_children se (hs_Raw st) of
        Inl e \<Rightarrow> Inl e
      | Inr ns \<Rightarrow>
          let body = read_display ns; prior = display_of m (hs_ID st) in
          merge_display se sts (gm_set (hs_ID st)
            \<lparr>sd_Page = (if sd_Page body \<noteq> None then sd_Page body else sd_Page prior),
             sd_Slug = (if sd_Slug body \<noteq> None then sd_Slug body else sd_Slug prior)\<rparr> m))"

definition sourceStoryDisplay :: "source_env \<Rightarrow> sourceState \<Rightarrow> storyDisplay gomap result" where
  "sourceStoryDisplay se state =
     (case se_children se (src_RawRoster state) of
        Inl e \<Rightarrow> Inl e
      | Inr ns \<Rightarrow> merge_display se (src_Stories state)
          (fold (\<lambda>x m. gm_set (field ''storyID'' (el_children x)) (read_display (el_children x)) m)
             (children_named ''story'' ns) []))"

section \<open>Reading and revising the retained state\<close>

type_synonym checkpoint = "(sourceState, SourceSnapshot) SourceCheckpoint"

definition readSourceState :: "sourceState option \<Rightarrow> sourceState result" where
  "readSourceState raw = (case raw of
      None \<Rightarrow> Inr zero_sourceState
    | Some state \<Rightarrow> if src_NextCue state > MaxSourceRevision then Inl (Errorf ''retained source state exceeds bounds'')
        else Inr state)"

text \<open>The problem after the loop over the stories; the last ambiguous story wins over a stale one.\<close>

definition source_problem :: "sourceState \<Rightarrow> string" where
  "source_problem state =
     fold (\<lambda>st p. if \<not> hs_Fresh st \<or> hs_Ambiguous st
             then (if hs_Ambiguous st then ''anonymous_cue_identity_unresolved''
                   else if p = [] then ''fresh_story_bodies_required'' else p)
             else p)
       (src_Stories state) (if src_RosterFresh state then [] else ''fresh_roster_required'')"

definition source_complete :: "sourceState \<Rightarrow> bool" where
  "source_complete state \<longleftrightarrow> src_RosterFresh state \<and> list_all (\<lambda>st. hs_Fresh st \<and> \<not> hs_Ambiguous st) (src_Stories state)"

definition project_stories :: "storyDisplay gomap \<Rightarrow> sourceState \<Rightarrow> SourceStory list" where
  "project_stories display state = map (\<lambda>st. let d = display_of display (hs_ID st) in
     \<lparr>sst_ID = hs_ID st, sst_Page = sd_Page d, sst_Slug = sd_Slug d, sst_Occurrences = hs_Occurrences st\<rparr>) (src_Stories state)"

definition projection :: "source_env \<Rightarrow> bool \<Rightarrow> sourceState \<Rightarrow> SourceSnapshot \<Rightarrow> SourceSnapshot result" where
  "projection se extended state snapshot =
     (if source_complete state \<and> src_Active state then
        (case (if extended then sourceStoryDisplay se state else Inr []) of
           Inl e \<Rightarrow> Inl e
         | Inr display \<Rightarrow> Inr (snapshot\<lparr>sn_Stories := project_stories display state\<rparr>))
      else Inr snapshot)"

text \<open>A snapshot outside the receiver's limits becomes a visible incomplete one; the retained state stays.\<close>

definition seal :: "source_env \<Rightarrow> checkpoint \<Rightarrow> sourceState \<Rightarrow> SourceSnapshot \<Rightarrow> checkpoint result" where
  "seal se cp state snapshot =
     (case marshalSource se snapshot of
        Inr pending \<Rightarrow> Inr (cp\<lparr>cp_Revision := sn_Revision snapshot, cp_State := Some state, cp_Pending := Some pending\<rparr>)
      | Inl _ \<Rightarrow>
          (let snapshot = snapshot\<lparr>sn_Complete := False, sn_Stories := [], sn_Metadata := None\<rparr> in
           case marshalSource se snapshot of
             Inl e \<Rightarrow> Inl e
           | Inr pending \<Rightarrow> Inr (cp\<lparr>cp_Revision := sn_Revision snapshot,
               cp_State := Some (state\<lparr>src_Problem := ''source_projection_outside_limits''\<rparr>),
               cp_Pending := Some pending\<rparr>)))"

definition revise :: "source_env \<Rightarrow> SourceBinding \<Rightarrow> bool \<Rightarrow> checkpoint \<Rightarrow> sourceState \<Rightarrow> checkpoint result" where
  "revise se b extended cp state =
     (if cp_Revision cp = MaxSourceRevision then Inl (Errorf ''source revision exhausted; reset is unsupported'')
      else
        let state = state\<lparr>src_Problem := source_problem state\<rparr>;
            snapshot = \<lparr>sn_Version = wire_version b, sn_SourceID = bnd_SourceID b, sn_RundownID = bnd_RundownID b,
              sn_Revision = cp_Revision cp + 1, sn_Active = src_Active state, sn_Complete = source_complete state,
              sn_Metadata = src_RunMetadata state, sn_Stories = []\<rparr>
        in case projection se extended state snapshot of Inl e \<Rightarrow> Inl e | Inr snapshot \<Rightarrow> seal se cp state snapshot)"

section \<open>Cue identities\<close>

definition cueSelector :: "SourceOccurrence \<Rightarrow> string \<times> string \<times> string" where
  "cueSelector x = (let value = (\<lambda>v. case v of None \<Rightarrow> [] | Some s \<Rightarrow> s) in
     (occ_CueType x, value (occ_Verb x), value (occ_Target x)))"

fun same_cues :: "(string \<times> string \<times> string) list \<Rightarrow> bool \<Rightarrow> bool \<Rightarrow> SourceOccurrence list \<Rightarrow> SourceOccurrence list \<Rightarrow> bool" where
  "same_cues seen unique unchanged (a # as) (b # bs) =
     (let selector = cueSelector a in
      if occ_ID a = [] \<or> selector \<noteq> cueSelector b then False
      else same_cues (selector # seen) (unique \<and> selector \<notin> set seen) (unchanged \<and> a = b\<lparr>occ_ID := occ_ID a\<rparr>) as bs)"
| "same_cues seen unique unchanged [] [] = (unique \<or> unchanged)"
| "same_cues seen unique unchanged _ _ = False"

definition sameCueRegion :: "SourceOccurrence list \<Rightarrow> SourceOccurrence list \<Rightarrow> bool" where
  "sameCueRegion old next \<longleftrightarrow> same_cues [] True True old next"

text \<open>The cues before the first item, then each item with the cues behind it.\<close>

definition is_item :: "SourceOccurrence \<Rightarrow> bool" where
  "is_item x \<longleftrightarrow> occ_Kind x = ''mos_item''"

fun cue_regions :: "SourceOccurrence list \<Rightarrow> SourceOccurrence list \<times> (SourceOccurrence \<times> SourceOccurrence list) list" where
  "cue_regions [] = ([], [])"
| "cue_regions (x # xs) =
     (let (lead, rest) = cue_regions xs in if is_item x then ([], (x, lead) # rest) else (x # lead, rest))"

definition join_regions :: "SourceOccurrence list \<times> (SourceOccurrence \<times> SourceOccurrence list) list \<Rightarrow> SourceOccurrence list" where
  "join_regions r = fst r @ concat (map (\<lambda>(x, cs). x # cs) (snd r))"

definition copy_region :: "SourceOccurrence list \<Rightarrow> SourceOccurrence list \<Rightarrow> SourceOccurrence list" where
  "copy_region old next =
     (if sameCueRegion old next then map2 (\<lambda>a b. b\<lparr>occ_ID := occ_ID a\<rparr>) old next else next)"

definition retainCueIDs :: "SourceOccurrence list \<Rightarrow> SourceOccurrence list \<Rightarrow> SourceOccurrence list" where
  "retainCueIDs old next =
     (let (la, ra) = cue_regions old; (lb, rb) = cue_regions next in
      if map (occ_ID \<circ> fst) ra \<noteq> map (occ_ID \<circ> fst) rb then next
      else join_regions (copy_region la lb, map2 (\<lambda>(x, as) (y, bs). (y, copy_region as bs)) ra rb))"

text \<open>The allocation loop; it ends because the counter is bounded.\<close>

definition cue_id :: "nat \<Rightarrow> string" where
  "cue_id n = ''cue:'' @ FormatInt (int n)"

function next_cue :: "nat \<Rightarrow> string list \<Rightarrow> (nat \<times> string) result" where
  "next_cue n ids =
     (if MaxSourceRevision \<le> n then Inl (Errorf ''anonymous cue identity exhausted'')
      else if cue_id (n + 1) \<notin> set ids then Inr (n + 1, cue_id (n + 1))
      else next_cue (n + 1) ids)"
  by pat_completeness auto
termination by (relation "measure (\<lambda>(n, ids). MaxSourceRevision - n)") auto

declare next_cue.simps [simp del]

fun allocate_cues :: "nat \<Rightarrow> string list \<Rightarrow> SourceOccurrence list \<Rightarrow> (nat \<times> SourceOccurrence list) result" where
  "allocate_cues n ids [] = Inr (n, [])"
| "allocate_cues n ids (x # xs) =
     (if occ_ID x \<noteq> [] then
        (case allocate_cues n ids xs of Inl e \<Rightarrow> Inl e | Inr (n, ys) \<Rightarrow> Inr (n, x # ys))
      else case next_cue n ids of
        Inl e \<Rightarrow> Inl e
      | Inr (n, i) \<Rightarrow>
          (case allocate_cues n (i # ids) xs of Inl e \<Rightarrow> Inl e | Inr (n, ys) \<Rightarrow> Inr (n, x\<lparr>occ_ID := i\<rparr> # ys)))"

section \<open>Occurrences of a body\<close>

definition item_occurrence :: "SourceItem \<Rightarrow> SourceOccurrence" where
  "item_occurrence i = zero_SourceOccurrence\<lparr>occ_ID := src_ID i, occ_Kind := ''mos_item'', occ_MosID := src_MosID i,
     occ_ObjectID := src_ObjectID i, occ_ObjectType := src_ObjectType i, occ_Label := src_Label i,
     occ_Abstract := src_Abstract i, occ_ItemEdDur := src_ItemEdDur i, occ_ObjDur := src_ObjDur i,
     occ_ObjTB := src_ObjTB i, occ_Metadata := src_Metadata i, occ_Media := src_Media i\<rparr>"

text \<open>
  \<open>cue.Fields != nil\<close>. \<open>parseCommand\<close> allocates the slice for a routed command and for a command with a
  backslash; the first may leave it empty.
\<close>

definition fields_allocated :: "BodyCue \<Rightarrow> bool" where
  "fields_allocated c \<longleftrightarrow> bc_Fields c \<noteq> [] \<or> bc_Kind c \<noteq> CuePrompter \<and>
     (case cut_char CHR '':'' (TrimSpace (hd (split_char newline (bc_Raw c)))) of
        (verb, _, found) \<Rightarrow> found \<and> EqualFold_word (TrimSpace verb) ''AUTOMATION'')"

definition cue_occurrence :: "BodyCue \<Rightarrow> SourceOccurrence" where
  "cue_occurrence c = zero_SourceOccurrence\<lparr>occ_Kind := ''cue'', occ_CueType := bc_Kind c, occ_Raw := Some (bc_Raw c),
     occ_Verb := (if bc_Verb c \<noteq> [] then Some (bc_Verb c) else None),
     occ_Target := (if bc_Target c \<noteq> [] \<or> fields_allocated c \<or> bc_Kind c = CuePrompter then Some (bc_Target c) else None),
     occ_Fields := (if fields_allocated c then Some (bc_Fields c) else None),
     occ_Params := (if bc_Params c \<noteq> [] then Some (bc_Params c) else None)\<rparr>"

text \<open>\<open>OrderedSource\<close> has validated every item, so each has its source.\<close>

fun body_occurrences :: "string list \<Rightarrow> SourceElement list \<Rightarrow> SourceOccurrence list result" where
  "body_occurrences ids [] = Inr []"
| "body_occurrences ids (SItem item # els) =
     (case ii_Source item of
        None \<Rightarrow> Inl (Errorf ''item source is unavailable'')
      | Some i \<Rightarrow>
          if src_ID i = [] \<or> src_ID i \<in> set ids then Inl (Errorf ''source body item identity is invalid or repeated'')
          else case body_occurrences (src_ID i # ids) els of Inl e \<Rightarrow> Inl e | Inr xs \<Rightarrow> Inr (item_occurrence i # xs))"
| "body_occurrences ids (SCue c # els) =
     (case body_occurrences ids els of Inl e \<Rightarrow> Inl e | Inr xs \<Rightarrow> Inr (cue_occurrence c # xs))"

text \<open>The occurrences with their identities, and the counter behind them.\<close>

definition identify :: "heldSourceStory \<Rightarrow> nat \<Rightarrow> SourceOccurrence list \<Rightarrow> (nat \<times> SourceOccurrence list) result" where
  "identify held n xs =
     (let xs = (if hs_Ambiguous held then xs else retainCueIDs (hs_Occurrences held) xs) in
      allocate_cues n (filter (\<lambda>i. i \<noteq> []) (map occ_ID xs)) xs)"

section \<open>Applying a message to the staged service\<close>

definition RundownSourceMetadata :: "source_env \<Rightarrow> string \<Rightarrow> string list result" where
  "RundownSourceMetadata se raw = (case se_children se raw of
      Inl e \<Rightarrow> Inl e
    | Inr ns \<Rightarrow> Inr (map el_raw (filter (\<lambda>x. el_name x = ''mosExternalMetadata'') (sourceChildren ns))))"

definition held_for :: "heldSourceStory list \<Rightarrow> string \<Rightarrow> heldSourceStory" where
  "held_for old k = (case List.find (\<lambda>st. hs_ID st = k) old of
      Some st \<Rightarrow> st\<lparr>hs_Fresh := False\<rparr>
    | None \<Rightarrow> \<lparr>hs_ID = k, hs_Fresh = False, hs_Ambiguous = False, hs_Occurrences = [], hs_Raw = []\<rparr>)"

fun validate_items :: "ItemInfo list \<Rightarrow> unit result" where
  "validate_items [] = Inr ()"
| "validate_items (i # is) =
     (case (if ii_Source i \<noteq> None then SourceItem_Validate (ii_Source i) else Inr ()) of
        Inl e \<Rightarrow> Inl e | Inr _ \<Rightarrow> validate_items is)"

fun roster_stories :: "heldSourceStory list \<Rightarrow> string list \<Rightarrow> StoryInfo list \<Rightarrow> heldSourceStory list result" where
  "roster_stories old seen [] = Inr []"
| "roster_stories old seen (st # sts) =
     (if si_ID st = [] \<or> si_ID st \<in> set seen then Inl (Errorf ''invalid or duplicate source story identity'')
      else case validate_items (si_Items st) of
        Inl e \<Rightarrow> Inl e
      | Inr _ \<Rightarrow>
          (case roster_stories old (si_ID st # seen) sts of
             Inl e \<Rightarrow> Inl e | Inr hs \<Rightarrow> Inr (held_for old (si_ID st) # hs)))"

definition applyRoster ::
    "source_env \<Rightarrow> SourceBinding \<Rightarrow> sourceState \<Rightarrow> ROReplace \<Rightarrow> string \<Rightarrow> sourceState svc_op" where
  "applyRoster se b state roster raw =
     op_bind (op_check (roster_stories (src_Stories state) [] (ror_Stories roster))) (\<lambda>stories.
     op_bind (ReplaceRunningOrder (se_go se) roster) (\<lambda>_.
     op_bind (ro_Get (ror_ID roster)) (\<lambda>ro.
     op_bind (ro_Update (ro\<lparr>ro_MosID := bnd_MosID b\<rparr>)) (\<lambda>_.
     op_return (state\<lparr>src_Active := True, src_RosterFresh := True, src_Stories := stories, src_RawRoster := raw\<rparr>)))))"

definition source_cues :: "SourceElement list \<Rightarrow> StoryCue list" where
  "source_cues els = concat (map (\<lambda>(i, el). case el of
      SItem _ \<Rightarrow> []
    | SCue c \<Rightarrow> [\<lparr>cue_Kind = bc_Kind c, cue_Raw = bc_Raw c, cue_Verb = bc_Verb c, cue_Target = bc_Target c,
        cue_Fields = bc_Fields c, cue_Params = bc_Params c, cue_Order = int i, cue_Paragraph = bc_Paragraph c\<rparr>])
    (enumerate 0 els))"

text \<open>The position of each explicit item; a later occurrence of the same identity would win.\<close>

definition item_positions :: "SourceOccurrence list \<Rightarrow> int gomap" where
  "item_positions xs = rev (map (\<lambda>(i, x). (occ_ID x, int i + 1)) (filter (\<lambda>(i, x). is_item x) (enumerate 0 xs)))"

definition place_item :: "int gomap \<Rightarrow> Item \<Rightarrow> unit svc_op" where
  "place_item order it = (case gm_get order (item_RawID it) of
      None \<Rightarrow> item_Delete (item_ID it)
    | Some position \<Rightarrow> item_Update (it\<lparr>item_Order := position\<rparr>))"

fun story_index :: "nat \<Rightarrow> string \<Rightarrow> heldSourceStory list \<Rightarrow> nat option" where
  "story_index i k [] = None"
| "story_index i k (st # sts) = (if hs_ID st = k then Some i else story_index (Suc i) k sts)"

definition applyBody :: "source_env \<Rightarrow> sourceState \<Rightarrow> ROStorySend \<Rightarrow> string \<Rightarrow> sourceState svc_op" where
  "applyBody se state body raw =
     (if \<not> src_Active state \<or> \<not> src_RosterFresh state \<or> sb_XMLName (rss_StoryBody body) \<noteq> ''storyBody''
      then op_fail (Errorf ''fresh roster and explicit story body are required'')
      else case story_index 0 (rss_StoryID body) (src_Stories state) of
        None \<Rightarrow> op_fail (Errorf ''story is absent from the current source roster'')
      | Some index \<Rightarrow>
        (let held = src_Stories state ! index; storyID = storyPersistenceID (rss_ROID body) (rss_StoryID body) in
         op_bind (op_check (OrderedSource (se_go se) (rss_StoryBody body))) (\<lambda>elements.
         op_bind (op_check (body_occurrences [] elements)) (\<lambda>occurrences.
         op_bind (op_check (identify held (src_NextCue state) occurrences)) (\<lambda>(next, occurrences).
         op_bind (item_List storyID) (\<lambda>previousItems.
         op_bind (op_foreach (\<lambda>it. item_Delete (item_ID it)) previousItems) (\<lambda>_.
         op_bind (ProcessROStorySend (se_go se) body) (\<lambda>_.
         op_bind (item_List storyID) (\<lambda>items.
         op_bind (op_foreach (place_item (item_positions occurrences)) items) (\<lambda>_.
         op_bind (story_Get storyID) (\<lambda>story.
         op_bind (story_Update (story\<lparr>story_Cues := source_cues elements\<rparr>)) (\<lambda>_.
         op_return (state\<lparr>src_NextCue := next,
           src_Stories := (src_Stories state)[index := held\<lparr>hs_Fresh := True, hs_Ambiguous := False,
             hs_Occurrences := occurrences, hs_Raw := raw\<rparr>]\<rparr>)))))))))))))"

definition roster_of :: "string \<Rightarrow> string \<Rightarrow> string \<Rightarrow> string \<Rightarrow> StoryInfo list \<Rightarrow> MosExternalMetadata list \<Rightarrow> ROReplace" where
  "roster_of i slug channel dur stories meta = \<lparr>ror_RequestID = [], ror_Timestamp = [], ror_Source = [], ror_ID = i,
     ror_Slug = slug, ror_Channel = channel, ror_EdStart = [], ror_EdDur = dur, ror_Trigger = [], ror_MacroIn = [],
     ror_MacroOut = [], ror_MosExternalMetadata = meta, ror_Stories = stories\<rparr>"

definition carries_metadata :: "svc_message \<Rightarrow> bool" where
  "carries_metadata m = (case m of RoCreate _ _ \<Rightarrow> True | RoReplace _ \<Rightarrow> True | RoList _ _ \<Rightarrow> True
     | RoMetadataReplace _ \<Rightarrow> True | _ \<Rightarrow> False)"

definition apply_kind :: "source_env \<Rightarrow> SourceBinding \<Rightarrow> sourceState \<Rightarrow> svc_message \<Rightarrow> string \<Rightarrow> sourceState svc_op" where
  "apply_kind se b state msg raw = (case msg of
      RoCreate m _ \<Rightarrow> applyRoster se b state (roster_of (roi_ID m) (roi_Slug m) (roi_Channel m) (roi_Duration m)
        (roi_Stories m) (roi_MosExternalMetadata m)) raw
    | RoReplace m \<Rightarrow> applyRoster se b state m raw
    | RoList m _ \<Rightarrow> applyRoster se b state (roster_of (rol_ID m) (rol_Slug m) (rol_Channel m) (rol_EdDur m)
        (rol_Stories m) (rol_MosExternalMetadata m)) raw
    | RoDelete k \<Rightarrow> op_bind (DeleteRunningOrder k) (\<lambda>_. op_return (state\<lparr>src_Active := False, src_RosterFresh := True,
        src_Stories := [], src_RawRoster := raw, src_RunMetadata := Some []\<rparr>))
    | RoStorySend m \<Rightarrow> applyBody se state m raw
    | RoReadyToAir k air \<Rightarrow> op_bind (SetReadyToAir (se_go se) k air) (\<lambda>_. op_return state)
    | RoMetadataReplace m \<Rightarrow> op_bind (ReplaceMetadata (se_go se) m) (\<lambda>_. op_return state)
    | RoElementStat m \<Rightarrow> op_bind (ProcessElementStatus (se_go se) m) (\<lambda>_. op_return state)
    | _ \<Rightarrow> op_fail (Errorf ''source-affecting operation is unsupported; full recovery is required''))"

definition applyMessage :: "source_env \<Rightarrow> SourceBinding \<Rightarrow> sourceState \<Rightarrow> svc_message \<Rightarrow> string \<Rightarrow> sourceState svc_op" where
  "applyMessage se b state msg raw =
     (if carries_metadata msg then
        op_bind (op_check (RundownSourceMetadata se raw)) (\<lambda>metadata.
        apply_kind se b (state\<lparr>src_RunMetadata := Some metadata\<rparr>) msg raw)
      else apply_kind se b state msg raw)"

end
