(* ===== verification/Source.thy ===== *)
theory Source
  imports SourceState
begin

text \<open>
  The committed source (\<open>src/internal/service/source.go\<close>, \<open>source_publisher.go\<close>): one rundown with one
  durable revision stream. Sessions own the coverage; a message commits content, revision, pending snapshot
  and rendered reply together; the publisher marks the revision a receiver accepted.

  The source holds its store and the checkpoint file. Time is an argument, and so is how each commit ends:
  whether the context was cancelled and how writing the file went. The mutex makes every operation one step;
  a delivery releases it while the receiver answers, so it is two steps. Deliveries of the version 2
  protocol (\<open>source_sync.go\<close>) enter as their outcome.
\<close>

section \<open>Data\<close>

record CommittedSource =
  cs_store :: "(sourceState, SourceSnapshot) Durable"
  cs_file :: "(sourceState, SourceSnapshot) checkpointFile disk"
  cs_binding :: SourceBinding
  cs_timeout :: time
  cs_sessions :: "time gomap"
  cs_owners :: "string gomap"
  cs_wake :: bool
  cs_extended :: bool

record SourceInput =
  in_Transport :: string
  in_Scope :: string
  in_NCSID :: string
  in_MessageID :: string
  in_Session :: string
  in_Content :: string

record SourceResult =
  sr_Reply :: string
  sr_Recover :: bool
  sr_Applied :: bool

definition zero_SourceResult :: SourceResult where
  "zero_SourceResult = \<lparr>sr_Reply = [], sr_Recover = False, sr_Applied = False\<rparr>"

type_synonym commit_io = "bool \<times> save_outcome"
type_synonym 'a source_stage = "(sourceState, SourceSnapshot, 'a) stage"

definition source_codec :: "source_env \<Rightarrow> (sourceState, SourceSnapshot) codec" where
  "source_codec se = \<lparr>pending_version = sn_Version, pending_sourceID = sn_SourceID, pending_rundownID = sn_RundownID,
     pending_revision = sn_Revision, pending_size = se_json_length se, file_digest = se_digest se\<rparr>"

definition errSourceHalted :: go_error where
  "errSourceHalted = Errorf ''source halted after a receiver revision conflict; recovery is unsupported''"

section \<open>Commits of the source\<close>

definition commit_source :: "source_env \<Rightarrow> commit_io \<Rightarrow> 'a source_stage \<Rightarrow> CommittedSource \<Rightarrow> 'a result \<times> CommittedSource" where
  "commit_source se io stage s =
     (case Commit (source_codec se) (fst io) (snd io) stage (cs_store s, cs_file s) of
        (r, d, f) \<Rightarrow> (r, s\<lparr>cs_store := d, cs_file := f\<rparr>))"

definition notify :: "CommittedSource \<Rightarrow> CommittedSource" where
  "notify s = s\<lparr>cs_wake := True\<rparr>"

definition stale :: "sourceState \<Rightarrow> sourceState" where
  "stale state = state\<lparr>src_RosterFresh := False, src_Stories := map (\<lambda>st. st\<lparr>hs_Fresh := False\<rparr>) (src_Stories state)\<rparr>"

definition invalidate_stage :: "source_env \<Rightarrow> CommittedSource \<Rightarrow> unit source_stage" where
  "invalidate_stage se s cp = op_check (case readSourceState (cp_State cp) of
      Inl e \<Rightarrow> Inl e
    | Inr state \<Rightarrow> if src_Halted state then Inl errSourceHalted
        else map_sum id (Pair ()) (revise se (cs_binding s) (cs_extended s) cp (stale state)))"

definition invalidate :: "source_env \<Rightarrow> commit_io \<Rightarrow> CommittedSource \<Rightarrow> unit result \<times> CommittedSource" where
  "invalidate se io s =
     (case commit_source se io (invalidate_stage se s) s of
        (Inl e, s) \<Rightarrow> (Inl e, s) | (Inr x, s) \<Rightarrow> (Inr x, notify s))"

definition halt_stage :: "unit source_stage" where
  "halt_stage cp = op_check (case readSourceState (cp_State cp) of
      Inl e \<Rightarrow> Inl e
    | Inr state \<Rightarrow> Inr ((), cp\<lparr>cp_State := Some (state\<lparr>src_Halted := True, src_Problem := ''receiver_revision_conflict''\<rparr>)\<rparr>))"

definition halt :: "source_env \<Rightarrow> commit_io \<Rightarrow> CommittedSource \<Rightarrow> unit result \<times> CommittedSource" where
  "halt se io s = commit_source se io halt_stage s"

section \<open>Binding and construction\<close>

record parsed_url =
  url_Scheme :: string
  url_loopback :: bool
  url_user :: bool
  url_RawQuery :: string
  url_Fragment :: string
  url_Path :: string
  url_RawPath :: string

definition ValidateSourceSetBinding :: "(string \<Rightarrow> parsed_url option) \<Rightarrow> SourceBinding \<Rightarrow> unit result" where
  "ValidateSourceSetBinding url_Parse b =
     (if \<not> sourceText (bnd_SourceID b) 512 True \<or> \<not> sourceText (bnd_MosID b) 512 True \<or> \<not> sourceText (bnd_NCSID b) 512 True
      then Inl (Errorf ''committed source requires bounded source and peer identities'')
      else if bnd_Transport b \<notin> {''tcp'', ''ws-server'', ''ws-client''}
      then Inl (Errorf ''source transport must be tcp, ws-server or ws-client'')
      else case url_Parse (bnd_Destination b) of
        None \<Rightarrow> Inl (Errorf ''invalid source destination'')
      | Some u \<Rightarrow>
          if url_Scheme u \<noteq> ''http'' \<or> \<not> url_loopback u \<or> url_user u \<or> url_RawQuery u \<noteq> [] \<or> url_Fragment u \<noteq> []
            \<or> (url_Path u \<noteq> ''/v1/openmos-snapshots'' \<and> url_Path u \<noteq> ''/v2/source-sync'') \<or> url_RawPath u \<noteq> []
          then Inl (Errorf ''source destination must be numeric loopback HTTP at /v1/openmos-snapshots or /v2/source-sync'')
          else Inr ())"

definition ValidateSourceBinding :: "(string \<Rightarrow> parsed_url option) \<Rightarrow> SourceBinding \<Rightarrow> unit result" where
  "ValidateSourceBinding url_Parse b =
     (if \<not> sourceText (bnd_RundownID b) 512 True then Inl (Errorf ''committed source requires a bounded rundown identity'')
      else ValidateSourceSetBinding url_Parse b)"

definition newCommittedSource ::
    "source_env \<Rightarrow> commit_io \<Rightarrow> (string \<Rightarrow> parsed_url option) \<Rightarrow> (sourceState, SourceSnapshot) Durable \<Rightarrow>
     (sourceState, SourceSnapshot) checkpointFile disk \<Rightarrow> SourceBinding \<Rightarrow> string \<Rightarrow> time \<Rightarrow> bool \<Rightarrow> CommittedSource result" where
  "newCommittedSource se io url_Parse store f b token timeout catalogue =
     (case ValidateSourceBinding url_Parse b of
        Inl e \<Rightarrow> Inl e
      | Inr _ \<Rightarrow>
          if token = [] \<or> CHR 0x0D \<in> set token \<or> CHR 0x0A \<in> set token \<or> timeout \<le> 0
          then Inl (Errorf ''source credential and positive peer timeout are required'')
          else
            (let s = \<lparr>cs_store = store, cs_file = f, cs_binding = b, cs_timeout = timeout, cs_sessions = [], cs_owners = [],
               cs_wake = False, cs_extended = catalogue\<rparr> in
             case invalidate se io s of
               (Inr _, s) \<Rightarrow> Inr s
             | (Inl e, s) \<Rightarrow> if catalogue \<and> e = errSourceHalted then Inr s else Inl e))"

section \<open>Sessions\<close>

definition releaseSession :: "string \<Rightarrow> CommittedSource \<Rightarrow> bool \<times> CommittedSource" where
  "releaseSession session s =
     (session \<in> set (gm_values (cs_owners s)), s\<lparr>cs_owners := filter (\<lambda>(scope, owner). owner \<noteq> session) (cs_owners s)\<rparr>)"

definition Observe :: "source_env \<Rightarrow> commit_io \<Rightarrow> time \<Rightarrow> SourceInput \<Rightarrow> CommittedSource \<Rightarrow> unit result \<times> CommittedSource" where
  "Observe se io t input s =
     (let owner = gm_string (cs_owners s) (in_Scope input); last = gm_get (cs_sessions s) (in_Session input) in
      if in_Transport input \<noteq> bnd_Transport (cs_binding s) then (Inr (), s)
      else if in_NCSID input \<noteq> bnd_NCSID (cs_binding s) then
        (if in_Session input \<noteq> [] \<and> owner = in_Session input then invalidate se io s else (Inr (), s))
      else if in_Session input = [] then (Inl (Errorf ''source session identity is required''), s)
      else if last \<noteq> None \<and> owner \<noteq> in_Session input then (Inl (Errorf ''source connection has been superseded''), s)
      else if (case last of None \<Rightarrow> True | Some l \<Rightarrow> t - l > cs_timeout s) then
        (case invalidate se io s of
           (Inl e, s) \<Rightarrow> (Inl e, s)
         | (Inr _, s) \<Rightarrow> (Inr (), s\<lparr>cs_owners := gm_set (in_Scope input) (in_Session input) (cs_owners s),
             cs_sessions := gm_set (in_Session input) t (cs_sessions s)\<rparr>))
      else (Inr (), s\<lparr>cs_sessions := gm_set (in_Session input) t (cs_sessions s)\<rparr>))"

definition RefreshSession :: "time \<Rightarrow> string \<Rightarrow> CommittedSource \<Rightarrow> CommittedSource" where
  "RefreshSession t session s = (case gm_get (cs_sessions s) session of
      None \<Rightarrow> s
    | Some seen \<Rightarrow>
        if t - seen > cs_timeout s then s
        else if session \<in> set (gm_values (cs_owners s)) then s\<lparr>cs_sessions := gm_set session t (cs_sessions s)\<rparr>
        else s)"

definition Disconnected :: "source_env \<Rightarrow> commit_io \<Rightarrow> string \<Rightarrow> CommittedSource \<Rightarrow> CommittedSource" where
  "Disconnected se io session s =
     (if gm_get (cs_sessions s) session = None then s
      else case releaseSession session (s\<lparr>cs_sessions := gm_delete session (cs_sessions s)\<rparr>) of
        (released, s) \<Rightarrow> if released then snd (invalidate se io s) else s)"

definition Uncertain :: "source_env \<Rightarrow> commit_io \<Rightarrow> string \<Rightarrow> CommittedSource \<Rightarrow> CommittedSource" where
  "Uncertain se io session s =
     (if session \<in> set (gm_values (cs_owners s)) then snd (invalidate se io s) else s)"

section \<open>Messages\<close>

definition SourceMessage :: "svc_message \<Rightarrow> bool" where
  "SourceMessage m = (case m of MosObject _ \<Rightarrow> False | MosObjectCreate _ \<Rightarrow> False | _ \<Rightarrow> True)"

definition SourceRundown :: "svc_message \<Rightarrow> string" where
  "SourceRundown m = (case m of
      RoCreate i _ \<Rightarrow> roi_ID i
    | RoReplace r \<Rightarrow> ror_ID r
    | RoList l _ \<Rightarrow> rol_ID l
    | RoDelete k \<Rightarrow> k
    | RoStorySend r \<Rightarrow> rss_ROID r
    | RoReadyToAir k _ \<Rightarrow> k
    | RoMetadataReplace r \<Rightarrow> rmr_ID r
    | RoElementAction r \<Rightarrow> rea_ROID r
    | RoElementStat r \<Rightarrow> res_ROID r
    | RoCtrl r \<Rightarrow> rc_ROID r
    | RoItemCue r \<Rightarrow> ric_ROID r
    | NcsReqStoryAction r \<Rightarrow> rss_ROID (nrsa_ROStorySend r)
    | RoReqStoryAction r \<Rightarrow> sab_ROID (rrsa_StoryAction r)
    | MosItemReplacement r \<Rightarrow> mir_ROID r
    | _ \<Rightarrow> [])"

definition silent :: "svc_message \<Rightarrow> bool" where
  "silent m = (case m of RoList _ _ \<Rightarrow> True | _ \<Rightarrow> False)"

text \<open>\<open>render\<close> is the transport's encoding of a \<open>roAck\<close> for a running order with a status.\<close>

definition source_respond :: "(string \<Rightarrow> string \<Rightarrow> string result) \<Rightarrow> svc_message \<Rightarrow> string \<Rightarrow> string result" where
  "source_respond render msg status = (if silent msg then Inr [] else render (SourceRundown msg) status)"

definition rememberSource :: "SourceInput \<Rightarrow> string \<Rightarrow> string \<Rightarrow> checkpoint \<Rightarrow> checkpoint" where
  "rememberSource input hash reply cp =
     (if in_MessageID input = [] then cp
      else cp\<lparr>cp_Receipts := cp_Receipts cp @ [\<lparr>rcp_Scope = in_Scope input, rcp_NCSID = in_NCSID input,
        rcp_MessageID = in_MessageID input, rcp_Hash = hash, rcp_Response = reply\<rparr>]\<rparr>)"

definition matching_receipt :: "SourceInput \<Rightarrow> svc_message \<Rightarrow> InputReceipt \<Rightarrow> bool" where
  "matching_receipt input msg r \<longleftrightarrow> rcp_Scope r = in_Scope input \<and> rcp_NCSID r = in_NCSID input
     \<and> rcp_MessageID r = in_MessageID input \<and> (rcp_Response r = []) = silent msg"

definition outside_binding :: "SourceBinding \<Rightarrow> SourceInput \<Rightarrow> svc_message \<Rightarrow> bool" where
  "outside_binding b input msg \<longleftrightarrow> in_Transport input \<noteq> bnd_Transport b \<or> in_NCSID input \<noteq> bnd_NCSID b
     \<or> \<not> sourceText (in_Scope input) 512 True \<or> \<not> sourceText (in_MessageID input) (4 * 2 ^ 20) False
     \<or> in_Session input = [] \<or> in_Content input = [] \<or> length (in_Content input) > 6 * 2 ^ 20
     \<or> SourceRundown msg \<noteq> [] \<and> SourceRundown msg \<noteq> bnd_RundownID b"

definition apply_stage ::
    "source_env \<Rightarrow> CommittedSource \<Rightarrow> (string \<Rightarrow> string \<Rightarrow> string result) \<Rightarrow> SourceInput \<Rightarrow> svc_message \<Rightarrow> string source_stage" where
  "apply_stage se s render input msg cp =
     op_bind (op_check (readSourceState (cp_State cp))) (\<lambda>state.
     op_bind (applyMessage se (cs_binding s) state msg (in_Content input)) (\<lambda>state.
     op_bind (op_check (revise se (cs_binding s) (cs_extended s) cp state)) (\<lambda>cp.
     op_bind (op_check (source_respond render msg ''OK'')) (\<lambda>reply.
     op_return (reply, rememberSource input (se_sha256 se (in_Content input)) reply cp)))))"

definition refuse_stage ::
    "source_env \<Rightarrow> CommittedSource \<Rightarrow> SourceInput \<Rightarrow> bool \<Rightarrow> string \<Rightarrow> unit source_stage" where
  "refuse_stage se s input conflict reply cp =
     op_bind (op_check (readSourceState (cp_State cp))) (\<lambda>state.
     op_bind (op_check (revise se (cs_binding s) (cs_extended s) cp (stale state))) (\<lambda>cp.
     op_return ((), if conflict then cp else rememberSource input (se_sha256 se (in_Content input)) reply cp)))"

definition refuse_message ::
    "source_env \<Rightarrow> commit_io \<Rightarrow> (string \<Rightarrow> string \<Rightarrow> string result) \<Rightarrow> SourceInput \<Rightarrow> svc_message \<Rightarrow> bool \<Rightarrow> go_error \<Rightarrow>
     CommittedSource \<Rightarrow> (SourceResult \<times> go_error option) \<times> CommittedSource" where
  "refuse_message se io render input msg conflict er s =
     (case source_respond render msg ''NACK: committed source requires a fresh roster and complete bodies'' of
        Inl e \<Rightarrow> ((zero_SourceResult, Some e), s)
      | Inr reply \<Rightarrow>
          (let out = zero_SourceResult\<lparr>sr_Reply := reply\<rparr> in
           case commit_source se io (refuse_stage se s input conflict reply) s of
             (Inl e, s) \<Rightarrow> ((out, Some e), s)
           | (Inr _, s) \<Rightarrow> ((out\<lparr>sr_Recover := True\<rparr>, Some er), notify s)))"

definition answer_only :: "(string \<Rightarrow> string \<Rightarrow> string result) \<Rightarrow> svc_message \<Rightarrow> string \<Rightarrow> SourceResult \<times> go_error option" where
  "answer_only render msg status = (case source_respond render msg status of
      Inl e \<Rightarrow> (zero_SourceResult, Some e) | Inr reply \<Rightarrow> (zero_SourceResult\<lparr>sr_Reply := reply\<rparr>, None))"

definition Apply ::
    "source_env \<Rightarrow> commit_io \<Rightarrow> commit_io \<Rightarrow> (string \<Rightarrow> string \<Rightarrow> string result) \<Rightarrow> SourceInput \<Rightarrow> svc_message \<Rightarrow>
     CommittedSource \<Rightarrow> (SourceResult \<times> go_error option) \<times> CommittedSource" where
  "Apply se io io' render input msg s =
     (if outside_binding (cs_binding s) input msg
      then (answer_only render msg ''NACK: message is outside the committed source binding'', s)
      else if gm_get (cs_sessions s) (in_Session input) = None \<or> gm_string (cs_owners s) (in_Scope input) \<noteq> in_Session input
      then (answer_only render msg ''NACK: source connection has not been validated'', s)
      else case Checkpoint (cs_store s) of
        Inl e \<Rightarrow> ((fst (answer_only render msg ''NACK: committed source storage is unavailable''), Some e), s)
      | Inr cp \<Rightarrow>
      (case readSourceState (cp_State cp) of
        Inl e \<Rightarrow> ((zero_SourceResult, Some e), s)
      | Inr state \<Rightarrow>
          if src_Halted state
          then (answer_only render msg ''NACK: source is halted; automatic recovery is unsupported'', s)
          else
      (case (if in_MessageID input = [] then None else List.find (matching_receipt input msg) (cp_Receipts cp)) of
        Some receipt \<Rightarrow>
          if rcp_Hash receipt = se_sha256 se (in_Content input)
          then ((zero_SourceResult\<lparr>sr_Reply := rcp_Response receipt\<rparr>, None), s)
          else refuse_message se io' render input msg True (Errorf ''messageID conflict'') s
      | None \<Rightarrow>
          (case commit_source se io (apply_stage se s render input msg) s of
             (Inl e, s) \<Rightarrow> refuse_message se io' render input msg False e s
           | (Inr reply, s) \<Rightarrow> ((zero_SourceResult\<lparr>sr_Reply := reply, sr_Applied := True\<rparr>, None), notify s)))))"

section \<open>Delivery\<close>

text \<open>
  \<open>publishOnce\<close> up to the request: expired sessions are dropped, and the committed bytes are read without
  their receipts.
\<close>

definition expired_sessions :: "time \<Rightarrow> CommittedSource \<Rightarrow> string list" where
  "expired_sessions t s = map fst (filter (\<lambda>(session, seen). t - seen > cs_timeout s) (cs_sessions s))"

definition drop_sessions :: "string list \<Rightarrow> CommittedSource \<Rightarrow> bool \<times> CommittedSource" where
  "drop_sessions ks s = fold (\<lambda>k (expired, s).
      case releaseSession k (s\<lparr>cs_sessions := gm_delete k (cs_sessions s)\<rparr>) of (released, s) \<Rightarrow> (expired \<or> released, s))
    ks (False, s)"

definition publish_prepare :: "source_env \<Rightarrow> commit_io \<Rightarrow> time \<Rightarrow> CommittedSource \<Rightarrow> checkpoint result \<times> CommittedSource" where
  "publish_prepare se io t s =
     (case drop_sessions (expired_sessions t s) s of
        (expired, s) \<Rightarrow>
          (case (if expired then invalidate se io s else (Inr (), s)) of
             (Inl e, s) \<Rightarrow> (Inl e, s)
           | (Inr _, s) \<Rightarrow>
               ((case Delivery (cs_store s) of
                   Inl e \<Rightarrow> Inl e
                 | Inr cp \<Rightarrow> (case readSourceState (cp_State cp) of
                     Inl e \<Rightarrow> Inl e
                   | Inr state \<Rightarrow> if src_Halted state then Inl errSourceHalted else Inr cp)), s)))"

text \<open>How the exchange with the receiver ended; the receipt is the one of the version 1 protocol.\<close>

record delivery_receipt =
  dr_SourceID :: string
  dr_RundownID :: string
  dr_AcceptedRevision :: nat
  dr_Duplicate :: "bool option"
  dr_DestinationApplied :: "bool option"

datatype delivery = NotReached | RevisionConflict | BadStatus | BadReceipt | Receipt delivery_receipt | TransferDone | TransferPending

definition receipt_accepts :: "CommittedSource \<Rightarrow> checkpoint \<Rightarrow> delivery_receipt \<Rightarrow> unit result" where
  "receipt_accepts s cp r =
     (if dr_AcceptedRevision r \<noteq> cp_Revision cp \<or> dr_Duplicate r = None \<or> dr_DestinationApplied r \<noteq> Some False
      then Inl (Errorf ''receiver did not return a matching durable source receipt'')
      else if cs_extended s \<and> (dr_SourceID r \<noteq> bnd_SourceID (cs_binding s) \<or> dr_RundownID r \<noteq> bnd_RundownID (cs_binding s))
      then Inl (Errorf ''receiver receipt identifies a different source or rundown'')
      else Inr ())"

definition accept_stage :: "checkpoint \<Rightarrow> unit source_stage" where
  "accept_stage cp latest = op_check (Inr ((),
     if cp_Revision latest = cp_Revision cp \<and> cp_Pending latest = cp_Pending cp
     then latest\<lparr>cp_AcceptedRevision := cp_Revision cp\<rparr> else latest))"

definition record_accepted :: "source_env \<Rightarrow> commit_io \<Rightarrow> checkpoint \<Rightarrow> CommittedSource \<Rightarrow> unit result \<times> CommittedSource" where
  "record_accepted se io cp s =
     (case Checkpoint (cs_store s) of
        Inl e \<Rightarrow> (Inl e, s)
      | Inr current \<Rightarrow>
          if cp_Revision current \<noteq> cp_Revision cp \<or> cp_Pending current \<noteq> cp_Pending cp then (Inr (), notify s)
          else if cp_AcceptedRevision current = cp_Revision cp then (Inr (), s)
          else commit_source se io (accept_stage cp) s)"

text \<open>\<open>publishOnce\<close> from the receiver's answer on, for the checkpoint \<open>cp\<close> that was delivered.\<close>

definition publish_finish :: "source_env \<Rightarrow> commit_io \<Rightarrow> checkpoint \<Rightarrow> delivery \<Rightarrow> CommittedSource \<Rightarrow> unit result \<times> CommittedSource" where
  "publish_finish se io cp answer s = (case answer of
      NotReached \<Rightarrow> (Inl (Errorf ''loopback receiver request failed''), s)
    | RevisionConflict \<Rightarrow> (case halt se io s of (Inl e, s) \<Rightarrow> (Inl e, s) | (Inr _, s) \<Rightarrow> (Inl errSourceHalted, s))
    | BadStatus \<Rightarrow> (Inl (Errorf ''receiver returned an error status''), s)
    | BadReceipt \<Rightarrow> (Inl (Errorf ''receiver receipt is unavailable or exceeds its limit''), s)
    | TransferPending \<Rightarrow> (Inl (Errorf ''source transfer has more bounded work''), s)
    | TransferDone \<Rightarrow> record_accepted se io cp s
    | Receipt r \<Rightarrow> (case receipt_accepts s cp r of Inl e \<Rightarrow> (Inl e, s) | Inr _ \<Rightarrow> record_accepted se io cp s))"

end
