(* ===== verification/SourceIdentity.thy ===== *)
theory SourceIdentity
  imports SourceState
begin

text \<open>
  The identities of the occurrences of a story body: what \<open>retainCueIDs\<close> and the allocation loop of
  \<open>applyBody\<close> guarantee together.
\<close>

definition set_ids :: "SourceOccurrence list \<Rightarrow> string list" where
  "set_ids xs = filter (\<lambda>i. i \<noteq> []) (map occ_ID xs)"

lemma set_ids_simps [simp]: "set_ids [] = []" "set_ids (x # xs) = (if occ_ID x = [] then [] else [occ_ID x]) @ set_ids xs"
  "set_ids (xs @ ys) = set_ids xs @ set_ids ys"
  by (simp_all add: set_ids_def)

definition ids_ok :: "SourceOccurrence list \<Rightarrow> bool" where
  "ids_ok xs \<longleftrightarrow> distinct (map occ_ID xs) \<and> [] \<notin> set (map occ_ID xs)"

lemma ids_ok_set_ids: "[] \<notin> set (map occ_ID xs) \<Longrightarrow> set_ids xs = map occ_ID xs"
  by (induction xs) auto

section \<open>The occurrences of a body before identification\<close>

definition anonymous_cues :: "SourceOccurrence list \<Rightarrow> bool" where
  "anonymous_cues xs \<longleftrightarrow> (\<forall>x \<in> set xs. \<not> is_item x \<longrightarrow> occ_ID x = [])"

lemma item_occurrence_simps [simp]: "occ_ID (item_occurrence i) = src_ID i" "is_item (item_occurrence i)"
  by (simp_all add: item_occurrence_def is_item_def)

lemma cue_occurrence_simps [simp]: "occ_ID (cue_occurrence c) = []" "\<not> is_item (cue_occurrence c)"
  by (simp_all add: cue_occurrence_def is_item_def zero_SourceOccurrence_def)

lemma body_occurrences_ids:
  assumes "body_occurrences ids els = Inr xs"
  shows "anonymous_cues xs \<and> distinct (set_ids xs) \<and> set (set_ids xs) \<inter> set ids = {} \<and> (\<forall>x\<in>set xs. is_item x \<longrightarrow> occ_ID x \<noteq> [])"
  using assms
proof (induction ids els arbitrary: xs rule: body_occurrences.induct)
  case (2 ids item els)
  then show ?case by (fastforce simp: anonymous_cues_def split: option.splits if_splits sum.splits)
next
  case (3 ids c els)
  then show ?case by (fastforce simp: anonymous_cues_def split: sum.splits)
qed (simp add: anonymous_cues_def)

section \<open>Regions\<close>

lemma distinct_subseq: "subseq xs ys \<Longrightarrow> distinct ys \<Longrightarrow> distinct xs"
  by (induction rule: list_emb.induct) (auto dest: list_emb_set)

lemma join_cue_regions: "join_regions (cue_regions xs) = xs"
  by (induction xs) (auto simp: join_regions_def Let_def split: prod.splits)

lemma cue_regions_sets:
  "cue_regions xs = (lead, rest) \<Longrightarrow> set lead \<subseteq> {x \<in> set xs. \<not> is_item x} \<and>
     (\<forall>(y, cs) \<in> set rest. y \<in> set xs \<and> is_item y \<and> set cs \<subseteq> {x \<in> set xs. \<not> is_item x})"
  by (induction xs arbitrary: lead rest) (fastforce split: prod.splits if_splits)+

lemma same_cues_length: "same_cues seen u v as bs \<Longrightarrow> length as = length bs"
  by (induction seen u v as bs rule: same_cues.induct) (auto simp: Let_def split: if_splits)

lemma same_cues_ids: "same_cues seen u v as bs \<Longrightarrow> [] \<notin> set (map occ_ID as)"
  by (induction seen u v as bs rule: same_cues.induct) (auto simp: Let_def split: if_splits)

lemma map_ID_copy: "length as = length bs \<Longrightarrow> map occ_ID (map2 (\<lambda>a b. b\<lparr>occ_ID := occ_ID a\<rparr>) as bs) = map occ_ID as"
  by (induction as bs rule: list_induct2) auto

lemma copy_region_subseq:
  assumes "\<forall>b\<in>set bs. occ_ID b = []"
  shows "subseq (set_ids (copy_region as bs)) (map occ_ID as)"
proof (cases "sameCueRegion as bs")
  case True
  then have "length as = length bs" using same_cues_length by (auto simp: sameCueRegion_def)
  then have "map occ_ID (copy_region as bs) = map occ_ID as"
    using True map_ID_copy [of as bs] by (simp add: copy_region_def del: map_map)
  then have "set_ids (copy_region as bs) = filter (\<lambda>i. i \<noteq> []) (map occ_ID as)" by (simp only: set_ids_def)
  then show ?thesis by simp
next
  case False
  have "set_ids bs = []" using assms by (induction bs) auto
  then show ?thesis using False by (simp add: copy_region_def)
qed

lemma regions_subseq:
  assumes "map (occ_ID \<circ> fst) ra = map (occ_ID \<circ> fst) rb" "\<forall>(y, cs)\<in>set rb. \<forall>c\<in>set cs. occ_ID c = []"
  shows "subseq (set_ids (concat (map (\<lambda>(x, cs). x # cs) (map2 (\<lambda>(x, as) (y, bs). (y, copy_region as bs)) ra rb))))
     (map occ_ID (concat (map (\<lambda>(x, cs). x # cs) ra)))"
  using assms
proof (induction ra arbitrary: rb)
  case (Cons p ra)
  obtain x as where p: "p = (x, as)" by (cases p)
  obtain y bs rb' where rb: "rb = (y, bs) # rb'" "occ_ID x = occ_ID y" "map (occ_ID \<circ> fst) ra = map (occ_ID \<circ> fst) rb'"
    using Cons.prems(1) by (cases rb) (auto simp: p comp_def)
  have "subseq ((if occ_ID y = [] then [] else [occ_ID y]) @ set_ids (copy_region as bs)) (occ_ID x # map occ_ID as)"
    using copy_region_subseq [of bs as] Cons.prems(2) rb(2) by (auto simp: rb(1))
  moreover have "subseq (set_ids (concat (map (\<lambda>(x, cs). x # cs) (map2 (\<lambda>(x, as) (y, bs). (y, copy_region as bs)) ra rb'))))
     (map occ_ID (concat (map (\<lambda>(x, cs). x # cs) ra)))"
    using Cons.prems(2) rb(1) by (intro Cons.IH rb(3)) auto
  ultimately have "subseq (((if occ_ID y = [] then [] else [occ_ID y]) @ set_ids (copy_region as bs)) @
     set_ids (concat (map (\<lambda>(x, cs). x # cs) (map2 (\<lambda>(x, as) (y, bs). (y, copy_region as bs)) ra rb'))))
     ((occ_ID x # map occ_ID as) @ map occ_ID (concat (map (\<lambda>(x, cs). x # cs) ra)))"
    by (rule list_emb_append_mono)
  then show ?case by (simp add: p rb(1))
qed simp

text \<open>Retained identities are those of the previous occurrences, in their order.\<close>

lemma retain_distinct:
  assumes "ids_ok old" "anonymous_cues next" "distinct (set_ids next)"
  shows "distinct (set_ids (retainCueIDs old next))"
proof -
  obtain la ra lb rb where r: "cue_regions old = (la, ra)" "cue_regions next = (lb, rb)"
    by (cases "cue_regions old"; cases "cue_regions next")
  have anon: "\<forall>b\<in>set lb. occ_ID b = []" "\<forall>(y, cs)\<in>set rb. \<forall>c\<in>set cs. occ_ID c = []"
    using cue_regions_sets [OF r(2)] assms(2) by (fastforce simp: anonymous_cues_def)+
  show ?thesis
  proof (cases "map (occ_ID \<circ> fst) ra = map (occ_ID \<circ> fst) rb")
    case True
    have "subseq (set_ids (retainCueIDs old next)) (map occ_ID (join_regions (la, ra)))"
      using list_emb_append_mono [OF copy_region_subseq [OF anon(1), of la] regions_subseq [OF True anon(2)]] True
      by (simp add: retainCueIDs_def r join_regions_def)
    then have "subseq (set_ids (retainCueIDs old next)) (map occ_ID old)" using join_cue_regions [of old] r by simp
    then show ?thesis using assms(1) distinct_subseq by (auto simp: ids_ok_def)
  qed (use assms in \<open>simp add: retainCueIDs_def r\<close>)
qed

section \<open>Allocation\<close>

lemma next_cue_fresh: "next_cue n ids = Inr (m, i) \<Longrightarrow> i = cue_id m \<and> i \<notin> set ids \<and> n < m \<and> m \<le> MaxSourceRevision"
proof (induction n ids rule: next_cue.induct)
  case (1 n ids)
  show ?case
  proof (cases "cue_id (n + 1) \<in> set ids \<and> n < MaxSourceRevision")
    case True
    then have "next_cue (n + 1) ids = Inr (m, i)" using 1(2) by (simp add: next_cue.simps [of n ids])
    then show ?thesis using 1(1) True by auto
  next
    case False
    then show ?thesis using 1(2) by (auto simp: next_cue.simps [of n ids] split: if_splits)
  qed
qed

lemma cue_id_nonempty: "cue_id n \<noteq> []"
  by (simp add: cue_id_def)

lemma allocate_cues_ids:
  assumes "allocate_cues n ids xs = Inr (m, ys)" "distinct (set_ids xs)" "set (set_ids xs) \<subseteq> set ids"
  shows "ids_ok ys \<and> n \<le> m \<and> (\<forall>i\<in>set (map occ_ID ys). i \<in> set (set_ids xs) \<or> i \<notin> set ids)
     \<and> map (\<lambda>x. x\<lparr>occ_ID := []\<rparr>) ys = map (\<lambda>x. x\<lparr>occ_ID := []\<rparr>) xs"
  using assms
proof (induction xs arbitrary: n ids m ys)
  case Nil
  then show ?case by (simp add: ids_ok_def)
next
  case (Cons x xs)
  show ?case
  proof (cases "occ_ID x = []")
    case False
    then obtain zs where zs: "allocate_cues n ids xs = Inr (m, zs)" "ys = x # zs"
      using Cons.prems(1) by (auto split: sum.splits)
    note IH = Cons.IH [OF zs(1)]
    have "distinct (set_ids xs)" "set (set_ids xs) \<subseteq> set ids" "occ_ID x \<notin> set (set_ids xs)" "occ_ID x \<in> set ids"
      using Cons.prems(2,3) False by auto
    then show ?thesis using IH False zs(2) by (auto simp: ids_ok_def)
  next
    case True
    then obtain k i zs where k: "next_cue n ids = Inr (k, i)" "allocate_cues k (i # ids) xs = Inr (m, zs)"
        "ys = x\<lparr>occ_ID := i\<rparr> # zs"
      using Cons.prems(1) by (auto split: sum.splits)
    note fresh = next_cue_fresh [OF k(1)]
    have prems: "distinct (set_ids xs)" "set (set_ids xs) \<subseteq> set (i # ids)" using Cons.prems(2,3) True by auto
    note IH = Cons.IH [OF k(2) prems]
    have "i \<notin> set (set_ids xs)" using fresh Cons.prems(3) True by auto
    then have "i \<notin> set (map occ_ID zs)" using IH by auto
    moreover have "i \<noteq> []" using fresh cue_id_nonempty by metis
    ultimately have "ids_ok ys" using IH k(3) by (simp add: ids_ok_def)
    moreover have "\<forall>j\<in>set (map occ_ID ys). j \<in> set (set_ids (x # xs)) \<or> j \<notin> set ids"
      using IH fresh k(3) True by auto
    moreover have "map (\<lambda>x. x\<lparr>occ_ID := []\<rparr>) ys = map (\<lambda>x. x\<lparr>occ_ID := []\<rparr>) (x # xs)" using IH k(3) by simp
    ultimately show ?thesis using IH fresh by linarith
  qed
qed

section \<open>Identification\<close>

lemma copy_region_content: "map (\<lambda>x. x\<lparr>occ_ID := []\<rparr>) (copy_region as bs) = map (\<lambda>x. x\<lparr>occ_ID := []\<rparr>) bs"
proof (cases "sameCueRegion as bs")
  case True
  then have "length as = length bs" using same_cues_length by (auto simp: sameCueRegion_def)
  then have "map (\<lambda>x. x\<lparr>occ_ID := []\<rparr>) (map2 (\<lambda>a b. b\<lparr>occ_ID := occ_ID a\<rparr>) as bs) = map (\<lambda>x. x\<lparr>occ_ID := []\<rparr>) bs"
    by (induction as bs rule: list_induct2) auto
  then show ?thesis using True by (simp add: copy_region_def)
qed (simp add: copy_region_def)

lemma regions_content:
  assumes "length ra = length rb"
  shows "map (\<lambda>x. x\<lparr>occ_ID := []\<rparr>) (concat (map (\<lambda>(x, cs). x # cs) (map2 (\<lambda>(x, as) (y, bs). (y, copy_region as bs)) ra rb)))
    = map (\<lambda>x. x\<lparr>occ_ID := []\<rparr>) (concat (map (\<lambda>(x, cs). x # cs) rb))"
  using assms by (induction ra rb rule: list_induct2) (auto simp: copy_region_content split: prod.splits)

lemma retain_content: "map (\<lambda>x. x\<lparr>occ_ID := []\<rparr>) (retainCueIDs old next) = map (\<lambda>x. x\<lparr>occ_ID := []\<rparr>) next"
proof -
  obtain la ra lb rb where r: "cue_regions old = (la, ra)" "cue_regions next = (lb, rb)"
    by (cases "cue_regions old"; cases "cue_regions next")
  show ?thesis
  proof (cases "map (occ_ID \<circ> fst) ra = map (occ_ID \<circ> fst) rb")
    case True
    have "length ra = length rb" using arg_cong [OF True, of length] by simp
    then have "map (\<lambda>x. x\<lparr>occ_ID := []\<rparr>) (retainCueIDs old next) = map (\<lambda>x. x\<lparr>occ_ID := []\<rparr>) (join_regions (lb, rb))"
      using regions_content [of ra rb] True by (simp add: retainCueIDs_def r join_regions_def copy_region_content)
    then show ?thesis using join_cue_regions [of "next"] r(2) by simp
  qed (simp add: retainCueIDs_def r)
qed

text \<open>An occurrence as the next body brings it again: a cue comes without identity.\<close>

definition resent :: "SourceOccurrence \<Rightarrow> SourceOccurrence" where
  "resent x = (if is_item x then x else x\<lparr>occ_ID := []\<rparr>)"

lemma is_item_resent [simp]: "is_item (resent x) = is_item x"
  by (simp add: resent_def is_item_def)

lemma cue_regions_resent:
  "cue_regions (map resent xs) = (case cue_regions xs of
     (lead, rest) \<Rightarrow> (map resent lead, map (\<lambda>(y, cs). (y, map resent cs)) rest))"
  by (induction xs) (auto simp: Let_def split: prod.splits, simp_all add: resent_def)

lemma cueSelector_ID [simp]: "cueSelector (x\<lparr>occ_ID := i\<rparr>) = cueSelector x"
  by (simp add: cueSelector_def Let_def)

lemma same_cues_resent:
  "\<forall>x\<in>set xs. \<not> is_item x \<and> occ_ID x \<noteq> [] \<Longrightarrow> same_cues seen u True xs (map resent xs)"
  by (induction xs arbitrary: seen u) (auto simp: resent_def)

lemma copy_region_resent:
  assumes "\<forall>x\<in>set xs. \<not> is_item x \<and> occ_ID x \<noteq> []"
  shows "copy_region xs (map resent xs) = xs"
proof -
  have "map2 (\<lambda>a b. b\<lparr>occ_ID := occ_ID a\<rparr>) xs (map resent xs) = xs"
    using assms by (induction xs) (auto simp: resent_def)
  then show ?thesis using same_cues_resent [OF assms] by (simp add: copy_region_def sameCueRegion_def)
qed

lemma retain_resent:
  assumes "ids_ok old"
  shows "retainCueIDs old (map resent old) = old"
proof -
  obtain la ra where r: "cue_regions old = (la, ra)" by (cases "cue_regions old")
  note sets = cue_regions_sets [OF r]
  have ne: "\<forall>x\<in>set old. occ_ID x \<noteq> []" using assms unfolding ids_ok_def by (metis imageI list.set_map)
  have lead: "copy_region la (map resent la) = la" using sets ne by (intro copy_region_resent) auto
  have "\<forall>(y, cs)\<in>set ra. copy_region cs (map resent cs) = cs"
    using sets ne by (fastforce intro!: copy_region_resent)
  then have "map2 (\<lambda>(x, as) (y, bs). (y, copy_region as bs)) ra (map (\<lambda>(y, cs). (y, map resent cs)) ra) = ra"
    by (induction ra) auto
  moreover have "map (occ_ID \<circ> fst) (map (\<lambda>(y, cs). (y, map resent cs)) ra) = map (occ_ID \<circ> fst) ra"
    by (auto simp: comp_def split: prod.splits)
  ultimately show ?thesis using lead join_cue_regions [of old]
    by (simp add: retainCueIDs_def cue_regions_resent r)
qed

lemma allocate_nothing: "[] \<notin> set (map occ_ID xs) \<Longrightarrow> allocate_cues n ids xs = Inr (n, xs)"
  by (induction xs) auto

lemma identify_ids:
  assumes "body_occurrences [] els = Inr xs" "hs_Ambiguous held \<or> ids_ok (hs_Occurrences held)"
    and run: "identify held n xs = Inr (m, ys)"
  shows "ids_ok ys" "n \<le> m" "map (\<lambda>x. x\<lparr>occ_ID := []\<rparr>) ys = map (\<lambda>x. x\<lparr>occ_ID := []\<rparr>) xs"
proof -
  let ?zs = "if hs_Ambiguous held then xs else retainCueIDs (hs_Occurrences held) xs"
  have alloc: "allocate_cues n (set_ids ?zs) ?zs = Inr (m, ys)"
    using run by (simp add: identify_def Let_def set_ids_def split: if_splits)
  have "distinct (set_ids ?zs)" using body_occurrences_ids [OF assms(1)] assms(2) retain_distinct by auto
  from allocate_cues_ids [OF alloc this]
  have "ids_ok ys" "n \<le> m" "map (\<lambda>x. x\<lparr>occ_ID := []\<rparr>) ys = map (\<lambda>x. x\<lparr>occ_ID := []\<rparr>) ?zs" by simp_all
  then show "ids_ok ys" "n \<le> m" "map (\<lambda>x. x\<lparr>occ_ID := []\<rparr>) ys = map (\<lambda>x. x\<lparr>occ_ID := []\<rparr>) xs"
    using retain_content by simp_all
qed

text \<open>
  C23. The identities of a story body. Every occurrence gets a non-empty identity and no two share one; only
  identities are added, the content is the body's; and a body that arrives again unchanged keeps the identity
  of every cue without using up a number, so a receiver sees the same cues.
\<close>

theorem body_identities_unique_and_stable:
  assumes "body_occurrences [] els = Inr xs" and "hs_Ambiguous held \<or> ids_ok (hs_Occurrences held)"
    and run: "identify held n xs = Inr (m, ys)"
  shows "distinct (map occ_ID ys) \<and> [] \<notin> set (map occ_ID ys) \<and> n \<le> m
    \<and> map (\<lambda>x. x\<lparr>occ_ID := []\<rparr>) ys = map (\<lambda>x. x\<lparr>occ_ID := []\<rparr>) xs
    \<and> (\<not> hs_Ambiguous held \<and> xs = map resent (hs_Occurrences held) \<longrightarrow> ys = hs_Occurrences held \<and> m = n)"
proof -
  have "ys = hs_Occurrences held \<and> m = n" if "\<not> hs_Ambiguous held" "xs = map resent (hs_Occurrences held)"
  proof -
    have ok: "ids_ok (hs_Occurrences held)" using assms(2) that(1) by simp
    then have "identify held n xs = Inr (n, hs_Occurrences held)"
      using that retain_resent allocate_nothing [of "hs_Occurrences held"] by (simp add: identify_def Let_def ids_ok_def)
    then show ?thesis using run by simp
  qed
  then show ?thesis using identify_ids [OF assms] by (simp add: ids_ok_def)
qed

text \<open>A cue in front of an item and one behind it, sent for the second time.\<close>

definition example_cue :: BodyCue where
  "example_cue = zero_BodyCue\<lparr>bc_Kind := CueProduction, bc_Verb := ''TAKE'', bc_Target := ''VO'', bc_Raw := ''TAKE VO''\<rparr>"

definition example_item :: ItemInfo where
  "example_item = zero_ItemInfo\<lparr>ii_Source := Some (decodeSourceItem [Element ''itemID'' [] [CharData ''I1'' ''I1''] []])\<rparr>"

definition example_held :: heldSourceStory where
  "example_held = \<lparr>hs_ID = ''S1'', hs_Fresh = False, hs_Ambiguous = False, hs_Occurrences =
     [(cue_occurrence example_cue)\<lparr>occ_ID := ''cue:1''\<rparr>,
      item_occurrence (decodeSourceItem [Element ''itemID'' [] [CharData ''I1'' ''I1''] []]),
      (cue_occurrence example_cue)\<lparr>occ_ID := ''cue:2''\<rparr>], hs_Raw = []\<rparr>"

theorem body_identities_unique_and_stable_witness:
  "\<exists>ys. identify example_held 2 [cue_occurrence example_cue,
       item_occurrence (decodeSourceItem [Element ''itemID'' [] [CharData ''I1'' ''I1''] []]), cue_occurrence example_cue] =
     Inr (2, ys) \<and> ys = hs_Occurrences example_held \<and> distinct (map occ_ID ys)"
proof -
  let ?xs = "[cue_occurrence example_cue,
       item_occurrence (decodeSourceItem [Element ''itemID'' [] [CharData ''I1'' ''I1''] []]), cue_occurrence example_cue]"
  have "body_occurrences [] [SCue example_cue, SItem example_item, SCue example_cue] = Inr ?xs" by code_simp
  moreover have "hs_Ambiguous example_held \<or> ids_ok (hs_Occurrences example_held)" by code_simp
  moreover have "identify example_held 2 ?xs = Inr (2, hs_Occurrences example_held)" by code_simp
  ultimately show ?thesis using body_identities_unique_and_stable [of _ ?xs example_held 2] by blast
qed

end
