(* ===== verification/SourceSafety.thy ===== *)
theory SourceSafety
  imports Source SourceIdentity "HOL-Library.Code_Target_Nat"
begin

text \<open>
  What the committed source promises over its whole life: any interleaving of sessions, messages,
  deliveries, failed writes and restarts.
\<close>

section \<open>Runs\<close>

datatype source_event =
    EvObserve commit_io time SourceInput
  | EvRefresh time string
  | EvDisconnected commit_io string
  | EvUncertain commit_io string
  | EvApply commit_io commit_io "string \<Rightarrow> string \<Rightarrow> string result" SourceInput svc_message
  | EvPrepare commit_io time
  | EvFinish commit_io checkpoint delivery
  | EvRestart commit_io source_dir "string \<Rightarrow> parsed_url option" string

definition restart ::
    "source_env \<Rightarrow> commit_io \<Rightarrow> source_dir \<Rightarrow> (string \<Rightarrow> parsed_url option) \<Rightarrow> string \<Rightarrow> CommittedSource \<Rightarrow> CommittedSource option" where
  "restart se io sd url_Parse token s =
     (case OpenCommitted (source_codec se) Saved sd (cs_binding s) False (cs_file s) of
        (Inl _, _) \<Rightarrow> None
      | (Inr d, f) \<Rightarrow>
          (case newCommittedSource se io url_Parse d f (cs_binding s) token (cs_timeout s) (cs_extended s) of
             Inl _ \<Rightarrow> None | Inr s \<Rightarrow> Some s))"

text \<open>The state after an event and whether a message was applied; a process that cannot restart has none.\<close>

definition source_exec :: "source_env \<Rightarrow> source_event \<Rightarrow> CommittedSource \<Rightarrow> (svc_message option \<times> CommittedSource) option" where
  "source_exec se ev s = (case ev of
      EvObserve io t input \<Rightarrow> Some (None, snd (Observe se io t input s))
    | EvRefresh t session \<Rightarrow> Some (None, RefreshSession t session s)
    | EvDisconnected io session \<Rightarrow> Some (None, Disconnected se io session s)
    | EvUncertain io session \<Rightarrow> Some (None, Uncertain se io session s)
    | EvApply io io' render input msg \<Rightarrow> (case Apply se io io' render input msg s of
        ((out, _), s) \<Rightarrow> Some (if sr_Applied out then Some msg else None, s))
    | EvPrepare io t \<Rightarrow> Some (None, snd (publish_prepare se io t s))
    | EvFinish io cp answer \<Rightarrow> Some (None, snd (publish_finish se io cp answer s))
    | EvRestart io sd url_Parse token \<Rightarrow> map_option (Pair None) (restart se io sd url_Parse token s))"

text \<open>
  The log of a run: the messages that were applied, and the commits that advanced the revision without
  applying one, which invalidate what the source holds.
\<close>

datatype log_entry = Committed svc_message | Invalidated

definition revision_of :: "CommittedSource \<Rightarrow> nat option" where
  "revision_of s = map_option cp_Revision (dur_checkpoint (cs_store s))"

definition log_of :: "CommittedSource \<Rightarrow> svc_message option \<times> CommittedSource \<Rightarrow> log_entry list" where
  "log_of s r = (case r of
      (Some msg, _) \<Rightarrow> [Committed msg]
    | (None, s') \<Rightarrow> if revision_of s' \<noteq> revision_of s then [Invalidated] else [])"

fun source_run :: "source_env \<Rightarrow> source_event list \<Rightarrow> log_entry list \<times> CommittedSource \<Rightarrow> (log_entry list \<times> CommittedSource) option" where
  "source_run se [] ls = Some ls"
| "source_run se (ev # evs) (log, s) = (case source_exec se ev s of
      None \<Rightarrow> None
    | Some r \<Rightarrow> source_run se evs (log @ log_of s r, snd r))"

text \<open>A source that has just been provisioned and started for the first time.\<close>

definition provisioned :: "source_env \<Rightarrow> CommittedSource \<Rightarrow> bool" where
  "provisioned se s \<longleftrightarrow> (\<exists>sd d f io url_Parse token.
     OpenCommitted (source_codec se) Saved sd (cs_binding s) True Absent = (Inr d, f) \<and>
     newCommittedSource se io url_Parse d f (cs_binding s) token (cs_timeout s) (cs_extended s) = Inr s)"

section \<open>Commits keep properties of the checkpoint\<close>

abbreviation store_checkpoint :: "CommittedSource \<Rightarrow> checkpoint option" where
  "store_checkpoint s \<equiv> dur_checkpoint (cs_store s)"

definition stage_keeps :: "(checkpoint \<Rightarrow> bool) \<Rightarrow> 'a source_stage \<Rightarrow> bool" where
  "stage_keeps Q stage \<longleftrightarrow> (\<forall>cp t x cp' t'. Q cp \<longrightarrow> stage cp t = (Inr (x, cp'), t') \<longrightarrow> Q cp')"

lemma stage_keepsD: "stage_keeps Q stage \<Longrightarrow> Q cp \<Longrightarrow> stage cp t = (Inr (x, cp'), t') \<Longrightarrow> Q cp'"
  unfolding stage_keeps_def by metis

definition stage_extends :: "'a source_stage \<Rightarrow> bool" where
  "stage_extends stage \<longleftrightarrow> (\<forall>cp t x cp' t'. stage cp t = (Inr (x, cp'), t') \<longrightarrow> prefix (cp_Receipts cp) (cp_Receipts cp'))"

lemma stage_extendsD: "stage_extends stage \<Longrightarrow> stage cp t = (Inr (x, cp'), t') \<Longrightarrow> prefix (cp_Receipts cp) (cp_Receipts cp')"
  unfolding stage_extends_def by metis

text \<open>\<open>Q\<close> holds of the checkpoint in memory and of the one on disk, and the store is consistent.\<close>

definition source_inv :: "source_env \<Rightarrow> (checkpoint \<Rightarrow> bool) \<Rightarrow> CommittedSource \<Rightarrow> bool" where
  "source_inv se Q s \<longleftrightarrow> committed_inv (source_codec se) (cs_store s, cs_file s)
     \<and> dur_binding (cs_store s) = cs_binding s
     \<and> (\<exists>cp file. store_checkpoint s = Some cp \<and> cs_file s = Holds file \<and> Q cp \<and> Q (cf_Source file)
          \<and> prefix (cp_Receipts cp) (cp_Receipts (cf_Source file)))"

lemma source_inv_commit:
  assumes inv: "source_inv se Q s" and keeps: "staged_keeps_ok stage" "stage_keeps Q stage" "stage_extends stage"
    and run: "commit_source se io stage s = (r, s')"
  shows "source_inv se Q s' \<and> (\<forall>cp cp'. store_checkpoint s = Some cp \<longrightarrow> store_checkpoint s' = Some cp' \<longrightarrow>
      prefix (cp_Receipts cp) (cp_Receipts cp'))"
proof -
  obtain d f where c: "Commit (source_codec se) (fst io) (snd io) stage (cs_store s, cs_file s) = (r, d, f)"
    and s': "s' = s\<lparr>cs_store := d, cs_file := f\<rparr>"
    using run by (auto simp: commit_source_def split: prod.splits)
  have cinv: "committed_inv (source_codec se) (cs_store s, cs_file s)" using inv by (simp add: source_inv_def)
  then have ok: "svc_ok (dur_repos (cs_store s))" by (simp add: committed_inv_def)
  obtain cp0 fl where held: "store_checkpoint s = Some cp0" "cs_file s = Holds fl" "Q cp0" "Q (cf_Source fl)"
      "prefix (cp_Receipts cp0) (cp_Receipts (cf_Source fl))"
    using inv by (auto simp: source_inv_def)
  have cinv': "committed_inv (source_codec se) (d, f)" by (rule Commit_keeps_inv [OF cinv keeps(1) c])
  have new_source: "cf_Source (new_file c b snap cp) = cp" for c :: "(sourceState, SourceSnapshot) codec" and b snap cp
    by (simp add: new_file_def Let_def)
  from ok c show ?thesis
  proof (cases rule: Commit_cases)
    case (refused e)
    then show ?thesis using inv s' by auto
  next
    case (unsaved e cp x cp' staged snap)
    have cp: "cp = cp0" using unsaved(1) held(1) by (simp add: available_def split: if_splits)
    have "Q cp'" "prefix (cp_Receipts cp) (cp_Receipts cp')"
      using stage_keepsD [OF keeps(2) _ unsaved(2)] stage_extendsD [OF keeps(3) unsaved(2)] held(3) cp by simp_all
    then show ?thesis using unsaved(6,7) held cp cinv' inv s' new_source
      by (auto simp: source_inv_def)
  next
    case (saved cp x cp' staged snap)
    have cp: "cp = cp0" using saved(1) held(1) by (simp add: available_def split: if_splits)
    have "Q cp'" "prefix (cp_Receipts cp) (cp_Receipts cp')"
      using stage_keepsD [OF keeps(2) _ saved(2)] stage_extendsD [OF keeps(3) saved(2)] held(3) cp by simp_all
    then show ?thesis using saved(8,9) held cp cinv' inv s' new_source
      by (auto simp: source_inv_def)
  qed
qed

section \<open>The stages of the source\<close>

text \<open>
  The pending snapshot says complete only when the retained state is, and then lists the retained stories. A
  halted source is exempt: it is never published again.
\<close>

definition pending_ok :: "sourceState \<Rightarrow> SourceSnapshot \<Rightarrow> bool" where
  "pending_ok state p \<longleftrightarrow> (sn_Complete p \<longrightarrow> source_complete state \<and> sn_Active p = src_Active state \<and>
     (sn_Active p \<longrightarrow> map (\<lambda>st. (sst_ID st, sst_Occurrences st)) (sn_Stories p) =
        map (\<lambda>st. (hs_ID st, hs_Occurrences st)) (src_Stories state)))"

definition stories_ok :: "heldSourceStory list \<Rightarrow> bool" where
  "stories_ok sts \<longleftrightarrow> (\<forall>st\<in>set sts. hs_Ambiguous st \<or> ids_ok (hs_Occurrences st))"

definition checkpoint_ok :: "checkpoint \<Rightarrow> bool" where
  "checkpoint_ok cp \<longleftrightarrow> (\<forall>state. cp_State cp = Some state \<longrightarrow> stories_ok (src_Stories state) \<and>
     (\<not> src_Halted state \<longrightarrow> (\<exists>p. cp_Pending cp = Some p \<and> pending_ok state p)))"

lemma source_complete_problem [simp]: "source_complete (state\<lparr>src_Problem := p\<rparr>) = source_complete state"
  by (simp add: source_complete_def)

lemma marshalSource_same: "marshalSource se p = Inr q \<Longrightarrow> q = p"
  by (auto simp: marshalSource_def split: if_splits sum.splits)

lemma project_ids: "map (\<lambda>st. (sst_ID st, sst_Occurrences st)) (project_stories display state) =
    map (\<lambda>st. (hs_ID st, hs_Occurrences st)) (src_Stories state)"
  by (simp add: project_stories_def Let_def comp_def)

lemma projectionD:
  assumes "projection se ext state sn = Inr sn'"
  shows "\<exists>sts. sn' = sn\<lparr>sn_Stories := sts\<rparr> \<and> (source_complete state \<and> src_Active state \<longrightarrow>
     map (\<lambda>st. (sst_ID st, sst_Occurrences st)) sts = map (\<lambda>st. (hs_ID st, hs_Occurrences st)) (src_Stories state))"
proof (cases "source_complete state \<and> src_Active state")
  case True
  then obtain display where "sn' = sn\<lparr>sn_Stories := project_stories display state\<rparr>"
    using assms by (auto simp: projection_def split: sum.splits)
  then show ?thesis using project_ids by blast
next
  case False
  then show ?thesis using assms by (intro exI [of _ "sn_Stories sn"]) (auto simp: projection_def)
qed

lemma sealD:
  assumes "seal se cp state sn = Inr cp'" "pending_ok state sn"
  shows "\<exists>problem p. cp' = cp\<lparr>cp_Revision := sn_Revision sn, cp_State := Some (state\<lparr>src_Problem := problem\<rparr>),
      cp_Pending := Some p\<rparr> \<and> pending_ok state p"
proof (cases "marshalSource se sn")
  case (Inl e)
  then obtain p where "marshalSource se (sn\<lparr>sn_Complete := False, sn_Stories := [], sn_Metadata := None\<rparr>) = Inr p"
      "cp' = cp\<lparr>cp_Revision := sn_Revision sn, cp_State := Some (state\<lparr>src_Problem := ''source_projection_outside_limits''\<rparr>),
         cp_Pending := Some p\<rparr>"
    using assms(1) by (auto simp: seal_def Let_def split: sum.splits)
  moreover from marshalSource_same [OF this(1)] have "pending_ok state p" by (simp add: pending_ok_def)
  ultimately show ?thesis by blast
next
  case (Inr p)
  have "cp' = cp\<lparr>cp_Revision := sn_Revision sn, cp_State := Some (state\<lparr>src_Problem := src_Problem state\<rparr>), cp_Pending := Some p\<rparr>"
    using assms(1) Inr by (auto simp: seal_def)
  then show ?thesis using marshalSource_same [OF Inr] assms(2) by blast
qed

lemma reviseD:
  assumes "revise se b ext cp state = Inr cp'"
  shows "\<exists>problem p. cp' = cp\<lparr>cp_Revision := cp_Revision cp + 1, cp_State := Some (state\<lparr>src_Problem := problem\<rparr>),
      cp_Pending := Some p\<rparr> \<and> pending_ok state p"
proof -
  let ?state = "state\<lparr>src_Problem := source_problem state\<rparr>"
  let ?sn = "\<lparr>sn_Version = wire_version b, sn_SourceID = bnd_SourceID b, sn_RundownID = bnd_RundownID b,
      sn_Revision = cp_Revision cp + 1, sn_Active = src_Active state, sn_Complete = source_complete state,
      sn_Metadata = src_RunMetadata state, sn_Stories = []\<rparr>"
  obtain sn where sn: "projection se ext ?state ?sn = Inr sn" and run: "seal se cp ?state sn = Inr cp'"
    using assms by (auto simp: revise_def Let_def split: if_splits sum.splits)
  have ok: "pending_ok ?state sn \<and> sn_Revision sn = cp_Revision cp + 1"
    using projectionD [OF sn] by (auto simp: pending_ok_def)
  show ?thesis using sealD [OF run] ok by (auto simp: pending_ok_def)
qed

lemma op_check_app: "op_check r t = (r, t)"
  by (simp add: op_check_def)

lemma revise_checkpoint_ok:
  assumes "revise se b ext cp state = Inr cp'" "stories_ok (src_Stories state)"
  shows "checkpoint_ok cp' \<and> prefix (cp_Receipts cp) (cp_Receipts cp')"
  using reviseD [OF assms(1)] assms(2) by (auto simp: checkpoint_ok_def pending_ok_def source_complete_def)

lemma checkpoint_ok_remember [simp]: "checkpoint_ok (rememberSource input h reply cp) = checkpoint_ok cp"
  by (simp add: rememberSource_def checkpoint_ok_def)

lemma receipts_remember: "prefix (cp_Receipts cp) (cp_Receipts (rememberSource input h reply cp))"
  by (simp add: rememberSource_def)

lemma stories_ok_stale [simp]: "stories_ok (src_Stories (stale state)) = stories_ok (src_Stories state)"
  by (simp add: stale_def stories_ok_def)

lemma readSourceState_ok:
  "checkpoint_ok cp \<Longrightarrow> readSourceState (cp_State cp) = Inr state \<Longrightarrow> stories_ok (src_Stories state)"
  by (auto simp: readSourceState_def checkpoint_ok_def zero_sourceState_def stories_ok_def split: option.splits if_splits)

lemma revise_receipts: "revise se b ext cp state = Inr cp' \<Longrightarrow> cp_Receipts cp' = cp_Receipts cp"
  by (auto dest: reviseD)

section \<open>What a message does to the retained state\<close>

fun roster_ids :: "svc_message \<Rightarrow> string list option" where
  "roster_ids (RoCreate m _) = Some (map si_ID (roi_Stories m))"
| "roster_ids (RoReplace m) = Some (map si_ID (ror_Stories m))"
| "roster_ids (RoList m _) = Some (map si_ID (rol_Stories m))"
| "roster_ids _ = None"

lemma held_for_ID [simp]: "hs_ID (held_for old k) = k" "\<not> hs_Fresh (held_for old k)"
  by (auto simp: held_for_def split: option.splits dest: find_Some_in)

lemma held_for_ok: "stories_ok old \<Longrightarrow> hs_Ambiguous (held_for old k) \<or> ids_ok (hs_Occurrences (held_for old k))"
  by (auto simp: held_for_def stories_ok_def ids_ok_def split: option.splits dest!: find_Some_in)

lemma roster_stories_ok:
  assumes "roster_stories old seen sts = Inr hs" "stories_ok old"
  shows "map hs_ID hs = map si_ID sts \<and> stories_ok hs \<and> (\<forall>st\<in>set hs. \<not> hs_Fresh st)"
  using assms
proof (induction old seen sts arbitrary: hs rule: roster_stories.induct)
  case (2 old seen st sts)
  then obtain u hs' where "validate_items (si_Items st) = Inr u" "roster_stories old (si_ID st # seen) sts = Inr hs'"
      "hs = held_for old (si_ID st) # hs'" "\<not> (si_ID st = [] \<or> si_ID st \<in> set seen)"
    by (auto split: if_splits sum.splits)
  then show ?case using 2(1) held_for_ok 2(3) by (auto simp: stories_ok_def)
qed (simp add: stories_ok_def)

lemma applyRosterD:
  assumes "applyRoster se b state roster raw t = (Inr state', t')" "stories_ok (src_Stories state)"
  shows "map hs_ID (src_Stories state') = map si_ID (ror_Stories roster) \<and> stories_ok (src_Stories state')
    \<and> (\<forall>st\<in>set (src_Stories state'). \<not> hs_Fresh st) \<and> src_Active state' \<and> src_RosterFresh state'
    \<and> src_Halted state' = src_Halted state"
proof -
  obtain hs where "roster_stories (src_Stories state) [] (ror_Stories roster) = Inr hs"
    "state' = state\<lparr>src_Active := True, src_RosterFresh := True, src_Stories := hs, src_RawRoster := raw\<rparr>"
    using assms(1) by (auto simp: applyRoster_def op_bind_eq_Inr op_check_app)
  then show ?thesis using roster_stories_ok [OF _ assms(2)] by auto
qed

lemma story_indexD: "story_index i k sts = Some j \<Longrightarrow> i \<le> j \<and> j - i < length sts \<and> hs_ID (sts ! (j - i)) = k"
proof (induction sts arbitrary: i)
  case (Cons st sts)
  show ?case
  proof (cases "hs_ID st = k")
    case False
    then have "Suc i \<le> j" "j - Suc i < length sts" "hs_ID (sts ! (j - Suc i)) = k" using Cons by auto
    moreover from this have "j - i = Suc (j - Suc i)" by simp
    ultimately show ?thesis by simp
  qed (use Cons.prems in simp)
qed simp

lemma applyBodyD:
  assumes "applyBody se state body raw t = (Inr state', t')" "stories_ok (src_Stories state)"
  shows "src_Active state' \<and> src_RosterFresh state' \<and> src_Halted state' = src_Halted state
    \<and> stories_ok (src_Stories state')
    \<and> (\<exists>i < length (src_Stories state). \<exists>st. src_Stories state' = (src_Stories state)[i := st]
        \<and> hs_ID (src_Stories state ! i) = rss_StoryID body \<and> hs_ID st = rss_StoryID body)"
proof -
  have guard: "src_Active state" "src_RosterFresh state"
    using assms(1) by (auto simp: applyBody_def split: if_splits)
  obtain i where i: "story_index 0 (rss_StoryID body) (src_Stories state) = Some i"
    using assms(1) by (auto simp: applyBody_def split: if_splits option.splits)
  let ?held = "src_Stories state ! i"
  obtain els xs m ys where run: "body_occurrences [] els = Inr xs" "identify ?held (src_NextCue state) xs = Inr (m, ys)"
    and st': "state' = state\<lparr>src_NextCue := m, src_Stories := (src_Stories state)[i := ?held\<lparr>hs_Fresh := True,
        hs_Ambiguous := False, hs_Occurrences := ys, hs_Raw := raw\<rparr>]\<rparr>"
    using assms(1) i by (auto simp: applyBody_def op_bind_eq_Inr op_check_app Let_def split: if_splits prod.splits)
  have bounds: "i < length (src_Stories state)" "hs_ID ?held = rss_StoryID body" using story_indexD [OF i] by simp_all
  have "hs_Ambiguous ?held \<or> ids_ok (hs_Occurrences ?held)" using assms(2) bounds(1) by (simp add: stories_ok_def)
  then have "ids_ok ys" using identify_ids(1) [OF run(1) _ run(2)] by simp
  then have "stories_ok (src_Stories state')"
    using assms(2) st' by (auto simp: stories_ok_def dest!: set_update_subset_insert [THEN subsetD])
  moreover have "\<exists>i < length (src_Stories state). \<exists>st. src_Stories state' = (src_Stories state)[i := st]
        \<and> hs_ID (src_Stories state ! i) = rss_StoryID body \<and> hs_ID st = rss_StoryID body"
    using st' bounds by (intro exI [of _ i] conjI exI [of _ "?held\<lparr>hs_Fresh := True, hs_Ambiguous := False,
        hs_Occurrences := ys, hs_Raw := raw\<rparr>"]) simp_all
  ultimately show ?thesis using guard st' by simp
qed

fun resets :: "log_entry \<Rightarrow> bool" where
  "resets Invalidated = True"
| "resets (Committed m) = (roster_ids m \<noteq> None \<or> (case m of RoDelete _ \<Rightarrow> True | _ \<Rightarrow> False))"

text \<open>
  What a fresh roster rests on: the last entry that reset the source is the roster itself, and every fresh
  story has received its body since.
\<close>

definition received :: "log_entry list \<Rightarrow> string list \<Rightarrow> string set \<Rightarrow> bool" where
  "received log ids fresh \<longleftrightarrow> (\<exists>l1 m l2. log = l1 @ Committed m # l2 \<and> roster_ids m = Some ids \<and> (\<forall>x\<in>set l2. \<not> resets x)
     \<and> (\<forall>i\<in>fresh. \<exists>body. Committed (RoStorySend body) \<in> set l2 \<and> rss_StoryID body = i))"

definition fresh_ids :: "sourceState \<Rightarrow> string set" where
  "fresh_ids state = {hs_ID st | st. st \<in> set (src_Stories state) \<and> hs_Fresh st}"

definition log_ok :: "log_entry list \<Rightarrow> sourceState \<Rightarrow> bool" where
  "log_ok log state \<longleftrightarrow> (src_Active state \<and> src_RosterFresh state \<longrightarrow>
     received log (map hs_ID (src_Stories state)) (fresh_ids state))"

lemma received_roster: "roster_ids m = Some ids \<Longrightarrow> received (log @ [Committed m]) ids {}"
  unfolding received_def by (intro exI [of _ log] exI [of _ m] exI [of _ "[]"]) simp

lemma received_later:
  assumes "received log ids fresh" "\<not> resets (Committed m)"
    and "\<And>i. i \<in> fresh' \<Longrightarrow> i \<in> fresh \<or> (\<exists>body. m = RoStorySend body \<and> rss_StoryID body = i)"
  shows "received (log @ [Committed m]) ids fresh'"
proof -
  obtain l1 k l2 where "log = l1 @ Committed k # l2" "roster_ids k = Some ids" "\<forall>x\<in>set l2. \<not> resets x"
      "\<forall>i\<in>fresh. \<exists>body. Committed (RoStorySend body) \<in> set l2 \<and> rss_StoryID body = i"
    using assms(1) by (auto simp: received_def)
  then show ?thesis unfolding received_def using assms(2,3)
    by (intro exI [of _ l1] exI [of _ k] exI [of _ "l2 @ [Committed m]"]) fastforce
qed

lemma log_ok_same:
  assumes "log_ok log state" "src_Stories state' = src_Stories state" "src_Active state' = src_Active state"
    "src_RosterFresh state' = src_RosterFresh state"
  shows "log_ok log state'"
  using assms by (simp add: log_ok_def fresh_ids_def)

lemma body_fresh_ids:
  assumes "i < length sts" "hs_ID st = k"
  shows "{hs_ID st' | st'. st' \<in> set (sts[i := st]) \<and> hs_Fresh st'} \<subseteq> insert k {hs_ID st' | st'. st' \<in> set sts \<and> hs_Fresh st'}"
  using assms set_update_subset_insert [of sts i st] by auto

lemma apply_kind_log:
  assumes run: "apply_kind se b state msg raw t = (Inr state', t')" and ok: "stories_ok (src_Stories state)"
  shows "(log_ok log state \<longrightarrow> log_ok (log @ [Committed msg]) state') \<and> stories_ok (src_Stories state') \<and> src_Halted state' = src_Halted state"
proof -
  have roster: ?thesis if "applyRoster se b state m raw t = (Inr state', t')" "roster_ids msg = Some (map si_ID (ror_Stories m))" for m
  proof -
    note eff = applyRosterD [OF that(1) ok]
    then have "fresh_ids state' = {}" by (auto simp: fresh_ids_def)
    then show ?thesis using eff received_roster [OF that(2), of log] by (simp add: log_ok_def)
  qed
  have other: ?thesis if "state' = state" "\<not> resets (Committed msg)"
    using that ok received_later [OF _ that(2)] by (auto simp: log_ok_def)
  have body: ?thesis if app: "applyBody se state m raw t = (Inr state', t')" and kind: "msg = RoStorySend m" for m
  proof -
    obtain i st where i: "i < length (src_Stories state)" "src_Stories state' = (src_Stories state)[i := st]"
        "hs_ID (src_Stories state ! i) = rss_StoryID m" "hs_ID st = rss_StoryID m"
      and rest: "src_Active state'" "src_RosterFresh state'" "src_Halted state' = src_Halted state" "stories_ok (src_Stories state')"
      using applyBodyD [OF app ok] by auto
    have "src_Active state" "src_RosterFresh state" using app by (auto simp: applyBody_def split: if_splits)
    then have "log_ok log state \<Longrightarrow> received log (map hs_ID (src_Stories state)) (fresh_ids state)" by (simp add: log_ok_def)
    moreover have "map hs_ID (src_Stories state') = map hs_ID (src_Stories state)"
      using i by (simp add: map_update list_update_same_conv)
    moreover have "fresh_ids state' \<subseteq> insert (rss_StoryID m) (fresh_ids state)"
      using body_fresh_ids [OF i(1,4)] by (simp add: fresh_ids_def i(2))
    ultimately show ?thesis using received_later [of log _ "fresh_ids state" msg "fresh_ids state'"] kind rest
      by (auto simp: log_ok_def)
  qed
  show ?thesis
  proof (cases msg)
    case (RoCreate m k)
    then show ?thesis using run roster by (simp add: apply_kind_def roster_of_def)
  next
    case (RoReplace m)
    then show ?thesis using run roster by (simp add: apply_kind_def)
  next
    case (RoList m k)
    then show ?thesis using run roster by (simp add: apply_kind_def roster_of_def)
  next
    case (RoDelete k)
    then show ?thesis using run by (auto simp: apply_kind_def op_bind_eq_Inr log_ok_def stories_ok_def)
  next
    case (RoStorySend m)
    then show ?thesis using run body by (simp add: apply_kind_def)
  qed (use run other in \<open>auto simp: apply_kind_def op_bind_eq_Inr\<close>)
qed

lemma applyMessage_log:
  assumes "applyMessage se b state msg raw t = (Inr state', t')" "stories_ok (src_Stories state)"
  shows "(log_ok log state \<longrightarrow> log_ok (log @ [Committed msg]) state') \<and> stories_ok (src_Stories state') \<and> src_Halted state' = src_Halted state"
proof (cases "carries_metadata msg")
  case True
  then obtain meta where "apply_kind se b (state\<lparr>src_RunMetadata := Some meta\<rparr>) msg raw t = (Inr state', t')"
    using assms(1) by (auto simp: applyMessage_def op_bind_eq_Inr op_check_app)
  moreover have "log_ok log state \<Longrightarrow> log_ok log (state\<lparr>src_RunMetadata := Some meta\<rparr>)" by (rule log_ok_same) simp_all
  ultimately show ?thesis using apply_kind_log [of se b "state\<lparr>src_RunMetadata := Some meta\<rparr>"] assms(2) by simp
next
  case False
  then show ?thesis using assms apply_kind_log by (simp add: applyMessage_def)
qed

lemma applyMessage_stories:
  assumes "applyMessage se b state msg raw t = (Inr state', t')" "stories_ok (src_Stories state)"
  shows "stories_ok (src_Stories state')"
  using applyMessage_log [OF assms] by simp

section \<open>The stages keep the invariant\<close>

lemma keeps_ok_case_message [keeps_ok_intros]:
  "keeps_ok (apply_kind se b state msg raw)"
  unfolding apply_kind_def applyRoster_def applyBody_def place_item_def Let_def
  by (cases msg; simp split: option.splits prod.splits; intro keeps_ok_intros conjI impI allI)

lemma keeps_ok_applyMessage [keeps_ok_intros]: "keeps_ok (applyMessage se b state msg raw)"
  unfolding applyMessage_def by (intro keeps_ok_intros)

definition good_stage :: "'a source_stage \<Rightarrow> bool" where
  "good_stage stage \<longleftrightarrow> staged_keeps_ok stage \<and> stage_keeps checkpoint_ok stage \<and> stage_extends stage"

lemma good_stageI:
  assumes "\<And>cp. keeps_ok (stage cp)"
    and "\<And>cp t x cp' t'. stage cp t = (Inr (x, cp'), t') \<Longrightarrow> prefix (cp_Receipts cp) (cp_Receipts cp')"
    and "\<And>cp t x cp' t'. checkpoint_ok cp \<Longrightarrow> stage cp t = (Inr (x, cp'), t') \<Longrightarrow> checkpoint_ok cp'"
  shows "good_stage stage"
  using assms unfolding good_stage_def staged_keeps_ok_def stage_keeps_def stage_extends_def by metis

lemma invalidate_stageD:
  assumes "invalidate_stage se s cp t = (Inr (x, cp'), t')"
  shows "\<exists>state. readSourceState (cp_State cp) = Inr state \<and> revise se (cs_binding s) (cs_extended s) cp (stale state) = Inr cp'"
  using assms by (auto simp: invalidate_stage_def op_check_app map_sum_def split: sum.splits if_splits)

lemma good_invalidate: "good_stage (invalidate_stage se s)"
proof (rule good_stageI)
  show "keeps_ok (invalidate_stage se s cp)" for cp unfolding invalidate_stage_def by (intro keeps_ok_intros)
next
  fix cp t x cp' t' assume run: "invalidate_stage se s cp t = (Inr (x, cp'), t')"
  then obtain state where st: "readSourceState (cp_State cp) = Inr state" "revise se (cs_binding s) (cs_extended s) cp (stale state) = Inr cp'"
    using invalidate_stageD by blast
  show "prefix (cp_Receipts cp) (cp_Receipts cp')" using revise_receipts [OF st(2)] by simp
  show "checkpoint_ok cp'" if "checkpoint_ok cp"
    using revise_checkpoint_ok [OF st(2)] readSourceState_ok [OF that st(1)] by simp
qed

lemma good_halt: "good_stage halt_stage"
proof (rule good_stageI)
  show "keeps_ok (halt_stage cp)" for cp unfolding halt_stage_def by (intro keeps_ok_intros)
next
  fix cp t x cp' t' assume run: "halt_stage cp t = (Inr (x, cp'), t')"
  then obtain state where st: "readSourceState (cp_State cp) = Inr state"
      "cp' = cp\<lparr>cp_State := Some (state\<lparr>src_Halted := True, src_Problem := ''receiver_revision_conflict''\<rparr>)\<rparr>"
    by (auto simp: halt_stage_def op_check_app split: sum.splits)
  then show "prefix (cp_Receipts cp) (cp_Receipts cp')" by simp
  show "checkpoint_ok cp'" if "checkpoint_ok cp"
    using readSourceState_ok [OF that st(1)] st(2) by (simp add: checkpoint_ok_def)
qed

lemma good_accept: "good_stage (accept_stage cp)"
proof (rule good_stageI)
  show "keeps_ok (accept_stage cp latest)" for latest unfolding accept_stage_def by (intro keeps_ok_intros)
qed (auto simp: accept_stage_def op_check_app checkpoint_ok_def split: if_splits)

lemma apply_stageD:
  assumes "apply_stage se s render input msg cp t = (Inr (reply, cp'), t')"
  shows "\<exists>state state' cp1 u. readSourceState (cp_State cp) = Inr state
    \<and> applyMessage se (cs_binding s) state msg (in_Content input) t = (Inr state', u)
    \<and> revise se (cs_binding s) (cs_extended s) cp state' = Inr cp1 \<and> source_respond render msg ''OK'' = Inr reply
    \<and> cp' = rememberSource input (se_sha256 se (in_Content input)) reply cp1"
  using assms by (auto simp: apply_stage_def op_bind_eq_Inr op_check_app)

lemma good_apply: "good_stage (apply_stage se s render input msg)"
proof (rule good_stageI)
  show "keeps_ok (apply_stage se s render input msg cp)" for cp unfolding apply_stage_def by (intro keeps_ok_intros)
next
  fix cp t x cp' t' assume run: "apply_stage se s render input msg cp t = (Inr (x, cp'), t')"
  then obtain state state' cp1 u where st: "readSourceState (cp_State cp) = Inr state"
      "applyMessage se (cs_binding s) state msg (in_Content input) t = (Inr state', u)"
      "revise se (cs_binding s) (cs_extended s) cp state' = Inr cp1"
      "cp' = rememberSource input (se_sha256 se (in_Content input)) x cp1"
    using apply_stageD by blast
  show "prefix (cp_Receipts cp) (cp_Receipts cp')" using revise_receipts [OF st(3)] receipts_remember st(4) by metis
  show "checkpoint_ok cp'" if "checkpoint_ok cp"
  proof -
    have "stories_ok (src_Stories state')" 
      using applyMessage_stories [OF st(2)] readSourceState_ok [OF that st(1)] by simp
    then show ?thesis using revise_checkpoint_ok [OF st(3)] st(4) by simp
  qed
qed

lemma refuse_stageD:
  assumes "refuse_stage se s input conflict reply cp t = (Inr (x, cp'), t')"
  shows "\<exists>state cp1. readSourceState (cp_State cp) = Inr state
    \<and> revise se (cs_binding s) (cs_extended s) cp (stale state) = Inr cp1
    \<and> cp' = (if conflict then cp1 else rememberSource input (se_sha256 se (in_Content input)) reply cp1)"
  using assms by (auto simp: refuse_stage_def op_bind_eq_Inr op_check_app)

lemma good_refuse: "good_stage (refuse_stage se s input conflict reply)"
proof (rule good_stageI)
  show "keeps_ok (refuse_stage se s input conflict reply cp)" for cp unfolding refuse_stage_def by (intro keeps_ok_intros)
next
  fix cp t x cp' t' assume run: "refuse_stage se s input conflict reply cp t = (Inr (x, cp'), t')"
  then obtain state cp1 where st: "readSourceState (cp_State cp) = Inr state"
      "revise se (cs_binding s) (cs_extended s) cp (stale state) = Inr cp1"
      "cp' = (if conflict then cp1 else rememberSource input (se_sha256 se (in_Content input)) reply cp1)"
    using refuse_stageD by blast
  show "prefix (cp_Receipts cp) (cp_Receipts cp')"
    using revise_receipts [OF st(2)] receipts_remember [of cp1] st(3) by (auto split: if_splits)
  show "checkpoint_ok cp'" if "checkpoint_ok cp"
    using revise_checkpoint_ok [OF st(2)] readSourceState_ok [OF that st(1)] st(3) by simp
qed

section \<open>Events keep the invariant\<close>

abbreviation source_ok :: "source_env \<Rightarrow> CommittedSource \<Rightarrow> bool" where
  "source_ok se s \<equiv> source_inv se checkpoint_ok s"

definition grows :: "CommittedSource \<Rightarrow> CommittedSource \<Rightarrow> bool" where
  "grows s s' \<longleftrightarrow> (\<forall>cp cp'. store_checkpoint s = Some cp \<longrightarrow> store_checkpoint s' = Some cp' \<longrightarrow>
     prefix (cp_Receipts cp) (cp_Receipts cp'))"

text \<open>A change of the checkpoint that applies no message.\<close>

definition benign :: "CommittedSource \<Rightarrow> CommittedSource \<Rightarrow> bool" where
  "benign s s' \<longleftrightarrow> store_checkpoint s' = store_checkpoint s \<or> (\<exists>cp'. store_checkpoint s' = Some cp' \<and>
     ((\<exists>state. cp_State cp' = Some state \<and> (\<not> src_RosterFresh state \<or> src_Halted state)) \<or>
      (\<exists>cp. store_checkpoint s = Some cp \<and> cp_State cp' = cp_State cp \<and> cp_Revision cp' = cp_Revision cp)))"

lemma commit_source_effect:
  assumes "commit_source se io stage s = (r, s')" "svc_ok (dur_repos (cs_store s))"
  shows "(\<exists>e. r = Inl e \<and> store_checkpoint s' = store_checkpoint s \<and> (e = errSourceHalted \<longrightarrow>
          (\<exists>cp t t'. store_checkpoint s = Some cp \<and> stage cp t = (Inl e, t')))) \<or>
     (\<exists>cp t x cp' t'. store_checkpoint s = Some cp \<and> stage cp t = (Inr (x, cp'), t') \<and> r = Inr x \<and> store_checkpoint s' = Some cp')"
proof -
  obtain d f where c: "Commit (source_codec se) (fst io) (snd io) stage (cs_store s, cs_file s) = (r, d, f)"
    and s': "s' = s\<lparr>cs_store := d, cs_file := f\<rparr>"
    using assms(1) by (auto simp: commit_source_def split: prod.splits)
  have avail: "available (cs_store s) = Inr cp \<Longrightarrow> store_checkpoint s = Some cp" for cp
    by (auto simp: available_def split: option.splits if_splits)
  have own: "errSourceHalted \<notin> commit_errors" by (auto simp: commit_errors_def errSourceHalted_def)
  from assms(2) c show ?thesis
  proof (cases rule: Commit_cases)
    case (refused e)
    then show ?thesis using s' avail own by fastforce
  next
    case (unsaved e cp x cp' staged snap)
    have "e \<noteq> errSourceHalted" using unsaved(8) by (auto simp: save_errors_def errSourceHalted_def)
    then show ?thesis using unsaved s' by auto
  next
    case (saved cp x cp' staged snap)
    then show ?thesis using s' avail by fastforce
  qed
qed

lemma source_inv_cong:
  assumes "cs_store s' = cs_store s" "cs_file s' = cs_file s" "cs_binding s' = cs_binding s"
  shows "source_inv se Q s' = source_inv se Q s"
  using assms by (simp add: source_inv_def)

lemma source_inv_svc_ok: "source_inv se Q s \<Longrightarrow> svc_ok (dur_repos (cs_store s))"
  by (simp add: source_inv_def committed_inv_def)

lemma commit_good:
  assumes "source_ok se s" "good_stage stage" "commit_source se io stage s = (r, s')"
  shows "source_ok se s' \<and> grows s s'"
  using source_inv_commit [OF assms(1) _ _ _ assms(3)] assms(2) by (simp add: good_stage_def grows_def)

definition quiet :: "source_env \<Rightarrow> CommittedSource \<Rightarrow> CommittedSource \<Rightarrow> bool" where
  "quiet se s s' \<longleftrightarrow> source_ok se s' \<and> grows s s' \<and> benign s s'"

lemma quiet_same_store:
  assumes "quiet se s s'" "cs_store t = cs_store s" "cs_store t' = cs_store s'" "cs_file t' = cs_file s'" "cs_binding t' = cs_binding s'"
  shows "quiet se t t'"
  using assms source_inv_cong [of t' s'] by (simp add: quiet_def grows_def benign_def)

lemma quiet_refl: "source_ok se s \<Longrightarrow> quiet se s s"
  by (simp add: quiet_def grows_def benign_def)

lemma stale_revised:
  assumes "revise se b ext cp (stale state) = Inr cp'"
  shows "\<exists>st. cp_State cp' = Some st \<and> \<not> src_RosterFresh st"
  using reviseD [OF assms] by (auto simp: stale_def)

lemma commit_quiet:
  assumes ok: "source_ok se s" and good: "good_stage stage" and run: "commit_source se io stage s = (r, s')"
    and kind: "\<And>cp t x cp' t'. stage cp t = (Inr (x, cp'), t') \<Longrightarrow>
      (\<exists>state. cp_State cp' = Some state \<and> (\<not> src_RosterFresh state \<or> src_Halted state)) \<or>
      (cp_State cp' = cp_State cp \<and> cp_Revision cp' = cp_Revision cp)"
  shows "quiet se s s'"
proof -
  have "benign s s'"
    using commit_source_effect [OF run source_inv_svc_ok [OF ok]] kind unfolding benign_def by metis
  then show ?thesis using commit_good [OF ok good run] by (simp add: quiet_def)
qed

lemma invalidate_quiet:
  assumes "source_ok se s" "invalidate se io s = (r, s')"
  shows "quiet se s s'"
proof -
  obtain s1 where c: "commit_source se io (invalidate_stage se s) s = (r, s1)"
    and s': "s' = s1 \<or> s' = notify s1"
    using assms(2) by (auto simp: invalidate_def split: prod.splits sum.splits)
  have "quiet se s s1"
    using assms(1) good_invalidate c by (rule commit_quiet) (use invalidate_stageD stale_revised in metis)
  then show ?thesis using s' by (elim disjE) (auto simp: notify_def elim: quiet_same_store)
qed

lemma halt_quiet:
  assumes "source_ok se s" "halt se io s = (r, s')"
  shows "quiet se s s'"
  using assms(1) good_halt assms(2) [unfolded halt_def]
  by (rule commit_quiet) (auto simp: halt_stage_def op_check_app split: sum.splits)

lemma record_accepted_quiet:
  assumes "source_ok se s" "record_accepted se io cp s = (r, s')"
  shows "quiet se s s'"
proof -
  have "quiet se s s'" if "commit_source se io (accept_stage cp) s = (r, s')"
    using assms(1) good_accept that
    by (rule commit_quiet) (auto simp: accept_stage_def op_check_app split: if_splits)
  then show ?thesis using assms quiet_refl [OF assms(1)]
    by (auto simp: record_accepted_def notify_def split: sum.splits if_splits elim: quiet_same_store)
qed

lemma refuse_commit_quiet:
  assumes "source_ok se s" "commit_source se io (refuse_stage se s input conflict reply) s = (r, s1)"
  shows "quiet se s s1"
  using assms(1) good_refuse assms(2)
proof (rule commit_quiet)
  fix cp t x cp' t' assume "refuse_stage se s input conflict reply cp t = (Inr (x, cp'), t')"
  then obtain state cp1 where "revise se (cs_binding s) (cs_extended s) cp (stale state) = Inr cp1"
      and cp': "cp' = (if conflict then cp1 else rememberSource input (se_sha256 se (in_Content input)) reply cp1)"
    using refuse_stageD by blast
  then obtain st where "cp_State cp1 = Some st" "\<not> src_RosterFresh st" using stale_revised by blast
  then show "(\<exists>state. cp_State cp' = Some state \<and> (\<not> src_RosterFresh state \<or> src_Halted state)) \<or>
      (cp_State cp' = cp_State cp \<and> cp_Revision cp' = cp_Revision cp)"
    using cp' by (simp add: rememberSource_def)
qed

lemma refuse_quiet:
  assumes "source_ok se s" "refuse_message se io render input msg conflict er s = ((out, e), s')"
  shows "quiet se s s' \<and> \<not> sr_Applied out"
proof (cases "source_respond render msg ''NACK: committed source requires a fresh roster and complete bodies''")
  case (Inl e')
  then show ?thesis using assms(2) quiet_refl [OF assms(1)] by (auto simp: refuse_message_def zero_SourceResult_def)
next
  case (Inr reply)
  obtain r s1 where c: "commit_source se io (refuse_stage se s input conflict reply) s = (r, s1)" by fastforce
  have "s' = s1 \<or> s' = notify s1" "\<not> sr_Applied out"
    using assms(2) Inr c by (auto simp: refuse_message_def Let_def zero_SourceResult_def split: sum.splits)
  then show ?thesis using refuse_commit_quiet [OF assms(1) c]
    by (elim disjE) (auto simp: notify_def elim: quiet_same_store)
qed

text \<open>A message that is applied, and every other answer.\<close>

lemma Apply_step:
  assumes ok: "source_ok se s" and run: "Apply se io io' render input msg s = ((out, er), s')"
  shows "if sr_Applied out
    then source_ok se s' \<and> grows s s' \<and> (\<exists>cp t cp' t'. store_checkpoint s = Some cp \<and> store_checkpoint s' = Some cp'
       \<and> apply_stage se s render input msg cp t = (Inr (sr_Reply out, cp'), t')
       \<and> (\<exists>state. readSourceState (cp_State cp) = Inr state \<and> \<not> src_Halted state))
    else quiet se s s'"
proof -
  have answer: "\<not> sr_Applied (fst (answer_only render msg t))" for t
    by (simp add: answer_only_def zero_SourceResult_def split: sum.splits)
  consider (answered) "s' = s" "\<not> sr_Applied out"
    | (conflict) "refuse_message se io' render input msg True (Errorf ''messageID conflict'') s = ((out, er), s')"
    | (failed) e s1 where "commit_source se io (apply_stage se s render input msg) s = (Inl e, s1)"
        "refuse_message se io' render input msg False e s1 = ((out, er), s')"
    | (applied) cp state reply s1 where "available (cs_store s) = Inr cp" "readSourceState (cp_State cp) = Inr state"
        "\<not> src_Halted state" "commit_source se io (apply_stage se s render input msg) s = (Inr reply, s1)"
        "out = zero_SourceResult\<lparr>sr_Reply := reply, sr_Applied := True\<rparr>" "s' = notify s1"
    using run answer unfolding Apply_def Checkpoint_def
    by (auto simp: zero_SourceResult_def split: if_splits sum.splits option.splits prod.splits)
      (metis fst_conv)+
  then show ?thesis
  proof cases
    case answered
    then show ?thesis using quiet_refl [OF ok] by simp
  next
    case conflict
    then show ?thesis using refuse_quiet [OF ok] by simp
  next
    case failed
    have ok1: "source_ok se s1" using commit_good [OF ok good_apply failed(1)] by simp
    have "store_checkpoint s1 = store_checkpoint s"
      using commit_source_effect [OF failed(1) source_inv_svc_ok [OF ok]] by auto
    moreover have "quiet se s1 s'" "\<not> sr_Applied out" using refuse_quiet [OF ok1 failed(2)] by simp_all
    ultimately show ?thesis by (simp add: quiet_def grows_def benign_def)
  next
    case applied
    have cp: "store_checkpoint s = Some cp" using applied(1) by (auto simp: available_def split: option.splits if_splits)
    obtain t cp' t' where "apply_stage se s render input msg cp t = (Inr (reply, cp'), t')" "store_checkpoint s1 = Some cp'"
      using commit_source_effect [OF applied(4) source_inv_svc_ok [OF ok]] cp by auto
    moreover have "source_ok se s1 \<and> grows s s1" using commit_good [OF ok good_apply applied(4)] by simp
    ultimately show ?thesis using applied cp source_inv_cong [of s' s1]
      by (auto simp: notify_def grows_def zero_SourceResult_def)
  qed
qed

section \<open>Restarts\<close>

text \<open>Nothing the source holds counts as received: its roster is stale, or it is halted.\<close>

definition withdrawn :: "CommittedSource \<Rightarrow> bool" where
  "withdrawn s \<longleftrightarrow> (\<exists>cp state. store_checkpoint s = Some cp \<and> cp_State cp = Some state \<and> (\<not> src_RosterFresh state \<or> src_Halted state))"

lemma source_incomplete_stale: "\<not> source_complete (stale state)"
  by (simp add: source_complete_def stale_def)

lemma revise_stale_error:
  assumes "revise se b ext cp (stale state) = Inl e"
  shows "e \<noteq> errSourceHalted"
  using assms source_incomplete_stale [of state]
  by (auto simp: revise_def projection_def seal_def Let_def marshalSource_def sourceStrings_def errSourceHalted_def
      split: if_splits sum.splits)

lemma invalidate_halted:
  assumes "invalidate_stage se s cp t = (Inl errSourceHalted, t')"
  shows "\<exists>state. cp_State cp = Some state \<and> src_Halted state"
proof (cases "readSourceState (cp_State cp)")
  case (Inl e)
  then have "e \<noteq> errSourceHalted" by (auto simp: readSourceState_def errSourceHalted_def split: option.splits if_splits)
  then show ?thesis using assms Inl by (simp add: invalidate_stage_def op_check_app)
next
  case (Inr state)
  show ?thesis
  proof (cases "src_Halted state")
    case True
    then show ?thesis using Inr by (auto simp: readSourceState_def zero_sourceState_def split: option.splits if_splits)
  next
    case False
    then have "revise se (cs_binding s) (cs_extended s) cp (stale state) = Inl errSourceHalted"
      using assms Inr by (auto simp: invalidate_stage_def op_check_app map_sum_def split: sum.splits)
    then show ?thesis using revise_stale_error by blast
  qed
qed

lemma invalidate_withdrawn:
  assumes ok: "source_ok se s" and run: "invalidate se io s = (r, s')" and r: "r = Inr x \<or> r = Inl errSourceHalted"
  shows "withdrawn s'"
proof -
  obtain s1 where c: "commit_source se io (invalidate_stage se s) s = (r, s1)" and s': "store_checkpoint s' = store_checkpoint s1"
    using run by (auto simp: invalidate_def notify_def split: prod.splits sum.splits)
  from commit_source_effect [OF c source_inv_svc_ok [OF ok]] show ?thesis
  proof (elim disjE exE conjE)
    fix e assume "r = Inl e" "store_checkpoint s1 = store_checkpoint s"
      and halted: "e = errSourceHalted \<longrightarrow> (\<exists>cp t t'. store_checkpoint s = Some cp \<and> invalidate_stage se s cp t = (Inl e, t'))"
    then show ?thesis using r s' invalidate_halted unfolding withdrawn_def by (metis Inl_inject sum.distinct(1))
  next
    fix cp t y cp' t' assume "invalidate_stage se s cp t = (Inr (y, cp'), t')" "store_checkpoint s1 = Some cp'"
    then show ?thesis using s' invalidate_stageD stale_revised unfolding withdrawn_def by metis
  qed
qed

lemma opened_source_ok:
  assumes "read_checkpoint (source_codec se) b fl = Inr d" "checkpoint_ok (cf_Source fl)"
    and "cs_store s = d" "cs_file s = Holds fl" "cs_binding s = b"
  shows "source_ok se s \<and> store_checkpoint s = Some (cf_Source fl)"
proof -
  obtain u repos where d: "d = committed_durable b repos (cf_Source fl)"
    and valid: "validateCheckpoint (source_codec se) (cf_Source fl) b = Inr ()"
    and restore: "restoreSnapshot (cf_Snapshot fl) newMemoryRepos = (Inr u, repos)"
    using assms(1) by (auto simp: read_checkpoint_def split: if_splits sum.splits prod.splits)
  have "svc_ok repos"
    using keeps_okD [OF restoreSnapshot_keeps_ok [of "cf_Snapshot fl"], of newMemoryRepos] restore
    by (simp add: svc_ok_def newMemoryRepos_def NewMOSService_def)
  then show ?thesis using assms d valid
    by (auto simp: source_inv_def committed_inv_def committed_durable_def available_def reads_as_def newMemoryDurable_def)
qed

lemma started_ok:
  assumes "newCommittedSource se io url_Parse d f b token timeout ext = Inr s'"
    and "read_checkpoint (source_codec se) b fl = Inr d" "checkpoint_ok (cf_Source fl)" "f = Holds fl"
  shows "source_ok se s' \<and> withdrawn s' \<and> (\<exists>cp'. store_checkpoint s' = Some cp' \<and> prefix (cp_Receipts (cf_Source fl)) (cp_Receipts cp'))"
proof -
  let ?s = "\<lparr>cs_store = d, cs_file = f, cs_binding = b, cs_timeout = timeout, cs_sessions = [], cs_owners = [],
     cs_wake = False, cs_extended = ext\<rparr>"
  have ok: "source_ok se ?s" and cp: "store_checkpoint ?s = Some (cf_Source fl)"
    using opened_source_ok [OF assms(2,3), of ?s] assms(4) by auto
  obtain r where run: "invalidate se io ?s = (r, s')" and r: "(\<exists>x. r = Inr x) \<or> r = Inl errSourceHalted"
    using assms(1) by (auto simp: newCommittedSource_def Let_def split: sum.splits prod.splits if_splits)
  have "quiet se ?s s'" by (rule invalidate_quiet [OF ok run])
  moreover have "withdrawn s'" using invalidate_withdrawn [OF ok run] r by blast
  ultimately show ?thesis using cp by (auto simp: quiet_def grows_def source_inv_def)
qed

lemma restart_ok:
  assumes ok: "source_ok se s" and run: "restart se io sd url_Parse token s = Some s'"
  shows "source_ok se s' \<and> grows s s' \<and> withdrawn s'"
proof -
  obtain cp fl where held: "store_checkpoint s = Some cp" "cs_file s = Holds fl" "checkpoint_ok (cf_Source fl)"
      "prefix (cp_Receipts cp) (cp_Receipts (cf_Source fl))"
    using ok by (auto simp: source_inv_def)
  obtain d where r: "read_checkpoint (source_codec se) (cs_binding s) fl = Inr d"
    and n: "newCommittedSource se io url_Parse d (Holds fl) (cs_binding s) token (cs_timeout s) (cs_extended s) = Inr s'"
    using run held(2) by (auto simp: restart_def OpenCommitted_def split: sum.splits prod.splits)
  obtain cp' where "source_ok se s'" "withdrawn s'" "store_checkpoint s' = Some cp'"
      "prefix (cp_Receipts (cf_Source fl)) (cp_Receipts cp')"
    using started_ok [OF n r held(3)] by auto
  moreover from this(4) have "prefix (cp_Receipts cp) (cp_Receipts cp')" using held(4) prefix_order.trans by blast
  ultimately show ?thesis using held(1) by (simp add: grows_def)
qed

lemma provisioned_ok:
  assumes "provisioned se s"
  shows "source_ok se s \<and> withdrawn s"
proof -
  let ?fl = "new_file (source_codec se) (cs_binding s) empty_snapshot empty_checkpoint"
  obtain sd d f io url_Parse token where o: "OpenCommitted (source_codec se) Saved sd (cs_binding s) True Absent = (Inr d, f)"
    and n: "newCommittedSource se io url_Parse d f (cs_binding s) token (cs_timeout s) (cs_extended s) = Inr s"
    using assms by (auto simp: provisioned_def)
  have df: "d = committed_durable (cs_binding s) newMemoryRepos empty_checkpoint" "f = Holds ?fl"
    using o by (auto simp: OpenCommitted_def saveCheckpoint_def split: sum.splits)
  have "read_checkpoint (source_codec se) (cs_binding s) ?fl = Inr d"
    by (simp add: read_checkpoint_def new_file_def Let_def validateCheckpoint_def empty_checkpoint_def restoreSnapshot_def
        empty_snapshot_def df MaxSourceRevision_def)
  moreover have "checkpoint_ok (cf_Source ?fl)" by (simp add: new_file_def Let_def checkpoint_ok_def empty_checkpoint_def)
  ultimately show ?thesis using started_ok [OF n _ _ df(2)] by blast
qed

section \<open>Events\<close>

lemma withdrawn_benign: "withdrawn s' \<Longrightarrow> benign s s'"
  by (auto simp: withdrawn_def benign_def)

lemma Observe_quiet: "source_ok se s \<Longrightarrow> quiet se s (snd (Observe se io t input s))"
proof -
  assume ok: "source_ok se s"
  obtain r s1 where c: "invalidate se io s = (r, s1)" by fastforce
  have q: "quiet se s s1" by (rule invalidate_quiet [OF ok c])
  have touched: "quiet se s (s\<lparr>cs_sessions := m\<rparr>)" for m
    using quiet_refl [OF ok] by (auto elim: quiet_same_store)
  have moved: "quiet se s (s1\<lparr>cs_owners := m, cs_sessions := m'\<rparr>)" for m m'
    using q by (auto elim: quiet_same_store)
  have "snd (Observe se io t input s) \<in> {s, s1} \<union> range (\<lambda>m. s\<lparr>cs_sessions := m\<rparr>) \<union>
      range (\<lambda>(m, m'). s1\<lparr>cs_owners := m, cs_sessions := m'\<rparr>)"
    by (auto simp: Observe_def Let_def c image_iff split: sum.splits option.splits)
  then show ?thesis using ok q quiet_refl touched moved by auto
qed

lemma store_releaseSession [simp]:
  "cs_store (snd (releaseSession k s)) = cs_store s" "cs_file (snd (releaseSession k s)) = cs_file s"
  "cs_binding (snd (releaseSession k s)) = cs_binding s"
  by (simp_all add: releaseSession_def)

lemma store_drop_sessions:
  "cs_store (snd (drop_sessions ks s)) = cs_store s \<and> cs_file (snd (drop_sessions ks s)) = cs_file s
   \<and> cs_binding (snd (drop_sessions ks s)) = cs_binding s"
proof -
  have "cs_store (snd (fold (\<lambda>k (expired, s). case releaseSession k (s\<lparr>cs_sessions := gm_delete k (cs_sessions s)\<rparr>) of
      (released, s) \<Rightarrow> (expired \<or> released, s)) ks (x, s))) = cs_store s \<and>
    cs_file (snd (fold (\<lambda>k (expired, s). case releaseSession k (s\<lparr>cs_sessions := gm_delete k (cs_sessions s)\<rparr>) of
      (released, s) \<Rightarrow> (expired \<or> released, s)) ks (x, s))) = cs_file s \<and>
    cs_binding (snd (fold (\<lambda>k (expired, s). case releaseSession k (s\<lparr>cs_sessions := gm_delete k (cs_sessions s)\<rparr>) of
      (released, s) \<Rightarrow> (expired \<or> released, s)) ks (x, s))) = cs_binding s" for x
    by (induction ks arbitrary: x s) (simp_all add: releaseSession_def)
  then show ?thesis by (simp add: drop_sessions_def)
qed

lemma quiet_after_release:
  assumes "source_ok se s" "cs_store s1 = cs_store s" "cs_file s1 = cs_file s" "cs_binding s1 = cs_binding s"
  shows "quiet se s (snd (invalidate se io s1)) \<and> quiet se s s1"
proof -
  obtain r s2 where c: "invalidate se io s1 = (r, s2)" by fastforce
  have "source_ok se s1" using assms source_inv_cong [of s1 s] by simp
  then have "quiet se s1 s2" using invalidate_quiet c by blast
  then have "quiet se s s2" using assms(2) by (auto elim: quiet_same_store)
  moreover have "quiet se s s1" using quiet_refl [OF assms(1)] assms(2-) by (auto elim: quiet_same_store)
  ultimately show ?thesis using c by simp
qed

lemma Disconnected_quiet: "source_ok se s \<Longrightarrow> quiet se s (Disconnected se io session s)"
  using quiet_after_release [of se s "snd (releaseSession session (s\<lparr>cs_sessions := gm_delete session (cs_sessions s)\<rparr>))" io]
  by (auto simp: Disconnected_def quiet_refl split: prod.splits)

lemma Uncertain_quiet: "source_ok se s \<Longrightarrow> quiet se s (Uncertain se io session s)"
  using quiet_after_release [of se s s io] by (simp add: Uncertain_def quiet_refl)

lemma Refresh_quiet:
  assumes "source_ok se s"
  shows "quiet se s (RefreshSession t session s)"
proof -
  have "quiet se s (s\<lparr>cs_sessions := m\<rparr>)" for m using quiet_refl [OF assms] by (auto elim: quiet_same_store)
  then show ?thesis using quiet_refl [OF assms] by (simp add: RefreshSession_def split: option.splits)
qed

lemma Prepare_quiet: "source_ok se s \<Longrightarrow> quiet se s (snd (publish_prepare se io t s))"
proof -
  assume ok: "source_ok se s"
  obtain expired s1 where d: "drop_sessions (expired_sessions t s) s = (expired, s1)" by fastforce
  have "quiet se s (snd (invalidate se io s1)) \<and> quiet se s s1"
    using quiet_after_release [OF ok] store_drop_sessions [of "expired_sessions t s" s] d by simp
  then show ?thesis by (auto simp: publish_prepare_def d split: prod.splits sum.splits)
qed

lemma Finish_quiet: "source_ok se s \<Longrightarrow> quiet se s (snd (publish_finish se io cp answer s))"
  by (cases answer)
    (auto simp: publish_finish_def quiet_refl split: prod.splits sum.splits dest: halt_quiet record_accepted_quiet
      intro: halt_quiet record_accepted_quiet [of se s io cp _ "snd (record_accepted se io cp s)"]
        prod.collapse [symmetric])

definition mem_log :: "log_entry list \<Rightarrow> CommittedSource \<Rightarrow> bool" where
  "mem_log log s \<longleftrightarrow> (\<forall>cp state. store_checkpoint s = Some cp \<longrightarrow> cp_State cp = Some state \<longrightarrow> \<not> src_Halted state \<longrightarrow>
     log_ok log state)"

lemma withdrawn_mem_log: "withdrawn s \<Longrightarrow> mem_log log s"
  by (auto simp: withdrawn_def mem_log_def log_ok_def)

lemma benign_mem_log:
  assumes "benign s s'" "mem_log log s"
  shows "mem_log (log @ log_of s (None, s')) s'"
proof -
  consider (same) "store_checkpoint s' = store_checkpoint s" | (withdrawn) "withdrawn s'"
    | (kept) cp cp' where "store_checkpoint s = Some cp" "store_checkpoint s' = Some cp'" "cp_State cp' = cp_State cp"
        "cp_Revision cp' = cp_Revision cp"
    using assms(1) unfolding benign_def withdrawn_def by blast
  then show ?thesis
  proof cases
    case same
    then show ?thesis using assms(2) by (simp add: mem_log_def log_of_def revision_of_def)
  next
    case withdrawn
    then show ?thesis by (rule withdrawn_mem_log)
  next
    case kept
    then show ?thesis using assms(2) by (simp add: mem_log_def log_of_def revision_of_def)
  qed
qed

lemma applied_mem_log:
  assumes "source_ok se s" "mem_log log s" "store_checkpoint s = Some cp" "store_checkpoint s' = Some cp'"
    and stage: "apply_stage se s render input msg cp t = (Inr (reply, cp'), t')"
    and read: "readSourceState (cp_State cp) = Inr state" and "\<not> src_Halted state"
  shows "mem_log (log @ [Committed msg]) s'"
proof -
  obtain state' cp1 u where st: "applyMessage se (cs_binding s) state msg (in_Content input) t = (Inr state', u)"
      "revise se (cs_binding s) (cs_extended s) cp state' = Inr cp1"
      "cp' = rememberSource input (se_sha256 se (in_Content input)) reply cp1"
    using apply_stageD [OF stage] read by auto
  have "checkpoint_ok cp" using assms(1,3) by (auto simp: source_inv_def)
  then have "stories_ok (src_Stories state)" using read by (rule readSourceState_ok)
  moreover have "log_ok log state"
    using assms(2,3,7) read
    by (cases "cp_State cp") (auto simp: mem_log_def readSourceState_def zero_sourceState_def log_ok_def split: if_splits)
  ultimately have "log_ok (log @ [Committed msg]) state'" using applyMessage_log [OF st(1)] by blast
  moreover obtain problem where "cp_State cp' = Some (state'\<lparr>src_Problem := problem\<rparr>)"
    using reviseD [OF st(2)] st(3) by (auto simp: rememberSource_def)
  ultimately show ?thesis using assms(4) by (auto simp: mem_log_def intro: log_ok_same)
qed

lemma exec_ok:
  assumes ok: "source_ok se s" and log: "mem_log log s" and run: "source_exec se ev s = Some r"
  shows "source_ok se (snd r) \<and> grows s (snd r) \<and> mem_log (log @ log_of s r) (snd r)"
proof -
  have quiet: ?thesis if "r = (None, s')" "quiet se s s'" for s'
    using that benign_mem_log [OF _ log] by (simp add: quiet_def)
  show ?thesis
  proof (cases ev)
    case (EvApply io io' render input msg)
    obtain out er s' where a: "Apply se io io' render input msg s = ((out, er), s')" by (metis surj_pair)
    then have r: "r = (if sr_Applied out then Some msg else None, s')" using run EvApply by (auto simp: source_exec_def)
    show ?thesis
    proof (cases "sr_Applied out")
      case True
      then show ?thesis using Apply_step [OF ok a] r applied_mem_log [OF ok log] by (auto simp: log_of_def)
    next
      case False
      then show ?thesis using Apply_step [OF ok a] r quiet by simp
    qed
  next
    case (EvRestart io sd url_Parse token)
    then obtain s' where "restart se io sd url_Parse token s = Some s'" "r = (None, s')"
      using run by (auto simp: source_exec_def)
    then show ?thesis using restart_ok [OF ok] withdrawn_mem_log by auto
  qed (use run ok quiet Observe_quiet Refresh_quiet Disconnected_quiet Uncertain_quiet Prepare_quiet Finish_quiet in
      \<open>auto simp: source_exec_def\<close>)
qed

lemma run_ok:
  assumes "source_ok se s" "mem_log log s" "source_run se evs (log, s) = Some (log', s')"
  shows "source_ok se s' \<and> mem_log log' s' \<and> grows s s'"
  using assms
proof (induction evs arbitrary: log s)
  case Nil
  then show ?case by (simp add: grows_def)
next
  case (Cons ev evs)
  then obtain r where r: "source_exec se ev s = Some r" "source_run se evs (log @ log_of s r, snd r) = Some (log', s')"
    by (auto split: option.splits)
  note step = exec_ok [OF Cons.prems(1,2) r(1)]
  then have rest: "source_ok se s' \<and> mem_log log' s' \<and> grows (snd r) s'" using Cons.IH [OF _ _ r(2)] by blast
  moreover obtain cp1 where "store_checkpoint (snd r) = Some cp1" using step by (auto simp: source_inv_def)
  ultimately show ?case using step by (auto simp: grows_def intro: prefix_order.trans)
qed

section \<open>Properties of a whole run\<close>


lemma available_validated:
  assumes "source_inv se Q s" "available (cs_store s) = Inr cp" "cp_Receipts cp \<noteq> []"
  shows "distinct (map receipt_key (cp_Receipts cp))"
proof -
  have "validateCheckpoint (source_codec se) cp (dur_binding (cs_store s)) = Inr ()"
    using assms(1,2) unfolding source_inv_def committed_inv_def by auto
  then show ?thesis using assms(3) by (auto simp: validateCheckpoint_def split: if_splits)
qed

lemma find_receipt:
  assumes "distinct (map receipt_key rs)" "r \<in> set rs" "matching_receipt input msg r"
  shows "List.find (matching_receipt input msg) rs = Some r"
proof -
  obtain r' where r': "List.find (matching_receipt input msg) rs = Some r'"
    using assms(2,3) find_None_notin by (metis option.exhaust)
  then have "r' \<in> set rs" "matching_receipt input msg r'" using find_Some_in by metis+
  moreover from this(2) have "receipt_key r' = receipt_key r" using assms(3) by (simp add: matching_receipt_def receipt_key_def)
  ultimately show ?thesis using assms(1,2) r' by (auto simp: distinct_map inj_on_def)
qed

lemma applied_receipt:
  assumes "apply_stage se s render input msg cp t = (Inr (reply, cp'), t')" "in_MessageID input \<noteq> []"
  shows "\<lparr>rcp_Scope = in_Scope input, rcp_NCSID = in_NCSID input, rcp_MessageID = in_MessageID input,
     rcp_Hash = se_sha256 se (in_Content input), rcp_Response = reply\<rparr> \<in> set (cp_Receipts cp')"
  using apply_stageD [OF assms(1)] assms(2) by (auto simp: rememberSource_def)

text \<open>
  C3. A message is applied once. When a message with an identifier has been applied, then after anything else
  that may have happened, restarts included, the same message from a live connection is answered with the
  bytes of the first answer, and nothing changes. The condition on the answer is that the transport renders
  an acknowledgement as a non-empty text, because an empty answer marks a message that gets none.
\<close>

theorem retried_message_replayed:
  assumes start: "provisioned se s0" and before: "source_run se evs ([], s0) = Some (log, s)"
    and first: "Apply se io io' render input msg s = ((out, er), s1)" "sr_Applied out"
    and msgid: "in_MessageID input \<noteq> []" and rendered: "(sr_Reply out = []) = silent msg"
    and between: "source_run se evs' (log @ [Committed msg], s1) = Some (log2, s2)"
    and again: "in_Scope again = in_Scope input" "in_NCSID again = in_NCSID input"
      "in_MessageID again = in_MessageID input" "in_Content again = in_Content input" "silent msg' = silent msg"
    and live: "\<not> outside_binding (cs_binding s2) again msg'" "gm_get (cs_sessions s2) (in_Session again) \<noteq> None"
      "gm_string (cs_owners s2) (in_Scope again) = in_Session again"
    and avail: "Checkpoint (cs_store s2) = Inr cp" "readSourceState (cp_State cp) = Inr state" "\<not> src_Halted state"
  shows "Apply se io2 io2' render' again msg' s2 = ((zero_SourceResult\<lparr>sr_Reply := sr_Reply out\<rparr>, None), s2)"
proof -
  have ok: "source_ok se s" "mem_log log s"
    using run_ok [OF _ withdrawn_mem_log before] provisioned_ok [OF start] by blast+
  obtain cp0 cp1 t t' state0 where s1: "source_ok se s1" "store_checkpoint s = Some cp0" "store_checkpoint s1 = Some cp1"
      "apply_stage se s render input msg cp0 t = (Inr (sr_Reply out, cp1), t')"
      "readSourceState (cp_State cp0) = Inr state0" "\<not> src_Halted state0"
    using Apply_step [OF ok(1) first(1)] first(2) by auto
  let ?r = "\<lparr>rcp_Scope = in_Scope input, rcp_NCSID = in_NCSID input, rcp_MessageID = in_MessageID input,
     rcp_Hash = se_sha256 se (in_Content input), rcp_Response = sr_Reply out\<rparr>"
  have s2: "source_ok se s2" "grows s1 s2"
    using run_ok [OF s1(1) applied_mem_log [OF ok s1(2-6)] between] by auto
  have cp: "store_checkpoint s2 = Some cp" using avail(1) by (auto simp: Checkpoint_def available_def split: option.splits if_splits)
  have r: "?r \<in> set (cp_Receipts cp)"
    using applied_receipt [OF s1(4) msgid] s2(2) s1(3) cp set_mono_prefix by (fastforce simp: grows_def)
  have "distinct (map receipt_key (cp_Receipts cp))"
    using available_validated [OF s2(1), of cp] avail(1) r by (force simp: Checkpoint_def)
  moreover have "matching_receipt again msg' ?r" using again rendered by (simp add: matching_receipt_def)
  ultimately have "List.find (matching_receipt again msg') (cp_Receipts cp) = Some ?r" using r find_receipt by blast
  then show ?thesis using live avail again msgid by (auto simp: Apply_def)
qed

section \<open>An example run\<close>

definition example_source_env :: source_env where
  "example_source_env = \<lparr>se_go = example_env, se_sha256 = (\<lambda>_. replicate 64 CHR ''a''), se_children = (\<lambda>_. Inr []), se_json_length = (\<lambda>_. 0), se_digest = (\<lambda>_. ''d'')\<rparr>"
definition example_binding :: SourceBinding where
  "example_binding = \<lparr>bnd_SourceID = ''S'', bnd_RundownID = ''R'', bnd_MosID = ''M'', bnd_NCSID = ''N'', bnd_Transport = ''tcp'',
     bnd_Destination = ''http://127.0.0.1/v1/openmos-snapshots''\<rparr>"
definition example_url :: "string \<Rightarrow> parsed_url option" where
  "example_url d = Some \<lparr>url_Scheme = ''http'', url_loopback = True, url_user = False, url_RawQuery = [], url_Fragment = [],
     url_Path = ''/v1/openmos-snapshots'', url_RawPath = []\<rparr>"
definition example_dir :: source_dir where
  "example_dir = \<lparr>sd_given = True, sd_created = True, sd_locked = True, sd_catalogue = False, sd_legacy = False\<rparr>"
definition example_start :: "CommittedSource result" where
  "example_start = (case OpenCommitted (source_codec example_source_env) Saved example_dir example_binding True Absent of
     (Inl e, f) \<Rightarrow> Inl e
   | (Inr d, f) \<Rightarrow> newCommittedSource example_source_env (False, Saved) example_url d f example_binding ''t'' 5 False)"

definition example_source :: CommittedSource where
  "example_source = projr example_start"

definition example_input :: "string \<Rightarrow> SourceInput" where
  "example_input k = \<lparr>in_Transport = ''tcp'', in_Scope = ''tcp:ro'', in_NCSID = ''N'', in_MessageID = k, in_Session = ''c1'',
     in_Content = ''x'' @ k\<rparr>"

definition example_roster :: svc_message where
  "example_roster = RoReplace (roster_of ''R'' ''News'' [] [] [zero_StoryInfo\<lparr>si_ID := ''A'', si_Slug := ''Top''\<rparr>] [])"

definition example_story_body :: svc_message where
  "example_story_body = RoStorySend \<lparr>rss_ROID = ''R'', rss_StoryID = ''A'', rss_StorySlug = ''Top'', rss_StoryNum = [],
     rss_StoryBody = zero_StoryBody\<lparr>sb_XMLName := ''storyBody'', sb_sourceXML := Some
       [Element ''p'' [] [CharData ''[TAKE VO]'' ''[TAKE VO]''] ''<p>[TAKE VO]</p>'']\<rparr>, rss_ExternalMeta = []\<rparr>"

definition example_render :: "string \<Rightarrow> string \<Rightarrow> string result" where
  "example_render roID status = Inr (roID @ '' '' @ status)"

definition example_io :: commit_io where "example_io = (False, Saved)"

definition example_events :: "source_event list" where
  "example_events = [EvObserve example_io 1 (example_input ''1''),
     EvApply example_io example_io example_render (example_input ''1'') example_roster,
     EvApply example_io example_io example_render (example_input ''2'') example_story_body]"

definition run_end :: "source_event list \<Rightarrow> CommittedSource \<Rightarrow> log_entry list \<times> CommittedSource" where
  "run_end evs s = the (source_run example_source_env evs ([], s))"

lemma example_provisioned: "provisioned example_source_env example_source"
proof -
  have "\<not> isl example_start" by code_simp
  then have start: "example_start = Inr example_source" by (simp add: example_source_def)
  then obtain d f where "OpenCommitted (source_codec example_source_env) Saved example_dir example_binding True Absent = (Inr d, f)"
      "newCommittedSource example_source_env (False, Saved) example_url d f example_binding ''t'' 5 False = Inr example_source"
    by (auto simp: example_start_def split: prod.splits sum.splits)
  moreover have "cs_binding example_source = example_binding" "cs_timeout example_source = 5" "cs_extended example_source = False"
    by code_simp+
  ultimately show ?thesis unfolding provisioned_def by metis
qed

lemma run_endI: "source_run example_source_env evs ([], s) \<noteq> None \<Longrightarrow>
    source_run example_source_env evs ([], s) = Some (fst (run_end evs s), snd (run_end evs s))"
  by (auto simp: run_end_def)

definition example_checkpoint :: checkpoint where
  "example_checkpoint = projr (available (cs_store (snd (run_end example_events example_source))))"


text \<open>The roster is sent again over a new connection after a restart.\<close>

definition example_retry :: SourceInput where
  "example_retry = (example_input ''1'')\<lparr>in_Session := ''c2''\<rparr>"

definition first_events :: "source_event list" where
  "first_events = [EvObserve example_io 1 (example_input ''1'')]"

definition first_answer :: "(SourceResult \<times> go_error option) \<times> CommittedSource" where
  "first_answer = Apply example_source_env example_io example_io example_render (example_input ''1'') example_roster
     (snd (run_end first_events example_source))"

definition later_events :: "source_event list" where
  "later_events = [EvRestart example_io example_dir example_url ''t'', EvObserve example_io 9 example_retry]"

definition after_restart :: "(log_entry list \<times> CommittedSource) option" where
  "after_restart = source_run example_source_env later_events
     (fst (run_end first_events example_source) @ [Committed example_roster], snd first_answer)"

theorem retried_message_replayed_witness:
  "Apply example_source_env example_io example_io example_render example_retry example_roster (snd (the after_restart)) =
     ((zero_SourceResult\<lparr>sr_Reply := ''R OK''\<rparr>, None), snd (the after_restart))"
proof -
  let ?s2 = "snd (the after_restart)"
  let ?cp = "projr (Checkpoint (cs_store ?s2))"
  let ?state = "projr (readSourceState (cp_State ?cp))"
  have run: "source_run example_source_env first_events ([], example_source) =
      Some (fst (run_end first_events example_source), snd (run_end first_events example_source))"
    by (rule run_endI) code_simp
  have first: "Apply example_source_env example_io example_io example_render (example_input ''1'') example_roster
     (snd (run_end first_events example_source)) = ((fst (fst first_answer), snd (fst first_answer)), snd first_answer)"
    by (simp add: first_answer_def)
  have out: "sr_Applied (fst (fst first_answer))" "sr_Reply (fst (fst first_answer)) = ''R OK''" by code_simp+
  have "after_restart \<noteq> None" by code_simp
  then have between: "source_run example_source_env later_events
     (fst (run_end first_events example_source) @ [Committed example_roster], snd first_answer) = Some (fst (the after_restart), ?s2)"
    by (auto simp: after_restart_def)
  have live: "\<not> outside_binding (cs_binding ?s2) example_retry example_roster" "gm_get (cs_sessions ?s2) (in_Session example_retry) \<noteq> None"
      "gm_string (cs_owners ?s2) (in_Scope example_retry) = in_Session example_retry"
    by code_simp+
  have "\<not> isl (Checkpoint (cs_store ?s2))" "\<not> isl (readSourceState (cp_State ?cp))" by code_simp+
  then have avail: "Checkpoint (cs_store ?s2) = Inr ?cp" "readSourceState (cp_State ?cp) = Inr ?state" by simp_all
  have "\<not> src_Halted ?state" by code_simp
  moreover have same: "in_Scope example_retry = in_Scope (example_input ''1'')" "in_NCSID example_retry = in_NCSID (example_input ''1'')"
      "in_MessageID example_retry = in_MessageID (example_input ''1'')" "in_Content example_retry = in_Content (example_input ''1'')"
      "in_MessageID (example_input ''1'') \<noteq> []"
    by (simp_all add: example_retry_def example_input_def)
  moreover have "(sr_Reply (fst (fst first_answer)) = []) = silent example_roster" by (simp add: out silent_def example_roster_def)
  ultimately show ?thesis
    using retried_message_replayed [OF example_provisioned run first out(1) same(5) _ between same(1-4) refl live avail] out(2)
    by simp
qed

end
