(* ===== verification/SourceSync.thy ===== *)
theory SourceSync
  imports Source "HOL-Library.Code_Target_Nat"
begin

text \<open>
  The version 2 transfer (\<open>src/internal/service/source_sync.go\<close>): a committed payload is cut into objects
  that are named by the hash of their bytes, the receiver is asked which of them it misses, those are sent in
  parts, and the manifest is committed.

  Encoding and decoding of JSON, the hash and the size of an encoded request are fields of \<open>json_env\<close>. One
  call of \<open>step\<close> sends one request, which is \<open>next_request\<close> of the state; how the exchange ends is an
  argument. A reply is decoded into the struct of its request; \<open>sync_reply\<close> has the fields of all of them,
  each with Go's zero value when the reply does not have it.
\<close>

section \<open>Data\<close>

record json_env =
  js_object :: "string \<Rightarrow> string gomap option"
  js_array :: "string \<Rightarrow> string list option"
  js_string :: "string \<Rightarrow> string option"
  js_number :: "string \<Rightarrow> nat option"
  js_story_id :: "string \<Rightarrow> string option"
  js_canonical :: "string \<Rightarrow> string result"
  js_put_object :: "string gomap \<Rightarrow> string option"
  js_put_array :: "string list \<Rightarrow> string option"
  js_put_strings :: "string list \<Rightarrow> string"
  js_put_refs :: "(string \<times> string) list \<Rightarrow> string"
  js_sha256 :: "string \<Rightarrow> string"

record sourceObject =
  so_Hash :: string
  so_Body :: string

record transfer_binding =
  tb_sourceId :: string
  tb_rundownId :: "string option"
  tb_revision :: nat
  tb_manifest :: string

record sourceTransfer =
  tr_binding :: transfer_binding
  tr_objects :: "sourceObject list"
  tr_started :: bool
  tr_published :: bool
  tr_scan :: nat
  tr_part :: nat
  tr_queue :: "sourceObject list"

definition sourcePartBytes :: nat where "sourcePartBytes = 32768"

definition sourceChunkBytes :: nat where "sourceChunkBytes = 128 * 1024"

definition errSourceContinue :: go_error where
  "errSourceContinue = Errorf ''source transfer has more bounded work''"

section \<open>Cutting a payload into objects\<close>

definition makeSourceObject :: "json_env \<Rightarrow> string \<Rightarrow> sourceObject" where
  "makeSourceObject je raw = \<lparr>so_Hash = js_sha256 je raw, so_Body = raw\<rparr>"

text \<open>How many rows the next chunk takes: at least one, then as long as the bound is kept.\<close>

fun chunk_rows :: "nat \<Rightarrow> bool \<Rightarrow> string list \<Rightarrow> nat" where
  "chunk_rows bytes first [] = 0"
| "chunk_rows bytes first (row # rows) =
     (if first \<or> bytes + length row + 1 \<le> sourceChunkBytes
      then Suc (chunk_rows (bytes + length row + 1) False rows) else 0)"

function split_rows :: "json_env \<Rightarrow> string list \<Rightarrow> (string list \<times> sourceObject list) result" where
  "split_rows je rows =
     (if rows = [] then Inr ([], [])
      else let n = chunk_rows 2 True rows in
        case js_put_array je (take n rows) of
          None \<Rightarrow> Inl (Errorf ''marshal source rows'')
        | Some raw \<Rightarrow>
            (case split_rows je (drop n rows) of
               Inl e \<Rightarrow> Inl e
             | Inr (hashes, objects) \<Rightarrow>
                 let object = makeSourceObject je raw in Inr (so_Hash object # hashes, object # objects)))"
  by pat_completeness auto
termination
  by (relation "measure (\<lambda>(je, rows). length rows)") (auto simp: neq_Nil_conv)

declare split_rows.simps [simp del]

text \<open>One story: its reference and the objects it adds, large occurrence lists first.\<close>

definition large_story :: "json_env \<Rightarrow> string \<Rightarrow> (string \<times> sourceObject list) result" where
  "large_story je canonical =
     (case js_object je canonical of
        None \<Rightarrow> Inl (Errorf ''decode story'')
      | Some flds \<Rightarrow>
          (case js_array je (gm_string flds ''occurrences'') of
             None \<Rightarrow> Inl (Errorf ''decode occurrences'')
           | Some occurrences \<Rightarrow>
               (case split_rows je occurrences of
                  Inl e \<Rightarrow> Inl e
                | Inr (chunks, parts) \<Rightarrow>
                    (let flds = gm_set ''occurrenceParts'' (js_put_strings je chunks) (gm_delete ''occurrences'' flds) in
                     Inr (case js_put_object je flds of None \<Rightarrow> [] | Some c \<Rightarrow> c, parts)))))"

definition story_objects :: "json_env \<Rightarrow> string \<Rightarrow> ((string \<times> string) \<times> sourceObject list) result" where
  "story_objects je rawStory =
     (case js_story_id je rawStory of
        None \<Rightarrow> Inl (Errorf ''decode story identity'')
      | Some k \<Rightarrow>
          (case js_canonical je rawStory of
             Inl e \<Rightarrow> Inl e
           | Inr canonical \<Rightarrow>
               (case (if length canonical > sourceChunkBytes then large_story je canonical else Inr (canonical, [])) of
                  Inl e \<Rightarrow> Inl e
                | Inr (body, parts) \<Rightarrow>
                    (let object = makeSourceObject je body in Inr ((k, so_Hash object), parts @ [object])))))"

fun all_story_objects :: "json_env \<Rightarrow> string list \<Rightarrow> ((string \<times> string) list \<times> sourceObject list) result" where
  "all_story_objects je [] = Inr ([], [])"
| "all_story_objects je (rawStory # rest) =
     (case story_objects je rawStory of
        Inl e \<Rightarrow> Inl e
      | Inr (ref, objects) \<Rightarrow>
          (case all_story_objects je rest of
             Inl e \<Rightarrow> Inl e
           | Inr (refs, more_objects) \<Rightarrow> Inr (ref # refs, objects @ more_objects)))"

text \<open>An array of the document above the bound becomes a list of chunk hashes under another key.\<close>

definition split_field :: "json_env \<Rightarrow> string \<Rightarrow> string \<Rightarrow> string gomap \<Rightarrow> (string gomap \<times> sourceObject list) result" where
  "split_field je key parts_key document =
     (if length (gm_string document key) > sourceChunkBytes then
        (case js_array je (gm_string document key) of
           None \<Rightarrow> Inl (Errorf ''decode source rows'')
         | Some rows \<Rightarrow>
             (case split_rows je rows of
                Inl e \<Rightarrow> Inl e
              | Inr (chunks, objects) \<Rightarrow>
                  Inr (gm_set parts_key (js_put_strings je chunks) (gm_delete key document), objects)))
      else Inr (document, []))"

definition split_stories :: "json_env \<Rightarrow> string gomap \<Rightarrow> (string gomap \<times> sourceObject list) result" where
  "split_stories je document =
     (case js_array je (gm_string document ''stories'') of
        None \<Rightarrow> Inl (Errorf ''decode stories'')
      | Some stories \<Rightarrow>
          (case all_story_objects je stories of
             Inl e \<Rightarrow> Inl e
           | Inr (refs, objects) \<Rightarrow>
               (case split_field je ''stories'' ''storyParts'' (gm_set ''stories'' (js_put_refs je refs) document) of
                  Inl e \<Rightarrow> Inl e
                | Inr (document, parts) \<Rightarrow> Inr (document, objects @ parts))))"

fun unique_objects :: "string list \<Rightarrow> sourceObject list \<Rightarrow> sourceObject list" where
  "unique_objects seen [] = []"
| "unique_objects seen (x # xs) =
     (if so_Hash x \<in> set seen then unique_objects seen xs else x # unique_objects (so_Hash x # seen) xs)"

definition source_document :: "json_env \<Rightarrow> string gomap \<Rightarrow> (string option \<times> string gomap \<times> sourceObject list) result" where
  "source_document je document =
     (case gm_get document ''rundownId'' of
        None \<Rightarrow> Inr (None, document, [])
      | Some raw \<Rightarrow>
          (case js_string je raw of
             None \<Rightarrow> Inl (Errorf ''decode rundown identity'')
           | Some rundownID \<Rightarrow> map_sum id (\<lambda>(document, objects). (Some rundownID, document, objects)) (split_stories je document)))"

definition newSourceTransfer :: "json_env \<Rightarrow> string \<Rightarrow> sourceTransfer result" where
  "newSourceTransfer je raw =
     (case js_object je raw of
        None \<Rightarrow> Inl (Errorf ''decode committed source'')
      | Some document \<Rightarrow>
     (case (js_string je (gm_string document ''sourceId''), js_number je (gm_string document ''revision'')) of
        (Some sourceID, Some revision) \<Rightarrow>
     (case source_document je document of
        Inl e \<Rightarrow> Inl e
      | Inr (rundownID, document, objects) \<Rightarrow>
     (case split_field je ''rundowns'' ''rundownParts'' document of
        Inl e \<Rightarrow> Inl e
      | Inr (document, parts) \<Rightarrow>
     (case js_put_object je document of
        None \<Rightarrow> Inl (Errorf ''marshal manifest'')
      | Some manifest \<Rightarrow>
          (let object = makeSourceObject je manifest in
           Inr \<lparr>tr_binding = \<lparr>tb_sourceId = sourceID, tb_rundownId = rundownID, tb_revision = revision, tb_manifest = so_Hash object\<rparr>,
             tr_objects = unique_objects [] (object # objects @ parts), tr_started = False, tr_published = False,
             tr_scan = 0, tr_part = 0, tr_queue = []\<rparr>))))
      | _ \<Rightarrow> Inl (Errorf ''invalid committed source header'')))"

section \<open>One exchange\<close>

datatype sync_request =
    ReqStart | ReqMissing "string list"
  | ReqPart (rq_hash: string) (rq_index: nat) (rq_parts: nat) (rq_bytes: nat) (rq_data: string)
  | ReqCommit | ReqHeartbeat

record sync_reply =
  rp_sourceId :: string
  rp_rundownId :: "string option"
  rp_revision :: nat
  rp_published :: bool
  rp_hash :: string
  rp_stored :: bool
  rp_missing :: "string list option"
  rp_acceptedRevision :: nat
  rp_duplicate :: "bool option"
  rp_applied :: "bool option"

text \<open>
  How an exchange ends: the request cannot be built, the receiver cannot be reached, its answer is too long, or
  it answers with a status, the code of a problem, and a reply when that decodes.
\<close>

datatype sync_outcome = BadRequest | Unavailable | AnswerTooLong | Answered nat string "sync_reply option"

definition request ::
    "(transfer_binding \<Rightarrow> sync_request \<Rightarrow> nat) \<Rightarrow> sync_request \<Rightarrow> sync_outcome \<Rightarrow> sourceTransfer \<Rightarrow> sync_reply result \<times> sourceTransfer" where
  "request size_of q out t =
     (if size_of (tr_binding t) q > 65536 then (Inl (Errorf ''source request exceeds negotiated bound''), t)
      else case out of
        BadRequest \<Rightarrow> (Inl (Errorf ''new request''), t)
      | Unavailable \<Rightarrow> (Inl (Errorf ''source sync receiver unavailable''), t)
      | AnswerTooLong \<Rightarrow> (Inl (Errorf ''source sync receipt exceeds bound''), t)
      | Answered status code reply \<Rightarrow>
          if status \<noteq> 200 \<and> status \<noteq> 202 then
            (if status = 409 \<and> code = ''source_revision_conflict'' then (Inl errSourceHalted, t)
             else (Inl (Errorf ''source sync receiver returned an HTTP error''),
               if code = ''source_parts_missing''
               then t\<lparr>tr_started := False, tr_scan := 0, tr_queue := [], tr_part := 0\<rparr> else t))
          else (case reply of None \<Rightarrow> (Inl (Errorf ''invalid source sync receipt''), t) | Some r \<Rightarrow> (Inr r, t)))"

definition matchesRundown :: "sourceTransfer \<Rightarrow> string option \<Rightarrow> bool" where
  "matchesRundown t k \<longleftrightarrow> k = None \<and> tb_rundownId (tr_binding t) = None \<or> k \<noteq> None \<and> k = tb_rundownId (tr_binding t)"

definition scan_end :: "sourceTransfer \<Rightarrow> nat" where
  "scan_end t = min (tr_scan t + 256) (length (tr_objects t))"

definition scan_window :: "sourceTransfer \<Rightarrow> sourceObject list" where
  "scan_window t = take (scan_end t - tr_scan t) (drop (tr_scan t) (tr_objects t))"

definition part_request :: "sourceObject \<Rightarrow> nat \<Rightarrow> sync_request" where
  "part_request object part =
     (let offset = part * sourcePartBytes; stop = min (offset + sourcePartBytes) (length (so_Body object)) in
      ReqPart (so_Hash object) part ((length (so_Body object) + sourcePartBytes - 1) div sourcePartBytes)
        (length (so_Body object)) (take (stop - offset) (drop offset (so_Body object))))"

definition next_request :: "sourceTransfer \<Rightarrow> sync_request" where
  "next_request t =
     (if \<not> tr_started t then ReqStart
      else if \<not> tr_published t \<and> tr_queue t \<noteq> [] then part_request (hd (tr_queue t)) (tr_part t)
      else if \<not> tr_published t \<and> tr_scan t < length (tr_objects t) then ReqMissing (map so_Hash (scan_window t))
      else if tr_published t then ReqHeartbeat else ReqCommit)"

definition start_reply :: "sync_reply \<Rightarrow> sourceTransfer \<Rightarrow> bool result \<times> sourceTransfer" where
  "start_reply r t =
     (if rp_sourceId r \<noteq> tb_sourceId (tr_binding t) \<or> rp_revision r \<noteq> tb_revision (tr_binding t) \<or> \<not> matchesRundown t (rp_rundownId r)
      then (Inl (Errorf ''source start identity mismatch''), t)
      else (Inr False, t\<lparr>tr_started := True, tr_published := rp_published r\<rparr>))"

definition part_reply :: "sync_reply \<Rightarrow> sourceTransfer \<Rightarrow> bool result \<times> sourceTransfer" where
  "part_reply r t =
     (let object = hd (tr_queue t); stop = min (tr_part t * sourcePartBytes + sourcePartBytes) (length (so_Body object)) in
      if rp_hash r \<noteq> so_Hash object then (Inl (Errorf ''source part identity mismatch''), t)
      else if stop = length (so_Body object) \<and> \<not> rp_stored r then (Inr False, t\<lparr>tr_part := 0\<rparr>)
      else if rp_stored r then (Inr False, t\<lparr>tr_part := 0, tr_queue := tl (tr_queue t)\<rparr>)
      else (Inr False, t\<lparr>tr_part := tr_part t + 1\<rparr>))"

text \<open>The loop over the missing hashes; an unexpected one ends it with what is queued so far.\<close>

fun queue_missing :: "sourceObject list \<Rightarrow> string list \<Rightarrow> sourceObject list \<Rightarrow> bool \<times> sourceObject list" where
  "queue_missing known [] queue = (True, queue)"
| "queue_missing known (h # hs) queue =
     (case List.find (\<lambda>x. so_Hash x = h) known of
        None \<Rightarrow> (False, queue)
      | Some object \<Rightarrow> queue_missing (filter (\<lambda>x. so_Hash x \<noteq> h) known) hs (queue @ [object]))"

definition missing_reply :: "sync_reply \<Rightarrow> sourceTransfer \<Rightarrow> bool result \<times> sourceTransfer" where
  "missing_reply r t =
     (case rp_missing r of
        None \<Rightarrow> (Inl (Errorf ''invalid missing objects receipt''), t)
      | Some missing \<Rightarrow>
          (case queue_missing (scan_window t) missing (tr_queue t) of
             (ok, queue) \<Rightarrow>
               if ok then (Inr False, t\<lparr>tr_queue := queue, tr_scan := scan_end t\<rparr>)
               else (Inl (Errorf ''unexpected missing object''), t\<lparr>tr_queue := queue\<rparr>)))"

definition commit_reply :: "sync_reply \<Rightarrow> sourceTransfer \<Rightarrow> bool result \<times> sourceTransfer" where
  "commit_reply r t =
     (if rp_sourceId r \<noteq> tb_sourceId (tr_binding t) \<or> rp_acceptedRevision r \<noteq> tb_revision (tr_binding t)
        \<or> \<not> matchesRundown t (rp_rundownId r) \<or> rp_duplicate r = None \<or> rp_applied r \<noteq> Some False
      then (Inl (Errorf ''source receipt binding mismatch''), t)
      else (Inr True, t\<lparr>tr_published := True\<rparr>))"

definition step ::
    "(transfer_binding \<Rightarrow> sync_request \<Rightarrow> nat) \<Rightarrow> sync_outcome \<Rightarrow> sourceTransfer \<Rightarrow> bool result \<times> sourceTransfer" where
  "step size_of out t =
     (case request size_of (next_request t) out t of
        (Inl e, t) \<Rightarrow> (Inl e, t)
      | (Inr r, t) \<Rightarrow>
          if \<not> tr_started t then start_reply r t
          else if \<not> tr_published t \<and> tr_queue t \<noteq> [] then part_reply r t
          else if \<not> tr_published t \<and> tr_scan t < length (tr_objects t) then missing_reply r t
          else commit_reply r t)"

text \<open>
  The version 2 branch of \<open>publishOnce\<close>: the transfer of the committed revision, continued or begun, makes one
  step.
\<close>

definition transfer_for :: "json_env \<Rightarrow> nat \<Rightarrow> string \<Rightarrow> sourceTransfer option \<Rightarrow> sourceTransfer result" where
  "transfer_for je revision pending transfer = (case transfer of
      Some t \<Rightarrow> if tb_revision (tr_binding t) \<noteq> revision then newSourceTransfer je pending else Inr t
    | None \<Rightarrow> newSourceTransfer je pending)"

definition deliver_v2 ::
    "json_env \<Rightarrow> (transfer_binding \<Rightarrow> sync_request \<Rightarrow> nat) \<Rightarrow> nat \<Rightarrow> string \<Rightarrow> sync_outcome \<Rightarrow> sourceTransfer option \<Rightarrow>
     delivery result \<times> sourceTransfer option" where
  "deliver_v2 je size_of revision pending out transfer =
     (case transfer_for je revision pending transfer of
        Inl e \<Rightarrow> (Inl e, None)
      | Inr t \<Rightarrow>
          (case step size_of out t of
             (Inl e, t) \<Rightarrow> (if e = errSourceHalted then Inr RevisionConflict else Inl e, Some t)
           | (Inr complete, t) \<Rightarrow> (Inr (if complete then TransferDone else TransferPending), Some t)))"

section \<open>What the objects carry\<close>

lemma chunk_rows_le: "chunk_rows b first rows \<le> length rows"
  by (induction b first rows rule: chunk_rows.induct) auto

lemma chunk_rows_bound:
  "n = chunk_rows b first rows \<Longrightarrow> (\<not> first \<and> b \<le> sourceChunkBytes \<longrightarrow> b + sum_list (map (\<lambda>x. length x + 1) (take n rows)) \<le> sourceChunkBytes)
   \<and> (first \<longrightarrow> n \<le> 1 \<or> b + sum_list (map (\<lambda>x. length x + 1) (take n rows)) \<le> sourceChunkBytes)"
proof (induction b first rows arbitrary: n rule: chunk_rows.induct)
  case (2 b first row rows)
  let ?m = "chunk_rows (b + length row + 1) False rows"
  show ?case
  proof (cases "b + length row + 1 \<le> sourceChunkBytes")
    case True
    then show ?thesis using 2(1) [of ?m] 2(2) by auto
  next
    case False
    then have "?m = 0" by (cases rows) auto
    then show ?thesis using False 2(2) by auto
  qed
qed simp

lemma chunk_rows_pos: "rows \<noteq> [] \<Longrightarrow> 0 < chunk_rows b True rows"
  by (cases rows) auto

definition fits_chunk :: "string list \<Rightarrow> bool" where
  "fits_chunk c \<longleftrightarrow> length c = 1 \<or> 1 < length c \<and> 2 + sum_list (map (\<lambda>x. length x + 1) c) \<le> sourceChunkBytes"

lemma first_chunk_fits:
  assumes "rows \<noteq> []"
  shows "fits_chunk (take (chunk_rows 2 True rows) rows)"
  using chunk_rows_bound [of "chunk_rows 2 True rows" 2 True rows] chunk_rows_pos [OF assms, of 2] chunk_rows_le [of 2 True rows]
  by (cases "chunk_rows 2 True rows = 1") (auto simp: fits_chunk_def)

lemma split_rows_chunks:
  "split_rows je rows = Inr (hashes, objects) \<Longrightarrow> \<exists>chunks. concat chunks = rows \<and> list_all fits_chunk chunks
     \<and> map (js_put_array je) chunks = map (\<lambda>x. Some (so_Body x)) objects
     \<and> hashes = map so_Hash objects \<and> (\<forall>x\<in>set objects. so_Hash x = js_sha256 je (so_Body x))"
proof (induction je rows arbitrary: hashes objects rule: split_rows.induct)
  case (1 je rows)
  show ?case
  proof (cases "rows = []")
    case True
    then show ?thesis using 1(2) by (intro exI [of _ "[]"]) (simp add: split_rows.simps [of je "[]"])
  next
    case False
    let ?n = "chunk_rows 2 True rows"
    from 1(2) False obtain raw hs xs where raw: "js_put_array je (take ?n rows) = Some raw"
      and rest: "split_rows je (drop ?n rows) = Inr (hs, xs)"
      and out: "hashes = js_sha256 je raw # hs" "objects = makeSourceObject je raw # xs"
      by (auto simp: split_rows.simps [of je rows] Let_def makeSourceObject_def split: option.splits sum.splits)
    from 1(1) [OF False refl raw rest] obtain chunks where
      "concat chunks = drop ?n rows" "list_all fits_chunk chunks" "map (js_put_array je) chunks = map (\<lambda>x. Some (so_Body x)) xs"
      "hs = map so_Hash xs" "\<forall>x\<in>set xs. so_Hash x = js_sha256 je (so_Body x)"
      by blast
    then show ?thesis using raw out first_chunk_fits [OF False]
      by (intro exI [of _ "take ?n rows # chunks"]) (auto simp: makeSourceObject_def)
  qed
qed

text \<open>What a receiver reads for a list of hashes from the objects it holds.\<close>

definition object_rows :: "json_env \<Rightarrow> sourceObject list \<Rightarrow> string \<Rightarrow> string list" where
  "object_rows je held h = (case List.find (\<lambda>x. so_Hash x = h) held of
      None \<Rightarrow> [] | Some x \<Rightarrow> (case js_array je (so_Body x) of None \<Rightarrow> [] | Some rows \<Rightarrow> rows))"

lemma object_rows_held:
  assumes "x \<in> set held" "inj_on so_Hash (set held)" "js_array je (so_Body x) = Some c"
  shows "object_rows je held (so_Hash x) = c"
proof -
  have "List.find (\<lambda>y. so_Hash y = so_Hash x) held \<noteq> None" using assms(1) by (auto simp: find_None_iff)
  then obtain y where y: "List.find (\<lambda>y. so_Hash y = so_Hash x) held = Some y" by blast
  then have "y = x" using assms(1,2) by (auto simp: find_Some_iff dest: inj_onD)
  then show ?thesis using y assms(3) by (simp add: object_rows_def)
qed

text \<open>
  A list that is too long for one object survives being split: from the objects it was split into, among
  any others, the rows are read back in order, provided that no two objects share a hash and that encoded rows
  decode to themselves. Every chunk is one row or within the bound, and it is named by the hash of its bytes.
\<close>

theorem split_rows_read_back:
  assumes split: "split_rows je rows = Inr (hashes, objects)" and held: "set objects \<subseteq> set held" "inj_on so_Hash (set held)"
    and json: "\<And>c raw. set c \<subseteq> set rows \<Longrightarrow> js_put_array je c = Some raw \<Longrightarrow> js_array je raw = Some c"
  shows "concat (map (object_rows je held) hashes) = rows
    \<and> (\<forall>h\<in>set hashes. fits_chunk (object_rows je held h)) \<and> (\<forall>x\<in>set objects. so_Hash x = js_sha256 je (so_Body x))"
proof -
  obtain chunks where chunks: "concat chunks = rows" "list_all fits_chunk chunks"
      "map (js_put_array je) chunks = map (\<lambda>x. Some (so_Body x)) objects"
    and hashes: "hashes = map so_Hash objects" "\<forall>x\<in>set objects. so_Hash x = js_sha256 je (so_Body x)"
    using split_rows_chunks [OF split] by blast
  have "map (object_rows je held) hashes = chunks"
  proof (rule nth_equalityI)
    show len: "length (map (object_rows je held) hashes) = length chunks"
      using chunks(3) hashes(1) by (auto dest: map_eq_imp_length_eq)
    fix i
    assume "i < length (map (object_rows je held) hashes)"
    then have i: "i < length chunks" "i < length objects" using len hashes(1) by simp_all
    have "js_put_array je (chunks ! i) = Some (so_Body (objects ! i))"
      using arg_cong [OF chunks(3), of "\<lambda>xs. xs ! i"] i by simp
    moreover have "set (chunks ! i) \<subseteq> set rows" using chunks(1) i nth_mem by force
    ultimately have "js_array je (so_Body (objects ! i)) = Some (chunks ! i)" using json by blast
    then show "map (object_rows je held) hashes ! i = chunks ! i"
      using object_rows_held [OF _ held(2)] held(1) i hashes(1) by (auto simp: subset_iff)
  qed
  then show ?thesis using chunks hashes by (auto simp: list_all_iff)
qed

section \<open>Runs of a transfer\<close>

text \<open>
  The accepted exchanges since the transfer was last started, and the state. An exchange that makes the
  transfer start over clears them.
\<close>

type_synonym exchanges = "(sync_request \<times> sync_outcome) list"

definition exchange ::
    "(transfer_binding \<Rightarrow> sync_request \<Rightarrow> nat) \<Rightarrow> sync_outcome \<Rightarrow> exchanges \<times> sourceTransfer \<Rightarrow> exchanges \<times> sourceTransfer" where
  "exchange size_of out lt =
     (let (log, t) = lt; (r, t') = step size_of out t in
      (if \<not> tr_started t' then [] else if isl r then log else log @ [(next_request t, out)], t'))"

definition sync_run ::
    "(transfer_binding \<Rightarrow> sync_request \<Rightarrow> nat) \<Rightarrow> sync_outcome list \<Rightarrow> exchanges \<times> sourceTransfer \<Rightarrow> exchanges \<times> sourceTransfer" where
  "sync_run size_of outs lt = fold (exchange size_of) outs lt"

text \<open>The receiver confirmed that it holds an object: it did not report it missing, or stored its last part.\<close>

fun confirms :: "string \<Rightarrow> sync_request \<times> sync_outcome \<Rightarrow> bool" where
  "confirms h (ReqMissing hs, Answered _ _ (Some r)) \<longleftrightarrow>
     h \<in> set hs \<and> (case rp_missing r of None \<Rightarrow> False | Some missing \<Rightarrow> h \<notin> set missing)"
| "confirms h (ReqPart k _ _ _ _, Answered _ _ (Some r)) \<longleftrightarrow> k = h \<and> rp_hash r = h \<and> rp_stored r"
| "confirms h _ \<longleftrightarrow> False"

fun publishes :: "nat \<Rightarrow> sync_request \<times> sync_outcome \<Rightarrow> bool" where
  "publishes revision (ReqStart, Answered _ _ (Some r)) \<longleftrightarrow> rp_revision r = revision \<and> rp_published r"
| "publishes revision (ReqCommit, Answered _ _ (Some r)) \<longleftrightarrow> rp_acceptedRevision r = revision"
| "publishes revision _ \<longleftrightarrow> False"

definition confirmed :: "exchanges \<Rightarrow> string \<Rightarrow> bool" where
  "confirmed log h \<longleftrightarrow> (\<exists>e\<in>set log. confirms h e)"

definition transfer_ok :: "exchanges \<times> sourceTransfer \<Rightarrow> bool" where
  "transfer_ok lt \<longleftrightarrow> (case lt of (log, t) \<Rightarrow>
     distinct (map so_Hash (tr_objects t)) \<and> tr_scan t \<le> length (tr_objects t) \<and> set (tr_queue t) \<subseteq> set (tr_objects t)
     \<and> (tr_part t = 0 \<or> tr_queue t \<noteq> [] \<and> tr_part t * sourcePartBytes < length (so_Body (hd (tr_queue t))))
     \<and> (if \<not> tr_started t then tr_queue t = [] \<and> tr_scan t = 0
        else if \<not> tr_published t then \<forall>x\<in>set (take (tr_scan t) (tr_objects t)). x \<in> set (tr_queue t) \<or> confirmed log (so_Hash x)
        else \<exists>e\<in>set log. publishes (tb_revision (tr_binding t)) e))"

definition restarted :: "sourceTransfer \<Rightarrow> sourceTransfer" where
  "restarted t = t\<lparr>tr_started := False, tr_scan := 0, tr_queue := [], tr_part := 0\<rparr>"

lemma request_cases:
  assumes "request size_of q out t = (r, t')"
  obtains (failed) e where "r = Inl e" "t' = t" | (restart) e where "r = Inl e" "t' = restarted t"
  | (replied) s c rp where "r = Inr rp" "t' = t" "out = Answered s c (Some rp)"
  using assms by (auto simp: request_def restarted_def split: if_splits sync_outcome.splits option.splits)

lemma transfer_ok_restarted: "transfer_ok (log, t) \<Longrightarrow> transfer_ok ([], restarted t)"
  by (simp add: transfer_ok_def restarted_def)

lemma confirmed_append [simp]: "confirmed (log @ log') h \<longleftrightarrow> confirmed log h \<or> confirmed log' h"
  by (auto simp: confirmed_def)

lemma confirmed_one [simp]: "confirmed [e] h \<longleftrightarrow> confirms h e"
  by (simp add: confirmed_def)

lemma queue_missing_spec:
  "queue_missing known hs queue = (ok, q) \<Longrightarrow> set queue \<subseteq> set q \<and> set q \<subseteq> set queue \<union> set known
     \<and> (ok \<longrightarrow> (\<forall>x\<in>set known. so_Hash x \<in> set hs \<longrightarrow> distinct (map so_Hash known) \<longrightarrow> x \<in> set q))
     \<and> (queue \<noteq> [] \<longrightarrow> hd q = hd queue)"
proof (induction known hs queue rule: queue_missing.induct)
  case (2 known h hs queue)
  show ?case
  proof (cases "List.find (\<lambda>x. so_Hash x = h) known")
    case None
    then show ?thesis using 2(2) by auto
  next
    case (Some x)
    then have x: "x \<in> set known" "so_Hash x = h" by (auto simp: find_Some_iff)
    from 2(1) [OF Some] 2(2) Some have ih: "set (queue @ [x]) \<subseteq> set q" "set q \<subseteq> set (queue @ [x]) \<union> set known"
        "ok \<Longrightarrow> y \<in> set known \<Longrightarrow> so_Hash y \<noteq> h \<Longrightarrow> so_Hash y \<in> set hs \<Longrightarrow> distinct (map so_Hash known) \<Longrightarrow> y \<in> set q"
        "hd q = hd (queue @ [x])" for y
      by (auto simp: distinct_map_filter)
    have "y = x" if "y \<in> set known" "so_Hash y = h" "distinct (map so_Hash known)" for y
      using that x by (auto simp: distinct_map dest: inj_onD)
    then show ?thesis using ih x by (fastforce simp: hd_append)
  qed
qed simp

definition logged :: "exchanges \<Rightarrow> sync_request \<Rightarrow> sync_outcome \<Rightarrow> bool result \<times> sourceTransfer \<Rightarrow> exchanges \<times> sourceTransfer" where
  "logged log q out rt = (if \<not> tr_started (snd rt) then [] else if isl (fst rt) then log else log @ [(q, out)], snd rt)"

lemma exchange_logged: "exchange size_of out (log, t) = logged log (next_request t) out (step size_of out t)"
  by (simp add: exchange_def logged_def split: prod.splits)

lemma transfer_ok_same: "transfer_ok (log, t) \<Longrightarrow> transfer_ok (logged log q out (Inl e, t))"
  by (simp add: transfer_ok_def logged_def)

lemma start_reply_ok:
  assumes "transfer_ok (log, t)" "\<not> tr_started t"
  shows "transfer_ok (logged log ReqStart (Answered s c (Some r)) (start_reply r t))"
  using assms by (auto simp: start_reply_def transfer_ok_def logged_def)

lemma part_offset:
  assumes "transfer_ok (log, t)" "tr_queue t \<noteq> []"
  shows "tr_part t * sourcePartBytes \<le> length (so_Body (hd (tr_queue t)))"
  using assms by (auto simp: transfer_ok_def)

lemma part_reply_ok:
  assumes ok: "transfer_ok (log, t)" and st: "tr_started t" "\<not> tr_published t" "tr_queue t \<noteq> []"
  shows "transfer_ok (logged log (part_request (hd (tr_queue t)) (tr_part t)) (Answered s c (Some r)) (part_reply r t))"
proof -
  let ?x = "hd (tr_queue t)" and ?q = "part_request (hd (tr_queue t)) (tr_part t)"
  have queue: "tr_queue t = ?x # tl (tr_queue t)" using st(3) by simp
  have "confirms (so_Hash ?x) (?q, Answered s c (Some r)) \<longleftrightarrow> rp_hash r = so_Hash ?x \<and> rp_stored r"
    by (auto simp: part_request_def Let_def)
  moreover have "set (tl (tr_queue t)) \<subseteq> set (tr_queue t)" "\<And>y. y \<in> set (tr_queue t) \<Longrightarrow> y = ?x \<or> y \<in> set (tl (tr_queue t))"
    using queue by (metis set_subset_Cons, metis set_ConsD)
  ultimately show ?thesis using ok st
    by (auto simp: part_reply_def Let_def logged_def transfer_ok_def min_def split: if_splits)
qed

lemma take_scan_window:
  assumes "tr_scan t \<le> length (tr_objects t)"
  shows "take (scan_end t) (tr_objects t) = take (tr_scan t) (tr_objects t) @ scan_window t"
  using assms by (simp add: scan_window_def scan_end_def min_def take_add [symmetric])

lemma missing_reply_ok:
  assumes ok: "transfer_ok (log, t)" and st: "tr_started t" "\<not> tr_published t" "tr_queue t = []"
  shows "transfer_ok (logged log (ReqMissing (map so_Hash (scan_window t))) (Answered s c (Some r)) (missing_reply r t))"
proof (cases "rp_missing r")
  case None
  then show ?thesis using ok by (simp add: missing_reply_def transfer_ok_same)
next
  case (Some missing)
  obtain ok' q where q: "queue_missing (scan_window t) missing [] = (ok', q)" by fastforce
  have part: "tr_part t = 0" and scan: "tr_scan t \<le> length (tr_objects t)" and dist: "distinct (map so_Hash (tr_objects t))"
    using ok st(3) by (auto simp: transfer_ok_def)
  have sub: "set (scan_window t) \<subseteq> set (tr_objects t)"
    by (auto simp: scan_window_def dest: in_set_takeD in_set_dropD)
  have dw: "distinct (map so_Hash (scan_window t))"
    using dist by (simp add: scan_window_def take_map [symmetric] drop_map [symmetric])
  have "x \<in> set q \<or> confirms (so_Hash x) (ReqMissing (map so_Hash (scan_window t)), Answered s c (Some r))"
    if "x \<in> set (scan_window t)" ok' for x
    using queue_missing_spec [OF q] that dw Some by auto
  moreover have "set q \<subseteq> set (tr_objects t)" using queue_missing_spec [OF q] sub by auto
  moreover have "scan_end t \<le> length (tr_objects t)" by (simp add: scan_end_def)
  ultimately show ?thesis
    using ok st part scan take_scan_window [OF scan]
    by (auto simp: missing_reply_def Some q logged_def transfer_ok_def)
qed

lemma commit_reply_ok:
  assumes "transfer_ok (log, t)" "tr_started t" "q = (if tr_published t then ReqHeartbeat else ReqCommit)"
  shows "transfer_ok (logged log q (Answered s c (Some r)) (commit_reply r t))"
  using assms by (auto simp: commit_reply_def transfer_ok_def logged_def)

lemma exchange_ok:
  assumes ok: "transfer_ok lt"
  shows "transfer_ok (exchange size_of out lt)"
proof -
  obtain log t where lt: "lt = (log, t)" by (cases lt)
  obtain r t' where req: "request size_of (next_request t) out t = (r, t')" by fastforce
  from req show ?thesis
  proof (cases rule: request_cases)
    case (failed e)
    then show ?thesis using ok transfer_ok_same by (simp add: lt exchange_logged step_def req)
  next
    case (restart e)
    then show ?thesis using ok transfer_ok_restarted
      by (simp add: lt exchange_logged step_def req logged_def) (simp add: restarted_def)
  next
    case (replied s c rp)
    have st: "step size_of out t =
        (if \<not> tr_started t then start_reply rp t
         else if \<not> tr_published t \<and> tr_queue t \<noteq> [] then part_reply rp t
         else if \<not> tr_published t \<and> tr_scan t < length (tr_objects t) then missing_reply rp t
         else commit_reply rp t)"
      using req replied(1,2) by (simp add: step_def)
    show ?thesis
      unfolding lt exchange_logged st next_request_def unfolding replied(3)
      using ok [unfolded lt] start_reply_ok [of log t s c rp] part_reply_ok [of log t s c rp]
        missing_reply_ok [of log t s c rp] commit_reply_ok [OF _ _ refl, of log t s c rp]
      by auto
  qed
qed

lemma unique_objects_distinct: "distinct (map so_Hash (unique_objects seen xs)) \<and> so_Hash ` set (unique_objects seen xs) \<inter> set seen = {}"
  by (induction seen xs rule: unique_objects.induct) auto

lemma new_transfer_ok:
  assumes "newSourceTransfer je raw = Inr t"
  shows "transfer_ok ([], t)"
  using assms unique_objects_distinct [of "[]"]
  by (auto simp: newSourceTransfer_def transfer_ok_def Let_def simp del: unique_objects.simps split: option.splits sum.splits prod.splits)

lemma sync_run_ok: "transfer_ok lt \<Longrightarrow> transfer_ok (sync_run size_of outs lt)"
  unfolding sync_run_def by (induction outs arbitrary: lt) (auto simp: exchange_ok)

text \<open>
  C15. A transfer commits only what the receiver holds. Whatever the receiver answered, with any errors and
  restarts in between: when the manifest is about to be committed, the receiver has confirmed every object of
  the payload since the transfer was last started, and when a lease is renewed, it has said that this revision
  is published. Every part that is sent is a slice within its object.
\<close>

theorem transfer_commits_what_is_held:
  assumes "newSourceTransfer je raw = Inr t0" "sync_run size_of outs ([], t0) = (log, t)"
  shows "(next_request t = ReqCommit \<longrightarrow> (\<forall>x\<in>set (tr_objects t). confirmed log (so_Hash x)))
    \<and> (next_request t = ReqHeartbeat \<longrightarrow> (\<exists>e\<in>set log. publishes (tb_revision (tr_binding t)) e))
    \<and> (\<forall>h i n b d. next_request t = ReqPart h i n b d \<longrightarrow>
         (\<exists>x\<in>set (tr_objects t). so_Hash x = h \<and> b = length (so_Body x) \<and> i * sourcePartBytes \<le> b
            \<and> d = take sourcePartBytes (drop (i * sourcePartBytes) (so_Body x))))"
proof -
  have ok: "transfer_ok (log, t)"
    using sync_run_ok [OF new_transfer_ok [OF assms(1)]] assms(2) by metis
  have "hd (tr_queue t) \<in> set (tr_objects t)" if "tr_queue t \<noteq> []"
    using ok that hd_in_set [OF that] by (auto simp: transfer_ok_def)
  then show ?thesis
    using ok part_offset [OF ok]
    by (auto simp: next_request_def transfer_ok_def part_request_def Let_def min_def split: if_splits)
qed

section \<open>Progress\<close>

text \<open>
  A receiver that keeps the protocol: it answers with a reply for the right source and revision, reports as
  missing only what it was asked about and nothing twice, and stores an object with its last part.
\<close>

definition keeps_protocol :: "sourceTransfer \<Rightarrow> sync_reply \<Rightarrow> bool" where
  "keeps_protocol t r \<longleftrightarrow> (case next_request t of
      ReqStart \<Rightarrow> rp_sourceId r = tb_sourceId (tr_binding t) \<and> rp_revision r = tb_revision (tr_binding t) \<and> matchesRundown t (rp_rundownId r)
    | ReqMissing hs \<Rightarrow> (case rp_missing r of None \<Rightarrow> False | Some missing \<Rightarrow> distinct missing \<and> set missing \<subseteq> set hs)
    | ReqPart h i n b d \<Rightarrow> rp_hash r = h \<and> (n \<le> i + 1 \<longrightarrow> rp_stored r)
    | _ \<Rightarrow> rp_sourceId r = tb_sourceId (tr_binding t) \<and> rp_acceptedRevision r = tb_revision (tr_binding t)
        \<and> matchesRundown t (rp_rundownId r) \<and> rp_duplicate r \<noteq> None \<and> rp_applied r = Some False)"

text \<open>
  Such replies in a row, up to the one that completes the transfer, and after how many that is.
\<close>

fun protocol_kept :: "(transfer_binding \<Rightarrow> sync_request \<Rightarrow> nat) \<Rightarrow> sync_reply list \<Rightarrow> sourceTransfer \<Rightarrow> bool" where
  "protocol_kept size_of [] t \<longleftrightarrow> True"
| "protocol_kept size_of (r # rs) t \<longleftrightarrow> keeps_protocol t r \<and>
     (case step size_of (Answered 200 [] (Some r)) t of (res, t') \<Rightarrow> res \<noteq> Inr False \<or> protocol_kept size_of rs t')"

fun completes_after :: "(transfer_binding \<Rightarrow> sync_request \<Rightarrow> nat) \<Rightarrow> sync_reply list \<Rightarrow> sourceTransfer \<Rightarrow> nat option" where
  "completes_after size_of [] t = None"
| "completes_after size_of (r # rs) t =
     (case step size_of (Answered 200 [] (Some r)) t of
        (Inl e, t') \<Rightarrow> None
      | (Inr complete, t') \<Rightarrow> if complete then Some 1 else map_option Suc (completes_after size_of rs t'))"

definition parts_of :: "sourceObject \<Rightarrow> nat" where
  "parts_of x = max 1 ((length (so_Body x) + sourcePartBytes - 1) div sourcePartBytes)"

definition scans_left :: "sourceTransfer \<Rightarrow> nat" where
  "scans_left t = (length (tr_objects t) - tr_scan t + 255) div 256"

definition unscanned :: "sourceTransfer \<Rightarrow> sourceObject list" where
  "unscanned t = drop (tr_scan t) (tr_objects t)"

definition parts_total :: "sourceObject list \<Rightarrow> nat" where
  "parts_total xs = sum_list (map parts_of xs)"

definition work_left :: "sourceTransfer \<Rightarrow> nat" where
  "work_left t =
     (if \<not> tr_started t then 2 + (length (tr_objects t) + 255) div 256 + parts_total (tr_objects t)
      else if tr_published t then 1
      else 1 + scans_left t + parts_total (unscanned t) + (parts_total (tr_queue t) - tr_part t))"

lemma parts_total_simps [simp]: "parts_total [] = 0" "parts_total (x # xs) = parts_of x + parts_total xs"
    "parts_total (xs @ ys) = parts_total xs + parts_total ys"
  by (simp_all add: parts_total_def)

lemma parts_total_perm:
  "distinct xs \<Longrightarrow> distinct ys \<Longrightarrow> set xs \<subseteq> set ys \<Longrightarrow> parts_total xs \<le> parts_total ys"
  unfolding parts_total_def
  by (metis List.finite_set sum.distinct_set_conv_list sum_mono2 zero_le)

lemma part_in_range:
  assumes "p * sourcePartBytes < length (so_Body x)"
  shows "p < parts_of x"
proof -
  have "(Suc p * sourcePartBytes) div sourcePartBytes \<le> (length (so_Body x) + sourcePartBytes - 1) div sourcePartBytes"
    using assms by (intro div_le_mono) (simp add: sourcePartBytes_def)
  then show ?thesis by (simp add: parts_of_def sourcePartBytes_def)
qed

lemma last_part_iff:
  assumes "p = 0 \<or> p * sourcePartBytes < length (so_Body x)"
  shows "(length (so_Body x) + sourcePartBytes - 1) div sourcePartBytes \<le> p + 1
    \<longleftrightarrow> min (p * sourcePartBytes + sourcePartBytes) (length (so_Body x)) = length (so_Body x)"
proof -
  have "(32767 + n) div 32768 \<le> Suc p \<longleftrightarrow> n \<le> p * 32768 + 32768" for n :: nat by linarith
  then show ?thesis by (auto simp: sourcePartBytes_def min_def add.commute)
qed

lemma transfer_ok_part: "transfer_ok (log, t) \<Longrightarrow> tr_queue t \<noteq> [] \<Longrightarrow> tr_part t < parts_of (hd (tr_queue t))"
  by (auto simp: transfer_ok_def dest: part_in_range) (simp add: parts_of_def)

lemma queue_missing_all:
  "distinct hs \<Longrightarrow> set hs \<subseteq> so_Hash ` set known \<Longrightarrow> distinct (map so_Hash known) \<Longrightarrow>
   \<exists>xs. queue_missing known hs queue = (True, queue @ xs) \<and> set xs \<subseteq> set known \<and> map so_Hash xs = hs"
proof (induction known hs queue rule: queue_missing.induct)
  case (2 known h hs queue)
  obtain x where x: "List.find (\<lambda>x. so_Hash x = h) known = Some x"
    using 2(3) by (cases "List.find (\<lambda>x. so_Hash x = h) known") (auto simp: find_None_iff)
  then have "x \<in> set known" "so_Hash x = h" by (auto simp: find_Some_iff)
  moreover have "set hs \<subseteq> so_Hash ` set (filter (\<lambda>x. so_Hash x \<noteq> h) known)"
    using 2(2,3) by (fastforce simp: subset_iff image_iff)
  ultimately show ?case using 2(1) [OF x] 2(2,4) x by (fastforce simp: distinct_map_filter)
qed simp

text \<open>The requests of a transfer fit the negotiated bound.\<close>

definition sizes_fit :: "(transfer_binding \<Rightarrow> sync_request \<Rightarrow> nat) \<Rightarrow> sourceTransfer \<Rightarrow> bool" where
  "sizes_fit size_of t \<longleftrightarrow> (\<forall>q\<in>{ReqStart, ReqCommit, ReqHeartbeat}. size_of (tr_binding t) q \<le> 65536)
     \<and> (\<forall>hs. length hs \<le> 256 \<and> set hs \<subseteq> so_Hash ` set (tr_objects t) \<longrightarrow> size_of (tr_binding t) (ReqMissing hs) \<le> 65536)
     \<and> (\<forall>x\<in>set (tr_objects t). \<forall>p<parts_of x. size_of (tr_binding t) (part_request x p) \<le> 65536)"

lemma scan_window_subset: "set (scan_window t) \<subseteq> set (tr_objects t)"
  by (auto simp: scan_window_def dest: in_set_takeD in_set_dropD)

lemma next_request_fits:
  assumes "transfer_ok (log, t)" "sizes_fit size_of t"
  shows "size_of (tr_binding t) (next_request t) \<le> 65536"
proof -
  have "length (scan_window t) \<le> 256" by (simp add: scan_window_def scan_end_def)
  moreover have "hd (tr_queue t) \<in> set (tr_objects t)" if "tr_queue t \<noteq> []"
    using assms(1) hd_in_set [OF that] by (auto simp: transfer_ok_def)
  ultimately show ?thesis
    using assms(2) transfer_ok_part [OF assms(1)] scan_window_subset [of t]
    by (simp add: next_request_def sizes_fit_def image_mono)
qed

lemma step_replied:
  assumes "transfer_ok (log, t)" "sizes_fit size_of t"
  shows "step size_of (Answered 200 [] (Some r)) t =
      (if \<not> tr_started t then start_reply r t
       else if \<not> tr_published t \<and> tr_queue t \<noteq> [] then part_reply r t
       else if \<not> tr_published t \<and> tr_scan t < length (tr_objects t) then missing_reply r t
       else commit_reply r t)"
  using next_request_fits [OF assms] by (simp add: step_def request_def)

definition progresses :: "sourceTransfer \<Rightarrow> bool result \<times> sourceTransfer \<Rightarrow> bool" where
  "progresses t rt \<longleftrightarrow> fst rt = Inr True \<or> fst rt = Inr False \<and> work_left (snd rt) < work_left t
     \<and> tr_binding (snd rt) = tr_binding t \<and> tr_objects (snd rt) = tr_objects t"

lemma start_progress:
  assumes "transfer_ok (log, t)" "\<not> tr_started t" "keeps_protocol t r"
  shows "progresses t (start_reply r t)"
  using assms
  by (auto simp: progresses_def start_reply_def keeps_protocol_def next_request_def work_left_def scans_left_def unscanned_def transfer_ok_def)

lemma part_progress:
  assumes ok: "transfer_ok (log, t)" and st: "tr_started t" "\<not> tr_published t" "tr_queue t \<noteq> []" and r: "keeps_protocol t r"
  shows "progresses t (part_reply r t)"
proof -
  let ?x = "hd (tr_queue t)"
  have queue: "tr_queue t = ?x # tl (tr_queue t)" using st(3) by simp
  have part: "tr_part t < parts_of ?x" by (rule transfer_ok_part [OF ok st(3)])
  have range: "tr_part t = 0 \<or> tr_part t * sourcePartBytes < length (so_Body ?x)" using ok by (auto simp: transfer_ok_def)
  have kept: "rp_hash r = so_Hash ?x" "(length (so_Body ?x) + sourcePartBytes - 1) div sourcePartBytes \<le> tr_part t + 1 \<Longrightarrow> rp_stored r"
    using r st by (auto simp: keeps_protocol_def next_request_def part_request_def Let_def)
  have total: "parts_total (tr_queue t) = parts_of ?x + parts_total (tl (tr_queue t))"
    using arg_cong [OF queue, of parts_total] by simp
  show ?thesis
    using kept last_part_iff [OF range] st part total
    by (auto simp: progresses_def part_reply_def Let_def work_left_def scans_left_def unscanned_def)
qed

lemma missing_progress:
  assumes ok: "transfer_ok (log, t)" and st: "tr_started t" "\<not> tr_published t" "tr_queue t = []" "tr_scan t < length (tr_objects t)"
    and r: "keeps_protocol t r"
  shows "progresses t (missing_reply r t)"
proof -
  have part: "tr_part t = 0" and dist: "distinct (map so_Hash (tr_objects t))" using ok st(3) by (auto simp: transfer_ok_def)
  obtain missing where m: "rp_missing r = Some missing" "distinct missing" "set missing \<subseteq> so_Hash ` set (scan_window t)"
    using r st by (auto simp: keeps_protocol_def next_request_def split: option.splits)
  have dw: "distinct (map so_Hash (scan_window t))"
    using dist by (simp add: scan_window_def take_map [symmetric] drop_map [symmetric])
  obtain xs where xs: "queue_missing (scan_window t) missing [] = (True, xs)" "set xs \<subseteq> set (scan_window t)" "map so_Hash xs = missing"
    using queue_missing_all [OF m(2,3) dw, of "[]"] by auto
  have "parts_total xs \<le> parts_total (scan_window t)"
    using xs(2,3) m(2) dw by (intro parts_total_perm) (auto simp: distinct_map)
  moreover have split: "unscanned t = scan_window t @ drop (scan_end t) (tr_objects t)"
    using st(4) append_take_drop_id [of "scan_end t - tr_scan t" "drop (tr_scan t) (tr_objects t)"]
    by (simp add: unscanned_def scan_window_def scan_end_def min_def split: if_splits)
  moreover have "(length (tr_objects t) - scan_end t + 255) div 256 < scans_left t"
    using st(4) by (simp add: scans_left_def scan_end_def min_def) linarith
  ultimately show ?thesis
    using st part by (simp add: progresses_def missing_reply_def m(1) xs(1) work_left_def scans_left_def)
      (simp add: unscanned_def)
qed

lemma step_progress:
  assumes ok: "transfer_ok (log, t)" and fit: "sizes_fit size_of t" and r: "keeps_protocol t r"
  shows "progresses t (step size_of (Answered 200 [] (Some r)) t)"
proof -
  have "progresses t (commit_reply r t)" if "tr_started t" "tr_published t \<or> tr_queue t = [] \<and> \<not> tr_scan t < length (tr_objects t)"
    using r that by (auto simp: progresses_def commit_reply_def keeps_protocol_def next_request_def split: if_splits)
  then show ?thesis
    using start_progress [OF ok _ r] part_progress [OF ok _ _ _ r] missing_progress [OF ok _ _ _ _ r]
    by (auto simp: step_replied [OF ok fit])
qed

lemma completes:
  "transfer_ok (log, t) \<Longrightarrow> sizes_fit size_of t \<Longrightarrow> protocol_kept size_of rs t \<Longrightarrow> work_left t \<le> length rs \<Longrightarrow>
   \<exists>n\<le>work_left t. completes_after size_of rs t = Some n"
proof (induction rs arbitrary: log t)
  case Nil
  then show ?case by (simp add: work_left_def split: if_splits)
next
  case (Cons r rs)
  obtain res t' where st: "step size_of (Answered 200 [] (Some r)) t = (res, t')" by fastforce
  have "keeps_protocol t r" using Cons.prems(3) by simp
  from step_progress [OF Cons.prems(1,2) this] have progress: "progresses t (res, t')" using st by simp
  have "transfer_ok (fst (exchange size_of (Answered 200 [] (Some r)) (log, t)), t')"
    using exchange_ok [OF Cons.prems(1), of size_of "Answered 200 [] (Some r)"] st by (simp add: exchange_logged logged_def)
  note ih = Cons.IH [OF this]
  show ?case
  proof (cases "res = Inr True")
    case True
    then show ?thesis using st by (simp add: work_left_def)
  next
    case False
    then have res: "res = Inr False" "work_left t' < work_left t" "sizes_fit size_of t'"
      using progress Cons.prems(2) by (auto simp: progresses_def sizes_fit_def)
    then have "\<exists>n\<le>work_left t'. completes_after size_of rs t' = Some n"
      using ih Cons.prems(3,4) st by auto
    then show ?thesis using res st by auto
  qed
qed

text \<open>
  C29. A transfer completes. Against a receiver that keeps the protocol the payload is published after at most
  two exchanges, one for every 256 objects and one for every part of every object.
\<close>

theorem transfer_completes:
  assumes "newSourceTransfer je raw = Inr t" "sizes_fit size_of t" "protocol_kept size_of rs t"
    and "2 + (length (tr_objects t) + 255) div 256 + parts_total (tr_objects t) \<le> length rs"
  shows "\<exists>n \<le> 2 + (length (tr_objects t) + 255) div 256 + parts_total (tr_objects t). completes_after size_of rs t = Some n"
proof -
  have "\<not> tr_started t"
    using assms(1) by (auto simp: newSourceTransfer_def Let_def split: option.splits sum.splits prod.splits)
  then have "work_left t = 2 + (length (tr_objects t) + 255) div 256 + parts_total (tr_objects t)" by (simp add: work_left_def)
  then show ?thesis using completes [OF new_transfer_ok [OF assms(1)] assms(2,3)] assms(4) by simp
qed

section \<open>An example transfer\<close>

fun cut_rows :: "string \<Rightarrow> string \<Rightarrow> string list" where
  "cut_rows acc [] = []"
| "cut_rows acc (c # s) = (if c = CHR '','' then acc # cut_rows [] s else cut_rows (acc @ [c]) s)"

definition join_rows :: "string list \<Rightarrow> string" where
  "join_rows rows = concat (map (\<lambda>r. r @ '','') rows)"

definition example_json :: json_env where
  "example_json = \<lparr>js_object = (\<lambda>_. Some [(''sourceId'', ''S''), (''rundownId'', ''R''), (''revision'', ''1''), (''stories'', ''a,b,'')]),
     js_array = (\<lambda>raw. Some (cut_rows [] raw)), js_string = Some, js_number = (\<lambda>_. Some 1), js_story_id = Some, js_canonical = Inr,
     js_put_object = (\<lambda>m. Some (concat (map (\<lambda>(k, v). k @ v) m))), js_put_array = (\<lambda>rows. Some (join_rows rows)),
     js_put_strings = join_rows, js_put_refs = (\<lambda>refs. join_rows (map fst refs)), js_sha256 = (\<lambda>raw. raw)\<rparr>"

definition example_transfer :: sourceTransfer where
  "example_transfer = projr (newSourceTransfer example_json ''payload'')"

definition example_reply :: sync_reply where
  "example_reply = \<lparr>rp_sourceId = ''S'', rp_rundownId = Some ''R'', rp_revision = 1, rp_published = False, rp_hash = [], rp_stored = True,
     rp_missing = Some [''a'', ''b''], rp_acceptedRevision = 1, rp_duplicate = Some False, rp_applied = Some False\<rparr>"

definition example_replies :: "sync_reply list" where
  "example_replies = [example_reply, example_reply, example_reply\<lparr>rp_hash := ''a''\<rparr>, example_reply\<lparr>rp_hash := ''b''\<rparr>,
     example_reply, example_reply]"

definition example_outcomes :: "sync_outcome list" where
  "example_outcomes = [Unavailable, Answered 200 [] (Some example_reply), Answered 200 [] (Some example_reply), AnswerTooLong,
     Answered 200 [] (Some (example_reply\<lparr>rp_hash := ''a''\<rparr>)), Answered 202 [] (Some (example_reply\<lparr>rp_hash := ''b''\<rparr>))]"

lemma example_transfer_made: "newSourceTransfer example_json ''payload'' = Inr example_transfer"
proof -
  have "\<not> isl (newSourceTransfer example_json ''payload'')" by code_simp
  then show ?thesis by (simp add: example_transfer_def)
qed

lemma cut_join: "(\<And>r. r \<in> set rows \<Longrightarrow> CHR '','' \<notin> set r) \<Longrightarrow> cut_rows [] (join_rows rows) = rows"
proof -
  have cut: "CHR '','' \<notin> set r \<Longrightarrow> cut_rows acc (r @ CHR '','' # s) = (acc @ r) # cut_rows [] s" for acc r s
    by (induction r arbitrary: acc) auto
  show "(\<And>r. r \<in> set rows \<Longrightarrow> CHR '','' \<notin> set r) \<Longrightarrow> cut_rows [] (join_rows rows) = rows"
    by (induction rows) (simp_all add: join_rows_def cut)
qed

theorem transfer_completes_witness:
  "\<exists>n\<le>6. completes_after (\<lambda>_ _. 0) example_replies example_transfer = Some n"
proof -
  have bound: "2 + (length (tr_objects example_transfer) + 255) div 256 + parts_total (tr_objects example_transfer) = 6"
    by code_simp
  have "protocol_kept (\<lambda>_ _. 0) example_replies example_transfer" by code_simp
  moreover have "sizes_fit (\<lambda>_ _. 0) example_transfer" by (simp add: sizes_fit_def)
  ultimately show ?thesis
    using transfer_completes [OF example_transfer_made, of "\<lambda>_ _. 0" example_replies] unfolding bound
    by (simp add: example_replies_def)
qed

theorem transfer_commits_what_is_held_witness:
  "list_all (\<lambda>x. confirmed (fst (sync_run (\<lambda>_ _. 0) example_outcomes ([], example_transfer))) (so_Hash x))
     (tr_objects (snd (sync_run (\<lambda>_ _. 0) example_outcomes ([], example_transfer))))"
proof -
  have "next_request (snd (sync_run (\<lambda>_ _. 0) example_outcomes ([], example_transfer))) = ReqCommit" by code_simp
  then show ?thesis
    using transfer_commits_what_is_held [OF example_transfer_made prod.collapse [symmetric]]
    unfolding list_all_iff by blast
qed

theorem split_rows_read_back_witness:
  "concat (map (object_rows example_json [\<lparr>so_Hash = ''1,2,'', so_Body = ''1,2,''\<rparr>]) [''1,2,'']) = [''1'', ''2'']"
proof -
  let ?x = "\<lparr>so_Hash = ''1,2,'', so_Body = ''1,2,''\<rparr>"
  have split: "split_rows example_json [''1'', ''2''] = Inr ([''1,2,''], [?x])" by code_simp
  have json: "js_array example_json raw = Some c" if "set c \<subseteq> set [''1'', ''2'']" "js_put_array example_json c = Some raw" for c raw
  proof -
    have "CHR '','' \<notin> set r" if "r \<in> set c" for r using that \<open>set c \<subseteq> set [''1'', ''2'']\<close> by auto
    then show ?thesis using that(2) cut_join [of c] by (simp add: example_json_def)
  qed
  have "set [?x] \<subseteq> set [?x]" "inj_on so_Hash (set [?x])" by simp_all
  from split_rows_read_back [OF split this json] show ?thesis by (rule conjunct1)
qed

end
