(* ===== verification/Envelope.thy ===== *)
theory Envelope
  imports Dispatch
begin

text \<open>
  Envelopes and channels (\<open>src/internal/xml/envelope.go\<close>, \<open>envelope_validate.go\<close>, the \<open>Envelope\<close> struct of
  \<open>messages.go\<close> and \<open>src/internal/server/channel.go\<close>): which messages a transport accepts and how it reads
  and writes the \<open>mos\<close> element around them.

  The model starts from what \<open>encoding/xml\<close> reads of an envelope: its identifiers and its operation as name,
  attributes and inner text. \<open>ParseMessage\<close> of the operation text is an argument.
\<close>

section \<open>Messages\<close>

record ROAckStory =
  ras_StoryID :: string
  ras_ItemID :: string
  ras_ObjID :: string
  ras_ItemChannel :: string
  ras_Status :: string

datatype mos_message =
    RunningOrderMsg inbound
  | KeepAlive | Heartbeat string | ReqMachInfo | ListMachInfo
  | ROAck string string "ROAckStory list" | MOSAck string string | NCSAck string string
  | MosObjMsg MosObj | MosObjAckMsg string | MosReqObj string | MosReqAll | MosListAll "MosObj list"
  | MosObjCreateMsg MosObjCreate | MosItemReplaceMsg MosItemReplace
  | MosReqSearchableSchema string | MosListSearchableSchema string
  | ROCtrlMsg ROCtrl | ROItemCueMsg ROItemCue | ROReqStoryActionMsg ROReqStoryAction | NCSReqStoryActionMsg NCSReqStoryAction
  | OtherMsg

definition GetMessageType :: "mos_message \<Rightarrow> string" where
  "GetMessageType m = (case m of
      RunningOrderMsg i \<Rightarrow> (case i of
        InReplace _ \<Rightarrow> ''roReplace'' | InDelete _ \<Rightarrow> ''roDelete'' | InMetadataReplace _ \<Rightarrow> ''roMetadataReplace''
      | InStorySend _ \<Rightarrow> ''roStorySend'' | InReadyToAir _ _ \<Rightarrow> ''roReadyToAir'' | InElementAction _ \<Rightarrow> ''roElementAction''
      | InElementStat _ \<Rightarrow> ''roElementStat'' | InReq _ \<Rightarrow> ''roReq'' | InReqAll \<Rightarrow> ''roReqAll'' | InList _ \<Rightarrow> ''roList''
      | InListAll _ \<Rightarrow> ''roListAll'' | InCreate _ \<Rightarrow> ''roCreate'' | InOther \<Rightarrow> [])
    | KeepAlive \<Rightarrow> ''keepAlive'' | Heartbeat _ \<Rightarrow> ''heartbeat'' | ReqMachInfo \<Rightarrow> ''reqMachInfo'' | ListMachInfo \<Rightarrow> ''listMachInfo''
    | ROAck _ _ _ \<Rightarrow> ''roAck'' | MOSAck _ _ \<Rightarrow> ''mosAck'' | NCSAck _ _ \<Rightarrow> ''ncsAck''
    | MosObjMsg _ \<Rightarrow> ''mosObj'' | MosObjAckMsg _ \<Rightarrow> ''mosAck'' | MosReqObj _ \<Rightarrow> ''mosReqObj'' | MosReqAll \<Rightarrow> ''mosReqAll''
    | MosListAll _ \<Rightarrow> ''mosListAll'' | MosObjCreateMsg _ \<Rightarrow> ''mosObjCreate'' | MosItemReplaceMsg _ \<Rightarrow> ''mosItemReplace''
    | MosReqSearchableSchema _ \<Rightarrow> ''mosReqSearchableSchema'' | MosListSearchableSchema _ \<Rightarrow> ''mosListSearchableSchema''
    | ROCtrlMsg _ \<Rightarrow> ''roCtrl'' | ROItemCueMsg _ \<Rightarrow> ''roItemCue'' | ROReqStoryActionMsg _ \<Rightarrow> ''roReqStoryAction''
    | NCSReqStoryActionMsg _ \<Rightarrow> ''ncsReqStoryAction'' | OtherMsg \<Rightarrow> [])"

text \<open>What the shared dispatcher sees of a message.\<close>

definition inbound_of :: "mos_message \<Rightarrow> inbound" where
  "inbound_of m = (case m of RunningOrderMsg i \<Rightarrow> i | _ \<Rightarrow> InOther)"

section \<open>Channels\<close>

definition ChannelMom :: string where "ChannelMom = ''mom''"
definition ChannelRO :: string where "ChannelRO = ''ro''"
definition ChannelAux :: string where "ChannelAux = ''aux''"

definition channelLegacyPort :: "string gomap" where
  "channelLegacyPort = [(''mom'', ''10540''), (''ro'', ''10541''), (''aux'', ''10542'')]"

definition IsKnownChannel :: "string \<Rightarrow> bool" where
  "IsKnownChannel channel \<longleftrightarrow> gm_get channelLegacyPort channel \<noteq> None"

datatype messageFamily = familyProfile0 | familyRunningOrder | familyObject | familySearch | familyUnknown

definition classifyMessage :: "mos_message \<Rightarrow> messageFamily" where
  "classifyMessage m = (case m of
      KeepAlive \<Rightarrow> familyProfile0 | Heartbeat _ \<Rightarrow> familyProfile0 | ReqMachInfo \<Rightarrow> familyProfile0 | ListMachInfo \<Rightarrow> familyProfile0
    | ROAck _ _ _ \<Rightarrow> familyRunningOrder
    | RunningOrderMsg i \<Rightarrow> (case i of
        InCreate _ \<Rightarrow> familyRunningOrder | InReplace _ \<Rightarrow> familyRunningOrder | InDelete _ \<Rightarrow> familyRunningOrder
      | InStorySend _ \<Rightarrow> familyRunningOrder | InReq _ \<Rightarrow> familyRunningOrder | InList _ \<Rightarrow> familyRunningOrder
      | InReqAll \<Rightarrow> familyRunningOrder | InListAll _ \<Rightarrow> familyRunningOrder | InElementStat _ \<Rightarrow> familyRunningOrder
      | _ \<Rightarrow> familyUnknown)
    | MosObjMsg _ \<Rightarrow> familyObject | MosObjAckMsg _ \<Rightarrow> familyObject | MosReqObj _ \<Rightarrow> familyObject
    | MosReqAll \<Rightarrow> familyObject | MosListAll _ \<Rightarrow> familyObject
    | _ \<Rightarrow> familyUnknown)"

definition channelAccepts :: "string \<Rightarrow> messageFamily \<Rightarrow> bool \<times> string" where
  "channelAccepts channel family =
     (let want = (case family of
        familyRunningOrder \<Rightarrow> Some ChannelRO | familyObject \<Rightarrow> Some ChannelMom | familySearch \<Rightarrow> Some ChannelAux
      | _ \<Rightarrow> None) in
      case want of
        None \<Rightarrow> (True, [])
      | Some w \<Rightarrow>
          if channel = w then (True, [])
          else (False, ''message belongs on channel '' @ w @ '' (legacy MOS port '' @ gm_string channelLegacyPort w @ ''), not '' @ channel))"

section \<open>Message identifiers on receipt\<close>

datatype Generation = Gen2x | Gen3x | Gen4x

definition Generation_String :: "Generation \<Rightarrow> string" where
  "Generation_String g = (case g of Gen2x \<Rightarrow> ''MOS 2.x'' | Gen3x \<Rightarrow> ''MOS 3.x'' | Gen4x \<Rightarrow> ''MOS 4.0'')"

definition RequiresMessageID :: "Generation \<Rightarrow> mos_message \<Rightarrow> bool" where
  "RequiresMessageID gen payload = (if payload = KeepAlive then False else gen \<noteq> Gen2x)"

definition inboundExemptFromMessageID :: "mos_message \<Rightarrow> bool" where
  "inboundExemptFromMessageID payload = (case payload of
      MOSAck _ _ \<Rightarrow> True | ROAck _ _ _ \<Rightarrow> True | NCSAck _ _ \<Rightarrow> True | _ \<Rightarrow> False)"

definition AcceptInboundMessageID :: "Generation \<Rightarrow> mos_message \<Rightarrow> string \<Rightarrow> unit result" where
  "AcceptInboundMessageID gen payload raw =
     (if inboundExemptFromMessageID payload then Inr ()
      else if RequiresMessageID gen payload \<and> raw = [] then Inl (Errorf (Generation_String gen @ '' envelope is missing messageID''))
      else Inr ())"

section \<open>The envelope of the socket\<close>

record inner_element =
  ie_name :: string
  ie_attrs :: "(string \<times> string) list"
  ie_raw :: string

text \<open>
  The messages of the typed fields that are set, in the order of the fields, and the element no field claims
  (with an empty name when there is none).
\<close>

record Envelope =
  en_MosID :: string
  en_NcsID :: string
  en_MessageID :: string
  en_typed :: "mos_message list"
  en_Body :: inner_element

definition body_text :: "inner_element \<Rightarrow> string" where
  "body_text b = ''<'' @ ie_name b @ concat (map (\<lambda>(n, v). '' '' @ n @ ''='' @ [CHR 34] @ v @ [CHR 34]) (ie_attrs b)) @ ''>''
     @ ie_raw b @ ''</'' @ ie_name b @ ''>''"

definition parseBody :: "(string \<Rightarrow> mos_message result) \<Rightarrow> Envelope \<Rightarrow> mos_message result" where
  "parseBody parse e =
     (if ie_name (en_Body e) = [] then Inl (Errorf ''unknown message type'') else parse (body_text (en_Body e)))"

definition Envelope_Message :: "(string \<Rightarrow> mos_message result) \<Rightarrow> Envelope \<Rightarrow> mos_message result" where
  "Envelope_Message parse e = (case en_typed e of
      [] \<Rightarrow> parseBody parse e
    | [m] \<Rightarrow> Inr m
    | _ \<Rightarrow> Inl (Errorf ''invalid XML format''))"

definition ValidateEnvelope ::
    "(string \<Rightarrow> mos_message result) \<Rightarrow> (string \<Rightarrow> string) \<Rightarrow> Envelope \<Rightarrow> Generation \<Rightarrow> string \<Rightarrow> string \<Rightarrow> mos_message result" where
  "ValidateEnvelope parse quote_fn e gen expectedMosID expectedNcsID =
     (if en_MosID e = [] then Inl (Errorf ''MOS envelope is missing mosID'')
      else if en_NcsID e = [] then Inl (Errorf ''MOS envelope is missing ncsID'')
      else case Envelope_Message parse e of
        Inl er \<Rightarrow> Inl er
      | Inr payload \<Rightarrow>
          (case AcceptInboundMessageID gen payload (en_MessageID e) of
             Inl er \<Rightarrow> Inl er
           | Inr _ \<Rightarrow>
               if en_MosID e \<noteq> expectedMosID
               then Inl (Errorf (''MOS envelope addressed to '' @ quote_fn (en_MosID e) @ '', expected '' @ quote_fn expectedMosID))
               else if expectedNcsID \<noteq> [] \<and> en_NcsID e \<noteq> expectedNcsID
               then Inl (Errorf (''MOS envelope from NCS '' @ quote_fn (en_NcsID e) @ '', expected '' @ quote_fn expectedNcsID))
               else Inr payload))"

section \<open>The envelope of the WebSocket\<close>

record rawMosEnvelope =
  raw_MosID :: string
  raw_NcsID :: string
  raw_MessageID :: string
  raw_Inner :: "inner_element list"

record MosEnvelope =
  mev_MosID :: string
  mev_NcsID :: string
  mev_MessageID :: string

definition reconstructElement :: "inner_element \<Rightarrow> string" where
  "reconstructElement inner =
     (if ie_raw inner = [] then ''<'' @ ie_name inner @ ''/>''
      else ''<'' @ ie_name inner @ ''>'' @ ie_raw inner @ ''</'' @ ie_name inner @ ''>'')"

definition is_operation :: "inner_element \<Rightarrow> bool" where
  "is_operation inner \<longleftrightarrow> ie_name inner \<noteq> ''mosID'' \<and> ie_name inner \<noteq> ''ncsID'' \<and> ie_name inner \<noteq> ''messageID''"

text \<open>
  \<open>ParseEnvelope\<close>: the envelope, when there is one, and the message with the text of its operation, or an
  error. \<open>raw\<close> is what \<open>xml.Unmarshal\<close> gives.
\<close>

definition ParseEnvelope ::
    "(string \<Rightarrow> mos_message result) \<Rightarrow> rawMosEnvelope result \<Rightarrow> MosEnvelope option \<times> (mos_message option \<times> string) result" where
  "ParseEnvelope parse input = (case input of
      Inl er \<Rightarrow> (None, Inl (Wrap ''failed to parse mos envelope'' er))
    | Inr raw \<Rightarrow>
        if raw_MosID raw = [] then (None, Inl (Errorf ''mos envelope missing mosID''))
        else if raw_NcsID raw = [] then (None, Inl (Errorf ''mos envelope missing ncsID''))
        else
          let env = \<lparr>mev_MosID = raw_MosID raw, mev_NcsID = raw_NcsID raw, mev_MessageID = raw_MessageID raw\<rparr> in
          (Some env, case List.find is_operation (raw_Inner raw) of
             None \<Rightarrow> if raw_MessageID raw = [] then Inl (Errorf ''mos envelope missing messageID'') else Inr (None, [])
           | Some inner \<Rightarrow>
               (let operationXML = reconstructElement inner in
                case parse operationXML of
                  Inl er \<Rightarrow> Inl (Wrap ''failed to parse inner operation'' er)
                | Inr msg \<Rightarrow>
                    (case AcceptInboundMessageID Gen4x msg (raw_MessageID raw) of
                       Inl er \<Rightarrow> Inl er
                     | Inr _ \<Rightarrow> Inr (Some msg, operationXML)))))"

fun xmlEscape :: "string \<Rightarrow> string" where
  "xmlEscape [] = []"
| "xmlEscape (c # s) =
     (if c = CHR ''&'' then ''&amp;'' else if c = CHR ''<'' then ''&lt;'' else if c = CHR ''>'' then ''&gt;'' else [c]) @ xmlEscape s"

definition WrapEnvelope :: "string \<Rightarrow> string \<Rightarrow> string \<Rightarrow> string \<Rightarrow> string" where
  "WrapEnvelope mosID ncsID messageID innerXML =
     ''<mos><mosID>'' @ xmlEscape mosID @ ''</mosID><ncsID>'' @ xmlEscape ncsID @ ''</ncsID><messageID>''
     @ xmlEscape messageID @ ''</messageID>'' @ innerXML @ ''</mos>''"

section \<open>Properties\<close>

text \<open>A reader of such an envelope: the text of an element ends at the next \<open><\<close> and its entities are decoded.\<close>

fun unescape :: "string \<Rightarrow> string" where
  "unescape [] = []"
| "unescape (c # s) =
     (if c = CHR ''&'' \<and> take 4 s = ''amp;'' then CHR ''&'' # unescape (drop 4 s)
      else if c = CHR ''&'' \<and> take 3 s = ''lt;'' then CHR ''<'' # unescape (drop 3 s)
      else if c = CHR ''&'' \<and> take 3 s = ''gt;'' then CHR ''>'' # unescape (drop 3 s)
      else c # unescape s)"

definition strip_literal :: "string \<Rightarrow> string \<Rightarrow> string option" where
  "strip_literal p s = (if take (length p) s = p then Some (drop (length p) s) else None)"

definition read_element :: "string \<Rightarrow> string \<Rightarrow> (string \<times> string) option" where
  "read_element name s = (case strip_literal (''<'' @ name @ ''>'') s of
      None \<Rightarrow> None
    | Some t \<Rightarrow> (case strip_literal (''</'' @ name @ ''>'') (dropWhile (\<lambda>c. c \<noteq> CHR ''<'') t) of
        None \<Rightarrow> None
      | Some rest \<Rightarrow> Some (unescape (takeWhile (\<lambda>c. c \<noteq> CHR ''<'') t), rest)))"

definition read_envelope :: "string \<Rightarrow> (string \<times> string \<times> string \<times> string) option" where
  "read_envelope s = (case strip_literal ''<mos>'' s of
      None \<Rightarrow> None
    | Some s \<Rightarrow> (case read_element ''mosID'' s of
        None \<Rightarrow> None
      | Some (mosID, s) \<Rightarrow> (case read_element ''ncsID'' s of
          None \<Rightarrow> None
        | Some (ncsID, s) \<Rightarrow> (case read_element ''messageID'' s of
            None \<Rightarrow> None
          | Some (messageID, s) \<Rightarrow> Some (mosID, ncsID, messageID, take (length s - 6) s)))))"

lemma unescape_xmlEscape [simp]: "unescape (xmlEscape s) = s"
  by (induction s) simp_all

lemma xmlEscape_no_tag: "CHR ''<'' \<notin> set (xmlEscape s)"
  by (induction s) simp_all

lemma strip_literal_append [simp]: "strip_literal p (p @ s) = Some s"
  by (simp add: strip_literal_def)

lemma read_element_escaped:
  "read_element name (''<'' @ name @ ''>'' @ xmlEscape v @ ''</'' @ name @ ''>'' @ s) = Some (v, s)"
proof -
  have "takeWhile (\<lambda>c. c \<noteq> CHR ''<'') (xmlEscape v @ CHR ''<'' # t) = xmlEscape v"
    "dropWhile (\<lambda>c. c \<noteq> CHR ''<'') (xmlEscape v @ CHR ''<'' # t) = CHR ''<'' # t" for t
    using xmlEscape_no_tag [of v] by (auto simp: takeWhile_append dropWhile_append intro!: takeWhile_eq_all_conv [THEN iffD2])
  then show ?thesis
    using strip_literal_append [of "''<'' @ name @ ''>''" "xmlEscape v @ ''</'' @ name @ ''>'' @ s"]
      strip_literal_append [of "''</'' @ name @ ''>''" s]
    by (simp add: read_element_def)
qed


text \<open>
  C39. The WebSocket server does not see the attributes of an operation: envelopes that differ only in them give
  the same message and the same text for deduplication, whatever the parser does. So \<open>roElementAction\<close> arrives
  without its operation and \<open>roElementStat\<close> without its element.
\<close>

theorem ws_attributes_are_lost:
  "ParseEnvelope parse (Inr (raw\<lparr>raw_Inner := map (\<lambda>ie. ie\<lparr>ie_attrs := attrs ie\<rparr>) (raw_Inner raw)\<rparr>)) = ParseEnvelope parse (Inr raw)"
proof -
  have "List.find is_operation (map (\<lambda>ie. ie\<lparr>ie_attrs := attrs ie\<rparr>) xs) = map_option (\<lambda>ie. ie\<lparr>ie_attrs := attrs ie\<rparr>) (List.find is_operation xs)"
    for xs
    by (induction xs) (simp_all add: is_operation_def)
  then show ?thesis
    by (simp add: ParseEnvelope_def reconstructElement_def Let_def split: option.split sum.split)
qed

end
