(* ===== verification/Transport.thy ===== *)
theory Transport
  imports Envelope Dispatching DedupFile
begin

text \<open>
  The two receiving transports on top of the shared dispatcher, without a committed source: a connection of
  the MOS 2.x socket (\<open>src/internal/server/client.go\<close> and its handler files) and the MOS 4 WebSocket server
  (\<open>wsserver.go\<close>), with heartbeats, channels, envelopes and deduplication.

  A handler takes the state and returns what is written to the connection, in order, and the new state. What
  encoding a message gives is a field of \<open>transport_env\<close>; how the disk behaves is an argument of each use of
  the deduplication store.
\<close>

section \<open>Environment and state\<close>

record transport_env =
  te_go :: go_env
  te_mosID :: string
  te_ncsID :: string
  te_parse :: "string \<Rightarrow> mos_message result"
  te_hash :: "string \<Rightarrow> string"
  te_marshal_mosAck :: "string \<Rightarrow> string \<Rightarrow> string option"
  te_marshal_roAck :: "string \<Rightarrow> string \<Rightarrow> string option"
  te_marshal_machInfo :: "string option"
  te_marshal_create :: "RunningOrderInfo \<Rightarrow> string result"
  te_generate :: "string \<Rightarrow> string \<Rightarrow> string \<Rightarrow> string \<Rightarrow> string \<Rightarrow> string result"

section \<open>Heartbeats\<close>

definition minHeartbeatReplyInterval :: time where "minHeartbeatReplyInterval = 1000000000"

text \<open>\<open>allowHeartbeatReply\<close>, on the time of the last reply.\<close>

definition allowHeartbeatReply :: "time \<Rightarrow> time option \<Rightarrow> bool \<times> time option" where
  "allowHeartbeatReply t lastReply = (case lastReply of
      Some l \<Rightarrow> if t - l < minHeartbeatReplyInterval then (False, lastReply) else (True, Some t)
    | None \<Rightarrow> (True, Some t))"

text \<open>The monitor: a buffer of five heartbeats that its loop takes one by one, and a check at each tick.\<close>

record HeartbeatMonitor =
  hm_lastSeen :: time
  hm_timeout :: time
  hm_queued :: nat
  hm_timedOut :: bool

definition RecordHeartbeat :: "HeartbeatMonitor \<Rightarrow> HeartbeatMonitor" where
  "RecordHeartbeat h = (if hm_queued h < 5 then h\<lparr>hm_queued := hm_queued h + 1\<rparr> else h)"

definition monitor_take :: "time \<Rightarrow> HeartbeatMonitor \<Rightarrow> HeartbeatMonitor" where
  "monitor_take t h = (if hm_timedOut h \<or> hm_queued h = 0 then h else h\<lparr>hm_queued := hm_queued h - 1, hm_lastSeen := t\<rparr>)"

definition monitor_tick :: "time \<Rightarrow> HeartbeatMonitor \<Rightarrow> HeartbeatMonitor" where
  "monitor_tick t h = (if hm_timedOut h then h else if t - hm_lastSeen h > hm_timeout h then h\<lparr>hm_timedOut := True\<rparr> else h)"

section \<open>The socket connection\<close>

datatype bare_message =
    MosObjAckBare string int string string | MosObjBare MosObj | MosListAllBare "MosObj list" | ROAckBare string string
  | MosAckBare string string | SchemaBare string

text \<open>
  What a connection writes: an answer or request of the dispatcher, an answer in the envelope of the request, a
  message without an envelope, an \<open>ncsAck\<close> in an envelope with a fixed \<open>ncsID\<close> and \<open>messageID\<close>, or stored bytes.
  Writing these is taken to succeed; only the dispatcher's answers can fail.
\<close>

datatype tcp_out =
    TcpDispatched sent | TcpHeartbeat string | TcpMachInfo | TcpEnveloped string string | TcpBare bare_message
  | TcpNCSAck string string | TcpBytes string

record tcp_connection =
  tc_dispatcher :: dispatcher
  tc_dedup :: FileDedupStore
  tc_lastReply :: "time option"
  tc_monitor :: HeartbeatMonitor

type_synonym tcp_handler = "tcp_connection \<Rightarrow> unit result \<times> tcp_out list \<times> tcp_connection"

definition tcp_service :: "'a svc_op \<Rightarrow> tcp_connection \<Rightarrow> 'a result \<times> tcp_connection" where
  "tcp_service f c = (let (r, d) = svc_call f (tc_dispatcher c) in (r, c\<lparr>tc_dispatcher := d\<rparr>))"

definition bare :: "bare_message \<Rightarrow> tcp_handler" where
  "bare m c = (Inr (), [TcpBare m], c)"

definition quietly :: tcp_handler where
  "quietly c = (Inr (), [], c)"

definition handleHeartbeat :: "transport_env \<Rightarrow> string \<Rightarrow> tcp_handler" where
  "handleHeartbeat te requestID c =
     (let (allowed, lastReply) = allowHeartbeatReply (now (te_go te)) (tc_lastReply c);
          c = c\<lparr>tc_monitor := RecordHeartbeat (tc_monitor c), tc_lastReply := lastReply\<rparr> in
      (Inr (), if allowed then [TcpHeartbeat requestID] else [], c))"

definition handleKeepAlive :: tcp_handler where
  "handleKeepAlive c = (Inr (), [], c\<lparr>tc_monitor := RecordHeartbeat (tc_monitor c)\<rparr>)"

definition handleMosObj :: "go_env \<Rightarrow> MosObj \<Rightarrow> tcp_handler" where
  "handleMosObj e m c = (case tcp_service (StoreObject e m) c of
      (Inl er, c) \<Rightarrow> bare (MosObjAckBare (mo_ObjID m) (mo_ObjRev m) ''NACK'' (''Failed to store object: '' @ err_Error e er)) c
    | (Inr _, c) \<Rightarrow> bare (MosObjAckBare (mo_ObjID m) (mo_ObjRev m) ''ACK'' ''Object stored successfully'') c)"

definition handleMosReqObj :: "go_env \<Rightarrow> string \<Rightarrow> tcp_handler" where
  "handleMosReqObj e objID c = (case tcp_service (GetObject e objID) c of
      (Inl er, c) \<Rightarrow> bare (MosAckBare ''NACK'' (''Object not found: '' @ objID)) c
    | (Inr obj, c) \<Rightarrow> bare (MosObjBare obj) c)"

definition handleMosReqAll :: "go_env \<Rightarrow> tcp_handler" where
  "handleMosReqAll e c = (case tcp_service (GetAllObjects e) c of
      (Inl er, c) \<Rightarrow> bare (MosAckBare ''NACK'' (''Failed to retrieve objects: '' @ err_Error e er)) c
    | (Inr objects, c) \<Rightarrow> bare (MosListAllBare objects) c)"

definition handleMosListAll :: "go_env \<Rightarrow> MosObj list \<Rightarrow> tcp_handler" where
  "handleMosListAll e objects c = quietly (fold (\<lambda>obj c. snd (tcp_service (StoreObject e obj) c)) objects c)"

definition handleMosObjCreate :: "go_env \<Rightarrow> MosObjCreate \<Rightarrow> tcp_handler" where
  "handleMosObjCreate e m c = (case tcp_service (CreateObjectFromNCS e m) c of
      (Inl er, c) \<Rightarrow> bare (MosObjAckBare [] 0 ''NACK'' (''Failed to create object: '' @ err_Error e er)) c
    | (Inr objID, c) \<Rightarrow> bare (MosObjAckBare objID 1 ''ACK'' ''Object created successfully'') c)"

text \<open>The four handlers that apply a message and answer with a bare \<open>roAck\<close>.\<close>

definition ack_bare :: "string \<Rightarrow> unit svc_op \<Rightarrow> tcp_handler" where
  "ack_bare roID f c = (case tcp_service f c of
      (Inl er, c) \<Rightarrow> bare (ROAckBare roID ''NACK'') c
    | (Inr _, c) \<Rightarrow> bare (ROAckBare roID ''ACK'') c)"

definition handleMosItemReplace :: "go_env \<Rightarrow> MosItemReplace \<Rightarrow> tcp_handler" where
  "handleMosItemReplace e m = ack_bare (mir_ROID m) (ReplaceItemInStory e m)"

definition handleROCtrl :: "go_env \<Rightarrow> ROCtrl \<Rightarrow> tcp_handler" where
  "handleROCtrl e m = ack_bare (rc_ROID m) (ProcessROCtrl e m)"

definition handleROItemCue :: "go_env \<Rightarrow> ROItemCue \<Rightarrow> tcp_handler" where
  "handleROItemCue e m = ack_bare (ric_ROID m) (ProcessROItemCue e m)"

definition handleROReqStoryAction :: "go_env \<Rightarrow> ROReqStoryAction \<Rightarrow> tcp_handler" where
  "handleROReqStoryAction e m = ack_bare (sab_ROID (rrsa_StoryAction m)) (ProcessROReqStoryAction e m)"

definition handleNCSReqStoryAction :: "go_env \<Rightarrow> NCSReqStoryAction \<Rightarrow> tcp_handler" where
  "handleNCSReqStoryAction e m c = (case tcp_service (ProcessStoryAction e m) c of
      (Inl er, c) \<Rightarrow> (Inr (), [TcpNCSAck ''ERROR'' (''Failed to process story action: '' @ err_Error e er)], c)
    | (Inr _, c) \<Rightarrow> (Inr (), [TcpNCSAck ''ACK'' ''Story action processed successfully''], c))"

definition dedupScope :: string where "dedupScope = ''tcp:ro''"

text \<open>\<open>buildMessage\<close> for an \<open>roAck\<close>.\<close>

definition build_roAck :: "transport_env \<Rightarrow> Envelope \<Rightarrow> string \<Rightarrow> string \<Rightarrow> string result" where
  "build_roAck te env roID status =
     te_generate te (te_mosID te) (if te_ncsID te \<noteq> [] then te_ncsID te else en_NcsID env) (en_MessageID env) roID status"

definition apply_create :: "transport_env \<Rightarrow> io_outcome \<Rightarrow> Envelope \<Rightarrow> bool \<Rightarrow> RunningOrderInfo \<Rightarrow> tcp_handler" where
  "apply_create te io env dedupable m c = (case tcp_service (ProcessRunningOrderInfo (te_go te) m (te_mosID te)) c of
      (Inl er, c) \<Rightarrow> (Inr (), [TcpEnveloped (roi_ID m) (''NACK: '' @ firstLine (te_go te) er)], c)
    | (Inr _, c) \<Rightarrow>
        (case build_roAck te env (roi_ID m) ''OK'' of
           Inl er \<Rightarrow> (Inl er, [], c)
         | Inr ack \<Rightarrow>
             (Inr (), [TcpBytes ack],
              if dedupable then c\<lparr>tc_dedup := fd_Remember io dedupScope (en_NcsID env) (en_MessageID env) ack (tc_dedup c)\<rparr> else c)))"

definition handleRunningOrderInfo ::
    "transport_env \<Rightarrow> io_outcome \<Rightarrow> io_outcome \<Rightarrow> Envelope \<Rightarrow> RunningOrderInfo \<Rightarrow> tcp_handler" where
  "handleRunningOrderInfo te io1 io2 env m c =
     (if en_MessageID env = [] then apply_create te io2 env False m c
      else case te_marshal_create te m of
        Inl er \<Rightarrow> (Inl (Wrap ''failed to hash running order for deduplication'' er), [], c)
      | Inr content \<Rightarrow>
          (case fd_Check (te_hash te) io1 dedupScope (en_NcsID env) (en_MessageID env) content (tc_dedup c) of
             (verdict, dd) \<Rightarrow>
               let c = c\<lparr>tc_dedup := dd\<rparr> in
               case verdict of
                 DedupConflict \<Rightarrow> (Inr (), [TcpEnveloped (roi_ID m) ''NACK: messageID conflict, same ID with different content''], c)
               | DedupNew \<Rightarrow> apply_create te io2 env True m c
               | DedupDuplicate \<Rightarrow>
                   (case fd_Response dedupScope (en_NcsID env) (en_MessageID env) dd of
                      Some original \<Rightarrow> (Inr (), [TcpBytes original], c)
                    | None \<Rightarrow> apply_create te io2 env True m c)))"

definition handlePayload ::
    "transport_env \<Rightarrow> bool \<Rightarrow> lane \<Rightarrow> io_outcome \<Rightarrow> io_outcome \<Rightarrow> Envelope \<Rightarrow> mos_message \<Rightarrow> tcp_handler" where
  "handlePayload te walk_io ln io1 io2 env message c =
     (case dispatchRunningOrder (te_go te) walk_io ln (inbound_of message) (tc_dispatcher c) of
        (handled, ok, sent, d) \<Rightarrow>
          let c = c\<lparr>tc_dispatcher := d\<rparr>; out = map TcpDispatched sent in
          if handled then (if ok then Inr () else Inl (Errorf ''write''), out, c)
          else
            let (r, more_out, c) = (case message of
                Heartbeat k \<Rightarrow> handleHeartbeat te k c
              | KeepAlive \<Rightarrow> handleKeepAlive c
              | ReqMachInfo \<Rightarrow> (Inr (), [TcpMachInfo], c)
              | ListMachInfo \<Rightarrow> quietly c
              | MosObjMsg m \<Rightarrow> handleMosObj (te_go te) m c
              | MosReqObj k \<Rightarrow> handleMosReqObj (te_go te) k c
              | MosReqAll \<Rightarrow> handleMosReqAll (te_go te) c
              | MosListAll ms \<Rightarrow> handleMosListAll (te_go te) ms c
              | ROAck _ _ _ \<Rightarrow> quietly c
              | MosObjCreateMsg m \<Rightarrow> handleMosObjCreate (te_go te) m c
              | MosItemReplaceMsg m \<Rightarrow> handleMosItemReplace (te_go te) m c
              | MosReqSearchableSchema u \<Rightarrow> bare (SchemaBare u) c
              | MosListSearchableSchema _ \<Rightarrow> quietly c
              | RunningOrderMsg (InCreate m) \<Rightarrow> handleRunningOrderInfo te io1 io2 env m c
              | MOSAck _ _ \<Rightarrow> quietly c
              | ROCtrlMsg m \<Rightarrow> handleROCtrl (te_go te) m c
              | ROItemCueMsg m \<Rightarrow> handleROItemCue (te_go te) m c
              | ROReqStoryActionMsg m \<Rightarrow> handleROReqStoryAction (te_go te) m c
              | NCSReqStoryActionMsg m \<Rightarrow> handleNCSReqStoryAction (te_go te) m c
              | _ \<Rightarrow> (Inl (Errorf ''unknown message type''), [], c)) in
            (r, out @ more_out, c))"

definition handleMessage ::
    "transport_env \<Rightarrow> bool \<Rightarrow> lane \<Rightarrow> io_outcome \<Rightarrow> io_outcome \<Rightarrow> Envelope \<Rightarrow> tcp_handler" where
  "handleMessage te walk_io ln io1 io2 env c =
     (case ValidateEnvelope (te_parse te) (quote (te_go te)) env Gen2x (te_mosID te) (te_ncsID te) of
        Inl er \<Rightarrow> (Inl er, [], c)
      | Inr inner \<Rightarrow> handlePayload te walk_io ln io1 io2 env inner c)"

section \<open>The WebSocket server\<close>

record WSSession =
  wss_mosID :: string
  wss_ncsID :: string
  wss_channel :: string

datatype upgrade = Upgraded WSSession | Forbidden string | BadUpgrade string

definition handleUpgrade :: "transport_env \<Rightarrow> string \<Rightarrow> string \<Rightarrow> string \<Rightarrow> upgrade" where
  "handleUpgrade te mosID ncsID channel =
     (if mosID = [] \<or> mosID \<noteq> te_mosID te then Forbidden ''invalid or missing mosID''
      else if ncsID = [] then BadUpgrade ''missing ncsID''
      else if te_ncsID te \<noteq> [] \<and> ncsID \<noteq> te_ncsID te then Forbidden ''ncsID not authorized''
      else if \<not> IsKnownChannel channel then BadUpgrade ''unknown channel; expected mom, ro or aux''
      else Upgraded \<lparr>wss_mosID = mosID, wss_ncsID = ncsID, wss_channel = channel\<rparr>)"

datatype ws_out = WSFrame string | WSDispatched sent

record WSServer =
  ws_dispatcher :: dispatcher
  ws_dedup :: FileDedupStore

type_synonym ws_handler = "WSServer \<Rightarrow> ws_out list \<times> WSServer"

definition maxNackDescription :: nat where "maxNackDescription = 200"

definition truncateForNack :: "string \<Rightarrow> string" where
  "truncateForNack s = (if length s \<le> maxNackDescription then s else take maxNackDescription s @ ''...'')"

definition sendNack :: "transport_env \<Rightarrow> WSSession \<Rightarrow> string \<Rightarrow> string \<Rightarrow> string \<Rightarrow> ws_out list" where
  "sendNack te sess messageID status description = (case te_marshal_mosAck te status description of
      None \<Rightarrow> []
    | Some inner \<Rightarrow> [WSFrame (WrapEnvelope (te_mosID te) (wss_ncsID sess) messageID inner)])"

definition handleReqMachInfo :: "transport_env \<Rightarrow> WSSession \<Rightarrow> MosEnvelope \<Rightarrow> ws_out list" where
  "handleReqMachInfo te sess env = (case te_marshal_machInfo te of
      None \<Rightarrow> []
    | Some inner \<Rightarrow> [WSFrame (WrapEnvelope (te_mosID te) (wss_ncsID sess) (mev_MessageID env) inner)])"

definition ws_scope :: "WSSession \<Rightarrow> string" where "ws_scope sess = ''ws:'' @ wss_channel sess"

definition persist_create :: "transport_env \<Rightarrow> io_outcome \<Rightarrow> WSSession \<Rightarrow> MosEnvelope \<Rightarrow> RunningOrderInfo \<Rightarrow> ws_handler" where
  "persist_create te io sess env m s =
     (case svc_call (ProcessRunningOrderInfo (te_go te) m (mev_MosID env)) (ws_dispatcher s) of
        (Inl er, d) \<Rightarrow> (sendNack te sess (mev_MessageID env) ''NACK'' ''persistence failure'', s\<lparr>ws_dispatcher := d\<rparr>)
      | (Inr _, d) \<Rightarrow>
          (case te_marshal_roAck te (roi_ID m) ''OK'' of
             None \<Rightarrow> ([], s\<lparr>ws_dispatcher := d\<rparr>)
           | Some inner \<Rightarrow>
               let response = WrapEnvelope (te_mosID te) (wss_ncsID sess) (mev_MessageID env) inner in
               ([WSFrame response], s\<lparr>ws_dispatcher := d,
                  ws_dedup := fd_Remember io (ws_scope sess) (mev_NcsID env) (mev_MessageID env) response (ws_dedup s)\<rparr>)))"

definition handleRoCreate ::
    "transport_env \<Rightarrow> io_outcome \<Rightarrow> io_outcome \<Rightarrow> WSSession \<Rightarrow> MosEnvelope \<Rightarrow> RunningOrderInfo \<Rightarrow> string \<Rightarrow> ws_handler" where
  "handleRoCreate te io1 io2 sess env m innerOpXML s =
     (case fd_Check (te_hash te) io1 (ws_scope sess) (mev_NcsID env) (mev_MessageID env) innerOpXML (ws_dedup s) of
        (verdict, dd) \<Rightarrow>
          let s = s\<lparr>ws_dedup := dd\<rparr> in
          case verdict of
            DedupDuplicate \<Rightarrow>
              (case fd_Response (ws_scope sess) (mev_NcsID env) (mev_MessageID env) dd of
                 Some original \<Rightarrow> ([WSFrame original], s)
               | None \<Rightarrow> persist_create te io2 sess env m s)
          | DedupConflict \<Rightarrow> (sendNack te sess (mev_MessageID env) ''NACK'' ''messageID conflict: same ID with different content'', s)
          | DedupNew \<Rightarrow> persist_create te io2 sess env m s)"

definition ws_dispatch :: "transport_env \<Rightarrow> bool \<Rightarrow> lane \<Rightarrow> WSSession \<Rightarrow> MosEnvelope \<Rightarrow> mos_message \<Rightarrow> ws_handler" where
  "ws_dispatch te walk_io ln sess env msg s =
     (case dispatchRunningOrder (te_go te) walk_io ln (inbound_of msg) (ws_dispatcher s) of
        (handled, ok, sent, d) \<Rightarrow>
          (map WSDispatched sent @ (if handled then []
             else sendNack te sess (mev_MessageID env) ''NACK'' (''message type '' @ GetMessageType msg @ '' is not implemented'')),
           s\<lparr>ws_dispatcher := d\<rparr>))"

definition process_parsed ::
    "transport_env \<Rightarrow> bool \<Rightarrow> lane \<Rightarrow> io_outcome \<Rightarrow> io_outcome \<Rightarrow> WSSession \<Rightarrow> MosEnvelope \<Rightarrow> mos_message \<Rightarrow> string \<Rightarrow> ws_handler" where
  "process_parsed te walk_io ln io1 io2 sess env msg innerOpXML s =
     (let (ok, why) = channelAccepts (wss_channel sess) (classifyMessage msg) in
      if \<not> ok then (sendNack te sess (mev_MessageID env) ''NACK'' why, s)
      else case msg of
        RunningOrderMsg (InCreate m) \<Rightarrow> handleRoCreate te io1 io2 sess env m innerOpXML s
      | KeepAlive \<Rightarrow> (case advanceWalk (te_go te) walk_io ln (ws_dispatcher s) of
          (sent, d) \<Rightarrow> (map WSDispatched sent, s\<lparr>ws_dispatcher := d\<rparr>))
      | ReqMachInfo \<Rightarrow> (handleReqMachInfo te sess env, s)
      | _ \<Rightarrow> ws_dispatch te walk_io ln sess env msg s)"

definition processMessage ::
    "transport_env \<Rightarrow> bool \<Rightarrow> lane \<Rightarrow> io_outcome \<Rightarrow> io_outcome \<Rightarrow> WSSession \<Rightarrow> rawMosEnvelope result \<Rightarrow> ws_handler" where
  "processMessage te walk_io ln io1 io2 sess data s =
     (case ParseEnvelope (te_parse te) data of
        (env, Inl er) \<Rightarrow>
          (sendNack te sess (case env of None \<Rightarrow> [] | Some v \<Rightarrow> mev_MessageID v) ''NACK''
             (truncateForNack (''invalid envelope: '' @ err_Error (te_go te) er)), s)
      | (None, Inr _) \<Rightarrow> ([], s)
      | (Some env, Inr (None, _)) \<Rightarrow> ([], s)
      | (Some env, Inr (Some msg, innerOpXML)) \<Rightarrow> process_parsed te walk_io ln io1 io2 sess env msg innerOpXML s)"

section \<open>Heartbeat replies\<close>

text \<open>The times at which heartbeats arriving at the given times are answered.\<close>

fun reply_times :: "time option \<Rightarrow> time list \<Rightarrow> time list" where
  "reply_times l [] = []"
| "reply_times l (t # ts) = (case allowHeartbeatReply t l of (allowed, l') \<Rightarrow> if allowed then t # reply_times l' ts else reply_times l' ts)"

lemma reply_times_after:
  "r \<in> set (reply_times (Some l) ts) \<Longrightarrow> l + minHeartbeatReplyInterval \<le> r"
proof (induction ts arbitrary: l)
  case (Cons t ts)
  have pos: "0 \<le> minHeartbeatReplyInterval" by (simp add: minHeartbeatReplyInterval_def)
  show ?case
  proof (cases "t - l < minHeartbeatReplyInterval")
    case True
    then show ?thesis using Cons by (simp add: allowHeartbeatReply_def)
  next
    case False
    then have "r = t \<or> r \<in> set (reply_times (Some t) ts)" using Cons.prems by (auto simp: allowHeartbeatReply_def)
    then show ?thesis using False Cons.IH [of t] pos by auto
  qed
qed simp

text \<open>
  A peer that echoes heartbeats cannot drive an endless exchange: whenever heartbeats arrive, also with a clock
  that is set back, any two replies of a connection are at least one second apart.
\<close>

theorem heartbeat_replies_spaced:
  "sorted_wrt (\<lambda>a b. a + minHeartbeatReplyInterval \<le> b) (reply_times l ts)"
proof (induction ts arbitrary: l)
  case (Cons t ts)
  then show ?case
    using reply_times_after [of _ t ts] by (auto simp: allowHeartbeatReply_def split: option.split)
qed simp

section \<open>The store under the WebSocket\<close>

definition service_of :: "WSServer \<Rightarrow> MOSService" where "service_of s = dp_service (ws_dispatcher s)"

lemma advanceWalk_service [simp]: "dp_service (snd (advanceWalk e io ln d)) = dp_service d"
  by (simp add: advanceWalk_def Let_def split: prod.split)

lemma dispatch_other_service: "dp_service (snd (snd (snd (dispatchRunningOrder e io ln InOther d)))) = dp_service d"
  using advanceWalk_service [of e io ln d]
  by (cases "advanceWalk e io ln d") (simp add: dispatchRunningOrder_def handle_inbound_def)

definition unclassified_change :: "mos_message \<Rightarrow> bool" where
  "unclassified_change msg \<longleftrightarrow> (case msg of
      RunningOrderMsg (InElementAction _) \<Rightarrow> True | RunningOrderMsg (InReadyToAir _ _) \<Rightarrow> True
    | RunningOrderMsg (InMetadataReplace _) \<Rightarrow> True | _ \<Rightarrow> False)"

text \<open>
  C31. The channels keep running orders apart from objects, with three exceptions: a message changes the store only
  when it arrives on the \<open>ro\<close> channel, or when it is \<open>roElementAction\<close>, \<open>roReadyToAir\<close> or \<open>roMetadataReplace\<close>,
  which \<open>classifyMessage\<close> does not know and which are therefore applied on every channel.
\<close>

theorem store_changes_on_ro_channel:
  assumes "service_of (snd (process_parsed te walk_io ln io1 io2 sess env msg inner s)) \<noteq> service_of s"
  shows "wss_channel sess = ''ro'' \<or> unclassified_change msg"
proof (rule ccontr)
  assume not: "\<not> (wss_channel sess = ''ro'' \<or> unclassified_change msg)"
  have other: "service_of (snd (ws_dispatch te walk_io ln sess env m s)) = service_of s" if "inbound_of m = InOther" for m
    using that dispatch_other_service [of "te_go te" walk_io ln "ws_dispatcher s"]
    by (auto simp: ws_dispatch_def service_of_def split: prod.split)
  have keep: "service_of (snd (case advanceWalk (te_go te) walk_io ln (ws_dispatcher s) of
      (sent, d) \<Rightarrow> (map WSDispatched sent, s\<lparr>ws_dispatcher := d\<rparr>))) = service_of s"
    by (simp add: service_of_def case_prod_beta)
  have "service_of (snd (process_parsed te walk_io ln io1 io2 sess env msg inner s)) = service_of s"
  proof (cases msg)
    case (RunningOrderMsg i)
    then show ?thesis using not other [of "RunningOrderMsg InOther"]
      by (cases i) (simp_all add: process_parsed_def classifyMessage_def channelAccepts_def ChannelRO_def unclassified_change_def inbound_of_def)
  qed (use not other keep in \<open>simp_all add: process_parsed_def classifyMessage_def channelAccepts_def inbound_of_def split: if_split\<close>)
  then show False using assms by simp
qed

section \<open>Retries\<close>

text \<open>
  C40. The socket does not deduplicate: whatever its deduplication store holds, every \<open>roCreate\<close> with a valid
  envelope is applied, a retry as well, and the store is neither read nor written. The handler that would
  consult it stands behind the shared dispatcher, which already handles \<open>roCreate\<close>.
\<close>

theorem socket_create_always_applied:
  assumes "ValidateEnvelope (te_parse te) (quote (te_go te)) env Gen2x (te_mosID te) (te_ncsID te) = Inr (RunningOrderMsg (InCreate m))"
    and "handleMessage te walk_io ln io1 io2 env c = (r, out, c')"
  shows "dp_service (tc_dispatcher c') = snd (ProcessRunningOrderInfo (te_go te) m (dp_mosID (tc_dispatcher c)) (dp_service (tc_dispatcher c)))
    \<and> tc_dedup c' = tc_dedup c"
proof -
  let ?e = "te_go te" and ?d = "tc_dispatcher c"
  obtain walked d1 where walk: "advanceWalk ?e walk_io ln ?d = (walked, d1)" by fastforce
  have d1: "dp_service d1 = dp_service ?d" "dp_mosID d1 = dp_mosID ?d"
    using walk by (auto simp: advanceWalk_def Let_def split: prod.splits)
  have "dispatchRunningOrder ?e walk_io ln (InCreate m) ?d =
      (True, ln_responds ln, walked @ [Respond (ROAckMsg (roi_ID m) (case fst (ProcessRunningOrderInfo ?e m (dp_mosID ?d) (dp_service ?d)) of
         Inl er \<Rightarrow> ''NACK: '' @ firstLine ?e er | Inr _ \<Rightarrow> ''OK''))],
       snd (svc_call (ProcessRunningOrderInfo ?e m (dp_mosID ?d)) d1))"
    by (simp add: dispatchRunningOrder_def walk handle_inbound_def handleCreate_def answer_result_eq respond_def d1)
  then show ?thesis
    using assms by (auto simp: handleMessage_def handlePayload_def inbound_of_def d1)
qed

text \<open>The key under which a delivery is deduplicated, when it is a message.\<close>

type_synonym ws_delivery = "io_outcome \<times> io_outcome \<times> WSSession \<times> rawMosEnvelope result"

definition delivery_key :: "transport_env \<Rightarrow> ws_delivery \<Rightarrow> string option" where
  "delivery_key te dl = (case dl of (io1, io2, sess, data) \<Rightarrow>
     (case ParseEnvelope (te_parse te) data of
        (Some env, Inr (Some _, _)) \<Rightarrow> Some (dedupKey (ws_scope sess) (mev_NcsID env) (mev_MessageID env))
      | _ \<Rightarrow> None))"

definition ws_deliver :: "transport_env \<Rightarrow> bool \<Rightarrow> lane \<Rightarrow> ws_delivery \<Rightarrow> WSServer \<Rightarrow> WSServer" where
  "ws_deliver te walk_io ln dl s = (case dl of (io1, io2, sess, data) \<Rightarrow> snd (processMessage te walk_io ln io1 io2 sess data s))"

type_synonym dedup_ops = "(io_outcome \<times> dedup_op) list"

definition ops_for :: "string option \<Rightarrow> dedup_ops \<Rightarrow> bool" where
  "ops_for k ops \<longleftrightarrow> length ops \<le> 2 \<and> (\<forall>op\<in>set ops. Some (op_key (snd op)) = k)"

abbreviation dedup_fold :: "transport_env \<Rightarrow> dedup_ops \<Rightarrow> FileDedupStore \<Rightarrow> FileDedupStore" where
  "dedup_fold te ops \<equiv> fold (store_exec (fd_Check (te_hash te)) fd_Remember) ops"

lemma persist_create_dedup:
  "\<exists>ops. length ops \<le> Suc 0 \<and> (\<forall>op\<in>set ops. op_key (snd op) = dedupKey (ws_scope sess) (mev_NcsID env) (mev_MessageID env))
     \<and> ws_dedup (snd (persist_create te io sess env m s)) = dedup_fold te ops (ws_dedup s)"
proof (cases "svc_call (ProcessRunningOrderInfo (te_go te) m (mev_MosID env)) (ws_dispatcher s)")
  case (Pair r d)
  have none: "\<exists>ops. length ops \<le> Suc 0 \<and> (\<forall>op\<in>set ops. op_key (snd op) = k) \<and> dd = dedup_fold te ops dd" for k dd
    by (intro exI [of _ "[]"]) simp
  have one: "\<exists>ops. length ops \<le> Suc 0 \<and> (\<forall>op\<in>set ops. op_key (snd op) = dedupKey a b c) \<and> fd_Remember io a b c x dd = dedup_fold te ops dd"
    for a b c x dd
    by (intro exI [of _ "[(io, RememberOp a b c x)]"]) simp
  show ?thesis
    by (cases r) (simp_all add: persist_create_def Pair Let_def none one split: option.split)
qed

lemma handleRoCreate_dedup:
  "\<exists>ops. ops_for (Some (dedupKey (ws_scope sess) (mev_NcsID env) (mev_MessageID env))) ops
     \<and> ws_dedup (snd (handleRoCreate te io1 io2 sess env m inner s)) = dedup_fold te ops (ws_dedup s)"
proof (cases "fd_Check (te_hash te) io1 (ws_scope sess) (mev_NcsID env) (mev_MessageID env) inner (ws_dedup s)")
  case (Pair v dd)
  let ?op = "(io1, CheckOp (ws_scope sess) (mev_NcsID env) (mev_MessageID env) inner)"
  obtain ops where ops: "length ops \<le> Suc 0" "\<forall>op\<in>set ops. op_key (snd op) = dedupKey (ws_scope sess) (mev_NcsID env) (mev_MessageID env)"
      "ws_dedup (snd (persist_create te io2 sess env m (s\<lparr>ws_dedup := dd\<rparr>))) = dedup_fold te ops dd"
    using persist_create_dedup [of sess env te io2 m "s\<lparr>ws_dedup := dd\<rparr>"] by auto
  have step: "store_exec (fd_Check (te_hash te)) fd_Remember ?op (ws_dedup s) = dd" using Pair by simp
  have "ws_dedup (snd (handleRoCreate te io1 io2 sess env m inner s)) \<in> {dedup_fold te [?op] (ws_dedup s), dedup_fold te (?op # ops) (ws_dedup s)}"
    using ops(3) step by (cases v) (simp_all add: handleRoCreate_def Pair Let_def split: option.split)
  moreover have "ops_for (Some (dedupKey (ws_scope sess) (mev_NcsID env) (mev_MessageID env))) [?op]"
    "ops_for (Some (dedupKey (ws_scope sess) (mev_NcsID env) (mev_MessageID env))) (?op # ops)"
    using ops(1,2) by (auto simp: ops_for_def)
  ultimately show ?thesis by blast
qed

lemma process_parsed_dedup:
  "\<exists>ops. ops_for (Some (dedupKey (ws_scope sess) (mev_NcsID env) (mev_MessageID env))) ops
     \<and> ws_dedup (snd (process_parsed te walk_io ln io1 io2 sess env msg inner s)) = dedup_fold te ops (ws_dedup s)"
proof -
  have none: "\<exists>ops. ops_for k ops \<and> dd = dedup_fold te ops dd" for k dd
    by (intro exI [of _ "[]"]) (simp add: ops_for_def)
  have "ws_dedup (snd (ws_dispatch te walk_io ln sess env m s)) = ws_dedup s" for m
    by (simp add: ws_dispatch_def split: prod.split)
  then show ?thesis
    using handleRoCreate_dedup [of sess env te io1 io2 _ inner s] none
    by (auto simp: process_parsed_def Let_def case_prod_beta split: mos_message.splits inbound.splits)
qed

lemma ws_deliver_dedup:
  "\<exists>ops. ops_for (delivery_key te dl) ops \<and> ws_dedup (ws_deliver te walk_io ln dl s) = dedup_fold te ops (ws_dedup s)"
proof -
  obtain io1 io2 sess data where dl: "dl = (io1, io2, sess, data)" by (cases dl)
  obtain env r where parsed: "ParseEnvelope (te_parse te) data = (env, r)" by fastforce
  have none: "\<exists>ops. ops_for k ops \<and> dd = dedup_fold te ops dd" for k dd
    by (intro exI [of _ "[]"]) (simp add: ops_for_def)
  show ?thesis
  proof (cases "env = None \<or> isl r \<or> fst (projr r) = None")
    case True
    then show ?thesis using none
      by (auto simp: dl ws_deliver_def delivery_key_def processMessage_def parsed split: option.splits sum.splits prod.splits)
  next
    case False
    then obtain v msg inner where "env = Some v" "r = Inr (Some msg, inner)" by (cases r) auto
    then show ?thesis using process_parsed_dedup [of sess v te walk_io ln io1 io2 msg inner s]
      by (simp add: dl ws_deliver_def delivery_key_def processMessage_def parsed)
  qed
qed

lemma ws_deliveries_dedup:
  "\<exists>ops. length ops \<le> 2 * length dls \<and> (\<forall>op\<in>set ops. Some (op_key (snd op)) \<in> delivery_key te ` set dls)
     \<and> ws_dedup (fold (ws_deliver te walk_io ln) dls s) = dedup_fold te ops (ws_dedup s)"
proof (induction dls arbitrary: s)
  case Nil
  show ?case by (intro exI [of _ "[]"]) simp
next
  case (Cons dl dls)
  obtain ops where ops: "ops_for (delivery_key te dl) ops" "ws_dedup (ws_deliver te walk_io ln dl s) = dedup_fold te ops (ws_dedup s)"
    using ws_deliver_dedup by blast
  obtain ops' where "length ops' \<le> 2 * length dls" "\<forall>op\<in>set ops'. Some (op_key (snd op)) \<in> delivery_key te ` set dls"
      "ws_dedup (fold (ws_deliver te walk_io ln) dls (ws_deliver te walk_io ln dl s)) = dedup_fold te ops' (ws_dedup (ws_deliver te walk_io ln dl s))"
    using Cons.IH by blast
  then show ?case using ops by (intro exI [of _ "ops @ ops'"]) (auto simp: ops_for_def)
qed

text \<open>
  C14. The WebSocket server applies a retried \<open>roCreate\<close> once. When a \<open>roCreate\<close> was new, was applied and its answer
  went out, then after any other deliveries, on any sessions and with any failures of the disk, as long as they are
  fewer than half the capacity of the store, delivering it again on a session of the channel gives the same
  answer byte for byte and does not touch the running orders; the same identifier with other content is refused,
  also without touching them.
\<close>

theorem ws_retry_applied_once:
  assumes ok: "dedup_ok (fd_mem (ws_dedup s))" and ro: "wss_channel sess = ''ro''" "wss_channel sess' = ''ro''"
    and first: "ParseEnvelope (te_parse te) data = (Some env, Inr (Some (RunningOrderMsg (InCreate m)), inner))"
    and new: "fst (fd_Check (te_hash te) io1 ''ws:ro'' (mev_NcsID env) (mev_MessageID env) inner (ws_dedup s)) = DedupNew"
    and applied: "fst (ProcessRunningOrderInfo (te_go te) m (mev_MosID env) (service_of s)) = Inr ()"
    and answered: "processMessage te walk_io ln io1 io2 sess data s = ([WSFrame response], s1)"
    and between: "2 * length dls + 1 < ds_capacity (fd_mem (ws_dedup s))"
      "\<forall>dl\<in>set dls. delivery_key te dl \<noteq> Some (dedupKey ''ws:ro'' (mev_NcsID env) (mev_MessageID env))"
    and s2: "s2 = fold (ws_deliver te walk_io ln) dls s1"
    and retry: "ParseEnvelope (te_parse te) data' = (Some env', Inr (Some (RunningOrderMsg (InCreate m')), inner'))"
      "mev_NcsID env' = mev_NcsID env" "mev_MessageID env' = mev_MessageID env"
  shows "case processMessage te walk_io ln io3 io4 sess' data' s2 of (out, s3) \<Rightarrow>
    ws_dispatcher s3 = ws_dispatcher s2 \<and>
    out = (if te_hash te inner' = te_hash te inner then [WSFrame response]
           else sendNack te sess' (mev_MessageID env) ''NACK'' ''messageID conflict: same ID with different content'')"
proof -
  let ?n = "mev_NcsID env" and ?i = "mev_MessageID env"
  have accepts: "channelAccepts ''ro'' (classifyMessage (RunningOrderMsg (InCreate x))) = (True, [])" for x
    by (simp add: classifyMessage_def channelAccepts_def ChannelRO_def)
  have scope: "ws_scope sess = ''ws:ro''" "ws_scope sess' = ''ws:ro''" using ro by (simp_all add: ws_scope_def)
  obtain dd where dd: "fd_Check (te_hash te) io1 ''ws:ro'' ?n ?i inner (ws_dedup s) = (DedupNew, dd)"
    using new by (metis prod.collapse)
  have "persist_create te io2 sess env m (s\<lparr>ws_dedup := dd\<rparr>) = ([WSFrame response], s1)"
    using answered by (simp add: processMessage_def first process_parsed_def ro accepts handleRoCreate_def scope dd)
  then have s1: "ws_dedup s1 = fd_Remember io2 ''ws:ro'' ?n ?i response dd"
    using applied by (auto simp: persist_create_def service_of_def scope Let_def svc_call_def split: prod.splits option.splits)
  obtain ops where ops: "length ops \<le> 2 * length dls" "\<forall>op\<in>set ops. Some (op_key (snd op)) \<in> delivery_key te ` set dls"
      "ws_dedup s2 = dedup_fold te ops (ws_dedup s1)"
    using ws_deliveries_dedup [of dls te walk_io ln s1] s2 by auto
  have "\<forall>op\<in>set ops. is_remember (snd op) \<longrightarrow> op_key (snd op) \<noteq> dedupKey ''ws:ro'' ?n ?i"
    using ops(2) between(2) by (metis imageE)
  moreover have "ws_dedup s2 = dedup_fold te ([] @ (io2, RememberOp ''ws:ro'' ?n ?i response) # ops) dd"
    using ops(3) s1 by simp
  ultimately have again: "fd_Response ''ws:ro'' ?n ?i (ws_dedup s2) = Some response"
      "fst (fd_Check (te_hash te) io3 ''ws:ro'' ?n ?i inner' (ws_dedup s2)) =
        (if te_hash te inner' = te_hash te inner then DedupDuplicate else DedupConflict)"
    using file_store.retry_answered [OF ok dd, of "[]" ops "ws_dedup s2" io2 response io3 inner'] ops(1) between(1) by auto
  obtain v dd2 where check: "fd_Check (te_hash te) io3 ''ws:ro'' ?n ?i inner' (ws_dedup s2) = (v, dd2)" by fastforce
  have "v \<noteq> DedupNew" using again(2) check by (auto split: if_splits)
  then have "fd_Response ''ws:ro'' ?n ?i dd2 = Some response"
    using again(1) check by (auto simp: fd_Check_def fd_Response_def Let_def dedup_Check_def split: prod.splits option.splits if_splits)
  then show ?thesis
    using again(2) check
    by (auto simp: processMessage_def retry process_parsed_def ro accepts handleRoCreate_def scope split: if_splits)
qed

section \<open>Examples\<close>

definition example_create :: RunningOrderInfo where
  "example_create = \<lparr>roi_RequestID = [], roi_Timestamp = [], roi_Source = [], roi_ID = ''R'', roi_Slug = ''Six'', roi_Channel = [],
     roi_EditTime = [], roi_StartTime = [], roi_Duration = [], roi_MosExternalMetadata = [], roi_Stories = []\<rparr>"

definition example_te :: transport_env where
  "example_te = \<lparr>te_go = example_env, te_mosID = ''M'', te_ncsID = [], te_parse = (\<lambda>_. Inr (RunningOrderMsg (InCreate example_create))),
     te_hash = (\<lambda>c. c), te_marshal_mosAck = (\<lambda>status d. Some (status @ '': '' @ d)), te_marshal_roAck = (\<lambda>r status. Some (r @ status)),
     te_marshal_machInfo = None, te_marshal_create = (\<lambda>_. Inr ''c''), te_generate = (\<lambda>_ _ _ roID status. Inr (roID @ status))\<rparr>"

definition example_server :: WSServer where
  "example_server = \<lparr>ws_dispatcher = new_dispatcher None ''M'' ''d'' ''p'',
     ws_dedup = OpenFileDedupStore (\<lambda>_. False) io_ok ''state'' 8 None\<rparr>"

definition example_session :: WSSession where
  "example_session = \<lparr>wss_mosID = ''M'', wss_ncsID = ''N'', wss_channel = ''ro''\<rparr>"

definition example_data :: "rawMosEnvelope result" where
  "example_data = Inr \<lparr>raw_MosID = ''M'', raw_NcsID = ''N'', raw_MessageID = ''7'',
     raw_Inner = [\<lparr>ie_name = ''roCreate'', ie_attrs = [], ie_raw = ''x''\<rparr>]\<rparr>"

definition example_frame :: string where
  "example_frame = WrapEnvelope ''M'' ''N'' ''7'' ''ROK''"

definition after_first :: WSServer where
  "after_first = snd (processMessage example_te True example_lane io_ok io_ok example_session example_data example_server)"

theorem ws_retry_applied_once_witness:
  "fst (processMessage example_te True example_lane io_ok io_ok example_session example_data after_first) = [WSFrame example_frame]
   \<and> ws_dispatcher (snd (processMessage example_te True example_lane io_ok io_ok example_session example_data after_first)) = ws_dispatcher after_first"
proof -
  let ?env = "\<lparr>mev_MosID = ''M'', mev_NcsID = ''N'', mev_MessageID = ''7''\<rparr>"
  have parsed: "ParseEnvelope (te_parse example_te) example_data = (Some ?env, Inr (Some (RunningOrderMsg (InCreate example_create)), ''<roCreate>x</roCreate>''))"
    by code_simp
  have ok: "dedup_ok (fd_mem (ws_dedup example_server))"
    by (simp add: example_server_def OpenFileDedupStore_def Let_def dedup_ok_new replay_ok [OF dedup_ok_new])
  have new: "fst (fd_Check (te_hash example_te) io_ok ''ws:ro'' ''N'' ''7'' ''<roCreate>x</roCreate>'' (ws_dedup example_server)) = DedupNew"
    by code_simp
  have "\<not> isl (fst (ProcessRunningOrderInfo (te_go example_te) example_create ''M'' (service_of example_server)))" by code_simp
  then have applied: "fst (ProcessRunningOrderInfo (te_go example_te) example_create ''M'' (service_of example_server)) = Inr ()"
    by (cases "fst (ProcessRunningOrderInfo (te_go example_te) example_create ''M'' (service_of example_server))") auto
  have "fst (processMessage example_te True example_lane io_ok io_ok example_session example_data example_server) = [WSFrame example_frame]"
    by code_simp
  then have answered: "processMessage example_te True example_lane io_ok io_ok example_session example_data example_server = ([WSFrame example_frame], after_first)"
    by (metis after_first_def prod.collapse)
  have ro: "wss_channel example_session = ''ro''" by (simp add: example_session_def)
  have cap: "2 * length ([] :: ws_delivery list) + 1 < ds_capacity (fd_mem (ws_dedup example_server))" by code_simp
  from ws_retry_applied_once [OF ok ro ro parsed _ _ answered cap _ _ parsed refl refl, of after_first io_ok io_ok] new applied
  show ?thesis by (simp add: case_prod_beta)
qed

theorem store_changes_on_ro_channel_witness:
  "wss_channel example_session = ''ro'' \<or> unclassified_change (RunningOrderMsg (InCreate example_create))"
proof (rule store_changes_on_ro_channel)
  let ?env = "\<lparr>mev_MosID = ''M'', mev_NcsID = ''N'', mev_MessageID = ''7''\<rparr>"
  let ?s = "snd (process_parsed example_te True example_lane io_ok io_ok example_session ?env (RunningOrderMsg (InCreate example_create)) ''x'' example_server)"
  have "runningOrderRepo (service_of example_server) = []" "runningOrderRepo (service_of ?s) \<noteq> []" by code_simp+
  then show "service_of ?s \<noteq> service_of example_server" by metis
qed

definition example_connection :: tcp_connection where
  "example_connection = \<lparr>tc_dispatcher = new_dispatcher None ''M'' ''d'' ''p'', tc_dedup = OpenFileDedupStore (\<lambda>_. False) io_ok ''state'' 8 None,
     tc_lastReply = None, tc_monitor = \<lparr>hm_lastSeen = 0, hm_timeout = 30, hm_queued = 0, hm_timedOut = False\<rparr>\<rparr>"

definition example_envelope :: Envelope where
  "example_envelope = \<lparr>en_MosID = ''M'', en_NcsID = ''N'', en_MessageID = ''7'', en_typed = [RunningOrderMsg (InCreate example_create)],
     en_Body = \<lparr>ie_name = [], ie_attrs = [], ie_raw = []\<rparr>\<rparr>"

theorem socket_create_always_applied_witness:
  "tc_dedup (snd (snd (handleMessage example_te True example_lane io_ok io_ok example_envelope example_connection))) = tc_dedup example_connection"
proof -
  have "ValidateEnvelope (te_parse example_te) (quote (te_go example_te)) example_envelope Gen2x (te_mosID example_te) (te_ncsID example_te) =
      Inr (RunningOrderMsg (InCreate example_create))"
    by (simp add: example_te_def example_envelope_def ValidateEnvelope_def Envelope_Message_def AcceptInboundMessageID_def
        RequiresMessageID_def)
  from socket_create_always_applied [OF this, of True example_lane io_ok io_ok example_connection] show ?thesis
    by (metis prod.collapse)
qed

end
