(* ===== verification/Content.thy ===== *)
theory Content
  imports Checkpoint
begin

text \<open>
  The content store of version 2 checkpoints (\<open>src/internal/repository/checkpoint_content.go\<close>): a checkpoint
  is cut into immutable objects that are named by their digest and written before the root file, which then is
  one reference. Objects no root needs are removed after the root has moved.

  Encoded JSON is its value. An object is the list of its members in the order of the text; its keys are
  distinct, and \<open>json.Marshal\<close> of a map sorts them. The digest of an encoded value and its length are fields of
  \<open>content_env\<close>. The order in which \<open>save\<close> visits the members is that of the list, so a fact about every list
  holds for every order Go may choose. How each file operation ends is the argument \<open>content_io\<close>.
\<close>

section \<open>JSON values\<close>

datatype json =
    JNull
  | JBool bool
  | JNum string
  | JStr string
  | JArr "json list"
  | JObj "(string \<times> json) list"

definition members_size :: "(string \<times> json) list \<Rightarrow> nat" where
  "members_size ms = size_list (\<lambda>m. Suc (size (snd m))) ms"

lemma members_size_simps [simp]:
  "members_size [] = 0" "members_size ((k, v) # ms) = Suc (Suc (size v + members_size ms))"
  by (simp_all add: members_size_def)

lemma members_size_less [simp]: "members_size ms < Suc (size_list (size_prod (\<lambda>x. 0) size) ms)"
  by (induction ms) (auto simp: members_size_def)

definition sort_members :: "(string \<times> json) list \<Rightarrow> (string \<times> json) list" where
  "sort_members ms = sort_key fst ms"

section \<open>Types\<close>

record content_env =
  ce_digest :: "json \<Rightarrow> string"
  ce_length :: "json \<Rightarrow> nat"

record content_io =
  ci_mkdir :: bool
  ci_readable :: "string \<Rightarrow> bool"
  ci_write :: "string \<Rightarrow> save_outcome"
  ci_sync :: bool
  ci_root :: save_outcome
  ci_remove :: "string \<Rightarrow> bool"

text \<open>The directory's files, and the identifiers known to be stored.\<close>

record checkpointContent =
  cc_objects :: "json gomap"
  cc_known :: "string list"

definition newCheckpointContent :: "json gomap \<Rightarrow> checkpointContent" where
  "newCheckpointContent objects = \<lparr>cc_objects = objects, cc_known = []\<rparr>"

definition reference :: "string \<Rightarrow> bool \<Rightarrow> json" where
  "reference cid opaque = JObj ((''$content'', JStr cid) # (if opaque then [(''raw'', JBool True)] else []))"

definition reserved :: "(string \<times> json) list \<Rightarrow> bool" where
  "reserved ms \<longleftrightarrow> gm_get ms ''$content'' \<noteq> None"

definition row_key :: "string \<Rightarrow> bool" where
  "row_key k \<longleftrightarrow> k \<in> {''stories'', ''items'', ''runningOrders'', ''receipts''}"

section \<open>Saving\<close>

text \<open>The state of one \<open>save\<close>: the store and the identifiers used so far.\<close>

type_synonym 'a content_op = "(checkpointContent \<times> string list, 'a) op"

definition stored :: "string \<Rightarrow> checkpointContent \<Rightarrow> checkpointContent" where
  "stored cid c = c\<lparr>cc_known := cid # cc_known c\<rparr>"

definition put_object :: "string \<Rightarrow> json \<Rightarrow> checkpointContent \<Rightarrow> checkpointContent" where
  "put_object cid body c = c\<lparr>cc_objects := gm_set cid body (cc_objects c)\<rparr>"

definition store :: "content_env \<Rightarrow> content_io \<Rightarrow> json \<Rightarrow> bool \<Rightarrow> json content_op" where
  "store ce io body opaque cu =
     (let (c, used) = cu; cid = ce_digest ce body; used = cid # used in
      if cid \<in> set (cc_known c) then (Inr (reference cid opaque), (c, used))
      else if \<not> ci_readable io cid then (Inl (Errorf ''read content''), (c, used))
      else case gm_get (cc_objects c) cid of
        Some existing \<Rightarrow>
          if existing \<noteq> body then (Inl (Errorf ''source content integrity mismatch''), (c, used))
          else (Inr (reference cid opaque), (stored cid c, used))
      | None \<Rightarrow>
          (case ci_write io cid of
             Saved \<Rightarrow> (Inr (reference cid opaque), (stored cid (put_object cid body c), used))
           | NotReplaced \<Rightarrow> (Inl (Errorf ''write content''), (c, used))
           | ReplacedUnsynced \<Rightarrow> (Inl (Errorf ''sync content''), (put_object cid body c, used))))"

fun pack_rows :: "content_env \<Rightarrow> content_io \<Rightarrow> json list \<Rightarrow> json list content_op" where
  "pack_rows ce io [] = op_return []"
| "pack_rows ce io (row # rows) =
     op_bind (store ce io row True) (\<lambda>x. op_bind (pack_rows ce io rows) (\<lambda>xs. op_return (x # xs)))"

definition pack_row_value :: "content_env \<Rightarrow> content_io \<Rightarrow> json \<Rightarrow> json content_op" where
  "pack_row_value ce io v = (case v of
      JNull \<Rightarrow> op_return JNull
    | JArr rows \<Rightarrow> op_bind (pack_rows ce io rows) (\<lambda>rows. op_return (JArr rows))
    | _ \<Rightarrow> op_fail (Errorf ''decode rows''))"

definition keep :: "content_env \<Rightarrow> content_io \<Rightarrow> json \<Rightarrow> json content_op" where
  "keep ce io body = (if ce_length ce body > 4096 then store ce io body False else op_return body)"

function (sequential) pack :: "content_env \<Rightarrow> content_io \<Rightarrow> json \<Rightarrow> json content_op"
  and pack_members :: "content_env \<Rightarrow> content_io \<Rightarrow> (string \<times> json) list \<Rightarrow> (string \<times> json) list content_op" where
  "pack ce io (JObj ms) =
     (if reserved ms then store ce io (JObj ms) True
      else op_bind (pack_members ce io ms) (\<lambda>ms. keep ce io (JObj (sort_members ms))))"
| "pack ce io v = keep ce io v"
| "pack_members ce io [] = op_return []"
| "pack_members ce io ((k, v) # ms) =
     op_bind (if row_key k then pack_row_value ce io v else pack ce io v) (\<lambda>v.
     op_bind (pack_members ce io ms) (\<lambda>ms. op_return ((k, v) # ms)))"
  by pat_completeness auto
termination
  by (relation "measure (case_sum (\<lambda>(ce, io, v). size v) (\<lambda>(ce, io, ms). members_size ms))")
    (simp_all)

definition collect :: "content_io \<Rightarrow> string list \<Rightarrow> checkpointContent \<Rightarrow> checkpointContent" where
  "collect io used c =
     (let gone = filter (\<lambda>cid. cid \<notin> set used \<and> ci_remove io cid) (cc_known c) in
      \<lparr>cc_objects = filter (\<lambda>(cid, _). cid \<notin> set gone) (cc_objects c),
       cc_known = filter (\<lambda>cid. cid \<notin> set gone) (cc_known c)\<rparr>)"

definition save ::
    "content_env \<Rightarrow> content_io \<Rightarrow> json \<Rightarrow> checkpointContent \<times> json disk \<Rightarrow> unit result \<times> checkpointContent \<times> json disk" where
  "save ce io raw cr =
     (let (c, root) = cr in
      if \<not> ci_mkdir io then (Inl (Errorf ''create content directory''), c, root)
      else case op_bind (pack ce io raw) (\<lambda>packed. store ce io packed False) (c, []) of
        (Inl e, (c, _)) \<Rightarrow> (Inl e, c, root)
      | (Inr packed, (c, used)) \<Rightarrow>
          if \<not> ci_sync io then (Inl (Errorf ''sync content directory''), c, root)
          else (case ci_root io of
             NotReplaced \<Rightarrow> (Inl (Errorf ''replace checkpoint''), c, root)
           | ReplacedUnsynced \<Rightarrow> (Inl (Errorf ''sync checkpoint directory''), c, Holds packed)
           | Saved \<Rightarrow> (Inr (), collect io used c, Holds packed)))"

section \<open>Reading\<close>

definition content_id :: "string \<Rightarrow> bool" where
  "content_id cid \<longleftrightarrow> length cid = 64 \<and> list_all (\<lambda>c. c \<in> set ''0123456789abcdef'') cid"

definition opaque_ref :: "(string \<times> json) list \<Rightarrow> bool" where
  "opaque_ref ms \<longleftrightarrow> gm_get ms ''raw'' = Some (JBool True)"

definition is_ref :: "(string \<times> json) list \<Rightarrow> bool" where
  "is_ref ms \<longleftrightarrow> reserved ms \<and> (length ms = 1 \<or> length ms = 2 \<and> opaque_ref ms)"

definition ref_id :: "(string \<times> json) list \<Rightarrow> string option" where
  "ref_id ms = (case gm_get ms ''$content'' of
      Some (JStr cid) \<Rightarrow> if content_id cid then Some cid else None
    | _ \<Rightarrow> None)"

definition left_files :: "json gomap \<Rightarrow> string list \<Rightarrow> nat" where
  "left_files objects seen = card (fst ` set objects - set seen)"

lemma left_files_less:
  assumes "gm_get objects cid = Some raw" "cid \<notin> set seen"
  shows "left_files objects (cid # seen) < left_files objects seen"
proof -
  have "cid \<in> fst ` set objects - set seen" using assms by (force dest: map_of_SomeD)
  then have "fst ` set objects - set (cid # seen) \<subset> fst ` set objects - set seen" by auto
  then show ?thesis unfolding left_files_def by (intro psubset_card_mono) simp_all
qed

text \<open>
  The state is the set \<open>known\<close>. \<open>seen\<close> holds the references that are being followed; the code deletes a
  reference from it when its object has been read.
\<close>

function (sequential) unpack :: "content_env \<Rightarrow> (string \<Rightarrow> bool) \<Rightarrow> json gomap \<Rightarrow> string list \<Rightarrow> json \<Rightarrow> (string list, json) op"
  and unpack_members :: "content_env \<Rightarrow> (string \<Rightarrow> bool) \<Rightarrow> json gomap \<Rightarrow> string list \<Rightarrow> (string \<times> json) list \<Rightarrow>
        (string list, (string \<times> json) list) op"
  and unpack_rows :: "content_env \<Rightarrow> (string \<Rightarrow> bool) \<Rightarrow> json gomap \<Rightarrow> string list \<Rightarrow> json list \<Rightarrow> (string list, json list) op" where
  "unpack ce readable objects seen (JObj ms) =
     (if is_ref ms then
        (case ref_id ms of
           None \<Rightarrow> op_fail (Errorf ''invalid source content reference'')
         | Some cid \<Rightarrow>
             if cid \<in> set seen then op_fail (Errorf ''cyclic source content reference'')
             else if \<not> readable cid then op_fail (Errorf ''read content'')
             else (case gm_get objects cid of
                None \<Rightarrow> op_fail (Errorf ''content not found'')
              | Some raw \<Rightarrow>
                  if ce_digest ce raw \<noteq> cid then op_fail (Errorf ''source content integrity mismatch'')
                  else if opaque_ref ms then (\<lambda>known. (Inr raw, cid # known))
                  else (\<lambda>known. unpack ce readable objects (cid # seen) raw (cid # known))))
      else op_bind (unpack_members ce readable objects seen ms) (\<lambda>ms. op_return (JObj (sort_members ms))))"
| "unpack ce readable objects seen (JArr rows) =
     op_bind (unpack_rows ce readable objects seen rows) (\<lambda>rows. op_return (JArr rows))"
| "unpack ce readable objects seen v = op_return v"
| "unpack_members ce readable objects seen [] = op_return []"
| "unpack_members ce readable objects seen ((k, v) # ms) =
     op_bind (unpack ce readable objects seen v) (\<lambda>v.
     op_bind (unpack_members ce readable objects seen ms) (\<lambda>ms. op_return ((k, v) # ms)))"
| "unpack_rows ce readable objects seen [] = op_return []"
| "unpack_rows ce readable objects seen (v # vs) =
     op_bind (unpack ce readable objects seen v) (\<lambda>v.
     op_bind (unpack_rows ce readable objects seen vs) (\<lambda>vs. op_return (v # vs)))"
  by pat_completeness auto
termination
  by (relation "inv_image (less_than <*lex*> less_than)
      (case_sum (\<lambda>(ce, rd, objects, seen, v). (left_files objects seen, size v))
        (case_sum (\<lambda>(ce, rd, objects, seen, ms). (left_files objects seen, members_size ms))
           (\<lambda>(ce, rd, objects, seen, vs). (left_files objects seen, size_list size vs))))")
    (auto intro: left_files_less)

definition read_content :: "content_env \<Rightarrow> (string \<Rightarrow> bool) \<Rightarrow> json \<Rightarrow> checkpointContent \<Rightarrow> json result \<times> checkpointContent" where
  "read_content ce readable raw c =
     (case unpack ce readable (cc_objects c) [] raw (cc_known c) of (r, known) \<Rightarrow> (r, c\<lparr>cc_known := known\<rparr>))"

text \<open>\<open>CanonicalSourceJSON\<close>: decoding into \<open>any\<close> and encoding again sorts the keys of every object.\<close>

function (sequential) CanonicalSourceJSON :: "json \<Rightarrow> json"
  and canonical_members :: "(string \<times> json) list \<Rightarrow> (string \<times> json) list"
  and canonical_rows :: "json list \<Rightarrow> json list" where
  "CanonicalSourceJSON (JObj ms) = JObj (sort_members (canonical_members ms))"
| "CanonicalSourceJSON (JArr vs) = JArr (canonical_rows vs)"
| "CanonicalSourceJSON v = v"
| "canonical_members [] = []"
| "canonical_members ((k, v) # ms) = (k, CanonicalSourceJSON v) # canonical_members ms"
| "canonical_rows [] = []"
| "canonical_rows (v # vs) = CanonicalSourceJSON v # canonical_rows vs"
  by pat_completeness auto
termination
  by (relation "measure (case_sum size (case_sum members_size (size_list size)))") auto

section \<open>What a document becomes\<close>

text \<open>The packed form of a document and the objects it is cut into, without files and errors.\<close>

definition kept :: "content_env \<Rightarrow> json \<Rightarrow> json" where
  "kept ce b = (if ce_length ce b > 4096 then reference (ce_digest ce b) False else b)"

definition kept_bodies :: "content_env \<Rightarrow> json \<Rightarrow> json list" where
  "kept_bodies ce b = (if ce_length ce b > 4096 then [b] else [])"

definition row_refs :: "content_env \<Rightarrow> json \<Rightarrow> json" where
  "row_refs ce v = (case v of JArr rows \<Rightarrow> JArr (map (\<lambda>r. reference (ce_digest ce r) True) rows) | _ \<Rightarrow> v)"

definition row_bodies :: "json \<Rightarrow> json list" where
  "row_bodies v = (case v of JArr rows \<Rightarrow> rows | _ \<Rightarrow> [])"

function (sequential) packed :: "content_env \<Rightarrow> json \<Rightarrow> json"
  and packed_members :: "content_env \<Rightarrow> (string \<times> json) list \<Rightarrow> (string \<times> json) list" where
  "packed ce (JObj ms) =
     (if reserved ms then reference (ce_digest ce (JObj ms)) True
      else kept ce (JObj (sort_members (packed_members ce ms))))"
| "packed ce v = kept ce v"
| "packed_members ce [] = []"
| "packed_members ce ((k, v) # ms) = (k, if row_key k then row_refs ce v else packed ce v) # packed_members ce ms"
  by pat_completeness auto
termination
  by (relation "measure (case_sum (\<lambda>(ce, v). size v) (\<lambda>(ce, ms). members_size ms))") simp_all

function (sequential) bodies :: "content_env \<Rightarrow> json \<Rightarrow> json list"
  and bodies_members :: "content_env \<Rightarrow> (string \<times> json) list \<Rightarrow> json list" where
  "bodies ce (JObj ms) =
     (if reserved ms then [JObj ms]
      else bodies_members ce ms @ kept_bodies ce (JObj (sort_members (packed_members ce ms))))"
| "bodies ce v = kept_bodies ce v"
| "bodies_members ce [] = []"
| "bodies_members ce ((k, v) # ms) = (if row_key k then row_bodies v else bodies ce v) @ bodies_members ce ms"
  by pat_completeness auto
termination
  by (relation "measure (case_sum (\<lambda>(ce, v). size v) (\<lambda>(ce, ms). members_size ms))") simp_all

section \<open>Saving stores the objects\<close>

text \<open>Every identifier held as known names an object of the directory; \<open>U\<close> bounds the contents of the directory.\<close>

definition content_ok :: "content_env \<Rightarrow> json set \<Rightarrow> checkpointContent \<Rightarrow> bool" where
  "content_ok ce U c \<longleftrightarrow> (\<forall>i\<in>set (cc_known c). \<exists>b. gm_get (cc_objects c) i = Some b \<and> ce_digest ce b = i)
     \<and> (\<forall>i b. gm_get (cc_objects c) i = Some b \<longrightarrow> b \<in> U)"

definition extends :: "checkpointContent \<Rightarrow> checkpointContent \<Rightarrow> bool" where
  "extends c c' \<longleftrightarrow> (\<forall>i b. gm_get (cc_objects c) i = Some b \<longrightarrow> gm_get (cc_objects c') i = Some b)"

definition holds_all :: "content_env \<Rightarrow> json list \<Rightarrow> json gomap \<Rightarrow> bool" where
  "holds_all ce B objects \<longleftrightarrow> (\<forall>b\<in>set B. gm_get objects (ce_digest ce b) = Some b)"

definition stores :: "content_env \<Rightarrow> json set \<Rightarrow> 'a content_op \<Rightarrow> 'a \<Rightarrow> json list \<Rightarrow> bool" where
  "stores ce U f x B \<longleftrightarrow> (set B \<subseteq> U \<longrightarrow> (\<forall>c used r c' used'. content_ok ce U c \<longrightarrow> f (c, used) = (r, (c', used')) \<longrightarrow>
     content_ok ce U c' \<and> extends c c' \<and> (\<forall>y. r = Inr y \<longrightarrow> y = x \<and> holds_all ce B (cc_objects c')
       \<and> set used' = set used \<union> ce_digest ce ` set B)))"

lemma extends_trans: "extends a b \<Longrightarrow> extends b c \<Longrightarrow> extends a c"
  by (simp add: extends_def)

lemma holds_all_extends: "holds_all ce B (cc_objects c) \<Longrightarrow> extends c c' \<Longrightarrow> holds_all ce B (cc_objects c')"
  by (simp add: holds_all_def extends_def)

lemma holds_all_append [simp]: "holds_all ce (A @ B) objects \<longleftrightarrow> holds_all ce A objects \<and> holds_all ce B objects"
  by (auto simp: holds_all_def)

lemma stores_return: "stores ce U (op_return x) x []"
  by (simp add: stores_def extends_def holds_all_def)

lemma stores_fail: "stores ce U (op_fail e) x B"
  by (simp add: stores_def extends_def)

lemma stores_bind:
  assumes f: "stores ce U f x A" and g: "stores ce U (g x) y B"
  shows "stores ce U (op_bind f g) y (A @ B)"
  unfolding stores_def
proof (intro impI allI)
  fix c used r c' used'
  assume U: "set (A @ B) \<subseteq> U" and ok: "content_ok ce U c" and run: "op_bind f g (c, used) = (r, (c', used'))"
  obtain r1 c1 used1 where f1: "f (c, used) = (r1, (c1, used1))" by (cases "f (c, used)") auto
  note F = f [unfolded stores_def, rule_format, OF _ ok f1]
  show "content_ok ce U c' \<and> extends c c' \<and> (\<forall>z. r = Inr z \<longrightarrow> z = y \<and> holds_all ce (A @ B) (cc_objects c')
      \<and> set used' = set used \<union> ce_digest ce ` set (A @ B))"
  proof (cases r1)
    case (Inl e)
    then show ?thesis using run f1 F U by (auto simp: op_bind_def)
  next
    case (Inr z)
    have z: "z = x" using F U Inr by simp
    have "g x (c1, used1) = (r, (c', used'))" using run f1 Inr z by (simp add: op_bind_def)
    from g [unfolded stores_def, rule_format, OF _ _ this]
    show ?thesis using F U Inr by (auto intro: extends_trans holds_all_extends)
  qed
qed

lemma stores_bind_return: "stores ce U f x A \<Longrightarrow> stores ce U (op_bind f (\<lambda>x. op_return (h x))) (h x) A"
  using stores_bind [of ce U f x A "\<lambda>x. op_return (h x)" "h x" "[]"] by (simp add: stores_return)

lemma stores_store:
  assumes inj: "inj_on (ce_digest ce) U"
  shows "stores ce U (store ce io b opaque) (reference (ce_digest ce b) opaque) [b]"
  unfolding stores_def
proof (intro impI allI)
  fix c used r c' used'
  assume U: "set [b] \<subseteq> U" and ok: "content_ok ce U c" and run: "store ce io b opaque (c, used) = (r, (c', used'))"
  have known: "gm_get (cc_objects c) (ce_digest ce b) = Some b" if mem: "ce_digest ce b \<in> set (cc_known c)"
  proof -
    obtain b' where b': "gm_get (cc_objects c) (ce_digest ce b) = Some b'" "ce_digest ce b' = ce_digest ce b"
      using ok mem by (auto simp: content_ok_def)
    then have "b' \<in> U" using ok by (auto simp: content_ok_def)
    then have "b' = b" using inj b'(2) U by (auto dest: inj_onD)
    then show ?thesis using b'(1) by simp
  qed
  then show "content_ok ce U c' \<and> extends c c' \<and> (\<forall>y. r = Inr y \<longrightarrow> y = reference (ce_digest ce b) opaque
      \<and> holds_all ce [b] (cc_objects c') \<and> set used' = set used \<union> ce_digest ce ` set [b])"
    using run U ok
    by (auto simp: store_def Let_def stored_def put_object_def content_ok_def extends_def holds_all_def gm_get_set
        split: if_splits option.splits save_outcome.splits)
qed

lemma stores_rows:
  assumes inj: "inj_on (ce_digest ce) U"
  shows "stores ce U (pack_rows ce io rows) (map (\<lambda>r. reference (ce_digest ce r) True) rows) rows"
proof (induction rows)
  case (Cons r rows)
  show ?case
    using stores_bind [OF stores_store [OF inj] stores_bind_return [OF Cons], of io r True "(#)"]
    by (simp add: op_return_def)
qed (simp add: stores_return [unfolded op_return_def])

lemma stores_row_value:
  assumes inj: "inj_on (ce_digest ce) U"
  shows "stores ce U (pack_row_value ce io v) (row_refs ce v) (row_bodies v)"
  using stores_bind_return [OF stores_rows [OF inj]]
  by (cases v) (simp_all add: pack_row_value_def row_refs_def row_bodies_def stores_return stores_fail)

lemma stores_keep: "inj_on (ce_digest ce) U \<Longrightarrow> stores ce U (keep ce io b) (kept ce b) (kept_bodies ce b)"
  by (simp add: keep_def kept_def kept_bodies_def stores_store stores_return)

lemma stores_pack:
  "inj_on (ce_digest ce) U \<Longrightarrow> stores ce U (pack ce io v) (packed ce v) (bodies ce v)"
  "inj_on (ce_digest ce) U \<Longrightarrow> stores ce U (pack_members ce io ms) (packed_members ce ms) (bodies_members ce ms)"
proof (induction ce io v and ce io ms rule: pack_pack_members.induct)
  case (1 ce io ms)
  have "stores ce U (op_bind (pack_members ce io ms) (\<lambda>ms. keep ce io (JObj (sort_members ms))))
      (kept ce (JObj (sort_members (packed_members ce ms))))
      (bodies_members ce ms @ kept_bodies ce (JObj (sort_members (packed_members ce ms))))" if "\<not> reserved ms"
    by (rule stores_bind [OF 1(1) [OF that 1(2)]]) (rule stores_keep [OF 1(2)])
  then show ?case using stores_store [OF 1(2), of io "JObj ms" True] by simp
next
  case (4 ce io k v ms)
  have "stores ce U (if row_key k then pack_row_value ce io v else pack ce io v)
      (if row_key k then row_refs ce v else packed ce v) (if row_key k then row_bodies v else bodies ce v)"
    using 4 by (simp add: stores_row_value)
  from stores_bind [OF this stores_bind_return [OF 4(2) [OF 4(3)]], of "\<lambda>v ms. (k, v) # ms"]
  show ?case by (simp add: op_return_def)
qed (simp_all add: stores_keep stores_return)

section \<open>Reading gives the document back\<close>

text \<open>No object inside is taken for a reference.\<close>

function (sequential) plain :: "json \<Rightarrow> bool"
  and plain_members :: "(string \<times> json) list \<Rightarrow> bool"
  and plain_rows :: "json list \<Rightarrow> bool" where
  "plain (JObj ms) \<longleftrightarrow> \<not> is_ref ms \<and> plain_members ms"
| "plain (JArr vs) \<longleftrightarrow> plain_rows vs"
| "plain v \<longleftrightarrow> True"
| "plain_members [] \<longleftrightarrow> True"
| "plain_members ((k, v) # ms) \<longleftrightarrow> plain v \<and> plain_members ms"
| "plain_rows [] \<longleftrightarrow> True"
| "plain_rows (v # vs) \<longleftrightarrow> plain v \<and> plain_rows vs"
  by pat_completeness auto
termination
  by (relation "measure (case_sum size (case_sum members_size (size_list size)))") auto

text \<open>
  A document the store can hold: arrays that are kept as they are have no objects that look like references,
  and no object is one of the objects cut out of it. (With SHA-256 the latter would be a document that
  contains its own digest.)
\<close>

function (sequential) storable :: "content_env \<Rightarrow> json \<Rightarrow> bool"
  and storable_members :: "content_env \<Rightarrow> (string \<times> json) list \<Rightarrow> bool" where
  "storable ce (JObj ms) \<longleftrightarrow> reserved ms \<or> storable_members ce ms
     \<and> JObj (sort_members (packed_members ce ms)) \<notin> set (bodies_members ce ms)"
| "storable ce v \<longleftrightarrow> plain v"
| "storable_members ce [] \<longleftrightarrow> True"
| "storable_members ce ((k, v) # ms) \<longleftrightarrow> (row_key k \<and> (case v of JArr _ \<Rightarrow> True | JNull \<Rightarrow> True | _ \<Rightarrow> False)
     \<or> \<not> row_key k \<and> storable ce v) \<and> storable_members ce ms"
  by pat_completeness auto
termination
  by (relation "measure (case_sum (\<lambda>(ce, v). size v) (\<lambda>(ce, ms). members_size ms))") simp_all

lemma sort_members_map:
  assumes "\<And>m. fst (f m) = fst m"
  shows "sort_members (map f ms) = map f (sort_members ms)"
proof -
  have "insort_key fst (f x) (map f xs) = map f (insort_key fst x xs)" for x xs
    using assms by (induction xs) auto
  then show ?thesis by (induction ms) (simp_all add: sort_members_def)
qed

lemma sort_members_idem [simp]: "sort_members (sort_members ms) = sort_members ms"
  by (simp add: sort_members_def sort_key_id_if_sorted)

lemma canonical_members_map: "canonical_members ms = map (\<lambda>m. (fst m, CanonicalSourceJSON (snd m))) ms"
  by (induction ms) auto

lemma packed_members_map:
  "packed_members ce ms = map (\<lambda>m. (fst m, if row_key (fst m) then row_refs ce (snd m) else packed ce (snd m))) ms"
  by (induction ms) auto

lemma canonical_sorted [simp]: "sort_members (canonical_members (sort_members ms)) = sort_members (canonical_members ms)"
  by (simp add: canonical_members_map sort_members_map)

lemma canonical_idem:
  "CanonicalSourceJSON (CanonicalSourceJSON v) = CanonicalSourceJSON v"
  "canonical_members (canonical_members ms) = canonical_members ms"
  "canonical_rows (canonical_rows vs) = canonical_rows vs"
  by (induction v and ms and vs rule: CanonicalSourceJSON_canonical_members_canonical_rows.induct) simp_all

text \<open>An operation that succeeds, from every state, with a value that has a property.\<close>

definition gives :: "('s, 'a) op \<Rightarrow> ('a \<Rightarrow> bool) \<Rightarrow> bool" where
  "gives f P \<longleftrightarrow> (\<forall>s. \<exists>x s'. f s = (Inr x, s') \<and> P x)"

lemma gives_return [simp]: "gives (op_return x) P \<longleftrightarrow> P x"
  by (simp add: gives_def)

lemma gives_bind: "gives f P \<Longrightarrow> (\<And>x. P x \<Longrightarrow> gives (g x) Q) \<Longrightarrow> gives (op_bind f g) Q"
  unfolding gives_def op_bind_def by (metis (no_types, lifting) case_prod_conv sum.case(2))

text \<open>What is read for a value: the value itself up to the order of keys.\<close>

abbreviation reads :: "content_env \<Rightarrow> (string \<Rightarrow> bool) \<Rightarrow> json gomap \<Rightarrow> string list \<Rightarrow> json \<Rightarrow> json \<Rightarrow> bool" where
  "reads ce rd objects seen p v \<equiv>
     gives (unpack ce rd objects seen p) (\<lambda>w. CanonicalSourceJSON w = CanonicalSourceJSON v)"

abbreviation reads_members ::
    "content_env \<Rightarrow> (string \<Rightarrow> bool) \<Rightarrow> json gomap \<Rightarrow> string list \<Rightarrow> (string \<times> json) list \<Rightarrow> (string \<times> json) list \<Rightarrow> bool" where
  "reads_members ce rd objects seen ps ms \<equiv>
     gives (unpack_members ce rd objects seen ps) (\<lambda>ws. canonical_members ws = canonical_members ms)"

abbreviation reads_rows :: "content_env \<Rightarrow> (string \<Rightarrow> bool) \<Rightarrow> json gomap \<Rightarrow> string list \<Rightarrow> json list \<Rightarrow> json list \<Rightarrow> bool" where
  "reads_rows ce rd objects seen ps vs \<equiv>
     gives (unpack_rows ce rd objects seen ps) (\<lambda>ws. canonical_rows ws = canonical_rows vs)"

lemma reads_members_Cons:
  "reads ce rd objects seen p v \<Longrightarrow> reads_members ce rd objects seen ps ms \<Longrightarrow>
   reads_members ce rd objects seen ((k, p) # ps) ((k, v) # ms)"
  by (auto intro!: gives_bind)

lemma reads_rows_Cons:
  "reads ce rd objects seen p v \<Longrightarrow> reads_rows ce rd objects seen ps vs \<Longrightarrow> reads_rows ce rd objects seen (p # ps) (v # vs)"
  by (auto intro!: gives_bind)

lemma reads_object:
  assumes "reads_members ce rd objects seen ps ms" "\<not> is_ref ps"
  shows "reads ce rd objects seen (JObj ps) (JObj ms)"
  using assms by (auto intro!: gives_bind)

lemma reads_array: "reads_rows ce rd objects seen ps vs \<Longrightarrow> reads ce rd objects seen (JArr ps) (JArr vs)"
  by (auto intro!: gives_bind)

lemma reads_plain:
  "plain v \<Longrightarrow> reads ce rd objects seen v v"
  "plain_members ms \<Longrightarrow> reads_members ce rd objects seen ms ms"
  "plain_rows vs \<Longrightarrow> reads_rows ce rd objects seen vs vs"
proof (induction v and ms and vs rule: plain_plain_members_plain_rows.induct)
  case (1 ms)
  then show ?case by (intro reads_object) simp_all
next
  case (2 vs)
  then show ?case by (intro reads_array) simp
next
  case (5 k v ms)
  then show ?case by (intro reads_members_Cons) simp_all
next
  case (7 v vs)
  then show ?case by (intro reads_rows_Cons) simp_all
qed simp_all

text \<open>A reference is followed when its object is there and it is not being followed already.\<close>

definition object_read :: "content_env \<Rightarrow> (string \<Rightarrow> bool) \<Rightarrow> json gomap \<Rightarrow> string list \<Rightarrow> json \<Rightarrow> bool" where
  "object_read ce rd objects seen b \<longleftrightarrow> content_id (ce_digest ce b) \<and> rd (ce_digest ce b)
     \<and> gm_get objects (ce_digest ce b) = Some b \<and> ce_digest ce b \<notin> set seen"

lemma reads_opaque: "object_read ce rd objects seen b \<Longrightarrow> reads ce rd objects seen (reference (ce_digest ce b) True) b"
  by (simp add: object_read_def reference_def is_ref_def reserved_def opaque_ref_def ref_id_def gives_def)

lemma reads_reference:
  "object_read ce rd objects seen b \<Longrightarrow> reads ce rd objects (ce_digest ce b # seen) b v \<Longrightarrow>
   reads ce rd objects seen (reference (ce_digest ce b) False) v"
  by (simp add: object_read_def reference_def is_ref_def reserved_def opaque_ref_def ref_id_def gives_def)

lemma object_read_Cons:
  "object_read ce rd objects seen b \<Longrightarrow> gm_get objects (ce_digest ce b0) = Some b0 \<Longrightarrow> b \<noteq> b0 \<Longrightarrow>
   object_read ce rd objects (ce_digest ce b0 # seen) b"
  by (auto simp: object_read_def)

lemma reads_kept:
  assumes "\<forall>b\<in>set (kept_bodies ce b0). object_read ce rd objects seen b"
    and "\<And>seen'. seen' = seen \<or> seen' = ce_digest ce b0 # seen \<and> object_read ce rd objects seen b0 \<Longrightarrow> reads ce rd objects seen' b0 v"
  shows "reads ce rd objects seen (kept ce b0) v"
  using assms by (auto simp: kept_def kept_bodies_def intro!: reads_reference)

lemma reads_kept_plain:
  "plain v \<Longrightarrow> \<forall>b\<in>set (kept_bodies ce v). object_read ce rd objects seen b \<Longrightarrow> reads ce rd objects seen (kept ce v) v"
  by (rule reads_kept) (simp_all add: reads_plain)

lemma reads_members_map:
  assumes "\<forall>m\<in>set ms. reads ce rd objects seen (snd (f m)) (snd m)" "\<And>m. fst (f m) = fst m"
  shows "reads_members ce rd objects seen (map f ms) ms"
  using assms(1)
proof (induction ms)
  case (Cons m ms)
  obtain k v where m: "m = (k, v)" by (cases m)
  obtain p where "f m = (k, p)" using assms(2) [of m] m by (cases "f m") auto
  then show ?case using Cons m reads_members_Cons by auto
qed simp

lemma reserved_iff: "reserved ms \<longleftrightarrow> ''$content'' \<in> fst ` set ms"
  by (auto simp: reserved_def dom_map_of_conv_image_fst [symmetric])

definition packed_member :: "content_env \<Rightarrow> string \<times> json \<Rightarrow> string \<times> json" where
  "packed_member ce m = (fst m, if row_key (fst m) then row_refs ce (snd m) else packed ce (snd m))"

lemma packed_members_sorted: "sort_members (packed_members ce ms) = map (packed_member ce) (sort_members ms)"
  unfolding packed_members_map by (subst sort_members_map) (simp_all add: packed_member_def)

lemma set_sort_members [simp]: "set (sort_members ms) = set ms"
  by (simp add: sort_members_def)

lemma reads_packed_object:
  assumes "\<not> reserved ms" "\<forall>m\<in>set ms. reads ce rd objects seen (snd (packed_member ce m)) (snd m)"
  shows "reads ce rd objects seen (JObj (sort_members (packed_members ce ms))) (JObj ms)"
proof -
  have "\<not> is_ref (map (packed_member ce) (sort_members ms))"
    using assms(1) by (auto simp: is_ref_def reserved_iff packed_member_def image_iff)
  with reads_members_map [of "sort_members ms" ce rd objects seen "packed_member ce"] assms(2)
  have "reads ce rd objects seen (JObj (map (packed_member ce) (sort_members ms))) (JObj (sort_members ms))"
    by (intro reads_object) (simp_all add: packed_member_def)
  then show ?thesis by (simp add: packed_members_sorted)
qed

lemma reads_row_refs:
  assumes "case v of JArr _ \<Rightarrow> True | JNull \<Rightarrow> True | _ \<Rightarrow> False" "\<forall>b\<in>set (row_bodies v). object_read ce rd objects seen b"
  shows "reads ce rd objects seen (row_refs ce v) v"
proof (cases v)
  case (JArr rows)
  have "reads_rows ce rd objects seen (map (\<lambda>r. reference (ce_digest ce r) True) rows) rows"
    if "\<forall>b\<in>set rows. object_read ce rd objects seen b"
    using that by (induction rows) (simp, simp only: list.map, intro reads_rows_Cons reads_opaque, simp_all)
  then show ?thesis using assms(2) JArr by (simp only: row_refs_def row_bodies_def json.case) (intro reads_array)
qed (use assms in \<open>simp_all add: row_refs_def\<close>)

lemma reads_packed:
  "storable ce v \<Longrightarrow> \<forall>b\<in>set (bodies ce v). object_read ce rd objects seen b \<Longrightarrow> reads ce rd objects seen (packed ce v) v"
  "storable_members ce ms \<Longrightarrow> \<forall>b\<in>set (bodies_members ce ms). object_read ce rd objects seen b \<Longrightarrow>
   \<forall>m\<in>set ms. reads ce rd objects seen (snd (packed_member ce m)) (snd m)"
proof (induction ce v and ce ms arbitrary: seen and seen rule: packed_packed_members.induct)
  case (1 ce ms)
  let ?b0 = "JObj (sort_members (packed_members ce ms))"
  show ?case
  proof (cases "reserved ms")
    case True
    then show ?thesis using 1(3) reads_opaque [of ce rd objects seen "JObj ms"] by simp
  next
    case False
    have "reads ce rd objects seen' ?b0 (JObj ms)"
      if seen': "seen' = seen \<or> seen' = ce_digest ce ?b0 # seen \<and> object_read ce rd objects seen ?b0" for seen'
    proof (rule reads_packed_object [OF False 1(1) [OF False]])
      have "object_read ce rd objects seen b" "b \<noteq> ?b0" if "b \<in> set (bodies_members ce ms)" for b
        using that 1(2,3) False by auto
      then show "\<forall>b\<in>set (bodies_members ce ms). object_read ce rd objects seen' b"
        using seen' object_read_Cons [of ce rd objects seen _ ?b0] by (metis object_read_def)
    qed (use 1(2) False in simp)
    then show ?thesis using 1(3) False reads_kept [of ce ?b0 rd objects seen "JObj ms"] by simp
  qed
next
  case (4 ce k v ms)
  then show ?case using reads_row_refs by (auto simp: packed_member_def)
qed (simp_all only: packed.simps bodies.simps storable.simps reads_kept_plain list.set ball_empty)

section \<open>A checkpoint is never lost\<close>

definition sub_objects :: "json gomap \<Rightarrow> json gomap \<Rightarrow> bool" where
  "sub_objects objects objects' \<longleftrightarrow> (\<forall>i b. gm_get objects i = Some b \<longrightarrow> gm_get objects' i = Some b)"

lemma unpack_mono:
  "unpack ce rd objects seen v known = (Inr w, k) \<Longrightarrow> sub_objects objects objects' \<Longrightarrow>
     unpack ce rd objects' seen v known = (Inr w, k)"
  "unpack_members ce rd objects seen ms known = (Inr ws, k) \<Longrightarrow> sub_objects objects objects' \<Longrightarrow>
     unpack_members ce rd objects' seen ms known = (Inr ws, k)"
  "unpack_rows ce rd objects seen vs known = (Inr vs', k) \<Longrightarrow> sub_objects objects objects' \<Longrightarrow>
     unpack_rows ce rd objects' seen vs known = (Inr vs', k)"
proof (induction ce rd objects seen v and ce rd objects seen ms and ce rd objects seen vs
    arbitrary: known w k and known ws k and known vs' k rule: unpack_unpack_members_unpack_rows.induct)
  case (1 ce readable objects seen ms)
  show ?case
  proof (cases "is_ref ms")
    case True
    then show ?thesis using 1
      by (auto simp: sub_objects_def split: option.splits if_splits)
  next
    case False
    then show ?thesis using 1 by (auto simp: op_bind_eq_Inr)
  qed
qed (auto simp: op_bind_eq_Inr)

definition hash_sound :: "content_env \<Rightarrow> json set \<Rightarrow> bool" where
  "hash_sound ce U \<longleftrightarrow> inj_on (ce_digest ce) U \<and> (\<forall>b\<in>U. content_id (ce_digest ce b))"

text \<open>The root file and the directory hold the document \<open>v\<close>.\<close>

definition reads_back :: "content_env \<Rightarrow> checkpointContent \<Rightarrow> json disk \<Rightarrow> json \<Rightarrow> bool" where
  "reads_back ce c root v \<longleftrightarrow> (\<exists>p w. root = Holds p \<and> fst (read_content ce (\<lambda>_. True) p c) = Inr w
     \<and> CanonicalSourceJSON w = CanonicalSourceJSON v)"

lemma reads_backI: "reads ce (\<lambda>_. True) (cc_objects c) [] p v \<Longrightarrow> reads_back ce c (Holds p) v"
  unfolding reads_back_def read_content_def gives_def by (metis (no_types, lifting) case_prod_conv fst_conv)

text \<open>The identifiers held as known do not influence what is read.\<close>

definition state_free :: "('s, 'a) op \<Rightarrow> bool" where
  "state_free f \<longleftrightarrow> (\<forall>s s'. fst (f s) = fst (f s'))"

lemma state_free_basic: "state_free (op_fail e)" "state_free (op_return x)"
  by (simp_all add: state_free_def)

lemma state_free_bind:
  assumes f: "state_free f" and g: "\<And>x. state_free (g x)"
  shows "state_free (op_bind f g)"
  unfolding state_free_def
proof (intro allI)
  fix s s'
  obtain r t t' where "f s = (r, t)" "f s' = (r, t')" using f by (metis prod.collapse state_free_def)
  then show "fst (op_bind f g s) = fst (op_bind f g s')"
    using g by (cases r) (simp_all add: op_bind_def state_free_def)
qed

lemma unpack_known:
  "state_free (unpack ce rd objects seen v)"
  "state_free (unpack_members ce rd objects seen ms)"
  "state_free (unpack_rows ce rd objects seen vs)"
proof (induction ce rd objects seen v and ce rd objects seen ms and ce rd objects seen vs
    rule: unpack_unpack_members_unpack_rows.induct)
  case (1 ce readable objects seen ms)
  show ?case
  proof (cases "is_ref ms")
    case True
    then show ?thesis using 1(1) by (auto simp: state_free_def split: option.splits)
  next
    case False
    then show ?thesis using 1(2) by (auto intro: state_free_bind state_free_basic simp del: op_return_app)
  qed
qed (auto intro!: state_free_bind state_free_basic simp del: op_return_app)

lemma reads_back_mono:
  assumes "reads_back ce c root v" "sub_objects (cc_objects c) (cc_objects c')"
  shows "reads_back ce c' root v"
proof -
  obtain p w where p: "root = Holds p" "fst (read_content ce (\<lambda>_. True) p c) = Inr w" "CanonicalSourceJSON w = CanonicalSourceJSON v"
    using assms(1) by (auto simp: reads_back_def)
  obtain k where "unpack ce (\<lambda>_. True) (cc_objects c) [] p (cc_known c) = (Inr w, k)"
    using p(2) by (auto simp: read_content_def split: prod.splits)
  from unpack_mono(1) [OF this assms(2)] have "fst (read_content ce (\<lambda>_. True) p c') = Inr w"
    using unpack_known(1) [of ce "\<lambda>_. True" "cc_objects c'" "[]" p]
    unfolding read_content_def case_prod_beta state_free_def by (metis fst_conv)
  then show ?thesis using p by (auto simp: reads_back_def)
qed

lemma collect_get:
  "gm_get (cc_objects (collect io used c)) i =
     (if i \<in> set (cc_known c) \<and> i \<notin> set used \<and> ci_remove io i then None else gm_get (cc_objects c) i)"
proof -
  have "gm_get (filter (\<lambda>(i, _). i \<notin> G) m) i = (if i \<in> G then None else gm_get m i)" for G and m :: "json gomap"
    by (induction m) auto
  from this [of "set (filter (\<lambda>i. i \<notin> set used \<and> ci_remove io i) (cc_known c))" "cc_objects c"]
  show ?thesis by (simp add: collect_def Let_def)
qed

lemma collect_ok: "content_ok ce U c \<Longrightarrow> content_ok ce U (collect io used c)"
  unfolding content_ok_def collect_get by (auto simp: collect_def Let_def)

lemma holds_all_collect:
  assumes "holds_all ce B (cc_objects c)" "ce_digest ce ` set B \<subseteq> set used"
  shows "holds_all ce B (cc_objects (collect io used c))"
  using assms by (auto simp: holds_all_def collect_get)

lemma reads_back_root:
  assumes "storable ce v" "packed ce v \<notin> set (bodies ce v)" "hash_sound ce U" "set (bodies ce v @ [packed ce v]) \<subseteq> U"
    and "holds_all ce (bodies ce v @ [packed ce v]) (cc_objects c)"
  shows "reads_back ce c (Holds (reference (ce_digest ce (packed ce v)) False)) v"
proof (rule reads_backI, rule reads_reference)
  let ?rd = "\<lambda>_. True"
  have read: "object_read ce ?rd (cc_objects c) [] b" if "b \<in> set (bodies ce v @ [packed ce v])" for b
    using that assms(3,4,5) by (auto simp: object_read_def hash_sound_def holds_all_def)
  then show "object_read ce ?rd (cc_objects c) [] (packed ce v)" by simp
  have "\<forall>b\<in>set (bodies ce v). object_read ce ?rd (cc_objects c) [ce_digest ce (packed ce v)] b"
    using read assms(2) object_read_Cons [of ce ?rd "cc_objects c" "[]" _ "packed ce v"] by (auto simp: object_read_def)
  then show "reads ce ?rd (cc_objects c) [ce_digest ce (packed ce v)] (packed ce v) v"
    using reads_packed(1) [OF assms(1)] by blast
qed

text \<open>
  C7. A checkpoint in the content store is never lost. However saving a document ends (an object or the root
  file cannot be written, the directory cannot be synced, an old object cannot be removed), the files hold the
  new document as a whole or, with an error reported, the one they held before; after a successful save they
  hold the new one. So objects are removed only when no root needs them.
\<close>

theorem saved_content_never_lost:
  assumes ok: "content_ok ce U c" and hash: "hash_sound ce U" "set (bodies ce v @ [packed ce v]) \<subseteq> U"
    and v: "storable ce v" "packed ce v \<notin> set (bodies ce v)"
    and run: "save ce io v (c, root) = (r, c', root')"
  shows "content_ok ce U c'
    \<and> (reads_back ce c' root' v
      \<or> r \<noteq> Inr () \<and> root' = root \<and> (\<forall>old. reads_back ce c root old \<longrightarrow> reads_back ce c' root' old))"
proof -
  let ?all = "bodies ce v @ [packed ce v]"
  have inj: "inj_on (ce_digest ce) U" using hash(1) by (simp add: hash_sound_def)
  obtain r1 c1 used where run1: "op_bind (pack ce io v) (\<lambda>p. store ce io p False) (c, []) = (r1, (c1, used))"
    by (metis prod.exhaust)
  have "stores ce U (op_bind (pack ce io v) (\<lambda>p. store ce io p False)) (reference (ce_digest ce (packed ce v)) False) ?all"
    by (rule stores_bind [OF stores_pack(1) [OF inj]]) (rule stores_store [OF inj])
  note S = this [unfolded stores_def, rule_format, OF hash(2) ok run1]
  have old: "\<forall>old. reads_back ce c root old \<longrightarrow> reads_back ce c1 root old"
    using S reads_back_mono by (auto simp: extends_def sub_objects_def)
  show ?thesis
  proof (cases r1)
    case (Inl e)
    then show ?thesis using run run1 S old ok by (auto simp: save_def split: if_splits)
  next
    case (Inr p)
    have p: "p = reference (ce_digest ce (packed ce v)) False" and held: "holds_all ce ?all (cc_objects c1)"
      and used: "ce_digest ce ` set ?all \<subseteq> set used" using S Inr by auto
    have "reads_back ce c1 (Holds p) v" "reads_back ce (collect io used c1) (Holds p) v"
      unfolding p using reads_back_root [OF v hash] held holds_all_collect [OF held used] by simp_all
    then show ?thesis using run run1 Inr S old ok collect_ok
      by (auto simp: save_def split: if_splits save_outcome.splits)
  qed
qed

text \<open>A small checkpoint with two rows, a long text and an object with the reserved key.\<close>

definition example_content_env :: content_env where
  "example_content_env = \<lparr>ce_digest = (\<lambda>b. replicate 64 (case b of
       JNum n \<Rightarrow> (if n = ''1'' then CHR ''1'' else CHR ''2'') | JStr _ \<Rightarrow> CHR ''a''
     | JObj ms \<Rightarrow> (if reserved ms then CHR ''b'' else CHR ''c'') | _ \<Rightarrow> CHR ''d'')),
     ce_length = (\<lambda>b. case b of JStr _ \<Rightarrow> 5000 | _ \<Rightarrow> 10)\<rparr>"

definition example_document :: json where
  "example_document = JObj [(''stories'', JArr [JNum ''1'', JNum ''2'']), (''note'', JStr ''long''),
     (''extra'', JObj [(''$content'', JNull)])]"

definition working_io :: content_io where
  "working_io = \<lparr>ci_mkdir = True, ci_readable = (\<lambda>_. True), ci_write = (\<lambda>_. Saved), ci_sync = True, ci_root = Saved,
     ci_remove = (\<lambda>_. True)\<rparr>"

theorem saved_content_never_lost_witness:
  "reads_back example_content_env (fst (snd (save example_content_env working_io example_document (newCheckpointContent [], Absent))))
     (snd (snd (save example_content_env working_io example_document (newCheckpointContent [], Absent)))) example_document"
proof -
  let ?ce = example_content_env and ?s = "save example_content_env working_io example_document (newCheckpointContent [], Absent)"
  let ?all = "bodies ?ce example_document @ [packed ?ce example_document]"
  have "distinct (map (ce_digest ?ce) ?all)" "list_all (\<lambda>b. content_id (ce_digest ?ce b)) ?all" by code_simp+
  then have hash: "hash_sound ?ce (set ?all)" unfolding hash_sound_def distinct_map list_all_iff by blast
  have v: "storable ?ce example_document" "packed ?ce example_document \<notin> set (bodies ?ce example_document)" by code_simp+
  have ok: "content_ok ?ce (set ?all) (newCheckpointContent [])" by (simp add: content_ok_def newCheckpointContent_def)
  have run: "?s = (fst ?s, fst (snd ?s), snd (snd ?s))" by simp
  have "fst ?s = Inr ()" by code_simp
  then show ?thesis using saved_content_never_lost [OF ok hash subset_refl v run] by simp
qed

end
