(* ===== verification/Catalogue.thy ===== *)
theory Catalogue
  imports Checkpoint
begin

text \<open>
  The catalogue file of a source (\<open>src/internal/repository/catalogue.go\<close>): a checkpoint of its own for the
  listing of rundowns, and the inventory of the rundown stores the source retains, each in a directory of its
  own.

  A member's directory is named by the digest of its identity; here it is named by the identity. The content
  store of version 2 destinations (theory \<open>Content\<close>) changes how the same value lies on disk. The pending
  payload is opaque, so it is a type parameter; the header fields read back from it, its size and the digests
  are fields of \<open>cat_codec\<close>. How file operations end is an argument.
\<close>

section \<open>Types\<close>

record 'p CatalogueCheckpoint =
  cat_Revision :: nat
  cat_Pending :: "'p option"
  cat_AcceptedRevision :: nat
  cat_Receipts :: "InputReceipt list"
  cat_Raw :: string
  cat_Halted :: bool

record 'p catalogueFile =
  kf_Version :: nat
  kf_Binding :: SourceBinding
  kf_State :: "'p CatalogueCheckpoint"
  kf_Digest :: string

text \<open>\<open>Rundowns\<close> may be \<open>null\<close> in a file.\<close>

record sourceMembersFile =
  sm_Version :: nat
  sm_Binding :: SourceBinding
  sm_Rundowns :: "string list option"
  sm_Unenrolled :: "string list"
  sm_Digest :: string

definition MaxSourceMembers :: nat where "MaxSourceMembers = 512"

text \<open>\<open>ct_members\<close> is \<open>None\<close> for the nil map. The sets \<open>ct_unenrolled\<close> and \<open>ct_owned\<close> are lists of identities.\<close>

record ('st, 'q, 'p) Catalogue =
  ct_binding :: SourceBinding
  ct_state :: "'p CatalogueCheckpoint"
  ct_degraded :: bool
  ct_lock :: bool
  ct_members :: "('st, 'q) Durable gomap option"
  ct_memberIDs :: "string list"
  ct_unenrolled :: "string list"
  ct_owned :: "string list"
  ct_memberLimit :: nat
  ct_retainedCount :: nat

datatype 'a entry = NoEntry | NotDirectory | Directory 'a

record ('st, 'q, 'p) catalogue_disk =
  kd_catalogue :: "'p catalogueFile disk"
  kd_inventory :: "sourceMembersFile disk"
  kd_root :: "unit entry"
  kd_dirs :: "('st, 'q) checkpointFile disk entry gomap"
  kd_stages :: "('st, 'q) checkpointFile disk entry gomap"

definition entry_at :: "'a entry gomap \<Rightarrow> string \<Rightarrow> 'a entry" where
  "entry_at m k = (case gm_get m k of None \<Rightarrow> NoEntry | Some e \<Rightarrow> e)"

lemma entry_at_set [simp]: "entry_at (gm_set k e m) k' = (if k = k' then e else entry_at m k')"
  by (simp add: entry_at_def gm_get_set)

record ('st, 'q, 'p) cat_codec =
  ca_version :: "'p \<Rightarrow> nat"
  ca_sourceID :: "'p \<Rightarrow> string"
  ca_revision :: "'p \<Rightarrow> nat"
  ca_size :: "'p \<Rightarrow> nat"
  ca_digest :: "'p catalogueFile \<Rightarrow> string"
  ca_members_digest :: "sourceMembersFile \<Rightarrow> string"
  ca_member :: "('st, 'q) codec"

section \<open>Bindings\<close>

definition trim_suffix :: "string \<Rightarrow> string \<Rightarrow> string" where
  "trim_suffix s t = (if has_suffix s t then take (length s - length t) s else s)"

definition v2_destination :: "SourceBinding \<Rightarrow> bool" where
  "v2_destination b = has_suffix (bnd_Destination b) ''/v2/source-sync''"

definition MemberBinding :: "SourceBinding \<Rightarrow> string \<Rightarrow> SourceBinding" where
  "MemberBinding b rundown =
     (let b = b\<lparr>bnd_RundownID := rundown\<rparr> in
      if v2_destination b then b
      else b\<lparr>bnd_Destination := trim_suffix (bnd_Destination b) ''/v1/openmos-catalogue'' @ ''/v1/openmos-snapshots''\<rparr>)"

definition MemberUnenrolled :: "('st, 'q, 'p) Catalogue \<Rightarrow> string \<Rightarrow> bool" where
  "MemberUnenrolled c rundown = (rundown \<in> set (ct_unenrolled c))"

definition membersBinding :: "SourceBinding \<Rightarrow> SourceBinding" where
  "membersBinding b = b\<lparr>bnd_Destination := []\<rparr>"

definition member_limit :: "SourceBinding \<Rightarrow> nat" where
  "member_limit b = (if v2_destination b then MaxSourceMembers else 100)"

section \<open>The catalogue's checkpoint\<close>

definition catalogue_receipt_ok :: "SourceBinding \<Rightarrow> InputReceipt \<Rightarrow> bool" where
  "catalogue_receipt_ok b r \<longleftrightarrow> rcp_Scope r \<noteq> [] \<and> bounded_text (rcp_Scope r) 512 \<and> rcp_NCSID r = bnd_NCSID b
     \<and> rcp_MessageID r \<noteq> [] \<and> bounded_text (rcp_MessageID r) (4 * 2 ^ 20) \<and> hex_bytes 32 (rcp_Hash r) \<and> rcp_Response r = []"

definition catalogue_receipt_key :: "InputReceipt \<Rightarrow> string \<times> string \<times> string" where
  "catalogue_receipt_key r = (rcp_Scope r, rcp_NCSID r, rcp_MessageID r)"

definition catalogue_validate :: "('st, 'q, 'p) cat_codec \<Rightarrow> SourceBinding \<Rightarrow> 'p CatalogueCheckpoint \<Rightarrow> unit result" where
  "catalogue_validate cc b s =
     (if cat_Revision s > MaxSourceRevision \<or> cat_AcceptedRevision s > cat_Revision s \<or> length (cat_Raw s) > 6 * 2 ^ 20
      then Inl (Errorf ''invalid catalogue counter or raw content bound'')
      else if cat_Revision s = 0 then
        (if cat_Pending s \<noteq> None \<or> cat_Receipts s \<noteq> [] \<or> cat_Raw s \<noteq> [] \<or> cat_Halted s
         then Inl (Errorf ''invalid unstarted catalogue'') else Inr ())
      else if (case cat_Pending s of None \<Rightarrow> True | Some p \<Rightarrow>
          wire_version b = 1 \<and> ca_size cc p > 64 * 1024 \<or> ca_version cc p \<noteq> wire_version b
          \<or> ca_sourceID cc p \<noteq> bnd_SourceID b \<or> ca_revision cc p \<noteq> cat_Revision s)
      then Inl (Errorf ''catalogue payload does not match its binding and revision'')
      else if \<not> (distinct (map catalogue_receipt_key (cat_Receipts s)) \<and> list_all (catalogue_receipt_ok b) (cat_Receipts s))
      then Inl (Errorf ''invalid catalogue input receipt'')
      else Inr ())"

definition new_catalogue_file :: "('st, 'q, 'p) cat_codec \<Rightarrow> SourceBinding \<Rightarrow> 'p CatalogueCheckpoint \<Rightarrow> 'p catalogueFile" where
  "new_catalogue_file cc b s =
     (let f = \<lparr>kf_Version = 1, kf_Binding = b, kf_State = s, kf_Digest = []\<rparr> in f\<lparr>kf_Digest := ca_digest cc f\<rparr>)"

definition save_error :: "save_outcome \<Rightarrow> unit result" where
  "save_error io = (case io of Saved \<Rightarrow> Inr () | NotReplaced \<Rightarrow> Inl (Errorf ''replace checkpoint'')
    | ReplacedUnsynced \<Rightarrow> Inl (Errorf ''sync checkpoint directory''))"

definition replaced :: "save_outcome \<Rightarrow> 'a \<Rightarrow> 'a disk \<Rightarrow> 'a disk" where
  "replaced io new old = (if io = NotReplaced then old else Holds new)"

definition catalogue_save ::
    "('st, 'q, 'p) cat_codec \<Rightarrow> save_outcome \<Rightarrow> SourceBinding \<Rightarrow> 'p CatalogueCheckpoint \<Rightarrow> 'p catalogueFile disk \<Rightarrow>
     unit result \<times> 'p catalogueFile disk" where
  "catalogue_save cc io b s f = (save_error io, replaced io (new_catalogue_file cc b s) f)"

definition empty_catalogue :: "'p CatalogueCheckpoint" where
  "empty_catalogue = \<lparr>cat_Revision = 0, cat_Pending = None, cat_AcceptedRevision = 0, cat_Receipts = [], cat_Raw = [],
     cat_Halted = False\<rparr>"

definition opened_catalogue :: "SourceBinding \<Rightarrow> 'p CatalogueCheckpoint \<Rightarrow> ('st, 'q, 'p) Catalogue" where
  "opened_catalogue b s = \<lparr>ct_binding = b, ct_state = s, ct_degraded = False, ct_lock = True, ct_members = None,
     ct_memberIDs = [], ct_unenrolled = [], ct_owned = [], ct_memberLimit = 0, ct_retainedCount = 0\<rparr>"

record catalogue_dir =
  cd_given :: bool
  cd_created :: bool
  cd_foreign :: bool
  cd_lockfile :: bool
  cd_locked :: bool

definition catalogue_directory :: "catalogue_dir \<Rightarrow> SourceBinding \<Rightarrow> bool \<Rightarrow> unit result" where
  "catalogue_directory cd b initialize =
     (if \<not> cd_given cd \<or> bnd_RundownID b \<noteq> [] \<or> bnd_SourceID b = [] \<or> bnd_NCSID b = [] \<or> bnd_MosID b = []
      then Inl (Errorf ''catalogue requires a directory and a source-level binding'')
      else if initialize \<and> \<not> cd_created cd then Inl (Errorf ''create state directory'')
      else if cd_foreign cd then Inl (Errorf ''catalogue directory must be separate from rundown and native state'')
      else if \<not> cd_lockfile cd then Inl (Errorf ''open lock file'')
      else if \<not> cd_locked cd then Inl (Errorf ''catalogue state already owned or cannot be locked'')
      else Inr ())"

definition read_catalogue :: "('st, 'q, 'p) cat_codec \<Rightarrow> SourceBinding \<Rightarrow> 'p catalogueFile \<Rightarrow> ('st, 'q, 'p) Catalogue result" where
  "read_catalogue cc b file =
     (if kf_Version file \<noteq> 1 \<or> kf_Binding file \<noteq> b then Inl (Errorf ''catalogue version, binding or trailing data is invalid'')
      else if kf_Digest file \<noteq> ca_digest cc (file\<lparr>kf_Digest := []\<rparr>) then Inl (Errorf ''catalogue integrity check failed'')
      else case catalogue_validate cc b (kf_State file) of
        Inl e \<Rightarrow> Inl e
      | Inr _ \<Rightarrow> Inr (opened_catalogue b (kf_State file)))"

definition OpenCatalogue ::
    "('st, 'q, 'p) cat_codec \<Rightarrow> save_outcome \<Rightarrow> catalogue_dir \<Rightarrow> SourceBinding \<Rightarrow> bool \<Rightarrow> 'p catalogueFile disk \<Rightarrow>
     ('st, 'q, 'p) Catalogue result \<times> 'p catalogueFile disk" where
  "OpenCatalogue cc io cd b initialize f =
     (case catalogue_directory cd b initialize of
        Inl e \<Rightarrow> (Inl e, f)
      | Inr _ \<Rightarrow>
          (case f of
             Absent \<Rightarrow>
               if initialize then
                 (case catalogue_save cc io b empty_catalogue f of
                    (Inl e, f) \<Rightarrow> (Inl e, f)
                  | (Inr _, f) \<Rightarrow> (Inr (opened_catalogue b empty_catalogue), f))
               else (Inl (Errorf ''read catalogue state (initialize only a new catalogue)''), f)
           | Unreadable \<Rightarrow>
               (Inl (Errorf (if initialize then ''catalogue already initialized; reset is unsupported'' else ''decode catalogue'')), f)
           | Holds file \<Rightarrow>
               if initialize then (Inl (Errorf ''catalogue already initialized; reset is unsupported''), f)
               else (read_catalogue cc b file, f)))"

definition catalogue_Close :: "('st, 'q, 'p) Catalogue \<Rightarrow> ('st, 'q, 'p) Catalogue" where
  "catalogue_Close c =
     (if \<not> ct_lock c then c\<lparr>ct_degraded := True\<rparr>
      else c\<lparr>ct_degraded := True, ct_lock := False,
        ct_members := map_option (map (\<lambda>(k, d). (k, if k \<in> set (ct_owned c) then close_durable d else d))) (ct_members c)\<rparr>)"

definition catalogue_Checkpoint :: "('st, 'q, 'p) Catalogue \<Rightarrow> 'p CatalogueCheckpoint result" where
  "catalogue_Checkpoint c = (if ct_degraded c then Inl (Errorf ''catalogue storage is unavailable'') else Inr (ct_state c))"

type_synonym 'p catalogue_stage = "'p CatalogueCheckpoint \<Rightarrow> 'p CatalogueCheckpoint result"

definition catalogue_Commit ::
    "('st, 'q, 'p) cat_codec \<Rightarrow> save_outcome \<Rightarrow> 'p catalogue_stage \<Rightarrow> ('st, 'q, 'p) Catalogue \<times> 'p catalogueFile disk \<Rightarrow>
     unit result \<times> ('st, 'q, 'p) Catalogue \<times> 'p catalogueFile disk" where
  "catalogue_Commit cc io apply cf =
     (let (c, f) = cf in
      if ct_degraded c then (Inl (Errorf ''catalogue storage is unavailable''), cf)
      else case apply (ct_state c) of
        Inl e \<Rightarrow> (Inl e, cf)
      | Inr next \<Rightarrow>
          if cat_Revision next < cat_Revision (ct_state c) \<or> cat_Revision next > cat_Revision (ct_state c) + 1
          then (Inl (Errorf ''catalogue revision must stay unchanged or advance once''), cf)
          else (case catalogue_validate cc (ct_binding c) next of
            Inl e \<Rightarrow> (Inl e, cf)
          | Inr _ \<Rightarrow>
              (case catalogue_save cc io (ct_binding c) next f of
                 (Inl e, f) \<Rightarrow> (Inl e, c\<lparr>ct_degraded := True\<rparr>, f)
               | (Inr _, f) \<Rightarrow> (Inr (), c\<lparr>ct_state := next\<rparr>, f))))"

section \<open>The inventory of members\<close>

definition inventory_file ::
    "('st, 'q, 'p) cat_codec \<Rightarrow> SourceBinding \<Rightarrow> string list \<Rightarrow> string list \<Rightarrow> sourceMembersFile" where
  "inventory_file cc b ids unenrolled =
     (let f = \<lparr>sm_Version = 1, sm_Binding = membersBinding b, sm_Rundowns = Some ids,
        sm_Unenrolled = filter (\<lambda>k. k \<in> set unenrolled) ids, sm_Digest = []\<rparr>
      in f\<lparr>sm_Digest := ca_members_digest cc f\<rparr>)"

definition saveMembers ::
    "('st, 'q, 'p) cat_codec \<Rightarrow> save_outcome \<Rightarrow> SourceBinding \<Rightarrow> string list \<Rightarrow> string list \<Rightarrow> ('st, 'q, 'p) catalogue_disk \<Rightarrow>
     unit result \<times> ('st, 'q, 'p) catalogue_disk" where
  "saveMembers cc io b ids unenrolled k =
     (save_error io, k\<lparr>kd_inventory := replaced io (inventory_file cc b ids unenrolled) (kd_inventory k)\<rparr>)"

definition valid_member_id :: "string \<Rightarrow> bool" where
  "valid_member_id rundown \<longleftrightarrow> rundown \<noteq> [] \<and> bounded_text rundown 512"

definition is_directory :: "'a entry \<Rightarrow> bool" where
  "is_directory e = (case e of Directory _ \<Rightarrow> True | _ \<Rightarrow> False)"

definition checkMemberPath :: "string \<Rightarrow> ('st, 'q, 'p) catalogue_disk \<Rightarrow> unit result" where
  "checkMemberPath rundown k =
     (if is_directory (kd_root k) \<and> is_directory (entry_at (kd_dirs k) rundown) then Inr ()
      else Inl (Errorf ''member path is missing or is not a directory''))"

definition member_file :: "('st, 'q, 'p) catalogue_disk \<Rightarrow> string \<Rightarrow> ('st, 'q) checkpointFile disk" where
  "member_file k rundown = (case entry_at (kd_dirs k) rundown of Directory f \<Rightarrow> f | _ \<Rightarrow> Absent)"

text \<open>Opening an existing checkpoint writes nothing, so only its result is taken.\<close>

definition reopen :: "('st, 'q, 'p) cat_codec \<Rightarrow> source_dir \<Rightarrow> SourceBinding \<Rightarrow> ('st, 'q) checkpointFile disk \<Rightarrow> ('st, 'q) Durable result" where
  "reopen cc sd b f = fst (OpenCommitted (ca_member cc) Saved sd b False f)"

definition read_inventory ::
    "('st, 'q, 'p) cat_codec \<Rightarrow> save_outcome \<Rightarrow> SourceBinding \<Rightarrow> ('st, 'q, 'p) catalogue_disk \<Rightarrow>
     (string list \<times> string list) result \<times> ('st, 'q, 'p) catalogue_disk" where
  "read_inventory cc io b k =
     (case kd_inventory k of
        Absent \<Rightarrow>
          if kd_root k \<noteq> NoEntry then (Inl (Errorf ''member inventory is missing beside retained enrollment state''), k)
          else (case saveMembers cc io b [] [] k of (Inl e, k) \<Rightarrow> (Inl e, k) | (Inr _, k) \<Rightarrow> (Inr ([], []), k))
      | Unreadable \<Rightarrow> (Inl (Errorf ''decode member inventory''), k)
      | Holds file \<Rightarrow>
          (case sm_Rundowns file of
             Some ids \<Rightarrow>
               if sm_Version file = 1 \<and> sm_Binding file = membersBinding b \<and> length ids \<le> MaxSourceMembers
                 \<and> sm_Digest file = ca_members_digest cc (file\<lparr>sm_Digest := []\<rparr>)
               then (Inr (ids, sm_Unenrolled file), k)
               else (Inl (Errorf ''member inventory binding, integrity or capacity is invalid''), k)
           | None \<Rightarrow> (Inl (Errorf ''member inventory binding, integrity or capacity is invalid''), k)))"

text \<open>A configured store comes with the answer whether its directory is the member's own.\<close>

type_synonym ('st, 'q) configured = "(('st, 'q) Durable \<times> bool) gomap"

text \<open>The loop over the inventory; the accumulators are the members opened so far and those it owns.\<close>

fun open_members ::
    "('st, 'q, 'p) cat_codec \<Rightarrow> (string \<Rightarrow> source_dir) \<Rightarrow> SourceBinding \<Rightarrow> ('st, 'q) configured \<Rightarrow> ('st, 'q, 'p) catalogue_disk \<Rightarrow>
     string list \<Rightarrow> ('st, 'q) Durable gomap \<Rightarrow> string list \<Rightarrow> (('st, 'q) Durable gomap \<times> string list) result" where
  "open_members cc sd b configured k [] members owned = Inr (members, owned)"
| "open_members cc sd b configured k (i # ids) members owned =
     (if \<not> valid_member_id i \<or> gm_get members i \<noteq> None
      then Inl (Errorf ''member inventory contains an invalid or repeated identity'')
      else case checkMemberPath i k of
        Inl e \<Rightarrow> Inl e
      | Inr _ \<Rightarrow>
          (case gm_get configured i of
             Some (d, own_path) \<Rightarrow>
               if \<not> own_path then Inl (Errorf ''configured member would replace an enrolled member's original store'')
               else open_members cc sd b configured k ids (gm_set i d members) owned
           | None \<Rightarrow>
               (case reopen cc (sd i) (MemberBinding b i) (member_file k i) of
                  Inl e \<Rightarrow> Inl (Wrap ''reopen enrolled source'' e)
                | Inr d \<Rightarrow> open_members cc sd b configured k ids (gm_set i d members) (owned @ [i]))))"

definition retained_total :: "('st, 'q) configured \<Rightarrow> string list \<Rightarrow> nat" where
  "retained_total configured ids = length configured + length (filter (\<lambda>i. gm_get configured i = None) ids)"

definition OpenMembers ::
    "('st, 'q, 'p) cat_codec \<Rightarrow> save_outcome \<Rightarrow> (string \<Rightarrow> source_dir) \<Rightarrow> ('st, 'q) configured \<Rightarrow>
     ('st, 'q, 'p) Catalogue \<times> ('st, 'q, 'p) catalogue_disk \<Rightarrow>
     ('st, 'q) Durable gomap result \<times> ('st, 'q, 'p) Catalogue \<times> ('st, 'q, 'p) catalogue_disk" where
  "OpenMembers cc io sd configured ck =
     (let (c, k) = ck; b = ct_binding c; limit = member_limit b in
      if ct_degraded c \<or> ct_members c \<noteq> None
      then (Inl (Errorf ''catalogue members are unavailable or already opened''), c, k)
      else if \<not> list_all (\<lambda>(i, d, _). dur_binding d = MemberBinding b i) configured
      then (Inl (Errorf ''configured member does not match the catalogue binding''), c, k)
      else case read_inventory cc io b k of
        (Inl e, k) \<Rightarrow> (Inl e, c, k)
      | (Inr (ids, marked), k) \<Rightarrow>
          if retained_total configured ids > limit
          then (Inl (Errorf ''retained member inventory exceeds the selected source capacity''), c, k)
          else (case open_members cc sd b configured k ids [] [] of
            Inl e \<Rightarrow> (Inl e, c, k)
          | Inr (members, owned) \<Rightarrow>
              if \<not> (distinct marked \<and> list_all (\<lambda>i. gm_get members i \<noteq> None) marked)
              then (Inl (Errorf ''unenrolled inventory contains an unretained or repeated identity''), c, k)
              else (Inr members, c\<lparr>ct_members := Some members, ct_memberIDs := ids, ct_owned := owned, ct_unenrolled := marked,
                ct_memberLimit := limit, ct_retainedCount := retained_total configured ids\<rparr>, k)))"

section \<open>Retaining a member\<close>

record member_io =
  mi_mkdir_root :: bool
  mi_sync_parent :: bool
  mi_mkdir_stage :: bool
  mi_dir :: source_dir
  mi_open :: save_outcome
  mi_rename :: bool
  mi_sync_root :: bool
  mi_inventory :: save_outcome

definition member_root :: "member_io \<Rightarrow> ('st, 'q, 'p) Catalogue \<times> ('st, 'q, 'p) catalogue_disk \<Rightarrow>
    unit result \<times> ('st, 'q, 'p) Catalogue \<times> ('st, 'q, 'p) catalogue_disk" where
  "member_root io ck =
     (let (c, k) = ck in
      case kd_root k of
        NoEntry \<Rightarrow>
          if \<not> mi_mkdir_root io then (Inl (Errorf ''create member root''), c, k)
          else if \<not> mi_sync_parent io
          then (Inl (Errorf ''sync directory''), c\<lparr>ct_degraded := True\<rparr>, k\<lparr>kd_root := Directory ()\<rparr>)
          else (Inr (), c, k\<lparr>kd_root := Directory ()\<rparr>)
      | NotDirectory \<Rightarrow> (Inl (Errorf ''member root must be a directory, not a symlink''), c, k)
      | Directory _ \<Rightarrow> (Inr (), c, k))"

definition started :: "('st, 'q) Durable \<Rightarrow> bool" where
  "started d = (case dur_checkpoint d of None \<Rightarrow> False | Some cp \<Rightarrow> cp_Revision cp \<noteq> 0)"

text \<open>A new store is initialized in the staging directory and moved to its place.\<close>

definition install_member :: "('st, 'q, 'p) cat_codec \<Rightarrow> member_io \<Rightarrow> string \<Rightarrow> ('st, 'q) checkpointFile disk \<Rightarrow>
    ('st, 'q, 'p) Catalogue \<times> ('st, 'q, 'p) catalogue_disk \<Rightarrow>
    ('st, 'q) Durable result \<times> ('st, 'q, 'p) Catalogue \<times> ('st, 'q, 'p) catalogue_disk" where
  "install_member cc io i f ck =
     (let (c, k) = ck in
      case OpenCommitted (ca_member cc) (mi_open io) (mi_dir io) (MemberBinding (ct_binding c) i) (f = Absent) f of
        (Inl e, f) \<Rightarrow> (Inl e, c, k\<lparr>kd_stages := gm_set i (Directory f) (kd_stages k)\<rparr>)
      | (Inr d, f) \<Rightarrow>
          if started d
          then (Inl (Errorf ''enrollment staging contains previously accepted state''), c,
            k\<lparr>kd_stages := gm_set i (Directory f) (kd_stages k)\<rparr>)
          else if \<not> mi_rename io
          then (Inl (Errorf ''rename staging directory''), c, k\<lparr>kd_stages := gm_set i (Directory f) (kd_stages k)\<rparr>)
          else
            let moved = k\<lparr>kd_stages := gm_delete i (kd_stages k), kd_dirs := gm_set i (Directory f) (kd_dirs k)\<rparr>
            in if \<not> mi_sync_root io then (Inl (Errorf ''sync directory''), c\<lparr>ct_degraded := True\<rparr>, moved)
               else (Inr d, c, moved))"

definition make_stage :: "member_io \<Rightarrow> string \<Rightarrow> ('st, 'q, 'p) catalogue_disk \<Rightarrow> ('st, 'q, 'p) catalogue_disk" where
  "make_stage io i k =
     (if entry_at (kd_stages k) i = NoEntry \<and> mi_mkdir_stage io
      then k\<lparr>kd_stages := gm_set i (Directory Absent) (kd_stages k)\<rparr> else k)"

definition stage_member :: "('st, 'q, 'p) cat_codec \<Rightarrow> member_io \<Rightarrow> string \<Rightarrow> ('st, 'q, 'p) Catalogue \<times> ('st, 'q, 'p) catalogue_disk \<Rightarrow>
    ('st, 'q) Durable result \<times> ('st, 'q, 'p) Catalogue \<times> ('st, 'q, 'p) catalogue_disk" where
  "stage_member cc io i ck =
     (let (c, k) = ck; made = make_stage io i k in
      case entry_at (kd_stages made) i of
        NoEntry \<Rightarrow> (Inl (Errorf ''create staging directory''), c, made)
      | NotDirectory \<Rightarrow> (Inl (Errorf ''member staging path must be a directory''), c, made)
      | Directory f \<Rightarrow> install_member cc io i f (c, made))"

text \<open>A store that is there without being in the inventory: an earlier enrollment was interrupted.\<close>

definition resume_member :: "('st, 'q, 'p) cat_codec \<Rightarrow> member_io \<Rightarrow> string \<Rightarrow> SourceBinding \<Rightarrow> ('st, 'q, 'p) catalogue_disk \<Rightarrow>
    ('st, 'q) Durable result" where
  "resume_member cc io i b k =
     (case checkMemberPath i k of
        Inl e \<Rightarrow> Inl e
      | Inr _ \<Rightarrow>
          (case reopen cc (mi_dir io) (MemberBinding b i) (member_file k i) of
             Inl e \<Rightarrow> Inl e
           | Inr d \<Rightarrow> if started d then Inl (Errorf ''unregistered member contains previously accepted state'') else Inr d))"

definition provision_member :: "('st, 'q, 'p) cat_codec \<Rightarrow> member_io \<Rightarrow> string \<Rightarrow> ('st, 'q, 'p) Catalogue \<times> ('st, 'q, 'p) catalogue_disk \<Rightarrow>
    ('st, 'q) Durable result \<times> ('st, 'q, 'p) Catalogue \<times> ('st, 'q, 'p) catalogue_disk" where
  "provision_member cc io i ck =
     (case entry_at (kd_dirs (snd ck)) i of
        NoEntry \<Rightarrow> stage_member cc io i ck
      | _ \<Rightarrow> (resume_member cc io i (ct_binding (fst ck)) (snd ck), ck))"

definition register_member :: "('st, 'q, 'p) cat_codec \<Rightarrow> member_io \<Rightarrow> string \<Rightarrow> bool \<Rightarrow> ('st, 'q) Durable \<Rightarrow>
    ('st, 'q) Durable gomap \<Rightarrow> ('st, 'q, 'p) Catalogue \<times> ('st, 'q, 'p) catalogue_disk \<Rightarrow>
    ('st, 'q) Durable result \<times> ('st, 'q, 'p) Catalogue \<times> ('st, 'q, 'p) catalogue_disk" where
  "register_member cc io i enroll d members ck =
     (let (c, k) = ck; ids = ct_memberIDs c @ [i]; unenrolled = (if enroll then ct_unenrolled c else ct_unenrolled c @ [i]) in
      case saveMembers cc (mi_inventory io) (ct_binding c) ids unenrolled k of
        (Inl e, k) \<Rightarrow> (Inl e, c\<lparr>ct_degraded := True\<rparr>, k)
      | (Inr _, k) \<Rightarrow> (Inr d, c\<lparr>ct_memberIDs := ids, ct_unenrolled := unenrolled, ct_retainedCount := ct_retainedCount c + 1,
          ct_members := Some (gm_set i d members), ct_owned := ct_owned c @ [i]\<rparr>, k))"

definition mark_enrolled :: "('st, 'q, 'p) cat_codec \<Rightarrow> member_io \<Rightarrow> string \<Rightarrow> ('st, 'q) Durable \<Rightarrow>
    ('st, 'q, 'p) Catalogue \<times> ('st, 'q, 'p) catalogue_disk \<Rightarrow>
    ('st, 'q) Durable result \<times> ('st, 'q, 'p) Catalogue \<times> ('st, 'q, 'p) catalogue_disk" where
  "mark_enrolled cc io i d ck =
     (let (c, k) = ck; unenrolled = filter (\<lambda>j. j \<noteq> i) (ct_unenrolled c) in
      case saveMembers cc (mi_inventory io) (ct_binding c) (ct_memberIDs c) unenrolled k of
        (Inl e, k) \<Rightarrow> (Inl e, c\<lparr>ct_degraded := True\<rparr>, k)
      | (Inr _, k) \<Rightarrow> (Inr d, c\<lparr>ct_unenrolled := unenrolled\<rparr>, k))"

definition retainMember :: "('st, 'q, 'p) cat_codec \<Rightarrow> member_io \<Rightarrow> string \<Rightarrow> bool \<Rightarrow>
    ('st, 'q, 'p) Catalogue \<times> ('st, 'q, 'p) catalogue_disk \<Rightarrow>
    ('st, 'q) Durable result \<times> ('st, 'q, 'p) Catalogue \<times> ('st, 'q, 'p) catalogue_disk" where
  "retainMember cc io i enroll ck =
     (case ct_members (fst ck) of
        None \<Rightarrow> (Inl (Errorf ''member enrollment is unavailable or identity is invalid''), ck)
      | Some members \<Rightarrow>
          if ct_degraded (fst ck) \<or> \<not> valid_member_id i
          then (Inl (Errorf ''member enrollment is unavailable or identity is invalid''), ck)
          else case gm_get members i of
            Some d \<Rightarrow> if enroll \<and> i \<in> set (ct_unenrolled (fst ck)) then mark_enrolled cc io i d ck else (Inr d, ck)
          | None \<Rightarrow>
              if ct_retainedCount (fst ck) \<ge> ct_memberLimit (fst ck)
              then (Inl (Errorf ''retained member capacity exhausted; eviction is unsupported''), ck)
              else (case member_root io ck of
                (Inl e, ck) \<Rightarrow> (Inl e, ck)
              | (Inr _, ck) \<Rightarrow>
                  (case provision_member cc io i ck of
                     (Inl e, ck) \<Rightarrow> (Inl e, ck)
                   | (Inr d, ck) \<Rightarrow> register_member cc io i enroll d members ck)))"

definition EnrollMember where "EnrollMember cc io i = retainMember cc io i True"
definition RetainMember where "RetainMember cc io i = retainMember cc io i False"

section \<open>Members survive and are bounded\<close>

definition inventory_reads :: "('st, 'q, 'p) cat_codec \<Rightarrow> SourceBinding \<Rightarrow> ('st, 'q, 'p) catalogue_disk \<Rightarrow> string list \<Rightarrow> string list \<Rightarrow> bool" where
  "inventory_reads cc b k ids marks \<longleftrightarrow> (\<exists>file. kd_inventory k = Holds file \<and> sm_Version file = 1 \<and> sm_Binding file = membersBinding b
     \<and> sm_Rundowns file = Some ids \<and> sm_Unenrolled file = marks \<and> length ids \<le> MaxSourceMembers
     \<and> sm_Digest file = ca_members_digest cc (file\<lparr>sm_Digest := []\<rparr>))"

text \<open>The inventory on disk is one that \<open>OpenMembers\<close> accepts, if the members' own checkpoints can be read.\<close>

definition members_on_disk :: "('st, 'q, 'p) cat_codec \<Rightarrow> SourceBinding \<Rightarrow> ('st, 'q, 'p) catalogue_disk \<Rightarrow> string list \<Rightarrow> string list \<Rightarrow> bool" where
  "members_on_disk cc b k ids marks \<longleftrightarrow> inventory_reads cc b k ids marks \<and> distinct ids
     \<and> (\<forall>i\<in>set ids. valid_member_id i \<and> checkMemberPath i k = Inr ())
     \<and> length ids \<le> member_limit b \<and> distinct marks \<and> set marks \<subseteq> set ids"

text \<open>
  The members in memory and the inventory on disk. A degraded catalogue may have written one member or mark
  more than it knows of; it never has written less.
\<close>

definition members_inv :: "('st, 'q, 'p) cat_codec \<Rightarrow> ('st, 'q, 'p) Catalogue \<times> ('st, 'q, 'p) catalogue_disk \<Rightarrow> bool" where
  "members_inv cc ck \<longleftrightarrow> (let c = fst ck in case ct_members c of
      None \<Rightarrow> True
    | Some members \<Rightarrow> fst ` set members = set (ct_memberIDs c) \<and> distinct (ct_unenrolled c)
        \<and> set (ct_unenrolled c) \<subseteq> set (ct_memberIDs c) \<and> length (ct_memberIDs c) \<le> ct_retainedCount c
        \<and> ct_retainedCount c \<le> ct_memberLimit c \<and> ct_memberLimit c = member_limit (ct_binding c)
        \<and> (\<exists>ids marks. members_on_disk cc (ct_binding c) (snd ck) ids marks \<and> prefix (ct_memberIDs c) ids
            \<and> (\<not> ct_degraded c \<longrightarrow> ids = ct_memberIDs c \<and> set marks = set (ct_unenrolled c))))"

lemma read_inventory_reads: "inventory_reads cc b k ids marks \<Longrightarrow> read_inventory cc io b k = (Inr (ids, marks), k)"
  by (auto simp: inventory_reads_def read_inventory_def)

lemma member_limit_le: "member_limit b \<le> MaxSourceMembers"
  by (simp add: member_limit_def MaxSourceMembers_def)

lemma checkMemberPath_iff:
  "checkMemberPath i k = Inr () \<longleftrightarrow> is_directory (kd_root k) \<and> is_directory (entry_at (kd_dirs k) i)"
  by (simp add: checkMemberPath_def)

lemma saved_inventory:
  assumes "length ids \<le> member_limit b" "distinct ids" "set un \<subseteq> set ids" "distinct un"
    and "\<forall>i\<in>set ids. valid_member_id i \<and> checkMemberPath i k = Inr ()"
    and run: "saveMembers cc io b ids un k = (r, k')"
  shows "k' = k \<and> r \<noteq> Inr () \<or> (\<exists>marks. members_on_disk cc b k' ids marks \<and> set marks = set un)"
proof (cases "io = NotReplaced")
  case True
  then show ?thesis using run by (auto simp: saveMembers_def replaced_def save_error_def)
next
  case False
  then have "k' = k\<lparr>kd_inventory := Holds (inventory_file cc b ids un)\<rparr>"
    using run by (simp add: saveMembers_def replaced_def)
  then have "members_on_disk cc b k' ids (filter (\<lambda>i. i \<in> set un) ids)"
    using assms(1-5) member_limit_le [of b]
    by (simp add: members_on_disk_def inventory_reads_def inventory_file_def Let_def checkMemberPath_iff)
  moreover have "set (filter (\<lambda>i. i \<in> set un) ids) = set un" using assms(3) by auto
  ultimately show ?thesis by blast
qed

lemma members_on_disk_keep:
  assumes "members_on_disk cc b k ids marks" "kd_inventory k' = kd_inventory k"
    and "is_directory (kd_root k) \<Longrightarrow> is_directory (kd_root k')"
    and "\<And>i. is_directory (entry_at (kd_dirs k) i) \<Longrightarrow> is_directory (entry_at (kd_dirs k') i)"
  shows "members_on_disk cc b k' ids marks"
  using assms by (auto simp: members_on_disk_def inventory_reads_def checkMemberPath_iff)

lemma member_root_keeps:
  assumes "member_root io (c, k) = (r, c', k')"
  shows "c' = c \<and> (r = Inr () \<longrightarrow> is_directory (kd_root k')) \<or> c' = c\<lparr>ct_degraded := True\<rparr> \<and> r \<noteq> Inr ()"
    and "kd_inventory k' = kd_inventory k" "kd_dirs k' = kd_dirs k" "is_directory (kd_root k) \<Longrightarrow> is_directory (kd_root k')"
  using assms by (auto simp: member_root_def is_directory_def split: entry.splits if_splits)

lemma install_member_keeps:
  assumes "install_member cc io i f (c, k) = (r, c', k')"
  shows "c' = c \<and> (\<forall>d. r = Inr d \<longrightarrow> is_directory (entry_at (kd_dirs k') i)) \<or> c' = c\<lparr>ct_degraded := True\<rparr> \<and> isl r"
    and "kd_inventory k' = kd_inventory k" "kd_root k' = kd_root k"
    and "is_directory (entry_at (kd_dirs k) j) \<Longrightarrow> is_directory (entry_at (kd_dirs k') j)"
  using assms by (auto simp: install_member_def Let_def is_directory_def split: if_splits prod.splits sum.splits)

lemma make_stage_keeps:
  "kd_inventory (make_stage io i k) = kd_inventory k" "kd_root (make_stage io i k) = kd_root k" "kd_dirs (make_stage io i k) = kd_dirs k"
  by (simp_all add: make_stage_def)

lemma stage_member_keeps:
  assumes "stage_member cc io i (c, k) = (r, c', k')"
  shows "c' = c \<and> (\<forall>d. r = Inr d \<longrightarrow> is_directory (entry_at (kd_dirs k') i)) \<or> c' = c\<lparr>ct_degraded := True\<rparr> \<and> isl r"
    and "kd_inventory k' = kd_inventory k" "kd_root k' = kd_root k"
    and "is_directory (entry_at (kd_dirs k) j) \<Longrightarrow> is_directory (entry_at (kd_dirs k') j)"
  using assms install_member_keeps [of cc io i _ c "make_stage io i k" r c' k']
  by (auto simp: stage_member_def Let_def make_stage_keeps split: entry.splits)

lemma provision_member_keeps:
  assumes "provision_member cc io i (c, k) = (r, c', k')"
  shows "c' = c \<and> (\<forall>d. r = Inr d \<longrightarrow> is_directory (entry_at (kd_dirs k') i)) \<or> c' = c\<lparr>ct_degraded := True\<rparr> \<and> isl r"
    and "kd_inventory k' = kd_inventory k" "kd_root k' = kd_root k"
    and "is_directory (entry_at (kd_dirs k) j) \<Longrightarrow> is_directory (entry_at (kd_dirs k') j)"
proof -
  have "isl (resume_member cc io i (ct_binding c) k) \<or> is_directory (entry_at (kd_dirs k) i)"
    by (auto simp: resume_member_def checkMemberPath_def split: if_splits)
  then show "c' = c \<and> (\<forall>d. r = Inr d \<longrightarrow> is_directory (entry_at (kd_dirs k') i)) \<or> c' = c\<lparr>ct_degraded := True\<rparr> \<and> isl r"
    and "kd_inventory k' = kd_inventory k" "kd_root k' = kd_root k"
    and "is_directory (entry_at (kd_dirs k) j) \<Longrightarrow> is_directory (entry_at (kd_dirs k') j)"
    using assms stage_member_keeps [of cc io i c k r c' k']
    by (auto simp: provision_member_def split: entry.splits)
qed

lemma members_invD:
  assumes "members_inv cc (c, k)" "ct_members c = Some members" "\<not> ct_degraded c"
  obtains marks where "fst ` set members = set (ct_memberIDs c)" "distinct (ct_unenrolled c)"
    "length (ct_memberIDs c) \<le> ct_retainedCount c" "ct_retainedCount c \<le> ct_memberLimit c"
    "ct_memberLimit c = member_limit (ct_binding c)"
    "members_on_disk cc (ct_binding c) k (ct_memberIDs c) marks" "set marks = set (ct_unenrolled c)"
  using assms by (auto simp: members_inv_def)

lemma members_inv_degraded:
  assumes "members_inv cc (c, k)" "members_on_disk cc (ct_binding c) k' ids marks" "prefix (ct_memberIDs c) ids"
  shows "members_inv cc (c\<lparr>ct_degraded := True\<rparr>, k')"
  using assms by (auto simp: members_inv_def Let_def split: option.splits)

lemma members_inv_disk:
  assumes "members_inv cc (c, k)" "\<And>ids marks. members_on_disk cc (ct_binding c) k ids marks \<Longrightarrow> members_on_disk cc (ct_binding c) k' ids marks"
  shows "members_inv cc (c, k')" "members_inv cc (c\<lparr>ct_degraded := True\<rparr>, k')"
proof -
  show "members_inv cc (c, k')" using assms unfolding members_inv_def Let_def fst_conv snd_conv
    by (cases "ct_members c") (simp_all, blast)
  show "members_inv cc (c\<lparr>ct_degraded := True\<rparr>, k')" using assms unfolding members_inv_def Let_def fst_conv snd_conv
    by (cases "ct_members c") (simp_all, blast)
qed

lemma mark_enrolled_inv:
  assumes inv: "members_inv cc (c, k)" and c: "ct_members c = Some members" "\<not> ct_degraded c"
    and run: "mark_enrolled cc io i d (c, k) = (r, c', k')"
  shows "members_inv cc (c', k')"
proof -
  let ?un = "filter (\<lambda>j. j \<noteq> i) (ct_unenrolled c)"
  obtain sr k1 where sv: "saveMembers cc (mi_inventory io) (ct_binding c) (ct_memberIDs c) ?un k = (sr, k1)" by (metis prod.exhaust)
  from inv c obtain marks where m: "fst ` set members = set (ct_memberIDs c)" "distinct (ct_unenrolled c)"
    "length (ct_memberIDs c) \<le> ct_retainedCount c" "ct_retainedCount c \<le> ct_memberLimit c"
    "ct_memberLimit c = member_limit (ct_binding c)"
    "members_on_disk cc (ct_binding c) k (ct_memberIDs c) marks" "set marks = set (ct_unenrolled c)" by (rule members_invD)
  have "k1 = k \<and> sr \<noteq> Inr () \<or> (\<exists>marks. members_on_disk cc (ct_binding c) k1 (ct_memberIDs c) marks \<and> set marks = set ?un)"
    by (rule saved_inventory [OF _ _ _ _ _ sv]) (use m in \<open>auto simp: members_on_disk_def\<close>)
  then show ?thesis
  proof (elim disjE conjE exE)
    assume "k1 = k" "sr \<noteq> Inr ()"
    then show ?thesis using run sv m(6) members_inv_degraded [OF inv, of k] by (cases sr) (auto simp: mark_enrolled_def Let_def)
  next
    fix marks' assume disk: "members_on_disk cc (ct_binding c) k1 (ct_memberIDs c) marks'" "set marks' = set ?un"
    have "members_inv cc (c\<lparr>ct_degraded := True\<rparr>, k1)" by (rule members_inv_degraded [OF inv disk(1)]) simp
    moreover have "set ?un \<subseteq> set (ct_memberIDs c)" using disk by (simp add: members_on_disk_def)
    then have "members_inv cc (c\<lparr>ct_unenrolled := ?un\<rparr>, k1)"
      unfolding members_inv_def Let_def
      using m disk c by (simp del: set_filter) (rule exI [of _ marks'], simp)
    ultimately show ?thesis using run sv by (cases sr) (auto simp: mark_enrolled_def Let_def)
  qed
qed

lemma register_member_inv:
  assumes inv: "members_inv cc (c, k)" and c: "ct_members c = Some members" "\<not> ct_degraded c"
    and new: "valid_member_id i" "gm_get members i = None" "ct_retainedCount c < ct_memberLimit c" "checkMemberPath i k = Inr ()"
    and run: "register_member cc io i enroll d members (c, k) = (r, c', k')"
  shows "members_inv cc (c', k')"
proof -
  let ?ids = "ct_memberIDs c @ [i]" and ?un = "if enroll then ct_unenrolled c else ct_unenrolled c @ [i]"
  obtain sr k1 where sv: "saveMembers cc (mi_inventory io) (ct_binding c) ?ids ?un k = (sr, k1)" by (metis prod.exhaust)
  from inv c obtain marks where m: "fst ` set members = set (ct_memberIDs c)" "distinct (ct_unenrolled c)"
    "length (ct_memberIDs c) \<le> ct_retainedCount c" "ct_retainedCount c \<le> ct_memberLimit c"
    "ct_memberLimit c = member_limit (ct_binding c)"
    "members_on_disk cc (ct_binding c) k (ct_memberIDs c) marks" "set marks = set (ct_unenrolled c)" by (rule members_invD)
  have i: "i \<notin> set (ct_memberIDs c)" using m(1) new(2) by (metis map_of_eq_None_iff)
  have sub: "set (ct_unenrolled c) \<subseteq> set (ct_memberIDs c)" using m(6,7) by (simp add: members_on_disk_def)
  have "k1 = k \<and> sr \<noteq> Inr () \<or> (\<exists>marks. members_on_disk cc (ct_binding c) k1 ?ids marks \<and> set marks = set ?un)"
  proof (rule saved_inventory [OF _ _ _ _ _ sv])
    show "distinct ?un" "set ?un \<subseteq> set ?ids" using m(2) i sub by auto
    show "length ?ids \<le> member_limit (ct_binding c)" using m(3,5) new(3) by simp
    show "distinct ?ids" "\<forall>i\<in>set ?ids. valid_member_id i \<and> checkMemberPath i k = Inr ()"
      using m(6) i new by (auto simp: members_on_disk_def)
  qed
  then show ?thesis
  proof (elim disjE conjE exE)
    assume "k1 = k" "sr \<noteq> Inr ()"
    then show ?thesis using run sv m(6) members_inv_degraded [OF inv, of k] by (cases sr) (auto simp: register_member_def Let_def)
  next
    fix marks' assume disk: "members_on_disk cc (ct_binding c) k1 ?ids marks'" "set marks' = set ?un"
    have "members_inv cc (c\<lparr>ct_degraded := True\<rparr>, k1)" by (rule members_inv_degraded [OF inv disk(1)]) simp
    moreover have "members_inv cc (c\<lparr>ct_memberIDs := ?ids, ct_unenrolled := ?un, ct_retainedCount := ct_retainedCount c + 1,
        ct_members := Some (gm_set i d members), ct_owned := ct_owned c @ [i]\<rparr>, k1)"
      unfolding members_inv_def Let_def
      using m new(3) disk c(2) i sub by (simp add: dom_update) (intro conjI exI [of _ marks'], auto)
    ultimately show ?thesis using run sv by (cases sr) (auto simp: register_member_def Let_def)
  qed
qed

lemma retainMember_inv:
  assumes inv: "members_inv cc (c, k)" and run: "retainMember cc io i enroll (c, k) = (r, c', k')"
  shows "members_inv cc (c', k')"
proof (cases "ct_members c")
  case None
  then show ?thesis using inv run by (auto simp: retainMember_def)
next
  case (Some members)
  note c = this
  show ?thesis
  proof (cases "ct_degraded c \<or> \<not> valid_member_id i \<or> gm_get members i \<noteq> None \<or> ct_retainedCount c \<ge> ct_memberLimit c")
    case True
    then show ?thesis using inv run c mark_enrolled_inv [OF inv c]
      by (auto simp: retainMember_def split: if_splits option.splits)
  next
    case False
    obtain r1 c1 k1 where root: "member_root io (c, k) = (r1, c1, k1)" by (metis prod.exhaust)
    note R = member_root_keeps [OF root]
    have disk1: "members_on_disk cc b k ids marks \<Longrightarrow> members_on_disk cc b k1 ids marks" for b ids marks
      using R by (auto intro: members_on_disk_keep)
    show ?thesis
    proof (cases r1)
      case (Inl e)
      then show ?thesis using run c False root R(1) members_inv_disk [OF inv disk1] by (auto simp: retainMember_def)
    next
      case (Inr u)
      have c1: "c1 = c" "is_directory (kd_root k1)" using R(1) Inr by auto
      obtain r2 c2 k2 where prov: "provision_member cc io i (c, k1) = (r2, c2, k2)" by (metis prod.exhaust)
      note P = provision_member_keeps [OF prov]
      have disk2: "members_on_disk cc b k ids marks \<Longrightarrow> members_on_disk cc b k2 ids marks" for b ids marks
        using P disk1 by (metis members_on_disk_keep)
      show ?thesis
      proof (cases r2)
        case (Inl e)
        then show ?thesis using run c False root Inr c1 prov P(1) members_inv_disk [OF inv disk2] by (auto simp: retainMember_def)
      next
        case (Inr d)
        have c2: "c2 = c" "checkMemberPath i k2 = Inr ()" using P(1,3) Inr c1(2) by (auto simp: checkMemberPath_iff)
        have "register_member cc io i enroll d members (c, k2) = (r, c', k')"
          using run c False root \<open>r1 = Inr u\<close> c1 prov Inr c2(1) by (simp add: retainMember_def)
        from register_member_inv [OF members_inv_disk(1) [OF inv disk2] c _ _ _ _ c2(2) this]
        show ?thesis using False by simp
      qed
    qed
  qed
qed

lemma open_members_Cons:
  assumes "open_members cc sd b configured k (i # ids) members owned = Inr x"
  shows "valid_member_id i \<and> gm_get members i = None \<and> checkMemberPath i k = Inr ()
    \<and> (\<exists>d ow. open_members cc sd b configured k ids (gm_set i d members) ow = Inr x)"
proof -
  have first: "valid_member_id i" "gm_get members i = None" "checkMemberPath i k = Inr ()"
    using assms by (auto split: if_splits sum.splits)
  show ?thesis
  proof (cases "gm_get configured i")
    case None
    then show ?thesis using assms first by (auto split: sum.splits)
  next
    case (Some dp)
    then show ?thesis using assms first by (cases dp) (auto split: if_splits)
  qed
qed

lemma open_members_opened:
  assumes "open_members cc sd b configured k ids members owned = Inr (ms, ow)"
  shows "fst ` set ms = fst ` set members \<union> set ids \<and> distinct ids \<and> set ids \<inter> fst ` set members = {}
    \<and> (\<forall>i\<in>set ids. valid_member_id i \<and> checkMemberPath i k = Inr ())"
  using assms
proof (induction ids arbitrary: members owned)
  case (Cons i ids)
  from open_members_Cons [OF Cons(2)] obtain d ow' where i: "valid_member_id i" "gm_get members i = None" "checkMemberPath i k = Inr ()"
    and rest: "open_members cc sd b configured k ids (gm_set i d members) ow' = Inr (ms, ow)" by blast
  have "fst ` set (gm_set i d members) = {i} \<union> fst ` set members" by (simp add: dom_update)
  then show ?case using Cons(1) [OF rest] i by (auto simp: map_of_eq_None_iff)
qed auto

lemma open_members_reopens:
  assumes "\<forall>i\<in>set ids. valid_member_id i \<and> checkMemberPath i k = Inr () \<and> reopen cc (sd i) (MemberBinding b i) (member_file k i) = Inr (d i)"
    and "distinct ids" "\<forall>i\<in>set ids. gm_get members i = None"
  shows "\<exists>ms. open_members cc sd b [] k ids members owned = Inr (ms, owned @ ids)
    \<and> (\<forall>i. gm_get ms i = (if i \<in> set ids then Some (d i) else gm_get members i))"
  using assms
proof (induction ids arbitrary: members owned)
  case (Cons i ids)
  have "\<exists>ms. open_members cc sd b [] k ids (gm_set i (d i) members) (owned @ [i]) = Inr (ms, (owned @ [i]) @ ids)
    \<and> (\<forall>j. gm_get ms j = (if j \<in> set ids then Some (d j) else gm_get (gm_set i (d i) members) j))"
    using Cons(2-4) by (intro Cons(1)) (auto simp: gm_get_set)
  then show ?case using Cons(2-4) by (auto simp: gm_get_set)
qed simp

lemma read_inventory_result:
  assumes "read_inventory cc io b k = (Inr (ids, marks), k')"
  shows "inventory_reads cc b k' ids marks" "kd_root k' = kd_root k" "kd_dirs k' = kd_dirs k"
  using assms
  by (auto simp: read_inventory_def inventory_reads_def saveMembers_def save_error_def replaced_def inventory_file_def Let_def
      split: disk.splits if_splits option.splits save_outcome.splits)

lemma retained_total_ge: "distinct ids \<Longrightarrow> length ids \<le> retained_total configured ids"
proof -
  assume "distinct ids"
  then have "length (filter (\<lambda>i. gm_get configured i \<noteq> None) ids) = card (set ids \<inter> fst ` set configured)"
    by (subst distinct_card [symmetric]) (auto intro!: arg_cong [of _ _ card] simp: map_of_eq_None_iff)
  also have "\<dots> \<le> length configured"
    by (metis card_length card_mono finite_set inf_le2 length_map list.set_map order_trans)
  finally show ?thesis
    using sum_length_filter_compl [of "\<lambda>i. gm_get configured i = None" ids] by (simp add: retained_total_def)
qed

lemma OpenMembers_inv:
  assumes inv: "members_inv cc (c, k)" and run: "OpenMembers cc io sd configured (c, k) = (r, c', k')"
  shows "members_inv cc (c', k')"
proof (cases r)
  case (Inl e)
  have "c' = c \<and> (ct_members c = None \<or> k' = k)"
    using run Inl by (auto simp: OpenMembers_def Let_def split: if_splits prod.splits sum.splits)
  then show ?thesis using inv by (auto simp: members_inv_def)
next
  case (Inr members)
  let ?b = "ct_binding c"
  obtain ids marks owned where k': "read_inventory cc io ?b k = (Inr (ids, marks), k')"
    and open_: "open_members cc sd ?b configured k' ids [] [] = Inr (members, owned)"
    and total: "retained_total configured ids \<le> member_limit ?b" and marks: "distinct marks" "list_all (\<lambda>i. gm_get members i \<noteq> None) marks"
    and c': "c' = c\<lparr>ct_members := Some members, ct_memberIDs := ids, ct_owned := owned, ct_unenrolled := marks,
                ct_memberLimit := member_limit ?b, ct_retainedCount := retained_total configured ids\<rparr>"
    using run Inr by (auto simp: OpenMembers_def Let_def split: if_splits prod.splits sum.splits)
  note O = open_members_opened [OF open_]
  have sub: "set marks \<subseteq> set ids" using marks(2) O by (auto simp: list_all_iff map_of_eq_None_iff)
  have len: "length ids \<le> retained_total configured ids" using O by (simp add: retained_total_ge)
  have "members_on_disk cc ?b k' ids marks"
    using sub len read_inventory_result(1) [OF k'] O total marks(1) by (simp add: members_on_disk_def)
  then show ?thesis
    using c' O total marks(1) len sub by (auto simp: members_inv_def)
qed

section \<open>Runs of a catalogue\<close>

text \<open>
  A process opens a catalogue on whatever the disk holds, opens its members, retains and enrolls members,
  commits listings and lets members write their own checkpoints, with any outcome of the file operations.
\<close>

inductive catalogue_run :: "('st, 'q, 'p) cat_codec \<Rightarrow> ('st, 'q, 'p) Catalogue \<Rightarrow> ('st, 'q, 'p) catalogue_disk \<Rightarrow> bool" for cc where
  opened: "OpenCatalogue cc io cd b initialize (kd_catalogue k) = (Inr c, f) \<Longrightarrow> catalogue_run cc c (k\<lparr>kd_catalogue := f\<rparr>)"
| members: "catalogue_run cc c k \<Longrightarrow> OpenMembers cc io sd configured (c, k) = (r, c', k') \<Longrightarrow> catalogue_run cc c' k'"
| retain: "catalogue_run cc c k \<Longrightarrow> retainMember cc mio i enroll (c, k) = (r', c', k') \<Longrightarrow> catalogue_run cc c' k'"
| commit: "catalogue_run cc c k \<Longrightarrow> catalogue_Commit cc io apply (c, kd_catalogue k) = (u, c', f) \<Longrightarrow>
    catalogue_run cc c' (k\<lparr>kd_catalogue := f\<rparr>)"
| written: "catalogue_run cc c k \<Longrightarrow> is_directory (entry_at (kd_dirs k) i) \<Longrightarrow>
    catalogue_run cc c (k\<lparr>kd_dirs := gm_set i (Directory mf) (kd_dirs k)\<rparr>)"
| closed: "catalogue_run cc c k \<Longrightarrow> catalogue_run cc (catalogue_Close c) k"

lemma OpenCatalogue_opened:
  "OpenCatalogue cc io cd b initialize f = (Inr c, f') \<Longrightarrow> \<exists>st. c = opened_catalogue b st"
  by (auto simp: OpenCatalogue_def read_catalogue_def catalogue_save_def
      split: sum.splits disk.splits if_splits)

lemma catalogue_Commit_members:
  assumes "catalogue_Commit cc io apply (c, f) = (u, c', f')"
  shows "c' = c \<or> c' = c\<lparr>ct_degraded := True\<rparr> \<or> (\<exists>st. c' = c\<lparr>ct_state := st\<rparr>)"
  using assms by (auto simp: catalogue_Commit_def Let_def split: if_splits sum.splits prod.splits)

lemma members_inv_catalogue_file: "members_inv cc (c, k) \<Longrightarrow> members_inv cc (c, k\<lparr>kd_catalogue := f\<rparr>)"
  by (erule members_inv_disk(1)) (auto elim!: members_on_disk_keep)

lemma keys_of_map: "fst ` set (map (\<lambda>(i, d). (i, g i d)) ms) = fst ` set ms"
  by (force simp: image_iff)

lemma members_inv_close: "members_inv cc (c, k) \<Longrightarrow> members_inv cc (catalogue_Close c, k)"
  unfolding members_inv_def Let_def catalogue_Close_def
  by (cases "ct_members c") (auto simp: keys_of_map simp del: set_map)

lemma members_inv_state: "members_inv cc (c\<lparr>ct_state := st\<rparr>, k) = members_inv cc (c, k)"
  by (cases "ct_members c") (simp_all add: members_inv_def Let_def)

lemma catalogue_run_inv: "catalogue_run cc c k \<Longrightarrow> members_inv cc (c, k)"
proof (induction rule: catalogue_run.induct)
  case (opened io cd b initialize k c f)
  then show ?case by (auto dest!: OpenCatalogue_opened simp: members_inv_def opened_catalogue_def)
next
  case (commit c k io ap u c' f)
  have "members_inv cc (c, k\<lparr>kd_catalogue := f\<rparr>)" "members_inv cc (c\<lparr>ct_degraded := True\<rparr>, k\<lparr>kd_catalogue := f\<rparr>)"
    using members_inv_catalogue_file [OF commit.IH] members_inv_disk(2) by blast+
  then show ?case using catalogue_Commit_members [OF commit.hyps(2)] by (auto simp: members_inv_state)
next
  case (written c k i mf)
  show ?case by (rule members_inv_disk(1) [OF written.IH]) (auto elim!: members_on_disk_keep simp: is_directory_def)
qed (auto intro: OpenMembers_inv retainMember_inv members_inv_close)

text \<open>
  C10. A source never retains more rundown stores than its capacity, 512 for a version 2 destination and 100
  otherwise, in any run and with any failures of the disk; each retained store has an identity of its own and
  is in the inventory, which the next process opens.
\<close>

theorem retained_members_bounded:
  assumes "catalogue_run cc c k" "ct_members c = Some members"
  shows "length (ct_memberIDs c) \<le> (if v2_destination (ct_binding c) then 512 else 100)
    \<and> distinct (ct_memberIDs c) \<and> fst ` set members = set (ct_memberIDs c) \<and> set (ct_unenrolled c) \<subseteq> set (ct_memberIDs c)"
proof -
  obtain ids marks where "members_on_disk cc (ct_binding c) k ids marks" "prefix (ct_memberIDs c) ids"
    using catalogue_run_inv [OF assms(1)] assms(2) by (auto simp: members_inv_def)
  then have "distinct (ct_memberIDs c)" by (auto simp: members_on_disk_def prefix_def)
  then show ?thesis using catalogue_run_inv [OF assms(1)] assms(2)
    by (auto simp: members_inv_def member_limit_def MaxSourceMembers_def)
qed

text \<open>
  C8. No retained rundown is lost in a restart. If every member directory holds a checkpoint that can be read,
  a new process that opens the members of the same source gets every member the old one had, with the checkpoint of
  that member's directory; and unless the old process had failed to write the inventory, it gets exactly those
  members, with the same ones marked as not enrolled.
\<close>

theorem members_survive_restart:
  assumes run: "catalogue_run cc c k" and opened: "ct_members c = Some members"
    and readable: "\<And>i. is_directory (entry_at (kd_dirs k) i) \<Longrightarrow>
      reopen cc (sd i) (MemberBinding (ct_binding c) i) (member_file k i) = Inr (d i)"
  shows "\<exists>members' c'. OpenMembers cc io sd [] (opened_catalogue (ct_binding c) st, k) = (Inr members', c', k)
    \<and> (\<forall>i\<in>set (ct_memberIDs c). gm_get members' i = Some (d i))
    \<and> (\<not> ct_degraded c \<longrightarrow> ct_memberIDs c' = ct_memberIDs c \<and> (\<forall>i. MemberUnenrolled c' i = MemberUnenrolled c i))"
proof -
  let ?b = "ct_binding c" and ?c = "opened_catalogue (ct_binding c) st"
  from catalogue_run_inv [OF run] opened obtain ids marks where disk: "members_on_disk cc ?b k ids marks"
    and ids: "prefix (ct_memberIDs c) ids" "\<not> ct_degraded c \<Longrightarrow> ids = ct_memberIDs c \<and> set marks = set (ct_unenrolled c)"
    by (auto simp: members_inv_def)
  have read: "read_inventory cc io ?b k = (Inr (ids, marks), k)"
    using disk by (auto simp: members_on_disk_def intro: read_inventory_reads)
  have "\<forall>i\<in>set ids. valid_member_id i \<and> checkMemberPath i k = Inr () \<and> reopen cc (sd i) (MemberBinding ?b i) (member_file k i) = Inr (d i)"
    using disk readable by (auto simp: members_on_disk_def checkMemberPath_iff)
  from open_members_reopens [OF this, of "[]" "[]"] disk
  obtain ms where ms: "open_members cc sd ?b [] k ids [] [] = Inr (ms, ids)" "\<forall>i. gm_get ms i = (if i \<in> set ids then Some (d i) else None)"
    by (auto simp: members_on_disk_def)
  have "length ids \<le> member_limit ?b" "distinct marks \<and> list_all (\<lambda>i. gm_get ms i \<noteq> None) marks"
    using disk ms(2) by (auto simp: members_on_disk_def list_all_iff)
  then have "OpenMembers cc io sd [] (?c, k) = (Inr ms, ?c\<lparr>ct_members := Some ms, ct_memberIDs := ids, ct_owned := ids, ct_unenrolled := marks,
                ct_memberLimit := member_limit ?b, ct_retainedCount := length ids\<rparr>, k)"
    using read ms(1) by (simp add: retained_total_def OpenMembers_def Let_def opened_catalogue_def)
  then show ?thesis using ms(2) ids set_mono_prefix [OF ids(1)] by (auto simp: MemberUnenrolled_def)
qed

text \<open>A new source that has refused a message for one rundown and enrolled another.\<close>

definition example_cat_codec :: "(unit, unit, unit) cat_codec" where
  "example_cat_codec = \<lparr>ca_version = (\<lambda>_. 1), ca_sourceID = (\<lambda>_. ''S''), ca_revision = (\<lambda>_. 1), ca_size = (\<lambda>_. 0),
     ca_digest = (\<lambda>_. ''d''), ca_members_digest = (\<lambda>_. ''m''), ca_member = example_codec\<rparr>"

definition set_binding :: SourceBinding where
  "set_binding = first_binding\<lparr>bnd_RundownID := [], bnd_Destination := ''http://127.0.0.1/v1/openmos-catalogue''\<rparr>"

definition usable_dir :: source_dir where
  "usable_dir = \<lparr>sd_given = True, sd_created = True, sd_locked = True, sd_catalogue = False, sd_legacy = False\<rparr>"

definition member_io_ok :: member_io where
  "member_io_ok = \<lparr>mi_mkdir_root = True, mi_sync_parent = True, mi_mkdir_stage = True, mi_dir = usable_dir, mi_open = Saved,
     mi_rename = True, mi_sync_root = True, mi_inventory = Saved\<rparr>"

definition empty_disk :: "(unit, unit, unit) catalogue_disk" where
  "empty_disk = \<lparr>kd_catalogue = Absent, kd_inventory = Absent, kd_root = NoEntry, kd_dirs = [], kd_stages = []\<rparr>"

definition example_members :: "(unit, unit, unit) Catalogue \<times> (unit, unit, unit) catalogue_disk" where
  "example_members =
     (let cc = example_cat_codec;
          opened = (opened_catalogue set_binding empty_catalogue, empty_disk\<lparr>kd_catalogue :=
            Holds (new_catalogue_file cc set_binding empty_catalogue)\<rparr>);
          with_members = snd (OpenMembers cc Saved (\<lambda>_. usable_dir) [] opened);
          refused = snd (retainMember cc member_io_ok ''R1'' False with_members)
      in snd (retainMember cc member_io_ok ''R2'' True refused))"

lemma example_members_run: "catalogue_run example_cat_codec (fst example_members) (snd example_members)"
proof -
  let ?cc = example_cat_codec
  have "OpenCatalogue ?cc Saved \<lparr>cd_given = True, cd_created = True, cd_foreign = False, cd_lockfile = True, cd_locked = True\<rparr>
      set_binding True (kd_catalogue empty_disk) = (Inr (opened_catalogue set_binding empty_catalogue),
      Holds (new_catalogue_file ?cc set_binding empty_catalogue))"
    by code_simp
  note r0 = catalogue_run.opened [OF this]
  have "catalogue_run ?cc (fst (snd (OpenMembers ?cc io sd configured ck))) (snd (snd (OpenMembers ?cc io sd configured ck)))"
    if "catalogue_run ?cc (fst ck) (snd ck)" for io sd configured and ck :: "(unit, unit, unit) Catalogue \<times> (unit, unit, unit) catalogue_disk"
    using catalogue_run.members [OF that, of io sd configured] by (metis prod.collapse)
  moreover have "catalogue_run ?cc (fst (snd (retainMember ?cc mio i enroll ck))) (snd (snd (retainMember ?cc mio i enroll ck)))"
    if "catalogue_run ?cc (fst ck) (snd ck)" for mio i enroll and ck :: "(unit, unit, unit) Catalogue \<times> (unit, unit, unit) catalogue_disk"
    using catalogue_run.retain [OF that, of mio i enroll] by (metis prod.collapse)
  ultimately show ?thesis unfolding example_members_def Let_def using r0 by simp
qed

lemma example_members_opened:
  "ct_members (fst example_members) = Some [(''R1'', committed_durable (MemberBinding set_binding ''R1'') newMemoryRepos empty_checkpoint),
     (''R2'', committed_durable (MemberBinding set_binding ''R2'') newMemoryRepos empty_checkpoint)]"
  "ct_memberIDs (fst example_members) = [''R1'', ''R2'']" "ct_unenrolled (fst example_members) = [''R1'']"
  "ct_binding (fst example_members) = set_binding" "ct_degraded (fst example_members) = False"
  by code_simp+

theorem retained_members_bounded_witness:
  "length (ct_memberIDs (fst example_members)) \<le> 100 \<and> ct_memberIDs (fst example_members) = [''R1'', ''R2'']"
proof -
  have "\<not> v2_destination (ct_binding (fst example_members))" by code_simp
  then show ?thesis
    using retained_members_bounded [OF example_members_run example_members_opened(1)] by (simp add: example_members_opened(2))
qed

lemma new_member_reopens:
  "reopen example_cat_codec usable_dir b (Holds (new_file example_codec b empty_snapshot empty_checkpoint)) =
     Inr (committed_durable b newMemoryRepos empty_checkpoint)"
proof -
  have "validateCheckpoint example_codec empty_checkpoint b = Inr ()" by (simp add: validateCheckpoint_def empty_checkpoint_def)
  from read_new_file [OF this new_repos_ok(1) empty_snapshot_taken] show ?thesis
    by (simp add: reopen_def OpenCommitted_def directory_check_def usable_dir_def example_cat_codec_def new_repos_ok(2))
qed

theorem members_survive_restart_witness:
  "\<exists>members' c'. OpenMembers example_cat_codec Saved (\<lambda>_. usable_dir) [] (opened_catalogue set_binding empty_catalogue, snd example_members)
       = (Inr members', c', snd example_members)
     \<and> ct_memberIDs c' = [''R1'', ''R2''] \<and> MemberUnenrolled c' ''R1'' \<and> \<not> MemberUnenrolled c' ''R2''"
proof -
  let ?k = "snd example_members" and ?d = "\<lambda>i. committed_durable (MemberBinding set_binding i) newMemoryRepos empty_checkpoint"
  have dirs: "map fst (kd_dirs ?k) = [''R1'', ''R2'']" by code_simp
  have "member_file ?k i = Holds (new_file example_codec (MemberBinding set_binding i) empty_snapshot empty_checkpoint)"
    if "i \<in> {''R1'', ''R2''}" for i
  proof -
    have "member_file ?k ''R1'' = Holds (new_file example_codec (MemberBinding set_binding ''R1'') empty_snapshot empty_checkpoint)"
      "member_file ?k ''R2'' = Holds (new_file example_codec (MemberBinding set_binding ''R2'') empty_snapshot empty_checkpoint)"
      by code_simp+
    then show ?thesis using that by blast
  qed
  then have "reopen example_cat_codec usable_dir (MemberBinding set_binding i) (member_file ?k i) = Inr (?d i)" if "i \<in> {''R1'', ''R2''}" for i
    using that new_member_reopens by metis
  moreover have "i \<in> {''R1'', ''R2''}" if "is_directory (entry_at (kd_dirs ?k) i)" for i
  proof (rule ccontr)
    assume "i \<notin> {''R1'', ''R2''}"
    then have "i \<notin> set (map fst (kd_dirs ?k))" unfolding dirs by simp
    then have "gm_get (kd_dirs ?k) i = None" unfolding set_map map_of_eq_None_iff .
    with that show False by (simp add: entry_at_def is_directory_def)
  qed
  ultimately have readable: "reopen example_cat_codec ((\<lambda>_. usable_dir) i) (MemberBinding (ct_binding (fst example_members)) i)
      (member_file ?k i) = Inr (?d i)" if "is_directory (entry_at (kd_dirs ?k) i)" for i
    using that unfolding example_members_opened(4) by blast
  from members_survive_restart [OF example_members_run example_members_opened(1) readable, of Saved empty_catalogue]
  obtain members' c' where "OpenMembers example_cat_codec Saved (\<lambda>_. usable_dir) [] (opened_catalogue set_binding empty_catalogue, ?k)
      = (Inr members', c', ?k)" "ct_memberIDs c' = [''R1'', ''R2'']" "\<forall>i. MemberUnenrolled c' i = MemberUnenrolled (fst example_members) i"
    unfolding example_members_opened by blast
  then show ?thesis by (auto simp only: MemberUnenrolled_def example_members_opened) simp_all
qed

end
