(* ===== verification/SourceSet.thy ===== *)
theory SourceSet
  imports Source Catalogue
begin

text \<open>
  A set of committed sources (\<open>src/internal/service/source_catalogue.go\<close> and
  \<open>source_catalogue_publisher.go\<close>): one source per rundown, and a catalogue that says which rundowns there
  are and whether that listing is complete.

  \<open>g.members\<close> and \<open>g.byRundown\<close> hold the same pointers, so they are one association list in the order of
  insertion. A member's store is the one inside its \<open>CommittedSource\<close>; the catalogue's entry for it is only
  read while it has none. An encoded catalogue is its value, and equal bytes are equal values. The join of
  errors is its first error. The mutex makes each operation one step; a delivery releases it, so it is two.
\<close>

section \<open>Data\<close>

record SourceCatalogueRundown =
  scr_ID :: string
  scr_Active :: bool
  scr_Label :: "string option"
  scr_ScheduledStart :: "string option"

record SourceCatalogue =
  scat_Version :: nat
  scat_SourceID :: string
  scat_Revision :: nat
  scat_Complete :: bool
  scat_Rundowns :: "SourceCatalogueRundown list"

type_synonym source_catalogue = "(sourceState, SourceSnapshot, SourceCatalogue) Catalogue"
type_synonym source_disk = "(sourceState, SourceSnapshot, SourceCatalogue) catalogue_disk"
type_synonym catalogue_cp = "SourceCatalogue CatalogueCheckpoint"

record CommittedSourceSet =
  ss_byRundown :: "CommittedSource gomap"
  ss_unenrolled :: "CommittedSource gomap"
  ss_catalogue :: source_catalogue
  ss_disk :: source_disk
  ss_binding :: SourceBinding
  ss_sessions :: "time gomap"
  ss_owners :: "string gomap"
  ss_wake :: bool
  ss_token :: string
  ss_timeout :: time
  ss_limit :: nat
  ss_enumerated :: "time option"

record set_env =
  sv_source :: source_env
  sv_url_Parse :: "string \<Rightarrow> parsed_url option"
  sv_cat_length :: "SourceCatalogue \<Rightarrow> nat"
  sv_cat_digest :: "SourceCatalogue catalogueFile \<Rightarrow> string"
  sv_members_digest :: "sourceMembersFile \<Rightarrow> string"

text \<open>How the file operations of one step end: the first and the second commit of the catalogue, the two of a message, and those per rundown.\<close>

record set_io =
  si_cat :: save_outcome
  si_cat' :: save_outcome
  si_apply :: commit_io
  si_apply' :: commit_io
  si_new :: "string \<Rightarrow> commit_io"
  si_inval :: "string \<Rightarrow> commit_io"
  si_retain :: "string \<Rightarrow> member_io"

definition set_codec :: "set_env \<Rightarrow> (sourceState, SourceSnapshot, SourceCatalogue) cat_codec" where
  "set_codec sv = \<lparr>ca_version = scat_Version, ca_sourceID = scat_SourceID, ca_revision = scat_Revision, ca_size = sv_cat_length sv,
     ca_digest = sv_cat_digest sv, ca_members_digest = sv_members_digest sv, ca_member = source_codec (sv_source sv)\<rparr>"

definition SourceCatalogueBinding :: "SourceBinding \<Rightarrow> SourceBinding" where
  "SourceCatalogueBinding b =
     (let b = b\<lparr>bnd_RundownID := []\<rparr> in
      if v2_destination b then b
      else b\<lparr>bnd_Destination := trim_suffix (bnd_Destination b) ''/v1/openmos-snapshots'' @ ''/v1/openmos-catalogue''\<rparr>)"

definition errors_Join :: "go_error option \<Rightarrow> go_error option \<Rightarrow> go_error option" where
  "errors_Join a b = (case a of None \<Rightarrow> b | Some _ \<Rightarrow> a)"

definition error_of :: "'a result \<Rightarrow> go_error option" where
  "error_of r = (case r of Inl e \<Rightarrow> Some e | Inr _ \<Rightarrow> None)"

section \<open>The catalogue\<close>

fun catalogue_rows :: "string list \<Rightarrow> SourceCatalogueRundown list \<Rightarrow> unit result" where
  "catalogue_rows seen [] = Inr ()"
| "catalogue_rows seen (ro # ros) =
     (if \<not> sourceText (scr_ID ro) 512 True \<or> scr_ID ro \<in> set seen
      then Inl (Errorf ''catalogue requires unique bounded rundown IDs'')
      else if \<not> optional_text (scr_Label ro) 512 \<or> \<not> optional_text (scr_ScheduledStart ro) 512
      then Inl (Errorf ''catalogue display field exceeds its bound'')
      else catalogue_rows (scr_ID ro # seen) ros)"

definition marshalCatalogue :: "set_env \<Rightarrow> SourceCatalogue \<Rightarrow> SourceCatalogue result" where
  "marshalCatalogue sv s =
     (if scat_Version s \<noteq> 1 \<and> scat_Version s \<noteq> 2 \<or> \<not> sourceText (scat_SourceID s) 512 True \<or> scat_Revision s = 0
        \<or> scat_Revision s > MaxSourceRevision \<or> scat_Version s = 1 \<and> length (scat_Rundowns s) > 100
      then Inl (Errorf ''invalid catalogue header or capacity'')
      else case catalogue_rows [] (scat_Rundowns s) of
        Inl e \<Rightarrow> Inl e
      | Inr _ \<Rightarrow> if scat_Version s = 1 \<and> sv_cat_length sv s > 64 * 1024 then Inl (Errorf ''catalogue exceeds 64 KiB'') else Inr s)"

definition proposed_catalogue :: "SourceBinding \<Rightarrow> nat \<Rightarrow> bool \<Rightarrow> SourceCatalogueRundown list \<Rightarrow> SourceCatalogue" where
  "proposed_catalogue b n complete rows = \<lparr>scat_Version = wire_version b, scat_SourceID = bnd_SourceID b, scat_Revision = n,
     scat_Complete = complete, scat_Rundowns = rows\<rparr>"

definition reviseCatalogue ::
    "set_env \<Rightarrow> SourceBinding \<Rightarrow> catalogue_cp \<Rightarrow> bool \<Rightarrow> SourceCatalogueRundown list \<Rightarrow> catalogue_cp result" where
  "reviseCatalogue sv b cp complete rows =
     (if cat_Halted cp then Inl errSourceHalted
      else case marshalCatalogue sv (proposed_catalogue b (if cat_Revision cp = 0 then 1 else cat_Revision cp) complete rows) of
        Inl e \<Rightarrow> Inl e
      | Inr raw \<Rightarrow>
          if cat_Pending cp = Some raw then Inr cp
          else if cat_Revision cp = MaxSourceRevision then Inl (Errorf ''catalogue revision exhausted; reset is unsupported'')
          else (case marshalCatalogue sv (proposed_catalogue b (cat_Revision cp + 1) complete rows) of
            Inl e \<Rightarrow> Inl e
          | Inr raw \<Rightarrow> Inr (cp\<lparr>cat_Pending := Some raw, cat_Revision := cat_Revision cp + 1\<rparr>)))"

definition suspendCatalogue :: "set_env \<Rightarrow> SourceBinding \<Rightarrow> SourceCatalogue catalogue_stage" where
  "suspendCatalogue sv b cp =
     reviseCatalogue sv b cp False (case cat_Pending cp of None \<Rightarrow> [] | Some p \<Rightarrow> scat_Rundowns p)"

definition commit_catalogue ::
    "set_env \<Rightarrow> save_outcome \<Rightarrow> SourceCatalogue catalogue_stage \<Rightarrow> CommittedSourceSet \<Rightarrow> unit result \<times> CommittedSourceSet" where
  "commit_catalogue sv io stage g =
     (case catalogue_Commit (set_codec sv) io stage (ss_catalogue g, kd_catalogue (ss_disk g)) of
        (r, c, f) \<Rightarrow> (r, g\<lparr>ss_catalogue := c, ss_disk := (ss_disk g)\<lparr>kd_catalogue := f\<rparr>\<rparr>))"

definition notifyCatalogue :: "CommittedSourceSet \<Rightarrow> CommittedSourceSet" where
  "notifyCatalogue g = g\<lparr>ss_wake := True\<rparr>"

definition invalidateCatalogue :: "set_env \<Rightarrow> save_outcome \<Rightarrow> CommittedSourceSet \<Rightarrow> unit result \<times> CommittedSourceSet" where
  "invalidateCatalogue sv io g =
     (case commit_catalogue sv io (suspendCatalogue sv (ss_binding g)) g of
        (Inl e, g) \<Rightarrow> (Inl e, g)
      | (Inr _, g) \<Rightarrow> (Inr (), notifyCatalogue (g\<lparr>ss_enumerated := None\<rparr>)))"

definition RetainsRundown :: "string \<Rightarrow> CommittedSourceSet \<Rightarrow> bool" where
  "RetainsRundown rundown g \<longleftrightarrow> gm_get (ss_byRundown g) rundown \<noteq> None"

definition CatalogueNeedsRefresh :: "time \<Rightarrow> CommittedSourceSet \<Rightarrow> bool" where
  "CatalogueNeedsRefresh t g = (case catalogue_Checkpoint (ss_catalogue g) of
      Inl _ \<Rightarrow> False
    | Inr cp \<Rightarrow> \<not> cat_Halted cp \<and> (case cat_Pending cp of
        None \<Rightarrow> False
      | Some p \<Rightarrow> \<not> scat_Complete p \<or> (case ss_enumerated g of None \<Rightarrow> True | Some l \<Rightarrow> t - l > ss_timeout g)))"

section \<open>Members\<close>

definition new_member ::
    "set_env \<Rightarrow> commit_io \<Rightarrow> CommittedSourceSet \<Rightarrow> (sourceState, SourceSnapshot) Durable \<Rightarrow>
     (sourceState, SourceSnapshot) checkpointFile disk \<Rightarrow> SourceBinding \<Rightarrow> CommittedSource result" where
  "new_member sv io g store f b = newCommittedSource (sv_source sv) io (sv_url_Parse sv) store f b (ss_token g) (ss_timeout g) True"

text \<open>A store whose first commit failed stays with the catalogue as that left it.\<close>

definition failed_member ::
    "set_env \<Rightarrow> commit_io \<Rightarrow> (sourceState, SourceSnapshot) Durable \<Rightarrow> (sourceState, SourceSnapshot) checkpointFile disk \<Rightarrow>
     SourceBinding \<Rightarrow> CommittedSourceSet \<Rightarrow> CommittedSourceSet" where
  "failed_member sv io store f b g =
     (case ValidateSourceBinding (sv_url_Parse sv) b of
        Inl _ \<Rightarrow> g
      | Inr _ \<Rightarrow>
          (let s = snd (invalidate (sv_source sv) io \<lparr>cs_store = store, cs_file = f, cs_binding = b, cs_timeout = ss_timeout g,
                 cs_sessions = [], cs_owners = [], cs_wake = False, cs_extended = True\<rparr>) in
           g\<lparr>ss_catalogue := (ss_catalogue g)\<lparr>ct_members := map_option (gm_set (bnd_RundownID b) (cs_store s)) (ct_members (ss_catalogue g))\<rparr>,
             ss_disk := (ss_disk g)\<lparr>kd_dirs := gm_set (bnd_RundownID b) (Directory (cs_file s)) (kd_dirs (ss_disk g))\<rparr>\<rparr>))"

definition fresh_session :: "time \<Rightarrow> CommittedSourceSet \<Rightarrow> string \<Rightarrow> bool" where
  "fresh_session t g session = (case gm_get (ss_sessions g) session of None \<Rightarrow> False | Some seen \<Rightarrow> t - seen \<le> ss_timeout g)"

definition join_session :: "time \<Rightarrow> CommittedSourceSet \<Rightarrow> string \<times> string \<Rightarrow> CommittedSource \<Rightarrow> CommittedSource" where
  "join_session t g so m = (let (scope, session) = so in
     case gm_get (ss_sessions g) session of
       None \<Rightarrow> m
     | Some seen \<Rightarrow> if t - seen \<le> ss_timeout g
         then m\<lparr>cs_owners := gm_set scope session (cs_owners m), cs_sessions := gm_set session seen (cs_sessions m)\<rparr> else m)"

definition addMember ::
    "set_env \<Rightarrow> commit_io \<Rightarrow> time \<Rightarrow> (sourceState, SourceSnapshot) Durable \<Rightarrow> (sourceState, SourceSnapshot) checkpointFile disk \<Rightarrow>
     SourceBinding \<Rightarrow> CommittedSourceSet \<Rightarrow> unit result \<times> CommittedSourceSet" where
  "addMember sv io t store f b g =
     (case (case gm_get (ss_unenrolled g) (bnd_RundownID b) of Some m \<Rightarrow> Inr m | None \<Rightarrow> new_member sv io g store f b) of
        Inl e \<Rightarrow> (Inl e, failed_member sv io store f b g)
      | Inr m \<Rightarrow> (Inr (), g\<lparr>ss_byRundown := gm_set (bnd_RundownID b) (fold (join_session t g) (ss_owners g) m) (ss_byRundown g),
          ss_unenrolled := gm_delete (bnd_RundownID b) (ss_unenrolled g)\<rparr>))"

definition retain_step ::
    "set_env \<Rightarrow> member_io \<Rightarrow> string \<Rightarrow> bool \<Rightarrow> CommittedSourceSet \<Rightarrow> (sourceState, SourceSnapshot) Durable result \<times> CommittedSourceSet" where
  "retain_step sv io rundown enroll g =
     (case retainMember (set_codec sv) io rundown enroll (ss_catalogue g, ss_disk g) of
        (r, c, k) \<Rightarrow> (r, g\<lparr>ss_catalogue := c, ss_disk := k\<rparr>))"

section \<open>Sessions\<close>

fun observe_members :: "set_env \<Rightarrow> set_io \<Rightarrow> time \<Rightarrow> SourceInput \<Rightarrow> CommittedSource gomap \<Rightarrow> go_error option \<times> CommittedSource gomap" where
  "observe_members sv io t input [] = (None, [])"
| "observe_members sv io t input ((k, m) # ms) =
     (case Observe (sv_source sv) (si_inval io k) t input m of
        (r, m) \<Rightarrow> (case observe_members sv io t input ms of
          (e, ms) \<Rightarrow> (errors_Join (if r = Inl errSourceHalted then None else error_of r) e, (k, m) # ms)))"

definition set_Observe :: "set_env \<Rightarrow> set_io \<Rightarrow> time \<Rightarrow> SourceInput \<Rightarrow> CommittedSourceSet \<Rightarrow> go_error option \<times> CommittedSourceSet" where
  "set_Observe sv io t input g =
     (case observe_members sv io t input (ss_byRundown g) of
        (er, ms) \<Rightarrow>
          (let g = g\<lparr>ss_byRundown := ms\<rparr>; owner = gm_string (ss_owners g) (in_Scope input);
               seen = gm_get (ss_sessions g) (in_Session input) in
           if in_Transport input \<noteq> bnd_Transport (ss_binding g) then (er, g)
           else if in_NCSID input \<noteq> bnd_NCSID (ss_binding g) then
             (if in_Session input \<noteq> [] \<and> owner = in_Session input
              then (case invalidateCatalogue sv (si_cat io) g of (r, g) \<Rightarrow> (errors_Join er (error_of r), g)) else (er, g))
           else if in_Session input = [] \<or> \<not> sourceText (in_Scope input) 512 True
           then (errors_Join er (Some (Errorf ''catalogue requires validated connection provenance'')), g)
           else if seen \<noteq> None \<and> owner \<noteq> in_Session input
           then (errors_Join er (Some (Errorf ''catalogue connection has been superseded'')), g)
           else if (case seen of None \<Rightarrow> True | Some l \<Rightarrow> t - l > ss_timeout g) then
             (case invalidateCatalogue sv (si_cat io) g of
                (Inl e, g) \<Rightarrow> (errors_Join er (Some e), g)
              | (Inr _, g) \<Rightarrow> (er, g\<lparr>ss_owners := gm_set (in_Scope input) (in_Session input) (ss_owners g),
                  ss_sessions := gm_set (in_Session input) t (ss_sessions g)\<rparr>))
           else (er, g\<lparr>ss_sessions := gm_set (in_Session input) t (ss_sessions g)\<rparr>)))"

definition map_members :: "(string \<Rightarrow> CommittedSource \<Rightarrow> CommittedSource) \<Rightarrow> CommittedSourceSet \<Rightarrow> CommittedSourceSet" where
  "map_members f g = g\<lparr>ss_byRundown := map (\<lambda>(k, m). (k, f k m)) (ss_byRundown g)\<rparr>"

definition set_RefreshSession :: "time \<Rightarrow> string \<Rightarrow> CommittedSourceSet \<Rightarrow> CommittedSourceSet" where
  "set_RefreshSession t session g =
     (let g = map_members (\<lambda>_. RefreshSession t session) g in
      if fresh_session t g session \<and> session \<in> set (gm_values (ss_owners g))
      then g\<lparr>ss_sessions := gm_set session t (ss_sessions g)\<rparr> else g)"

definition set_releaseSession :: "string \<Rightarrow> CommittedSourceSet \<Rightarrow> bool \<times> CommittedSourceSet" where
  "set_releaseSession session g =
     (session \<in> set (gm_values (ss_owners g)), g\<lparr>ss_owners := filter (\<lambda>(scope, owner). owner \<noteq> session) (ss_owners g)\<rparr>)"

definition set_Disconnected :: "set_env \<Rightarrow> set_io \<Rightarrow> string \<Rightarrow> CommittedSourceSet \<Rightarrow> CommittedSourceSet" where
  "set_Disconnected sv io session g =
     (let g = map_members (\<lambda>k. Disconnected (sv_source sv) (si_inval io k) session) g in
      case set_releaseSession session (g\<lparr>ss_sessions := gm_delete session (ss_sessions g)\<rparr>) of
        (owned, g) \<Rightarrow> if owned then snd (invalidateCatalogue sv (si_cat io) g) else g)"

definition set_Uncertain :: "set_env \<Rightarrow> set_io \<Rightarrow> string \<Rightarrow> CommittedSourceSet \<Rightarrow> CommittedSourceSet" where
  "set_Uncertain sv io session g =
     (let g = map_members (\<lambda>k. Uncertain (sv_source sv) (si_inval io k) session) g in
      if session \<in> set (gm_values (ss_owners g)) then snd (invalidateCatalogue sv (si_cat io) g) else g)"

section \<open>Messages\<close>

text \<open>A listing of all rundowns, or a message the single source knows.\<close>

datatype set_message = ListAll | ForRundown svc_message

definition is_listing :: "set_message \<Rightarrow> bool" where
  "is_listing m = (case m of ListAll \<Rightarrow> True | _ \<Rightarrow> False)"

definition is_roster :: "set_message \<Rightarrow> bool" where
  "is_roster m = (case m of ListAll \<Rightarrow> False | ForRundown msg \<Rightarrow> silent msg)"

definition set_rundown :: "set_message \<Rightarrow> string" where
  "set_rundown m = (case m of ListAll \<Rightarrow> [] | ForRundown msg \<Rightarrow> SourceRundown msg)"

definition set_reject :: "(string \<Rightarrow> string \<Rightarrow> string result) \<Rightarrow> set_message \<Rightarrow> string \<Rightarrow> SourceResult \<times> go_error option" where
  "set_reject render m reason =
     (if is_listing m \<or> is_roster m then (zero_SourceResult, Some (Errorf reason))
      else case render (set_rundown m) (''NACK: '' @ reason) of
        Inl e \<Rightarrow> (zero_SourceResult, Some e) | Inr reply \<Rightarrow> (zero_SourceResult\<lparr>sr_Reply := reply\<rparr>, None))"

definition set_outside :: "time \<Rightarrow> SourceInput \<Rightarrow> CommittedSourceSet \<Rightarrow> bool" where
  "set_outside t input g \<longleftrightarrow> in_Transport input \<noteq> bnd_Transport (ss_binding g) \<or> in_NCSID input \<noteq> bnd_NCSID (ss_binding g)
     \<or> in_Session input = [] \<or> \<not> fresh_session t g (in_Session input)
     \<or> gm_string (ss_owners g) (in_Scope input) \<noteq> in_Session input \<or> \<not> sourceText (in_Scope input) 512 True
     \<or> \<not> sourceText (in_MessageID input) (4 * 2 ^ 20) False \<or> in_Content input = [] \<or> length (in_Content input) > 6 * 2 ^ 20"

text \<open>\<open>response\<close> selects the answers to requests, which are recorded without a reply.\<close>

definition same_message :: "SourceInput \<Rightarrow> InputReceipt \<Rightarrow> bool" where
  "same_message input r \<longleftrightarrow> rcp_Scope r = in_Scope input \<and> rcp_NCSID r = in_NCSID input \<and> rcp_MessageID r = in_MessageID input"

definition receipt_conflict :: "SourceInput \<Rightarrow> bool \<Rightarrow> InputReceipt list \<Rightarrow> bool" where
  "receipt_conflict input response receipts \<longleftrightarrow>
     list_ex (\<lambda>r. same_message input r \<and> (rcp_Response r = []) = response) receipts"

fun cross_members :: "SourceInput \<Rightarrow> bool \<Rightarrow> CommittedSource gomap \<Rightarrow> bool result" where
  "cross_members input response [] = Inr False"
| "cross_members input response ((k, m) # ms) =
     (case Checkpoint (cs_store m) of
        Inl e \<Rightarrow> Inl e
      | Inr cp \<Rightarrow> if receipt_conflict input response (cp_Receipts cp) then Inr True else cross_members input response ms)"

definition set_target :: "string \<Rightarrow> CommittedSourceSet \<Rightarrow> CommittedSource option" where
  "set_target rundown g = (case gm_get (ss_byRundown g) rundown of Some m \<Rightarrow> Some m | None \<Rightarrow> gm_get (ss_unenrolled g) rundown)"

text \<open>Every member but the target.\<close>

definition other_members :: "string \<Rightarrow> CommittedSourceSet \<Rightarrow> CommittedSource gomap" where
  "other_members rundown g = filter (\<lambda>(k, _). k \<noteq> rundown) (ss_byRundown g) @
     (if RetainsRundown rundown g then ss_unenrolled g else filter (\<lambda>(k, _). k \<noteq> rundown) (ss_unenrolled g))"

definition crossReceipt :: "SourceInput \<Rightarrow> bool \<Rightarrow> string \<Rightarrow> CommittedSourceSet \<Rightarrow> bool result" where
  "crossReceipt input response rundown g =
     (if in_MessageID input = [] then Inr False
      else case cross_members input response (other_members rundown g) of
        Inl e \<Rightarrow> Inl e
      | Inr True \<Rightarrow> Inr True
      | Inr False \<Rightarrow>
          if set_target rundown g = None then Inr False
          else (case catalogue_Checkpoint (ss_catalogue g) of
            Inl e \<Rightarrow> Inl e
          | Inr cp \<Rightarrow> Inr (receipt_conflict input response (cat_Receipts cp))))"

definition catalogue_receipt :: "SourceInput \<Rightarrow> string \<Rightarrow> catalogue_cp \<Rightarrow> catalogue_cp" where
  "catalogue_receipt input hash cp =
     (if in_MessageID input = [] then cp
      else cp\<lparr>cat_Receipts := cat_Receipts cp @ [\<lparr>rcp_Scope = in_Scope input, rcp_NCSID = in_NCSID input,
        rcp_MessageID = in_MessageID input, rcp_Hash = hash, rcp_Response = []\<rparr>]\<rparr>)"

definition reject_stage :: "set_env \<Rightarrow> SourceBinding \<Rightarrow> SourceInput \<Rightarrow> string \<Rightarrow> SourceCatalogue catalogue_stage" where
  "reject_stage sv b input hash cp =
     (case suspendCatalogue sv b cp of
        Inl e \<Rightarrow> Inl e
      | Inr cp \<Rightarrow> Inr (catalogue_receipt input hash (cp\<lparr>cat_Raw := in_Content input\<rparr>)))"

definition rejectCatalogue ::
    "set_env \<Rightarrow> save_outcome \<Rightarrow> SourceInput \<Rightarrow> string \<Rightarrow> go_error \<Rightarrow> CommittedSourceSet \<Rightarrow> go_error option \<times> CommittedSourceSet" where
  "rejectCatalogue sv io input hash cause g =
     (case commit_catalogue sv io (reject_stage sv (ss_binding g) input hash) g of
        (r, g) \<Rightarrow> (errors_Join (Some cause) (error_of r), notifyCatalogue g))"

definition read_row :: "xml_node list \<Rightarrow> SourceCatalogueRundown" where
  "read_row ns = \<lparr>scr_ID = field ''roID'' ns, scr_Active = False, scr_Label = pointer_field ''roSlug'' ns,
     scr_ScheduledStart = pointer_field ''roEdStart'' ns\<rparr>"

fun listing_rows :: "string list \<Rightarrow> SourceCatalogueRundown list \<Rightarrow> SourceCatalogueRundown list result" where
  "listing_rows seen [] = Inr []"
| "listing_rows seen (ro # ros) =
     (if \<not> sourceText (scr_ID ro) 512 True \<or> scr_ID ro \<in> set seen
      then Inl (Errorf ''catalogue contains an invalid or repeated rundown identity'')
      else case listing_rows (scr_ID ro # seen) ros of
        Inl e \<Rightarrow> Inl e | Inr rows \<Rightarrow> Inr (ro\<lparr>scr_Active := True\<rparr> # rows))"

definition enroll_row :: "set_env \<Rightarrow> set_io \<Rightarrow> time \<Rightarrow> string \<Rightarrow> CommittedSourceSet \<Rightarrow> unit result \<times> CommittedSourceSet" where
  "enroll_row sv io t rundown g =
     (if RetainsRundown rundown g then (Inr (), g)
      else case retain_step sv (si_retain io rundown) rundown True g of
        (Inl e, g) \<Rightarrow> (Inl e, g)
      | (Inr store, g) \<Rightarrow> addMember sv (si_new io rundown) t store (member_file (ss_disk g) rundown)
          (MemberBinding (ct_binding (ss_catalogue g)) rundown) g)"

definition invalidate_member :: "set_env \<Rightarrow> set_io \<Rightarrow> string \<Rightarrow> CommittedSourceSet \<Rightarrow> unit result \<times> CommittedSourceSet" where
  "invalidate_member sv io rundown g =
     (case gm_get (ss_byRundown g) rundown of
        None \<Rightarrow> (Inr (), g)
      | Some m \<Rightarrow>
          (case invalidate (sv_source sv) (si_inval io rundown) m of
             (r, m) \<Rightarrow> (if r = Inl errSourceHalted then Inr () else r, g\<lparr>ss_byRundown := gm_set rundown m (ss_byRundown g)\<rparr>)))"

definition listing_stage :: "set_env \<Rightarrow> SourceBinding \<Rightarrow> SourceInput \<Rightarrow> string \<Rightarrow> SourceCatalogueRundown list \<Rightarrow> SourceCatalogue catalogue_stage" where
  "listing_stage sv b input hash rows cp =
     (case reviseCatalogue sv b (cp\<lparr>cat_Raw := in_Content input\<rparr>) True rows of
        Inl e \<Rightarrow> Inl e | Inr cp \<Rightarrow> Inr (catalogue_receipt input hash cp))"

definition changed_members :: "SourceCatalogueRundown list \<Rightarrow> SourceCatalogueRundown list \<Rightarrow> CommittedSourceSet \<Rightarrow> string list" where
  "changed_members rows prior g =
     filter (\<lambda>k. \<not> (k \<in> set (map scr_ID rows) \<and> k \<in> set (map scr_ID prior))) (map fst (ss_byRundown g))"

text \<open>Publishing the listing, once every rundown of it is a member.\<close>

definition accept_listing ::
    "set_env \<Rightarrow> set_io \<Rightarrow> time \<Rightarrow> SourceInput \<Rightarrow> string \<Rightarrow> SourceCatalogueRundown list \<Rightarrow> SourceCatalogue option \<Rightarrow> CommittedSourceSet \<Rightarrow>
     (bool \<times> go_error option) \<times> CommittedSourceSet" where
  "accept_listing sv io t input hash rows pending g =
     (case pending of
        None \<Rightarrow> (case rejectCatalogue sv (si_cat' io) input hash (Errorf ''decode catalogue'') g of (e, g) \<Rightarrow> ((False, e), g))
      | Some prior \<Rightarrow>
          (case op_foreach (invalidate_member sv io) (changed_members rows (scat_Rundowns prior) g) g of
             (Inl e, g) \<Rightarrow> (case rejectCatalogue sv (si_cat' io) input hash e g of (e, g) \<Rightarrow> ((False, e), g))
           | (Inr _, g) \<Rightarrow>
               (case commit_catalogue sv (si_cat io) (listing_stage sv (ss_binding g) input hash rows) g of
                  (Inl e, g) \<Rightarrow> (case rejectCatalogue sv (si_cat' io) input hash e g of (e, g) \<Rightarrow> ((False, e), g))
                | (Inr _, g) \<Rightarrow> ((True, None), notifyCatalogue (g\<lparr>ss_enumerated := Some t\<rparr>)))))"

text \<open>The whole listing is validated, and its members fit, before any member is provisioned.\<close>

definition checked_rows :: "set_env \<Rightarrow> SourceInput \<Rightarrow> catalogue_cp \<Rightarrow> CommittedSourceSet \<Rightarrow> SourceCatalogueRundown list result" where
  "checked_rows sv input cp g =
     (case se_children (sv_source sv) (in_Content input) of
        Inl e \<Rightarrow> Inl e
      | Inr ns \<Rightarrow>
          (case listing_rows [] (map (\<lambda>x. read_row (el_children x)) (children_named ''ro'' ns)) of
             Inl e \<Rightarrow> Inl e
           | Inr rows \<Rightarrow>
               (case marshalCatalogue sv (proposed_catalogue (ss_binding g) (cat_Revision cp + 1) True rows) of
                  Inl e \<Rightarrow> Inl e
                | Inr _ \<Rightarrow>
                    if length (ss_byRundown g) + length (ss_unenrolled g)
                      + length (filter (\<lambda>r. gm_get (ss_byRundown g) (scr_ID r) = None \<and> gm_get (ss_unenrolled g) (scr_ID r) = None) rows) > ss_limit g
                    then Inl (Errorf ''retained rundown capacity exhausted; catalogue authority withheld'')
                    else Inr rows)))"

definition applyCatalogue ::
    "set_env \<Rightarrow> set_io \<Rightarrow> time \<Rightarrow> SourceInput \<Rightarrow> CommittedSourceSet \<Rightarrow> (bool \<times> go_error option) \<times> CommittedSourceSet" where
  "applyCatalogue sv io t input g =
     (let hash = se_sha256 (sv_source sv) (in_Content input) in
      case catalogue_Checkpoint (ss_catalogue g) of
        Inl e \<Rightarrow> ((False, Some e), g)
      | Inr cp \<Rightarrow>
          (case (if in_MessageID input = [] then None else List.find (same_message input) (cat_Receipts cp)) of
             Some receipt \<Rightarrow>
               if rcp_Hash receipt = hash then ((False, None), g)
               else ((False, Some (Errorf ''catalogue messageID conflict'')), set_Uncertain sv io (in_Session input) g)
           | None \<Rightarrow>
               (case checked_rows sv input cp g of
                  Inl e \<Rightarrow> (case rejectCatalogue sv (si_cat io) input hash e g of (e, g) \<Rightarrow> ((False, e), g))
                | Inr rows \<Rightarrow>
                    (case op_foreach (enroll_row sv io t) (map scr_ID rows) g of
                       (Inl e, g) \<Rightarrow> (case rejectCatalogue sv (si_cat io) input hash e g of (e, g) \<Rightarrow> ((False, e), g))
                     | (Inr _, g) \<Rightarrow> accept_listing sv io t input hash rows (cat_Pending cp) g))))"

text \<open>How a message changes the row of its rundown; \<open>None\<close> for the messages that do not.\<close>

datatype row_change = RowCreate | RowReplace | RowDelete | RowMetadata

definition row_change :: "svc_message \<Rightarrow> row_change option" where
  "row_change msg = (case msg of
      RoCreate _ _ \<Rightarrow> Some RowCreate | RoReplace _ \<Rightarrow> Some RowReplace | RoList _ _ \<Rightarrow> Some RowReplace
    | RoDelete _ \<Rightarrow> Some RowDelete | RoMetadataReplace _ \<Rightarrow> Some RowMetadata | _ \<Rightarrow> None)"

text \<open>
  The loop over the rows. The row read from the message keeps what it took over from an earlier row of the same
  rundown.
\<close>

fun update_rows :: "row_change \<Rightarrow> SourceCatalogueRundown \<Rightarrow> SourceCatalogueRundown list \<Rightarrow> SourceCatalogueRundown list" where
  "update_rows ch row [] = []"
| "update_rows ch row (prior # rest) =
     (if scr_ID prior \<noteq> scr_ID row then prior # update_rows ch row rest
      else if ch = RowDelete then update_rows ch row rest
      else
        (let row = (if ch = RowMetadata
               then row\<lparr>scr_Label := (case scr_Label row of None \<Rightarrow> scr_Label prior | l \<Rightarrow> l),
                 scr_ScheduledStart := (case scr_ScheduledStart row of None \<Rightarrow> scr_ScheduledStart prior | l \<Rightarrow> l)\<rparr>
               else row);
             row = row\<lparr>scr_Active := True\<rparr>
         in row # update_rows ch row rest))"

definition update_stage :: "set_env \<Rightarrow> SourceBinding \<Rightarrow> row_change \<Rightarrow> SourceCatalogueRundown \<Rightarrow> SourceCatalogue catalogue_stage" where
  "update_stage sv b ch row cp =
     (case cat_Pending cp of
        None \<Rightarrow> Inl (Errorf ''decode catalogue'')
      | Some snapshot \<Rightarrow>
          reviseCatalogue sv b cp
            (scat_Complete snapshot \<and> \<not> (ch = RowCreate \<and> scr_ID row \<notin> set (map scr_ID (scat_Rundowns snapshot))))
            (update_rows ch row (scat_Rundowns snapshot)))"

definition updateCatalogue :: "set_env \<Rightarrow> set_io \<Rightarrow> svc_message \<Rightarrow> string \<Rightarrow> CommittedSourceSet \<Rightarrow> go_error option \<times> CommittedSourceSet" where
  "updateCatalogue sv io msg raw g =
     (case row_change msg of
        None \<Rightarrow> (None, g)
      | Some ch \<Rightarrow>
          (case se_children (sv_source sv) raw of
             Inl e \<Rightarrow> (Some e, g)
           | Inr ns \<Rightarrow>
               (case commit_catalogue sv (si_cat io) (update_stage sv (ss_binding g) ch (read_row ns)) g of
                  (Inl e, g) \<Rightarrow> (Some e, notifyCatalogue (snd (invalidateCatalogue sv (si_cat' io) g)))
                | (Inr _, g) \<Rightarrow> (None, notifyCatalogue g))))"

text \<open>A message for a rundown that is not enrolled: its refusal is kept in a store of its own.\<close>

definition refusal_reason :: string where
  "refusal_reason = ''rundown requires authoritative catalogue enrollment''"

definition remember_stage :: "SourceInput \<Rightarrow> string \<Rightarrow> string \<Rightarrow> unit source_stage" where
  "remember_stage input hash reply cp = op_return ((), rememberSource input hash reply cp)"

definition refusal_member ::
    "set_env \<Rightarrow> set_io \<Rightarrow> string \<Rightarrow> CommittedSourceSet \<Rightarrow> CommittedSource result \<times> CommittedSourceSet" where
  "refusal_member sv io rundown g =
     (case gm_get (ss_unenrolled g) rundown of
        Some m \<Rightarrow> (Inr m, g)
      | None \<Rightarrow>
          if length (ss_byRundown g) + length (ss_unenrolled g) \<ge> ss_limit g
          then (Inl (Errorf ''retained rundown capacity exhausted; refusal cannot be retained''), g)
          else (case retain_step sv (si_retain io rundown) rundown False g of
            (Inl e, g) \<Rightarrow> (Inl e, g)
          | (Inr store, g) \<Rightarrow>
              (let b = MemberBinding (ct_binding (ss_catalogue g)) rundown; f = member_file (ss_disk g) rundown in
               case new_member sv (si_new io rundown) g store f b of
                 Inl e \<Rightarrow> (Inl e, failed_member sv (si_new io rundown) store f b g)
               | Inr m \<Rightarrow> (Inr m, g\<lparr>ss_unenrolled := gm_set rundown m (ss_unenrolled g)\<rparr>))))"

definition keep_refusal ::
    "set_env \<Rightarrow> set_io \<Rightarrow> SourceInput \<Rightarrow> string \<Rightarrow> SourceResult \<times> go_error option \<Rightarrow> CommittedSourceSet \<Rightarrow>
     (SourceResult \<times> go_error option) \<times> CommittedSourceSet" where
  "keep_refusal sv io input rundown out g =
     (case refusal_member sv io rundown g of
        (Inl e, g) \<Rightarrow> ((zero_SourceResult, Some e), g)
      | (Inr m, g) \<Rightarrow>
          (case commit_source (sv_source sv) (si_apply io)
              (remember_stage input (se_sha256 (sv_source sv) (in_Content input)) (sr_Reply (fst out))) m of
             (r, m) \<Rightarrow>
               (let g = g\<lparr>ss_unenrolled := gm_set rundown m (ss_unenrolled g)\<rparr> in
                case r of Inl e \<Rightarrow> ((zero_SourceResult, Some e), g) | Inr _ \<Rightarrow> (out, g))))"

definition refuse_unenrolled ::
    "set_env \<Rightarrow> set_io \<Rightarrow> (string \<Rightarrow> string \<Rightarrow> string result) \<Rightarrow> SourceInput \<Rightarrow> svc_message \<Rightarrow> CommittedSourceSet \<Rightarrow>
     (SourceResult \<times> go_error option) \<times> CommittedSourceSet" where
  "refuse_unenrolled sv io render input msg g =
     (case invalidateCatalogue sv (si_cat io) g of
        (Inl e, g) \<Rightarrow> ((zero_SourceResult, Some e), g)
      | (Inr _, g) \<Rightarrow>
          (let rundown = SourceRundown msg; out = set_reject render (ForRundown msg) refusal_reason in
           if \<not> sourceText rundown 512 True \<or> in_MessageID input = [] then (out, g)
           else if \<not> silent msg \<and> snd out \<noteq> None then ((zero_SourceResult, snd out), g)
           else keep_refusal sv io input rundown out g))"

definition apply_unenrolled ::
    "set_env \<Rightarrow> set_io \<Rightarrow> (string \<Rightarrow> string \<Rightarrow> string result) \<Rightarrow> SourceInput \<Rightarrow> svc_message \<Rightarrow> CommittedSourceSet \<Rightarrow>
     (SourceResult \<times> go_error option) \<times> CommittedSourceSet" where
  "apply_unenrolled sv io render input msg g =
     (case gm_get (ss_unenrolled g) (SourceRundown msg) of
        None \<Rightarrow> refuse_unenrolled sv io render input msg g
      | Some m \<Rightarrow>
          if in_MessageID input = [] then refuse_unenrolled sv io render input msg g
          else (case Checkpoint (cs_store m) of
            Inl e \<Rightarrow> ((zero_SourceResult, Some e), g)
          | Inr cp \<Rightarrow>
              (case List.find (matching_receipt input msg) (cp_Receipts cp) of
                 None \<Rightarrow> refuse_unenrolled sv io render input msg g
               | Some receipt \<Rightarrow>
                   if rcp_Hash receipt = se_sha256 (sv_source sv) (in_Content input)
                   then ((zero_SourceResult\<lparr>sr_Reply := rcp_Response receipt\<rparr>, None), g)
                   else (set_reject render (ForRundown msg) ''messageID conflicts with a retained refusal'',
                     set_Uncertain sv io (in_Session input) g))))"

definition apply_enrolled ::
    "set_env \<Rightarrow> set_io \<Rightarrow> (string \<Rightarrow> string \<Rightarrow> string result) \<Rightarrow> SourceInput \<Rightarrow> svc_message \<Rightarrow> CommittedSource \<Rightarrow> CommittedSourceSet \<Rightarrow>
     (SourceResult \<times> go_error option) \<times> CommittedSourceSet" where
  "apply_enrolled sv io render input msg m g =
     (case Apply (sv_source sv) (si_apply io) (si_apply' io) render input msg m of
        ((out, er), m) \<Rightarrow>
          (let g = g\<lparr>ss_byRundown := gm_set (SourceRundown msg) m (ss_byRundown g)\<rparr> in
           if er \<noteq> None \<or> sr_Recover out \<or> \<not> sr_Applied out then ((out, er), g)
           else (case updateCatalogue sv io msg (in_Content input) g of (er, g) \<Rightarrow> ((out, er), g))))"

definition set_Apply ::
    "set_env \<Rightarrow> set_io \<Rightarrow> time \<Rightarrow> (string \<Rightarrow> string \<Rightarrow> string result) \<Rightarrow> SourceInput \<Rightarrow> set_message \<Rightarrow> CommittedSourceSet \<Rightarrow>
     (SourceResult \<times> go_error option) \<times> CommittedSourceSet" where
  "set_Apply sv io t render input m g =
     (if set_outside t input g
      then (set_reject render m ''message is outside the configured source set or current connection'', g)
      else case crossReceipt input (is_listing m \<or> is_roster m) (set_rundown m) g of
        Inl e \<Rightarrow> ((zero_SourceResult, Some e), g)
      | Inr True \<Rightarrow> (set_reject render m ''messageID conflicts with another retained receipt'', set_Uncertain sv io (in_Session input) g)
      | Inr False \<Rightarrow>
          (case m of
             ListAll \<Rightarrow> (case applyCatalogue sv io t input g of
               ((fresh, er), g) \<Rightarrow> ((zero_SourceResult\<lparr>sr_Applied := fresh\<rparr>, er), g))
           | ForRundown msg \<Rightarrow>
               (case gm_get (ss_byRundown g) (SourceRundown msg) of
                  None \<Rightarrow> apply_unenrolled sv io render input msg g
                | Some member \<Rightarrow> apply_enrolled sv io render input msg member g)))"

section \<open>Delivery of the catalogue\<close>

definition expire_session :: "set_env \<Rightarrow> set_io \<Rightarrow> string \<Rightarrow> bool \<times> CommittedSourceSet \<Rightarrow> bool \<times> CommittedSourceSet" where
  "expire_session sv io session eg =
     (let (expired, g) = eg in
      case set_releaseSession session (g\<lparr>ss_sessions := gm_delete session (ss_sessions g)\<rparr>) of
        (owned, g) \<Rightarrow>
          if owned then (True, map_members (\<lambda>k. Disconnected (sv_source sv) (si_inval io k) session) g) else (expired, g))"

definition publish_catalogue_prepare :: "set_env \<Rightarrow> set_io \<Rightarrow> time \<Rightarrow> CommittedSourceSet \<Rightarrow> catalogue_cp result \<times> CommittedSourceSet" where
  "publish_catalogue_prepare sv io t g =
     (let gone = map fst (filter (\<lambda>(session, seen). t - seen > ss_timeout g) (ss_sessions g)) in
      case fold (expire_session sv io) gone (False, g) of
        (expired, g) \<Rightarrow>
          (case (if expired \<or> (case ss_enumerated g of None \<Rightarrow> False | Some l \<Rightarrow> t - l > ss_timeout g)
                 then invalidateCatalogue sv (si_cat io) g else (Inr (), g)) of
             (Inl e, g) \<Rightarrow> (Inl e, g)
           | (Inr _, g) \<Rightarrow>
               ((case catalogue_Checkpoint (ss_catalogue g) of
                   Inl e \<Rightarrow> Inl e
                 | Inr cp \<Rightarrow> if cat_Halted cp then Inl errSourceHalted else Inr cp), g)))"

definition catalogue_receipt_accepts :: "CommittedSourceSet \<Rightarrow> catalogue_cp \<Rightarrow> delivery_receipt \<Rightarrow> bool" where
  "catalogue_receipt_accepts g cp r \<longleftrightarrow> dr_SourceID r = bnd_SourceID (ss_binding g) \<and> dr_AcceptedRevision r = cat_Revision cp
     \<and> dr_Duplicate r \<noteq> None \<and> dr_DestinationApplied r = Some False"

definition record_catalogue :: "set_env \<Rightarrow> save_outcome \<Rightarrow> catalogue_cp \<Rightarrow> CommittedSourceSet \<Rightarrow> unit result \<times> CommittedSourceSet" where
  "record_catalogue sv io cp g =
     (case catalogue_Checkpoint (ss_catalogue g) of
        Inl e \<Rightarrow> (Inl e, g)
      | Inr latest \<Rightarrow>
          if cat_Revision latest \<noteq> cat_Revision cp \<or> cat_Pending latest \<noteq> cat_Pending cp then (Inr (), notifyCatalogue g)
          else if cat_AcceptedRevision latest = cat_Revision cp then (Inr (), g)
          else commit_catalogue sv io (\<lambda>latest. Inr (latest\<lparr>cat_AcceptedRevision := cat_Revision cp\<rparr>)) g)"

definition publish_catalogue_finish ::
    "set_env \<Rightarrow> save_outcome \<Rightarrow> catalogue_cp \<Rightarrow> delivery \<Rightarrow> CommittedSourceSet \<Rightarrow> unit result \<times> CommittedSourceSet" where
  "publish_catalogue_finish sv io cp answer g = (case answer of
      NotReached \<Rightarrow> (Inl (Errorf ''loopback catalogue receiver request failed''), g)
    | RevisionConflict \<Rightarrow> (case commit_catalogue sv io (\<lambda>latest. Inr (latest\<lparr>cat_Halted := True\<rparr>)) g of (_, g) \<Rightarrow> (Inl errSourceHalted, g))
    | BadStatus \<Rightarrow> (Inl (Errorf ''catalogue receiver returned an error status''), g)
    | BadReceipt \<Rightarrow> (Inl (Errorf ''catalogue receipt is unavailable or exceeds its limit''), g)
    | TransferPending \<Rightarrow> (Inl (Errorf ''source transfer has more bounded work''), g)
    | TransferDone \<Rightarrow> record_catalogue sv io cp g
    | Receipt r \<Rightarrow> if catalogue_receipt_accepts g cp r then record_catalogue sv io cp g
        else (Inl (Errorf ''receiver did not return a matching durable catalogue receipt''), g))"

section \<open>Opening the set\<close>

text \<open>A configured store with its file, its binding and the answer whether its directory is the member's own.\<close>

record SourceRundownStore =
  srs_Store :: "(sourceState, SourceSnapshot) Durable"
  srs_File :: "(sourceState, SourceSnapshot) checkpointFile disk"
  srs_Binding :: SourceBinding
  srs_OwnPath :: bool

definition srs_ID :: "SourceRundownStore \<Rightarrow> string" where
  "srs_ID entry = bnd_RundownID (srs_Binding entry)"

definition open_entry :: "set_env \<Rightarrow> set_io \<Rightarrow> time \<Rightarrow> SourceRundownStore \<Rightarrow> CommittedSourceSet \<Rightarrow> unit result \<times> CommittedSourceSet" where
  "open_entry sv io t entry g =
     (if MemberUnenrolled (ss_catalogue g) (srs_ID entry) then
        (case new_member sv (si_new io (srs_ID entry)) g (srs_Store entry) (srs_File entry) (srs_Binding entry) of
           Inl e \<Rightarrow> (Inl e, g)
         | Inr m \<Rightarrow> (Inr (), g\<lparr>ss_unenrolled := gm_set (srs_ID entry) m (ss_unenrolled g)\<rparr>))
      else addMember sv (si_new io (srs_ID entry)) t (srs_Store entry) (srs_File entry) (srs_Binding entry) g)"

definition empty_set :: "source_catalogue \<Rightarrow> source_disk \<Rightarrow> string \<Rightarrow> time \<Rightarrow> CommittedSourceSet" where
  "empty_set c k token timeout = \<lparr>ss_byRundown = [], ss_unenrolled = [], ss_catalogue = c, ss_disk = k, ss_binding = ct_binding c,
     ss_sessions = [], ss_owners = [], ss_wake = False, ss_token = token, ss_timeout = timeout, ss_limit = member_limit (ct_binding c),
     ss_enumerated = None\<rparr>"

definition entry_ok :: "set_env \<Rightarrow> SourceBinding \<Rightarrow> SourceRundownStore \<Rightarrow> bool" where
  "entry_ok sv b entry \<longleftrightarrow> ValidateSourceBinding (sv_url_Parse sv) (srs_Binding entry) = Inr ()
     \<and> SourceCatalogueBinding (srs_Binding entry) = b"

definition NewCommittedSourceSet ::
    "set_env \<Rightarrow> set_io \<Rightarrow> (string \<Rightarrow> source_dir) \<Rightarrow> time \<Rightarrow> SourceRundownStore list \<Rightarrow> source_catalogue \<times> source_disk \<Rightarrow> string \<Rightarrow> time \<Rightarrow>
     CommittedSourceSet result" where
  "NewCommittedSourceSet sv io sd t retained ck token timeout =
     (let b = ct_binding (fst ck); limit = member_limit b in
      if ValidateSourceSetBinding (sv_url_Parse sv) (MemberBinding b []) \<noteq> Inr () \<or> token = [] \<or> CHR 0x0D \<in> set token
        \<or> CHR 0x0A \<in> set token \<or> timeout \<le> 0
      then Inl (Errorf ''source set requires a valid catalogue binding, credential and positive timeout'')
      else if \<not> list_all (entry_ok sv b) retained \<or> \<not> distinct (map srs_ID retained)
      then Inl (Errorf ''source set members require distinct rundown IDs and the same peer, transport, destination and credential'')
      else if length retained > limit then Inl (Errorf ''retained source set exceeds its capacity'')
      else case OpenMembers (set_codec sv) (si_cat io) sd (map (\<lambda>e. (srs_ID e, srs_Store e, srs_OwnPath e)) retained) ck of
        (Inl e, _) \<Rightarrow> Inl e
      | (Inr enrolled, c, k) \<Rightarrow>
          (let others = filter (\<lambda>(i, _). i \<notin> set (map srs_ID retained)) enrolled;
               entries = retained @ map (\<lambda>(i, d). \<lparr>srs_Store = d, srs_File = member_file k i, srs_Binding = MemberBinding b i,
                 srs_OwnPath = True\<rparr>) (sort_key fst others)
           in if length entries > limit then Inl (Errorf ''retained source set exceeds its capacity'')
              else case op_foreach (open_entry sv io t) entries (empty_set c k token timeout) of
                (Inl e, _) \<Rightarrow> Inl e
              | (Inr _, g) \<Rightarrow>
                  (case invalidateCatalogue sv (si_cat' io) g of (Inl e, _) \<Rightarrow> Inl e | (Inr _, g) \<Rightarrow> Inr g)))"

end
