(* ===== verification/CatalogueSafety.thy ===== *)
theory CatalogueSafety
  imports SourceSet "HOL-Library.Code_Target_Nat"
begin

text \<open>
  What a set of sources promises about its catalogue over its whole life: it is delivered as complete only
  while a listing of the peer is in force.
\<close>

section \<open>What the catalogue shows\<close>

text \<open>The pending catalogue, while the storage is available.\<close>

definition shown :: "CommittedSourceSet \<Rightarrow> SourceCatalogue option" where
  "shown g = (if ct_degraded (ss_catalogue g) then None else cat_Pending (ct_state (ss_catalogue g)))"

definition complete_shown :: "CommittedSourceSet \<Rightarrow> SourceCatalogue \<Rightarrow> bool" where
  "complete_shown g p \<longleftrightarrow> shown g = Some p \<and> scat_Complete p"

definition rundowns :: "CommittedSourceSet \<Rightarrow> string set" where
  "rundowns g = fst ` set (ss_byRundown g)"

lemma RetainsRundown_iff: "RetainsRundown k g \<longleftrightarrow> k \<in> rundowns g"
  by (auto simp: RetainsRundown_def rundowns_def dom_map_of_conv_image_fst [symmetric])

text \<open>
  A step after which the catalogue is as it was, or not shown as complete; no member is given up.
\<close>

definition quieter :: "CommittedSourceSet \<Rightarrow> CommittedSourceSet \<Rightarrow> bool" where
  "quieter g g' \<longleftrightarrow> rundowns g \<subseteq> rundowns g' \<and>
     (shown g' = shown g \<and> ss_enumerated g' = ss_enumerated g \<or> (\<forall>p. \<not> complete_shown g' p))"

lemma quieter_refl [simp, intro]: "quieter g g"
  by (simp add: quieter_def)

lemma quieter_trans: "quieter a b \<Longrightarrow> quieter b c \<Longrightarrow> quieter a c"
  by (auto simp: quieter_def complete_shown_def)

text \<open>A change of other fields.\<close>

lemma quieter_same:
  "ss_catalogue g' = ss_catalogue g \<Longrightarrow> ss_enumerated g' = ss_enumerated g \<Longrightarrow> rundowns g \<subseteq> rundowns g' \<Longrightarrow> quieter g g'"
  by (simp add: quieter_def shown_def)

lemma quieter_degraded:
  "ct_state (ss_catalogue g') = ct_state (ss_catalogue g) \<Longrightarrow>
   ct_degraded (ss_catalogue g) \<longrightarrow> ct_degraded (ss_catalogue g') \<Longrightarrow>
   ss_enumerated g' = ss_enumerated g \<Longrightarrow> rundowns g \<subseteq> rundowns g' \<Longrightarrow> quieter g g'"
  by (simp add: quieter_def shown_def complete_shown_def)

section \<open>Commits\<close>

lemma commit_catalogue_cases:
  assumes "commit_catalogue sv io stage g = (r, g')"
  obtains
    (failed) e where "r = Inl e" "quieter g g'" "rundowns g' = rundowns g" "ss_enumerated g' = ss_enumerated g" "ss_binding g' = ss_binding g"
  | (committed) cp' where "r = Inr ()" "\<not> ct_degraded (ss_catalogue g)" "stage (ct_state (ss_catalogue g)) = Inr cp'"
      "shown g' = cat_Pending cp'" "rundowns g' = rundowns g" "ss_enumerated g' = ss_enumerated g" "ss_binding g' = ss_binding g"
proof -
  obtain r1 c f where run: "catalogue_Commit (set_codec sv) io stage (ss_catalogue g, kd_catalogue (ss_disk g)) = (r1, c, f)"
    by (metis prod.exhaust)
  have g': "r = r1" "g' = g\<lparr>ss_catalogue := c, ss_disk := (ss_disk g)\<lparr>kd_catalogue := f\<rparr>\<rparr>"
    using assms run by (auto simp: commit_catalogue_def)
  show thesis
  proof (cases r1)
    case (Inl e)
    have "c = ss_catalogue g \<or> c = (ss_catalogue g)\<lparr>ct_degraded := True\<rparr>"
      using run Inl by (auto simp: catalogue_Commit_def Let_def split: if_splits sum.splits prod.splits)
    then have "quieter g g'" using g' by (intro quieter_degraded) (auto simp: rundowns_def)
    then show thesis using g' Inl failed by (simp add: rundowns_def)
  next
    case (Inr u)
    obtain cp' where "\<not> ct_degraded (ss_catalogue g)" "stage (ct_state (ss_catalogue g)) = Inr cp'" "c = (ss_catalogue g)\<lparr>ct_state := cp'\<rparr>"
      using run Inr by (auto simp: catalogue_Commit_def Let_def split: if_splits sum.splits prod.splits)
    then show thesis using g' Inr committed [of cp'] by (simp add: rundowns_def shown_def)
  qed
qed

lemma reviseCatalogue_shows:
  assumes "reviseCatalogue sv b cp complete rows = Inr cp'"
  shows "\<exists>p. cat_Pending cp' = Some p \<and> scat_Complete p = complete \<and> scat_Rundowns p = rows"
proof -
  have same: "p = q" if "marshalCatalogue sv q = Inr p" for p q
    using that by (auto simp: marshalCatalogue_def split: if_splits sum.splits)
  show ?thesis using assms
    by (auto simp: reviseCatalogue_def proposed_catalogue_def dest!: same split: if_splits sum.splits)
qed

lemma suspend_shows: "suspendCatalogue sv b cp = Inr cp' \<Longrightarrow> \<exists>p. cat_Pending cp' = Some p \<and> \<not> scat_Complete p"
  unfolding suspendCatalogue_def by (drule reviseCatalogue_shows) auto

lemma commit_quieter:
  assumes "\<And>cp cp'. stage cp = Inr cp' \<Longrightarrow> \<exists>p. cat_Pending cp' = Some p \<and> \<not> scat_Complete p"
  shows "quieter g (snd (commit_catalogue sv io stage g))"
proof -
  obtain r g' where run: "commit_catalogue sv io stage g = (r, g')" by (metis prod.exhaust)
  then show ?thesis
  proof (cases rule: commit_catalogue_cases)
    case (committed cp')
    then show ?thesis using run assms by (force simp: quieter_def complete_shown_def)
  qed (simp add: run)
qed

lemma commit_keeps_pending:
  assumes "\<And>cp cp'. stage cp = Inr cp' \<Longrightarrow> cat_Pending cp' = cat_Pending cp"
  shows "quieter g (snd (commit_catalogue sv io stage g))"
proof -
  obtain r g' where run: "commit_catalogue sv io stage g = (r, g')" by (metis prod.exhaust)
  then show ?thesis
  proof (cases rule: commit_catalogue_cases)
    case (committed cp')
    have "cat_Pending cp' = cat_Pending (ct_state (ss_catalogue g))" using assms committed(3) by blast
    then show ?thesis using run committed by (simp add: quieter_def shown_def)
  qed (simp add: run)
qed

lemma quieter_notify: "quieter g (notifyCatalogue h) = quieter g h"
  by (simp add: notifyCatalogue_def quieter_def shown_def complete_shown_def rundowns_def)

lemma invalidate_commit_quieter: "quieter g (snd (commit_catalogue sv io (suspendCatalogue sv b) g))"
  by (rule commit_quieter) (rule suspend_shows)

lemma invalidateCatalogue_incomplete:
  assumes "invalidateCatalogue sv io g = (Inr u, g')"
  shows "\<not> complete_shown g' p"
proof -
  obtain h where c: "commit_catalogue sv io (suspendCatalogue sv (ss_binding g)) g = (Inr (), h)"
      and g': "g' = notifyCatalogue (h\<lparr>ss_enumerated := None\<rparr>)"
    using assms by (auto simp: invalidateCatalogue_def split: sum.splits prod.splits)
  from c show ?thesis
  proof (cases rule: commit_catalogue_cases)
    case (committed cp')
    then show ?thesis using suspend_shows [OF committed(3)] g'
      by (auto simp: complete_shown_def shown_def notifyCatalogue_def split: if_splits)
  qed simp
qed

lemma invalidateCatalogue_quieter: "quieter g (snd (invalidateCatalogue sv io g))"
proof -
  obtain r g' where run: "invalidateCatalogue sv io g = (r, g')" by (metis prod.exhaust)
  obtain r1 h where c: "commit_catalogue sv io (suspendCatalogue sv (ss_binding g)) g = (r1, h)" by (metis prod.exhaust)
  have keys: "rundowns h = rundowns g" using c by (cases rule: commit_catalogue_cases) simp_all
  show ?thesis
  proof (cases r)
    case (Inl e)
    then show ?thesis using run c invalidate_commit_quieter [of g sv io "ss_binding g"]
      by (auto simp: invalidateCatalogue_def split: sum.splits)
  next
    case (Inr u)
    have "g' = notifyCatalogue (h\<lparr>ss_enumerated := None\<rparr>)" using run c Inr by (auto simp: invalidateCatalogue_def split: sum.splits)
    then have "rundowns g' = rundowns g" using keys by (simp add: notifyCatalogue_def rundowns_def)
    then show ?thesis using run Inr invalidateCatalogue_incomplete by (simp add: quieter_def)
  qed
qed

lemma rejectCatalogue_quieter: "quieter g (snd (rejectCatalogue sv io input hash cause g))"
proof -
  have "\<exists>p. cat_Pending cp' = Some p \<and> \<not> scat_Complete p" if "reject_stage sv b input hash cp = Inr cp'" for b cp cp'
  proof -
    from that obtain cp1 where "suspendCatalogue sv b cp = Inr cp1" "cp' = catalogue_receipt input hash (cp1\<lparr>cat_Raw := in_Content input\<rparr>)"
      by (auto simp: reject_stage_def split: sum.splits)
    then show ?thesis using suspend_shows by (fastforce simp: catalogue_receipt_def)
  qed
  then have "quieter g (snd (commit_catalogue sv io (reject_stage sv (ss_binding g) input hash) g))" by (rule commit_quieter)
  then show ?thesis by (simp add: rejectCatalogue_def case_prod_beta quieter_notify)
qed

section \<open>Sessions and members\<close>

lemma map_members_keeps:
  "rundowns (map_members f g) = rundowns g" "ss_catalogue (map_members f g) = ss_catalogue g"
  "ss_enumerated (map_members f g) = ss_enumerated g" "ss_timeout (map_members f g) = ss_timeout g"
  by (simp_all add: map_members_def rundowns_def keys_of_map del: set_map)

lemma map_members_quieter: "quieter g (map_members f g)"
  by (rule quieter_same) (simp_all add: map_members_keeps)

lemma observe_members_keys: "map fst (snd (observe_members sv io t input ms)) = map fst ms"
proof (induction ms)
  case (Cons km ms)
  then show ?case by (cases km) (simp add: case_prod_beta)
qed simp

lemma quieter_observed: "quieter g (g\<lparr>ss_byRundown := snd (observe_members sv io t input (ss_byRundown g))\<rparr>)"
proof (rule quieter_same)
  have "set (map fst (snd (observe_members sv io t input (ss_byRundown g)))) = set (map fst (ss_byRundown g))"
    by (simp only: observe_members_keys)
  then show "rundowns g \<subseteq> rundowns (g\<lparr>ss_byRundown := snd (observe_members sv io t input (ss_byRundown g))\<rparr>)"
    by (simp add: rundowns_def)
qed simp_all

lemma quieter_sessions: "quieter g (h\<lparr>ss_sessions := x\<rparr>) = quieter g h" "quieter g (h\<lparr>ss_owners := y\<rparr>) = quieter g h"
  by (simp_all add: quieter_def shown_def complete_shown_def rundowns_def)

lemma invalidate_after:
  assumes "quieter g h"
  shows "quieter g (snd (invalidateCatalogue sv io h))"
  using assms invalidateCatalogue_quieter quieter_trans by blast

lemma set_Observe_quieter: "quieter g (snd (set_Observe sv io t input g))"
proof -
  let ?h = "g\<lparr>ss_byRundown := snd (observe_members sv io t input (ss_byRundown g))\<rparr>"
  have h: "quieter g ?h" by (rule quieter_observed)
  have i: "quieter g (snd (invalidateCatalogue sv (si_cat io) ?h))" by (rule invalidate_after [OF h])
  show ?thesis using h
    by (auto simp: set_Observe_def case_prod_beta Let_def quieter_sessions i split: sum.splits prod.splits)
qed

lemma set_RefreshSession_quieter: "quieter g (set_RefreshSession t session g)"
  by (simp add: set_RefreshSession_def Let_def quieter_sessions map_members_quieter)

lemma set_Disconnected_quieter: "quieter g (set_Disconnected sv io session g)"
  by (auto simp: set_Disconnected_def Let_def set_releaseSession_def quieter_sessions map_members_quieter intro!: invalidate_after)

lemma set_Uncertain_quieter: "quieter g (set_Uncertain sv io session g)"
  by (auto simp: set_Uncertain_def Let_def map_members_quieter intro!: invalidate_after)

lemma retainMember_state:
  assumes "retainMember cc io i enroll (c, k) = (r, c', k')"
  shows "ct_state c' = ct_state c" "ct_degraded c \<longrightarrow> ct_degraded c'"
proof -
  have R: "member_root io (c, k) = (r1, c1, k1) \<Longrightarrow> ct_state c1 = ct_state c \<and> (ct_degraded c \<longrightarrow> ct_degraded c1)" for r1 c1 k1
    using member_root_keeps(1) by fastforce
  have P: "provision_member cc io i (c1, k1) = (r2, c2, k2) \<Longrightarrow> ct_state c2 = ct_state c1 \<and> (ct_degraded c1 \<longrightarrow> ct_degraded c2)" for c1 k1 r2 c2 k2
    using provision_member_keeps(1) by fastforce
  have G: "register_member cc io i enroll d ms (c2, k2) = (r3, c3, k3) \<Longrightarrow> ct_state c3 = ct_state c2 \<and> (ct_degraded c2 \<longrightarrow> ct_degraded c3)" for d ms c2 k2 r3 c3 k3
    by (auto simp: register_member_def Let_def split: sum.splits prod.splits)
  have M: "mark_enrolled cc io i d (c, k) = (r3, c3, k3) \<Longrightarrow> ct_state c3 = ct_state c \<and> (ct_degraded c \<longrightarrow> ct_degraded c3)" for d r3 c3 k3
    by (auto simp: mark_enrolled_def Let_def split: sum.splits prod.splits)
  have "ct_state c' = ct_state c \<and> (ct_degraded c \<longrightarrow> ct_degraded c')"
    using assms unfolding retainMember_def fst_conv
    by (auto split: option.splits if_splits sum.splits prod.splits dest!: R P G M)
  then show "ct_state c' = ct_state c" "ct_degraded c \<longrightarrow> ct_degraded c'" by simp_all
qed

lemma retain_step_quieter:
  assumes "retain_step sv io i enroll g = (r, g')"
  shows "quieter g g'" "rundowns g' = rundowns g" "ss_binding g' = ss_binding g"
proof -
  obtain r1 c k where run: "retainMember (set_codec sv) io i enroll (ss_catalogue g, ss_disk g) = (r1, c, k)" by (metis prod.exhaust)
  then have g': "g' = g\<lparr>ss_catalogue := c, ss_disk := k\<rparr>" using assms by (simp add: retain_step_def)
  show "quieter g g'" using retainMember_state [OF run] g' by (intro quieter_degraded) (simp_all add: rundowns_def)
  show "rundowns g' = rundowns g" "ss_binding g' = ss_binding g" using g' by (simp_all add: rundowns_def)
qed

lemma failed_member_quieter: "quieter g (failed_member sv io store f b g)"
  by (auto simp: failed_member_def Let_def rundowns_def split: sum.splits intro!: quieter_degraded)

lemma addMember_quieter: "quieter g (snd (addMember sv io t store f b g))"
  and addMember_adds: "fst (addMember sv io t store f b g) = Inr () \<Longrightarrow> bnd_RundownID b \<in> rundowns (snd (addMember sv io t store f b g))"
  by (auto simp: addMember_def failed_member_quieter rundowns_def dom_update split: sum.splits intro!: quieter_same)

section \<open>Listings\<close>

lemma MemberBinding_rundown [simp]: "bnd_RundownID (MemberBinding b i) = i"
  by (simp add: MemberBinding_def Let_def)

lemma enroll_row_quieter: "quieter g (snd (enroll_row sv io t i g))"
  and enroll_row_adds: "fst (enroll_row sv io t i g) = Inr () \<Longrightarrow> i \<in> rundowns (snd (enroll_row sv io t i g))"
proof -
  obtain r h where run: "retain_step sv (si_retain io i) i True g = (r, h)" by (metis prod.exhaust)
  note R = retain_step_quieter [OF run]
  show "quieter g (snd (enroll_row sv io t i g))"
    using run R(1) quieter_trans [OF R(1) addMember_quieter] by (auto simp: enroll_row_def split: sum.splits)
  show "fst (enroll_row sv io t i g) = Inr () \<Longrightarrow> i \<in> rundowns (snd (enroll_row sv io t i g))"
    using run addMember_adds [of sv _ t _ _ "MemberBinding _ i"]
    by (auto simp: enroll_row_def RetainsRundown_iff split: sum.splits if_splits)
qed

lemma foreach_quieter:
  assumes "\<And>x g. x \<in> set xs \<Longrightarrow> quieter g (snd (f x g))"
  shows "quieter g (snd (op_foreach f xs g))"
  using assms
proof (induction xs arbitrary: g)
  case (Cons x xs)
  obtain r h where run: "f x g = (r, h)" by (metis prod.exhaust)
  then have "quieter g h" using Cons(2) [of x g] by simp
  then show ?case using run Cons(1) [of h] Cons(2) by (cases r) (auto simp: op_bind_def intro: quieter_trans)
qed simp

lemma foreach_adds:
  assumes "\<And>x g. quieter g (snd (f x g))" "\<And>x g. fst (f x g) = Inr () \<Longrightarrow> x \<in> rundowns (snd (f x g))"
    and "op_foreach f xs g = (Inr (), g')"
  shows "set xs \<subseteq> rundowns g'"
  using assms(3)
proof (induction xs arbitrary: g)
  case (Cons x xs)
  obtain h where run: "f x g = (Inr (), h)" "op_foreach f xs h = (Inr (), g')"
    using Cons(2) by (auto simp: op_bind_eq_Inr)
  have "x \<in> rundowns h" using assms(2) [of x g] run(1) by simp
  moreover have "quieter h g'" using foreach_quieter [of xs f h] assms(1) run(2) by simp
  ultimately show ?case using Cons(1) [OF run(2)] by (auto simp: quieter_def)
qed simp

lemma invalidate_member_quieter: "quieter g (snd (invalidate_member sv io i g))"
  by (auto simp: invalidate_member_def case_prod_beta rundowns_def dom_update split: option.splits intro!: quieter_same)

lemma listing_rows_ids: "listing_rows seen ros = Inr rows \<Longrightarrow> map scr_ID rows = map scr_ID ros"
  by (induction seen ros arbitrary: rows rule: listing_rows.induct) (auto split: if_splits sum.splits)

text \<open>The identities a listing of the peer names.\<close>

definition listed_ids :: "set_env \<Rightarrow> SourceInput \<Rightarrow> string list" where
  "listed_ids sv input = (case se_children (sv_source sv) (in_Content input) of
      Inl _ \<Rightarrow> [] | Inr ns \<Rightarrow> map (\<lambda>x. field ''roID'' (el_children x)) (children_named ''ro'' ns))"

lemma checked_rows_ids: "checked_rows sv input cp g = Inr rows \<Longrightarrow> map scr_ID rows = listed_ids sv input"
  by (auto simp: checked_rows_def listed_ids_def read_row_def dest!: listing_rows_ids split: sum.splits if_splits)

lemma accept_listing_effect:
  assumes run: "accept_listing sv io t input hash rows pending g = ((fresh, er), g')" and rows: "scr_ID ` set rows \<subseteq> rundowns g"
  shows "if fresh then er = None \<and> (\<exists>p. shown g' = Some p \<and> scat_Complete p \<and> scat_Rundowns p = rows) \<and> scr_ID ` set rows \<subseteq> rundowns g'
           \<and> ss_enumerated g' = Some t
         else quieter g g'"
proof (cases pending)
  case None
  then show ?thesis using run rejectCatalogue_quieter [of g sv "si_cat' io" input hash]
    by (auto simp: accept_listing_def case_prod_beta)
next
  case (Some prior)
  obtain r1 g1 where inval: "op_foreach (invalidate_member sv io) (changed_members rows (scat_Rundowns prior) g) g = (r1, g1)"
    by (metis prod.exhaust)
  have q1: "quieter g g1" using foreach_quieter [of _ "invalidate_member sv io" g] invalidate_member_quieter inval by (metis snd_conv)
  have reject: "quieter g (snd (rejectCatalogue sv (si_cat' io) input hash e h))" if "quieter g h" for e h
    using that rejectCatalogue_quieter quieter_trans by blast
  show ?thesis
  proof (cases r1)
    case (Inl e)
    then show ?thesis using run Some inval reject [OF q1] by (auto simp: accept_listing_def case_prod_beta)
  next
    case (Inr u)
    obtain r2 g2 where commit: "commit_catalogue sv (si_cat io) (listing_stage sv (ss_binding g1) input hash rows) g1 = (r2, g2)"
      by (metis prod.exhaust)
    then show ?thesis
    proof (cases rule: commit_catalogue_cases)
      case (failed e)
      then show ?thesis using run Some inval Inr commit reject [OF quieter_trans [OF q1 failed(2)]]
        by (auto simp: accept_listing_def case_prod_beta)
    next
      case (committed cp')
      obtain cp1 where "reviseCatalogue sv (ss_binding g1) ((ct_state (ss_catalogue g1))\<lparr>cat_Raw := in_Content input\<rparr>) True rows = Inr cp1"
        "cp' = catalogue_receipt input hash cp1" using committed(3) by (auto simp: listing_stage_def split: sum.splits)
      then have "\<exists>p. shown g2 = Some p \<and> scat_Complete p \<and> scat_Rundowns p = rows"
        using reviseCatalogue_shows committed(4) by (fastforce simp: catalogue_receipt_def)
      moreover have "g' = notifyCatalogue (g2\<lparr>ss_enumerated := Some t\<rparr>)" "fresh" "er = None"
        using run Some inval Inr commit committed(1) by (auto simp: accept_listing_def)
      moreover have "scr_ID ` set rows \<subseteq> rundowns g2" using q1 committed(5) rows by (auto simp: quieter_def)
      moreover have "shown (notifyCatalogue (g2\<lparr>ss_enumerated := Some t\<rparr>)) = shown g2" "rundowns (notifyCatalogue (g2\<lparr>ss_enumerated := Some t\<rparr>)) = rundowns g2"
        "ss_enumerated (notifyCatalogue (g2\<lparr>ss_enumerated := Some t\<rparr>)) = Some t"
        by (simp_all add: notifyCatalogue_def shown_def rundowns_def)
      ultimately show ?thesis by simp
    qed
  qed
qed

lemma applyCatalogue_effect:
  assumes run: "applyCatalogue sv io t input g = ((fresh, er), g')"
  shows "if fresh then er = None \<and> (\<exists>p. shown g' = Some p \<and> scat_Complete p \<and> map scr_ID (scat_Rundowns p) = listed_ids sv input)
           \<and> set (listed_ids sv input) \<subseteq> rundowns g' \<and> ss_enumerated g' = Some t
         else quieter g g'"
proof (cases "catalogue_Checkpoint (ss_catalogue g)")
  case (Inl e)
  then show ?thesis using run by (auto simp: applyCatalogue_def)
next
  case (Inr cp)
  note cp = this
  let ?hash = "se_sha256 (sv_source sv) (in_Content input)"
  show ?thesis
  proof (cases "if in_MessageID input = [] then None else List.find (same_message input) (cat_Receipts cp)")
    case (Some receipt)
    then show ?thesis using run cp set_Uncertain_quieter by (auto simp: applyCatalogue_def Let_def split: if_splits)
  next
    case None
    note find = this
    show ?thesis
    proof (cases "checked_rows sv input cp g")
      case (Inl e)
      then show ?thesis using run cp find rejectCatalogue_quieter [of g sv "si_cat io" input ?hash e]
        by (auto simp: applyCatalogue_def Let_def case_prod_beta)
    next
      case (Inr rows)
      have ids: "map scr_ID rows = listed_ids sv input" using checked_rows_ids [OF Inr] .
      obtain r1 g1 where enroll: "op_foreach (enroll_row sv io t) (map scr_ID rows) g = (r1, g1)" by (metis prod.exhaust)
      have q1: "quieter g g1" using foreach_quieter [of _ "enroll_row sv io t" g] enroll_row_quieter enroll by (metis snd_conv)
      show ?thesis
      proof (cases r1)
        case (Inl e)
        then show ?thesis using run cp find Inr enroll quieter_trans [OF q1 rejectCatalogue_quieter [of g1 sv "si_cat io" input ?hash e]]
          by (auto simp: applyCatalogue_def Let_def case_prod_beta)
      next
        case (Inr u)
        have in_g1: "scr_ID ` set rows \<subseteq> rundowns g1"
          using foreach_adds [OF enroll_row_quieter enroll_row_adds, where xs = "map scr_ID rows" and g = g] enroll Inr by simp
        have "accept_listing sv io t input ?hash rows (cat_Pending cp) g1 = ((fresh, er), g')"
          using run by (simp only: applyCatalogue_def Let_def cp find \<open>checked_rows sv input cp g = Inr rows\<close> enroll Inr
              sum.case option.case prod.case)
        note A = accept_listing_effect [OF this in_g1]
        show ?thesis
        proof (cases fresh)
          case True
          then show ?thesis using A unfolding ids [symmetric] by auto
        next
          case False
          then show ?thesis using A quieter_trans [OF q1] by simp
        qed
      qed
    qed
  qed
qed

section \<open>Messages\<close>

lemma update_rows_ids:
  "set (map scr_ID (update_rows ch row rows)) = (if ch = RowDelete then set (map scr_ID rows) - {scr_ID row} else set (map scr_ID rows))"
proof (induction ch row rows rule: update_rows.induct)
  case (2 ch row prior rest)
  then show ?case
    by (cases "scr_ID prior = scr_ID row"; cases "ch = RowDelete") (simp_all add: Let_def insert_Diff_if)
qed simp

definition removed_id :: "set_env \<Rightarrow> svc_message \<Rightarrow> string \<Rightarrow> string option" where
  "removed_id sv msg raw = (case (row_change msg, se_children (sv_source sv) raw) of
      (Some RowDelete, Inr ns) \<Rightarrow> Some (field ''roID'' ns) | _ \<Rightarrow> None)"

lemma updateCatalogue_effect:
  assumes run: "updateCatalogue sv io msg raw g = (er, g')"
  shows "if er \<noteq> None then quieter g g'
    else rundowns g' = rundowns g \<and> ss_enumerated g' = ss_enumerated g \<and> (\<forall>p'. complete_shown g' p' \<longrightarrow> (\<exists>p. complete_shown g p \<and>
        set (map scr_ID (scat_Rundowns p')) = set (map scr_ID (scat_Rundowns p)) - set_option (removed_id sv msg raw)))"
proof (cases "row_change msg")
  case None
  then show ?thesis using run by (auto simp: updateCatalogue_def removed_id_def)
next
  case (Some ch)
  show ?thesis
  proof (cases "se_children (sv_source sv) raw")
    case (Inl e)
    then show ?thesis using run Some by (auto simp: updateCatalogue_def)
  next
    case (Inr ns)
    obtain r h where commit: "commit_catalogue sv (si_cat io) (update_stage sv (ss_binding g) ch (read_row ns)) g = (r, h)"
      by (metis prod.exhaust)
    then show ?thesis
    proof (cases rule: commit_catalogue_cases)
      case (failed e)
      then show ?thesis using run Some Inr commit quieter_trans [OF failed(2) invalidateCatalogue_quieter]
        by (auto simp: updateCatalogue_def quieter_notify)
    next
      case (committed cp')
      obtain p where p: "cat_Pending (ct_state (ss_catalogue g)) = Some p" "shown g = Some p"
        using committed(2,3) by (auto simp: update_stage_def shown_def split: option.splits)
      then obtain p' where p': "shown h = Some p'" "scat_Complete p' \<Longrightarrow> scat_Complete p"
          "scat_Rundowns p' = update_rows ch (read_row ns) (scat_Rundowns p)"
        using committed(3,4) reviseCatalogue_shows by (fastforce simp: update_stage_def)
      have ids: "set (map scr_ID (scat_Rundowns p')) = set (map scr_ID (scat_Rundowns p)) - set_option (removed_id sv msg raw)"
        unfolding p'(3) update_rows_ids using Some Inr by (cases ch) (simp_all add: removed_id_def read_row_def)
      have g': "er = None" "g' = notifyCatalogue h" using run Some Inr commit committed(1) by (auto simp: updateCatalogue_def)
      then have "shown g' = shown h" "rundowns g' = rundowns h" "ss_enumerated g' = ss_enumerated h"
        by (simp_all add: notifyCatalogue_def shown_def rundowns_def)
      then show ?thesis using g'(1) committed(5,6) p(2) p' ids by (auto simp: complete_shown_def)
    qed
  qed
qed

lemma refusal_member_quieter: "quieter g (snd (refusal_member sv io i g))"
proof -
  obtain r h where run: "retain_step sv (si_retain io i) i False g = (r, h)" by (metis prod.exhaust)
  note R = retain_step_quieter(1) [OF run]
  have U: "quieter g (h\<lparr>ss_unenrolled := x\<rparr>)" for x
    by (rule quieter_trans [OF R quieter_same]) (simp_all add: rundowns_def)
  show ?thesis using run R U quieter_trans [OF R failed_member_quieter]
    by (auto simp: refusal_member_def Let_def split: option.splits sum.splits)
qed

lemma quieter_unenrolled: "quieter g (h\<lparr>ss_unenrolled := x\<rparr>) = quieter g h"
  by (simp add: quieter_def shown_def complete_shown_def rundowns_def)

lemma keep_refusal_quieter: "quieter g (snd (keep_refusal sv io input i out g))"
proof -
  obtain r h where "refusal_member sv io i g = (r, h)" by (metis prod.exhaust)
  then show ?thesis using refusal_member_quieter [of g sv io i]
    by (auto simp: keep_refusal_def Let_def case_prod_beta quieter_unenrolled split: sum.splits)
qed

lemma refuse_unenrolled_quieter: "quieter g (snd (refuse_unenrolled sv io render input msg g))"
proof -
  obtain r h where "invalidateCatalogue sv (si_cat io) g = (r, h)" by (metis prod.exhaust)
  moreover from this have "quieter g h" using invalidateCatalogue_quieter [of g sv "si_cat io"] by simp
  ultimately show ?thesis using quieter_trans [OF _ keep_refusal_quieter]
    by (auto simp: refuse_unenrolled_def Let_def split: sum.splits)
qed

lemma apply_unenrolled_quieter: "quieter g (snd (apply_unenrolled sv io render input msg g))"
  by (auto simp: apply_unenrolled_def refuse_unenrolled_quieter set_Uncertain_quieter split: option.splits sum.splits)

section \<open>Runs\<close>

text \<open>What happened to the listing, the newest event first.\<close>

datatype listing_event = Listed time "string list" | Removed string

fun in_force :: "listing_event list \<Rightarrow> string set" where
  "in_force [] = {}"
| "in_force (Listed t ids # log) = set ids"
| "in_force (Removed i # log) = in_force log - {i}"

fun listed_at :: "listing_event list \<Rightarrow> time option" where
  "listed_at [] = None"
| "listed_at (Listed t ids # log) = Some t"
| "listed_at (Removed i # log) = listed_at log"

definition events_of :: "set_env \<Rightarrow> time \<Rightarrow> SourceInput \<Rightarrow> set_message \<Rightarrow> SourceResult \<times> go_error option \<Rightarrow> listing_event list" where
  "events_of sv t input m out =
     (if \<not> sr_Applied (fst out) \<or> snd out \<noteq> None then []
      else case m of
        ListAll \<Rightarrow> [Listed t (listed_ids sv input)]
      | ForRundown msg \<Rightarrow> (case removed_id sv msg (in_Content input) of None \<Rightarrow> [] | Some i \<Rightarrow> [Removed i]))"

text \<open>While the catalogue is shown as complete, it is the listing in force, and every rundown of it is a member.\<close>

definition catalogue_inv :: "listing_event list \<Rightarrow> CommittedSourceSet \<Rightarrow> bool" where
  "catalogue_inv log g \<longleftrightarrow> (\<forall>p. complete_shown g p \<longrightarrow> set (map scr_ID (scat_Rundowns p)) = in_force log \<and> in_force log \<subseteq> rundowns g
     \<and> ss_enumerated g = listed_at log \<and> listed_at log \<noteq> None)"

lemma catalogue_inv_quieter: "catalogue_inv log g \<Longrightarrow> quieter g g' \<Longrightarrow> catalogue_inv log g'"
  unfolding catalogue_inv_def quieter_def complete_shown_def by (elim conjE disjE) auto

lemma apply_enrolled_inv:
  assumes inv: "catalogue_inv log g" and m: "gm_get (ss_byRundown g) (SourceRundown msg) = Some m"
    and run: "apply_enrolled sv io render input msg m g = (out, g')"
  shows "catalogue_inv (events_of sv t input (ForRundown msg) out @ log) g'"
proof -
  obtain o1 e1 m1 where ap: "Apply (sv_source sv) (si_apply io) (si_apply' io) render input msg m = ((o1, e1), m1)" by (metis prod.exhaust)
  let ?h = "g\<lparr>ss_byRundown := gm_set (SourceRundown msg) m1 (ss_byRundown g)\<rparr>"
  have h: "catalogue_inv log ?h" by (rule catalogue_inv_quieter [OF inv quieter_same]) (auto simp: rundowns_def dom_update)
  show ?thesis
  proof (cases "e1 \<noteq> None \<or> sr_Recover o1 \<or> \<not> sr_Applied o1")
    case True
    have out: "out = (o1, e1)" "g' = ?h" using run ap True by (auto simp: apply_enrolled_def Let_def)
    show ?thesis
    proof (cases "e1 \<noteq> None \<or> \<not> sr_Applied o1")
      case True
      then show ?thesis using out h by (auto simp: events_of_def)
    next
      case False
      have "\<not> sr_Recover o1" using ap False by (auto simp: Apply_def answer_only_def refuse_message_def Let_def zero_SourceResult_def
            split: if_splits sum.splits option.splits prod.splits)
      then show ?thesis using True False by simp
    qed
  next
    case False
    obtain e2 g2 where up: "updateCatalogue sv io msg (in_Content input) ?h = (e2, g2)" by (metis prod.exhaust)
    have out: "out = (o1, e2)" "g' = g2" using run ap False up by (auto simp: apply_enrolled_def Let_def)
    note U = updateCatalogue_effect [OF up]
    show ?thesis
    proof (cases "e2 = None")
      case True
      let ?gone = "removed_id sv msg (in_Content input)"
      have ev: "in_force (events_of sv t input (ForRundown msg) out @ log) = in_force log - set_option ?gone"
        "listed_at (events_of sv t input (ForRundown msg) out @ log) = listed_at log"
        using out True False by (auto simp: events_of_def split: option.splits)
      show ?thesis unfolding catalogue_inv_def ev using U True h out(2) unfolding catalogue_inv_def by fastforce
    next
      case F: False
      then show ?thesis using U out catalogue_inv_quieter [OF h] by (simp add: events_of_def)
    qed
  qed
qed

lemma set_reject_idle: "\<not> sr_Applied (fst (set_reject render m reason))"
  by (simp add: set_reject_def zero_SourceResult_def split: sum.splits)

lemma apply_unenrolled_idle: "\<not> sr_Applied (fst (fst (apply_unenrolled sv io render input msg g)))"
  by (auto simp: apply_unenrolled_def refuse_unenrolled_def keep_refusal_def Let_def zero_SourceResult_def set_reject_idle case_prod_beta
      split: option.splits sum.splits prod.splits)

lemma set_Apply_inv:
  assumes inv: "catalogue_inv log g" and run: "set_Apply sv io t render input m g = (out, g')"
  shows "catalogue_inv (events_of sv t input m out @ log) g'"
proof (cases "set_outside t input g \<or> crossReceipt input (is_listing m \<or> is_roster m) (set_rundown m) g \<noteq> Inr False")
  case True
  have idle: "\<not> sr_Applied (fst out)" "g' = g \<or> g' = set_Uncertain sv io (in_Session input) g"
    using True run set_reject_idle
    by (auto simp: set_Apply_def zero_SourceResult_def split: if_splits sum.splits bool.splits prod.splits)
  then show ?thesis using inv catalogue_inv_quieter [OF inv set_Uncertain_quieter] by (auto simp: events_of_def)
next
  case False
  show ?thesis
  proof (cases m)
    case ListAll
    obtain fresh er h where ap: "applyCatalogue sv io t input g = ((fresh, er), h)" by (metis prod.exhaust)
    have out: "out = (zero_SourceResult\<lparr>sr_Applied := fresh\<rparr>, er)" "g' = h"
      using run False ListAll ap by (auto simp: set_Apply_def)
    note A = applyCatalogue_effect [OF ap]
    show ?thesis
    proof (cases fresh)
      case True
      then have "events_of sv t input m out = [Listed t (listed_ids sv input)]" using out A ListAll by (simp add: events_of_def)
      then show ?thesis using A True out(2) by (auto simp: catalogue_inv_def complete_shown_def simp flip: set_map)
    next
      case F: False
      then show ?thesis using out A catalogue_inv_quieter [OF inv] by (simp add: events_of_def)
    qed
  next
    case (ForRundown msg)
    show ?thesis
    proof (cases "gm_get (ss_byRundown g) (SourceRundown msg)")
      case None
      have "(out, g') = apply_unenrolled sv io render input msg g" using run False ForRundown None by (simp add: set_Apply_def)
      then have "\<not> sr_Applied (fst out)" "quieter g g'"
        using apply_unenrolled_idle [of sv io render input msg g] apply_unenrolled_quieter [of g sv io render input msg]
        by (metis fst_conv, metis snd_conv)
      then show ?thesis using catalogue_inv_quieter [OF inv] by (simp add: events_of_def)
    next
      case (Some mem)
      have "apply_enrolled sv io render input msg mem g = (out, g')" using run False ForRundown Some by (simp add: set_Apply_def)
      from apply_enrolled_inv [OF inv Some this] show ?thesis using ForRundown by simp
    qed
  qed
qed

lemma expire_session_keeps:
  assumes "expire_session sv io session (b, g) = (b', g')"
  shows "ss_catalogue g' = ss_catalogue g" "ss_enumerated g' = ss_enumerated g" "ss_timeout g' = ss_timeout g" "rundowns g' = rundowns g"
proof -
  have same: "rundowns (g\<lparr>ss_sessions := x, ss_owners := y\<rparr>) = rundowns g" for x y by (simp add: rundowns_def)
  show "ss_catalogue g' = ss_catalogue g" "ss_enumerated g' = ss_enumerated g" "ss_timeout g' = ss_timeout g" "rundowns g' = rundowns g"
    using assms by (auto simp: expire_session_def set_releaseSession_def map_members_keeps same split: if_splits)
qed

lemma expire_all_keeps:
  assumes "fold (expire_session sv io) sessions (b, g) = (b', g')"
  shows "ss_catalogue g' = ss_catalogue g \<and> ss_enumerated g' = ss_enumerated g \<and> ss_timeout g' = ss_timeout g \<and> rundowns g' = rundowns g"
  using assms
proof (induction sessions arbitrary: b g)
  case (Cons x xs)
  obtain b1 g1 where step: "expire_session sv io x (b, g) = (b1, g1)" by (metis prod.exhaust)
  then show ?case using Cons expire_session_keeps [OF step] by fastforce
qed simp

lemma prepare_quieter: "quieter g (snd (publish_catalogue_prepare sv io t g))"
proof -
  let ?gone = "map fst (filter (\<lambda>(session, seen). t - seen > ss_timeout g) (ss_sessions g))"
  obtain b h where fold: "fold (expire_session sv io) ?gone (False, g) = (b, h)" by (metis prod.exhaust)
  have h: "quieter g h" using expire_all_keeps [OF fold] by (intro quieter_same) simp_all
  show ?thesis using fold h invalidate_after [OF h, of sv "si_cat io"]
    by (auto simp: publish_catalogue_prepare_def Let_def case_prod_beta split: sum.splits)
qed

lemma record_catalogue_quieter: "quieter g (snd (record_catalogue sv io cp g))"
  by (auto simp: record_catalogue_def quieter_notify intro!: commit_keeps_pending split: sum.splits)

lemma finish_quieter: "quieter g (snd (publish_catalogue_finish sv io cp answer g))"
  by (auto simp: publish_catalogue_finish_def record_catalogue_quieter case_prod_beta intro!: commit_keeps_pending split: delivery.splits)

text \<open>
  A set is opened, and then sessions come and go, messages are applied, the catalogue is delivered and members
  deliver their own snapshots, in any order and with any outcome of the file operations.
\<close>

inductive set_run :: "set_env \<Rightarrow> listing_event list \<Rightarrow> CommittedSourceSet \<Rightarrow> bool" for sv where
  start: "NewCommittedSourceSet sv io sd t retained ck token timeout = Inr g \<Longrightarrow> set_run sv [] g"
| observe: "set_run sv log g \<Longrightarrow> set_run sv log (snd (set_Observe sv io t input g))"
| refresh: "set_run sv log g \<Longrightarrow> set_run sv log (set_RefreshSession t session g)"
| disconnected: "set_run sv log g \<Longrightarrow> set_run sv log (set_Disconnected sv io session g)"
| uncertain: "set_run sv log g \<Longrightarrow> set_run sv log (set_Uncertain sv io session g)"
| message: "set_run sv log g \<Longrightarrow> set_Apply sv io t render input m g = (out, g') \<Longrightarrow> set_run sv (events_of sv t input m out @ log) g'"
| prepare: "set_run sv log g \<Longrightarrow> set_run sv log (snd (publish_catalogue_prepare sv io t g))"
| finish: "set_run sv log g \<Longrightarrow> set_run sv log (snd (publish_catalogue_finish sv sio cp answer g))"
| member: "set_run sv log g \<Longrightarrow> gm_get (ss_byRundown g) k = Some m \<Longrightarrow>
    m' \<in> {snd (publish_prepare (sv_source sv) mio t m), snd (publish_finish (sv_source sv) mio scp answer m)} \<Longrightarrow>
    set_run sv log (g\<lparr>ss_byRundown := gm_set k m' (ss_byRundown g)\<rparr>)"

lemma start_incomplete:
  assumes "NewCommittedSourceSet sv io sd t retained ck token timeout = Inr g"
  shows "\<not> complete_shown g p"
proof -
  obtain h u where "invalidateCatalogue sv (si_cat' io) h = (Inr u, g)"
    using assms by (auto simp: NewCommittedSourceSet_def Let_def split: if_splits sum.splits prod.splits)
  then show ?thesis by (rule invalidateCatalogue_incomplete)
qed

lemma set_run_inv: "set_run sv log g \<Longrightarrow> catalogue_inv log g"
proof (induction rule: set_run.induct)
  case (start io sd t retained ck token timeout g)
  then show ?case using start_incomplete by (simp add: catalogue_inv_def)
next
  case (message log g io t render input m out g')
  then show ?case by (metis set_Apply_inv)
next
  case (member log g k m m' mio t scp answer)
  show ?case by (rule catalogue_inv_quieter [OF member.IH quieter_same]) (auto simp: rundowns_def dom_update)
qed (blast intro: catalogue_inv_quieter set_Observe_quieter set_RefreshSession_quieter set_Disconnected_quieter set_Uncertain_quieter
    prepare_quieter finish_quieter)+

text \<open>
  C6. A catalogue is delivered as complete only while a listing of the peer is in force. In every run, with any
  failures and any order of connections, messages and deliveries, when the publisher takes a catalogue that
  says it is complete, then a listing of all rundowns was accepted no longer ago than the peer timeout, the
  catalogue names exactly the rundowns of that listing without those deleted since, and every one of them
  is a member whose messages are applied.
\<close>

theorem complete_catalogue_was_listed:
  assumes run: "set_run sv log g" and deliver: "publish_catalogue_prepare sv io t g = (Inr cp, g')"
    and complete: "cat_Pending cp = Some p" "scat_Complete p"
  shows "\<exists>l. listed_at log = Some l \<and> t - l \<le> ss_timeout g \<and> set (map scr_ID (scat_Rundowns p)) = in_force log
    \<and> (\<forall>k \<in> in_force log. RetainsRundown k g')"
proof -
  let ?gone = "map fst (filter (\<lambda>(session, seen). t - seen > ss_timeout g) (ss_sessions g))"
  obtain b h where fold: "fold (expire_session sv io) ?gone (False, g) = (b, h)" by (metis prod.exhaust)
  note H = expire_all_keeps [OF fold]
  let ?stale = "b \<or> (case ss_enumerated h of None \<Rightarrow> False | Some l \<Rightarrow> t - l > ss_timeout h)"
  have cp: "catalogue_Checkpoint (ss_catalogue g') = Inr cp"
    using deliver fold by (auto simp: publish_catalogue_prepare_def Let_def split: sum.splits prod.splits if_splits)
  then have shown: "complete_shown g' p" using complete by (auto simp: complete_shown_def shown_def catalogue_Checkpoint_def split: if_splits)
  have inv: "catalogue_inv log g'"
    using catalogue_inv_quieter [OF set_run_inv [OF run] prepare_quieter, of sv io t] deliver by simp
  have fresh: "\<not> ?stale"
  proof
    assume stale: ?stale
    have "invalidateCatalogue sv (si_cat io) h = (Inr (), g')"
      using deliver fold stale by (auto simp: publish_catalogue_prepare_def Let_def split: sum.splits prod.splits if_splits)
    then show False using invalidateCatalogue_incomplete shown by blast
  qed
  then have "g' = h" using deliver fold by (auto simp: publish_catalogue_prepare_def Let_def split: sum.splits prod.splits)
  moreover obtain l where "listed_at log = Some l" using inv shown by (auto simp: catalogue_inv_def)
  ultimately show ?thesis using inv shown fresh H unfolding catalogue_inv_def RetainsRundown_iff
    by (intro exI [of _ l]) auto
qed

section \<open>Reused message identifiers\<close>

lemma cross_members_clear:
  "cross_members input response ms = Inr False \<Longrightarrow> (k, m) \<in> set ms \<Longrightarrow>
   \<exists>cp. Checkpoint (cs_store m) = Inr cp \<and> \<not> receipt_conflict input response (cp_Receipts cp)"
  by (induction input response ms rule: cross_members.induct) (auto split: sum.splits if_splits)

lemma gm_get_map: "gm_get (map (\<lambda>(k, m). (k, f k m)) ms) k = map_option (f k) (gm_get ms k)"
  by (induction ms) auto

lemma other_members_in: "gm_get (ss_byRundown g) k = Some m \<Longrightarrow> k \<noteq> rundown \<Longrightarrow> (k, m) \<in> set (other_members rundown g)"
  by (auto simp: other_members_def dest: map_of_SomeD)

lemma set_Uncertain_members:
  "ss_byRundown (set_Uncertain sv io session g) = ss_byRundown (map_members (\<lambda>k. Uncertain (sv_source sv) (si_inval io k) session) g)"
  "ss_unenrolled (set_Uncertain sv io session g) = ss_unenrolled g"
  by (simp_all add: set_Uncertain_def Let_def invalidateCatalogue_def commit_catalogue_def notifyCatalogue_def map_members_def case_prod_beta
      split: sum.split)

text \<open>
  C9. A message identifier that one rundown has answered is not accepted for another. The identifiers of a peer
  count for the whole source, while receipts are kept per rundown: a message that reuses an identifier
  recorded for another member is not applied, to no member, and no receipt is written for it; what the
  members hold is at most marked as stale.
\<close>

theorem reused_message_id_refused:
  assumes "in_MessageID input \<noteq> []" and other: "gm_get (ss_byRundown g) k = Some other" "k \<noteq> set_rundown m"
    and used: "Checkpoint (cs_store other) = Inr cp" "receipt_conflict input (is_listing m \<or> is_roster m) (cp_Receipts cp)"
    and run: "set_Apply sv io t render input m g = (out, g')"
  shows "\<not> sr_Applied (fst out) \<and> ss_unenrolled g' = ss_unenrolled g
    \<and> (\<forall>i. gm_get (ss_byRundown g') i = gm_get (ss_byRundown g) i
         \<or> gm_get (ss_byRundown g') i = map_option (Uncertain (sv_source sv) (si_inval io i) (in_Session input)) (gm_get (ss_byRundown g) i))"
proof -
  have "cross_members input (is_listing m \<or> is_roster m) (other_members (set_rundown m) g) \<noteq> Inr False"
    using cross_members_clear [OF _ other_members_in [OF other]] used by auto
  then have "crossReceipt input (is_listing m \<or> is_roster m) (set_rundown m) g \<noteq> Inr False"
    using assms(1) by (auto simp: crossReceipt_def split: sum.splits bool.splits)
  then have "\<not> sr_Applied (fst out)" "g' = g \<or> g' = set_Uncertain sv io (in_Session input) g"
    using run set_reject_idle by (auto simp: set_Apply_def zero_SourceResult_def split: if_splits sum.splits bool.splits prod.splits)
  then show ?thesis by (auto simp: set_Uncertain_members) (auto simp: map_members_def gm_get_map)
qed

text \<open>A new source set receives a listing with one rundown, and the publisher takes the catalogue.\<close>

definition listing_env :: set_env where
  "listing_env = \<lparr>sv_source = \<lparr>se_go = example_env, se_sha256 = (\<lambda>_. replicate 64 CHR ''a''),
       se_children = (\<lambda>_. Inr [Element ''ro'' [] [Element ''roID'' [] [CharData ''R1'' ''R1''] []] []]),
       se_json_length = (\<lambda>_. 0), se_digest = (\<lambda>_. ''d'')\<rparr>,
     sv_url_Parse = (\<lambda>_. Some \<lparr>url_Scheme = ''http'', url_loopback = True, url_user = False, url_RawQuery = [], url_Fragment = [],
       url_Path = ''/v1/openmos-snapshots'', url_RawPath = []\<rparr>),
     sv_cat_length = (\<lambda>_. 0), sv_cat_digest = (\<lambda>_. ''c''), sv_members_digest = (\<lambda>_. ''m'')\<rparr>"

definition io_works :: set_io where
  "io_works = \<lparr>si_cat = Saved, si_cat' = Saved, si_apply = (False, Saved), si_apply' = (False, Saved), si_new = (\<lambda>_. (False, Saved)),
     si_inval = (\<lambda>_. (False, Saved)), si_retain = (\<lambda>_. member_io_ok)\<rparr>"

definition fresh_catalogue :: "source_catalogue \<times> source_disk" where
  "fresh_catalogue = (opened_catalogue set_binding empty_catalogue, \<lparr>kd_catalogue = Holds (new_catalogue_file (set_codec listing_env) set_binding empty_catalogue),
     kd_inventory = Absent, kd_root = NoEntry, kd_dirs = [], kd_stages = []\<rparr>)"

definition fresh_set :: "CommittedSourceSet result" where
  "fresh_set = NewCommittedSourceSet listing_env io_works (\<lambda>_. usable_dir) 0 [] fresh_catalogue ''t'' 5"

definition listing_input :: SourceInput where
  "listing_input = \<lparr>in_Transport = ''tcp'', in_Scope = ''tcp:ro'', in_NCSID = ''N'', in_MessageID = ''1'', in_Session = ''c1'', in_Content = ''x''\<rparr>"

definition connected_set :: CommittedSourceSet where
  "connected_set = snd (set_Observe listing_env io_works 1 listing_input (projr fresh_set))"

definition listed_set :: "(SourceResult \<times> go_error option) \<times> CommittedSourceSet" where
  "listed_set = set_Apply listing_env io_works 2 (\<lambda>_ _. Inr ''ack'') listing_input ListAll connected_set"

definition delivered :: "catalogue_cp result \<times> CommittedSourceSet" where
  "delivered = publish_catalogue_prepare listing_env io_works 4 (snd listed_set)"

lemma listed_set_run: "set_run listing_env [Listed 2 [''R1'']] (snd listed_set)"
proof -
  have "\<not> isl fresh_set" by code_simp
  then have "NewCommittedSourceSet listing_env io_works (\<lambda>_. usable_dir) 0 [] fresh_catalogue ''t'' 5 = Inr (projr fresh_set)"
    by (simp add: fresh_set_def)
  then have "set_run listing_env [] connected_set" unfolding connected_set_def by (intro set_run.observe set_run.start)
  moreover have "set_Apply listing_env io_works 2 (\<lambda>_ _. Inr ''ack'') listing_input ListAll connected_set = (fst listed_set, snd listed_set)"
    by (simp add: listed_set_def)
  ultimately have "set_run listing_env (events_of listing_env 2 listing_input ListAll (fst listed_set) @ []) (snd listed_set)"
    by (rule set_run.message)
  moreover have "events_of listing_env 2 listing_input ListAll (fst listed_set) = [Listed 2 [''R1'']]" by code_simp
  ultimately show ?thesis by simp
qed

theorem complete_catalogue_was_listed_witness:
  "map scr_ID (scat_Rundowns (the (cat_Pending (projr (fst delivered))))) = [''R1''] \<and> RetainsRundown ''R1'' (snd delivered)"
proof -
  let ?cp = "projr (fst delivered)" and ?p = "the (cat_Pending (projr (fst delivered)))"
  have "\<not> isl (fst delivered)" by code_simp
  then have deliver: "publish_catalogue_prepare listing_env io_works 4 (snd listed_set) = (Inr ?cp, snd delivered)"
    by (simp add: delivered_def prod_eq_iff)
  have "cat_Pending ?cp \<noteq> None" "scat_Complete ?p" by code_simp+
  then have p: "cat_Pending ?cp = Some ?p" "scat_Complete ?p" by simp_all
  have "map scr_ID (scat_Rundowns ?p) = [''R1'']" by code_simp
  then show ?thesis using complete_catalogue_was_listed [OF listed_set_run deliver p] by simp
qed

text \<open>A message for another rundown reuses the identifier of a message that \<open>R1\<close> has answered.\<close>

definition answered_input :: SourceInput where
  "answered_input = listing_input\<lparr>in_MessageID := ''2'', in_Content := ''y''\<rparr>"

definition answered_set :: CommittedSourceSet where
  "answered_set = snd (set_Apply listing_env io_works 3 (\<lambda>_ _. Inr ''ack'') answered_input (ForRundown (RoDelete ''R1'')) (snd listed_set))"

theorem reused_message_id_refused_witness:
  "\<not> sr_Applied (fst (fst (set_Apply listing_env io_works 4 (\<lambda>_ _. Inr ''ack'') answered_input (ForRundown (RoDelete ''R9'')) answered_set)))"
proof -
  let ?m = "ForRundown (RoDelete ''R9'')" and ?member = "the (gm_get (ss_byRundown answered_set) ''R1'')"
  let ?cp = "projr (Checkpoint (cs_store ?member))"
  have "gm_get (ss_byRundown answered_set) ''R1'' \<noteq> None" "\<not> isl (Checkpoint (cs_store ?member))" by code_simp+
  then have other: "gm_get (ss_byRundown answered_set) ''R1'' = Some ?member" "Checkpoint (cs_store ?member) = Inr ?cp" by auto
  have used: "receipt_conflict answered_input (is_listing ?m \<or> is_roster ?m) (cp_Receipts ?cp)" by code_simp
  have "in_MessageID answered_input \<noteq> []" "''R1'' \<noteq> set_rundown ?m"
    by (simp_all add: answered_input_def set_rundown_def SourceRundown_def)
  from reused_message_id_refused [OF this(1) other(1) this(2) other(2) used prod.collapse [symmetric]] show ?thesis by blast
qed

end
