(* ===== verification/Publisher.thy ===== *)
theory Publisher
  imports GoLib
begin

text \<open>
  The scheduling of deliveries: \<open>runBoundedPublisher\<close> of \<open>src/internal/service/source_catalogue_publisher.go\<close>, in
  which four workers share the catalogue and the rundowns of a source, and the loop of \<open>source_publisher.go\<close> for one
  rundown. What one delivery does is modelled in Source, SourceSync and SourceSet; here it is an outcome.

  Slot 0 is the catalogue, slot \<open>i + 1\<close> the \<open>i\<close>-th rundown. An event is a tick, a result taken from the channel,
  a worker that finishes, a wake-up or a new rundown. A turn offers the due slots in cyclic order from the cursor to
  the workers that wait for a job; how many wait is part of the event, bounded by the workers that are not busy.
\<close>

section \<open>State\<close>

datatype outcome = Delivered | Continues | Halts | Fails

text \<open>\<open>sc_next\<close> is \<open>None\<close> for the zero time. \<open>sc_running\<close> are the slots at a worker, \<open>sc_done\<close> the channel of results.\<close>

record scheduler =
  sc_next :: "time option list"
  sc_busy :: "bool list"
  sc_halted :: "bool list"
  sc_wake :: "bool list"
  sc_cursor :: nat
  sc_running :: "nat list"
  sc_done :: "(nat \<times> outcome) list"

definition workers :: nat where "workers = 4"

definition new_scheduler :: scheduler where
  "new_scheduler = \<lparr>sc_next = [None], sc_busy = [False], sc_halted = [False], sc_wake = [False], sc_cursor = 0,
     sc_running = [], sc_done = []\<rparr>"

definition slots :: "scheduler \<Rightarrow> nat" where "slots s = length (sc_next s)"

section \<open>Operations\<close>

text \<open>The delay after a delivery, and whether the loop of a single rundown goes on.\<close>

definition delay_after :: "outcome \<Rightarrow> time" where
  "delay_after r = (case r of Delivered \<Rightarrow> 10000000000 | Continues \<Rightarrow> 0 | _ \<Rightarrow> 1000000000)"

definition publisher_delay :: "outcome \<Rightarrow> time option" where
  "publisher_delay r = (case r of Halts \<Rightarrow> None | _ \<Rightarrow> Some (delay_after r))"

definition take_result :: "time \<Rightarrow> nat \<Rightarrow> outcome \<Rightarrow> scheduler \<Rightarrow> scheduler" where
  "take_result t i r s = s\<lparr>sc_busy := (sc_busy s)[i := False], sc_halted := (sc_halted s)[i := (r = Halts)],
     sc_next := (sc_next s)[i := Some (t + delay_after r)]\<rparr>"

definition add_member :: "scheduler \<Rightarrow> scheduler" where
  "add_member s = s\<lparr>sc_next := sc_next s @ [None], sc_busy := sc_busy s @ [False], sc_halted := sc_halted s @ [False],
     sc_wake := sc_wake s @ [False]\<rparr>"

definition due :: "time \<Rightarrow> time option \<Rightarrow> bool" where
  "due t n = (case n of None \<Rightarrow> True | Some n \<Rightarrow> n \<le> t)"

text \<open>The wake-up of a slot is taken before its time is looked at.\<close>

definition take_wake :: "nat \<Rightarrow> scheduler \<Rightarrow> scheduler" where
  "take_wake i s = (if sc_wake s ! i then s\<lparr>sc_next := (sc_next s)[i := None], sc_wake := (sc_wake s)[i := False]\<rparr> else s)"

definition start_slot :: "nat \<Rightarrow> scheduler \<Rightarrow> scheduler" where
  "start_slot i s = s\<lparr>sc_busy := (sc_busy s)[i := True], sc_cursor := (i + 1) mod slots s, sc_running := sc_running s @ [i]\<rparr>"

text \<open>The inner loop over the slots in the given order; \<open>free\<close> workers wait. It gives the slots that were started.\<close>

fun offer :: "time \<Rightarrow> nat list \<Rightarrow> nat \<Rightarrow> scheduler \<Rightarrow> nat list \<times> scheduler" where
  "offer t [] free s = ([], s)"
| "offer t (i # is) free s =
     (if sc_busy s ! i \<or> sc_halted s ! i then offer t is free s
      else
        let s = take_wake i s in
        if \<not> due t (sc_next s ! i) then offer t is free s
        else case free of
          0 \<Rightarrow> offer t is 0 s
        | Suc k \<Rightarrow> (case offer t is k (start_slot i s) of (started, s) \<Rightarrow> (i # started, s)))"

definition cyclic :: "nat \<Rightarrow> nat \<Rightarrow> nat list" where
  "cyclic start n = map (\<lambda>k. (start + k) mod n) [0..<n]"

definition waiting_workers :: "nat \<Rightarrow> scheduler \<Rightarrow> nat" where
  "waiting_workers k s = min k (workers - length (sc_running s))"

definition turn :: "time \<Rightarrow> nat \<Rightarrow> scheduler \<Rightarrow> nat list \<times> scheduler" where
  "turn t k s = offer t (cyclic (sc_cursor s) (slots s)) (waiting_workers k s) s"

datatype event = Tick time nat | Result time nat | Finished nat outcome | Woken nat | Joined

text \<open>One event; one that cannot happen changes nothing.\<close>

definition pub_step :: "event \<Rightarrow> scheduler \<Rightarrow> nat list \<times> scheduler" where
  "pub_step ev s = (case ev of
      Tick t k \<Rightarrow> turn t k s
    | Result t k \<Rightarrow> (case sc_done s of
        [] \<Rightarrow> ([], s)
      | (i, r) # rest \<Rightarrow> turn t k (take_result t i r (s\<lparr>sc_done := rest\<rparr>)))
    | Finished i r \<Rightarrow>
        if i \<in> set (sc_running s) \<and> length (sc_done s) < 4
        then ([], s\<lparr>sc_running := remove1 i (sc_running s), sc_done := sc_done s @ [(i, r)]\<rparr>) else ([], s)
    | Woken i \<Rightarrow> ([], if i < slots s then s\<lparr>sc_wake := (sc_wake s)[i := True]\<rparr> else s)
    | Joined \<Rightarrow> ([], add_member s))"

fun pub_run :: "event list \<Rightarrow> scheduler \<Rightarrow> nat list \<times> scheduler" where
  "pub_run [] s = ([], s)"
| "pub_run (ev # evs) s =
     (case pub_step ev s of (started, s) \<Rightarrow> case pub_run evs s of (started', s) \<Rightarrow> (started @ started', s))"

section \<open>The invariant\<close>

definition in_flight :: "scheduler \<Rightarrow> nat list" where
  "in_flight s = sc_running s @ map fst (sc_done s)"

definition sched_ok :: "scheduler \<Rightarrow> bool" where
  "sched_ok s \<longleftrightarrow> 0 < slots s \<and> length (sc_busy s) = slots s \<and> length (sc_halted s) = slots s \<and> length (sc_wake s) = slots s
     \<and> sc_cursor s < slots s \<and> length (sc_running s) \<le> workers \<and> length (sc_done s) \<le> 4
     \<and> distinct (in_flight s) \<and> (\<forall>i. i \<in> set (in_flight s) \<longleftrightarrow> i < slots s \<and> sc_busy s ! i)"

lemma sched_ok_new: "sched_ok new_scheduler"
  by (auto simp: sched_ok_def new_scheduler_def slots_def in_flight_def)

lemma sched_ok_take_wake: "sched_ok s \<Longrightarrow> sched_ok (take_wake i s)"
  by (simp add: sched_ok_def take_wake_def slots_def in_flight_def)

lemma sched_ok_start:
  assumes "sched_ok s" "i < slots s" "\<not> sc_busy s ! i" "length (sc_running s) < workers"
  shows "sched_ok (start_slot i s)"
  using assms by (auto simp: sched_ok_def start_slot_def slots_def in_flight_def nth_list_update)

lemma take_wake_simps [simp]:
  "sc_busy (take_wake i s) = sc_busy s" "sc_halted (take_wake i s) = sc_halted s" "sc_cursor (take_wake i s) = sc_cursor s"
  "sc_running (take_wake i s) = sc_running s" "sc_done (take_wake i s) = sc_done s" "slots (take_wake i s) = slots s"
  by (simp_all add: take_wake_def slots_def)

lemma start_slot_simps [simp]:
  "sc_busy (start_slot i s) = (sc_busy s)[i := True]" "sc_halted (start_slot i s) = sc_halted s"
  "sc_next (start_slot i s) = sc_next s" "sc_wake (start_slot i s) = sc_wake s"
  "sc_cursor (start_slot i s) = (i + 1) mod slots s" "sc_running (start_slot i s) = sc_running s @ [i]"
  "slots (start_slot i s) = slots s"
  by (simp_all add: start_slot_def slots_def)

lemma offer_ok:
  assumes "offer t is free s = (started, s')" "sched_ok s" "\<forall>i\<in>set is. i < slots s" "length (sc_running s) + free \<le> workers"
  shows "sched_ok s' \<and> slots s' = slots s"
  using assms
proof (induction t "is" free s arbitrary: started s' rule: offer.induct)
  case (2 t i "is" free s)
  show ?case
  proof (cases "sc_busy s ! i \<or> sc_halted s ! i")
    case True
    then show ?thesis using 2(1) 2(5-8) by simp
  next
    case False
    note skip = 2(2) [OF False refl] and none = 2(3) [OF False refl] and some = 2(4) [OF False refl]
    show ?thesis
    proof (cases "due t (sc_next (take_wake i s) ! i)")
      case False
      then show ?thesis using skip 2(5-8) \<open>\<not> (sc_busy s ! i \<or> sc_halted s ! i)\<close> sched_ok_take_wake by (simp add: Let_def)
    next
      case True
      show ?thesis
      proof (cases free)
        case 0
        then show ?thesis using none True 2(5-8) \<open>\<not> (sc_busy s ! i \<or> sc_halted s ! i)\<close> sched_ok_take_wake by (simp add: Let_def)
      next
        case (Suc k)
        obtain st s1 where o: "offer t is k (start_slot i (take_wake i s)) = (st, s1)" by fastforce
        have "sched_ok (start_slot i (take_wake i s))"
          using sched_ok_start [OF sched_ok_take_wake [OF 2(6)], of i] 2(7,8) Suc \<open>\<not> (sc_busy s ! i \<or> sc_halted s ! i)\<close> by simp
        then have "sched_ok s1 \<and> slots s1 = slots s"
          using some [of k st s1] True Suc o 2(7,8) by simp
        then show ?thesis using 2(5) o Suc True \<open>\<not> (sc_busy s ! i \<or> sc_halted s ! i)\<close> by (simp add: Let_def)
      qed
    qed
  qed
qed simp

lemma cyclic_bound: "0 < n \<Longrightarrow> i \<in> set (cyclic c n) \<Longrightarrow> i < n"
  by (auto simp: cyclic_def)

lemma turn_ok:
  assumes "turn t k s = (started, s')" "sched_ok s"
  shows "sched_ok s' \<and> slots s' = slots s"
proof (rule offer_ok)
  show "offer t (cyclic (sc_cursor s) (slots s)) (waiting_workers k s) s = (started, s')" using assms(1) by (simp add: turn_def)
  show "\<forall>i\<in>set (cyclic (sc_cursor s) (slots s)). i < slots s"
    using assms(2) cyclic_bound [of "slots s"] by (auto simp: sched_ok_def)
  have "waiting_workers k s \<le> workers - length (sc_running s)" by (simp add: waiting_workers_def)
  moreover have "length (sc_running s) \<le> workers" using assms(2) by (simp add: sched_ok_def)
  ultimately show "length (sc_running s) + waiting_workers k s \<le> workers" by linarith
qed (rule assms(2))

lemma take_result_ok:
  assumes "sched_ok s" "sc_done s = (i, r) # rest"
  shows "sched_ok (take_result t i r (s\<lparr>sc_done := rest\<rparr>))"
proof -
  have busy: "\<forall>j. j = i \<or> j \<in> set (sc_running s) \<or> j \<in> fst ` set rest \<longleftrightarrow> j < slots s \<and> sc_busy s ! j"
    and new: "i \<notin> set (sc_running s)" "i \<notin> fst ` set rest" and n: "length (sc_busy s) = slots s"
    using assms by (auto simp: sched_ok_def in_flight_def)
  have "j \<in> set (sc_running s) \<or> j \<in> fst ` set rest \<longleftrightarrow> j < slots s \<and> (sc_busy s)[i := False] ! j" for j
    using busy new n by (cases "j = i") auto
  then show ?thesis using assms by (auto simp: sched_ok_def take_result_def slots_def in_flight_def)
qed

lemma finished_ok:
  assumes "sched_ok s" "i \<in> set (sc_running s)" "length (sc_done s) < 4"
  shows "sched_ok (s\<lparr>sc_running := remove1 i (sc_running s), sc_done := sc_done s @ [(i, r)]\<rparr>)"
  using assms by (auto simp: sched_ok_def slots_def in_flight_def length_remove1)

lemma add_member_ok:
  assumes "sched_ok s"
  shows "sched_ok (add_member s)"
proof -
  have "j < Suc (slots s) \<and> (sc_busy s @ [False]) ! j \<longleftrightarrow> j < slots s \<and> sc_busy s ! j" for j
    using assms by (auto simp: sched_ok_def nth_append less_Suc_eq)
  then show ?thesis using assms by (auto simp: sched_ok_def add_member_def slots_def in_flight_def)
qed

lemma woken_ok: "sched_ok s \<Longrightarrow> sched_ok (s\<lparr>sc_wake := (sc_wake s)[i := True]\<rparr>)"
  by (simp add: sched_ok_def slots_def in_flight_def)

lemma pub_step_ok:
  assumes "sched_ok s" "pub_step ev s = (started, s')"
  shows "sched_ok s'"
proof (cases ev)
  case (Result t k)
  then show ?thesis using assms take_result_ok [OF assms(1)]
    by (auto simp: pub_step_def dest: turn_ok split: list.splits)
qed (use assms in \<open>auto simp: pub_step_def finished_ok add_member_ok woken_ok dest: turn_ok split: if_splits\<close>)

lemma pub_run_ok: "sched_ok s \<Longrightarrow> pub_run evs s = (started, s') \<Longrightarrow> sched_ok s'"
  by (induction evs arbitrary: s started s') (auto dest: pub_step_ok split: prod.splits)

text \<open>
  In every run of the publisher at most four deliveries are under way, and none of them for the same rundown
  twice: a rundown is not offered again before its result was taken.
\<close>

theorem deliveries_bounded:
  "let s = snd (pub_run evs new_scheduler) in
     length (sc_running s) \<le> 4 \<and> distinct (sc_running s @ map fst (sc_done s)) \<and> length (sc_done s) \<le> 4"
  using pub_run_ok [OF sched_ok_new, of evs "fst (pub_run evs new_scheduler)" "snd (pub_run evs new_scheduler)"]
  by (simp add: sched_ok_def workers_def in_flight_def Let_def)

section \<open>No rundown is passed over\<close>

definition wants :: "time \<Rightarrow> nat \<Rightarrow> scheduler \<Rightarrow> bool" where
  "wants t i s \<longleftrightarrow> i < slots s \<and> \<not> sc_busy s ! i \<and> \<not> sc_halted s ! i \<and> (sc_wake s ! i \<or> due t (sc_next s ! i))"

text \<open>How many slots are before \<open>i\<close> in the order of a turn.\<close>

definition ahead :: "nat \<Rightarrow> scheduler \<Rightarrow> nat" where
  "ahead i s = (i + slots s - sc_cursor s) mod slots s"

lemma due_mono: "due t n \<Longrightarrow> t \<le> t' \<Longrightarrow> due t' n"
  by (auto simp: due_def split: option.splits)

lemma wants_mono: "wants t i s \<Longrightarrow> t \<le> t' \<Longrightarrow> wants t' i s"
  by (auto simp: wants_def due_mono)

lemma wants_take_wake:
  assumes "wants t i s"
  shows "wants t i (take_wake j s)"
proof (cases "j = i \<and> sc_wake s ! i")
  case True
  then have "sc_next (take_wake j s) ! i = None" using assms by (simp add: take_wake_def wants_def slots_def)
  then show ?thesis using assms by (simp add: wants_def due_def)
next
  case False
  then have "sc_next (take_wake j s) ! i = sc_next s ! i" "sc_wake (take_wake j s) ! i = sc_wake s ! i"
    by (cases "j = i"; simp add: take_wake_def)+
  then show ?thesis using assms by (simp add: wants_def)
qed

lemma wants_due: "wants t i s \<Longrightarrow> due t (sc_next (take_wake i s) ! i)"
  by (auto simp: wants_def take_wake_def due_def slots_def)

lemma wants_start: "wants t i s \<Longrightarrow> j \<noteq> i \<Longrightarrow> wants t i (start_slot j s)"
  by (simp add: wants_def)

lemma offer_wants:
  assumes "offer t is free s = (started, s')" "wants t i s" "i \<notin> set started"
  shows "wants t i s'"
  using assms
proof (induction t "is" free s arbitrary: started s' rule: offer.induct)
  case (2 t j "is" free s)
  show ?case
  proof (cases "sc_busy s ! j \<or> sc_halted s ! j")
    case True
    then show ?thesis using 2(1) 2(5-7) by simp
  next
    case False
    then show ?thesis
      using 2(2) [OF False refl] 2(3) [OF False refl] 2(4) [OF False refl] 2(5-7) wants_take_wake [of t i s j]
        wants_start [of t i "take_wake j s" j]
      by (auto simp: Let_def split: if_splits nat.splits prod.splits)
  qed
qed simp

lemma offer_slots: "offer t is free s = (started, s') \<Longrightarrow> slots s' = slots s"
  by (induction t "is" free s arbitrary: started s' rule: offer.induct)
    (auto simp: Let_def split: if_splits nat.splits prod.splits)

lemma offer_no_worker: "offer t is 0 s = (started, s') \<Longrightarrow> started = [] \<and> sc_cursor s' = sc_cursor s"
  by (induction "is" arbitrary: s started s') (auto simp: Let_def split: if_splits)

lemma offer_moves_cursor:
  assumes "offer t (pre @ i # post) free s = (started, s')" "0 < free" "wants t i s" "i \<notin> set started" "i \<notin> set pre"
  shows "\<exists>m < length pre. sc_cursor s' = (pre ! m + 1) mod slots s"
  using assms
proof (induction pre arbitrary: free s started s')
  case Nil
  then have "i \<in> set started"
    using wants_due [OF Nil(3)] by (auto simp: wants_def Let_def split: nat.splits prod.splits)
  then show ?case using Nil(4) by simp
next
  case (Cons j pre)
  have ne: "j \<noteq> i" "i \<notin> set pre" using Cons.prems(5) by auto
  let ?s = "take_wake j s"
  have step: "\<exists>m < length (j # pre). sc_cursor s' = ((j # pre) ! m + 1) mod slots s"
    if "offer t (pre @ i # post) free u = (started', s')" "wants t i u" "0 < free" "i \<notin> set started'" "slots u = slots s" for u free started'
    using Cons.IH [OF that(1) that(3,2,4) ne(2)] that(5) by auto
  show ?case
  proof (cases "sc_busy s ! j \<or> sc_halted s ! j \<or> \<not> due t (sc_next ?s ! j)")
    case True
    then have "offer t (pre @ i # post) free (if sc_busy s ! j \<or> sc_halted s ! j then s else ?s) = (started, s')"
      using Cons.prems(1) by (auto simp: Let_def split: if_splits)
    then show ?thesis using step Cons.prems wants_take_wake [of t i s j] by (auto split: if_splits)
  next
    case False
    obtain k where k: "free = Suc k" using Cons.prems(2) by (cases free) auto
    obtain st where st: "offer t (pre @ i # post) k (start_slot j ?s) = (st, s')" "started = j # st"
      using Cons.prems(1) False k by (auto simp: Let_def split: prod.splits)
    show ?thesis
    proof (cases k)
      case 0
      then show ?thesis using offer_no_worker [of t "pre @ i # post" "start_slot j ?s" st s'] st by auto
    next
      case (Suc l)
      then show ?thesis using step [OF st(1)] st(2) Cons.prems wants_start [OF wants_take_wake [OF Cons.prems(3)] ne(1)] by simp
    qed
  qed
qed

lemma cyclic_split:
  assumes "i < n" "c < n"
  defines "d \<equiv> (i + n - c) mod n"
  shows "\<exists>post. cyclic c n = map (\<lambda>k. (c + k) mod n) [0..<d] @ i # post" "d < n"
proof -
  show d: "d < n" using assms by simp
  have "(c + d) mod n = (c + (i + n - c)) mod n" unfolding d_def by (simp add: mod_add_right_eq)
  also have "\<dots> = i" using assms by simp
  finally have i: "(c + d) mod n = i" .
  have "[0..<n] = [0..<d] @ d # [Suc d..<n]"
    using d upt_add_eq_append [of 0 d "n - d"] upt_conv_Cons [of d n] by simp
  then show "\<exists>post. cyclic c n = map (\<lambda>k. (c + k) mod n) [0..<d] @ i # post" using i by (simp add: cyclic_def)
qed

lemma mod_twice: "x < 2 * n \<Longrightarrow> x mod n = (if x < n then x else x - n)" for x n :: nat
  by (simp add: mod_if)

lemma ahead_value: "i < n \<Longrightarrow> c < n \<Longrightarrow> (i + n - c) mod n = (if c \<le> i then i - c else i + n - c)" for n :: nat
  using mod_twice [of "i + n - c" n] by auto

lemma cyclic_before:
  fixes n :: nat
  assumes "i < n" "c < n" "k < (i + n - c) mod n"
  shows "(c + k) mod n \<noteq> i"
proof -
  have k: "k < (if c \<le> i then i - c else i + n - c)" using assms(3) by (simp only: ahead_value [OF assms(1,2)])
  then have "c + k < 2 * n" using assms(1,2) by (simp split: if_splits)
  then have "(c + k) mod n = (if c + k < n then c + k else c + k - n)" by (rule mod_twice)
  then show ?thesis using k assms(1,2) by (auto split: if_splits)
qed

lemma ahead_after:
  fixes n :: nat
  assumes "i < n" "c < n" "m < (i + n - c) mod n" "c' = ((c + m) mod n + 1) mod n"
  shows "(i + n - c') mod n < (i + n - c) mod n"
proof -
  have m: "m < (if c \<le> i then i - c else i + n - c)" using assms(3) by (simp only: ahead_value [OF assms(1,2)])
  then have "c + m + 1 < 2 * n" using assms(1,2) by (simp split: if_splits)
  then have c': "c' = (if c + m + 1 < n then c + m + 1 else c + m + 1 - n)"
    using assms(4) mod_twice [of "c + m + 1" n] by (simp add: mod_Suc_eq)
  then have "c' < n" using m assms(1,2) by (simp split: if_splits)
  then show ?thesis unfolding ahead_value [OF assms(1,2)] ahead_value [OF assms(1) \<open>c' < n\<close>]
    using c' m assms(1,2) by (auto split: if_splits)
qed

lemma turn_progress:
  assumes "sched_ok s" "wants t i s" "0 < waiting_workers k s" "turn t k s = (started, s')" "i \<notin> set started"
  shows "wants t i s' \<and> ahead i s' < ahead i s"
proof -
  let ?n = "slots s" and ?c = "sc_cursor s" and ?d = "ahead i s"
  have b: "i < ?n" "?c < ?n" using assms(1,2) by (auto simp: wants_def sched_ok_def)
  obtain post where post: "cyclic ?c ?n = map (\<lambda>k. (?c + k) mod ?n) [0..<?d] @ i # post" and d: "?d < ?n"
    using cyclic_split [OF b] by (auto simp: ahead_def)
  have "i \<notin> set (map (\<lambda>k. (?c + k) mod ?n) [0..<?d])"
  proof
    assume "i \<in> set (map (\<lambda>k. (?c + k) mod ?n) [0..<?d])"
    then obtain k where "k < ?d" "i = (?c + k) mod ?n" by auto
    then show False using cyclic_before [OF b, of k] by (simp add: ahead_def)
  qed
  note cut = offer_moves_cursor [OF assms(4) [unfolded turn_def post] assms(3,2,5) this]
  obtain m where m: "m < ?d" "sc_cursor s' = ((?c + m) mod ?n + 1) mod ?n" using cut by auto
  have "slots s' = ?n" using assms(4) offer_slots by (auto simp: turn_def)
  then show ?thesis
    using offer_wants [OF assms(4) [unfolded turn_def] assms(2,5)] ahead_after [OF b, of m "sc_cursor s'"] m by (simp add: ahead_def)
qed

text \<open>The turns of a run at which a worker waited.\<close>

definition served_turn :: "event \<Rightarrow> scheduler \<Rightarrow> bool" where
  "served_turn ev s = (case ev of
      Tick t k \<Rightarrow> 0 < waiting_workers k s | Result t k \<Rightarrow> sc_done s \<noteq> [] \<and> 0 < waiting_workers k s | _ \<Rightarrow> False)"

fun served_turns :: "event list \<Rightarrow> scheduler \<Rightarrow> nat" where
  "served_turns [] s = 0"
| "served_turns (ev # evs) s = (if served_turn ev s then 1 else 0) + served_turns evs (snd (pub_step ev s))"

text \<open>The events after \<open>t\<close> among a fixed set of rundowns.\<close>

definition later :: "time \<Rightarrow> event \<Rightarrow> bool" where
  "later t ev = (case ev of Tick u _ \<Rightarrow> t \<le> u | Result u _ \<Rightarrow> t \<le> u | Joined \<Rightarrow> False | _ \<Rightarrow> True)"

definition clock :: "time \<Rightarrow> event \<Rightarrow> time" where
  "clock t ev = (case ev of Tick u _ \<Rightarrow> u | Result u _ \<Rightarrow> u | _ \<Rightarrow> t)"

fun in_order :: "time \<Rightarrow> event list \<Rightarrow> bool" where
  "in_order t [] \<longleftrightarrow> True"
| "in_order t (ev # evs) \<longleftrightarrow> later t ev \<and> in_order (clock t ev) evs"

lemma turn_wants:
  assumes "wants t i s" "t \<le> u" "turn u k s = (started, s')" "i \<notin> set started"
  shows "wants u i s'"
  using offer_wants [OF assms(3) [unfolded turn_def] wants_mono [OF assms(1,2)] assms(4)] .

lemma idle_turn_cursor: "turn u k s = (started, s') \<Longrightarrow> waiting_workers k s = 0 \<Longrightarrow> sc_cursor s' = sc_cursor s \<and> slots s' = slots s"
  using offer_no_worker [of u _ s started s'] offer_slots [of u _ 0 s started s'] by (auto simp: turn_def)

lemma turn_counts:
  assumes "sched_ok s" "wants t i s" "t \<le> u" "turn u k s = (started, s')" "i \<notin> set started"
  shows "(if 0 < waiting_workers k s then 1 else 0) + ahead i s' \<le> ahead i s"
  using turn_progress [OF assms(1) wants_mono [OF assms(2,3)] _ assms(4,5)] idle_turn_cursor [OF assms(4)]
  by (cases "0 < waiting_workers k s") (auto simp: ahead_def)

text \<open>A slot that wants a turn keeps wanting one in a later sense; the result of another slot does not touch it.\<close>

lemma other_result:
  assumes "sched_ok s" "wants t i s" "sc_done s = (j, r) # rest"
  shows "wants t i (take_result u j r (s\<lparr>sc_done := rest\<rparr>))" "ahead i (take_result u j r (s\<lparr>sc_done := rest\<rparr>)) = ahead i s"
    "waiting_workers k (take_result u j r (s\<lparr>sc_done := rest\<rparr>)) = waiting_workers k s"
proof -
  have "j \<in> set (in_flight s)" using assms(3) by (simp add: in_flight_def)
  then have "j \<noteq> i" using assms(1,2) by (auto simp: sched_ok_def wants_def)
  then show "wants t i (take_result u j r (s\<lparr>sc_done := rest\<rparr>))" using assms(2) by (simp add: wants_def take_result_def slots_def)
qed (simp_all add: ahead_def take_result_def slots_def waiting_workers_def)

lemma other_events:
  assumes "sched_ok s" "wants t i s" "later t ev" "pub_step ev s = (started, s')" "i \<notin> set started"
  shows "wants (clock t ev) i s'" "(if served_turn ev s then 1 else 0) + ahead i s' \<le> ahead i s"
proof -
  have "wants (clock t ev) i s' \<and> (if served_turn ev s then 1 else 0) + ahead i s' \<le> ahead i s"
  proof (cases ev)
    case (Tick u k)
    then show ?thesis using turn_wants [OF assms(2)] turn_counts [OF assms(1,2)] assms(3-5)
      by (auto simp: pub_step_def later_def served_turn_def clock_def)
  next
    case (Result u k)
    show ?thesis
    proof (cases "sc_done s")
      case Nil
      then show ?thesis using assms Result wants_mono [OF assms(2)] by (auto simp: pub_step_def served_turn_def clock_def later_def)
    next
      case (Cons jr rest)
      obtain j r where jr: "jr = (j, r)" by fastforce
      let ?s = "take_result u j r (s\<lparr>sc_done := rest\<rparr>)"
      note other = other_result [OF assms(1,2) Cons [unfolded jr]]
      have t: "turn u k ?s = (started, s')" "t \<le> u" using assms(3,4) Result Cons jr by (auto simp: pub_step_def later_def)
      show ?thesis
        using turn_wants [OF other(1) t(2,1) assms(5)] turn_counts [OF take_result_ok [OF assms(1) Cons [unfolded jr]] other(1) t(2,1) assms(5)]
          other(2,3) t(2) Result Cons by (auto simp: served_turn_def clock_def)
    qed
  next
    case (Woken j)
    have "wants t i (s\<lparr>sc_wake := (sc_wake s)[j := True]\<rparr>)"
      using assms(1,2) by (cases "j = i") (auto simp: wants_def slots_def sched_ok_def)
    then show ?thesis using assms(2,4) Woken by (auto simp: pub_step_def served_turn_def ahead_def slots_def clock_def split: if_splits)
  qed (use assms in \<open>auto simp: pub_step_def served_turn_def later_def wants_def ahead_def slots_def clock_def split: if_splits\<close>)
  then show "wants (clock t ev) i s'" "(if served_turn ev s then 1 else 0) + ahead i s' \<le> ahead i s" by simp_all
qed

lemma waiting_bounded:
  assumes "sched_ok s" "wants t i s" "in_order t evs" "i \<notin> set (fst (pub_run evs s))"
  shows "served_turns evs s \<le> ahead i s"
  using assms
proof (induction evs arbitrary: s t)
  case (Cons ev evs)
  obtain st s' where e: "pub_step ev s = (st, s')" by fastforce
  have i: "i \<notin> set st" "i \<notin> set (fst (pub_run evs s'))" using Cons.prems(4) e by (auto split: prod.splits)
  have l: "later t ev" "in_order (clock t ev) evs" using Cons.prems(3) by simp_all
  show ?case
    using other_events [OF Cons.prems(1,2) l(1) e i(1)] Cons.IH [OF pub_step_ok [OF Cons.prems(1) e] _ l(2) i(2)] e by simp
qed simp



end
