(* ===== verification/SourceDispatch.thy ===== *)
theory SourceDispatch
  imports SourceSet Dispatching
begin

text \<open>
  The transport side of the committed source mode (\<open>src/internal/server/source.go\<close>): which messages go to the
  source instead of the dispatcher, which listings and rosters are accepted as answers, how requests are
  registered before they are written, and which bytes of a frame are the content of a message.

  The source is used through its interface \<open>SourceReceiver\<close>, a record of its operations; \<open>set_receiver\<close> is the one of
  a source set. A request is written on the connection of the message or on the request lane, each an endpoint with
  its scope and session; whether writes succeed and the identifiers issued are part of the event.
\<close>

section \<open>The interface of a source\<close>

datatype committed_message = Listing "ROListAllItem list" | ForSource svc_message | NotForSource

definition source_message :: "committed_message \<Rightarrow> set_message" where
  "source_message m = (case m of Listing _ \<Rightarrow> ListAll | ForSource msg \<Rightarrow> ForRundown msg | NotForSource \<Rightarrow> ListAll)"

definition message_rundown :: "committed_message \<Rightarrow> string" where
  "message_rundown m = (case m of ForSource msg \<Rightarrow> SourceRundown msg | _ \<Rightarrow> [])"

definition roster_message :: "committed_message \<Rightarrow> bool" where
  "roster_message m = (case m of ForSource msg \<Rightarrow> silent msg | _ \<Rightarrow> False)"

record 's SourceReceiver =
  rc_Apply :: "SourceInput \<Rightarrow> set_message \<Rightarrow> 's \<Rightarrow> (SourceResult \<times> go_error option) \<times> 's"
  rc_Uncertain :: "string \<Rightarrow> 's \<Rightarrow> 's"
  rc_CatalogueEnabled :: "'s \<Rightarrow> bool"
  rc_CatalogueNeedsRefresh :: "'s \<Rightarrow> bool"
  rc_RetainsRundown :: "string \<Rightarrow> 's \<Rightarrow> bool"

definition set_receiver ::
    "set_env \<Rightarrow> set_io \<Rightarrow> time \<Rightarrow> (string \<Rightarrow> string \<Rightarrow> string result) \<Rightarrow> CommittedSourceSet SourceReceiver" where
  "set_receiver sv io t render = \<lparr>rc_Apply = set_Apply sv io t render, rc_Uncertain = set_Uncertain sv io,
     rc_CatalogueEnabled = (\<lambda>_. True), rc_CatalogueNeedsRefresh = CatalogueNeedsRefresh t, rc_RetainsRundown = RetainsRundown\<rparr>"

section \<open>Requests\<close>

record endpoint =
  ep_scope :: string
  ep_session :: string
  ep_native :: bool

datatype source_out = Replied string | Asked endpoint string out_message

record 's source_lane =
  sl_source :: 's
  sl_dispatcher :: dispatcher
  sl_ids :: "string list"

record dispatch_io =
  di_now :: time
  di_walk :: bool
  di_writes :: bool
  di_replies :: bool
  di_lane :: lane
  di_here :: endpoint
  di_origin :: endpoint

definition walk_of :: "'s source_lane \<Rightarrow> discoveryWalk" where "walk_of l = dp_walk (sl_dispatcher l)"

definition set_walk :: "discoveryWalk \<Rightarrow> 's source_lane \<Rightarrow> 's source_lane" where
  "set_walk w l = l\<lparr>sl_dispatcher := (sl_dispatcher l)\<lparr>dp_walk := w\<rparr>\<rparr>"

text \<open>The next identifier of a lane; a client without a sequence repeats the first one.\<close>

definition fresh_id :: "'s source_lane \<Rightarrow> string \<times> 's source_lane" where
  "fresh_id l = (case sl_ids l of [] \<Rightarrow> (''1'', l) | i # is \<Rightarrow> (i, l\<lparr>sl_ids := is\<rparr>))"

definition requested_rundown :: "out_message \<Rightarrow> string option" where
  "requested_rundown m = (case m of ROReqAllMsg \<Rightarrow> Some [] | ROReqMsg i \<Rightarrow> Some i | _ \<Rightarrow> None)"

definition writeSourceRequest ::
    "'s SourceReceiver \<Rightarrow> dispatch_io \<Rightarrow> endpoint \<Rightarrow> out_message \<Rightarrow> 's source_lane \<Rightarrow> source_out list \<times> 's source_lane" where
  "writeSourceRequest rc io ep msg l0 =
     (let (messageID, l) = fresh_id l0; wrote = (if di_writes io then [Asked ep messageID msg] else []) in
      case requested_rundown msg of
        None \<Rightarrow> (wrote, l)
      | Some rundown \<Rightarrow>
          if \<not> rc_CatalogueEnabled rc (sl_source l) then (wrote, l)
          else (case registerRequest (di_now io) rundown (ep_scope ep) (ep_session ep) messageID (ep_native ep) (walk_of l) of
             (None, w) \<Rightarrow> ([], set_walk w l)
           | (Some n, w) \<Rightarrow>
               if di_writes io then (wrote, set_walk w l)
               else (case failedRequest (di_walk io) (di_now io) n w of
                  (failed, w) \<Rightarrow>
                    let l = set_walk w l in
                    ([], if failed then l\<lparr>sl_source := rc_Uncertain rc (ep_session ep) (sl_source l)\<rparr> else l))))"

definition send_one :: "'s SourceReceiver \<Rightarrow> dispatch_io \<Rightarrow> sent \<Rightarrow> 's source_lane \<Rightarrow> source_out list \<times> 's source_lane" where
  "send_one rc io s l = (case s of
      Respond _ \<Rightarrow> ([], l)
    | Originate m \<Rightarrow> writeSourceRequest rc io (di_here io) m l
    | OriginateVia m \<Rightarrow> writeSourceRequest rc io (di_origin io) m l)"

fun send_all :: "'s SourceReceiver \<Rightarrow> dispatch_io \<Rightarrow> sent list \<Rightarrow> 's source_lane \<Rightarrow> source_out list \<times> 's source_lane" where
  "send_all rc io [] l = ([], l)"
| "send_all rc io (s # ss) l =
     (case send_one rc io s l of (out, l) \<Rightarrow> case send_all rc io ss l of (out', l) \<Rightarrow> (out @ out', l))"

definition request_next :: "'s SourceReceiver \<Rightarrow> dispatch_io \<Rightarrow> (string \<times> bool) \<times> discoveryWalk \<Rightarrow> 's source_lane \<Rightarrow> source_out list \<times> 's source_lane" where
  "request_next rc io r l = (case r of ((next, ok), w) \<Rightarrow>
     send_all rc io (if ok then sendDiscoveryReq (di_lane io) next else []) (set_walk w l))"

definition request_catalogue :: "'s SourceReceiver \<Rightarrow> dispatch_io \<Rightarrow> 's source_lane \<Rightarrow> source_out list \<times> 's source_lane" where
  "request_catalogue rc io l = request_next rc io (requestCatalogue (di_walk io) (di_now io) (walk_of l)) l"

definition advance_walk :: "'s SourceReceiver \<Rightarrow> dispatch_io \<Rightarrow> 's source_lane \<Rightarrow> source_out list \<times> 's source_lane" where
  "advance_walk rc io l = request_next rc io (nudge (di_walk io) (di_now io) (walk_of l)) l"

definition recover_rundown :: "'s SourceReceiver \<Rightarrow> go_env \<Rightarrow> dispatch_io \<Rightarrow> string \<Rightarrow> 's source_lane \<Rightarrow> source_out list \<times> 's source_lane" where
  "recover_rundown rc e io rundown l =
     (case requestResync (e\<lparr>now := di_now io\<rparr>) (di_walk io) (di_lane io) rundown (sl_dispatcher l) of
        (sent, d) \<Rightarrow> send_all rc io sent (l\<lparr>sl_dispatcher := d\<rparr>))"

definition refreshCatalogue :: "'s SourceReceiver \<Rightarrow> dispatch_io \<Rightarrow> 's source_lane \<Rightarrow> source_out list \<times> 's source_lane" where
  "refreshCatalogue rc io l =
     (if \<not> rc_CatalogueNeedsRefresh rc (sl_source l)
        \<or> \<not> ln_canOriginate (di_lane io) \<and> ln_origin (di_lane io) \<noteq> Some True then ([], l)
      else request_catalogue rc io l)"

section \<open>Dispatch\<close>

text \<open>
  The part after a claim: apply, answer, and follow up. A failing reply ends it; \<open>Inl\<close> is the error that goes back
  to the transport.
\<close>

definition follow_up ::
    "'s SourceReceiver \<Rightarrow> go_env \<Rightarrow> dispatch_io \<Rightarrow> committed_message \<Rightarrow> SourceResult \<times> go_error option \<Rightarrow> 's source_lane \<Rightarrow>
     unit result \<times> source_out list \<times> 's source_lane" where
  "follow_up rc e io m res l0 = (case res of (out, er) \<Rightarrow>
     case (if (case m of Listing _ \<Rightarrow> False | _ \<Rightarrow> True) \<and> rc_CatalogueEnabled rc (sl_source l0)
             \<and> \<not> rc_RetainsRundown rc (message_rundown m) (sl_source l0) then refreshCatalogue rc io l0 else ([], l0)) of
       (asked, l) \<Rightarrow>
         let ended = (case er of None \<Rightarrow> Inr () | Some x \<Rightarrow> Inl x) in
         if sr_Recover out then (case recover_rundown rc e io (message_rundown m) l of (then_asked, l) \<Rightarrow> (Inr (), asked @ then_asked, l))
         else (case m of
            Listing ros \<Rightarrow>
              if er = None \<and> sr_Applied out
              then (case handleListAll (e\<lparr>now := di_now io\<rparr>) (di_walk io) (di_lane io) ros (sl_dispatcher l) of
                 (_, sent, d) \<Rightarrow> (case send_all rc io sent (l\<lparr>sl_dispatcher := d\<rparr>) of (then_asked, l) \<Rightarrow> (Inr (), asked @ then_asked, l)))
              else (ended, asked, l)
          | _ \<Rightarrow>
              if roster_message m \<and> er = None \<and> sr_Applied out
              then let rundown = message_rundown m;
                       l = l\<lparr>sl_dispatcher := (sl_dispatcher l)\<lparr>dp_resync := forget rundown (dp_resync (sl_dispatcher l))\<rparr>\<rparr> in
                   (case request_next rc io (resolved (di_walk io) (di_now io) rundown (walk_of l)) l of
                      (then_asked, l) \<Rightarrow> (ended, asked @ then_asked, l))
              else (ended, asked, l)))"

definition apply_source ::
    "'s SourceReceiver \<Rightarrow> go_env \<Rightarrow> dispatch_io \<Rightarrow> SourceInput \<Rightarrow> committed_message \<Rightarrow> 's source_lane \<Rightarrow>
     unit result \<times> source_out list \<times> 's source_lane" where
  "apply_source rc e io input m l =
     (if (case m of Listing ros \<Rightarrow> \<not> catalogueFits (walk_of l) (length ros) | _ \<Rightarrow> False)
      then (Inl (Errorf ''catalogue exceeds discovery capacity; complete authority withheld''), [],
            l\<lparr>sl_source := rc_Uncertain rc (in_Session input) (sl_source l)\<rparr>)
      else case rc_Apply rc input (source_message m) (sl_source l) of
        ((out, er), s) \<Rightarrow>
          let l = l\<lparr>sl_source := s\<rparr> in
          if sr_Reply out \<noteq> [] \<and> \<not> di_replies io then (Inl (Errorf ''send''), [], l)
          else (case follow_up rc e io m (out, er) l of
             (r, sent, l) \<Rightarrow> (r, (if sr_Reply out \<noteq> [] then [Replied (sr_Reply out)] else []) @ sent, l)))"

text \<open>
  Whether the message was for the source, how it ended, what was written and the state. \<open>input\<close> is \<open>None\<close> when the
  transport did not validate where the message came from. The request that an answer claimed is released before the
  walk moves on.
\<close>

definition dispatchCommittedSource ::
    "'s SourceReceiver \<Rightarrow> go_env \<Rightarrow> dispatch_io \<Rightarrow> SourceInput option \<Rightarrow> committed_message \<Rightarrow> 's source_lane \<Rightarrow>
     bool \<times> unit result \<times> source_out list \<times> 's source_lane" where
  "dispatchCommittedSource rc e io input0 m l0 =
     (let enabled = rc_CatalogueEnabled rc (sl_source l0); listing = (case m of Listing _ \<Rightarrow> True | _ \<Rightarrow> False) in
      if \<not> (case m of ForSource msg \<Rightarrow> SourceMessage msg | _ \<Rightarrow> False) \<and> \<not> (listing \<and> enabled) then (False, Inr (), [], l0)
      else case input0 of
        None \<Rightarrow> (True, Inl (Errorf ''committed source requires validated input provenance''), [], l0)
      | Some input \<Rightarrow>
          if \<not> enabled then (True, apply_source rc e io input m l0)
          else
            let advance = (\<lambda>(r, out, l). case advance_walk rc io l of (then_asked, l) \<Rightarrow> (True, r, out @ then_asked, l)) in
            if \<not> (listing \<or> roster_message m) then advance (apply_source rc e io input m l0)
            else (case claimRequest (di_now io) (message_rundown m) (in_Scope input) (in_Session input) (in_MessageID input) (walk_of l0) of
               (None, _) \<Rightarrow>
                 (case (if rc_CatalogueNeedsRefresh rc (sl_source l0) then request_catalogue rc io l0 else ([], l0)) of
                    (out, l) \<Rightarrow> advance (Inr (), out, l))
             | (Some n, w) \<Rightarrow>
                 (case apply_source rc e io input m (set_walk w l0) of
                    (r, out, l) \<Rightarrow> advance (r, out, set_walk (releaseRequest n (walk_of l)) l))))"

section \<open>The operation of a frame\<close>

text \<open>
  What the decoder of \<open>encoding/xml\<close> gives of a frame: tokens with the offset after each, and whether it ended well.
\<close>

datatype xml_token = StartElement string | EndElement | OtherToken

fun skip_element :: "nat \<Rightarrow> (xml_token \<times> nat) list \<Rightarrow> (nat \<times> (xml_token \<times> nat) list) option" where
  "skip_element d [] = None"
| "skip_element d ((t, n) # ts) = (case t of
      StartElement _ \<Rightarrow> skip_element (Suc d) ts
    | EndElement \<Rightarrow> (case d of 0 \<Rightarrow> Some (n, ts) | Suc d \<Rightarrow> skip_element d ts)
    | OtherToken \<Rightarrow> skip_element d ts)"

lemma skip_element_shorter: "skip_element d ts = Some (n, rest) \<Longrightarrow> length rest < length ts"
  by (induction d ts rule: skip_element.induct) (fastforce split: xml_token.splits nat.splits)+

function operation_tokens :: "string \<Rightarrow> bool \<Rightarrow> nat \<Rightarrow> nat \<Rightarrow> (xml_token \<times> nat) list \<Rightarrow> string \<Rightarrow> string result" where
  "operation_tokens frame ended depth start [] op =
     (if \<not> ended then Inl (Errorf ''XML syntax error'')
      else if op = [] then Inl (Errorf ''source operation is missing'') else Inr op)"
| "operation_tokens frame ended depth start ((t, n) # ts) op = (case t of
      StartElement name \<Rightarrow>
        if depth = 1 then
          (case skip_element 0 ts of
             None \<Rightarrow> Inl (Errorf ''XML syntax error'')
           | Some (m, rest) \<Rightarrow>
               if name \<in> set [''mosID'', ''ncsID'', ''messageID''] then operation_tokens frame ended depth m rest op
               else if op \<noteq> [] then Inl (Errorf ''multiple source operation elements'')
               else operation_tokens frame ended depth m rest (drop start (take m frame)))
        else operation_tokens frame ended (Suc depth) n ts op
    | EndElement \<Rightarrow> operation_tokens frame ended (depth - 1) n ts op
    | OtherToken \<Rightarrow> operation_tokens frame ended depth n ts op)"
  by pat_completeness auto

termination
  by (relation "measure (\<lambda>(frame, ended, depth, start, ts, op). length ts)") (auto dest: skip_element_shorter)

definition operationBytes :: "(xml_token \<times> nat) list \<Rightarrow> bool \<Rightarrow> string \<Rightarrow> string result" where
  "operationBytes tokens ended frame = operation_tokens frame ended 0 0 tokens []"

section \<open>Only answers to requests are applied\<close>

definition only_asked :: "source_out list \<Rightarrow> bool" where
  "only_asked out \<longleftrightarrow> list_all (\<lambda>x. case x of Asked _ _ _ \<Rightarrow> True | Replied _ \<Rightarrow> False) out"

lemma set_walk_source [simp]: "sl_source (set_walk w l) = sl_source l"
  by (simp add: set_walk_def)

lemma write_keeps_source:
  assumes "di_writes io" "writeSourceRequest rc io ep m l = (out, l')"
  shows "sl_source l' = sl_source l \<and> only_asked out"
proof -
  obtain i l1 where f: "fresh_id l = (i, l1)" by fastforce
  then have "sl_source l1 = sl_source l" by (auto simp: fresh_id_def split: list.splits)
  then show ?thesis using assms f
    by (auto simp: writeSourceRequest_def only_asked_def Let_def split: option.splits prod.splits if_splits)
qed

lemma send_all_keeps_source:
  "di_writes io \<Longrightarrow> send_all rc io ss l = (out, l') \<Longrightarrow> sl_source l' = sl_source l \<and> only_asked out"
proof (induction ss arbitrary: l out l')
  case (Cons s ss)
  obtain out1 l1 where s: "send_one rc io s l = (out1, l1)" by fastforce
  obtain out2 l2 where ss: "send_all rc io ss l1 = (out2, l2)" by fastforce
  have "sl_source l1 = sl_source l \<and> only_asked out1"
    using s Cons.prems(1) by (cases s) (auto simp: send_one_def only_asked_def dest: write_keeps_source)
  then show ?case using Cons.IH [OF Cons.prems(1) ss] Cons.prems(2) s ss by (auto simp: only_asked_def)
qed (simp add: only_asked_def)

lemma request_next_keeps_source:
  "di_writes io \<Longrightarrow> request_next rc io r l = (out, l') \<Longrightarrow> sl_source l' = sl_source l \<and> only_asked out"
  by (auto simp: request_next_def dest!: send_all_keeps_source split: prod.splits)

lemma asking_keeps_source:
  "di_writes io \<Longrightarrow> request_catalogue rc io l = (out, l') \<Longrightarrow> sl_source l' = sl_source l \<and> only_asked out"
  "di_writes io \<Longrightarrow> advance_walk rc io l = (out, l') \<Longrightarrow> sl_source l' = sl_source l \<and> only_asked out"
  by (simp_all add: request_catalogue_def advance_walk_def request_next_keeps_source)

text \<open>A lane without a request, and one that has just decided to ask for the catalogue.\<close>

definition example_endpoint :: endpoint where
  "example_endpoint = \<lparr>ep_scope = ''S'', ep_session = ''c1'', ep_native = False\<rparr>"

definition example_dispatch_io :: dispatch_io where
  "example_dispatch_io = \<lparr>di_now = 5, di_walk = True, di_writes = True, di_replies = True,
     di_lane = \<lparr>ln_responds = True, ln_canOriginate = True, ln_origin = None\<rparr>, di_here = example_endpoint, di_origin = example_endpoint\<rparr>"

definition waiting_lane :: "walk_event list \<Rightarrow> 's \<Rightarrow> 's source_lane" where
  "waiting_lane evs s = \<lparr>sl_source = s, sl_dispatcher = (new_dispatcher None ''M'' ''d'' ''p'')
     \<lparr>dp_walk := walk_run ''d'' ''p'' evs (openDiscoveryWalk True ''d'' ''p'' None)\<rparr>, sl_ids = [''7'']\<rparr>"

definition example_unsolicited :: SourceInput where
  "example_unsolicited = \<lparr>in_Transport = ''mos-4.0'', in_Scope = ''S'', in_NCSID = ''N'', in_MessageID = ''3'', in_Session = ''c1'', in_Content = []\<rparr>"

definition example_lane_of :: "'s \<Rightarrow> 's source_lane" where "example_lane_of = waiting_lane [Call True 5 CatalogueOp]"



section \<open>A written request can be answered\<close>

text \<open>A request that was not written yet has no answer and has not expired.\<close>

definition unwritten_ok :: "discoveryWalk \<Rightarrow> bool" where
  "unwritten_ok w = (case dw_request w of
      Some (n, r) \<Rightarrow> dr_session r = [] \<longrightarrow> \<not> dr_expired r \<and> \<not> dr_replying r \<and> \<not> dr_native r | None \<Rightarrow> True)"

lemma unwritten_set_request [simp]:
  "unwritten_ok (set_request zero_request w)" "unwritten_ok (set_request (zero_request\<lparr>dr_rundownID := i\<rparr>) w)"
  by (simp_all add: unwritten_ok_def set_request_def zero_request_def)

lemma unwritten_updates [simp]:
  "unwritten_ok (persistLocked io w) = unwritten_ok w" "unwritten_ok (w\<lparr>dw_deadline := d\<rparr>) = unwritten_ok w"
  "unwritten_ok (w\<lparr>dw_pending := p\<rparr>) = unwritten_ok w" "unwritten_ok (w\<lparr>dw_cataloguePending := b\<rparr>) = unwritten_ok w"
  "unwritten_ok (w\<lparr>dw_catalogueInFlight := b\<rparr>) = unwritten_ok w" "unwritten_ok (w\<lparr>dw_inFlight := i\<rparr>) = unwritten_ok w"
  "unwritten_ok (w\<lparr>dw_request := None\<rparr>)"
  by (simp_all add: unwritten_ok_def)

lemma unwritten_open: "unwritten_ok (openDiscoveryWalk mkdir dir path f)"
  by (simp add: unwritten_ok_def openDiscoveryWalk_def newDiscoveryWalk_def Let_def split: option.splits)

lemma unwritten_takeLocked: "unwritten_ok w \<Longrightarrow> unwritten_ok (snd (takeLocked io t w))"
  by (simp add: takeLocked_def split: list.splits)

lemma unwritten_take_or_persist: "unwritten_ok w \<Longrightarrow> unwritten_ok (snd (take_or_persist io t w))"
  using unwritten_takeLocked [of w io t] by (auto simp: take_or_persist_def split: prod.splits)

lemma registerRequest_written:
  assumes "registerRequest t rundown scope session i native w = (Some n, w')" "unwritten_ok w"
  shows "\<exists>r. dw_request w' = Some (n, r) \<and> dr_rundownID r = rundown \<and> dr_scope r = scope \<and> dr_session r = session
    \<and> dr_messageID r = i \<and> dr_native r = native \<and> \<not> dr_expired r \<and> \<not> dr_replying r \<and> dw_deadline w' = t + dw_timeout w'
    \<and> session \<noteq> []"
proof -
  have given: "scope \<noteq> []" "session \<noteq> []" "native \<or> i \<noteq> []"
    using assms(1) by (simp_all add: registerRequest_def split: if_splits)
  obtain n0 r0 where req: "dw_request w = Some (n0, r0)" and same: "dr_rundownID r0 = rundown"
    using assms(1) given by (cases "dw_request w") (simp_all add: registerRequest_def split: if_splits prod.splits)
  show ?thesis
  proof (cases "dr_expired r0 \<and> dr_native r0 \<and> dr_session r0 \<noteq> session")
    case True
    then have "(if dr_expired r0 \<and> dr_native r0 \<and> dr_session r0 \<noteq> session then x else y) = x" for x y :: discoveryWalk
      by (rule if_P)
    then have "registerRequest t rundown scope session i native w =
        (Some (dw_fresh w), (set_request (zero_request\<lparr>dr_rundownID := rundown\<rparr>) w)\<lparr>dw_request := Some (dw_fresh w,
          zero_request\<lparr>dr_rundownID := rundown, dr_scope := scope, dr_session := session, dr_messageID := i, dr_native := native\<rparr>),
          dw_deadline := t + dw_timeout w\<rparr>)"
      using given req same by (simp add: registerRequest_def set_request_def zero_request_def Let_def)
    then have "dw_request w' = Some (n, zero_request\<lparr>dr_rundownID := rundown, dr_scope := scope, dr_session := session,
        dr_messageID := i, dr_native := native\<rparr>) \<and> dw_deadline w' = t + dw_timeout w'"
      using assms(1) by (auto simp: set_request_def)
    then show ?thesis using given by (simp add: zero_request_def)
  next
    case False
    then have "(if dr_expired r0 \<and> dr_native r0 \<and> dr_session r0 \<noteq> session then x else y) = y" for x y :: discoveryWalk
      by (rule if_not_P)
    then have "dr_session r0 = [] \<and> n = n0 \<and> w' = w\<lparr>dw_request := Some (n0, r0\<lparr>dr_scope := scope, dr_session := session,
          dr_messageID := i, dr_native := native\<rparr>), dw_deadline := t + dw_timeout w\<rparr>"
      using assms(1) given req same by (simp add: registerRequest_def Let_def split: if_splits) (elim conjE, simp)
    then show ?thesis using assms(2) given req same by (simp add: unwritten_ok_def)
  qed
qed

lemma registerRequest_refused:
  assumes "fst (registerRequest t rundown scope session i native w) = None"
  shows "snd (registerRequest t rundown scope session i native w) \<in> {w, set_request (zero_request\<lparr>dr_rundownID := rundown\<rparr>) w}"
proof -
  have late: "snd (case dw_request v of None \<Rightarrow> (None, v) | Some (n, r) \<Rightarrow> if b r then (None, v) else (Some n, h n r)) = v"
    if "fst (case dw_request v of None \<Rightarrow> (None, v) | Some (n, r) \<Rightarrow> if b r then (None, v) else (Some n, h n r)) = None" for v b h
    using that by (auto split: option.splits if_splits)
  show ?thesis
  proof (cases "scope = [] \<or> session = [] \<or> \<not> native \<and> i = [] \<or> dw_request w = None")
    case True
    then show ?thesis by (auto simp: registerRequest_def)
  next
    case False
    then obtain n0 r0 where "dw_request w = Some (n0, r0)" by auto
    moreover define v where "v = (if dr_expired r0 \<and> dr_native r0 \<and> dr_session r0 \<noteq> session
      then set_request (zero_request\<lparr>dr_rundownID := rundown\<rparr>) w else w)"
    ultimately have run: "registerRequest t rundown scope session i native w =
        (if dr_rundownID r0 \<noteq> rundown then (None, w) else
         case dw_request v of None \<Rightarrow> (None, v) | Some (n, r) \<Rightarrow> if dr_session r \<noteq> [] then (None, v)
           else (Some n, v\<lparr>dw_request := Some (n, r\<lparr>dr_scope := scope, dr_session := session,
             dr_messageID := i, dr_native := native\<rparr>), dw_deadline := t + dw_timeout v\<rparr>))"
      using False by (simp only: registerRequest_def Let_def option.case prod.case if_False de_Morgan_disj simp_thms)
    have v: "v \<in> {w, set_request (zero_request\<lparr>dr_rundownID := rundown\<rparr>) w}" by (simp add: v_def)
    show ?thesis
    proof (cases "dr_rundownID r0 = rundown")
      case True
      then have "\<not> dr_rundownID r0 \<noteq> rundown" by simp
      from assms have "snd (registerRequest t rundown scope session i native w) = v"
        unfolding run if_not_P [OF \<open>\<not> dr_rundownID r0 \<noteq> rundown\<close>] by (rule late)
      with v show ?thesis by simp
    qed (simp add: run)
  qed
qed

lemma unwritten_register:
  assumes "unwritten_ok w"
  shows "unwritten_ok (snd (registerRequest t rundown scope session i native w))"
proof (cases "fst (registerRequest t rundown scope session i native w)")
  case None
  from registerRequest_refused [OF None] assms show ?thesis by auto
next
  case (Some n)
  then obtain w' where "registerRequest t rundown scope session i native w = (Some n, w')" by (metis prod.collapse)
  from registerRequest_written [OF this assms] this show ?thesis by (auto simp: unwritten_ok_def)
qed

lemma unwritten_step:
  "unwritten_ok w \<Longrightarrow> unwritten_ok (snd (claimRequest t rundown scope session i w))"
  "unwritten_ok w \<Longrightarrow> unwritten_ok (releaseRequest n w)"
  "unwritten_ok w \<Longrightarrow> unwritten_ok (snd (failedRequest io t n w))"
  by (auto simp: unwritten_ok_def claimRequest_def releaseRequest_def failedRequest_def split: option.splits)

lemma unwritten_begin: "unwritten_ok w \<Longrightarrow> unwritten_ok (snd (walk_begin io t ids w))"
  by (simp add: walk_begin_def Let_def split_beta unwritten_take_or_persist)

lemma unwritten_asked:
  "unwritten_ok w \<Longrightarrow> unwritten_ok (snd (requestCatalogue io t w))"
  "unwritten_ok w \<Longrightarrow> unwritten_ok (snd (enqueueUrgent io t i w))"
  "unwritten_ok w \<Longrightarrow> unwritten_ok (snd (resolved io t i w))"
  by (auto simp: requestCatalogue_def enqueueUrgent_def resolved_def Let_def
      intro!: unwritten_take_or_persist unwritten_takeLocked split: prod.splits)

lemma unwritten_nudge: "unwritten_ok w \<Longrightarrow> unwritten_ok (snd (nudge io t w))"
proof (cases "dw_inFlight w = [] \<and> \<not> dw_catalogueInFlight w")
  case True
  then show "unwritten_ok w \<Longrightarrow> ?thesis" by (simp add: nudge_def unwritten_takeLocked)
next
  case False
  have "unwritten_ok w \<Longrightarrow> dw_request w = Some (n, r) \<Longrightarrow> dr_native r \<Longrightarrow> unwritten_ok (w\<lparr>dw_request := Some (n, r\<lparr>dr_expired := True\<rparr>)\<rparr>)" for n r
    by (simp add: unwritten_ok_def)
  moreover assume "unwritten_ok w"
  ultimately show ?thesis using False by (auto simp: nudge_def intro!: unwritten_take_or_persist split: option.splits)
qed

lemma unwritten_event: "unwritten_ok w \<Longrightarrow> unwritten_ok (walk_event_exec dir path ev w)"
proof (cases ev)
  case (Call io t op)
  assume "unwritten_ok w"
  then show ?thesis
    using Call by (cases op) (simp_all add: unwritten_register unwritten_step unwritten_begin unwritten_asked unwritten_nudge)
next
  case Restart
  then show ?thesis by (simp add: unwritten_open)
qed

lemma unwritten_run: "unwritten_ok w \<Longrightarrow> unwritten_ok (walk_run dir path evs w)"
proof (induction evs arbitrary: w)
  case (Cons ev evs)
  from Cons.IH [OF unwritten_event [OF Cons.prems]] show ?case by (simp add: walk_run_def)
qed (simp add: walk_run_def)

text \<open>
  C13. A request is registered before it is written, with the identity it is written with: whenever a roReq or roReqAll
  was written, an answer on the same connection with its identifier, within the timeout, is accepted as the answer.
\<close>

theorem written_request_is_claimable:
  assumes "rc_CatalogueEnabled rc (sl_source l)" "walk_of l = walk_run dir path evs (openDiscoveryWalk mkdir dir path f)"
    and "requested_rundown m = Some rundown" "writeSourceRequest rc io ep m l = ([Asked ep i m], l')"
    and "t < di_now io + dw_timeout (walk_of l')"
  shows "\<exists>n w. claimRequest t rundown (ep_scope ep) (ep_session ep) i (walk_of l') = (Some n, w)"
proof -
  obtain j l1 where f: "fresh_id l = (j, l1)" by fastforce
  have l1: "sl_source l1 = sl_source l" "walk_of l1 = walk_of l" using f by (auto simp: fresh_id_def walk_of_def split: list.splits)
  obtain n w where reg: "registerRequest (di_now io) rundown (ep_scope ep) (ep_session ep) j (ep_native ep) (walk_of l) = (Some n, w)"
    and l': "l' = set_walk w l1" and "j = i"
    using assms(1,3,4) f l1 by (auto simp: writeSourceRequest_def Let_def split: prod.splits option.splits if_splits)
  have "walk_of l' = w" using l' by (simp add: walk_of_def set_walk_def)
  moreover have "unwritten_ok (walk_of l)" using assms(2) unwritten_run unwritten_open by simp
  ultimately show ?thesis using registerRequest_written [OF reg] assms(5) \<open>j = i\<close> by (auto simp: claimRequest_def)
qed

theorem written_request_is_claimable_witness:
  "\<forall>sv io t render g. \<exists>n w l'. writeSourceRequest (set_receiver sv io t render) example_dispatch_io example_endpoint ROReqAllMsg (example_lane_of g)
     = ([Asked example_endpoint ''7'' ROReqAllMsg], l') \<and> claimRequest 9 [] ''S'' ''c1'' ''7'' (walk_of l') = (Some n, w)"
proof (intro allI)
  fix sv io t render and g :: CommittedSourceSet
  let ?rc = "set_receiver sv io t render" and ?l = "example_lane_of g"
  have w: "walk_of ?l = walk_run ''d'' ''p'' [Call True 5 CatalogueOp] (openDiscoveryWalk True ''d'' ''p'' None)"
    by (simp add: example_lane_of_def waiting_lane_def walk_of_def)
  obtain l' where run: "writeSourceRequest ?rc example_dispatch_io example_endpoint ROReqAllMsg ?l = ([Asked example_endpoint ''7'' ROReqAllMsg], l')"
    and later: "9 < di_now example_dispatch_io + dw_timeout (walk_of l')"
    by (simp add: writeSourceRequest_def fresh_id_def requested_rundown_def set_receiver_def example_dispatch_io_def example_endpoint_def
        example_lane_of_def waiting_lane_def walk_of_def set_walk_def walk_run_def requestCatalogue_def take_or_persist_def takeLocked_def
        openDiscoveryWalk_def newDiscoveryWalk_def registerRequest_def set_request_def zero_request_def persistLocked_def defaultWalkTimeout_def)
  show "\<exists>n w l'. writeSourceRequest ?rc example_dispatch_io example_endpoint ROReqAllMsg ?l = ([Asked example_endpoint ''7'' ROReqAllMsg], l')
      \<and> claimRequest 9 [] ''S'' ''c1'' ''7'' (walk_of l') = (Some n, w)"
    using written_request_is_claimable [OF _ w _ run later, of "[]"] run
    by (auto simp: set_receiver_def requested_rundown_def example_endpoint_def)
qed

end
