(* ===== verification/Parser.thy ===== *)
theory Parser
  imports Envelope Wire
begin

text \<open>
  The message parser (\<open>src/internal/xml/parser.go\<close>) and the envelope generator (\<open>generator.go\<close>): where a
  message starts and ends in a buffer, which struct its root element selects, and what stays in the buffer.

  \<open>xml.Unmarshal\<close> into the struct of an element and into \<open>Envelope\<close> are fields of \<open>xml_env\<close>. An envelope
  without a typed operation is parsed by \<open>ParseMessage\<close> again, on the text of its operation; the model bounds
  that nesting by a number, and \<open>parse_nesting_suffices\<close> shows that the depth of the document is enough.
\<close>

section \<open>Bytes\<close>

definition IndexByte :: "'a list \<Rightarrow> 'a \<Rightarrow> nat option" where
  "IndexByte s c = (if c \<in> set s then Some (length (takeWhile (\<lambda>x. x \<noteq> c) s)) else None)"

definition IndexAny :: "'a list \<Rightarrow> 'a list \<Rightarrow> nat option" where
  "IndexAny s cs = (if list_ex (\<lambda>x. x \<in> set cs) s then Some (length (takeWhile (\<lambda>x. x \<notin> set cs) s)) else None)"

definition name_stops :: string where
  "name_stops = [CHR 32, CHR 9, CHR 10, CHR 13, CHR ''/'', CHR ''>'']"

definition closing_tag :: "string \<Rightarrow> string" where
  "closing_tag name = ''</'' @ name @ ''>''"

section \<open>Messages in a buffer\<close>

definition ErrInvalidXML :: go_error where "ErrInvalidXML = Errorf ''invalid XML format''"
definition ErrUnknownMessage :: go_error where "ErrUnknownMessage = Errorf ''unknown message type''"
definition ErrIncompleteXML :: go_error where "ErrIncompleteXML = Errorf ''incomplete XML data''"

record MessageParser =
  mp_buffer :: string

definition NewMessageParser :: MessageParser where
  "NewMessageParser = \<lparr>mp_buffer = []\<rparr>"

definition AppendData :: "string \<Rightarrow> MessageParser \<Rightarrow> MessageParser" where
  "AppendData data p = p\<lparr>mp_buffer := mp_buffer p @ data\<rparr>"

definition Clear :: "MessageParser \<Rightarrow> MessageParser" where
  "Clear p = p\<lparr>mp_buffer := []\<rparr>"

definition HasCompleteMessage :: "MessageParser \<Rightarrow> bool" where
  "HasCompleteMessage p = (let b = mp_buffer p in
     if length b < 2 then False
     else case IndexByte b (CHR ''<'') of
       None \<Rightarrow> False
     | Some start \<Rightarrow>
         (case IndexAny (drop start b) name_stops of
            None \<Rightarrow> False
          | Some nameEnd \<Rightarrow>
              if start + nameEnd \<ge> length b then False
              else
                let tagName = drop (start + 1) (take (start + nameEnd) b);
                    afterName = drop (start + nameEnd) b in
                (case IndexByte afterName (CHR ''>'') of
                   None \<Rightarrow> False
                 | Some closeBracket \<Rightarrow>
                     if closeBracket > 0 \<and> afterName ! (closeBracket - 1) = CHR ''/'' then True
                     else find_sub (closing_tag tagName) b \<noteq> None)))"

definition detectMessageType :: "MessageParser \<Rightarrow> string result" where
  "detectMessageType p = (let b = mp_buffer p in
     case IndexByte b (CHR ''<'') of
       None \<Rightarrow> Inl ErrInvalidXML
     | Some start \<Rightarrow>
         (case IndexAny (drop start b) name_stops of
            None \<Rightarrow> Inl ErrInvalidXML
          | Some nameEnd \<Rightarrow>
              if start + nameEnd \<ge> length b then Inl ErrInvalidXML
              else Inr (drop (start + 1) (take (start + nameEnd) b))))"

text \<open>
  Where \<open>parseMessage\<close> cuts. After \<open>detectMessageType\<close> succeeded the two indices exist; \<open>closeBracket\<close> may
  be \<open>-1\<close>, and then the closing tag decides.
\<close>

definition messageEnd :: "string \<Rightarrow> MessageParser \<Rightarrow> nat result" where
  "messageEnd messageType p =
     (let b = mp_buffer p;
          start = the (IndexByte b (CHR ''<''));
          nameEnd = the (IndexAny (drop start b) name_stops);
          afterName = drop (start + nameEnd) b;
          by_closing_tag = (case find_sub (closing_tag messageType) b of
              None \<Rightarrow> Inl ErrIncompleteXML
            | Some i \<Rightarrow> Inr (i + length (closing_tag messageType))) in
      case IndexByte afterName (CHR ''>'') of
        None \<Rightarrow> by_closing_tag
      | Some closeBracket \<Rightarrow>
          if closeBracket > 0 \<and> afterName ! (closeBracket - 1) = CHR ''/''
          then Inr (start + nameEnd + closeBracket + 1)
          else by_closing_tag)"

definition parseMessage :: "(string \<Rightarrow> 'm result) \<Rightarrow> MessageParser \<Rightarrow> ('m \<times> string) result" where
  "parseMessage unmarshal p = (case detectMessageType p of
      Inl e \<Rightarrow> Inl e
    | Inr messageType \<Rightarrow>
        (case messageEnd messageType p of
           Inl e \<Rightarrow> Inl e
         | Inr n \<Rightarrow>
             if n > length (mp_buffer p) then Inl ErrIncompleteXML
             else (case unmarshal (take n (mp_buffer p)) of
                 Inl e \<Rightarrow> Inl (Wrap ''failed to unmarshal XML: '' e)
               | Inr m \<Rightarrow> Inr (m, if n \<ge> length (mp_buffer p) then [] else drop n (mp_buffer p)))))"

section \<open>Choosing the struct\<close>

text \<open>What \<open>Parse\<close> returns: an operation, or the envelope around one.\<close>

datatype MOSMessage = EnvelopeMessage Envelope | Operation mos_message

record xml_env =
  xe_message :: "string \<Rightarrow> string \<Rightarrow> mos_message result"
  xe_envelope :: "string \<Rightarrow> Envelope result"

definition profile01Types :: "string list" where
  "profile01Types = [''heartbeat'', ''keepAlive'', ''reqMachInfo'', ''listMachInfo'', ''mosObj'', ''mosReqObj'', ''mosReqAll'',
     ''mosListAll'', ''roReq'', ''roReqAll'', ''roList'', ''roCreate'', ''mosAck'', ''ncsReqStoryAction'']"

definition profile2Types :: "string list" where
  "profile2Types = [''roReplace'', ''roDelete'', ''roMetadataReplace'', ''roListAll'', ''roAck'']"

definition profile3Types :: "string list" where
  "profile3Types = [''mosObjCreate'', ''mosItemReplace'', ''mosReqSearchableSchema'', ''mosListSearchableSchema'']"

definition profile4Types :: "string list" where
  "profile4Types = [''roElementAction'', ''roReadyToAir'', ''roElementStat'']"

definition profile56Types :: "string list" where
  "profile56Types = [''roCtrl'', ''roItemCue'', ''roStorySend'', ''roReqStoryAction'']"

definition parsedTypes :: "string list" where
  "parsedTypes = profile01Types @ profile2Types @ profile3Types @ profile4Types @ profile56Types"

lemmas parsedTypes_defs = parsedTypes_def profile01Types_def profile2Types_def profile3Types_def profile4Types_def profile56Types_def

text \<open>
  \<open>Parse\<close>: the message or the error, the bytes returned as remaining, and the parser afterwards. \<open>nested\<close> is
  \<open>ParseMessage\<close> as \<open>envelope.Message()\<close> calls it.
\<close>

definition Parse ::
    "xml_env \<Rightarrow> (string \<Rightarrow> mos_message result) \<Rightarrow> MessageParser \<Rightarrow> MOSMessage result \<times> string \<times> MessageParser" where
  "Parse xe nested p =
     (if \<not> HasCompleteMessage p then (Inl ErrIncompleteXML, mp_buffer p, p)
      else case detectMessageType p of
        Inl e \<Rightarrow> (Inl e, mp_buffer p, p)
      | Inr messageType \<Rightarrow>
          if messageType = ''mos'' then
            (case parseMessage (xe_envelope xe) p of
               Inl e \<Rightarrow> (Inl e, mp_buffer p, p)
             | Inr (envelope, rest) \<Rightarrow>
                 (case Envelope_Message nested envelope of
                    Inl e \<Rightarrow> (Inl e, rest, p)
                  | Inr _ \<Rightarrow> (Inr (EnvelopeMessage envelope), rest, p\<lparr>mp_buffer := rest\<rparr>)))
          else if messageType \<in> set parsedTypes then
            (case parseMessage (xe_message xe messageType) p of
               Inl e \<Rightarrow> (Inl e, mp_buffer p, p)
             | Inr (m, rest) \<Rightarrow> (Inr (Operation m), rest, p\<lparr>mp_buffer := rest\<rparr>))
          else (Inl (Errorf (''unknown message type: '' @ messageType)), mp_buffer p, p))"

text \<open>What \<open>envelope.Message()\<close> makes of the message of its body: an envelope there is none of the operations.\<close>

definition operation_of :: "MOSMessage \<Rightarrow> mos_message" where
  "operation_of m = (case m of Operation o' \<Rightarrow> o' | EnvelopeMessage _ \<Rightarrow> OtherMsg)"

definition TooDeep :: go_error where "TooDeep = Errorf ''nesting exceeds the bound''"

fun ParseMessage :: "nat \<Rightarrow> xml_env \<Rightarrow> string \<Rightarrow> MOSMessage result" where
  "ParseMessage 0 xe xmlData = Inl TooDeep"
| "ParseMessage (Suc n) xe xmlData =
     fst (Parse xe (\<lambda>doc. map_sum (\<lambda>e. e) operation_of (ParseMessage n xe doc)) (AppendData xmlData NewMessageParser))"

definition ParseMessageFromReader :: "nat \<Rightarrow> xml_env \<Rightarrow> string result \<Rightarrow> MOSMessage result" where
  "ParseMessageFromReader n xe data = (case data of
      Inl e \<Rightarrow> Inl (Wrap ''failed to read data: '' e)
    | Inr d \<Rightarrow> ParseMessage n xe d)"

section \<open>Generating\<close>

definition xml_header :: string where
  "xml_header = ''<?xml version='' @ [CHR 34] @ ''1.0'' @ [CHR 34] @ '' encoding='' @ [CHR 34] @ ''UTF-8'' @ [CHR 34] @ ''?>'' @ [CHR 10]"

definition GenerateMessage :: "('m \<Rightarrow> string result) \<Rightarrow> 'm \<Rightarrow> string result" where
  "GenerateMessage marshal message = (case marshal message of
      Inl e \<Rightarrow> Inl (Wrap ''failed to marshal XML: '' e)
    | Inr data \<Rightarrow> Inr (xml_header @ data))"

text \<open>The envelope of a reply: the typed field of the message is set, no other.\<close>

definition reply_envelope :: "string \<Rightarrow> string \<Rightarrow> string \<Rightarrow> mos_message \<Rightarrow> Envelope option" where
  "reply_envelope mosID ncsID messageID message =
     (let envelope = \<lparr>en_MosID = mosID, en_NcsID = ncsID, en_MessageID = messageID, en_typed = [message],
            en_Body = \<lparr>ie_name = [], ie_attrs = [], ie_raw = []\<rparr>\<rparr> in
      case message of
        ROAck _ _ _ \<Rightarrow> Some envelope | Heartbeat _ \<Rightarrow> Some envelope | ListMachInfo \<Rightarrow> Some envelope | KeepAlive \<Rightarrow> Some envelope
      | RunningOrderMsg i \<Rightarrow> (case i of
          InList _ \<Rightarrow> Some envelope | InListAll _ \<Rightarrow> Some envelope | InReq _ \<Rightarrow> Some envelope | InReqAll \<Rightarrow> Some envelope
        | _ \<Rightarrow> None)
      | _ \<Rightarrow> None)"

definition GenerateEnvelope ::
    "(Envelope \<Rightarrow> string result) \<Rightarrow> string \<Rightarrow> string \<Rightarrow> string \<Rightarrow> mos_message \<Rightarrow> string result" where
  "GenerateEnvelope marshal mosID ncsID messageID message =
     (case reply_envelope mosID ncsID messageID message of
        None \<Rightarrow> Inl (Errorf ''unsupported enveloped message type'')
      | Some envelope \<Rightarrow>
          (case marshal envelope of
             Inl e \<Rightarrow> Inl (Wrap ''failed to marshal MOS envelope: '' e)
           | Inr data \<Rightarrow> Inr (xml_header @ data)))"

section \<open>Where a message ends\<close>

text \<open>An element with content, and an element without, as \<open>encoding/xml\<close> and the peers write them.\<close>

definition element :: "string \<Rightarrow> string \<Rightarrow> string \<Rightarrow> string" where
  "element name attrs body = CHR ''<'' # name @ attrs @ CHR ''>'' # body @ closing_tag name"

definition empty_element :: "string \<Rightarrow> string \<Rightarrow> string" where
  "empty_element name attrs = CHR ''<'' # name @ attrs @ ''/>''"

definition opening_tag :: "string \<Rightarrow> string \<Rightarrow> bool" where
  "opening_tag name attrs \<longleftrightarrow> name \<noteq> [] \<and> list_all (\<lambda>c. c \<notin> set name_stops) name \<and> CHR ''>'' \<notin> set attrs
     \<and> (attrs = [] \<or> hd attrs \<in> set name_stops \<and> last attrs \<noteq> CHR ''/'')"

text \<open>The closing tag of the root does not occur before the end.\<close>

definition closes_once :: "string \<Rightarrow> string \<Rightarrow> string \<Rightarrow> bool" where
  "closes_once name attrs body \<longleftrightarrow>
     find_sub (closing_tag name) (element name attrs body) = Some (length name + length attrs + length body + 2)"

lemma IndexByte_append: "c \<notin> set xs \<Longrightarrow> IndexByte (xs @ c # ys) c = Some (length xs)"
  by (simp add: IndexByte_def takeWhile_append2 takeWhile_append)

lemma IndexByte_absent: "c \<notin> set xs \<Longrightarrow> IndexByte xs c = None"
  by (simp add: IndexByte_def)

lemma IndexByte_head [simp]: "IndexByte (c # ys) c = Some 0"
  by (simp add: IndexByte_def)

lemma IndexAny_append:
  "list_all (\<lambda>x. x \<notin> set cs) xs \<Longrightarrow> c \<in> set cs \<Longrightarrow> IndexAny (xs @ c # ys) cs = Some (length xs)"
  by (induction xs) (auto simp: IndexAny_def list_all_iff split: if_splits)

lemma IndexAny_absent: "list_all (\<lambda>x. x \<notin> set cs) xs \<Longrightarrow> IndexAny xs cs = None"
  by (auto simp: IndexAny_def list_all_iff list_ex_iff)

lemma opening_tag_stop: "opening_tag name attrs \<Longrightarrow> \<exists>c ys. attrs @ CHR ''>'' # tail = c # ys \<and> c \<in> set name_stops"
  by (cases attrs) (auto simp: opening_tag_def name_stops_def)

lemma opening_index:
  assumes "opening_tag name attrs"
  shows "IndexAny (CHR ''<'' # name @ attrs @ CHR ''>'' # tail) name_stops = Some (Suc (length name))"
proof -
  obtain c ys where "attrs @ CHR ''>'' # tail = c # ys" "c \<in> set name_stops" using opening_tag_stop [OF assms] by blast
  then show ?thesis using IndexAny_append [of name_stops "CHR ''<'' # name" c ys] assms
    by (simp add: opening_tag_def name_stops_def)
qed

text \<open>The root of a buffer whose opening tag is complete.\<close>

lemma opened:
  fixes tail :: string
  assumes "opening_tag name attrs"
  defines "b \<equiv> CHR ''<'' # name @ attrs @ CHR ''>'' # tail"
  shows detect_opened: "detectMessageType \<lparr>mp_buffer = b\<rparr> = Inr name"
    and complete_opened: "HasCompleteMessage \<lparr>mp_buffer = b\<rparr> \<longleftrightarrow> find_sub (closing_tag name) b \<noteq> None"
    and end_opened: "messageEnd name \<lparr>mp_buffer = b\<rparr> = (case find_sub (closing_tag name) b of
          None \<Rightarrow> Inl ErrIncompleteXML | Some i \<Rightarrow> Inr (i + length (closing_tag name)))"
proof -
  have s: "IndexByte b (CHR ''<'') = Some 0" "IndexAny b name_stops = Some (Suc (length name))"
    using opening_index [OF assms(1)] by (simp_all add: b_def)
  have r: "IndexByte (drop (Suc (length name)) b) (CHR ''>'') = Some (length attrs)"
    using assms(1) by (simp add: b_def opening_tag_def IndexByte_append)
  have l: "\<not> (0 < length attrs \<and> drop (Suc (length name)) b ! (length attrs - 1) = CHR ''/'')"
    using assms(1) by (auto simp: b_def opening_tag_def nth_append last_conv_nth)
  have n: "length b \<ge> 2" "\<not> length b \<le> Suc (length name)" "drop 1 (take (Suc (length name)) b) = name"
    by (simp_all add: b_def)
  show "detectMessageType \<lparr>mp_buffer = b\<rparr> = Inr name"
    using s n by (simp add: detectMessageType_def)
  show "HasCompleteMessage \<lparr>mp_buffer = b\<rparr> \<longleftrightarrow> find_sub (closing_tag name) b \<noteq> None"
    using s n r l by (auto simp: HasCompleteMessage_def Let_def)
  show "messageEnd name \<lparr>mp_buffer = b\<rparr> = (case find_sub (closing_tag name) b of
          None \<Rightarrow> Inl ErrIncompleteXML | Some i \<Rightarrow> Inr (i + length (closing_tag name)))"
    using s n r l by (auto simp: messageEnd_def Let_def)
qed

lemma element_length: "length (element name attrs body) = length name + length attrs + length body + 2 + length (closing_tag name)"
  by (simp add: element_def)

lemma element_in_front:
  assumes "opening_tag name attrs" "closes_once name attrs body"
  shows "HasCompleteMessage \<lparr>mp_buffer = element name attrs body @ rest\<rparr>"
    and "detectMessageType \<lparr>mp_buffer = element name attrs body @ rest\<rparr> = Inr name"
    and "messageEnd name \<lparr>mp_buffer = element name attrs body @ rest\<rparr> = Inr (length (element name attrs body))"
  using opened [OF assms(1), of "body @ closing_tag name @ rest"] assms(2)
    find_sub_append [of "closing_tag name" "element name attrs body" _ rest]
  by (simp_all add: element_def closes_once_def)

lemma open_before_bracket:
  assumes "opening_tag name attrs" "k \<le> Suc (length name + length attrs)"
  shows "\<not> HasCompleteMessage \<lparr>mp_buffer = take k (CHR ''<'' # name @ attrs @ tail)\<rparr>"
proof -
  let ?b = "take k (CHR ''<'' # name @ attrs)"
  have b: "take k (CHR ''<'' # name @ attrs @ tail) = ?b"
    using assms(2) take_append [of k "CHR ''<'' # name @ attrs" tail] by simp
  have "CHR ''>'' \<notin> set (CHR ''<'' # name @ attrs)"
    using assms(1) by (auto simp: opening_tag_def list_all_iff name_stops_def)
  then have "CHR ''>'' \<notin> set (drop i ?b)" for i by (meson in_set_dropD in_set_takeD)
  then have "IndexByte (drop i ?b) (CHR ''>'') = None" for i by (rule IndexByte_absent)
  then show ?thesis unfolding b by (simp add: HasCompleteMessage_def Let_def split: option.splits)
qed

lemma open_before_end:
  assumes "opening_tag name attrs" "closes_once name attrs body" "k < length (element name attrs body)"
    "Suc (length name + length attrs) < k"
  shows "\<not> HasCompleteMessage \<lparr>mp_buffer = take k (element name attrs body)\<rparr>"
proof -
  let ?e = "element name attrs body" and ?j = "k - (length name + length attrs + 2)"
  have t: "take k ?e = CHR ''<'' # name @ attrs @ CHR ''>'' # take ?j (body @ closing_tag name)"
    using assms(4) by (simp add: element_def take_Cons' )
  have "find_sub (closing_tag name) (take k ?e) = None"
  proof (cases "find_sub (closing_tag name) (take k ?e)")
    case (Some i)
    then show ?thesis
      using find_sub_append [OF Some, of "drop k ?e"] find_sub_length [OF Some] assms(2,3)
      by (simp add: closes_once_def element_length)
  qed simp
  then show ?thesis using complete_opened [OF assms(1), of "take ?j (body @ closing_tag name)"] by (simp add: t)
qed

lemma complete_iff:
  assumes "opening_tag name attrs" "closes_once name attrs body"
  shows "HasCompleteMessage \<lparr>mp_buffer = take k (element name attrs body)\<rparr> \<longleftrightarrow> length (element name attrs body) \<le> k"
proof (cases "length (element name attrs body) \<le> k")
  case True
  then show ?thesis using element_in_front(1) [OF assms, of "[]"] by simp
next
  case False
  then show ?thesis
    using open_before_end [OF assms, of k] open_before_bracket [OF assms(1), of k "CHR ''>'' # body @ closing_tag name"]
    by (cases "k \<le> Suc (length name + length attrs)") (auto simp: element_def)
qed

lemma parseMessage_front:
  assumes "opening_tag name attrs" "closes_once name attrs body"
  shows "parseMessage unmarshal \<lparr>mp_buffer = element name attrs body @ rest\<rparr> =
     (case unmarshal (element name attrs body) of
        Inl e \<Rightarrow> Inl (Wrap ''failed to unmarshal XML: '' e) | Inr m \<Rightarrow> Inr (m, rest))"
  using element_in_front [OF assms, of rest] by (simp add: parseMessage_def split: sum.splits)

lemma mos_not_parsed: "''mos'' \<notin> set parsedTypes"
  by (simp add: parsedTypes_defs)

lemma Parse_front:
  assumes "opening_tag name attrs" "closes_once name attrs body" "name \<in> set parsedTypes"
    "xe_message xe name (element name attrs body) = Inr m"
  shows "Parse xe nested \<lparr>mp_buffer = element name attrs body @ rest\<rparr> = (Inr (Operation m), rest, \<lparr>mp_buffer = rest\<rparr>)"
  using element_in_front [OF assms(1,2), of rest] parseMessage_front [OF assms(1,2), of "xe_message xe name" rest] assms(3,4) mos_not_parsed
  by (auto simp: Parse_def)

lemma Parse_unopened: "\<not> HasCompleteMessage p \<Longrightarrow> Parse xe nested p = (Inl ErrIncompleteXML, mp_buffer p, p)"
  by (simp add: Parse_def)


definition example_xml :: xml_env where
  "example_xml = \<lparr>xe_message = (\<lambda>t d. if t = ''keepAlive'' then Inr KeepAlive else Inl ErrInvalidXML),
     xe_envelope = (\<lambda>d. Inl ErrInvalidXML)\<rparr>"


section \<open>Types and nesting\<close>

lemma messageEnd_positive:
  assumes "messageEnd t p = Inr n"
  shows "0 < n"
proof -
  have "0 < length (closing_tag t)" by (simp add: closing_tag_def)
  then show ?thesis using assms by (auto simp: messageEnd_def Let_def split: option.splits if_splits)
qed

lemma parseMessage_shorter:
  "parseMessage u p = Inr (m, rest) \<Longrightarrow> length rest < length (mp_buffer p) \<or> mp_buffer p = []"
  by (auto simp: parseMessage_def dest: messageEnd_positive split: sum.splits if_splits)

lemma parseMessage_unmarshalled: "parseMessage u p = Inr (m, rest) \<Longrightarrow> \<exists>n. u (take n (mp_buffer p)) = Inr m"
  by (auto simp: parseMessage_def intro: exI [of _ "length (mp_buffer p)"] split: sum.splits if_splits)

lemma detect_nonempty: "detectMessageType p = Inr t \<Longrightarrow> mp_buffer p \<noteq> []"
  by (auto simp: detectMessageType_def IndexByte_def)



text \<open>\<open>depth\<close> decreases from a document, or the part of it that is cut off, to the operation inside its envelope.\<close>

definition nested_below :: "xml_env \<Rightarrow> (string \<Rightarrow> nat) \<Rightarrow> bool" where
  "nested_below xe depth \<longleftrightarrow>
     (\<forall>d n e. xe_envelope xe (take n d) = Inr e \<longrightarrow> depth (body_text (en_Body e)) < depth d)"

lemma Envelope_Message_cong:
  assumes "f (body_text (en_Body e)) = g (body_text (en_Body e))"
  shows "Envelope_Message f e = Envelope_Message g e"
  using assms by (simp add: Envelope_Message_def parseBody_def split: list.splits)

lemma Parse_nested_cong:
  assumes "\<And>n e. xe_envelope xe (take n (mp_buffer p)) = Inr e \<Longrightarrow> f (body_text (en_Body e)) = g (body_text (en_Body e))"
  shows "Parse xe f p = Parse xe g p"
proof -
  have "Envelope_Message f e = Envelope_Message g e" if "parseMessage (xe_envelope xe) p = Inr (e, r)" for e r
    using parseMessage_unmarshalled [OF that] assms by (auto intro: Envelope_Message_cong)
  then show ?thesis by (auto simp: Parse_def split: sum.splits)
qed

lemma nesting_stable:
  assumes "nested_below xe depth" "depth d < n" "depth d < n'"
  shows "ParseMessage n xe d = ParseMessage n' xe d"
  using assms(2,3)
proof (induction "depth d" arbitrary: d n n' rule: less_induct)
  case less
  obtain k k' where n: "n = Suc k" "n' = Suc k'" using less(2,3) by (metis Suc_diff_1 less_nat_zero_code neq0_conv)
  let ?nested = "\<lambda>k doc. map_sum (\<lambda>e. e) operation_of (ParseMessage k xe doc)"
  have "?nested k (body_text (en_Body e)) = ?nested k' (body_text (en_Body e))"
    if "xe_envelope xe (take j (mp_buffer (AppendData d NewMessageParser))) = Inr e" for j e
  proof -
    have "depth (body_text (en_Body e)) < depth d"
      using that assms(1) by (auto simp: nested_below_def AppendData_def NewMessageParser_def)
    then show ?thesis using less(1) [of "body_text (en_Body e)" k k'] less(2,3) n by simp
  qed
  then have "Parse xe (?nested k) (AppendData d NewMessageParser) = Parse xe (?nested k') (AppendData d NewMessageParser)"
    by (rule Parse_nested_cong)
  then show ?case by (simp add: n)
qed

text \<open>
  Envelopes in envelopes are parsed to the end: the result does not depend on the bound once it exceeds
  the nesting depth of the document.
\<close>

theorem parse_nesting_suffices:
  assumes "nested_below xe depth" "depth d < n"
  shows "ParseMessage n xe d = ParseMessage (Suc (depth d)) xe d"
  by (rule nesting_stable [OF assms]) simp

definition example_inner :: Envelope where
  "example_inner = \<lparr>en_MosID = ''m'', en_NcsID = ''n'', en_MessageID = ''1'', en_typed = [],
     en_Body = \<lparr>ie_name = ''keepAlive'', ie_attrs = [], ie_raw = []\<rparr>\<rparr>"

definition example_nested :: xml_env where
  "example_nested = example_xml\<lparr>xe_envelope := (\<lambda>d. if d = ''<mos></mos>'' then Inr example_inner else Inl ErrInvalidXML)\<rparr>"

definition example_depth :: "string \<Rightarrow> nat" where
  "example_depth d = (if take 4 d = ''<mos'' then 1 else 0)"

theorem parse_nesting_suffices_witness:
  "ParseMessage 7 example_nested ''<mos></mos>'' = Inr (EnvelopeMessage example_inner)"
proof -
  have "nested_below example_nested example_depth"
    unfolding nested_below_def
  proof (intro allI impI)
    fix d n e
    assume "xe_envelope example_nested (take n d) = Inr e"
    then have t: "take n d = ''<mos></mos>''" and e: "e = example_inner" by (auto simp: example_nested_def split: if_splits)
    obtain d' where "d = ''<mos></mos>'' @ d'" using append_take_drop_id [of n d] t by metis
    then have "take 4 d = ''<mos''" by simp
    then show "example_depth (body_text (en_Body e)) < example_depth d"
      by (simp add: e example_depth_def example_inner_def body_text_def)
  qed
  moreover have "ParseMessage 2 example_nested ''<mos></mos>'' = Inr (EnvelopeMessage example_inner)" by code_simp
  ultimately show ?thesis
    using parse_nesting_suffices [of example_nested example_depth "''<mos></mos>''" 7] by (simp add: example_depth_def numeral_2_eq_2)
qed

section \<open>Declarations and replies\<close>

definition declaration_attrs :: string where
  "declaration_attrs = '' version='' @ [CHR 34] @ ''1.0'' @ [CHR 34] @ '' encoding='' @ [CHR 34] @ ''UTF-8'' @ [CHR 34] @ ''?''"

lemma header_opened: "xml_header @ data = CHR ''<'' # ''?xml'' @ declaration_attrs @ CHR ''>'' # CHR 10 # data"
  by (simp add: xml_header_def declaration_attrs_def)

lemma declared_unclosed:
  assumes "find_sub (closing_tag ''?xml'') data = None"
  shows "\<not> HasCompleteMessage \<lparr>mp_buffer = xml_header @ data\<rparr>"
proof -
  let ?h = "''?xml'' @ declaration_attrs @ ''>'' @ [CHR 10]"
  have "find_sub (CHR ''<'' # ''/?xml>'') (CHR ''<'' # ?h @ data) = None"
    using find_sub_after_head [of "''/?xml>''" ?h "CHR ''<''" data] assms by (simp add: declaration_attrs_def closing_tag_def)
  then show ?thesis
    using complete_opened [of "''?xml''" declaration_attrs "CHR 10 # data"]
    by (simp add: header_opened opening_tag_def name_stops_def declaration_attrs_def closing_tag_def)
qed

text \<open>
  C1. The parser does not read what the generator writes: a document behind an XML declaration is reported
  incomplete, and stays in the buffer, unless the text \<open></?xml>\<close> occurs in it. The framer strips the
  declaration before the socket's parser sees a frame.
\<close>

theorem generated_message_incomplete:
  assumes "GenerateMessage marshal m = Inr text'" "marshal m = Inr data" "find_sub (closing_tag ''?xml'') data = None"
  shows "Parse xe nested (AppendData text' NewMessageParser) = (Inl ErrIncompleteXML, text', AppendData text' NewMessageParser)"
  using assms declared_unclosed [OF assms(3)]
  by (simp add: GenerateMessage_def Parse_def AppendData_def NewMessageParser_def)

theorem generated_message_incomplete_witness:
  "fst (Parse example_xml (\<lambda>_. Inl ErrInvalidXML) (AppendData (xml_header @ ''<keepAlive></keepAlive>'') NewMessageParser))
     = Inl ErrIncompleteXML"
  using generated_message_incomplete
    [of "\<lambda>_. Inr ''<keepAlive></keepAlive>''" KeepAlive "xml_header @ ''<keepAlive></keepAlive>''" "''<keepAlive></keepAlive>''"]
  by (simp add: GenerateMessage_def closing_tag_def)

lemma reply_envelope_carries: "reply_envelope mosID ncsID messageID m = Some e \<Longrightarrow> Envelope_Message parse e = Inr m"
  by (auto simp: reply_envelope_def Envelope_Message_def Let_def split: mos_message.splits inbound.splits)

end
