(* ===== verification/Client.thy ===== *)
theory Client
  imports Parser Dispatching MessageID
begin

text \<open>
  The MOS 4 WebSocket client (\<open>src/internal/server/wsclient.go\<close>) without a committed source: its lanes and
  their reconnection, the Profile 0 handshake, heartbeats and keepAlives, and what it does with the messages a
  peer pushes.

  Dialling and reading are inputs: a session is given by what dialling gave, what the handshake reads and the
  events of its loop. An operation returns its error or value, what was written to which connection, in order,
  and the new state. Encoding, the query of a URL and \<open>encoding/xml\<close> are fields of \<open>client_env\<close>.
\<close>

section \<open>State\<close>

record client_env =
  ce_go :: go_env
  ce_mosID :: string
  ce_ncsID :: string
  ce_interval :: time
  ce_peerURL :: string
  ce_channel :: string
  ce_passive :: bool
  ce_requestLane :: bool
  ce_reconnectInitial :: time
  ce_reconnectMax :: time
  ce_username :: string
  ce_password :: string
  ce_insecure :: bool
  ce_parse :: "string \<Rightarrow> mos_message result"
  ce_unmarshal :: "string \<Rightarrow> Envelope result"
  ce_decode :: "byte list \<Rightarrow> string result"
  ce_marshal :: "mos_message \<Rightarrow> string result"
  ce_marshal_envelope :: "Envelope \<Rightarrow> string result"
  ce_with_query :: "string \<Rightarrow> (string \<times> string) list \<Rightarrow> string result"

text \<open>
  The client. \<open>wc_seq\<close> is the message identifier sequence with its file; a connection is named by a string,
  as \<open>sourceSession\<close> does.
\<close>

record WSClient =
  wc_seq :: "(Sequence \<times> fs) option"
  wc_requestConn :: "string option"
  wc_lastFrame :: "time option"
  wc_hbOutstanding :: string
  wc_hbLastAnswer :: "time option"
  wc_deps :: "dispatcher option"

text \<open>The time of a step, whether what it writes is encoded and written, and how the disk behaves.\<close>

record client_io =
  ci_now :: time
  ci_writes :: bool
  ci_seq :: seq_io
  ci_walk :: bool

datatype client_out = Wrote string string

type_synonym 'a client_op = "WSClient \<Rightarrow> 'a result \<times> client_out list \<times> WSClient"

definition cl_return :: "'a \<Rightarrow> 'a client_op" where "cl_return x = (\<lambda>c. (Inr x, [], c))"

definition cl_bind :: "'a client_op \<Rightarrow> ('a \<Rightarrow> 'b client_op) \<Rightarrow> 'b client_op" where
  "cl_bind f g = (\<lambda>c. case f c of
      (Inl e, out, c) \<Rightarrow> (Inl e, out, c)
    | (Inr x, out, c) \<Rightarrow> (case g x c of (r, out', c) \<Rightarrow> (r, out @ out', c)))"

definition cl_wrap :: "string \<Rightarrow> 'a client_op \<Rightarrow> 'a client_op" where
  "cl_wrap t f = (\<lambda>c. case f c of (Inl e, out, c) \<Rightarrow> (Inl (Wrap t e), out, c) | r \<Rightarrow> r)"

text \<open>A value that may be an error, and an operation whose error is only logged.\<close>

definition cl_value :: "'a result \<Rightarrow> 'a client_op" where "cl_value r = (\<lambda>c. (r, [], c))"

definition cl_logged :: "'a client_op \<Rightarrow> WSClient \<Rightarrow> client_out list \<times> WSClient" where
  "cl_logged f c = (case f c of (_, out, c) \<Rightarrow> (out, c))"

section \<open>Heartbeats and frames\<close>

definition noteHeartbeatSent :: "string \<Rightarrow> WSClient \<Rightarrow> WSClient" where
  "noteHeartbeatSent messageID c = c\<lparr>wc_hbOutstanding := messageID\<rparr>"

definition isOurHeartbeatAnswered :: "string \<Rightarrow> WSClient \<Rightarrow> bool \<times> WSClient" where
  "isOurHeartbeatAnswered messageID c =
     (if messageID = [] then (False, c)
      else if wc_hbOutstanding c \<noteq> [] \<and> wc_hbOutstanding c = messageID then (True, c\<lparr>wc_hbOutstanding := []\<rparr>)
      else (False, c))"

definition mayAnswerHeartbeat :: "time \<Rightarrow> time \<Rightarrow> WSClient \<Rightarrow> bool \<times> WSClient" where
  "mayAnswerHeartbeat t interval c = (case wc_hbLastAnswer c of
      Some l \<Rightarrow> if t - l < interval then (False, c) else (True, c\<lparr>wc_hbLastAnswer := Some t\<rparr>)
    | None \<Rightarrow> (True, c\<lparr>wc_hbLastAnswer := Some t\<rparr>))"

definition noteFrame :: "time \<Rightarrow> WSClient \<Rightarrow> WSClient" where
  "noteFrame t c = c\<lparr>wc_lastFrame := Some t\<rparr>"

text \<open>\<open>time.Since(c.lastFrameAt()) < interval\<close>; a client that never saw a frame is idle.\<close>

definition recently_active :: "time \<Rightarrow> time \<Rightarrow> WSClient \<Rightarrow> bool" where
  "recently_active t interval c = (case wc_lastFrame c of Some l \<Rightarrow> t - l < interval | None \<Rightarrow> False)"

definition parseSeq :: "string \<Rightarrow> int" where
  "parseSeq val = (case ParseInt 10 64 val of Some n \<Rightarrow> if n < 1 then 1 else n | None \<Rightarrow> 1)"

definition client_messageID :: "client_io \<Rightarrow> WSClient \<Rightarrow> string \<times> WSClient" where
  "client_messageID io c = (case wc_seq c of
      None \<Rightarrow> (FormatMessageID 1, c)
    | Some s \<Rightarrow> (case seq_Next (ci_seq io) s of (val, s) \<Rightarrow> (FormatMessageID (parseSeq val), c\<lparr>wc_seq := Some s\<rparr>)))"

definition writeFrame :: "client_io \<Rightarrow> string \<Rightarrow> string \<Rightarrow> unit client_op" where
  "writeFrame io conn utf8XML c =
     (if ci_writes io then (Inr (), [Wrote conn utf8XML], noteFrame (ci_now io) c)
      else (Inl (Errorf ''write''), [], noteFrame (ci_now io) c))"

definition next_id :: "client_io \<Rightarrow> string client_op" where
  "next_id io c = (case client_messageID io c of (i, c) \<Rightarrow> (Inr i, [], c))"

definition cl_modify :: "(WSClient \<Rightarrow> WSClient) \<Rightarrow> unit client_op" where
  "cl_modify f c = (Inr (), [], f c)"

section \<open>Requests and answers\<close>

definition message_of :: "out_message \<Rightarrow> mos_message" where
  "message_of m = (case m of
      ROAckMsg i s \<Rightarrow> ROAck i s []
    | ROListMsg l \<Rightarrow> RunningOrderMsg (InList l)
    | ROListAllMsg l \<Rightarrow> RunningOrderMsg (InListAll l)
    | ROReqMsg i \<Rightarrow> RunningOrderMsg (InReq i)
    | ROReqAllMsg \<Rightarrow> RunningOrderMsg InReqAll)"

text \<open>\<open>WSClient.originate\<close>: on the request lane, wherever the message that caused the request came from.\<close>

definition client_originate :: "client_env \<Rightarrow> client_io \<Rightarrow> mos_message \<Rightarrow> unit client_op" where
  "client_originate ce io msg c = (case wc_requestConn c of
      None \<Rightarrow> (Inl (Errorf ''no request lane is connected''), [], c)
    | Some conn \<Rightarrow>
        cl_bind (cl_wrap (''marshal '' @ GetMessageType msg) (cl_value (ce_marshal ce msg))) (\<lambda>inner.
        cl_bind (next_id io) (\<lambda>messageID.
        writeFrame io conn (WrapEnvelope (ce_mosID ce) (ce_ncsID ce) messageID inner))) c)"

definition ready :: "WSClient \<Rightarrow> bool" where "ready c \<longleftrightarrow> wc_requestConn c \<noteq> None"

definition setRequestConn :: "string option \<Rightarrow> WSClient \<Rightarrow> WSClient" where
  "setRequestConn conn c = c\<lparr>wc_requestConn := conn\<rparr>"

record clientLane =
  cl_name :: string
  cl_passive :: bool
  cl_originates :: bool

definition canOriginate :: "clientLane \<Rightarrow> bool" where "canOriginate lane \<longleftrightarrow> \<not> cl_passive lane"

definition responder_respond :: "client_env \<Rightarrow> client_io \<Rightarrow> string \<Rightarrow> string \<Rightarrow> mos_message \<Rightarrow> unit client_op" where
  "responder_respond ce io conn messageID msg =
     cl_bind (cl_wrap (''failed to marshal '' @ GetMessageType msg) (cl_value (ce_marshal ce msg))) (\<lambda>inner.
     writeFrame io conn (WrapEnvelope (ce_mosID ce) (ce_ncsID ce) messageID inner))"

definition responder_originate :: "client_env \<Rightarrow> client_io \<Rightarrow> string \<Rightarrow> mos_message \<Rightarrow> unit client_op" where
  "responder_originate ce io conn msg = cl_bind (next_id io) (\<lambda>messageID. responder_respond ce io conn messageID msg)"

text \<open>What the shared dispatcher sends, on the connection of the message or on the request lane.\<close>

definition deliver_sent :: "client_env \<Rightarrow> client_io \<Rightarrow> string \<Rightarrow> string \<Rightarrow> sent \<Rightarrow> unit client_op" where
  "deliver_sent ce io conn messageID s = (case s of
      Respond m \<Rightarrow> responder_respond ce io conn messageID (message_of m)
    | Originate m \<Rightarrow> responder_originate ce io conn (message_of m)
    | OriginateVia m \<Rightarrow> client_originate ce io (message_of m))"

fun deliver_all :: "client_env \<Rightarrow> client_io \<Rightarrow> string \<Rightarrow> string \<Rightarrow> sent list \<Rightarrow> WSClient \<Rightarrow> client_out list \<times> WSClient" where
  "deliver_all ce io conn messageID [] c = ([], c)"
| "deliver_all ce io conn messageID (s # ss) c =
     (case cl_logged (deliver_sent ce io conn messageID s) c of (out, c) \<Rightarrow>
      case deliver_all ce io conn messageID ss c of (out', c) \<Rightarrow> (out @ out', c))"

section \<open>Construction and dialling\<close>

text \<open>\<open>opened\<close> is what \<open>messageid.Open\<close> returned and \<open>svc\<close> the dispatcher state around the service, if there is one.\<close>

definition NewWSClient :: "(Sequence \<times> fs) option \<Rightarrow> dispatcher option \<Rightarrow> WSClient" where
  "NewWSClient opened svc = \<lparr>wc_seq = opened, wc_requestConn = None, wc_lastFrame = None, wc_hbOutstanding = [],
     wc_hbLastAnswer = None, wc_deps = svc\<rparr>"

definition channel_or_ro :: "client_env \<Rightarrow> string" where
  "channel_or_ro ce = (if ce_channel ce = [] then ''ro'' else ce_channel ce)"

definition client_dialURL :: "client_env \<Rightarrow> bool \<Rightarrow> string result" where
  "client_dialURL ce passive =
     (if ce_peerURL ce = [] then Inl (Errorf ''ws client peer URL is not configured'')
      else case ce_with_query ce (ce_peerURL ce)
          ([(''mosID'', ce_mosID ce), (''ncsID'', ce_ncsID ce), (''channel'', channel_or_ro ce)]
             @ (if passive then [(''passive'', ''true'')] else [])) of
        Inl e \<Rightarrow> Inl (Wrap ''invalid ws client peer URL'' e)
      | Inr u \<Rightarrow> Inr u)"

record dial_options =
  do_basicAuth :: "(string \<times> string) option"
  do_minVersion :: nat
  do_insecureSkipVerify :: bool

definition dialOptions :: "client_env \<Rightarrow> dial_options" where
  "dialOptions ce = \<lparr>do_basicAuth = (if ce_username ce \<noteq> [] \<and> ce_password ce \<noteq> [] then Some (ce_username ce, ce_password ce) else None),
     do_minVersion = 0x0303, do_insecureSkipVerify = ce_insecure ce\<rparr>"

definition lanePlan :: "client_env \<Rightarrow> clientLane list" where
  "lanePlan ce =
     (if \<not> ce_passive ce then [\<lparr>cl_name = ''standard'', cl_passive = False, cl_originates = True\<rparr>]
      else \<lparr>cl_name = ''passive'', cl_passive = True, cl_originates = False\<rparr> #
        (if ce_requestLane ce then [\<lparr>cl_name = ''request'', cl_passive = False, cl_originates = True\<rparr>] else []))"

section \<open>The handshake\<close>

datatype ws_frame = BinaryFrame "byte list" | TextFrame string | OtherFrame

text \<open>\<open>None\<close> is a frame of another type, which is skipped.\<close>

definition decodeFrame :: "client_env \<Rightarrow> ws_frame \<Rightarrow> string option result" where
  "decodeFrame ce f = (case f of
      BinaryFrame raw \<Rightarrow> map_sum (\<lambda>e. e) Some (ce_decode ce raw)
    | TextFrame raw \<Rightarrow> Inr (Some raw)
    | OtherFrame \<Rightarrow> Inr None)"

definition validate :: "client_env \<Rightarrow> Envelope \<Rightarrow> mos_message result" where
  "validate ce env = ValidateEnvelope (ce_parse ce) (quote (ce_go ce)) env Gen4x (ce_mosID ce) []"

definition readMessage :: "client_env \<Rightarrow> client_io \<Rightarrow> ws_frame result \<Rightarrow> mos_message client_op" where
  "readMessage ce io r =
     cl_bind (cl_value r) (\<lambda>f.
     cl_bind (cl_value (decodeFrame ce f)) (\<lambda>data. case data of
        None \<Rightarrow> cl_value (Inl (Errorf ''received unsupported frame type''))
      | Some data \<Rightarrow>
          cl_bind (cl_modify (noteFrame (ci_now io))) (\<lambda>_.
          cl_bind (cl_wrap ''parse envelope'' (cl_value (ce_unmarshal ce data))) (\<lambda>env.
          cl_value (validate ce env)))))"

definition generate_to :: "client_env \<Rightarrow> client_io \<Rightarrow> string \<Rightarrow> string \<Rightarrow> string \<Rightarrow> string \<Rightarrow> string \<Rightarrow> mos_message \<Rightarrow> unit client_op" where
  "generate_to ce io built sent' conn ncsID messageID msg =
     cl_bind (cl_wrap built (cl_value (GenerateEnvelope (ce_marshal_envelope ce) (ce_mosID ce) ncsID messageID msg))) (\<lambda>env.
     cl_wrap sent' (writeFrame io conn env))"

definition answerHeartbeat :: "client_env \<Rightarrow> client_io \<Rightarrow> string \<Rightarrow> string \<Rightarrow> unit client_op" where
  "answerHeartbeat ce io conn requestID =
     cl_bind (next_id io) (\<lambda>i.
     cl_bind (cl_wrap ''build heartbeat response''
       (cl_value (GenerateEnvelope (ce_marshal_envelope ce) (ce_mosID ce) (ce_ncsID ce) i (Heartbeat requestID)))) (\<lambda>env.
     writeFrame io conn env))"

text \<open>
  The two loops, over the reads of the handshake; the deadline of the handshake is a failing read, and so is the
  end of the list. They give back the reads they did not take.
\<close>

fun awaitListMachInfo :: "client_env \<Rightarrow> string \<Rightarrow> (client_io \<times> ws_frame result) list \<Rightarrow> (client_io \<times> ws_frame result) list client_op" where
  "awaitListMachInfo ce conn [] = cl_value (Inl (Wrap ''await listMachInfo'' (Errorf ''deadline'')))"
| "awaitListMachInfo ce conn ((io, r) # reads) =
     cl_bind (cl_wrap ''await listMachInfo'' (readMessage ce io r)) (\<lambda>msg. case msg of
        ListMachInfo \<Rightarrow> cl_return reads
      | MOSAck status description \<Rightarrow>
          cl_value (Inl (Errorf (''peer refused reqMachInfo with '' @ status @ '': '' @ TrimSpace description)))
      | Heartbeat requestID \<Rightarrow> cl_bind (answerHeartbeat ce io conn requestID) (\<lambda>_. awaitListMachInfo ce conn reads)
      | _ \<Rightarrow> awaitListMachInfo ce conn reads)"

fun awaitHeartbeat :: "client_env \<Rightarrow> (client_io \<times> ws_frame result) list \<Rightarrow> (client_io \<times> ws_frame result) list client_op" where
  "awaitHeartbeat ce [] = cl_value (Inl (Wrap ''await heartbeat response'' (Errorf ''deadline'')))"
| "awaitHeartbeat ce ((io, r) # reads) =
     cl_bind (cl_wrap ''await heartbeat response'' (readMessage ce io r)) (\<lambda>msg. case msg of
        Heartbeat _ \<Rightarrow> cl_return reads
      | _ \<Rightarrow> awaitHeartbeat ce reads)"

definition buildReqMachInfo :: "client_env \<Rightarrow> string \<Rightarrow> string result" where
  "buildReqMachInfo ce messageID = (case ce_marshal ce ReqMachInfo of
      Inl e \<Rightarrow> Inl e | Inr inner \<Rightarrow> Inr (WrapEnvelope (ce_mosID ce) (ce_ncsID ce) messageID inner))"

definition doProfile0 :: "client_env \<Rightarrow> client_io \<Rightarrow> client_io \<Rightarrow> string \<Rightarrow> (client_io \<times> ws_frame result) list \<Rightarrow> unit client_op" where
  "doProfile0 ce io io' conn reads =
     cl_bind (next_id io) (\<lambda>reqID.
     cl_bind (cl_wrap ''build reqMachInfo'' (cl_value (buildReqMachInfo ce reqID))) (\<lambda>reqEnv.
     cl_bind (cl_wrap ''send reqMachInfo'' (writeFrame io conn reqEnv)) (\<lambda>_.
     cl_bind (awaitListMachInfo ce conn reads) (\<lambda>reads.
     cl_bind (next_id io') (\<lambda>hbID.
     cl_bind (cl_modify (noteHeartbeatSent hbID)) (\<lambda>_.
     cl_bind (generate_to ce io' ''build heartbeat'' ''send heartbeat'' conn (ce_ncsID ce) hbID (Heartbeat [])) (\<lambda>_.
     cl_bind (awaitHeartbeat ce reads) (\<lambda>_. cl_return ()))))))))"

section \<open>Messages of the peer\<close>

definition interval_or_30s :: "client_env \<Rightarrow> time" where
  "interval_or_30s ce = (if ce_interval ce \<le> 0 then 30000000000 else ce_interval ce)"

definition answer_inbound_heartbeat :: "client_env \<Rightarrow> client_io \<Rightarrow> string \<Rightarrow> Envelope \<Rightarrow> string \<Rightarrow> WSClient \<Rightarrow> client_out list \<times> WSClient" where
  "answer_inbound_heartbeat ce io conn env requestID c =
     (case isOurHeartbeatAnswered (en_MessageID env) c of
        (True, c) \<Rightarrow> ([], c)
      | (False, c) \<Rightarrow>
          (case mayAnswerHeartbeat (ci_now io) (interval_or_30s ce) c of
             (False, c) \<Rightarrow> ([], c)
           | (True, c) \<Rightarrow>
               cl_logged (cl_bind (if en_MessageID env = [] then next_id io else cl_return (en_MessageID env)) (\<lambda>respID.
                  generate_to ce io [] [] conn (en_NcsID env) respID (Heartbeat requestID))) c))"

text \<open>The lane as the dispatcher sees it.\<close>

definition dispatch_lane :: "client_io \<Rightarrow> clientLane \<Rightarrow> WSClient \<Rightarrow> lane" where
  "dispatch_lane io lane c = \<lparr>ln_responds = ci_writes io, ln_canOriginate = canOriginate lane, ln_origin = Some (ready c)\<rparr>"

definition dispatch_inbound :: "client_env \<Rightarrow> client_io \<Rightarrow> string \<Rightarrow> clientLane \<Rightarrow> Envelope \<Rightarrow> mos_message \<Rightarrow> WSClient \<Rightarrow> client_out list \<times> WSClient" where
  "dispatch_inbound ce io conn lane env msg c = (case wc_deps c of
      None \<Rightarrow> ([], c)
    | Some d \<Rightarrow>
        (case dispatchRunningOrder ((ce_go ce)\<lparr>now := ci_now io\<rparr>) (ci_walk io) (dispatch_lane io lane c) (inbound_of msg) d of
           (handled, ok, sent, d) \<Rightarrow> deliver_all ce io conn (en_MessageID env) sent (c\<lparr>wc_deps := Some d\<rparr>)))"

definition handleInbound :: "client_env \<Rightarrow> client_io \<Rightarrow> string \<Rightarrow> clientLane \<Rightarrow> string \<Rightarrow> WSClient \<Rightarrow> client_out list \<times> WSClient" where
  "handleInbound ce io conn lane utf8XML c = (case ce_unmarshal ce utf8XML of
      Inl _ \<Rightarrow> ([], c)
    | Inr env \<Rightarrow>
        (case validate ce env of
           Inl _ \<Rightarrow> ([], c)
         | Inr msg \<Rightarrow>
             (case msg of
                Heartbeat requestID \<Rightarrow> answer_inbound_heartbeat ce io conn env requestID c
              | KeepAlive \<Rightarrow> ([], c)
              | _ \<Rightarrow> dispatch_inbound ce io conn lane env msg c)))"

section \<open>The loop of a session\<close>

datatype client_event = TimerFires | Received ws_frame | ReadFails go_error | Cancelled

text \<open>One turn: \<open>Inl\<close> ends the session.\<close>

definition periodic :: "client_env \<Rightarrow> client_io \<Rightarrow> string \<Rightarrow> clientLane \<Rightarrow> unit client_op" where
  "periodic ce io conn lane c =
     (if cl_passive lane then
        if recently_active (ci_now io) (interval_or_30s ce) c then (Inr (), [], c)
        else generate_to ce io ''build periodic keepAlive'' ''send periodic keepAlive'' conn (ce_ncsID ce) [] KeepAlive c
      else
        cl_bind (next_id io) (\<lambda>msgID.
        cl_bind (cl_modify (noteHeartbeatSent msgID)) (\<lambda>_.
        generate_to ce io ''build periodic heartbeat'' ''send periodic heartbeat'' conn (ce_ncsID ce) msgID (Heartbeat []))) c)"

definition loop_turn :: "client_env \<Rightarrow> string \<Rightarrow> clientLane \<Rightarrow> client_io \<times> client_event \<Rightarrow> unit client_op" where
  "loop_turn ce conn lane = (\<lambda>(io, ev) c. case ev of
      Cancelled \<Rightarrow> (Inl (Errorf ''context canceled''), [], c)
    | ReadFails e \<Rightarrow> (Inl e, [], c)
    | TimerFires \<Rightarrow> periodic ce io conn lane c
    | Received f \<Rightarrow>
        (case decodeFrame ce f of
           Inl _ \<Rightarrow> (Inr (), [], c)
         | Inr None \<Rightarrow> (Inr (), [], c)
         | Inr (Some data) \<Rightarrow>
             (case handleInbound ce io conn lane data (noteFrame (ci_now io) c) of (out, c) \<Rightarrow> (Inr (), out, c))))"

text \<open>\<open>Inr\<close> is a session that is still running after the events.\<close>

fun readLoop :: "client_env \<Rightarrow> string \<Rightarrow> clientLane \<Rightarrow> (client_io \<times> client_event) list \<Rightarrow> unit client_op" where
  "readLoop ce conn lane [] = cl_return ()"
| "readLoop ce conn lane (ev # evs) = cl_bind (loop_turn ce conn lane ev) (\<lambda>_. readLoop ce conn lane evs)"

definition beginDiscovery :: "client_env \<Rightarrow> client_io \<Rightarrow> string \<Rightarrow> clientLane \<Rightarrow> unit client_op" where
  "beginDiscovery ce io conn lane c =
     (if \<not> cl_originates lane \<or> wc_deps c = None then (Inr (), [], c)
      else case cl_logged (cl_bind (cl_value (ce_marshal ce (RunningOrderMsg InReqAll))) (\<lambda>inner.
          cl_bind (next_id io) (\<lambda>i. writeFrame io conn (WrapEnvelope (ce_mosID ce) (ce_ncsID ce) i inner)))) c of
        (out, c) \<Rightarrow> (Inr (), out, c))"

record session_script =
  sx_dial :: "string result"
  sx_io1 :: client_io
  sx_io2 :: client_io
  sx_io3 :: client_io
  sx_reads :: "(client_io \<times> ws_frame result) list"
  sx_events :: "(client_io \<times> client_event) list"

text \<open>Whether the session became usable, how it ended, what it wrote and the client afterwards.\<close>

definition runSession :: "client_env \<Rightarrow> clientLane \<Rightarrow> session_script \<Rightarrow> WSClient \<Rightarrow> bool \<times> unit result \<times> client_out list \<times> WSClient" where
  "runSession ce lane sx c = (case sx_dial sx of
      Inl e \<Rightarrow> (False, Inl e, [], c)
    | Inr conn \<Rightarrow>
        if cl_passive lane then (True, readLoop ce conn lane (sx_events sx) c)
        else (case cl_wrap ''profile 0 handshake failed'' (doProfile0 ce (sx_io1 sx) (sx_io2 sx) conn (sx_reads sx)) c of
           (Inl e, out, c) \<Rightarrow> (False, Inl e, out, c)
         | (Inr _, out, c) \<Rightarrow>
             let c = (if cl_originates lane then setRequestConn (Some conn) c else c) in
             (case cl_bind (beginDiscovery ce (sx_io3 sx) conn lane) (\<lambda>_. readLoop ce conn lane (sx_events sx)) c of
                (r, out', c) \<Rightarrow> (True, r, out @ out', if cl_originates lane then setRequestConn None c else c))))"

section \<open>Reconnecting\<close>

definition first_backoff :: "client_env \<Rightarrow> time" where
  "first_backoff ce = (if ce_reconnectInitial ce \<le> 0 then 500000000 else ce_reconnectInitial ce)"

definition max_backoff :: "client_env \<Rightarrow> time" where
  "max_backoff ce = (if ce_reconnectMax ce \<le> 0 then 30000000000 else ce_reconnectMax ce)"

text \<open>The wait after a session and the backoff afterwards.\<close>

definition after_session :: "client_env \<Rightarrow> bool \<Rightarrow> time \<Rightarrow> time \<times> time" where
  "after_session ce connected backoff =
     (let backoff = (if connected then first_backoff ce else backoff);
          grown = (if connected then backoff
                   else if backoff * 2 > max_backoff ce then max_backoff ce else backoff * 2) in
      (backoff, grown))"

text \<open>\<open>runLane\<close> over the sessions it runs: the waits between them, what was written, the client afterwards.\<close>

fun run_sessions :: "client_env \<Rightarrow> clientLane \<Rightarrow> time \<Rightarrow> session_script list \<Rightarrow> WSClient \<Rightarrow> time list \<times> client_out list \<times> WSClient" where
  "run_sessions ce lane backoff [] c = ([], [], c)"
| "run_sessions ce lane backoff (sx # sxs) c =
     (case runSession ce lane sx c of
        (connected, _, out, c) \<Rightarrow>
          (case after_session ce connected backoff of
             (wait, backoff) \<Rightarrow>
               (case run_sessions ce lane backoff sxs c of (waits, out', c) \<Rightarrow> (wait # waits, out @ out', c))))"

definition runLane :: "client_env \<Rightarrow> clientLane \<Rightarrow> session_script list \<Rightarrow> WSClient \<Rightarrow> (time list \<times> client_out list \<times> WSClient) result" where
  "runLane ce lane sxs c = (case client_dialURL ce (cl_passive lane) of
      Inl e \<Rightarrow> Inl e | Inr _ \<Rightarrow> Inr (run_sessions ce lane (first_backoff ce) sxs c))"

section \<open>What each operation keeps\<close>

lemma cl_simps [simp]:
  "cl_bind f g c = (case f c of (Inl e, out, c) \<Rightarrow> (Inl e, out, c)
     | (Inr x, out, c) \<Rightarrow> (case g x c of (r, out', c) \<Rightarrow> (r, out @ out', c)))"
  "cl_value r c = (r, [], c)"
  "cl_return x c = (Inr x, [], c)"
  "cl_modify h c = (Inr (), [], h c)"
  "cl_wrap t f c = (case f c of (Inl e, out, c) \<Rightarrow> (Inl (Wrap t e), out, c) | r \<Rightarrow> r)"
  by (simp_all add: cl_bind_def cl_value_def cl_return_def cl_modify_def cl_wrap_def)

text \<open>Every frame written satisfies \<open>P\<close>, and the state keeps \<open>Q\<close>.\<close>

definition writes :: "(client_out \<Rightarrow> bool) \<Rightarrow> (WSClient \<Rightarrow> bool) \<Rightarrow> 'a client_op \<Rightarrow> bool" where
  "writes P Q f \<longleftrightarrow> (\<forall>c r out c'. Q c \<longrightarrow> f c = (r, out, c') \<longrightarrow> list_all P out \<and> Q c')"

lemma writesD: "writes P Q f \<Longrightarrow> Q c \<Longrightarrow> f c = (r, out, c') \<Longrightarrow> list_all P out \<and> Q c'"
  by (simp add: writes_def)

lemma writes_cong: "writes P Q g \<Longrightarrow> (\<And>c. Q c \<Longrightarrow> f c = g c) \<Longrightarrow> writes P Q f"
  by (simp add: writes_def)

lemma writes_bind:
  assumes "writes P Q f" "\<And>x. writes P Q (g x)"
  shows "writes P Q (cl_bind f g)"
  unfolding writes_def
proof (intro allI impI)
  fix c r out c'
  assume Q: "Q c" and run: "cl_bind f g c = (r, out, c')"
  obtain r1 out1 c1 where f: "f c = (r1, out1, c1)" by (metis prod_cases3)
  note first = writesD [OF assms(1) Q f]
  show "list_all P out \<and> Q c'"
  proof (cases r1)
    case (Inl e)
    then show ?thesis using first run f by simp
  next
    case (Inr x)
    obtain r2 out2 c2 where g: "g x c1 = (r2, out2, c2)" by (metis prod_cases3)
    show ?thesis using first writesD [OF assms(2) _ g] run f g Inr by auto
  qed
qed

lemma writes_wrap: "writes P Q f \<Longrightarrow> writes P Q (cl_wrap t f)"
  unfolding writes_def by (auto split: prod.splits sum.splits)

lemma writes_value: "writes P Q (cl_value r)" "writes P Q (cl_return x)"
  by (simp_all add: writes_def)

lemma writes_modify: "(\<And>c. Q c \<Longrightarrow> Q (h c)) \<Longrightarrow> writes P Q (cl_modify h)"
  by (simp add: writes_def)

lemma writes_frame:
  assumes "\<And>c. Q c \<Longrightarrow> Q (noteFrame (ci_now io) c)" "P (Wrote conn x)"
  shows "writes P Q (writeFrame io conn x)"
  using assms by (auto simp: writes_def writeFrame_def split: if_splits)

lemmas writes_intros = writes_bind writes_wrap writes_value writes_modify writes_frame

text \<open>The parts of the state an operation may rely on: all but the sequence, the last frame and the heartbeat.\<close>

definition on_lane :: "string option \<Rightarrow> WSClient \<Rightarrow> bool" where
  "on_lane conn c \<longleftrightarrow> wc_requestConn c = conn"

lemma on_lane_updates [simp]:
  "on_lane conn (noteFrame t c) = on_lane conn c"
  "on_lane conn (noteHeartbeatSent i c) = on_lane conn c"
  "on_lane conn (c\<lparr>wc_deps := d\<rparr>) = on_lane conn c"
  "on_lane conn (c\<lparr>wc_seq := s\<rparr>) = on_lane conn c"
  "on_lane conn (c\<lparr>wc_hbLastAnswer := a\<rparr>) = on_lane conn c"
  "on_lane conn (c\<lparr>wc_hbOutstanding := h\<rparr>) = on_lane conn c"
  by (simp_all add: on_lane_def noteFrame_def noteHeartbeatSent_def)

lemma writes_next_id: "writes P (on_lane conn) (next_id io)"
  by (auto simp: writes_def next_id_def client_messageID_def split: prod.splits option.splits)

section \<open>A passive lane carries no requests\<close>

definition is_request :: "mos_message \<Rightarrow> bool" where
  "is_request m = (case m of RunningOrderMsg i \<Rightarrow> (case i of InReq _ \<Rightarrow> True | InReqAll \<Rightarrow> True | _ \<Rightarrow> False) | _ \<Rightarrow> False)"

text \<open>The frame is the envelope of a message that is not a request, unless it goes to another connection.\<close>

definition frame_of :: "client_env \<Rightarrow> string \<Rightarrow> mos_message \<Rightarrow> bool" where
  "frame_of ce x m \<longleftrightarrow>
     (\<exists>i inner. ce_marshal ce m = Inr inner \<and> x = WrapEnvelope (ce_mosID ce) (ce_ncsID ce) i inner)
     \<or> (\<exists>n i. GenerateEnvelope (ce_marshal_envelope ce) (ce_mosID ce) n i m = Inr x)"

definition no_request_on :: "client_env \<Rightarrow> string \<Rightarrow> client_out \<Rightarrow> bool" where
  "no_request_on ce conn o' = (case o' of Wrote k x \<Rightarrow> k = conn \<longrightarrow> (\<exists>m. frame_of ce x m \<and> \<not> is_request m))"

definition answers_only :: "lane \<Rightarrow> sent \<Rightarrow> bool" where
  "answers_only ln s = (case s of
      Respond m \<Rightarrow> \<not> is_request (message_of m) | Originate _ \<Rightarrow> ln_canOriginate ln | OriginateVia _ \<Rightarrow> True)"

lemma sendDiscoveryReq_answers: "list_all (answers_only ln) (sendDiscoveryReq ln roID)"
  by (simp add: sendDiscoveryReq_def sendRequest_def answers_only_def split: option.splits)

lemma requestResync_answers: "requestResync e io ln roID d = (sent, d') \<Longrightarrow> list_all (answers_only ln) sent"
  by (auto simp: requestResync_def Let_def sendDiscoveryReq_answers split: prod.splits if_splits)

lemma respond_answers: "\<not> is_request (message_of m) \<Longrightarrow> respond ln m d = (ok, sent, d') \<Longrightarrow> list_all (answers_only ln) sent"
  by (auto simp: respond_def answers_only_def)

lemma roAck_is_answer [simp]:
  "\<not> is_request (message_of (ROAckMsg i t))" "\<not> is_request (message_of (ROListMsg l))" "\<not> is_request (message_of (ROListAllMsg ls))"
  by (simp_all add: is_request_def message_of_def)

lemma answer_result_answers: "answer_result e ln roID f d = (ok, sent, d') \<Longrightarrow> list_all (answers_only ln) sent"
  by (auto simp: answer_result_def Let_def dest!: respond_answers [rotated] split: prod.splits sum.splits)

lemma answer_or_recover_answers: "answer_or_recover e io ln roID t f d = (ok, sent, d') \<Longrightarrow> list_all (answers_only ln) sent"
  by (auto simp: answer_or_recover_def Let_def dest!: respond_answers [rotated] requestResync_answers
      split: prod.splits sum.splits option.splits if_splits)

lemma handle_inbound_answers:
  assumes "handle_inbound e io ln m d = (ok, sent, d')"
  shows "list_all (answers_only ln) sent"
  using assms
  by (cases m)
    (auto simp: handle_inbound_def handleReplace_def handleDelete_def handleMetadataReplace_def handleStorySend_def
      handleReadyToAir_def handleElementAction_def handleElementStat_def handleReq_def handleReqAll_def handleList_def
      handleListAll_def handleCreate_def Let_def sendDiscoveryReq_answers
      dest!: answer_result_answers answer_or_recover_answers respond_answers [rotated]
      split: prod.splits sum.splits option.splits if_splits)

lemma dispatch_answers:
  assumes "dispatchRunningOrder e io ln m d = (handled, ok, sent, d')"
  shows "list_all (answers_only ln) sent"
  using assms
  by (auto simp: dispatchRunningOrder_def Let_def advanceWalk_def sendDiscoveryReq_answers dest!: handle_inbound_answers
      split: prod.splits if_splits)

lemma writes_respond:
  assumes "\<not> is_request m \<or> conn \<noteq> pconn"
  shows "writes (no_request_on ce pconn) (on_lane rc) (responder_respond ce io conn i m)"
proof -
  have "writes (no_request_on ce pconn) (on_lane rc) (writeFrame io conn (WrapEnvelope (ce_mosID ce) (ce_ncsID ce) i inner))"
    if "ce_marshal ce m = Inr inner" for inner
    by (rule writes_frame) (use that assms in \<open>auto simp: no_request_on_def frame_of_def\<close>)
  then show ?thesis by (auto simp: responder_respond_def writes_def split: sum.splits prod.splits)
qed

lemma writes_originate:
  assumes "rc \<noteq> Some pconn"
  shows "writes (no_request_on ce pconn) (on_lane rc) (client_originate ce io m)"
proof (cases rc)
  case None
  then show ?thesis by (simp add: writes_def client_originate_def on_lane_def)
next
  case (Some conn)
  let ?f = "cl_bind (cl_wrap (''marshal '' @ GetMessageType m) (cl_value (ce_marshal ce m))) (\<lambda>inner.
     cl_bind (next_id io) (\<lambda>messageID. writeFrame io conn (WrapEnvelope (ce_mosID ce) (ce_ncsID ce) messageID inner)))"
  have "writes (no_request_on ce pconn) (on_lane rc) ?f"
    by (intro writes_intros writes_next_id) (use assms Some in \<open>auto simp: no_request_on_def\<close>)
  then show ?thesis by (rule writes_cong) (simp only: client_originate_def on_lane_def Some option.case)
qed

lemma writes_deliver:
  assumes "rc \<noteq> Some pconn" "answers_only ln s" "\<not> ln_canOriginate ln"
  shows "writes (no_request_on ce pconn) (on_lane rc) (deliver_sent ce io pconn i s)"
  using assms writes_respond writes_originate by (cases s) (auto simp: deliver_sent_def answers_only_def)

lemma deliver_all_writes:
  assumes "rc \<noteq> Some pconn" "\<not> ln_canOriginate ln" "list_all (answers_only ln) ss" "on_lane rc c"
    "deliver_all ce io pconn i ss c = (out, c')"
  shows "list_all (no_request_on ce pconn) out \<and> on_lane rc c'"
  using assms(3-5)
proof (induction ss arbitrary: c out c')
  case (Cons s ss)
  obtain r out1 c1 where s: "deliver_sent ce io pconn i s c = (r, out1, c1)" by (metis prod_cases3)
  obtain out2 c2 where ss: "deliver_all ce io pconn i ss c1 = (out2, c2)" by fastforce
  have "list_all (no_request_on ce pconn) out1 \<and> on_lane rc c1"
    using writesD [OF writes_deliver [OF assms(1) _ assms(2)] Cons.prems(2) s] Cons.prems(1) by simp
  then show ?case using Cons.IH [OF _ _ ss] Cons.prems s ss by (auto simp: cl_logged_def)
qed simp

lemma writes_generate:
  assumes "\<not> is_request m"
  shows "writes (no_request_on ce pconn) (on_lane rc) (generate_to ce io b t conn n i m)"
proof -
  have "writes (no_request_on ce pconn) (on_lane rc) (writeFrame io conn x)"
    if "GenerateEnvelope (ce_marshal_envelope ce) (ce_mosID ce) n i m = Inr x" for x
  proof (rule writes_frame)
    have "frame_of ce x m" using that by (auto simp: frame_of_def)
    then show "no_request_on ce pconn (Wrote conn x)" using assms by (auto simp: no_request_on_def)
  qed simp
  then show ?thesis by (auto simp: generate_to_def writes_def split: sum.splits prod.splits)
qed

lemma profile0_no_request [simp]: "\<not> is_request (Heartbeat r)" "\<not> is_request KeepAlive"
  by (simp_all add: is_request_def)

lemma answer_inbound_heartbeat_writes:
  assumes "on_lane rc c" "answer_inbound_heartbeat ce io conn env r c = (out, c')"
  shows "list_all (no_request_on ce pconn) out \<and> on_lane rc c'"
proof -
  let ?f = "cl_bind (if en_MessageID env = [] then next_id io else cl_return (en_MessageID env)) (\<lambda>respID.
      generate_to ce io [] [] conn (en_NcsID env) respID (Heartbeat r))"
  have w: "writes (no_request_on ce pconn) (on_lane rc) ?f"
    by (intro writes_bind writes_generate) (auto simp: writes_next_id writes_value)
  obtain ours c1 where o1: "isOurHeartbeatAnswered (en_MessageID env) c = (ours, c1)" by fastforce
  obtain may c2 where o2: "mayAnswerHeartbeat (ci_now io) (interval_or_30s ce) c1 = (may, c2)" by fastforce
  have c1: "on_lane rc c1" using o1 assms(1) by (auto simp: isOurHeartbeatAnswered_def split: if_splits)
  then have c2: "on_lane rc c2" using o2 by (auto simp: mayAnswerHeartbeat_def split: option.splits if_splits)
  obtain r' out3 c3 where o3: "?f c2 = (r', out3, c3)" by (metis prod_cases3)
  show ?thesis
    using assms(2) o1 o2 o3 c1 c2 writesD [OF w c2 o3]
    by (cases ours; cases may) (simp_all add: answer_inbound_heartbeat_def cl_logged_def del: cl_simps)
qed

lemma dispatch_inbound_writes:
  assumes "rc \<noteq> Some pconn" "cl_passive lane" "on_lane rc c" "dispatch_inbound ce io pconn lane env msg c = (out, c')"
  shows "list_all (no_request_on ce pconn) out \<and> on_lane rc c'"
proof (cases "wc_deps c")
  case None
  then show ?thesis using assms by (simp add: dispatch_inbound_def)
next
  case (Some d)
  let ?ln = "dispatch_lane io lane c"
  obtain handled ok sent d' where dr: "dispatchRunningOrder ((ce_go ce)\<lparr>now := ci_now io\<rparr>) (ci_walk io) ?ln (inbound_of msg) d
      = (handled, ok, sent, d')" by (metis prod_cases4)
  have "\<not> ln_canOriginate ?ln" using assms(2) by (simp add: dispatch_lane_def canOriginate_def)
  then show ?thesis
    using deliver_all_writes [OF assms(1) _ dispatch_answers [OF dr], of "c\<lparr>wc_deps := Some d'\<rparr>"] assms(3,4) Some dr
    by (simp add: dispatch_inbound_def)
qed

lemma handleInbound_writes:
  assumes "rc \<noteq> Some pconn" "cl_passive lane" "on_lane rc c" "handleInbound ce io pconn lane x c = (out, c')"
  shows "list_all (no_request_on ce pconn) out \<and> on_lane rc c'"
  using assms
  by (auto simp: handleInbound_def dest: dispatch_inbound_writes answer_inbound_heartbeat_writes
      split: sum.splits mos_message.splits)

lemma loop_turn_writes:
  assumes "rc \<noteq> Some pconn" "cl_passive lane"
  shows "writes (no_request_on ce pconn) (on_lane rc) (loop_turn ce pconn lane ev)"
proof -
  obtain io e where ev: "ev = (io, e)" by fastforce
  have periodic: "writes (no_request_on ce pconn) (on_lane rc) (periodic ce io pconn lane)"
    using writesD [OF writes_generate [of KeepAlive]] assms(2) by (auto simp: writes_def periodic_def split: if_splits)
  show ?thesis
  proof (cases e)
    case TimerFires
    then show ?thesis using periodic unfolding writes_def by (simp add: ev loop_turn_def)
  next
    case (Received f)
    then show ?thesis
      by (auto simp: writes_def ev loop_turn_def dest!: handleInbound_writes [OF assms, rotated]
          split: sum.splits option.splits prod.splits)
  qed (auto simp: writes_def ev loop_turn_def)
qed

lemma readLoop_writes:
  assumes "rc \<noteq> Some pconn" "cl_passive lane"
  shows "writes (no_request_on ce pconn) (on_lane rc) (readLoop ce pconn lane evs)"
  by (induction evs) (simp_all only: readLoop.simps writes_value writes_bind loop_turn_writes [OF assms])


section \<open>Heartbeats do not loop\<close>

lemma FormatMessageID_nonempty: "FormatMessageID n \<noteq> []"
  by (auto simp: FormatMessageID_def FormatInt_def)

definition carries :: "client_env \<Rightarrow> ws_frame \<Rightarrow> Envelope \<Rightarrow> bool" where
  "carries ce f env = (case decodeFrame ce f of Inr (Some data) \<Rightarrow> ce_unmarshal ce data = Inr env | _ \<Rightarrow> False)"

lemma heartbeat_turn:
  assumes "carries ce f env" "validate ce env = Inr (Heartbeat r)"
  shows "loop_turn ce conn lane (io, Received f) c =
    (case answer_inbound_heartbeat ce io conn env r (noteFrame (ci_now io) c) of (out, c) \<Rightarrow> (Inr (), out, c))"
  using assms by (auto simp: carries_def loop_turn_def handleInbound_def split: sum.splits option.splits)

lemma periodic_outstanding:
  assumes "\<not> cl_passive lane" "loop_turn ce conn lane (io, TimerFires) c = (Inr (), out, c')"
  shows "wc_hbOutstanding c' \<noteq> []"
  using assms FormatMessageID_nonempty
  by (auto simp: loop_turn_def periodic_def next_id_def client_messageID_def generate_to_def writeFrame_def noteFrame_def
      noteHeartbeatSent_def split: prod.splits sum.splits option.splits if_splits)

lemma own_heartbeat_silent:
  assumes "carries ce f env" "validate ce env = Inr (Heartbeat r)"
    "wc_hbOutstanding c \<noteq> []" "en_MessageID env = wc_hbOutstanding c"
  shows "loop_turn ce conn lane (io, Received f) c = (Inr (), [], (noteFrame (ci_now io) c)\<lparr>wc_hbOutstanding := []\<rparr>)"
  using assms(3,4) unfolding heartbeat_turn [OF assms(1,2)]
  by (simp add: answer_inbound_heartbeat_def isOurHeartbeatAnswered_def noteFrame_def)

lemma heartbeat_answer_echoes:
  assumes "carries ce f env" "validate ce env = Inr (Heartbeat r)" "en_MessageID env \<noteq> []"
    "loop_turn ce conn lane (io, Received f) c = (res, out, c')"
  shows "out = [] \<or> (\<exists>x. out = [Wrote conn x] \<and>
     GenerateEnvelope (ce_marshal_envelope ce) (ce_mosID ce) (en_NcsID env) (en_MessageID env) (Heartbeat r) = Inr x)"
  using assms(3,4) unfolding heartbeat_turn [OF assms(1,2)]
  by (auto simp: answer_inbound_heartbeat_def cl_logged_def generate_to_def writeFrame_def
      split: prod.splits bool.splits sum.splits if_splits)


section \<open>Two lanes share one clock\<close>

text \<open>Turns of several lanes of one client, in the order they happen.\<close>

type_synonym lane_turn = "string \<times> clientLane \<times> client_io \<times> client_event"

fun interleaved :: "client_env \<Rightarrow> lane_turn list \<Rightarrow> unit client_op" where
  "interleaved ce [] = cl_return ()"
| "interleaved ce ((conn, lane, io, ev) # ts) = cl_bind (loop_turn ce conn lane (io, ev)) (\<lambda>_. interleaved ce ts)"

text \<open>Both timers with the same interval, the request lane's a little ahead of the passive lane's.\<close>

definition timers :: "string \<Rightarrow> string \<Rightarrow> time \<Rightarrow> time \<Rightarrow> time \<Rightarrow> (nat \<Rightarrow> client_io) \<Rightarrow> nat \<Rightarrow> lane_turn list" where
  "timers rconn pconn r p interval io n = concat (map (\<lambda>k.
     [(rconn, \<lparr>cl_name = ''request'', cl_passive = False, cl_originates = True\<rparr>, (io (2 * k))\<lparr>ci_now := r + int k * interval\<rparr>, TimerFires),
      (pconn, \<lparr>cl_name = ''passive'', cl_passive = True, cl_originates = False\<rparr>, (io (2 * k + 1))\<lparr>ci_now := p + int k * interval\<rparr>, TimerFires)])
     [0..<n])"

lemma active_heartbeat:
  assumes "\<not> cl_passive lane" "loop_turn ce conn lane (io, TimerFires) c = (Inr (), out, c')"
  shows "wc_lastFrame c' = Some (ci_now io) \<and> (\<forall>o'\<in>set out. \<exists>x. o' = Wrote conn x)"
  using assms by (auto simp: loop_turn_def periodic_def next_id_def client_messageID_def generate_to_def writeFrame_def
      noteFrame_def split: prod.splits sum.splits option.splits if_splits)

lemma failed_heartbeat:
  assumes "\<not> cl_passive lane" "loop_turn ce conn lane (io, TimerFires) c = (Inl e, out, c')"
  shows "out = []"
  using assms by (auto simp: loop_turn_def periodic_def next_id_def client_messageID_def generate_to_def writeFrame_def
      noteFrame_def split: prod.splits sum.splits option.splits if_splits)

lemma interleaved_append: "interleaved ce (ts @ us) = cl_bind (interleaved ce ts) (\<lambda>_. interleaved ce us)"
proof (induction ts)
  case (Cons t ts)
  then show ?case by (cases t) (auto simp: fun_eq_iff split: prod.splits sum.splits)
qed (simp add: fun_eq_iff split: prod.splits)

definition one_lane :: "string \<Rightarrow> unit client_op \<Rightarrow> bool" where
  "one_lane rconn f \<longleftrightarrow> writes (\<lambda>o'. \<exists>x. o' = Wrote rconn x) (\<lambda>_. True) f"

lemma timers_one_lane:
  assumes "0 \<le> p - r" "p - r < interval_or_30s ce"
  shows "one_lane rconn (interleaved ce (timers rconn pconn r p (interval_or_30s ce) io n))"
proof (induction n)
  case (Suc n)
  let ?I = "interval_or_30s ce"
  let ?rl = "\<lparr>cl_name = ''request'', cl_passive = False, cl_originates = True\<rparr>"
  let ?pl = "\<lparr>cl_name = ''passive'', cl_passive = True, cl_originates = False\<rparr>"
  let ?io1 = "(io (2 * n))\<lparr>ci_now := r + int n * ?I\<rparr>" and ?io2 = "(io (2 * n + 1))\<lparr>ci_now := p + int n * ?I\<rparr>"
  let ?pair = "[(rconn, ?rl, ?io1, TimerFires), (pconn, ?pl, ?io2, TimerFires)]"
  have "writes (\<lambda>o'. \<exists>x. o' = Wrote rconn x) (\<lambda>_. True) (interleaved ce ?pair)"
    unfolding writes_def
  proof (intro allI impI)
    fix c res out c'
    assume run: "interleaved ce ?pair c = (res, out, c')"
    obtain r1 out1 c1 where t: "loop_turn ce rconn ?rl (?io1, TimerFires) c = (r1, out1, c1)" by (metis prod_cases3)
    show "list_all (\<lambda>o'. \<exists>x. o' = Wrote rconn x) out \<and> True"
    proof (cases r1)
      case (Inl e)
      then have "out1 = []" using failed_heartbeat [of ?rl ce rconn ?io1 c e out1 c1] t by simp
      then show ?thesis using Inl t run by simp
    next
      case (Inr u)
      then have a: "wc_lastFrame c1 = Some (r + int n * ?I)" "\<forall>o'\<in>set out1. \<exists>x. o' = Wrote rconn x"
        using active_heartbeat [of ?rl] t by auto
      then have "loop_turn ce pconn ?pl (?io2, TimerFires) c1 = (Inr (), [], c1)"
        using assms by (simp add: loop_turn_def periodic_def recently_active_def)
      then show ?thesis using run t Inr a by (auto simp: list_all_iff)
    qed
  qed
  then show ?case using Suc unfolding one_lane_def timers_def
    by (simp only: upt_Suc_append [OF le0] map_append concat_append interleaved_append list.map concat.simps append_Nil2 writes_bind)
qed (simp only: one_lane_def timers_def upt_0 list.map concat.simps interleaved.simps writes_value)

text \<open>
  C36. With a request lane the passive lane is never kept alive: the time of the last frame is one for both lanes,
  so the periodic heartbeat of the request lane makes the idle check of the passive lane fail every time. Over any
  number of periods nothing is written to the passive connection.
\<close>

theorem passive_lane_never_kept_alive:
  assumes "0 \<le> p - r" "p - r < interval_or_30s ce" "rconn \<noteq> pconn"
    and "interleaved ce (timers rconn pconn r p (interval_or_30s ce) io n) c = (res, out, c')"
  shows "Wrote pconn x \<notin> set out"
  using timers_one_lane [OF assms(1,2), of rconn pconn io n] assms(3,4)
  by (auto simp: one_lane_def writes_def list_all_iff dest!: bspec)

section \<open>A usable session is handshaken\<close>

definition reads_as :: "client_env \<Rightarrow> ws_frame result \<Rightarrow> mos_message \<Rightarrow> bool" where
  "reads_as ce r m \<longleftrightarrow> (\<exists>f data env. r = Inr f \<and> decodeFrame ce f = Inr (Some data) \<and> ce_unmarshal ce data = Inr env
     \<and> validate ce env = Inr m)"

lemma cl_bindD:
  assumes "cl_bind f g c = (Inr y, out, c')"
  shows "\<exists>x out1 c1 out2. f c = (Inr x, out1, c1) \<and> g x c1 = (Inr y, out2, c')"
  using assms by (auto split: prod.splits sum.splits)

lemma readMessage_reads: "readMessage ce io r c = (Inr m, out, c') \<Longrightarrow> reads_as ce r m"
  by (cases r) (auto simp: readMessage_def reads_as_def split: sum.splits option.splits)

lemma awaitListMachInfo_saw:
  assumes "awaitListMachInfo ce conn reads c = (Inr rest, out, c')"
  shows "\<exists>pre io r. reads = pre @ (io, r) # rest \<and> reads_as ce r ListMachInfo"
  using assms
proof (induction reads arbitrary: c out c')
  case (Cons x reads)
  obtain io r where x: "x = (io, r)" by fastforce
  obtain res out1 c1 where m: "readMessage ce io r c = (res, out1, c1)" by (metis prod_cases3)
  have "rest = reads \<and> reads_as ce r ListMachInfo \<or> (\<exists>c out c'. awaitListMachInfo ce conn reads c = (Inr rest, out, c'))"
    using Cons.prems m readMessage_reads [of ce io r c _ out1 c1]
    by (auto simp: x split: sum.splits mos_message.splits prod.splits)
  then show ?case using Cons.IH x by (metis append_Cons append_Nil)
qed simp

lemma awaitHeartbeat_saw:
  assumes "awaitHeartbeat ce reads c = (Inr rest, out, c')"
  shows "\<exists>pre io r q. reads = pre @ (io, r) # rest \<and> reads_as ce r (Heartbeat q)"
  using assms
proof (induction reads arbitrary: c out c')
  case (Cons x reads)
  obtain io r where x: "x = (io, r)" by fastforce
  obtain res out1 c1 where m: "readMessage ce io r c = (res, out1, c1)" by (metis prod_cases3)
  have "(rest = reads \<and> (\<exists>q. reads_as ce r (Heartbeat q))) \<or> (\<exists>c out c'. awaitHeartbeat ce reads c = (Inr rest, out, c'))"
    using Cons.prems m readMessage_reads [of ce io r c _ out1 c1]
    by (auto simp: x split: sum.splits mos_message.splits prod.splits)
  then show ?case using Cons.IH x by (metis append_Cons append_Nil)
qed simp

lemma doProfile0_saw:
  assumes "doProfile0 ce io io' conn reads c = (Inr u, out, c')"
  shows "\<exists>rest c1 out1 c2 rest' d1 out2 d2. awaitListMachInfo ce conn reads c1 = (Inr rest, out1, c2)
    \<and> awaitHeartbeat ce rest d1 = (Inr rest', out2, d2)"
  using assms unfolding doProfile0_def by (auto simp del: cl_simps dest!: cl_bindD) blast

text \<open>
  A lane that sends requests counts as usable only after the peer has answered: among the frames of the
  handshake there is a valid listMachInfo and, after it, a valid heartbeat. Otherwise the caller backs off and no
  request is written on the lane.
\<close>

theorem usable_session_handshaken:
  assumes "\<not> cl_passive lane" "runSession ce lane sx c = (True, res, out, c')"
  shows "\<exists>before io1 r1 between io2 r2 q rest. sx_reads sx = before @ (io1, r1) # between @ (io2, r2) # rest
    \<and> reads_as ce r1 ListMachInfo \<and> reads_as ce r2 (Heartbeat q)"
proof -
  obtain conn c1 u out1 where "doProfile0 ce (sx_io1 sx) (sx_io2 sx) conn (sx_reads sx) c = (Inr u, out1, c1)"
    using assms by (auto simp: runSession_def Let_def split: sum.splits prod.splits if_splits)
  then show ?thesis by (auto dest!: doProfile0_saw awaitListMachInfo_saw awaitHeartbeat_saw) blast
qed

section \<open>Backing off\<close>

fun usable :: "client_env \<Rightarrow> clientLane \<Rightarrow> session_script list \<Rightarrow> WSClient \<Rightarrow> bool list" where
  "usable ce lane [] c = []"
| "usable ce lane (sx # sxs) c = (case runSession ce lane sx c of (connected, _, _, c) \<Rightarrow> connected # usable ce lane sxs c)"

fun waits_from :: "client_env \<Rightarrow> time \<Rightarrow> bool list \<Rightarrow> time list" where
  "waits_from ce b [] = []"
| "waits_from ce b (x # xs) = fst (after_session ce x b) # waits_from ce (snd (after_session ce x b)) xs"

lemma run_sessions_waits: "fst (run_sessions ce lane b sxs c) = waits_from ce b (usable ce lane sxs c)"
proof (induction sxs arbitrary: b c)
  case (Cons sx sxs)
  obtain x r out d where s: "runSession ce lane sx c = (x, r, out, d)" by (metis prod_cases4)
  show ?case using Cons.IH [of "snd (after_session ce x b)" d] by (auto simp: s split: prod.splits)
qed simp

text \<open>The unusable sessions in a row just before the \<open>k\<close>-th, when \<open>j\<close> came before the list.\<close>

definition streak :: "nat \<Rightarrow> nat \<Rightarrow> bool list \<Rightarrow> nat" where
  "streak j k flags = (if list_all Not (take k flags) then j + k else length (takeWhile Not (rev (take k flags))))"

lemma streak_Cons: "k \<le> length xs \<Longrightarrow> streak j (Suc k) (x # xs) = streak (if x then 0 else Suc j) k xs"
proof (cases "list_all Not (take k xs)")
  case True
  then have "takeWhile Not (rev (take k xs) @ [x]) = rev (take k xs) @ takeWhile Not [x]"
    by (intro takeWhile_append2) (auto simp: list_all_iff)
  moreover assume "k \<le> length xs"
  ultimately show ?thesis using True by (cases x) (simp_all add: streak_def del: takeWhile_append2)
next
  case False
  then obtain y where "y \<in> set (rev (take k xs))" "\<not> \<not> y" by (auto simp: list_all_iff)
  then have "takeWhile Not (rev (take k xs) @ [x]) = takeWhile Not (rev (take k xs))" by (rule takeWhile_append1)
  then show ?thesis using False by (simp add: streak_def)
qed

lemma streak_0: "streak 0 k flags = length (takeWhile Not (rev (take k flags)))" if "k \<le> length flags"
proof (cases "list_all Not (take k flags)")
  case True
  then have "takeWhile Not (rev (take k flags)) = rev (take k flags)" by (simp add: list_all_iff takeWhile_eq_all_conv)
  then have "length (takeWhile Not (rev (take k flags))) = k" using that by (simp only: length_rev length_take min_absorb2)
  then show ?thesis using True by (simp add: streak_def)
qed (simp add: streak_def)

lemma waits_from_nth:
  assumes "0 < first_backoff ce" "first_backoff ce \<le> max_backoff ce" "k < length flags"
  shows "waits_from ce (min (first_backoff ce * 2 ^ j) (max_backoff ce)) flags ! k =
    (if flags ! k then first_backoff ce else min (first_backoff ce * 2 ^ streak j k flags) (max_backoff ce))"
  using assms(3)
proof (induction flags arbitrary: j k)
  case (Cons x xs)
  let ?b = "min (first_backoff ce * 2 ^ j) (max_backoff ce)"
  have grown: "snd (after_session ce x ?b) = min (first_backoff ce * 2 ^ (if x then 0 else Suc j)) (max_backoff ce)"
    using assms(1,2) by (auto simp: after_session_def min_def Let_def)
  show ?case
  proof (cases k)
    case 0
    then show ?thesis by (simp add: after_session_def streak_def Let_def)
  next
    case (Suc i)
    then show ?thesis using Cons.IH [of i "if x then 0 else Suc j"] Cons.prems grown by (simp add: streak_Cons less_imp_le)
  qed
qed simp

lemma backoff_positive: "0 < first_backoff ce" "0 < max_backoff ce"
  by (auto simp: first_backoff_def max_backoff_def)

lemma waits_length: "length (waits_from ce b flags) = length flags"
  by (induction flags arbitrary: b) simp_all

text \<open>
  The waits between sessions: after a usable session the first backoff again, and after an unusable one the
  first backoff doubled once for every unusable session in a row before it, never above the maximum.
\<close>

theorem reconnect_waits:
  assumes "first_backoff ce \<le> max_backoff ce" "runLane ce lane sxs c = Inr (waits, out, c')" "k < length waits"
  shows "waits ! k =
    (let flags = usable ce lane sxs c in
     if flags ! k then first_backoff ce
     else min (first_backoff ce * 2 ^ length (takeWhile Not (rev (take k flags)))) (max_backoff ce))"
proof -
  let ?flags = "usable ce lane sxs c"
  have w: "waits = waits_from ce (min (first_backoff ce * 2 ^ 0) (max_backoff ce)) ?flags"
    using assms(1,2) run_sessions_waits [of ce lane "first_backoff ce" sxs c]
    by (auto simp: runLane_def min_absorb1 split: sum.splits)
  then have k: "k < length ?flags" using assms(3) by (simp add: waits_length)
  show ?thesis using waits_from_nth [OF backoff_positive(1) assms(1) k, of 0] k w by (simp add: streak_0 Let_def)
qed

section \<open>Examples\<close>

definition example_hb :: Envelope where
  "example_hb = \<lparr>en_MosID = ''m'', en_NcsID = ''n'', en_MessageID = ''1'', en_typed = [Heartbeat []],
     en_Body = \<lparr>ie_name = [], ie_attrs = [], ie_raw = []\<rparr>\<rparr>"

definition example_ce :: client_env where
  "example_ce = \<lparr>ce_go = example_env, ce_mosID = ''m'', ce_ncsID = ''n'', ce_interval = 100, ce_peerURL = ''ws://ncs'', ce_channel = ''ro'',
     ce_passive = False, ce_requestLane = False, ce_reconnectInitial = 10, ce_reconnectMax = 35, ce_username = [], ce_password = [],
     ce_insecure = False, ce_parse = (\<lambda>_. Inl ErrInvalidXML),
     ce_unmarshal = (\<lambda>d. if d = ''hb'' then Inr example_hb
        else if d = ''info'' then Inr (example_hb\<lparr>en_typed := [ListMachInfo]\<rparr>) else Inl ErrInvalidXML),
     ce_decode = (\<lambda>_. Inl ErrInvalidXML), ce_marshal = (\<lambda>m. Inr (GetMessageType m)),
     ce_marshal_envelope = (\<lambda>e. Inr (en_MessageID e)), ce_with_query = (\<lambda>u q. Inr u)\<rparr>"

definition example_client :: WSClient where "example_client = NewWSClient None None"

definition example_io :: "time \<Rightarrow> client_io" where
  "example_io t = \<lparr>ci_now = t, ci_writes = True, ci_seq = WriteOk, ci_walk = True\<rparr>"

definition standard_lane :: clientLane where
  "standard_lane = \<lparr>cl_name = ''standard'', cl_passive = False, cl_originates = True\<rparr>"

definition passive_lane :: clientLane where
  "passive_lane = \<lparr>cl_name = ''passive'', cl_passive = True, cl_originates = False\<rparr>"

definition example_script :: "string result \<Rightarrow> session_script" where
  "example_script dial = \<lparr>sx_dial = dial, sx_io1 = example_io 0, sx_io2 = example_io 1, sx_io3 = example_io 2,
     sx_reads = [(example_io 0, Inr (TextFrame ''hb'')), (example_io 1, Inr (TextFrame ''info'')), (example_io 2, Inr (TextFrame ''hb''))],
     sx_events = []\<rparr>"

lemmas example_defs = example_ce_def example_client_def example_io_def standard_lane_def passive_lane_def example_hb_def NewWSClient_def

lemmas turn_defs = loop_turn_def periodic_def generate_to_def next_id_def client_messageID_def writeFrame_def noteFrame_def
  noteHeartbeatSent_def recently_active_def interval_or_30s_def GenerateEnvelope_def reply_envelope_def decodeFrame_def

lemma example_hb_valid: "validate example_ce example_hb = Inr (Heartbeat [])"
  by (simp add: validate_def ValidateEnvelope_def Envelope_Message_def AcceptInboundMessageID_def
      inboundExemptFromMessageID_def RequiresMessageID_def example_defs)

lemma example_info_valid: "validate example_ce (example_hb\<lparr>en_typed := [ListMachInfo]\<rparr>) = Inr ListMachInfo"
  by (simp add: validate_def ValidateEnvelope_def Envelope_Message_def AcceptInboundMessageID_def
      inboundExemptFromMessageID_def RequiresMessageID_def example_defs)

lemma FormatMessageID_1: "FormatMessageID 1 = ''1''"
  by code_simp


lemma example_beat:
  "loop_turn example_ce ''a'' standard_lane (example_io 0, TimerFires) example_client
    = (Inr (), [Wrote ''a'' (xml_header @ ''1'')], example_client\<lparr>wc_hbOutstanding := ''1'', wc_lastFrame := Some 0\<rparr>)"
  by (simp add: turn_defs example_defs FormatMessageID_1)

lemma example_carries: "carries example_ce (TextFrame ''hb'') example_hb"
  by (simp add: carries_def decodeFrame_def example_ce_def)

lemma example_answer:
  "loop_turn example_ce ''b'' standard_lane (example_io 1, Received (TextFrame ''hb'')) example_client
    = (Inr (), [Wrote ''b'' (xml_header @ ''1'')], example_client\<lparr>wc_hbLastAnswer := Some 1, wc_lastFrame := Some 1\<rparr>)"
  unfolding heartbeat_turn [OF example_carries example_hb_valid]
  by (simp add: answer_inbound_heartbeat_def isOurHeartbeatAnswered_def mayAnswerHeartbeat_def cl_logged_def turn_defs example_defs)


theorem passive_lane_never_kept_alive_witness:
  "Wrote ''p'' (xml_header @ []) \<notin> set (fst (snd (interleaved example_ce (timers ''r'' ''p'' 0 10 100 (\<lambda>_. example_io 0) 3) example_client)))"
proof -
  let ?run = "interleaved example_ce (timers ''r'' ''p'' 0 10 100 (\<lambda>_. example_io 0) 3) example_client"
  have i: "interval_or_30s example_ce = 100" by (simp add: interval_or_30s_def example_ce_def)
  show ?thesis
    by (rule passive_lane_never_kept_alive [of 10 0 example_ce "''r''" "''p''" "\<lambda>_. example_io 0" 3 example_client
          "fst ?run" "fst (snd ?run)" "snd (snd ?run)"]) (simp_all add: i del: cl_simps)
qed

lemma example_read:
  "readMessage example_ce io (Inr (TextFrame ''hb'')) c = (Inr (Heartbeat []), [], noteFrame (ci_now io) c)"
  "readMessage example_ce io (Inr (TextFrame ''info'')) c = (Inr ListMachInfo, [], noteFrame (ci_now io) c)"
  using example_hb_valid example_info_valid by (simp_all add: readMessage_def decodeFrame_def example_ce_def)

lemma example_write: "writeFrame (example_io t) conn x c = (Inr (), [Wrote conn x], c\<lparr>wc_lastFrame := Some t\<rparr>)"
  by (simp add: writeFrame_def example_io_def noteFrame_def)

lemma example_now: "ci_now (example_io t) = t"
  by (simp add: example_io_def)

lemma example_next_id: "wc_seq c = None \<Longrightarrow> next_id io c = (Inr ''1'', [], c)"
  by (simp add: next_id_def client_messageID_def FormatMessageID_1)

lemma example_generate: "GenerateEnvelope (ce_marshal_envelope example_ce) m n i (Heartbeat r) = Inr (xml_header @ i)"
  by (simp add: GenerateEnvelope_def reply_envelope_def example_ce_def)

lemma example_beat_answer:
  "wc_seq c = None \<Longrightarrow> answerHeartbeat example_ce (example_io t) conn r c = (Inr (), [Wrote conn (xml_header @ ''1'')], c\<lparr>wc_lastFrame := Some t\<rparr>)"
  by (simp add: answerHeartbeat_def example_next_id example_generate example_write)

lemma example_await:
  "awaitListMachInfo example_ce conn ((io, Inr (TextFrame ''info'')) # reads) c = (Inr reads, [], noteFrame (ci_now io) c)"
  "wc_seq c = None \<Longrightarrow> awaitListMachInfo example_ce conn ((example_io t, Inr (TextFrame ''hb'')) # reads) c =
     (case awaitListMachInfo example_ce conn reads (c\<lparr>wc_lastFrame := Some t\<rparr>) of
        (r, out, c) \<Rightarrow> (r, Wrote conn (xml_header @ ''1'') # out, c))"
  "awaitHeartbeat example_ce ((io, Inr (TextFrame ''hb'')) # reads) c = (Inr reads, [], noteFrame (ci_now io) c)"
  by (simp_all add: example_read example_beat_answer noteFrame_def example_now)

lemma example_handshake:
  assumes "wc_seq c = None"
  shows "fst (doProfile0 example_ce (example_io 0) (example_io 1) ''c'' (sx_reads (example_script dial)) c) = Inr ()"
proof -
  have req: "buildReqMachInfo example_ce i = Inr (WrapEnvelope ''m'' ''n'' i ''reqMachInfo'')" for i
    by (simp add: buildReqMachInfo_def example_ce_def GetMessageType_def)
  show ?thesis
    using assms
    by (simp add: doProfile0_def example_script_def req example_next_id example_write example_await example_now noteFrame_def
        noteHeartbeatSent_def generate_to_def example_generate del: awaitListMachInfo.simps awaitHeartbeat.simps)
qed

theorem usable_session_handshaken_witness:
  "\<exists>before io1 r1 between io2 r2 q rest. sx_reads (example_script (Inr ''c'')) = before @ (io1, r1) # between @ (io2, r2) # rest
    \<and> reads_as example_ce r1 ListMachInfo \<and> reads_as example_ce r2 (Heartbeat q)"
proof -
  let ?run = "runSession example_ce standard_lane (example_script (Inr ''c'')) example_client"
  have "fst ?run"
    using example_handshake [of example_client "Inr ''c''"]
    by (cases "doProfile0 example_ce (example_io 0) (example_io 1) ''c'' (sx_reads (example_script (Inr ''c''))) example_client")
      (auto simp: runSession_def example_script_def standard_lane_def example_client_def NewWSClient_def Let_def split: prod.splits sum.splits)
  then have "?run = (True, fst (snd ?run), fst (snd (snd ?run)), snd (snd (snd ?run)))" by (metis (full_types) prod.collapse)
  then show ?thesis by (rule usable_session_handshaken [rotated]) (simp add: standard_lane_def)
qed

theorem reconnect_waits_witness:
  "fst (run_sessions example_ce standard_lane 10 (replicate 3 (example_script (Inl ErrInvalidXML))) example_client) ! 2 = 35"
proof -
  let ?s = "replicate 3 (example_script (Inl ErrInvalidXML))"
  obtain waits out c' where run: "run_sessions example_ce standard_lane 10 ?s example_client = (waits, out, c')"
    by (rule prod_cases3)
  have b: "first_backoff example_ce = 10" "max_backoff example_ce = 35"
    by (simp_all add: first_backoff_def max_backoff_def example_ce_def)
  have fails: "runSession example_ce standard_lane (example_script (Inl ErrInvalidXML)) c = (False, Inl ErrInvalidXML, [], c)" for c
    by (simp add: runSession_def example_script_def)
  have lane: "runLane example_ce standard_lane ?s example_client = Inr (waits, out, c')"
    using run b by (simp add: runLane_def client_dialURL_def example_ce_def)
  have u: "usable example_ce standard_lane ?s example_client = [False, False, False]" by (simp add: numeral_3_eq_3 fails)
  then have "2 < length waits" using run_sessions_waits [of example_ce standard_lane 10 ?s example_client] run
    by (simp add: waits_length)
  then show ?thesis using reconnect_waits [OF _ lane, of 2] u b run by (simp add: Let_def)
qed

end
