(* ===== verification/Sessions.thy ===== *)
theory Sessions
  imports Transport Client
begin

text \<open>
  Connections over their life: the read loop of a socket connection (\<open>src/internal/server/client.go\<close>), the table of
  connections of the socket server (\<open>server.go\<close>, \<open>server_profile7.go\<close>), and the sessions of the WebSocket server with
  their loop (\<open>wsserver.go\<close>), without a committed source.

  What a connection reads is an input. Connections and sessions are numbered in the order they are accepted; a table
  maps an address or a key to a number. Closing a socket connection closes it first and takes it out of the table
  afterwards, and other goroutines run in between, so these are two steps.
\<close>

section \<open>The read loop of a socket connection\<close>

text \<open>How the writes of the handling of one frame end.\<close>

record frame_io =
  fi_walk :: bool
  fi_lane :: lane
  fi_io1 :: io_outcome
  fi_io2 :: io_outcome

record conn_env =
  cn_te :: transport_env
  cn_xml :: xml_env
  cn_utf8 :: "rune list \<Rightarrow> string"
  cn_io :: "nat \<Rightarrow> frame_io"

definition handle_frame :: "conn_env \<Rightarrow> nat \<Rightarrow> rune list \<Rightarrow> tcp_handler" where
  "handle_frame ce n frame c =
     (let te = cn_te ce; io = cn_io ce n in
      case fst (Parse (cn_xml ce) (te_parse te) (AppendData (cn_utf8 ce frame) (Clear NewMessageParser))) of
        Inl e \<Rightarrow> (Inl e, [], c)
      | Inr (Operation _) \<Rightarrow> (Inl (Errorf ''MOS envelope required''), [], c)
      | Inr (EnvelopeMessage env) \<Rightarrow> handleMessage te (fi_walk io) (fi_lane io) (fi_io1 io) (fi_io2 io) env c)"

fun handle_frames :: "conn_env \<Rightarrow> nat \<Rightarrow> rune list list \<Rightarrow> tcp_handler" where
  "handle_frames ce n [] c = (Inr (), [], c)"
| "handle_frames ce n (f # fs) c = (case handle_frame ce n f c of
      (Inl e, out, c) \<Rightarrow> (Inl e, out, c)
    | (Inr _, out, c) \<Rightarrow> (case handle_frames ce (Suc n) fs c of (r, out', c) \<Rightarrow> (r, out @ out', c)))"

datatype conn_read = ReadData "byte list" | ReadTimeout | ReadEOF | ReadFault

text \<open>
  Whether the connection is still read, what it wrote and its state; \<open>n\<close> frames were handled before. The frames of a
  read are taken one at a time, so those before one that fails are handled.
\<close>

fun conn_loop :: "conn_env \<Rightarrow> nat \<Rightarrow> conn_read list \<Rightarrow> UCS2BEFramer \<Rightarrow> tcp_connection \<Rightarrow> bool \<times> tcp_out list \<times> tcp_connection" where
  "conn_loop ce n [] f c = (True, [], c)"
| "conn_loop ce n (ReadTimeout # rs) f c = conn_loop ce n rs f c"
| "conn_loop ce n (ReadEOF # rs) f c = (False, [], c)"
| "conn_loop ce n (ReadFault # rs) f c = (False, [], c)"
| "conn_loop ce n (ReadData b # rs) f c =
     (if b = [] then conn_loop ce n rs f c
      else case framer_Append maxMOSFrameBytes b f of
        Inl e \<Rightarrow> (False, [], c)
      | Inr f \<Rightarrow>
          (case drain f of
             (vs, r) \<Rightarrow>
               (case handle_frames ce n vs c of
                  (Inl e, out, c) \<Rightarrow> (False, out, c)
                | (Inr _, out, c) \<Rightarrow>
                    (case r of
                       Inl e \<Rightarrow> (False, out, c)
                     | Inr f \<Rightarrow> (case conn_loop ce (n + length vs) rs f c of (b, out', c) \<Rightarrow> (b, out @ out', c))))))"

definition data_of :: "conn_read list \<Rightarrow> byte list list" where
  "data_of rs = map (\<lambda>r. case r of ReadData b \<Rightarrow> b | _ \<Rightarrow> []) rs"

definition open_read :: "conn_read \<Rightarrow> bool" where
  "open_read r \<longleftrightarrow> r \<noteq> ReadEOF \<and> r \<noteq> ReadFault"

lemma handle_frames_append:
  "handle_frames ce n (vs @ ws) c = (case handle_frames ce n vs c of
      (Inl e, out, c) \<Rightarrow> (Inl e, out, c)
    | (Inr _, out, c) \<Rightarrow> (case handle_frames ce (n + length vs) ws c of (r, out', c) \<Rightarrow> (r, out @ out', c)))"
  by (induction vs arbitrary: n c) (auto split: prod.splits sum.splits)

text \<open>The loop handles the frames that the framer finds, whatever the reads are.\<close>

lemma conn_loop_frames:
  assumes "list_all open_read rs" "read_chunks maxMOSFrameBytes (data_of rs) f = (vs, Inr f')"
  shows "conn_loop ce n rs f c = (case handle_frames ce n vs c of (r, out, c) \<Rightarrow> (r = Inr (), out, c))"
  using assms
proof (induction rs arbitrary: n f c vs)
  case (Cons r rs)
  show ?case
  proof (cases "r = ReadTimeout \<or> r = ReadData []")
    case True
    then show ?thesis using Cons by (auto simp: data_of_def)
  next
    case False
    then obtain b where b: "r = ReadData b" "b \<noteq> []" using Cons.prems(1) by (cases r) (auto simp: open_read_def)
    obtain g where g: "framer_Append maxMOSFrameBytes b f = Inr g"
      using Cons.prems(2) b by (cases "framer_Append maxMOSFrameBytes b f") (auto simp: data_of_def)
    obtain ws h us where d: "drain g = (ws, Inr h)" "read_chunks maxMOSFrameBytes (data_of rs) h = (us, Inr f')" "vs = ws @ us"
      using Cons.prems(2) b g by (auto simp: data_of_def split: prod.splits sum.splits)
    have rs: "list_all open_read rs" using Cons.prems(1) by simp
    show ?thesis using Cons.IH [OF rs d(2)] b g d by (auto simp: handle_frames_append split: prod.splits sum.splits)
  qed
qed (simp add: data_of_def)

text \<open>
  C18. What a socket connection does depends only on the messages that were sent: encoded one after the other and cut
  into reads anywhere, with timeouts in between, they are handled one by one in the order sent, with the answers and
  the state of handling each as a whole, up to the first that fails.
\<close>

theorem connection_independent_of_reads:
  assumes "list_all2 (\<lambda>d b. EncodeUCS2BE d = Inr b \<and> mos_document d) msgs encoded"
    and "list_all open_read rs" "concat (data_of rs) = concat encoded"
    and "\<forall>b\<in>set encoded. \<forall>c\<in>set (data_of rs). length b + length c \<le> maxMOSFrameBytes"
  shows "conn_loop ce 0 rs NewUCS2BEFramer c =
    (case handle_frames ce 0 (map (\<lambda>d. 10 # stripXMLDeclaration d) msgs) c of (r, out, c) \<Rightarrow> (r = Inr (), out, c))"
  using sent_messages_read [OF assms(1,3,4)] conn_loop_frames [OF assms(2)] by blast

definition example_bytes :: "byte list" where "example_bytes = mustEncodeUCS2BE (xml_declaration @ example_document)"

theorem connection_independent_of_reads_witness:
  "\<forall>ce c. conn_loop ce 0 [ReadData (take 91 (example_bytes @ example_bytes)), ReadTimeout, ReadData (drop 91 (example_bytes @ example_bytes))] NewUCS2BEFramer c =
    (case handle_frames ce 0 [10 # example_document, 10 # example_document] c of (r, out, c) \<Rightarrow> (r = Inr (), out, c))"
proof (intro allI)
  fix ce c
  let ?b = example_bytes
  let ?rs = "[ReadData (take 91 (?b @ ?b)), ReadTimeout, ReadData (drop 91 (?b @ ?b))]"
  have len: "length ?b = 102"
    unfolding example_bytes_def by (subst mustEncode_length) (simp add: xml_declaration_def example_document_def runes_def)
  have "list_all2 (\<lambda>d b. EncodeUCS2BE d = Inr b \<and> mos_document d) [example_document, example_document] [?b, ?b]"
    using example_document_ok by (simp add: example_bytes_def del: mustEncode_append)
  moreover have "list_all open_read ?rs" by (simp add: open_read_def)
  moreover have "concat (data_of ?rs) = concat [?b, ?b]" by (simp add: data_of_def del: take_append drop_append)
  moreover have "\<forall>b\<in>set [?b, ?b]. \<forall>c\<in>set (data_of ?rs). length b + length c \<le> maxMOSFrameBytes"
    using len by (simp add: data_of_def maxMOSFrameBytes_def del: take_append drop_append)
  ultimately show "conn_loop ce 0 ?rs NewUCS2BEFramer c =
      (case handle_frames ce 0 [10 # example_document, 10 # example_document] c of (r, out, c) \<Rightarrow> (r = Inr (), out, c))"
    using connection_independent_of_reads [of "[example_document, example_document]" "[?b, ?b]" ?rs ce c]
    by (simp add: example_document_ok(3) del: conn_loop.simps handle_frames.simps take_append drop_append)
qed

section \<open>The connections of the socket server\<close>

record tcp_client =
  tk_ID :: string
  tk_closed :: bool

record TCPServer =
  tv_clients :: "nat gomap"
  tv_conns :: "tcp_client list"

definition newTCPServer :: TCPServer where "newTCPServer = \<lparr>tv_clients = [], tv_conns = []\<rparr>"

definition registerClient :: "nat \<Rightarrow> TCPServer \<Rightarrow> TCPServer" where
  "registerClient i s = s\<lparr>tv_clients := gm_set (tk_ID (tv_conns s ! i)) i (tv_clients s)\<rparr>"

definition unregisterClient :: "string \<Rightarrow> TCPServer \<Rightarrow> TCPServer" where
  "unregisterClient clientID s = s\<lparr>tv_clients := gm_delete clientID (tv_clients s)\<rparr>"

definition GetClient :: "string \<Rightarrow> TCPServer \<Rightarrow> nat option" where
  "GetClient clientID s = gm_get (tv_clients s) clientID"

definition accept_client :: "string \<Rightarrow> TCPServer \<Rightarrow> TCPServer" where
  "accept_client addr s = registerClient (length (tv_conns s)) (s\<lparr>tv_conns := tv_conns s @ [\<lparr>tk_ID = addr, tk_closed = False\<rparr>]\<rparr>)"

definition close_client :: "nat \<Rightarrow> TCPServer \<Rightarrow> TCPServer" where
  "close_client i s = s\<lparr>tv_conns := (tv_conns s)[i := (tv_conns s ! i)\<lparr>tk_closed := True\<rparr>]\<rparr>"

text \<open>Who gets a broadcast; a write to a connection that was closed fails and is only logged.\<close>

definition BroadcastMessage :: "TCPServer \<Rightarrow> nat list" where
  "BroadcastMessage s = gm_values (tv_clients s)"

definition SendToClient :: "string \<Rightarrow> TCPServer \<Rightarrow> nat result" where
  "SendToClient clientID s = (case GetClient clientID s of
      None \<Rightarrow> Inl (Errorf (''client '' @ clientID @ '' not found'')) | Some i \<Rightarrow> Inr i)"

text \<open>
  \<open>SendROElementAction\<close> and \<open>SendROStorySend\<close>: the generated message and the connections it is written to; \<open>ok\<close> is
  whether the write to a single client succeeds.
\<close>

definition send_profile7 :: "string \<Rightarrow> string result \<Rightarrow> string \<Rightarrow> bool \<Rightarrow> TCPServer \<Rightarrow> (string \<times> nat list) result" where
  "send_profile7 name generated clientID ok s = (case generated of
      Inl e \<Rightarrow> Inl (Wrap (''failed to generate '' @ name) e)
    | Inr data \<Rightarrow>
        if clientID = [] then Inr (data, BroadcastMessage s)
        else (case SendToClient clientID s of
           Inl e \<Rightarrow> Inl (Wrap (''failed to send '' @ name @ '' to client '' @ clientID) e)
         | Inr i \<Rightarrow> if ok then Inr (data, [i])
             else Inl (Wrap (''failed to send '' @ name @ '' to client '' @ clientID) (Errorf ''write''))))"

text \<open>The messages themselves, of \<open>profile7.go\<close>; \<open>marshal\<close> is the encoder of the struct.\<close>

definition SendROElementAction :: "(ROElementAction \<Rightarrow> string result) \<Rightarrow> ROElementAction \<Rightarrow> string svc_op" where
  "SendROElementAction marshal action s = (case GenerateMessage marshal action of
      Inl e \<Rightarrow> (Inl (Wrap ''failed to generate roElementAction message'' e), s)
    | Inr data \<Rightarrow> op_bind (publish ROModificationInitiated (PMap [(''roID'', rea_ROID action), (''operation'', rea_Operation action)])) (\<lambda>_. op_return data) s)"

definition SendROStorySendMessage :: "(ROStorySend \<Rightarrow> string result) \<Rightarrow> ROStorySend \<Rightarrow> string svc_op" where
  "SendROStorySendMessage marshal m s = (case GenerateMessage marshal m of
      Inl e \<Rightarrow> (Inl (Wrap ''failed to generate roStorySend message'' e), s)
    | Inr data \<Rightarrow> op_bind (publish StoryReceived (PString (rss_StoryID m))) (\<lambda>_. op_return data) s)"

definition InitiateROModification ::
    "(ROElementAction \<Rightarrow> string result) \<Rightarrow> string \<Rightarrow> string \<Rightarrow> ElementTarget option \<Rightarrow> ElementSource \<Rightarrow> string svc_op" where
  "InitiateROModification marshal roID operation target source =
     SendROElementAction marshal \<lparr>rea_Operation = operation, rea_ROID = roID, rea_Target = target, rea_Source = source\<rparr>"

lemma profile7_keeps_store: "svc_ok s \<Longrightarrow> svc_ok (snd (SendROElementAction marshal action s))" "svc_ok s \<Longrightarrow> svc_ok (snd (SendROStorySendMessage marshal' m s))"
  by (simp_all add: SendROElementAction_def SendROStorySendMessage_def op_simps svc_ok_publish split: sum.splits)

text \<open>\<open>Close\<close> of a connection is \<open>CloseConn\<close>, then \<open>Unregister\<close>; the shutdown closes the connections of the table.\<close>

definition Shutdown :: "TCPServer \<Rightarrow> TCPServer" where
  "Shutdown s = fold (\<lambda>i s. unregisterClient (tk_ID (tv_conns s ! i)) (close_client i s)) (gm_values (tv_clients s)) s"

datatype tcp_event = Accept string | CloseConn nat | Unregister nat

fun tcp_exec :: "tcp_event \<Rightarrow> TCPServer \<Rightarrow> TCPServer" where
  "tcp_exec (Accept addr) s = accept_client addr s"
| "tcp_exec (CloseConn i) s = (if i < length (tv_conns s) then close_client i s else s)"
| "tcp_exec (Unregister i) s =
     (if i < length (tv_conns s) \<and> tk_closed (tv_conns s ! i) then unregisterClient (tk_ID (tv_conns s ! i)) s else s)"

definition accepted_addresses :: "tcp_event list \<Rightarrow> string list" where
  "accepted_addresses evs = concat (map (\<lambda>ev. case ev of Accept a \<Rightarrow> [a] | _ \<Rightarrow> []) evs)"

definition tcp_ok :: "TCPServer \<Rightarrow> bool" where
  "tcp_ok s \<longleftrightarrow> distinct (map tk_ID (tv_conns s)) \<and>
     (\<forall>k i. GetClient k s = Some i \<longrightarrow> i < length (tv_conns s) \<and> tk_ID (tv_conns s ! i) = k) \<and>
     (\<forall>i < length (tv_conns s). tk_closed (tv_conns s ! i) \<or> GetClient (tk_ID (tv_conns s ! i)) s = Some i)"

lemma tcp_accept_ok:
  assumes "tcp_ok s" "addr \<notin> set (map tk_ID (tv_conns s))"
  shows "tcp_ok (accept_client addr s)"
proof -
  have "tk_ID (tv_conns s ! i) \<noteq> addr" if "i < length (tv_conns s)" for i
    using assms(2) that by (metis (no_types, lifting) length_map nth_map nth_mem)
  then show ?thesis
    using assms by (auto simp: tcp_ok_def accept_client_def registerClient_def GetClient_def gm_get_set nth_append less_Suc_eq split: if_splits)
qed

lemma nth_update: "j < length xs \<Longrightarrow> xs[i := x] ! j = (if i = j then x else xs ! j)"
  by (cases "i = j") simp_all

lemma close_client_ids [simp]: "map tk_ID (tv_conns (close_client i s)) = map tk_ID (tv_conns s)"
  by (rule nth_equalityI) (auto simp: close_client_def nth_update)

lemma tcp_close_ok: "tcp_ok s \<Longrightarrow> i < length (tv_conns s) \<Longrightarrow> tcp_ok (close_client i s)"
  using close_client_ids [of i s] unfolding tcp_ok_def
  by (auto simp: close_client_def GetClient_def nth_list_update)

lemma tcp_unregister_ok:
  assumes "tcp_ok s" "i < length (tv_conns s)" "tk_closed (tv_conns s ! i)"
  shows "tcp_ok (unregisterClient (tk_ID (tv_conns s ! i)) s)"
  using assms by (auto simp: tcp_ok_def unregisterClient_def GetClient_def gm_get_delete distinct_conv_nth split: if_splits)

lemma tcp_run_ok:
  "distinct (accepted_addresses evs) \<Longrightarrow> tcp_ok (fold tcp_exec evs newTCPServer) \<and> map tk_ID (tv_conns (fold tcp_exec evs newTCPServer)) = accepted_addresses evs"
proof (induction evs rule: rev_induct)
  case (snoc ev evs)
  let ?s = "fold tcp_exec evs newTCPServer"
  have "distinct (accepted_addresses evs)" using snoc.prems by (simp add: accepted_addresses_def)
  then have ok: "tcp_ok ?s" "map tk_ID (tv_conns ?s) = accepted_addresses evs" using snoc.IH by simp_all
  show ?case
  proof (cases ev)
    case (Accept a)
    then have "a \<notin> set (map tk_ID (tv_conns ?s))" using snoc.prems ok(2) by (auto simp: accepted_addresses_def)
    then show ?thesis using tcp_accept_ok [OF ok(1)] ok(2) Accept by (simp add: accepted_addresses_def accept_client_def registerClient_def)
  next
    case (CloseConn i)
    then show ?thesis using tcp_close_ok [OF ok(1)] ok by (auto simp: accepted_addresses_def)
  next
    case (Unregister i)
    then show ?thesis using tcp_unregister_ok [OF ok(1)] ok by (auto simp: accepted_addresses_def unregisterClient_def)
  qed
qed (simp add: tcp_ok_def newTCPServer_def accepted_addresses_def GetClient_def)

text \<open>
  As long as no address is used twice, the table of the socket server holds every open connection under its
  address: it is found by its identifier and reached by every broadcast.
\<close>

theorem open_connections_registered:
  assumes "distinct (accepted_addresses evs)" "s = fold tcp_exec evs newTCPServer" "i < length (tv_conns s)" "\<not> tk_closed (tv_conns s ! i)"
  shows "GetClient (tk_ID (tv_conns s ! i)) s = Some i \<and> i \<in> set (BroadcastMessage s)"
proof -
  have "GetClient (tk_ID (tv_conns s ! i)) s = Some i" using tcp_run_ok [OF assms(1)] assms(2-4) by (auto simp: tcp_ok_def)
  then show ?thesis by (force simp: GetClient_def BroadcastMessage_def gm_values_def dest!: map_of_SomeD)
qed

theorem open_connections_registered_witness:
  "GetClient ''b'' (fold tcp_exec [Accept ''a'', Accept ''b'', CloseConn 0, Unregister 0] newTCPServer) = Some 1"
  using open_connections_registered [of "[Accept ''a'', Accept ''b'', CloseConn 0, Unregister 0]" _ 1, OF _ refl]
  by (simp add: accepted_addresses_def newTCPServer_def accept_client_def registerClient_def close_client_def unregisterClient_def)

text \<open>
  A connection is taken out of the table by its address, whichever connection is registered under it: when a peer
  connects again from the same address while its old connection is being closed, the new one is lost from the table,
  so it is found by nobody, gets no broadcast and is left open by the shutdown.
\<close>

theorem late_unregister_loses_client:
  "let s = fold tcp_exec [Accept a, CloseConn 0, Accept a, Unregister 0] newTCPServer in
     \<not> tk_closed (tv_conns s ! 1) \<and> GetClient a s = None \<and> BroadcastMessage s = [] \<and> \<not> tk_closed (tv_conns (Shutdown s) ! 1)"
  by (simp add: newTCPServer_def accept_client_def registerClient_def close_client_def unregisterClient_def GetClient_def BroadcastMessage_def
      Shutdown_def gm_values_def)

section \<open>The sessions of the WebSocket server\<close>

record ws_session =
  sn_ncsID :: string
  sn_channel :: string
  sn_closed :: bool
  sn_ended :: bool

record ws_table =
  wt_sessions :: "nat gomap"
  wt_all :: "ws_session list"
  wt_shutdown :: bool

definition new_table :: ws_table where "new_table = \<lparr>wt_sessions = [], wt_all = [], wt_shutdown = False\<rparr>"

definition session_key :: "string \<Rightarrow> string \<Rightarrow> string" where
  "session_key ncsID channel = ncsID @ '':'' @ channel"

definition key_of :: "ws_table \<Rightarrow> nat \<Rightarrow> string" where
  "key_of w i = session_key (sn_ncsID (wt_all w ! i)) (sn_channel (wt_all w ! i))"

definition close_session :: "nat \<Rightarrow> ws_table \<Rightarrow> ws_table" where
  "close_session i w = w\<lparr>wt_all := (wt_all w)[i := (wt_all w ! i)\<lparr>sn_closed := True\<rparr>]\<rparr>"

definition register_session :: "string \<Rightarrow> string \<Rightarrow> ws_table \<Rightarrow> ws_table" where
  "register_session ncsID channel w0 =
     (let key = session_key ncsID channel;
          w = (case gm_get (wt_sessions w0) key of Some j \<Rightarrow> close_session j w0 | None \<Rightarrow> w0) in
      w\<lparr>wt_sessions := gm_set key (length (wt_all w)) (wt_sessions w),
        wt_all := wt_all w @ [\<lparr>sn_ncsID = ncsID, sn_channel = channel, sn_closed = False, sn_ended = False\<rparr>]\<rparr>)"

text \<open>The deferred end of \<open>handleSession\<close>: a session takes itself out of the table only if it is the one registered.\<close>

definition end_session :: "nat \<Rightarrow> ws_table \<Rightarrow> ws_table" where
  "end_session i w =
     w\<lparr>wt_all := (wt_all w)[i := (wt_all w ! i)\<lparr>sn_closed := True, sn_ended := True\<rparr>],
       wt_sessions := (if gm_get (wt_sessions w) (key_of w i) = Some i then gm_delete (key_of w i) (wt_sessions w) else wt_sessions w)\<rparr>"

definition shutdown_sessions :: "ws_table \<Rightarrow> ws_table" where
  "shutdown_sessions w = (if wt_shutdown w then w else fold close_session (gm_values (wt_sessions w)) (w\<lparr>wt_shutdown := True\<rparr>))"

inductive ws_step :: "ws_table \<Rightarrow> ws_table \<Rightarrow> bool" where
  connect: "IsKnownChannel channel \<Longrightarrow> ws_step w (register_session ncsID channel w)"
| closes: "i < length (wt_all w) \<Longrightarrow> ws_step w (close_session i w)"
| ends: "i < length (wt_all w) \<Longrightarrow> ws_step w (end_session i w)"
| shutdown: "ws_step w (shutdown_sessions w)"

inductive_cases ws_stepE: "ws_step w w'"

text \<open>The registered sessions are those of their key and have not ended; every session that is open is registered.\<close>

definition table_ok :: "ws_table \<Rightarrow> bool" where
  "table_ok w \<longleftrightarrow>
     (\<forall>k i. gm_get (wt_sessions w) k = Some i \<longrightarrow> i < length (wt_all w) \<and> key_of w i = k \<and> \<not> sn_ended (wt_all w ! i)) \<and>
     (\<forall>i < length (wt_all w). sn_closed (wt_all w ! i) \<or> gm_get (wt_sessions w) (key_of w i) = Some i) \<and>
     (\<forall>i < length (wt_all w). IsKnownChannel (sn_channel (wt_all w ! i)))"

lemma close_session_fields [simp]:
  "wt_sessions (close_session i w) = wt_sessions w" "length (wt_all (close_session i w)) = length (wt_all w)" "key_of (close_session i w) j = key_of w j"
  "sn_ended (wt_all (close_session i w) ! j) = sn_ended (wt_all w ! j)" "sn_channel (wt_all (close_session i w) ! j) = sn_channel (wt_all w ! j)"
  "sn_ncsID (wt_all (close_session i w) ! j) = sn_ncsID (wt_all w ! j)"
  by (cases "i < length (wt_all w)"; auto simp: close_session_def key_of_def nth_list_update list_update_beyond)+

lemma close_session_closed: "j < length (wt_all w) \<Longrightarrow> sn_closed (wt_all (close_session i w) ! j) \<longleftrightarrow> i = j \<or> sn_closed (wt_all w ! j)"
  by (cases "i = j") (simp_all add: close_session_def)

lemma table_okD:
  "table_ok w \<Longrightarrow> gm_get (wt_sessions w) k = Some i \<Longrightarrow> i < length (wt_all w) \<and> key_of w i = k \<and> \<not> sn_ended (wt_all w ! i)"
  "table_ok w \<Longrightarrow> i < length (wt_all w) \<Longrightarrow> sn_closed (wt_all w ! i) \<or> gm_get (wt_sessions w) (key_of w i) = Some i"
  "table_ok w \<Longrightarrow> i < length (wt_all w) \<Longrightarrow> IsKnownChannel (sn_channel (wt_all w ! i))"
  by (simp_all add: table_ok_def)

lemma table_close_ok: "table_ok w \<Longrightarrow> table_ok (close_session i w)"
  by (auto simp: table_ok_def close_session_closed)

lemma table_register_ok:
  assumes "table_ok w" "IsKnownChannel channel"
  shows "table_ok (register_session ncsID channel w)"
proof -
  let ?k = "session_key ncsID channel"
  define v where "v = (case gm_get (wt_sessions w) ?k of Some j \<Rightarrow> close_session j w | None \<Rightarrow> w)"
  have v: "table_ok v" "wt_sessions v = wt_sessions w" "length (wt_all v) = length (wt_all w)" "\<And>i. key_of v i = key_of w i"
    using assms(1) table_close_ok by (auto simp: v_def split: option.splits)
  have gone: "sn_closed (wt_all v ! i)" if "i < length (wt_all v)" "key_of v i = ?k" for i
  proof -
    have i: "i < length (wt_all w)" "key_of w i = ?k" using that v(3,4) by simp_all
    have "sn_closed (wt_all w ! i) \<or> gm_get (wt_sessions w) ?k = Some i" using table_okD(2) [OF assms(1) i(1)] i(2) by simp
    then show ?thesis using i by (cases "gm_get (wt_sessions w) ?k") (auto simp: v_def close_session_closed)
  qed
  define w' where "w' = register_session ncsID channel w"
  let ?n = "length (wt_all v)"
  have w': "w' = v\<lparr>wt_sessions := gm_set ?k ?n (wt_sessions v),
      wt_all := wt_all v @ [\<lparr>sn_ncsID = ncsID, sn_channel = channel, sn_closed = False, sn_ended = False\<rparr>]\<rparr>"
    by (simp add: w'_def register_session_def v_def Let_def)
  have len: "length (wt_all w') = Suc ?n" using w' by simp
  have old: "wt_all w' ! i = wt_all v ! i" "key_of w' i = key_of v i" if "i < ?n" for i
    using w' that by (simp_all add: nth_append key_of_def)
  have new: "key_of w' ?n = ?k" "\<not> sn_ended (wt_all w' ! ?n)" "sn_channel (wt_all w' ! ?n) = channel" using w' by (simp_all add: key_of_def)
  have get: "gm_get (wt_sessions w') k = (if ?k = k then Some ?n else gm_get (wt_sessions v) k)" for k using w' by (simp add: gm_get_set)
  have reg: "i < ?n \<and> key_of v i = k \<and> \<not> sn_ended (wt_all v ! i)" if "gm_get (wt_sessions v) k = Some i" for k i
    using v(1) that by (simp add: table_ok_def)
  have opened: "sn_closed (wt_all v ! i) \<or> gm_get (wt_sessions v) (key_of v i) = Some i" "IsKnownChannel (sn_channel (wt_all v ! i))" if "i < ?n" for i
    using v(1) that by (simp_all add: table_ok_def)
  have "i < Suc ?n \<and> key_of w' i = k \<and> \<not> sn_ended (wt_all w' ! i)" if "gm_get (wt_sessions w') k = Some i" for k i
    using that reg [of k i] old [of i] new get [of k] by (auto split: if_splits)
  moreover have "sn_closed (wt_all w' ! i) \<or> gm_get (wt_sessions w') (key_of w' i) = Some i" if "i < Suc ?n" for i
    using that gone [of i] opened(1) [of i] old [of i] new get by (cases "i = ?n") auto
  moreover have "IsKnownChannel (sn_channel (wt_all w' ! i))" if "i < Suc ?n" for i
    using that opened(2) [of i] old [of i] new assms(2) by (cases "i = ?n") auto
  ultimately show ?thesis unfolding w'_def [symmetric] table_ok_def len by blast
qed

lemma table_end_ok:
  assumes "table_ok w" "i < length (wt_all w)"
  shows "table_ok (end_session i w)"
proof -
  define w' where "w' = end_session i w"
  have len: "length (wt_all w') = length (wt_all w)" by (simp add: w'_def end_session_def)
  have keys: "key_of w' j = key_of w j" "sn_channel (wt_all w' ! j) = sn_channel (wt_all w ! j)" if "j < length (wt_all w)" for j
    using that by (simp_all add: w'_def end_session_def key_of_def nth_update)
  have flags: "sn_ended (wt_all w' ! j) \<longleftrightarrow> j = i \<or> sn_ended (wt_all w ! j)" "sn_closed (wt_all w' ! j) \<longleftrightarrow> j = i \<or> sn_closed (wt_all w ! j)"
    if "j < length (wt_all w)" for j
    using that by (auto simp: w'_def end_session_def nth_update)
  have get: "gm_get (wt_sessions w') k = (if key_of w i = k \<and> gm_get (wt_sessions w) k = Some i then None else gm_get (wt_sessions w) k)" for k
    by (simp add: w'_def end_session_def gm_get_delete)
  have "j < length (wt_all w) \<and> key_of w' j = k \<and> \<not> sn_ended (wt_all w' ! j)" if "gm_get (wt_sessions w') k = Some j" for k j
  proof -
    have "gm_get (wt_sessions w) k = Some j" "\<not> (key_of w i = k \<and> j = i)" using that get [of k] by (auto split: if_splits)
    moreover from this(1) have "j < length (wt_all w)" "key_of w j = k" "\<not> sn_ended (wt_all w ! j)" using assms(1) by (auto simp: table_ok_def)
    ultimately show ?thesis using keys [of j] flags [of j] by auto
  qed
  moreover have "sn_closed (wt_all w' ! j) \<or> gm_get (wt_sessions w') (key_of w' j) = Some j" if "j < length (wt_all w)" for j
    using table_okD(2) [OF assms(1) that] keys(1) [OF that] flags(2) [OF that] get [of "key_of w j"] by (cases "j = i") auto
  moreover have "IsKnownChannel (sn_channel (wt_all w' ! j))" if "j < length (wt_all w)" for j
    using assms(1) that keys [OF that] by (simp add: table_ok_def)
  ultimately show ?thesis unfolding w'_def [symmetric] table_ok_def len by blast
qed

lemma table_step_ok: "ws_step w w' \<Longrightarrow> table_ok w \<Longrightarrow> table_ok w'"
proof (induction rule: ws_step.induct)
  case (shutdown w)
  have "table_ok (fold close_session js v)" if "table_ok v" for js v
    using that by (induction js arbitrary: v) (auto intro: table_close_ok)
  moreover have "table_ok (w\<lparr>wt_shutdown := True\<rparr>)" using shutdown by (simp add: table_ok_def key_of_def)
  ultimately show ?case using shutdown by (simp add: shutdown_sessions_def)
qed (simp_all add: table_register_ok table_close_ok table_end_ok)

lemma reachable_table_ok: "ws_step\<^sup>*\<^sup>* new_table w \<Longrightarrow> table_ok w"
  by (induction rule: rtranclp_induct) (simp add: table_ok_def new_table_def, rule table_step_ok)

text \<open>A known channel has no colon, so a key determines its NCS and its channel.\<close>

lemma session_key_inject:
  assumes "session_key n c = session_key n' c'" "IsKnownChannel c" "IsKnownChannel c'"
  shows "n = n' \<and> c = c'"
proof -
  have no: "CHR '':'' \<notin> set d" if "IsKnownChannel d" for d
    using that by (auto simp: IsKnownChannel_def channelLegacyPort_def ChannelMom_def ChannelRO_def ChannelAux_def split: if_splits)
  have cut: "rev (takeWhile (\<lambda>x. x \<noteq> CHR '':'') (rev (session_key m d))) = d" if "IsKnownChannel d" for m d
  proof -
    have "takeWhile (\<lambda>x. x \<noteq> CHR '':'') (rev d @ CHR '':'' # rev m) = rev d @ takeWhile (\<lambda>x. x \<noteq> CHR '':'') (CHR '':'' # rev m)"
      by (rule takeWhile_append2) (use no [OF that] in auto)
    then show ?thesis by (simp add: session_key_def)
  qed
  have "c = c'" using cut [OF assms(2)] cut [OF assms(3)] assms(1) by metis
  then show ?thesis using assms(1) by (simp add: session_key_def)
qed

text \<open>
  C19. In every state the WebSocket server can reach there is at most one open session per NCS and channel, every open
  session is the one registered for them, and every registered session is still being handled; and a new connection
  closes the open session of its own NCS and channel and no other.
\<close>

theorem one_session_per_peer:
  assumes "ws_step\<^sup>*\<^sup>* new_table w" "i < length (wt_all w)" "\<not> sn_closed (wt_all w ! i)"
  shows "gm_get (wt_sessions w) (key_of w i) = Some i \<and> \<not> sn_ended (wt_all w ! i) \<and>
    (\<forall>j < length (wt_all w). \<not> sn_closed (wt_all w ! j) \<and> sn_ncsID (wt_all w ! j) = sn_ncsID (wt_all w ! i)
       \<and> sn_channel (wt_all w ! j) = sn_channel (wt_all w ! i) \<longrightarrow> j = i) \<and>
    (\<forall>ncsID channel. IsKnownChannel channel \<longrightarrow>
       (sn_closed (wt_all (register_session ncsID channel w) ! i) \<longleftrightarrow> ncsID = sn_ncsID (wt_all w ! i) \<and> channel = sn_channel (wt_all w ! i)))"
proof -
  have ok: "table_ok w" by (rule reachable_table_ok [OF assms(1)])
  have reg: "gm_get (wt_sessions w) (key_of w i) = Some i" using table_okD(2) [OF ok assms(2)] assms(3) by simp
  have "j = i" if "j < length (wt_all w)" "\<not> sn_closed (wt_all w ! j)" "sn_ncsID (wt_all w ! j) = sn_ncsID (wt_all w ! i)"
      "sn_channel (wt_all w ! j) = sn_channel (wt_all w ! i)" for j
    using table_okD(2) [OF ok that(1)] that reg by (simp add: key_of_def)
  moreover have "sn_closed (wt_all (register_session n c w) ! i) \<longleftrightarrow> n = sn_ncsID (wt_all w ! i) \<and> c = sn_channel (wt_all w ! i)"
    if c: "IsKnownChannel c" for n c
  proof (cases "gm_get (wt_sessions w) (session_key n c)")
    case None
    then have "key_of w i \<noteq> session_key n c" using reg by auto
    then show ?thesis using None assms(2,3) by (auto simp: register_session_def key_of_def Let_def nth_append)
  next
    case (Some j)
    note row = table_okD(1) [OF ok Some]
    have "sn_closed (wt_all (register_session n c w) ! i) \<longleftrightarrow> j = i"
      using Some assms(2,3) by (simp add: register_session_def Let_def nth_append close_session_closed)
    also have "\<dots> \<longleftrightarrow> session_key n c = key_of w i" using reg Some row by auto
    also have "\<dots> \<longleftrightarrow> n = sn_ncsID (wt_all w ! i) \<and> c = sn_channel (wt_all w ! i)"
      using session_key_inject [OF _ c table_okD(3) [OF ok assms(2)]] by (auto simp: key_of_def)
    finally show ?thesis .
  qed
  ultimately show ?thesis using reg table_okD(1) [OF ok reg] by blast
qed

theorem one_session_per_peer_witness:
  "sn_closed (wt_all (register_session ''N'' ''ro'' (register_session ''N'' ''ro'' new_table)) ! 0)
   \<and> \<not> sn_closed (wt_all (register_session ''N'' ''mom'' (register_session ''N'' ''ro'' new_table)) ! 0)"
proof -
  let ?w = "register_session ''N'' ''ro'' new_table"
  have known: "IsKnownChannel ''ro''" "IsKnownChannel ''mom''" by code_simp+
  have "ws_step\<^sup>*\<^sup>* new_table ?w" using ws_step.connect [OF known(1)] by blast
  moreover have "0 < length (wt_all ?w)" "\<not> sn_closed (wt_all ?w ! 0)" "sn_ncsID (wt_all ?w ! 0) = ''N''" "sn_channel (wt_all ?w ! 0) = ''ro''"
    by code_simp+
  ultimately show ?thesis using one_session_per_peer [of ?w 0] known by simp
qed

section \<open>The loop of a session\<close>

datatype ws_event = Arrives ws_frame | ReadEnds | Stopped

datatype session_end = Running | TimedOut | ReadFailed | Interrupted

text \<open>
  \<open>handleSession\<close> over the events with their times: why it ended and the messages it processed with the times. A frame
  that is not decoded does not move the deadline.
\<close>

fun session_loop :: "(byte list \<Rightarrow> string result) \<Rightarrow> time \<Rightarrow> time \<Rightarrow> (time \<times> ws_event) list \<Rightarrow> session_end \<times> (time \<times> string) list" where
  "session_loop decode timeout deadline [] = (Running, [])"
| "session_loop decode timeout deadline ((t, ev) # evs) =
     (if deadline \<le> t then (TimedOut, [])
      else case ev of
        Stopped \<Rightarrow> (Interrupted, [])
      | ReadEnds \<Rightarrow> (ReadFailed, [])
      | Arrives f \<Rightarrow>
          (case (case f of BinaryFrame raw \<Rightarrow> (case decode raw of Inl _ \<Rightarrow> None | Inr d \<Rightarrow> Some d) | TextFrame d \<Rightarrow> Some d | OtherFrame \<Rightarrow> None) of
             None \<Rightarrow> session_loop decode timeout deadline evs
           | Some d \<Rightarrow> (case session_loop decode timeout (t + timeout) evs of (r, ms) \<Rightarrow> (r, (t, d) # ms))))"

text \<open>Only messages keep a session alive: each comes before the timeout after the one before it.\<close>

fun spaced :: "time \<Rightarrow> time \<Rightarrow> (time \<times> string) list \<Rightarrow> bool" where
  "spaced timeout deadline [] \<longleftrightarrow> True"
| "spaced timeout deadline ((t, d) # ms) \<longleftrightarrow> t < deadline \<and> spaced timeout (t + timeout) ms"

lemma session_kept_by_messages: "session_loop decode timeout deadline evs = (r, ms) \<Longrightarrow> spaced timeout deadline ms"
  by (induction decode timeout deadline evs arbitrary: r ms rule: session_loop.induct)
    (auto split: if_splits ws_event.splits option.splits prod.splits)

end
