(* ===== verification/Config.thy ===== *)
theory Config
  imports GoLib Complex_Main
begin

text \<open>
  The configuration (\<open>src/internal/config/config.go\<close>): built-in defaults, a YAML file and the environment,
  in this order of precedence, setting by setting, and the file that \<open>GenerateDefaultConfig\<close> writes.

  A YAML file is what reading it does to the configuration. The environment, \<open>time.ParseDuration\<close>,
  \<open>strconv.ParseFloat\<close> and the decoding of the JSON list of rundowns are fields of \<open>config_env\<close>; a number is
  kept as the rational it is written as.
\<close>

section \<open>The structs\<close>

record AppConfig =
  app_Name :: string
  app_Version :: string
  app_Environment :: string

record ServerConfig =
  srv_Enabled :: bool
  srv_Host :: string
  srv_Port :: int
  srv_ReadTimeout :: time
  srv_WriteTimeout :: time
  srv_ShutdownTimeout :: time

record WebSocketConfig =
  wsk_Enabled :: bool
  wsk_Port :: int
  wsk_Path :: string
  wsk_TLSCertFile :: string
  wsk_TLSKeyFile :: string

record WSClientConfig =
  wcc_Enabled :: bool
  wcc_PeerURL :: string
  wcc_Channel :: string
  wcc_Passive :: bool
  wcc_RequestLane :: bool
  wcc_Username :: string
  wcc_Password :: string
  wcc_InsecureSkipVerify :: bool
  wcc_ReconnectInitial :: time
  wcc_ReconnectMax :: time

record SourceRundown =
  sr_RundownID :: string
  sr_StateDir :: string

record SourceConfig =
  src_Enabled :: bool
  src_StateDir :: string
  src_ID :: string
  src_RundownID :: string
  src_Transport :: string
  src_URL :: string
  src_Token :: string
  src_CatalogueStateDir :: string
  src_Additional :: "SourceRundown list"

record MongoConfig =
  mng_URI :: string
  mng_Database :: string
  mng_Timeout :: time

record MOSConfig =
  mos_ID :: string
  mos_NCSID :: string
  mos_HeartbeatInterval :: time
  mos_ClientTimeout :: time
  mos_Manufacturer :: string
  mos_Model :: string
  mos_HwRev :: string
  mos_SwRev :: string
  mos_DOM :: string
  mos_SN :: string

record SentryConfig =
  sen_DSN :: string
  sen_Environment :: string
  sen_Debug :: bool
  sen_AttachStacktrace :: bool
  sen_SampleRate :: rat
  sen_TracesSampleRate :: rat

record GatewayConfig =
  gw_Enabled :: bool
  gw_BindAddr :: string
  gw_AuthTokens :: string
  gw_StatePath :: string
  gw_SourceID :: string

record Config =
  cfg_App :: AppConfig
  cfg_Server :: ServerConfig
  cfg_WebSocket :: WebSocketConfig
  cfg_WSClient :: WSClientConfig
  cfg_StorageBackend :: string
  cfg_CaptureDir :: string
  cfg_StateDir :: string
  cfg_Source :: SourceConfig
  cfg_Mongo :: MongoConfig
  cfg_MOS :: MOSConfig
  cfg_LoggingLevel :: string
  cfg_Sentry :: SentryConfig
  cfg_Gateway :: GatewayConfig

text \<open>\<open>&Config{}\<close>\<close>

definition zero_Config :: Config where
  "zero_Config = \<lparr>
     cfg_App = \<lparr>app_Name = [], app_Version = [], app_Environment = []\<rparr>,
     cfg_Server = \<lparr>srv_Enabled = False, srv_Host = [], srv_Port = 0, srv_ReadTimeout = 0, srv_WriteTimeout = 0, srv_ShutdownTimeout = 0\<rparr>,
     cfg_WebSocket = \<lparr>wsk_Enabled = False, wsk_Port = 0, wsk_Path = [], wsk_TLSCertFile = [], wsk_TLSKeyFile = []\<rparr>,
     cfg_WSClient = \<lparr>wcc_Enabled = False, wcc_PeerURL = [], wcc_Channel = [], wcc_Passive = False, wcc_RequestLane = False,
       wcc_Username = [], wcc_Password = [], wcc_InsecureSkipVerify = False, wcc_ReconnectInitial = 0, wcc_ReconnectMax = 0\<rparr>,
     cfg_StorageBackend = [], cfg_CaptureDir = [], cfg_StateDir = [],
     cfg_Source = \<lparr>src_Enabled = False, src_StateDir = [], src_ID = [], src_RundownID = [], src_Transport = [], src_URL = [],
       src_Token = [], src_CatalogueStateDir = [], src_Additional = []\<rparr>,
     cfg_Mongo = \<lparr>mng_URI = [], mng_Database = [], mng_Timeout = 0\<rparr>,
     cfg_MOS = \<lparr>mos_ID = [], mos_NCSID = [], mos_HeartbeatInterval = 0, mos_ClientTimeout = 0, mos_Manufacturer = [], mos_Model = [],
       mos_HwRev = [], mos_SwRev = [], mos_DOM = [], mos_SN = []\<rparr>,
     cfg_LoggingLevel = [],
     cfg_Sentry = \<lparr>sen_DSN = [], sen_Environment = [], sen_Debug = False, sen_AttachStacktrace = False, sen_SampleRate = 0, sen_TracesSampleRate = 0\<rparr>,
     cfg_Gateway = \<lparr>gw_Enabled = False, gw_BindAddr = [], gw_AuthTokens = [], gw_StatePath = [], gw_SourceID = []\<rparr>\<rparr>"

section \<open>The environment\<close>

text \<open>
  What the JSON value of \<open>SOURCE_ADDITIONAL_RUNDOWNS\<close> is: undecodable, \<open>null\<close>, an array followed by something, an array.
\<close>

datatype rundowns_json = BadRundowns go_error | NullRundowns | TrailingRundowns | Rundowns "SourceRundown list"

datatype yaml_file = YamlMissing | YamlFails go_error | YamlSets "Config \<Rightarrow> Config"

record config_env =
  cv_env :: "string \<Rightarrow> string option"
  cv_duration :: "string \<Rightarrow> time option"
  cv_float :: "string \<Rightarrow> rat option"
  cv_rundowns :: "string \<Rightarrow> rundowns_json"
  cv_file :: "string \<Rightarrow> yaml_file"

definition ParseBool :: "string \<Rightarrow> bool option" where
  "ParseBool s =
     (if s \<in> set [''1'', ''t'', ''T'', ''TRUE'', ''true'', ''True''] then Some True
      else if s \<in> set [''0'', ''f'', ''F'', ''FALSE'', ''false'', ''False''] then Some False
      else None)"

definition getEnv :: "config_env \<Rightarrow> string \<Rightarrow> string \<Rightarrow> string" where
  "getEnv cv key d = (case cv_env cv key of Some v \<Rightarrow> v | None \<Rightarrow> d)"

text \<open>The four typed readers: an unset or empty variable and one that does not parse give the default.\<close>

definition env_parsed :: "(string \<Rightarrow> 'a option) \<Rightarrow> config_env \<Rightarrow> string \<Rightarrow> 'a \<Rightarrow> 'a" where
  "env_parsed parse cv key d =
     (let v = getEnv cv key [] in if v = [] then d else case parse v of None \<Rightarrow> d | Some x \<Rightarrow> x)"

definition getEnvAsInt :: "config_env \<Rightarrow> string \<Rightarrow> int \<Rightarrow> int" where "getEnvAsInt = env_parsed Atoi"
definition getEnvAsDuration :: "config_env \<Rightarrow> string \<Rightarrow> time \<Rightarrow> time" where "getEnvAsDuration cv = env_parsed (cv_duration cv) cv"
definition getEnvAsBool :: "config_env \<Rightarrow> string \<Rightarrow> bool \<Rightarrow> bool" where "getEnvAsBool = env_parsed ParseBool"
definition getEnvAsFloat :: "config_env \<Rightarrow> string \<Rightarrow> rat \<Rightarrow> rat" where "getEnvAsFloat cv = env_parsed (cv_float cv) cv"

definition getDefaultString :: "string \<Rightarrow> string \<Rightarrow> string" where "getDefaultString current d = (if current = [] then d else current)"
definition getDefaultInt :: "int \<Rightarrow> int \<Rightarrow> int" where "getDefaultInt current d = (if current = 0 then d else current)"
definition getDefaultBool :: "bool \<Rightarrow> bool \<Rightarrow> bool" where "getDefaultBool current d = d"
definition getDefaultFloat :: "rat \<Rightarrow> rat \<Rightarrow> rat" where "getDefaultFloat current d = (if current = 0 then d else current)"
definition getDefaultDuration :: "time \<Rightarrow> time \<Rightarrow> time" where "getDefaultDuration current d = (if current = 0 then d else current)"

text \<open>\<open>if envVal := getEnv(key, ""); envVal != "" || !yamlLoaded { current = ... }\<close>\<close>

definition setting :: "config_env \<Rightarrow> bool \<Rightarrow> string \<Rightarrow> 'a \<Rightarrow> 'a \<Rightarrow> 'a" where
  "setting cv yamlLoaded key current new = (if getEnv cv key [] \<noteq> [] \<or> \<not> yamlLoaded then new else current)"

definition string_setting :: "config_env \<Rightarrow> bool \<Rightarrow> string \<Rightarrow> string \<Rightarrow> string \<Rightarrow> string" where
  "string_setting cv yl key current d = setting cv yl key current (getEnv cv key (getDefaultString current d))"

definition int_setting :: "config_env \<Rightarrow> bool \<Rightarrow> string \<Rightarrow> int \<Rightarrow> int \<Rightarrow> int" where
  "int_setting cv yl key current d = setting cv yl key current (getEnvAsInt cv key (getDefaultInt current d))"

definition duration_setting :: "config_env \<Rightarrow> bool \<Rightarrow> string \<Rightarrow> time \<Rightarrow> time \<Rightarrow> time" where
  "duration_setting cv yl key current d = setting cv yl key current (getEnvAsDuration cv key (getDefaultDuration current d))"

definition bool_setting :: "config_env \<Rightarrow> bool \<Rightarrow> string \<Rightarrow> bool \<Rightarrow> bool \<Rightarrow> bool" where
  "bool_setting cv yl key current d = setting cv yl key current (getEnvAsBool cv key (getDefaultBool current d))"

definition float_setting :: "config_env \<Rightarrow> bool \<Rightarrow> string \<Rightarrow> rat \<Rightarrow> rat \<Rightarrow> rat" where
  "float_setting cv yl key current d = setting cv yl key current (getEnvAsFloat cv key (getDefaultFloat current d))"

section \<open>Loading\<close>

definition initial_Config :: Config where
  "initial_Config = zero_Config\<lparr>cfg_Server := (cfg_Server zero_Config)\<lparr>srv_Enabled := True\<rparr>,
     cfg_WebSocket := (cfg_WebSocket zero_Config)\<lparr>wsk_Enabled := True, wsk_Port := 8080, wsk_Path := ''/mos''\<rparr>,
     cfg_StorageBackend := ''file'', cfg_StateDir := ''state''\<rparr>"

definition configPaths :: "config_env \<Rightarrow> string list" where
  "configPaths cv =
     (if getEnv cv ''CONFIG_FILE'' [] \<noteq> [] then [getEnv cv ''CONFIG_FILE'' []] else []) @
     [''config.yaml'', ''config.yml'', ''config/config.yaml'', ''config/config.yml'', ''../config.yaml'', ''../config.yml'',
      ''../config/config.yaml'', ''../config/config.yml'']"

text \<open>The first file that exists; \<open>None\<close> when there is none.\<close>

fun load_first :: "config_env \<Rightarrow> string list \<Rightarrow> (Config \<Rightarrow> Config) option result" where
  "load_first cv [] = Inr None"
| "load_first cv (path # paths) = (case cv_file cv path of
      YamlSets f \<Rightarrow> Inr (Some f)
    | YamlMissing \<Rightarrow> load_first cv paths
    | YamlFails e \<Rightarrow> Inl (Wrap (''error loading YAML config from '' @ path) e))"

definition load_app :: "config_env \<Rightarrow> bool \<Rightarrow> AppConfig \<Rightarrow> AppConfig" where
  "load_app cv yl a = \<lparr>
     app_Name = string_setting cv yl ''APP_NAME'' (app_Name a) ''OpenMOS'',
     app_Version = string_setting cv yl ''APP_VERSION'' (app_Version a) ''1.0.0'',
     app_Environment = string_setting cv yl ''APP_ENV'' (app_Environment a) ''development''\<rparr>"

definition load_server :: "config_env \<Rightarrow> bool \<Rightarrow> ServerConfig \<Rightarrow> ServerConfig" where
  "load_server cv yl s = \<lparr>
     srv_Enabled = setting cv yl ''SERVER_ENABLED'' (srv_Enabled s) (getEnvAsBool cv ''SERVER_ENABLED'' True),
     srv_Host = string_setting cv yl ''SERVER_HOST'' (srv_Host s) ''0.0.0.0'',
     srv_Port = int_setting cv yl ''SERVER_PORT'' (srv_Port s) 10541,
     srv_ReadTimeout = duration_setting cv yl ''SERVER_READ_TIMEOUT'' (srv_ReadTimeout s) 5000000000,
     srv_WriteTimeout = duration_setting cv yl ''SERVER_WRITE_TIMEOUT'' (srv_WriteTimeout s) 5000000000,
     srv_ShutdownTimeout = duration_setting cv yl ''SERVER_SHUTDOWN_TIMEOUT'' (srv_ShutdownTimeout s) 30000000000\<rparr>"

text \<open>\<open>if envVal := getEnv(key, ""); envVal != "" { current = getEnv(key, ...) }\<close>\<close>

definition override :: "config_env \<Rightarrow> string \<Rightarrow> string \<Rightarrow> string" where
  "override cv key current = (if getEnv cv key [] \<noteq> [] then getEnv cv key [] else current)"

definition load_websocket :: "config_env \<Rightarrow> bool \<Rightarrow> WebSocketConfig \<Rightarrow> WebSocketConfig" where
  "load_websocket cv yl w = \<lparr>
     wsk_Enabled = setting cv yl ''WS_ENABLED'' (wsk_Enabled w) (getEnvAsBool cv ''WS_ENABLED'' True),
     wsk_Port = int_setting cv yl ''WS_PORT'' (wsk_Port w) 8080,
     wsk_Path = string_setting cv yl ''WS_PATH'' (wsk_Path w) ''/mos'',
     wsk_TLSCertFile = override cv ''WS_TLS_CERT_FILE'' (wsk_TLSCertFile w),
     wsk_TLSKeyFile = override cv ''WS_TLS_KEY_FILE'' (wsk_TLSKeyFile w)\<rparr>"

definition load_wsclient :: "config_env \<Rightarrow> bool \<Rightarrow> WSClientConfig \<Rightarrow> WSClientConfig" where
  "load_wsclient cv yl w = \<lparr>
     wcc_Enabled = bool_setting cv yl ''WS_CLIENT_ENABLED'' (wcc_Enabled w) False,
     wcc_PeerURL = override cv ''WS_CLIENT_PEER_URL'' (wcc_PeerURL w),
     wcc_Channel = string_setting cv yl ''WS_CLIENT_CHANNEL'' (wcc_Channel w) ''ro'',
     wcc_Passive = bool_setting cv yl ''WS_CLIENT_PASSIVE'' (wcc_Passive w) False,
     wcc_RequestLane = bool_setting cv yl ''WS_CLIENT_REQUEST_LANE'' (wcc_RequestLane w) False,
     wcc_Username = override cv ''WS_CLIENT_USERNAME'' (wcc_Username w),
     wcc_Password = override cv ''WS_CLIENT_PASSWORD'' (wcc_Password w),
     wcc_InsecureSkipVerify = bool_setting cv yl ''WS_CLIENT_INSECURE_SKIP_VERIFY'' (wcc_InsecureSkipVerify w) False,
     wcc_ReconnectInitial = duration_setting cv yl ''WS_CLIENT_RECONNECT_INITIAL'' (wcc_ReconnectInitial w) 500000000,
     wcc_ReconnectMax = duration_setting cv yl ''WS_CLIENT_RECONNECT_MAX'' (wcc_ReconnectMax w) 30000000000\<rparr>"

definition load_rundowns :: "config_env \<Rightarrow> SourceRundown list \<Rightarrow> SourceRundown list result" where
  "load_rundowns cv current = (case cv_env cv ''SOURCE_ADDITIONAL_RUNDOWNS'' of
      None \<Rightarrow> Inr current
    | Some raw \<Rightarrow> (case cv_rundowns cv raw of
        BadRundowns e \<Rightarrow> Inl (Wrap ''invalid SOURCE_ADDITIONAL_RUNDOWNS'' e)
      | NullRundowns \<Rightarrow> Inl (Errorf ''SOURCE_ADDITIONAL_RUNDOWNS must be an array'')
      | TrailingRundowns \<Rightarrow> Inl (Errorf ''SOURCE_ADDITIONAL_RUNDOWNS has trailing data'')
      | Rundowns rs \<Rightarrow> Inr rs))"

definition load_source :: "config_env \<Rightarrow> SourceConfig \<Rightarrow> SourceConfig result" where
  "load_source cv s = (case load_rundowns cv (src_Additional s) of
      Inl e \<Rightarrow> Inl e
    | Inr rs \<Rightarrow> Inr \<lparr>
        src_Enabled = getEnvAsBool cv ''SOURCE_ENABLED'' (src_Enabled s),
        src_StateDir = getEnv cv ''SOURCE_STATE_DIR'' (src_StateDir s),
        src_ID = getEnv cv ''SOURCE_ID'' (src_ID s),
        src_RundownID = getEnv cv ''SOURCE_RUNDOWN_ID'' (src_RundownID s),
        src_Transport = getEnv cv ''SOURCE_TRANSPORT'' (src_Transport s),
        src_URL = getEnv cv ''SOURCE_URL'' (src_URL s),
        src_Token = getEnv cv ''SOURCE_TOKEN'' [],
        src_CatalogueStateDir = getEnv cv ''SOURCE_CATALOGUE_STATE_DIR'' (src_CatalogueStateDir s),
        src_Additional = rs\<rparr>)"

definition load_gateway :: "config_env \<Rightarrow> GatewayConfig \<Rightarrow> GatewayConfig" where
  "load_gateway cv g = \<lparr>
     gw_Enabled = getEnvAsBool cv ''GATEWAY_ENABLED'' (gw_Enabled g),
     gw_BindAddr = getEnv cv ''GATEWAY_BIND_ADDR'' (gw_BindAddr g),
     gw_AuthTokens = getEnv cv ''GATEWAY_AUTH_TOKENS'' [],
     gw_StatePath = getEnv cv ''GATEWAY_STATE_PATH'' (gw_StatePath g),
     gw_SourceID = getEnv cv ''GATEWAY_SOURCE_ID'' (gw_SourceID g)\<rparr>"

definition load_mongo :: "config_env \<Rightarrow> bool \<Rightarrow> MongoConfig \<Rightarrow> MongoConfig" where
  "load_mongo cv yl m = \<lparr>
     mng_URI = string_setting cv yl ''MONGODB_URI'' (mng_URI m) ''mongodb://localhost:27017'',
     mng_Database = string_setting cv yl ''MONGODB_DATABASE'' (mng_Database m) ''openmos'',
     mng_Timeout = duration_setting cv yl ''MONGODB_TIMEOUT'' (mng_Timeout m) 10000000000\<rparr>"

definition load_mos :: "config_env \<Rightarrow> bool \<Rightarrow> MOSConfig \<Rightarrow> MOSConfig" where
  "load_mos cv yl m = \<lparr>
     mos_ID = string_setting cv yl ''MOS_ID'' (mos_ID m) ''OpenMOS_Server'',
     mos_NCSID = (if getEnv cv ''MOS_NCS_ID'' (getEnv cv ''NCS_ID'' []) \<noteq> [] \<or> \<not> yl
        then getEnv cv ''MOS_NCS_ID'' (getEnv cv ''NCS_ID'' (mos_NCSID m)) else mos_NCSID m),
     mos_HeartbeatInterval = duration_setting cv yl ''MOS_HEARTBEAT_INTERVAL'' (mos_HeartbeatInterval m) 30000000000,
     mos_ClientTimeout = duration_setting cv yl ''MOS_CLIENT_TIMEOUT'' (mos_ClientTimeout m) 120000000000,
     mos_Manufacturer = string_setting cv yl ''MOS_MANUFACTURER'' (mos_Manufacturer m) ''OpenMOS Project'',
     mos_Model = string_setting cv yl ''MOS_MODEL'' (mos_Model m) ''OpenMOS Server'',
     mos_HwRev = string_setting cv yl ''MOS_HW_REV'' (mos_HwRev m) ''1.0'',
     mos_SwRev = string_setting cv yl ''MOS_SW_REV'' (mos_SwRev m) ''1.0.0'',
     mos_DOM = string_setting cv yl ''MOS_DOM'' (mos_DOM m) ''2024-01-01'',
     mos_SN = string_setting cv yl ''MOS_SN'' (mos_SN m) ''OPENMOS-001''\<rparr>"

definition load_sentry :: "config_env \<Rightarrow> bool \<Rightarrow> string \<Rightarrow> SentryConfig \<Rightarrow> SentryConfig" where
  "load_sentry cv yl environment s = \<lparr>
     sen_DSN = string_setting cv yl ''SENTRY_DSN'' (sen_DSN s) [],
     sen_Environment = string_setting cv yl ''SENTRY_ENV'' (sen_Environment s) environment,
     sen_Debug = bool_setting cv yl ''SENTRY_DEBUG'' (sen_Debug s) False,
     sen_AttachStacktrace = bool_setting cv yl ''SENTRY_ATTACH_STACKTRACE'' (sen_AttachStacktrace s) True,
     sen_SampleRate = float_setting cv yl ''SENTRY_SAMPLE_RATE'' (sen_SampleRate s) 1,
     sen_TracesSampleRate = float_setting cv yl ''SENTRY_TRACES_SAMPLE_RATE'' (sen_TracesSampleRate s) (1 / 5)\<rparr>"

definition apply_environment :: "config_env \<Rightarrow> bool \<Rightarrow> Config \<Rightarrow> Config result" where
  "apply_environment cv yl c = (case load_source cv (cfg_Source c) of
      Inl e \<Rightarrow> Inl e
    | Inr source \<Rightarrow>
        let app = load_app cv yl (cfg_App c) in
        Inr \<lparr>cfg_App = app, cfg_Server = load_server cv yl (cfg_Server c), cfg_WebSocket = load_websocket cv yl (cfg_WebSocket c),
          cfg_WSClient = load_wsclient cv yl (cfg_WSClient c),
          cfg_StorageBackend = string_setting cv yl ''STORAGE_BACKEND'' (cfg_StorageBackend c) ''file'',
          cfg_CaptureDir = override cv ''CAPTURE_DIR'' (cfg_CaptureDir c),
          cfg_StateDir = string_setting cv yl ''STATE_DIR'' (cfg_StateDir c) ''state'',
          cfg_Source = source, cfg_Mongo = load_mongo cv yl (cfg_Mongo c), cfg_MOS = load_mos cv yl (cfg_MOS c),
          cfg_LoggingLevel = string_setting cv yl ''LOG_LEVEL'' (cfg_LoggingLevel c) ''info'',
          cfg_Sentry = load_sentry cv yl (app_Environment app) (cfg_Sentry c), cfg_Gateway = load_gateway cv (cfg_Gateway c)\<rparr>)"

definition LoadConfig :: "config_env \<Rightarrow> Config result" where
  "LoadConfig cv = (case load_first cv (configPaths cv) of
      Inl e \<Rightarrow> Inl e
    | Inr None \<Rightarrow> apply_environment cv False initial_Config
    | Inr (Some f) \<Rightarrow> apply_environment cv True (f initial_Config))"

section \<open>The default file\<close>

definition default_Config :: Config where
  "default_Config = zero_Config\<lparr>
     cfg_App := \<lparr>app_Name = ''OpenMOS'', app_Version = ''1.0.0'', app_Environment = ''development''\<rparr>,
     cfg_Server := (cfg_Server zero_Config)\<lparr>srv_Host := ''0.0.0.0'', srv_Port := 10541, srv_ReadTimeout := 5000000000,
       srv_WriteTimeout := 5000000000, srv_ShutdownTimeout := 30000000000\<rparr>,
     cfg_WebSocket := (cfg_WebSocket zero_Config)\<lparr>wsk_Enabled := True, wsk_Port := 8080, wsk_Path := ''/mos''\<rparr>,
     cfg_StorageBackend := ''file'', cfg_StateDir := ''state'',
     cfg_Mongo := \<lparr>mng_URI = ''mongodb://localhost:27017'', mng_Database = ''openmos'', mng_Timeout = 10000000000\<rparr>,
     cfg_MOS := \<lparr>mos_ID = ''OpenMOS_Server'', mos_NCSID = ''ncs.station.com'', mos_HeartbeatInterval = 30000000000,
       mos_ClientTimeout = 120000000000, mos_Manufacturer = ''OpenMOS Project'', mos_Model = ''OpenMOS Server'', mos_HwRev = ''1.0'',
       mos_SwRev = ''1.0.0'', mos_DOM = ''2024-01-01'', mos_SN = ''OPENMOS-001''\<rparr>,
     cfg_LoggingLevel := ''info'',
     cfg_Sentry := \<lparr>sen_DSN = [], sen_Environment = ''development'', sen_Debug = False, sen_AttachStacktrace = True,
       sen_SampleRate = 1, sen_TracesSampleRate = 1 / 5\<rparr>\<rparr>"

text \<open>What is in a file that \<open>SaveConfigToYAML\<close> wrote: every key but the two that are never written.\<close>

definition saved :: "Config \<Rightarrow> yaml_file" where
  "saved c = YamlSets (\<lambda>old. c\<lparr>cfg_Source := (cfg_Source c)\<lparr>src_Token := src_Token (cfg_Source old)\<rparr>,
     cfg_Gateway := (cfg_Gateway c)\<lparr>gw_AuthTokens := gw_AuthTokens (cfg_Gateway old)\<rparr>\<rparr>)"

text \<open>The outcomes of making the directory, encoding and writing; \<open>None\<close> leaves the file as it was.\<close>

definition SaveConfigToYAML :: "bool \<Rightarrow> bool \<Rightarrow> bool \<Rightarrow> bool \<Rightarrow> Config \<Rightarrow> yaml_file result" where
  "SaveConfigToYAML in_directory mkdir encodes writes c =
     (if in_directory \<and> \<not> mkdir then Inl (Errorf ''failed to create directory for config file'')
      else if \<not> encodes then Inl (Errorf ''failed to marshal config to YAML'')
      else if \<not> writes then Inl (Errorf ''failed to write config to file'')
      else Inr (saved c))"

definition GenerateDefaultConfig :: "bool \<Rightarrow> bool \<Rightarrow> bool \<Rightarrow> bool \<Rightarrow> yaml_file result" where
  "GenerateDefaultConfig in_directory mkdir encodes writes = SaveConfigToYAML in_directory mkdir encodes writes default_Config"

definition GetServerAddress :: "Config \<Rightarrow> string" where
  "GetServerAddress c = srv_Host (cfg_Server c) @ '':'' @ FormatInt (srv_Port (cfg_Server c))"

definition GetWebSocketAddress :: "Config \<Rightarrow> string" where
  "GetWebSocketAddress c = srv_Host (cfg_Server c) @ '':'' @ FormatInt (wsk_Port (cfg_WebSocket c))"

section \<open>Precedence\<close>

lemmas setting_defs = setting_def string_setting_def int_setting_def duration_setting_def bool_setting_def float_setting_def
  override_def getEnv_def env_parsed_def getEnvAsInt_def getEnvAsDuration_def getEnvAsBool_def getEnvAsFloat_def

lemmas section_defs = load_app_def load_server_def load_websocket_def load_wsclient_def load_rundowns_def load_source_def
  load_gateway_def load_mongo_def load_mos_def load_sentry_def

definition no_environment :: "config_env \<Rightarrow> bool" where
  "no_environment cv \<longleftrightarrow> cv_env cv = (\<lambda>_. None)"

text \<open>The secrets, which come from the environment only.\<close>

definition without_secrets :: "Config \<Rightarrow> Config" where
  "without_secrets c = c\<lparr>cfg_Source := (cfg_Source c)\<lparr>src_Token := []\<rparr>, cfg_Gateway := (cfg_Gateway c)\<lparr>gw_AuthTokens := []\<rparr>\<rparr>"

lemma file_settings_kept:
  assumes "no_environment cv"
  shows "load_app cv True a = a" "load_server cv True s = s" "load_websocket cv True w = w" "load_wsclient cv True k = k"
    "load_source cv o' = Inr (o'\<lparr>src_Token := []\<rparr>)" "load_gateway cv g = g\<lparr>gw_AuthTokens := []\<rparr>"
    "load_mongo cv True m = m" "load_mos cv True n = n" "load_sentry cv True e t = t"
  using assms by (simp_all add: no_environment_def section_defs setting_defs)

text \<open>
  With no variable set, a file decides alone: the configuration is what the file makes of the built-in
  settings, without any secret it may contain.
\<close>

theorem file_decides:
  assumes "no_environment cv" "load_first cv (configPaths cv) = Inr (Some f)"
  shows "LoadConfig cv = Inr (without_secrets (f initial_Config))"
  using assms(2) file_settings_kept [OF assms(1)] assms(1)
  by (simp add: LoadConfig_def apply_environment_def without_secrets_def Let_def no_environment_def setting_defs)

definition example_cv :: config_env where
  "example_cv = \<lparr>cv_env = (\<lambda>_. None), cv_duration = (\<lambda>_. None), cv_float = (\<lambda>_. None), cv_rundowns = (\<lambda>_. NullRundowns),
     cv_file = (\<lambda>p. if p = ''config.yaml'' then saved default_Config else YamlMissing)\<rparr>"

theorem file_decides_witness: "LoadConfig example_cv = Inr (without_secrets default_Config)"
  using file_decides [of example_cv "\<lambda>old. default_Config\<lparr>cfg_Source := (cfg_Source default_Config)\<lparr>src_Token := src_Token (cfg_Source old)\<rparr>,
     cfg_Gateway := (cfg_Gateway default_Config)\<lparr>gw_AuthTokens := gw_AuthTokens (cfg_Gateway old)\<rparr>\<rparr>"]
  by (simp add: example_cv_def no_environment_def configPaths_def getEnv_def saved_def without_secrets_def)

text \<open>
  C37. The generated default file turns the MOS 2.x socket off: with no file and no variable the socket server is
  enabled, and with the file that \<open>GenerateDefaultConfig\<close> writes it is not.
\<close>

theorem default_file_disables_socket:
  assumes "no_environment cv" "no_environment cv'"
    and "load_first cv (configPaths cv) = Inr None"
    and "GenerateDefaultConfig d m e w = Inr file" "cv_file cv' ''config.yaml'' = file"
  shows "\<exists>c c'. LoadConfig cv = Inr c \<and> LoadConfig cv' = Inr c' \<and> srv_Enabled (cfg_Server c) \<and> \<not> srv_Enabled (cfg_Server c')
    \<and> srv_Port (cfg_Server c) = srv_Port (cfg_Server c')"
proof -
  have f: "file = saved default_Config" using assms(4) by (auto simp: GenerateDefaultConfig_def SaveConfigToYAML_def split: if_splits)
  have "\<exists>c'. LoadConfig cv' = Inr c' \<and> cfg_Server c' = cfg_Server default_Config"
    using file_decides [OF assms(2)] assms(2,5) f
    by (simp add: configPaths_def no_environment_def getEnv_def saved_def without_secrets_def)
  moreover have "\<exists>c. LoadConfig cv = Inr c \<and> cfg_Server c = load_server cv False (cfg_Server initial_Config)"
    using assms(1,3) file_settings_kept(5) [OF assms(1)] by (simp add: LoadConfig_def apply_environment_def Let_def)
  moreover have "srv_Enabled (load_server cv False s)" "srv_Port (load_server cv False (cfg_Server initial_Config)) = 10541" for s
    using assms(1) by (simp_all add: load_server_def setting_defs no_environment_def initial_Config_def zero_Config_def getDefaultInt_def)
  ultimately show ?thesis by (auto simp: default_Config_def zero_Config_def)
qed

theorem default_file_disables_socket_witness:
  "\<exists>c c'. LoadConfig (example_cv\<lparr>cv_file := (\<lambda>_. YamlMissing)\<rparr>) = Inr c \<and> LoadConfig example_cv = Inr c'
    \<and> srv_Enabled (cfg_Server c) \<and> \<not> srv_Enabled (cfg_Server c') \<and> srv_Port (cfg_Server c) = srv_Port (cfg_Server c')"
  by (rule default_file_disables_socket [of _ _ True True True True "saved default_Config"])
    (simp_all add: no_environment_def example_cv_def configPaths_def getEnv_def GenerateDefaultConfig_def SaveConfigToYAML_def)

text \<open>A flag that does not parse counts as set to its default: it overrides the file, which said no.\<close>

lemma unreadable_flag_enables:
  assumes "cv_env cv ''SERVER_ENABLED'' = Some v" "v \<noteq> []" "ParseBool v = None"
  shows "srv_Enabled (load_server cv True s)"
  using assms by (simp add: load_server_def setting_defs)

end
