(* ===== verification/OneShot.thy ===== *)
theory OneShot
  imports Client Config
begin

text \<open>
  The one-shot clients: \<open>src/internal/server/story_action_client.go\<close>, which asks the NCS for a change of a running
  order, and \<open>src/internal/timingsend/client.go\<close>, which reports that a story plays; with the requests of
  \<open>src/internal/xml/story_action.go\<close>. Each opens a connection, writes one message and waits for an roAck.

  A call is given by how dialling and writing end and by what it reads with the time before each read; the end of
  the reads is the deadline. It gives its results, nil as \<open>None\<close>, and what reached the wire. A write that fails
  is taken to have written nothing.
\<close>

section \<open>Requests\<close>

definition StoryActionOperation_Valid :: "string \<Rightarrow> bool" where
  "StoryActionOperation_Valid op \<longleftrightarrow> op \<in> set [''NEW'', ''UPDATE'', ''DELETE'', ''MOVE'']"

definition zero_StoryActionBody :: StoryActionBody where
  "zero_StoryActionBody = \<lparr>sab_ROID = [], sab_ElementTarget = None, sab_ElementSource = None, sab_StoryID = [], sab_StorySlug = [],
     sab_StoryNum = [], sab_StoryBody = None, sab_ExternalMeta = []\<rparr>"

definition NewStoryActionMove :: "string \<Rightarrow> string \<Rightarrow> string list \<Rightarrow> StoryActionBody" where
  "NewStoryActionMove roID beforeStoryID storyIDs = zero_StoryActionBody\<lparr>sab_ROID := roID,
     sab_ElementTarget := Some \<lparr>et_StoryID = beforeStoryID, et_ItemID = []\<rparr>,
     sab_ElementSource := Some \<lparr>es_Stories = [], es_Items = [], es_StoryIDs = storyIDs, es_ItemIDs = []\<rparr>\<rparr>"

definition NewStoryActionDelete :: "string \<Rightarrow> string \<Rightarrow> StoryActionBody" where
  "NewStoryActionDelete roID storyID = zero_StoryActionBody\<lparr>sab_ROID := roID, sab_StoryID := storyID, sab_StoryBody := Some zero_StoryBody\<rparr>"

definition NewStoryActionUpdate :: "string \<Rightarrow> string \<Rightarrow> string \<Rightarrow> StoryBody option \<Rightarrow> StoryActionBody" where
  "NewStoryActionUpdate roID storyID slug body = zero_StoryActionBody\<lparr>sab_ROID := roID, sab_StoryID := storyID, sab_StorySlug := slug,
     sab_StoryBody := body\<rparr>"

definition NewStoryActionCreate :: "string \<Rightarrow> string \<Rightarrow> string \<Rightarrow> string \<Rightarrow> StoryBody option \<Rightarrow> StoryActionBody" where
  "NewStoryActionCreate roID beforeStoryID slug storyNum body = zero_StoryActionBody\<lparr>sab_ROID := roID,
     sab_ElementSource := Some \<lparr>es_Stories = [zero_StoryInfo\<lparr>si_Slug := slug, si_Number := storyNum\<rparr>], es_Items = [], es_StoryIDs = [], es_ItemIDs = []\<rparr>,
     sab_StorySlug := slug, sab_StoryNum := storyNum, sab_StoryBody := body,
     sab_ElementTarget := (if TrimSpace beforeStoryID \<noteq> [] then Some \<lparr>et_StoryID = beforeStoryID, et_ItemID = []\<rparr> else None)\<rparr>"

definition StoryActionBody_Validate :: "go_env \<Rightarrow> string \<Rightarrow> StoryActionBody \<Rightarrow> unit result" where
  "StoryActionBody_Validate e op b =
     (if \<not> StoryActionOperation_Valid op then Inl (Errorf (''operation '' @ quote e op @ '' is not one of NEW, UPDATE, DELETE, MOVE''))
      else if TrimSpace (sab_ROID b) = [] then Inl (Errorf ''roID is required for every story action'')
      else if op = ''MOVE'' then
        (if (case sab_ElementSource b of None \<Rightarrow> True | Some s \<Rightarrow> es_StoryIDs s = [])
         then Inl (Errorf ''MOVE needs at least one storyID in element_source'')
         else if (case sab_ElementTarget b of None \<Rightarrow> True | Some t \<Rightarrow> TrimSpace (et_StoryID t) = [])
         then Inl (Errorf ''MOVE needs element_target naming the story to move before'')
         else Inr ())
      else if op = ''DELETE'' \<or> op = ''UPDATE'' then
        (if TrimSpace (sab_StoryID b) = [] then Inl (Errorf (op @ '' needs a storyID'')) else Inr ())
      else if (case sab_ElementSource b of None \<Rightarrow> True | Some s \<Rightarrow> es_Stories s = [])
      then Inl (Errorf ''NEW needs at least one story in element_source'')
      else Inr ())"

section \<open>The connection\<close>

record oneshot_env =
  os_go :: go_env
  os_config :: Config
  os_marshal_action :: "ROReqStoryAction \<Rightarrow> string result"
  os_marshal_stat :: "ROElementStat \<Rightarrow> string result"
  os_encode :: "string \<Rightarrow> byte list result"
  os_decode :: "byte list \<Rightarrow> string result"
  os_unmarshal :: "string \<Rightarrow> Envelope result"
  os_parse :: "string \<Rightarrow> mos_message result"
  os_with_query :: "string \<Rightarrow> (string \<times> string) list \<Rightarrow> string result"
  os_EqualFold :: "string \<Rightarrow> string \<Rightarrow> bool"

datatype awaited_read = ReadError bool | ReadFrame ws_frame

record oneshot_io =
  oi_millis :: int
  oi_dials :: bool
  oi_writes :: bool
  oi_written_at :: time
  oi_reads :: "(time \<times> awaited_read) list"

definition requestURL :: "oneshot_env \<Rightarrow> string result" where
  "requestURL os =
     (let base = wcc_PeerURL (cfg_WSClient (os_config os)); m = cfg_MOS (os_config os) in
      if TrimSpace base = [] then Inl (Errorf ''no peer URL configured; set WS_CLIENT_PEER_URL'')
      else case os_with_query os base [(''mosID'', mos_ID m), (''ncsID'', mos_NCSID m), (''channel'', ''ro'')] of
        Inl e \<Rightarrow> Inl (Wrap ''invalid peer URL'' e) | Inr u \<Rightarrow> Inr u)"

definition redactQuery :: "string \<Rightarrow> string" where
  "redactQuery raw = takeWhile (\<lambda>c. c \<noteq> CHR ''?'') raw"

text \<open>\<open>time.Now().UnixMilli() % 2147483647\<close> with the remainder of Go, and 1 for 0.\<close>

definition oneshot_messageID :: "int \<Rightarrow> string" where
  "oneshot_messageID ms =
     (let i = FormatInt (if ms < 0 then - ((- ms) mod 2147483647) else ms mod 2147483647) in if i = ''0'' then ''1'' else i)"

text \<open>What a frame answers: the status and the stories of an roAck with the text, or nothing that ends the wait.\<close>

definition ack_of :: "oneshot_env \<Rightarrow> ws_frame \<Rightarrow> ((string \<times> ROAckStory list) \<times> string) option" where
  "ack_of os f =
     (case (case f of BinaryFrame raw \<Rightarrow> os_decode os raw | TextFrame raw \<Rightarrow> Inr raw | OtherFrame \<Rightarrow> Inl (Errorf ''frame type'')) of
        Inl _ \<Rightarrow> None
      | Inr utf8XML \<Rightarrow>
          (case os_unmarshal os utf8XML of
             Inl _ \<Rightarrow> None
           | Inr env \<Rightarrow>
               (case Envelope_Message (os_parse os) env of
                  Inr (ROAck _ status stories) \<Rightarrow> Some ((status, stories), utf8XML)
                | _ \<Rightarrow> None)))"

datatype awaited = Answered string "ROAckStory list" string | NoAnswer | ContextEnded

fun await_ack :: "oneshot_env \<Rightarrow> time \<Rightarrow> (time \<times> awaited_read) list \<Rightarrow> awaited" where
  "await_ack os deadline [] = NoAnswer"
| "await_ack os deadline ((t, r) # reads) =
     (if \<not> t < deadline then NoAnswer
      else case r of
        ReadError ended \<Rightarrow> if ended then ContextEnded else NoAnswer
      | ReadFrame f \<Rightarrow>
          (case ack_of os f of
             Some ((status, stories), raw) \<Rightarrow> Answered status stories raw
           | None \<Rightarrow> await_ack os deadline reads))"

definition context_error :: go_error where "context_error = Errorf ''context canceled''"

text \<open>Dialling and writing the message, the same in both clients: the envelope and the error of the first step that fails.\<close>

definition dial_and_write :: "oneshot_env \<Rightarrow> oneshot_io \<Rightarrow> string \<Rightarrow> string result \<Rightarrow> string \<Rightarrow> (string \<times> string) result" where
  "dial_and_write os io name marshalled dial =
     (let messageID = oneshot_messageID (oi_millis io); m = cfg_MOS (os_config os) in
      case marshalled of
        Inl e \<Rightarrow> Inl (Wrap (''marshal '' @ name) e)
      | Inr inner \<Rightarrow>
          let envelope = WrapEnvelope (mos_ID m) (mos_NCSID m) messageID inner in
          if \<not> oi_dials io then Inl (Wrap (''dial '' @ redactQuery dial) (Errorf ''dial''))
          else (case os_encode os envelope of
             Inl e \<Rightarrow> Inl (Wrap ''encode UCS-2BE'' e)
           | Inr _ \<Rightarrow> if \<not> oi_writes io then Inl (Wrap (''write '' @ name) (Errorf ''write'')) else Inr (envelope, messageID)))"

section \<open>Story actions\<close>

record StoryActionResult =
  sar_Sent :: string
  sar_Ack :: "(string \<times> ROAckStory list) option"
  sar_Raw :: string
  sar_TimedOut :: bool
  sar_MessageID :: string

definition nacked :: "go_env \<Rightarrow> string \<Rightarrow> bool" where
  "nacked e status \<longleftrightarrow> find_sub ''NACK'' (ToUpper e status) \<noteq> None"

definition Accepted :: "go_env \<Rightarrow> StoryActionResult \<Rightarrow> bool" where
  "Accepted e r = (case sar_Ack r of None \<Rightarrow> False | Some (status, _) \<Rightarrow> \<not> nacked e status)"

definition add_part :: "oneshot_env \<Rightarrow> ROAckStory \<Rightarrow> string list \<Rightarrow> string list" where
  "add_part os story parts =
     (let detail = TrimSpace (ras_Status story) in
      if detail = [] then parts
      else if parts \<noteq> [] \<and> os_EqualFold os detail (hd parts) then parts
      else parts @ [detail])"

definition Reason :: "oneshot_env \<Rightarrow> StoryActionResult \<Rightarrow> string" where
  "Reason os r = (case sar_Ack r of
      None \<Rightarrow> ''no answer from the NCS''
    | Some (status, stories) \<Rightarrow>
        let s = TrimSpace status; parts = fold (add_part os) stories (if s \<noteq> [] then [s] else []) in
        if parts = [] then ''acknowledged with no status text'' else join_strings '': '' parts)"

definition StoryAction_Send ::
    "oneshot_env \<Rightarrow> oneshot_io \<Rightarrow> string \<Rightarrow> StoryActionBody \<Rightarrow> string \<Rightarrow> time \<Rightarrow>
     (StoryActionResult option \<times> go_error option) \<times> string list" where
  "StoryAction_Send os io op body username timeout =
     (case StoryActionBody_Validate (os_go os) op body of
        Inl e \<Rightarrow> ((None, Some (Wrap (''refusing to send an invalid '' @ op @ '' request'') e)), [])
      | Inr _ \<Rightarrow>
          (case requestURL os of
             Inl e \<Rightarrow> ((None, Some e), [])
           | Inr dial \<Rightarrow>
               (case dial_and_write os io ''roReqStoryAction''
                   (os_marshal_action os \<lparr>rrsa_Operation = op, rrsa_LeaseLock = [], rrsa_Username = username, rrsa_StoryAction = body\<rparr>) dial of
                  Inl e \<Rightarrow> ((None, Some e), [])
                | Inr (envelope, messageID) \<Rightarrow>
                    let result = \<lparr>sar_Sent = envelope, sar_Ack = None, sar_Raw = [], sar_TimedOut = False, sar_MessageID = messageID\<rparr> in
                    (case await_ack os (oi_written_at io + timeout) (oi_reads io) of
                       Answered status stories raw \<Rightarrow> ((Some (result\<lparr>sar_Ack := Some (status, stories), sar_Raw := raw\<rparr>), None), [envelope])
                     | NoAnswer \<Rightarrow> ((Some (result\<lparr>sar_TimedOut := True\<rparr>), None), [envelope])
                     | ContextEnded \<Rightarrow> ((Some result, Some context_error), [envelope])))))"

section \<open>Timing reports\<close>

record Target =
  tg_RunningOrderID :: string
  tg_StoryRawID :: string

record Ack =
  ak_Accepted :: bool
  ak_Reason :: string
  ak_TimedOut :: bool

definition add_detail :: "oneshot_env \<Rightarrow> ROAckStory \<Rightarrow> string \<Rightarrow> string" where
  "add_detail os story reason =
     (let detail = TrimSpace (ras_Status story) in
      if detail = [] \<or> os_EqualFold os detail reason then reason
      else if reason \<noteq> [] then reason @ '': '' @ detail
      else detail)"

definition toAck :: "oneshot_env \<Rightarrow> string \<Rightarrow> ROAckStory list \<Rightarrow> Ack" where
  "toAck os status stories =
     (let accepted = (\<not> nacked (os_go os) status); reason = fold (add_detail os) stories (TrimSpace status) in
      \<lparr>ak_Accepted = accepted,
       ak_Reason = (if accepted then [] else if reason = [] then ''acknowledged with no status text'' else reason),
       ak_TimedOut = False\<rparr>)"

definition timed_out_Ack :: Ack where "timed_out_Ack = \<lparr>ak_Accepted = False, ak_Reason = [], ak_TimedOut = True\<rparr>"

definition play_stat :: "oneshot_env \<Rightarrow> Target \<Rightarrow> ROElementStat" where
  "play_stat os target = \<lparr>res_Element = ''STORY'', res_ROID = tg_RunningOrderID target, res_StoryID = tg_StoryRawID target,
     res_ItemID = [], res_ObjID = [], res_ItemChannel = [], res_Status = ''PLAY'',
     res_Time = time_Format (os_go os) ''2006-01-02T15:04:05Z07:00'' (now (os_go os))\<rparr>"

definition timing_Send :: "oneshot_env \<Rightarrow> oneshot_io \<Rightarrow> Target \<Rightarrow> time \<Rightarrow> (Ack option \<times> go_error option) \<times> string list" where
  "timing_Send os io target timeout =
     (case requestURL os of
        Inl e \<Rightarrow> ((None, Some e), [])
      | Inr dial \<Rightarrow>
          (case dial_and_write os io ''roElementStat'' (os_marshal_stat os (play_stat os target)) dial of
             Inl e \<Rightarrow> ((None, Some e), [])
           | Inr (envelope, _) \<Rightarrow>
               (case await_ack os (oi_written_at io + timeout) (oi_reads io) of
                  Answered status stories _ \<Rightarrow> ((Some (toAck os status stories), None), [envelope])
                | NoAnswer \<Rightarrow> ((Some timed_out_Ack, None), [envelope])
                | ContextEnded \<Rightarrow> ((None, Some context_error), [envelope]))))"

section \<open>Requests are checked\<close>

lemma built_requests_validate:
  "StoryActionBody_Validate e ''MOVE'' (NewStoryActionMove r b ids) = Inr () \<longleftrightarrow> TrimSpace r \<noteq> [] \<and> ids \<noteq> [] \<and> TrimSpace b \<noteq> []"
  "StoryActionBody_Validate e ''DELETE'' (NewStoryActionDelete r i) = Inr () \<longleftrightarrow> TrimSpace r \<noteq> [] \<and> TrimSpace i \<noteq> []"
  "StoryActionBody_Validate e ''UPDATE'' (NewStoryActionUpdate r i slug sb) = Inr () \<longleftrightarrow> TrimSpace r \<noteq> [] \<and> TrimSpace i \<noteq> []"
  "StoryActionBody_Validate e ''NEW'' (NewStoryActionCreate r b slug num sb) = Inr () \<longleftrightarrow> TrimSpace r \<noteq> []"
  by (simp_all add: StoryActionBody_Validate_def StoryActionOperation_Valid_def NewStoryActionMove_def NewStoryActionDelete_def
      NewStoryActionUpdate_def NewStoryActionCreate_def zero_StoryActionBody_def)

lemma small_texts: "FormatInt 0 = ''0''" "FormatInt 1 = ''1''"
  by code_simp+

lemma one_text: "FormatInt n = ''0'' \<longleftrightarrow> n = 0" if "0 \<le> n"
proof
  assume "FormatInt n = ''0''"
  then have "digits_value 10 0 (nat_text (nat n)) = digits_value 10 0 ''0''" using that by (simp add: FormatInt_def)
  then have "Some (nat n) = Some 0" by (simp add: digits_value_nat_text digit_value_def)
  then show "n = 0" using that by simp
qed (simp add: small_texts)

text \<open>The identifier of a request is one a peer accepts.\<close>

lemma oneshot_messageID_valid:
  assumes "0 \<le> ms"
  shows "\<exists>v. ParseMessageID (oneshot_messageID ms) = Some v \<and> 1 \<le> v \<and> v < 2147483647"
proof -
  define v where "v = ms mod 2147483647"
  have v: "0 \<le> v" "v < 2147483647" by (simp_all add: v_def)
  have id: "oneshot_messageID ms = FormatInt (if v = 0 then 1 else v)"
    using assms one_text [OF v(1)] by (simp add: oneshot_messageID_def v_def [symmetric] Let_def small_texts)
  have "ParseMessageID (FormatInt (if v = 0 then 1 else v)) = Some (if v = 0 then 1 else v)"
    using v by (intro ParseMessageID_FormatInt) (auto simp: MaxInt32_def)
  then show ?thesis using v id by auto
qed

section \<open>Only an answer counts as one\<close>

lemma await_answered:
  "await_ack os deadline reads = Answered status stories raw \<Longrightarrow>
     \<exists>t f. (t, ReadFrame f) \<in> set reads \<and> t < deadline \<and> ack_of os f = Some ((status, stories), raw)"
  by (induction os deadline reads rule: await_ack.induct) (auto split: if_splits awaited_read.splits option.splits)

lemma dial_and_write_sent:
  "dial_and_write os io name marshalled dial = Inr (envelope, i) \<Longrightarrow>
     i = oneshot_messageID (oi_millis io) \<and> (\<exists>inner. marshalled = Inr inner \<and>
       envelope = WrapEnvelope (mos_ID (cfg_MOS (os_config os))) (mos_NCSID (cfg_MOS (os_config os))) i inner)"
  by (auto simp: dial_and_write_def Let_def split: sum.splits if_splits)

text \<open>An accepting roAck was read before the deadline.\<close>

definition accepting_ack_read :: "oneshot_env \<Rightarrow> oneshot_io \<Rightarrow> time \<Rightarrow> bool" where
  "accepting_ack_read os io timeout \<longleftrightarrow> (\<exists>t f status stories raw. (t, ReadFrame f) \<in> set (oi_reads io) \<and>
     t < oi_written_at io + timeout \<and> ack_of os f = Some ((status, stories), raw) \<and> \<not> nacked (os_go os) status)"

definition example_os :: oneshot_env where
  "example_os = \<lparr>os_go = example_env, os_config = default_Config\<lparr>cfg_WSClient := (cfg_WSClient default_Config)\<lparr>wcc_PeerURL := ''ws://n''\<rparr>\<rparr>,
     os_marshal_action = (\<lambda>_. Inr ''<roReqStoryAction/>''), os_marshal_stat = (\<lambda>_. Inr ''<roElementStat/>''),
     os_encode = (\<lambda>_. Inr []), os_decode = (\<lambda>_. Inl (Errorf ''x'')),
     os_unmarshal = (\<lambda>t. Inr \<lparr>en_MosID = [], en_NcsID = [], en_MessageID = [], en_typed = [ROAck ''R'' t []], en_Body = \<lparr>ie_name = [], ie_attrs = [], ie_raw = []\<rparr>\<rparr>),
     os_parse = (\<lambda>_. Inr OtherMsg), os_with_query = (\<lambda>u _. Inr u), os_EqualFold = EqualFold_word\<rparr>"

definition example_oneshot :: "(time \<times> awaited_read) list \<Rightarrow> oneshot_io" where
  "example_oneshot reads = \<lparr>oi_millis = 7, oi_dials = True, oi_writes = True, oi_written_at = 0, oi_reads = reads\<rparr>"

lemma send_truthful:
  assumes "StoryAction_Send os io op body username timeout = ((res, er), out)"
  shows "case res of
      None \<Rightarrow> out = [] \<and> er \<noteq> None
    | Some r \<Rightarrow> out = [sar_Sent r] \<and> StoryActionBody_Validate (os_go os) op body = Inr ()
        \<and> (Accepted (os_go os) r \<longrightarrow> accepting_ack_read os io timeout \<and> er = None \<and> \<not> sar_TimedOut r)"
proof (cases "StoryActionBody_Validate (os_go os) op body")
  case Valid: (Inr u)
  show ?thesis
  proof (cases "requestURL os")
    case Url: (Inr dial)
    define w where "w = dial_and_write os io ''roReqStoryAction''
        (os_marshal_action os \<lparr>rrsa_Operation = op, rrsa_LeaseLock = [], rrsa_Username = username, rrsa_StoryAction = body\<rparr>) dial"
    show ?thesis
    proof (cases w)
      case Sent: (Inr ei)
      obtain envelope i where ei: "ei = (envelope, i)" by fastforce
      show ?thesis
      proof (cases "await_ack os (oi_written_at io + timeout) (oi_reads io)")
        case (Answered status stories raw)
        then have "\<not> nacked (os_go os) status \<Longrightarrow> accepting_ack_read os io timeout"
          using await_answered [OF Answered] unfolding accepting_ack_read_def by blast
        then show ?thesis
          using assms Valid Url Sent ei Answered by (auto simp: StoryAction_Send_def w_def Accepted_def)
      qed (use assms Valid Url Sent ei in \<open>auto simp: StoryAction_Send_def w_def Accepted_def\<close>)
    qed (use assms Valid Url in \<open>auto simp: StoryAction_Send_def w_def\<close>)
  qed (use assms Valid in \<open>auto simp: StoryAction_Send_def\<close>)
qed (use assms in \<open>auto simp: StoryAction_Send_def\<close>)

lemma send_accepted:
  "StoryAction_Send os io op body username timeout = ((Some r, er), out) \<Longrightarrow> Accepted (os_go os) r \<Longrightarrow>
     accepting_ack_read os io timeout \<and> length out = 1"
  using send_truthful [of os io op body username timeout "Some r" er out] by simp



section \<open>Timing reports\<close>

text \<open>
  C39. A timing report whose wait is cancelled is returned as an error without an acknowledgement although the report
  was written. (The documentation of \<open>Send\<close> says that such a result means that nothing reached the wire and that the
  caller must treat it as definitively failed.)
\<close>

theorem cancelled_play_reported_unsent:
  assumes "requestURL os = Inr dial" "os_marshal_stat os (play_stat os target) = Inr inner"
    and "envelope = WrapEnvelope (mos_ID (cfg_MOS (os_config os))) (mos_NCSID (cfg_MOS (os_config os))) (oneshot_messageID (oi_millis io)) inner"
    and "os_encode os envelope = Inr bytes" "oi_dials io" "oi_writes io"
    and "oi_reads io = (t, ReadError True) # rest" "t < oi_written_at io + timeout"
  shows "timing_Send os io target timeout = ((None, Some context_error), [envelope])"
  using assms by (simp add: timing_Send_def dial_and_write_def Let_def)

theorem cancelled_play_reported_unsent_witness:
  "\<exists>envelope. timing_Send example_os (example_oneshot [(1, ReadError True)]) \<lparr>tg_RunningOrderID = ''R'', tg_StoryRawID = ''S''\<rparr> 5
     = ((None, Some context_error), [envelope])"
  by (intro exI, rule cancelled_play_reported_unsent [of _ "''ws://n''" _ "''<roElementStat/>''" _ _ "[]" 1 "[]"])
    (simp_all add: example_oneshot_def, code_simp+)

text \<open>The two clients judge an roAck alike, and give the same reason for a refusal of one story.\<close>

lemma toAck_accepts: "sar_Ack r = Some (status, stories) \<Longrightarrow> ak_Accepted (toAck os status stories) = Accepted (os_go os) r"
  by (simp add: toAck_def Accepted_def Let_def)

lemma toAck_reason:
  assumes "sar_Ack r = Some (status, stories)" "nacked (os_go os) status" "TrimSpace status \<noteq> []" "length stories \<le> 1"
  shows "ak_Reason (toAck os status stories) = Reason os r"
proof (cases stories)
  case Nil
  then show ?thesis using assms by (simp add: toAck_def Reason_def Let_def)
next
  case (Cons st sts)
  then have "sts = []" using assms(4) by simp
  then show ?thesis using assms Cons by (simp add: toAck_def Reason_def Let_def add_detail_def add_part_def)
qed

text \<open>With two stories they differ: a status that repeats the one of the running order is left out only by the first.\<close>

definition example_story :: "string \<Rightarrow> ROAckStory" where
  "example_story s = \<lparr>ras_StoryID = ''1'', ras_ItemID = [], ras_ObjID = [], ras_ItemChannel = [], ras_Status = s\<rparr>"

lemma toAck_repeats_status:
  "ak_Reason (toAck example_os ''NACK'' [example_story ''locked'', example_story ''nack'']) = ''NACK: locked: nack''"
  "Reason example_os \<lparr>sar_Sent = [], sar_Ack = Some (''NACK'', [example_story ''locked'', example_story ''nack'']), sar_Raw = [],
     sar_TimedOut = False, sar_MessageID = []\<rparr> = ''NACK: locked''"
  by code_simp+

end
