(* ===== verification/Startup.thy ===== *)
theory Startup
  imports OneShot SourceSet
begin

text \<open>
  The start of the process: the decisions of \<open>src/main.go\<close> up to the point where the transports run, the one-shot mode
  with its exit status, and the adapters and checks of the timing gateway
  (\<open>src/internal/gatewayintegration/adapters.go\<close>).

  A fatal log entry ends the process and is an error here. \<open>filepath.Abs\<close>, \<open>strings.ToLower\<close> of a text that is not
  ASCII, \<open>filepath.Join\<close>, \<open>net.SplitHostPort\<close> and the loopback test of an address are fields of \<open>main_env\<close>.
\<close>

section \<open>The gateway\<close>

text \<open>The error about the entry at a position, counted from 0.\<close>

definition entry_error :: "nat \<Rightarrow> string \<Rightarrow> go_error" where
  "entry_error i fault = Errorf (''caller:token entry '' @ FormatInt (int i + 1) @ fault)"

fun parse_pairs :: "nat \<Rightarrow> string list \<Rightarrow> string gomap \<Rightarrow> string gomap result" where
  "parse_pairs i [] tokens = Inr tokens"
| "parse_pairs i (p # ps) tokens =
     (let pair = TrimSpace p in
      if pair = [] then parse_pairs (Suc i) ps tokens
      else case cut_char (CHR '':'') pair of
        (caller, token, found) \<Rightarrow>
          if \<not> found then Inl (entry_error i '' is missing the ':' separator'')
          else if caller = [] then Inl (entry_error i '' has an empty caller name'')
          else if token = [] then Inl (entry_error i '' has an empty token'')
          else parse_pairs (Suc i) ps (gm_set token caller tokens))"

definition ParseAuthTokens :: "string \<Rightarrow> string gomap result" where
  "ParseAuthTokens raw0 =
     (let raw = TrimSpace raw0 in if raw = [] then Inr [] else parse_pairs 0 (split_char (CHR '','') raw) [])"

record main_env =
  mn_config :: config_env
  mn_go :: go_env
  mn_join :: "string \<Rightarrow> string \<Rightarrow> string"
  mn_abs :: "string \<Rightarrow> string option"
  mn_lower :: "string \<Rightarrow> string"
  mn_host :: "string \<Rightarrow> string option"
  mn_loopback :: "string \<Rightarrow> bool option"
  mn_url_Parse :: "string \<Rightarrow> parsed_url option"

text \<open>\<open>mn_loopback\<close> is \<open>None\<close> when the host is not an address.\<close>

definition IsLocalBind :: "main_env \<Rightarrow> string \<Rightarrow> bool" where
  "IsLocalBind me addr = (case mn_host me addr of
      None \<Rightarrow> False
    | Some host \<Rightarrow>
        if host = ''localhost'' then True
        else if host = [] then False
        else (case mn_loopback me host of None \<Rightarrow> False | Some l \<Rightarrow> l))"

definition Authorize :: "string \<Rightarrow> string \<Rightarrow> string \<Rightarrow> bool" where
  "Authorize configured caller sourceID \<longleftrightarrow> sourceID = configured"

record RunningOrderRecord =
  gr_ID :: string
  gr_MosID :: string

record StoryRecord =
  gs_ID :: string
  gs_RawID :: string
  gs_RunningOrderID :: string

definition lookup_rundown :: "string \<Rightarrow> (RunningOrderRecord \<times> StoryRecord list) svc_op" where
  "lookup_rundown roID =
     op_bind (GetRunningOrderWithStories roID) (\<lambda>(ro, stories).
       op_return (\<lparr>gr_ID = ro_ID ro, gr_MosID = ro_MosID ro\<rparr>,
         map (\<lambda>s. \<lparr>gs_ID = story_ID s, gs_RawID = story_RawID s, gs_RunningOrderID = story_RunningOrderID s\<rparr>) stories))"

text \<open>\<open>PlayAck\<close> has the fields of \<open>Ack\<close>.\<close>

definition SendPlay :: "oneshot_env \<Rightarrow> oneshot_io \<Rightarrow> string \<Rightarrow> string \<Rightarrow> time \<Rightarrow> (Ack option \<times> go_error option) \<times> string list" where
  "SendPlay os io roID storyRawID timeout =
     (case timing_Send os io \<lparr>tg_RunningOrderID = roID, tg_StoryRawID = storyRawID\<rparr> timeout of
        ((ack, Some e), out) \<Rightarrow> ((None, Some e), out)
      | ((ack, None), out) \<Rightarrow> ((ack, None), out))"

definition stateSubdir :: "main_env \<Rightarrow> string \<Rightarrow> string \<Rightarrow> string" where
  "stateSubdir me base name = (if base = [] then [] else mn_join me base name)"

record gateway =
  gt_addr :: string
  gt_tokens :: "string gomap"
  gt_statePath :: string

definition start_gateway :: "main_env \<Rightarrow> Config \<Rightarrow> gateway option result" where
  "start_gateway me cfg =
     (let gw = cfg_Gateway cfg in
      if \<not> gw_Enabled gw then Inr None
      else if gw_SourceID gw = [] \<or> mos_ID (cfg_MOS cfg) = []
      then Inl (Errorf ''Gateway.SourceID and MOS.ID must both be set when Gateway.Enabled is true'')
      else case ParseAuthTokens (gw_AuthTokens gw) of
        Inl e \<Rightarrow> Inl (Wrap ''Gateway.AuthTokens'' e)
      | Inr tokens \<Rightarrow>
          if tokens = [] then Inl (Errorf ''Gateway.AuthTokens must name at least one caller:token pair'')
          else
            let addr = (if gw_BindAddr gw = [] then ''127.0.0.1:8091'' else gw_BindAddr gw) in
            if \<not> IsLocalBind me addr then Inl (Errorf ''Gateway.BindAddr is not a local/loopback address'')
            else Inr (Some \<lparr>gt_addr = addr, gt_tokens = tokens,
              gt_statePath = (if gw_StatePath gw = [] then stateSubdir me (cfg_StateDir cfg) ''timingplay'' @ ''/timingplay.jsonl'' else gw_StatePath gw)\<rparr>))"

section \<open>The committed source\<close>

record main_flags =
  mf_generateConfig :: string
  mf_configPath :: string
  mf_initializeSource :: bool
  mf_initializeCatalogue :: bool
  mf_upgradeSource :: bool
  mf_upgradeCatalogue :: bool
  mf_storyAction :: string

definition ascii_lower :: "char \<Rightarrow> char" where
  "ascii_lower c = (if 65 \<le> (of_char c :: nat) \<and> (of_char c :: nat) \<le> 90 then char_of (of_char c + 32 :: nat) else c)"

definition ToLower :: "main_env \<Rightarrow> string \<Rightarrow> string" where
  "ToLower me s = (if is_ascii s then map ascii_lower s else mn_lower me s)"

definition source_state_dir :: "Config \<Rightarrow> string" where
  "source_state_dir cfg =
     (if src_Enabled (cfg_Source cfg) \<and> src_StateDir (cfg_Source cfg) \<noteq> [] then src_StateDir (cfg_Source cfg) else cfg_StateDir cfg)"

definition source_binding :: "Config \<Rightarrow> SourceBinding" where
  "source_binding cfg = (let s = cfg_Source cfg in
     \<lparr>bnd_SourceID = src_ID s, bnd_RundownID = src_RundownID s, bnd_MosID = mos_ID (cfg_MOS cfg), bnd_NCSID = mos_NCSID (cfg_MOS cfg),
      bnd_Transport = src_Transport s, bnd_Destination = src_URL s\<rparr>)"

definition source_modes :: "main_flags \<Rightarrow> bool list" where
  "source_modes mf = [mf_initializeSource mf, mf_initializeCatalogue mf, mf_upgradeSource mf, mf_upgradeCatalogue mf]"

definition transport_enabled :: "Config \<Rightarrow> bool" where
  "transport_enabled cfg = (let t = src_Transport (cfg_Source cfg) in
     \<not> (t = ''tcp'' \<and> \<not> srv_Enabled (cfg_Server cfg) \<or> t = ''ws-server'' \<and> \<not> wsk_Enabled (cfg_WebSocket cfg)
        \<or> t = ''ws-client'' \<and> \<not> wcc_Enabled (cfg_WSClient cfg)))"

text \<open>The loop over the additional rundowns: their directories, in order.\<close>

fun check_rundowns :: "main_env \<Rightarrow> SourceBinding \<Rightarrow> string list \<Rightarrow> SourceRundown list \<Rightarrow> string list result" where
  "check_rundowns me b ids [] = Inr []"
| "check_rundowns me b ids (r # rs) =
     (if ValidateSourceBinding (mn_url_Parse me) (b\<lparr>bnd_RundownID := sr_RundownID r\<rparr>) \<noteq> Inr () \<or> sr_RundownID r \<in> set ids \<or> sr_StateDir r = []
      then Inl (Errorf ''Additional rundowns require unique valid IDs and explicit state directories'')
      else map_sum (\<lambda>e. e) (\<lambda>ds. sr_StateDir r # ds) (check_rundowns me b (sr_RundownID r # ids) rs))"

text \<open>The loop over their directories; it gives the absolute ones.\<close>

fun check_dirs :: "main_env \<Rightarrow> string list \<Rightarrow> string list \<Rightarrow> string list result" where
  "check_dirs me seen [] = Inr []"
| "check_dirs me seen (d # ds) = (case mn_abs me d of
      None \<Rightarrow> Inl (Errorf ''Catalogue and additional rundown directories must be separate'')
    | Some a \<Rightarrow>
        if a \<in> set seen then Inl (Errorf ''Catalogue and additional rundown directories must be separate'')
        else map_sum (\<lambda>e. e) (\<lambda>as. a # as) (check_dirs me (a # seen) ds))"

definition source_checked :: "main_env \<Rightarrow> main_flags \<Rightarrow> Config \<Rightarrow> bool" where
  "source_checked me mf cfg \<longleftrightarrow> src_Enabled (cfg_Source cfg) \<or> list_ex (\<lambda>b. b) (source_modes mf)"

definition check_source :: "main_env \<Rightarrow> main_flags \<Rightarrow> Config \<Rightarrow> unit result" where
  "check_source me mf cfg =
     (let s = cfg_Source cfg; b = source_binding cfg;
          validate = (if src_CatalogueStateDir s \<noteq> [] \<and> src_RundownID s = [] \<and> \<not> mf_initializeSource mf \<and> \<not> mf_upgradeSource mf
            then ValidateSourceSetBinding else ValidateSourceBinding);
          count = length (src_Additional s) + (if src_RundownID s \<noteq> [] then 1 else 0) in
      if \<not> src_Enabled s \<or> ToLower me (cfg_StorageBackend cfg) \<noteq> ''file''
      then Inl (Errorf ''Committed source requires SOURCE_ENABLED and file storage'')
      else case validate (mn_url_Parse me) b of
        Inl e \<Rightarrow> Inl (Wrap ''Invalid committed source configuration'' e)
      | Inr _ \<Rightarrow>
          if \<not> transport_enabled cfg then Inl (Errorf ''Configured committed source transport is disabled'')
          else if length (filter (\<lambda>m. m) (source_modes mf)) > 1 then Inl (Errorf ''Provision one source or catalogue directory at a time'')
          else if count > MaxSourceMembers \<or> count > 100 \<and> \<not> has_suffix (src_URL s) ''/v2/source-sync''
            \<or> src_Additional s \<noteq> [] \<and> src_CatalogueStateDir s = []
          then Inl (Errorf ''Additional rundowns require catalogue state; retained capacity is 100 for v1 or 512 for v2'')
          else (case (mn_abs me (source_state_dir cfg), mn_abs me (cfg_StateDir cfg)) of
             (Some a, Some a') \<Rightarrow>
               (case check_rundowns me b [bnd_RundownID b] (src_Additional s) of
                  Inl e \<Rightarrow> Inl e
                | Inr dirs \<Rightarrow>
                    (case check_dirs me [a', a] ((if src_CatalogueStateDir s \<noteq> [] then [src_CatalogueStateDir s] else []) @ dirs) of
                       Inl e \<Rightarrow> Inl e | Inr _ \<Rightarrow> Inr ()))
           | _ \<Rightarrow> Inl (Errorf ''Invalid source or native state directory'')))"

section \<open>Storage and transports\<close>

datatype storage = MongoStorage | MemoryStorage | DurableStorage string | CommittedStorage string SourceBinding

definition storage_of :: "main_env \<Rightarrow> Config \<Rightarrow> storage result" where
  "storage_of me cfg =
     (let backend = ToLower me (cfg_StorageBackend cfg); s = cfg_Source cfg in
      if backend = ''mongo'' \<or> backend = ''mongodb'' then Inr MongoStorage
      else if backend = ''file'' \<or> backend = [] then
        (if src_Enabled s \<and> src_RundownID s = [] then Inr MemoryStorage
         else if src_Enabled s then Inr (CommittedStorage (source_state_dir cfg) (source_binding cfg))
         else Inr (DurableStorage (cfg_StateDir cfg)))
      else if backend = ''memory'' then Inr MemoryStorage
      else Inl (Errorf (''Unknown storage backend '' @ quote (mn_go me) (cfg_StorageBackend cfg))))"

text \<open>The stores of the source: those of the members with their directories, and the catalogue if there is one.\<close>

definition source_stores :: "Config \<Rightarrow> (string \<times> SourceBinding) list" where
  "source_stores cfg =
     (if src_RundownID (cfg_Source cfg) \<noteq> [] then [(source_state_dir cfg, source_binding cfg)] else []) @
     map (\<lambda>r. (sr_StateDir r, (source_binding cfg)\<lparr>bnd_RundownID := sr_RundownID r\<rparr>)) (src_Additional (cfg_Source cfg))"

datatype startup =
    Generate string
  | RunStoryAction
  | Upgrade string SourceBinding
  | InitializeCatalogue string SourceBinding
  | InitializeSource string SourceBinding
  | Serve storage "gateway option"

definition main_config :: "main_env \<Rightarrow> main_flags \<Rightarrow> Config result" where
  "main_config me mf = LoadConfig (if mf_configPath mf \<noteq> []
     then (mn_config me)\<lparr>cv_env := (cv_env (mn_config me))(''CONFIG_FILE'' \<mapsto> mf_configPath mf)\<rparr> else mn_config me)"

definition start :: "main_env \<Rightarrow> main_flags \<Rightarrow> startup result" where
  "start me mf =
     (if mf_generateConfig mf \<noteq> [] then Inr (Generate (mf_generateConfig mf))
      else if mf_storyAction mf \<noteq> [] then Inr RunStoryAction
      else case main_config me mf of
          Inl e \<Rightarrow> Inl (Wrap ''Failed to load configuration'' e)
        | Inr cfg \<Rightarrow>
            let b = source_binding cfg; dir = source_state_dir cfg; cdir = src_CatalogueStateDir (cfg_Source cfg) in
            case (if source_checked me mf cfg then check_source me mf cfg else Inr ()) of
              Inl e \<Rightarrow> Inl e
            | Inr _ \<Rightarrow>
                if mf_upgradeCatalogue mf then Inr (Upgrade cdir (SourceCatalogueBinding b))
                else if mf_upgradeSource mf then Inr (Upgrade dir b)
                else if mf_initializeCatalogue mf then Inr (InitializeCatalogue cdir (SourceCatalogueBinding b))
                else if mf_initializeSource mf then Inr (InitializeSource dir b)
                else (case storage_of me cfg of
                   Inl e \<Rightarrow> Inl e
                 | Inr st \<Rightarrow>
                     (case start_gateway me cfg of
                        Inl e \<Rightarrow> Inl e
                      | Inr gw \<Rightarrow>
                          if \<not> srv_Enabled (cfg_Server cfg) \<and> \<not> wsk_Enabled (cfg_WebSocket cfg) \<and> \<not> wcc_Enabled (cfg_WSClient cfg)
                          then Inl (Errorf ''No transport enabled: set server.enabled, websocket.enabled and/or wsclient.enabled'')
                          else Inr (Serve st gw))))"

section \<open>The one-shot mode\<close>

record storyActionRequest =
  sq_operation :: string
  sq_roID :: string
  sq_storyID :: string
  sq_before :: string
  sq_slug :: string
  sq_username :: string
  sq_timeout :: time

definition action_body :: "string \<Rightarrow> storyActionRequest \<Rightarrow> StoryActionBody" where
  "action_body op req =
     (if op = ''MOVE'' then NewStoryActionMove (sq_roID req) (sq_before req) [sq_storyID req]
      else if op = ''DELETE'' then NewStoryActionDelete (sq_roID req) (sq_storyID req)
      else if op = ''UPDATE'' then NewStoryActionUpdate (sq_roID req) (sq_storyID req) (sq_slug req) (Some zero_StoryBody)
      else NewStoryActionCreate (sq_roID req) (sq_before req) (sq_slug req) [] (Some zero_StoryBody))"

text \<open>The exit status and what was written; a fatal entry gives 1.\<close>

definition runStoryAction :: "oneshot_env \<Rightarrow> oneshot_io \<Rightarrow> storyActionRequest \<Rightarrow> nat \<times> string list" where
  "runStoryAction os io req =
     (let op = ToUpper (os_go os) (TrimSpace (sq_operation req)) in
      if \<not> StoryActionOperation_Valid op then (1, [])
      else case StoryAction_Send os io op (action_body op req) (sq_username req) (sq_timeout req) of
        ((_, Some e), out) \<Rightarrow> (1, out)
      | ((None, None), out) \<Rightarrow> (1, out)
      | ((Some result, None), out) \<Rightarrow>
          (if sar_TimedOut result then 1 else if Accepted (os_go os) result then 0 else 1, out))"

section \<open>What a source is started with\<close>

lemma check_rundowns_ok:
  "check_rundowns me b ids rs = Inr dirs \<Longrightarrow>
     dirs = map sr_StateDir rs \<and> distinct (map sr_RundownID rs) \<and> set (map sr_RundownID rs) \<inter> set ids = {} \<and>
     list_all (\<lambda>r. ValidateSourceBinding (mn_url_Parse me) (b\<lparr>bnd_RundownID := sr_RundownID r\<rparr>) = Inr ()) rs"
proof (induction me b ids rs arbitrary: dirs rule: check_rundowns.induct)
  case (2 me b ids r rs)
  let ?bad = "ValidateSourceBinding (mn_url_Parse me) (b\<lparr>bnd_RundownID := sr_RundownID r\<rparr>) \<noteq> Inr () \<or> sr_RundownID r \<in> set ids \<or> sr_StateDir r = []"
  have pass: "\<not> ?bad" using 2(2) by (auto split: if_splits)
  obtain ds where ds: "check_rundowns me b (sr_RundownID r # ids) rs = Inr ds" "dirs = sr_StateDir r # ds"
    using 2(2) pass by (cases "check_rundowns me b (sr_RundownID r # ids) rs") auto
  show ?case using 2(1) [OF pass ds(1)] pass ds(2) by auto
qed simp

lemma check_dirs_ok:
  "check_dirs me seen ds = Inr as \<Longrightarrow> map (mn_abs me) ds = map Some as \<and> distinct as \<and> set as \<inter> set seen = {}"
proof (induction me seen ds arbitrary: "as" rule: check_dirs.induct)
  case (2 me seen d ds)
  obtain a where a: "mn_abs me d = Some a" "a \<notin> set seen" using 2(2) by (auto split: option.splits if_splits)
  obtain bs where bs: "check_dirs me (a # seen) ds = Inr bs" "as = a # bs"
    using 2(2) a by (cases "check_dirs me (a # seen) ds") auto
  show ?case using 2(1) [OF a bs(1)] a bs(2) by auto
qed simp

lemma check_source_ok:
  assumes "check_source me mf cfg = Inr ()"
  shows "src_Enabled (cfg_Source cfg)" "transport_enabled cfg" "length (source_stores cfg) \<le> MaxSourceMembers"
    "\<exists>a a' as dirs. mn_abs me (source_state_dir cfg) = Some a \<and> mn_abs me (cfg_StateDir cfg) = Some a' \<and>
       check_rundowns me (source_binding cfg) [src_RundownID (cfg_Source cfg)] (src_Additional (cfg_Source cfg)) = Inr dirs \<and>
       check_dirs me [a', a] ((if src_CatalogueStateDir (cfg_Source cfg) \<noteq> [] then [src_CatalogueStateDir (cfg_Source cfg)] else []) @ dirs) = Inr as"
proof -
  show "src_Enabled (cfg_Source cfg)" "transport_enabled cfg"
    using assms by (simp_all add: check_source_def Let_def split: if_splits sum.splits)
  show "length (source_stores cfg) \<le> MaxSourceMembers"
    using assms by (auto simp: check_source_def source_stores_def Let_def split: if_splits sum.splits)
  have rid: "bnd_RundownID (source_binding cfg) = src_RundownID (cfg_Source cfg)" by (simp add: source_binding_def Let_def)
  show "\<exists>a a' as dirs. mn_abs me (source_state_dir cfg) = Some a \<and> mn_abs me (cfg_StateDir cfg) = Some a' \<and>
       check_rundowns me (source_binding cfg) [src_RundownID (cfg_Source cfg)] (src_Additional (cfg_Source cfg)) = Inr dirs \<and>
       check_dirs me [a', a] ((if src_CatalogueStateDir (cfg_Source cfg) \<noteq> [] then [src_CatalogueStateDir (cfg_Source cfg)] else []) @ dirs) = Inr as"
    using assms unfolding check_source_def Let_def rid by (simp split: if_split_asm sum.split_asm option.split_asm prod.split_asm)
qed

text \<open>The directories the process writes a source to, and that no two of them are the same.\<close>

definition source_dirs :: "Config \<Rightarrow> string list" where
  "source_dirs cfg = (let s = cfg_Source cfg in
     (if src_RundownID s \<noteq> [] then [source_state_dir cfg] else []) @
     (if src_CatalogueStateDir s \<noteq> [] then [src_CatalogueStateDir s] else []) @ map sr_StateDir (src_Additional s))"

definition separated :: "main_env \<Rightarrow> string list \<Rightarrow> bool" where
  "separated me dirs \<longleftrightarrow> list_all (\<lambda>d. mn_abs me d \<noteq> None) dirs \<and> distinct (map (mn_abs me) dirs)"

lemma separatedI:
  assumes "map (mn_abs me) dirs = map Some as" "distinct as"
  shows "separated me dirs"
proof -
  have "mn_abs me d \<noteq> None" if "d \<in> set dirs" for d
    using that arg_cong [OF assms(1), of set] by auto
  then show ?thesis using assms by (simp add: separated_def list_all_iff distinct_map)
qed

lemma start_checked:
  assumes "start me mf = Inr (Serve st gw)" "main_config me mf = Inr cfg"
  shows "src_Enabled (cfg_Source cfg) \<Longrightarrow> check_source me mf cfg = Inr ()" "storage_of me cfg = Inr st" "start_gateway me cfg = Inr gw"
  using assms by (auto simp: start_def source_checked_def Let_def split: if_splits sum.splits)

text \<open>
  C20. A process with a committed source serves only with a configuration that keeps its stores apart: the rundowns are
  distinct, the directories of the catalogue and of the rundowns exist as absolute paths and are pairwise different,
  their number is within the capacity, and the transport the source is bound to is enabled.
\<close>

theorem start_separates_stores:
  assumes "start me mf = Inr (Serve st gw)" "main_config me mf = Inr cfg" "src_Enabled (cfg_Source cfg)"
  shows "separated me (source_dirs cfg) \<and> distinct (map (\<lambda>m. bnd_RundownID (snd m)) (source_stores cfg))
    \<and> length (source_stores cfg) \<le> MaxSourceMembers \<and> transport_enabled cfg \<and> set (map fst (source_stores cfg)) \<subseteq> set (source_dirs cfg)"
proof -
  note ok = check_source_ok [OF start_checked(1) [OF assms]]
  let ?s = "cfg_Source cfg"
  let ?cat = "if src_CatalogueStateDir ?s \<noteq> [] then [src_CatalogueStateDir ?s] else []"
  obtain a a' as dirs where dirs: "mn_abs me (source_state_dir cfg) = Some a"
      "check_rundowns me (source_binding cfg) [src_RundownID ?s] (src_Additional ?s) = Inr dirs" "check_dirs me [a', a] (?cat @ dirs) = Inr as"
    using ok(4) by blast
  note rows = check_rundowns_ok [OF dirs(2)] and abs = check_dirs_ok [OF dirs(3)]
  have "map (mn_abs me) (source_dirs cfg) = map Some ((if src_RundownID ?s \<noteq> [] then [a] else []) @ as)"
    using abs rows dirs(1) by (simp add: source_dirs_def Let_def)
  moreover have "distinct ((if src_RundownID ?s \<noteq> [] then [a] else []) @ as)" using abs by auto
  ultimately have "separated me (source_dirs cfg)" by (rule separatedI)
  moreover have "distinct (map (\<lambda>m. bnd_RundownID (snd m)) (source_stores cfg))"
    using rows by (auto simp: source_stores_def source_binding_def Let_def comp_def)
  moreover have "set (map fst (source_stores cfg)) \<subseteq> set (source_dirs cfg)"
    by (auto simp: source_stores_def source_dirs_def Let_def)
  ultimately show ?thesis using ok(2,3) by simp
qed

definition example_source_config :: Config where
  "example_source_config = default_Config\<lparr>
     cfg_Server := (cfg_Server default_Config)\<lparr>srv_Enabled := True\<rparr>,
     cfg_Gateway := (cfg_Gateway default_Config)\<lparr>gw_Enabled := True, gw_SourceID := ''G''\<rparr>,
     cfg_Source := (cfg_Source default_Config)\<lparr>src_Enabled := True, src_StateDir := ''a'', src_ID := ''S'', src_RundownID := ''R1'',
       src_Transport := ''tcp'', src_URL := ''http://127.0.0.1:9/v2/source-sync'', src_CatalogueStateDir := ''c'',
       src_Additional := [\<lparr>sr_RundownID = ''R2'', sr_StateDir = ''b''\<rparr>]\<rparr>\<rparr>"

definition example_main :: main_env where
  "example_main = \<lparr>mn_config = \<lparr>cv_env = (\<lambda>k. if k = ''GATEWAY_AUTH_TOKENS'' then Some ''desk:s3cret'' else None), cv_duration = (\<lambda>_. None),
       cv_float = (\<lambda>_. None), cv_rundowns = (\<lambda>_. NullRundowns), cv_file = (\<lambda>p. if p = ''config.yaml'' then YamlSets (\<lambda>_. example_source_config) else YamlMissing)\<rparr>,
     mn_go = example_env, mn_join = (\<lambda>a b. a @ ''/'' @ b), mn_abs = (\<lambda>d. Some (CHR ''/'' # d)), mn_lower = id,
     mn_host = (\<lambda>a. Some (takeWhile (\<lambda>c. c \<noteq> CHR '':'') a)), mn_loopback = (\<lambda>h. Some (h = ''127.0.0.1'')),
     mn_url_Parse = (\<lambda>_. Some \<lparr>url_Scheme = ''http'', url_loopback = True, url_user = False, url_RawQuery = [], url_Fragment = [],
       url_Path = ''/v2/source-sync'', url_RawPath = []\<rparr>)\<rparr>"

definition no_flags :: main_flags where
  "no_flags = \<lparr>mf_generateConfig = [], mf_configPath = [], mf_initializeSource = False, mf_initializeCatalogue = False,
     mf_upgradeSource = False, mf_upgradeCatalogue = False, mf_storyAction = []\<rparr>"

definition example_serve :: startup where
  "example_serve = Serve (CommittedStorage ''a'' (source_binding example_source_config))
     (Some \<lparr>gt_addr = ''127.0.0.1:8091'', gt_tokens = [(''s3cret'', ''desk'')], gt_statePath = ''state/timingplay/timingplay.jsonl''\<rparr>)"

lemma example_start: "start example_main no_flags = Inr example_serve"
  by code_simp

lemma example_main_config: "\<exists>cfg. main_config example_main no_flags = Inr cfg \<and> src_Enabled (cfg_Source cfg) \<and> gw_Enabled (cfg_Gateway cfg)
    \<and> source_dirs cfg = [''a'', ''c'', ''b''] \<and> gw_AuthTokens (cfg_Gateway cfg) = ''desk:s3cret''"
  by (rule exI [of _ "projr (main_config example_main no_flags)"]) code_simp

theorem start_separates_stores_witness: "separated example_main [''a'', ''c'', ''b'']"
proof -
  obtain cfg where cfg: "main_config example_main no_flags = Inr cfg" "src_Enabled (cfg_Source cfg)" "source_dirs cfg = [''a'', ''c'', ''b'']"
    using example_main_config by blast
  show ?thesis using start_separates_stores [OF example_start [unfolded example_serve_def] cfg(1,2)] cfg(3) by simp
qed

section \<open>Who may use the gateway\<close>

lemma set_gm_set: "x \<in> set (gm_set k v m) \<Longrightarrow> x = (k, v) \<or> x \<in> set m"
  by (induction m) (auto split: if_splits)

lemma parse_pairs_nonempty:
  "parse_pairs i ps tokens = Inr m \<Longrightarrow> list_all (\<lambda>(t, c). t \<noteq> [] \<and> c \<noteq> []) tokens \<Longrightarrow> list_all (\<lambda>(t, c). t \<noteq> [] \<and> c \<noteq> []) m"
proof (induction i ps tokens rule: parse_pairs.induct)
  case (2 i p ps tokens)
  have "list_all (\<lambda>(t, c). t \<noteq> [] \<and> c \<noteq> []) (gm_set t c tokens)" if "t \<noteq> []" "c \<noteq> []" for t c
    using 2(4) that by (auto simp: list_all_iff dest: set_gm_set)
  then show ?case using 2 by (auto simp: Let_def split: if_splits prod.splits)
qed simp

text \<open>A malformed entry is named by its position: the error never holds a caller or a token.\<close>

definition entry_faults :: "string list" where
  "entry_faults = ['' is missing the ':' separator'', '' has an empty caller name'', '' has an empty token'']"

lemma entry_faults_in:
  "'' is missing the ':' separator'' \<in> set entry_faults" "'' has an empty caller name'' \<in> set entry_faults" "'' has an empty token'' \<in> set entry_faults"
  by (simp_all add: entry_faults_def)

lemma parse_error_reveals_nothing:
  "parse_pairs i ps tokens = Inl e \<Longrightarrow> \<exists>n k. n < i + length ps \<and> k \<in> set entry_faults \<and> e = entry_error n k"
proof (induction i ps tokens rule: parse_pairs.induct)
  case (2 i p ps tokens)
  have here: "k \<in> set entry_faults \<Longrightarrow> e = entry_error i k \<Longrightarrow> ?case" for k by (intro exI [of _ i] exI [of _ k]) simp
  have later: "\<exists>n k. n < Suc i + length ps \<and> k \<in> set entry_faults \<and> e = entry_error n k \<Longrightarrow> ?case" by simp
  obtain caller token found where cut: "cut_char (CHR '':'') (TrimSpace p) = (caller, token, found)" by (rule prod_cases3)
  note step = 2(3) [unfolded parse_pairs.simps Let_def cut prod.case]
  show ?case
  proof (cases "TrimSpace p = []")
    case True
    then show ?thesis using 2(1) [OF refl True] step by (intro later) simp
  next
    case False
    show ?thesis
    proof (cases "found \<and> caller \<noteq> [] \<and> token \<noteq> []")
      case True
      then show ?thesis using 2(2) [OF refl False cut [symmetric] refl] step False by (intro later) simp
    next
      case bad: False
      then have "\<exists>k \<in> set entry_faults. e = entry_error i k" using step False entry_faults_in by (simp split: if_splits) blast+
      then show ?thesis using here by blast
    qed
  qed
qed simp

text \<open>
  The gateway serves only on a local address and only with at least one caller, and every caller and token it knows
  is not empty; a malformed list of tokens is refused with an error that depends on no caller and no token, only on the
  position and the kind of the mistake.
\<close>

theorem gateway_guarded:
  assumes "main_config me mf = Inr cfg" "gw_Enabled (cfg_Gateway cfg)"
  shows "case ParseAuthTokens (gw_AuthTokens (cfg_Gateway cfg)) of
      Inl e \<Rightarrow> (\<exists>n k. k \<in> set entry_faults \<and> e = entry_error n k) \<and> (\<nexists>st gw. start me mf = Inr (Serve st gw))
    | Inr tokens \<Rightarrow> (\<forall>st gw. start me mf = Inr (Serve st gw) \<longrightarrow> (\<exists>g. gw = Some g \<and> IsLocalBind me (gt_addr g) \<and> gt_tokens g = tokens
        \<and> tokens \<noteq> [] \<and> list_all (\<lambda>(t, c). t \<noteq> [] \<and> c \<noteq> []) tokens))"
proof (cases "ParseAuthTokens (gw_AuthTokens (cfg_Gateway cfg))")
  case (Inl e)
  have "\<nexists>st gw. start me mf = Inr (Serve st gw)"
    using start_checked(3) [OF _ assms(1)] assms(2) Inl by (fastforce simp: start_gateway_def Let_def split: if_splits)
  moreover have "\<exists>n k. k \<in> set entry_faults \<and> e = entry_error n k"
    using parse_error_reveals_nothing [of 0 _ "[]" e] Inl by (force simp: ParseAuthTokens_def Let_def split: if_splits)
  ultimately show ?thesis using Inl by simp
next
  case (Inr tokens)
  have "list_all (\<lambda>(t, c). t \<noteq> [] \<and> c \<noteq> []) tokens"
    using Inr parse_pairs_nonempty [of 0 _ "[]" tokens] by (auto simp: ParseAuthTokens_def Let_def split: if_splits)
  moreover have "\<exists>g. gw = Some g \<and> IsLocalBind me (gt_addr g) \<and> gt_tokens g = tokens \<and> tokens \<noteq> []"
    if "start me mf = Inr (Serve st gw)" for st gw
    using start_checked(3) [OF that assms(1)] assms(2) Inr by (auto simp: start_gateway_def Let_def split: if_splits)
  ultimately show ?thesis using Inr by auto
qed

theorem gateway_guarded_witness:
  "IsLocalBind example_main ''127.0.0.1:8091'' \<and> ParseAuthTokens ''desk:s3cret'' = Inr [(''s3cret'', ''desk'')]"
proof -
  obtain cfg where cfg: "main_config example_main no_flags = Inr cfg" "gw_Enabled (cfg_Gateway cfg)" "gw_AuthTokens (cfg_Gateway cfg) = ''desk:s3cret''"
    using example_main_config by blast
  have tokens: "ParseAuthTokens ''desk:s3cret'' = Inr [(''s3cret'', ''desk'')]" by code_simp
  show ?thesis using gateway_guarded [OF cfg(1,2)] example_start tokens cfg(3) by (auto simp: example_serve_def)
qed

section \<open>The list of tokens\<close>

definition visible :: "char \<Rightarrow> bool" where
  "visible c \<longleftrightarrow> 33 \<le> (of_char c :: nat) \<and> (of_char c :: nat) \<le> 126"

lemma find_prefix_visible:
  "list_all (\<lambda>e. e = [] \<or> \<not> visible (hd e)) es \<Longrightarrow> s = [] \<or> visible (hd s) \<Longrightarrow> find_prefix es s = None"
  by (cases s; induction es) (auto simp: neq_Nil_conv)

lemma spaces_invisible:
  "list_all (\<lambda>e. e = [] \<or> \<not> visible (hd e)) space_encodings" "list_all (\<lambda>e. e = [] \<or> \<not> visible (hd e)) (map rev space_encodings)"
  by code_simp+

lemma TrimSpace_visible:
  assumes "s = [] \<or> visible (hd s) \<and> visible (last s)"
  shows "TrimSpace s = s"
proof -
  have "trim_prefixes space_encodings s = s"
    using find_prefix_visible [OF spaces_invisible(1)] assms by (subst trim_prefixes.simps) auto
  moreover have "trim_prefixes (map rev space_encodings) (rev s) = rev s"
    using find_prefix_visible [OF spaces_invisible(2), of "rev s"] assms by (subst trim_prefixes.simps) (auto simp: hd_rev)
  ultimately show ?thesis by (simp add: TrimSpace_def trim_left_def trim_right_def)
qed

lemma split_char_free: "c \<notin> set x \<Longrightarrow> split_char c x = [x]"
  by (induction x) auto

lemma split_char_append: "c \<notin> set x \<Longrightarrow> split_char c (x @ c # r) = x # split_char c r"
  by (induction x) auto

lemma split_join: "list_all (\<lambda>x. c \<notin> set x) xs \<Longrightarrow> xs \<noteq> [] \<Longrightarrow> split_char c (join_strings [c] xs) = xs"
  by (induction "[c]" xs rule: join_strings.induct) (auto simp: split_char_free split_char_append)

text \<open>A caller and a token as they can be written: visible characters, no comma, and no colon in the caller.\<close>

definition token_pair :: "string \<times> string \<Rightarrow> bool" where
  "token_pair p \<longleftrightarrow> fst p \<noteq> [] \<and> snd p \<noteq> [] \<and> list_all visible (fst p @ snd p) \<and> CHR '','' \<notin> set (fst p @ snd p) \<and> CHR '':'' \<notin> set (fst p)"

definition written_pair :: "string \<times> string \<Rightarrow> string" where
  "written_pair p = fst p @ '':'' @ snd p"

lemma written_pair_trim: "token_pair p \<Longrightarrow> TrimSpace (written_pair p) = written_pair p \<and> written_pair p \<noteq> []
    \<and> visible (hd (written_pair p)) \<and> visible (last (written_pair p))"
  using TrimSpace_visible [of "written_pair p"]
  by (auto simp: written_pair_def token_pair_def list_all_iff hd_append)

lemma written_pair_cut:
  assumes "token_pair p"
  shows "cut_char (CHR '':'') (written_pair p) = (fst p, snd p, True)"
proof -
  have "x \<noteq> CHR '':''" if "x \<in> set (fst p)" for x using assms that by (auto simp: token_pair_def)
  then show ?thesis by (simp add: cut_char_def written_pair_def takeWhile_append2 dropWhile_append2)
qed

lemma parse_pairs_written:
  "list_all token_pair ps \<Longrightarrow> parse_pairs i (map written_pair ps) tokens = Inr (fold (\<lambda>p. gm_set (snd p) (fst p)) ps tokens)"
  by (induction ps arbitrary: i tokens) (simp_all add: written_pair_trim written_pair_cut token_pair_def Let_def)

lemma fold_set_other: "t \<notin> snd ` set ps \<Longrightarrow> gm_get (fold (\<lambda>p. gm_set (snd p) (fst p)) ps m) t = gm_get m t"
  by (induction ps arbitrary: m) (auto simp: gm_get_set)

lemma fold_set_get: "distinct (map snd ps) \<Longrightarrow> p \<in> set ps \<Longrightarrow> gm_get (fold (\<lambda>p. gm_set (snd p) (fst p)) ps m) (snd p) = Some (fst p)"
  by (induction ps arbitrary: m) (auto simp: gm_get_set fold_set_other)

lemma written_pairs_visible:
  "list_all token_pair ps \<Longrightarrow> ps \<noteq> [] \<Longrightarrow> visible (hd (join_strings '','' (map written_pair ps))) \<and> visible (last (join_strings '','' (map written_pair ps)))
    \<and> join_strings '','' (map written_pair ps) \<noteq> []"
proof (induction ps)
  case (Cons p ps)
  then show ?case using written_pair_trim [of p] by (cases ps) (auto simp: hd_append)
qed simp

text \<open>
  C1. The list of callers and tokens reads back: pairs of visible characters without a comma, with distinct tokens and
  no colon in a caller, written as \<open>caller:token\<close> and joined by commas, give exactly the map from each token to its
  caller.
\<close>

theorem auth_tokens_read_back:
  assumes "list_all token_pair ps" "distinct (map snd ps)"
  shows "\<exists>m. ParseAuthTokens (join_strings '','' (map written_pair ps)) = Inr m \<and>
    (\<forall>t. gm_get m t = map_of (map (\<lambda>p. (snd p, fst p)) ps) t)"
proof (cases "ps = []")
  case False
  let ?raw = "join_strings '','' (map written_pair ps)"
  have "list_all (\<lambda>x. CHR '','' \<notin> set x) (map written_pair ps)"
    using assms(1) by (auto simp: list_all_iff written_pair_def token_pair_def)
  then have "split_char (CHR '','') ?raw = map written_pair ps" using False by (intro split_join) auto
  moreover have "TrimSpace ?raw = ?raw" "?raw \<noteq> []" using written_pairs_visible [OF assms(1) False] TrimSpace_visible by blast+
  ultimately have run: "ParseAuthTokens ?raw = Inr (fold (\<lambda>p. gm_set (snd p) (fst p)) ps [])"
    using parse_pairs_written [OF assms(1)] by (simp add: ParseAuthTokens_def)
  have "gm_get (fold (\<lambda>p. gm_set (snd p) (fst p)) ps []) t = map_of (map (\<lambda>p. (snd p, fst p)) ps) t" for t
  proof (cases "t \<in> snd ` set ps")
    case True
    then obtain p where p: "p \<in> set ps" "t = snd p" by auto
    then have "map_of (map (\<lambda>p. (snd p, fst p)) ps) t = Some (fst p)"
      using assms(2) by (intro map_of_is_SomeI) (auto simp: comp_def)
    then show ?thesis using fold_set_get [OF assms(2) p(1)] p(2) by simp
  next
    case False
    then have "map_of (map (\<lambda>p. (snd p, fst p)) ps) t = None" by (auto simp: map_of_eq_None_iff image_image)
    then show ?thesis using fold_set_other [OF False, of "[]"] by simp
  qed
  then show ?thesis using run by blast
qed (simp add: ParseAuthTokens_def)

theorem auth_tokens_read_back_witness: "\<exists>m. ParseAuthTokens ''desk:s3:cret,ops:x'' = Inr m \<and> gm_get m ''s3:cret'' = Some ''desk''"
proof -
  have "list_all token_pair [(''desk'', ''s3:cret''), (''ops'', ''x'')]" by code_simp
  from auth_tokens_read_back [OF this] show ?thesis by (auto simp: written_pair_def)
qed

section \<open>The exit status\<close>

text \<open>
  The one-shot mode ends with status 0 only if one message was sent and an roAck that is not a NACK was read in
  time: silence, a refusal and every failure give 1.
\<close>

theorem exit_zero_means_accepted:
  assumes "runStoryAction os io req = (0, out)"
  shows "accepting_ack_read os io (sq_timeout req) \<and> length out = 1"
proof -
  let ?op = "ToUpper (os_go os) (TrimSpace (sq_operation req))"
  obtain res er out' where run: "StoryAction_Send os io ?op (action_body ?op req) (sq_username req) (sq_timeout req) = ((res, er), out')"
    by (metis prod.collapse)
  obtain r where "res = Some r" "er = None" "Accepted (os_go os) r" "out' = out"
    using assms run by (auto simp: runStoryAction_def Let_def split: if_splits option.splits)
  then show ?thesis using send_accepted [of os io ?op "action_body ?op req" "sq_username req" "sq_timeout req" r er out'] run by simp
qed

theorem exit_zero_means_accepted_witness:
  "accepting_ack_read example_os (example_oneshot [(1, ReadFrame (TextFrame ''OK''))]) 5"
proof -
  let ?req = "\<lparr>sq_operation = '' delete'', sq_roID = ''R'', sq_storyID = ''S'', sq_before = [], sq_slug = [], sq_username = ''u'', sq_timeout = 5\<rparr>"
  let ?run = "runStoryAction example_os (example_oneshot [(1, ReadFrame (TextFrame ''OK''))]) ?req"
  have "fst ?run = 0" by code_simp
  then have "?run = (0, snd ?run)" by (metis prod.collapse)
  from exit_zero_means_accepted [OF this] show ?thesis by simp
qed

text \<open>A MOVE without a story to move passes the checks: the list of stories has one, empty entry.\<close>

lemma move_without_story_passes:
  "sq_storyID req = [] \<Longrightarrow> TrimSpace (sq_roID req) \<noteq> [] \<Longrightarrow> TrimSpace (sq_before req) \<noteq> [] \<Longrightarrow>
     StoryActionBody_Validate e ''MOVE'' (action_body ''MOVE'' req) = Inr ()"
  by (simp add: action_body_def built_requests_validate)

end
