(* ===== verification/Spec2Isabelle.thy ===== *)
theory Spec2Isabelle
  imports Moves Actions Deletions Insertions Replacing OnAir StoryOps DedupFile MessageID Dispatching Wire SourceSafety SourceSync Transport
    Content CatalogueSafety Publisher SourceDispatch Sessions Startup
begin

text \<open>
  OpenMOS, a gateway for the MOS protocol between a newsroom system (NCS) and broadcast devices.

  The program. A transport (a MOS 2.x socket or a MOS 4 WebSocket, \<open>src/internal/server\<close>) frames and
  checks messages, deduplicates retries and hands each message to a shared dispatcher. The dispatcher
  applies it to the service (\<open>src/internal/service\<close>), which keeps running orders, stories, items and
  objects in repositories (\<open>src/internal/repository\<close>) and publishes events (\<open>src/internal/events\<close>),
  and answers the peer. On a message about a running order the device does not hold, the dispatcher
  refuses it and recovers: a guard limits the rate of requests and a discovery walk sends them one at
  a time. The wire messages are in \<open>src/internal/xml\<close>, the data model in \<open>src/internal/model\<close>.

  In the committed source mode one rundown is kept with its evidence: each message is staged, validated
  and written with its receipt as one checkpoint, from which a snapshot of the rundown is derived; a
  publisher delivers the snapshot to a local receiver. Without it the repositories may be durable: a
  snapshot file is rewritten after each change.

  The theories, in the order of the code's layers:

  \<^item> \<open>Prelude\<close>: maps as association lists, operations with errors, loops over slices, sorting.
  \<^item> \<open>GoLib\<close>: what is used of Go's standard library, on byte strings; \<open>go_env\<close> holds what is a parameter.
  \<^item> \<open>Model\<close>, \<open>Messages\<close>: the structs of \<open>internal/model\<close> and \<open>internal/xml\<close> as records.
  \<^item> \<open>Repository\<close>: the memory repositories, with the locales \<open>entity_repo\<close> and \<open>ordered_repo\<close> for what a
    repository promises, interpreted for each of them.
  \<^item> \<open>Events\<close>: the event bus.
  \<^item> \<open>Service\<close>: the state of the service, the repository calls on it and the store invariant \<open>svc_ok\<close>.
  \<^item> \<open>Identity\<close>: the composite keys of stories and items and their resolution.
  \<^item> \<open>ElementAction\<close> with \<open>Moves\<close>, \<open>Actions\<close>, \<open>Deletions\<close> and \<open>Insertions\<close>: \<open>element_action.go\<close> and what
    MOVE, SWAP, DELETE and INSERT do to the listing of a running order.
  \<^item> \<open>Timing\<close>: sample counts, time bases, media paths, durations, external metadata.
  \<^item> \<open>RunningOrders\<close> with \<open>Replacing\<close>: \<open>mos.go\<close> and \<open>resync.go\<close>; roReplace and roDelete are exact.
  \<^item> \<open>OnAir\<close>: \<open>onair.go\<close> and \<open>mostime.go\<close>; the on-air pointer under status reports.
  \<^item> \<open>StoryCues\<close>, \<open>SourceContent\<close>: cues and items of a story body in document order.
  \<^item> \<open>StoryOps\<close>: \<open>control.go\<close> and \<open>story.go\<close>; the service as a state machine whose reachable states keep
    the store invariant.
  \<^item> \<open>Dedup\<close>, \<open>DedupFile\<close>: the deduplication stores. Both implement the locale \<open>dedup_store\<close>, a bounded
    queue; replaying the log gives back the memory.
  \<^item> \<open>MessageID\<close>: the durable identifier sequence; no identifier is issued twice.
  \<^item> \<open>Discovery\<close>, \<open>Resync\<close>: the discovery walk and the resync guard.
  \<^item> \<open>Scope\<close>: where external metadata may be emitted.
  \<^item> \<open>Dispatch\<close>, \<open>Dispatching\<close>: the dispatcher, composed of the service, the guard and the walk, and what it
    keeps, answers and requests.
  \<^item> \<open>Wire\<close>: the UCS-2BE encoding and the framer of the socket; a stream of messages arrives as it was
    sent, however it is cut into reads.
  \<^item> \<open>Durable\<close>, \<open>Checkpoint\<close>: the snapshot file of the repositories and the checkpoint file of a source; a
    restart gives the same answers, and a commit happens as a whole or not at all.
  \<^item> \<open>SourceState\<close>, \<open>SourceIdentity\<close>: what a source holds of its rundown, how messages change it, the
    snapshot derived from it and the identities of its occurrences.
  \<^item> \<open>Source\<close>, \<open>SourceSafety\<close>: sessions, applying messages with receipts, one round of the publisher, and
    what holds in every run with failures and restarts: a snapshot that says it is complete was received
    completely, and a retried message is answered from its receipt.
  \<^item> \<open>SourceSync\<close>: the chunked transfer of a snapshot to a version 2 destination; it ends, and the
    destination commits exactly what was transferred.
  \<^item> \<open>Content\<close>: the content-addressed objects of version 2 checkpoints; a save never loses the previous
    checkpoint, and collection removes only what no root needs.
  \<^item> \<open>Catalogue\<close>, \<open>SourceSet\<close>, \<open>CatalogueSafety\<close>: several rundowns of one source, the inventory of their
    stores and the catalogue that is published; it is complete only while a listing of the peer is in force.
  \<^item> \<open>SourceDispatch\<close>: the transport side of a source; a listing is applied only as the answer to a request, and
    every request that was written can be answered.
  \<^item> \<open>Publisher\<close>: the four workers that deliver the catalogue and the rundowns; none of them starves.
  \<^item> \<open>Envelope\<close>: the mos envelope and its checks, and the channels of a message type.
  \<^item> \<open>Transport\<close>: the handlers of the socket connection and of the WebSocket server around the dispatcher;
    which retries are applied again, and how heartbeats are answered.
  \<^item> \<open>Parser\<close>: the message parser and the envelope generator; a message is found wherever its bytes are cut.
  \<^item> \<open>Client\<close>: the MOS 4 client with its lanes, handshake, heartbeats and reconnection; a passive lane
    carries no request, heartbeats do not loop, and the waits between sessions are bounded.
  \<^item> \<open>Sessions\<close>: connections over their life, from the read loop of the socket to the tables of both servers; how
    messages are cut into reads does not matter, and a peer has one open WebSocket session per channel.
  \<^item> \<open>OneShot\<close>: the story action and timing report clients; silence never counts as acceptance.
  \<^item> \<open>Startup\<close>: the decisions of \<open>main.go\<close> and the checks of the timing gateway; the stores of a source are kept
    apart, and the gateway serves only known callers on a local address.
  \<^item> \<open>Config\<close>: the configuration from defaults, file and environment.

  Conventions. A Go string is a byte string, a HOL \<open>string\<close>. A Go map is an association list with
  distinct keys, and theorems about maps do not depend on its order. Orders, versions and counters are
  unbounded integers; where the width matters (durations, parsed integers, message identifiers) it is
  written out. An operation of the service takes a state and returns an error or a value with the new
  state, also after an error: what was written stays written. One operation reads the clock once. A
  clone is equal to its original, so the copies the repositories make are the identity. A nil slice or
  map and an empty one are the same unless the code tells them apart. Locks make each operation
  atomic. A file is Absent, Unreadable or Holds a value: the JSON encoding is taken to read back what was
  written, and how a write ends is an argument. Logging is not modelled. Parsing of XML text to a tree is done by \<open>encoding/xml\<close>; the model
  starts from the tree.

  Loops are structural or have a termination proof. One number bounds a recursion, the nesting of envelopes in
  \<open>ParseMessage\<close>, and the result does not depend on it once it exceeds the depth of the document.

  Not modelled: the MongoDB repositories (a driver outside the sources), capture, logging and monitoring, the
  gateway service itself (another module), and what \<open>main.go\<close> does once the transports run: opening files and
  listeners, signals and the order of the shutdown.
\<close>

end
